(* ===== verification/Prelude.thy ===== *)
theory Prelude
  imports Main "HOL-Library.Product_Lexorder" "HOL-Library.List_Lexorder" "HOL-Library.Char_ord"
begin

section \<open>Shared vocabulary: exceptions, transactions' result type, tables as lists\<close>

text \<open>
  What every component uses: the Python exceptions the modelled code raises (as values of a
  sum type), truthiness of strings, SQL tables as lists of rows with the three statements the
  code issues on them (an UPDATE with a WHERE, a SELECT of one row, a SELECT with ORDER BY and
  LIMIT), and the lemmas about them that the component proofs share.  Text is a HOL \<open>string\<close>;
  instants are integers that count microseconds since the epoch (the theory \<open>IsoTime\<close> shows
  that the texts the code stores compare as these integers do).
\<close>

subsection \<open>Named collections\<close>

named_theorems table_simps \<open>rewrite rules for UPDATE, DELETE and SELECT on tables\<close>
named_theorems frame_simps \<open>what an operation leaves unchanged\<close>
named_theorems op_defs \<open>definitions of operations, unfolded to look at their branches\<close>

subsection \<open>Exceptions as values\<close>

datatype exn =
    ValueError string
  | LookupError string
  | PermissionError string
  | OperationalError string
  | IntegrityError
  | QuotaExceeded string
  | NoEnabledSubscriptions string
  | SourceScheduleUnavailable string
  | JobIneligible string
  | InvalidTransition string
  | ActorOpsConflict string
  | ActorOpsNotFound string
  | ActorOpsRepositoryError string
  | ApiError string nat
  | InvalidSystemSetting string
  | SystemSettingsUnavailable string
  | SystemSettingsGenerationConflict string
  | SystemSettingProposalError string
  | RuleError string

type_synonym ('s, 'a) outcome = "(exn + 'a) \<times> 's"
type_synonym time = int

abbreviation Raise :: "exn \<Rightarrow> 's \<Rightarrow> ('s, 'a) outcome" where
  "Raise e s \<equiv> (Inl e, s)"

abbreviation Return :: "'a \<Rightarrow> 's \<Rightarrow> ('s, 'a) outcome" where
  "Return x s \<equiv> (Inr x, s)"

definition succeeded :: "('s, 'a) outcome \<Rightarrow> bool" where
  "succeeded r \<longleftrightarrow> (\<exists>x s. r = (Inr x, s))"

lemma succeeded_simps [simp]:
  "succeeded (Inr x, s)" "\<not> succeeded (Inl e, s)"
  by (auto simp: succeeded_def)

definition seconds :: "int \<Rightarrow> time" where
  "seconds n = n * 1000000"

definition minutes :: "int \<Rightarrow> time" where
  "minutes n = seconds (60 * n)"

definition days :: "int \<Rightarrow> time" where
  "days n = seconds (86400 * n)"

lemma seconds_mono: "0 < n \<Longrightarrow> 0 < seconds n"
  by (simp add: seconds_def)

lemma minutes_pos: "0 < n \<Longrightarrow> 0 < minutes n"
  by (simp add: minutes_def seconds_def)

lemma days_pos: "0 < n \<Longrightarrow> 0 < days n"
  by (simp add: days_def seconds_def)

subsection \<open>Python truthiness\<close>

abbreviation truthy :: "string \<Rightarrow> bool" where
  "truthy s \<equiv> s \<noteq> []"

fun or_empty :: "string option \<Rightarrow> string" where
  "or_empty None = []"
| "or_empty (Some s) = s"

subsection \<open>Tables\<close>

text \<open>UPDATE: every row that satisfies the WHERE clause is rewritten; the row count is the
  number of such rows.\<close>

definition update_where :: "('r \<Rightarrow> bool) \<Rightarrow> ('r \<Rightarrow> 'r) \<Rightarrow> 'r list \<Rightarrow> 'r list" where
  "update_where P f rows = map (\<lambda>r. if P r then f r else r) rows"

definition row_count :: "('r \<Rightarrow> bool) \<Rightarrow> 'r list \<Rightarrow> nat" where
  "row_count P rows = length (filter P rows)"

text \<open>SELECT with ORDER BY and LIMIT 1: the first row of a stable sort.\<close>

definition first_by :: "('r \<Rightarrow> 'k::linorder) \<Rightarrow> ('r \<Rightarrow> bool) \<Rightarrow> 'r list \<Rightarrow> 'r option" where
  "first_by key P rows =
     (case sort_key key (filter P rows) of [] \<Rightarrow> None | r # _ \<Rightarrow> Some r)"

text \<open>LIMIT n: SQLite reads a negative limit as no limit.\<close>

definition limit_rows :: "int \<Rightarrow> 'r list \<Rightarrow> 'r list" where
  "limit_rows n rows = (if n < 0 then rows else take (nat n) rows)"

lemma set_update_where [table_simps]:
  "set (update_where P f rows) = f ` {r \<in> set rows. P r} \<union> {r \<in> set rows. \<not> P r}"
  by (auto simp: update_where_def)

lemma length_update_where [simp]: "length (update_where P f rows) = length rows"
  by (simp add: update_where_def)

lemma update_where_Nil [simp]: "update_where P f [] = []"
  by (simp add: update_where_def)

lemma update_where_Cons [simp]:
  "update_where P f (r # rows) = (if P r then f r else r) # update_where P f rows"
  by (simp add: update_where_def)

lemma update_where_none: "(\<And>r. r \<in> set rows \<Longrightarrow> \<not> P r) \<Longrightarrow> update_where P f rows = rows"
  by (induction rows) auto

lemma in_update_whereE:
  assumes "r \<in> set (update_where P f rows)"
  obtains "r \<in> set rows" "\<not> P r" | r' where "r' \<in> set rows" "P r'" "r = f r'"
  using assms by (auto simp: table_simps)

lemma map_update_where_keep:
  assumes "\<And>r. P r \<Longrightarrow> g (f r) = g r"
  shows "map g (update_where P f rows) = map g rows"
  using assms by (simp add: update_where_def)

lemma row_count_0_iff: "row_count P rows = 0 \<longleftrightarrow> (\<forall>r \<in> set rows. \<not> P r)"
  by (simp add: row_count_def filter_empty_conv)

lemma row_count_pos_iff: "0 < row_count P rows \<longleftrightarrow> (\<exists>r \<in> set rows. P r)"
  by (metis gr0I not_gr_zero row_count_0_iff)

lemma row_count_key_le_1:
  assumes "distinct (map key rows)" and "\<And>r. P r \<Longrightarrow> key r = k"
  shows "row_count P rows \<le> 1"
  using assms
proof (induction rows)
  case Nil
  then show ?case by (simp add: row_count_def)
next
  case (Cons r rows)
  show ?case
  proof (cases "P r")
    case True
    then have "\<forall>r' \<in> set rows. \<not> P r'"
      using Cons.prems by (metis distinct.simps(2) image_eqI list.set_map list.simps(9))
    with True show ?thesis by (simp add: row_count_def)
  next
    case False
    with Cons show ?thesis by (simp add: row_count_def)
  qed
qed

lemma first_by_None_iff: "first_by key P rows = None \<longleftrightarrow> (\<forall>r \<in> set rows. \<not> P r)"
proof -
  have "sort_key key (filter P rows) = [] \<longleftrightarrow> filter P rows = []"
    by (metis length_0_conv length_sort)
  then show ?thesis
    by (auto simp: first_by_def filter_empty_conv split: list.splits)
qed

lemma first_by_SomeD:
  assumes "first_by key P rows = Some r"
  shows "r \<in> set rows" "P r" "\<And>r'. r' \<in> set rows \<Longrightarrow> P r' \<Longrightarrow> key r \<le> key r'"
proof -
  let ?s = "sort_key key (filter P rows)"
  from assms obtain rs where s: "?s = r # rs"
    by (auto simp: first_by_def split: list.splits)
  have mem: "set ?s = {r \<in> set rows. P r}" by auto
  then have r: "r \<in> {r \<in> set rows. P r}" using s by auto
  then show "r \<in> set rows" "P r" by auto
  have "sorted (map key ?s)" by (rule sorted_sort_key)
  then have le: "\<forall>r' \<in> set rs. key r \<le> key r'" using s by simp
  fix r' assume "r' \<in> set rows" "P r'"
  then have "r' \<in> set (r # rs)" using mem s by auto
  then show "key r \<le> key r'" using le by auto
qed

lemma first_by_ex: "r \<in> set rows \<Longrightarrow> P r \<Longrightarrow> \<exists>r'. first_by key P rows = Some r'"
  using first_by_None_iff [of key P rows] by (cases "first_by key P rows") auto

lemma set_limit_rows: "set (limit_rows n rows) \<subseteq> set rows"
  by (auto simp: limit_rows_def dest: in_set_takeD)

lemma length_limit_rows: "0 \<le> n \<Longrightarrow> length (limit_rows n rows) \<le> nat n"
  by (simp add: limit_rows_def)

subsection \<open>Lookup by primary key\<close>

definition lookup_row :: "('r \<Rightarrow> 'k) \<Rightarrow> 'k \<Rightarrow> 'r list \<Rightarrow> 'r option" where
  "lookup_row key k rows = find (\<lambda>r. key r = k) rows"

lemma lookup_row_SomeD: "lookup_row key k rows = Some r \<Longrightarrow> r \<in> set rows \<and> key r = k"
  by (auto simp: lookup_row_def find_Some_iff)

lemma lookup_row_None_iff: "lookup_row key k rows = None \<longleftrightarrow> k \<notin> key ` set rows"
  by (auto simp: lookup_row_def find_None_iff)

lemma lookup_row_eqI:
  "distinct (map key rows) \<Longrightarrow> r \<in> set rows \<Longrightarrow> key r = k \<Longrightarrow> lookup_row key k rows = Some r"
proof (induction rows)
  case Nil
  then show ?case by simp
next
  case (Cons a rows)
  then show ?case by (auto simp: lookup_row_def)
qed

lemma lookup_row_unique:
  "distinct (map key rows) \<Longrightarrow> r \<in> set rows \<Longrightarrow> s \<in> set rows \<Longrightarrow> key r = key s \<Longrightarrow> r = s"
  by (auto simp: distinct_map inj_on_def)

lemma lookup_row_update_where:
  assumes "\<And>r. P r \<Longrightarrow> key (f r) = key r"
  shows "lookup_row key k (update_where P f rows) =
    map_option (\<lambda>r. if P r then f r else r) (lookup_row key k rows)"
  using assms by (induction rows) (auto simp: lookup_row_def)

lemma lookup_row_append_new:
  "k \<notin> key ` set rows \<Longrightarrow> key r = k \<Longrightarrow> lookup_row key k (rows @ [r]) = Some r"
  by (induction rows) (auto simp: lookup_row_def)

lemma lookup_row_append_other:
  "key r \<noteq> k \<Longrightarrow> lookup_row key k (rows @ [r]) = lookup_row key k rows"
  by (induction rows) (auto simp: lookup_row_def)

subsection \<open>Machines of operations\<close>

text \<open>A law of single operations that is reflexive and transitive holds for every sequence of them.\<close>

locale operations =
  fixes exec :: "'op \<Rightarrow> 's \<Rightarrow> 's" and moves :: "'s \<Rightarrow> 's \<Rightarrow> bool"
  assumes moves_refl: "moves s s"
    and moves_trans: "moves s t \<Longrightarrow> moves t u \<Longrightarrow> moves s u"
    and exec_moves: "moves s (exec op s)"
begin

lemma run_moves: "moves s (fold exec ops s)"
proof (induction ops arbitrary: s)
  case Nil
  show ?case by (simp add: moves_refl)
next
  case (Cons op ops)
  show ?case using moves_trans [OF exec_moves Cons.IH] by simp
qed

end

text \<open>Along a sequence of steps a predicate is kept, or there is a first step that breaks it.\<close>

lemma fold_keeps_or_breaks:
  assumes "P d"
  shows "P (fold step ops d) \<or> (\<exists>ops1 op ops2. ops = ops1 @ op # ops2
    \<and> P (fold step ops1 d) \<and> \<not> P (step op (fold step ops1 d)))"
proof (induction ops rule: rev_induct)
  case (snoc op ops)
  show ?case
  proof (cases "P (fold step ops d)")
    case True
    then show ?thesis by fastforce
  next
    case False
    then obtain ops1 op1 ops2 where "ops = ops1 @ op1 # ops2" "P (fold step ops1 d)" "\<not> P (step op1 (fold step ops1 d))"
      using snoc.IH by blast
    then show ?thesis by (intro disjI2 exI [of _ ops1] exI [of _ op1] exI [of _ "ops2 @ [op]"]) simp
  qed
qed (simp add: assms)

end
