(* ===== verification/Store.thy ===== *)
theory Store
  imports Prelude
begin

section \<open>The service database and its transactions\<close>

text \<open>
  The tables of \<open>src/src/storage/service_store.py\<close> that the modelled components read and
  write, as lists of rows, and a connection to them.  A connection holds the committed
  database, the one the open transaction sees, and the clock and random source the code reads
  through \<open>datetime.now\<close> and \<open>uuid.uuid4\<close>.  Python's \<open>sqlite3\<close> opens a transaction
  before the first data-changing statement, \<open>BEGIN IMMEDIATE\<close> inside a transaction raises
  \<open>OperationalError\<close>, and foreign keys are enforced (\<open>PRAGMA foreign_keys = ON\<close>).  JSON
  columns hold decoded values: the code writes them with \<open>json.dumps\<close> only.
\<close>

subsection \<open>Values\<close>

datatype json =
    JNull
  | JBool bool
  | JInt int
  | JReal string
  | JStr string
  | JArr "json list"
  | JObj "(string \<times> json) list"

type_synonym dict = "(string \<times> json) list"

datatype job_status = Queued | Running | Succeeded | Failed | Partial | Cancelled

definition JOB_STATUSES :: "job_status list" where
  "JOB_STATUSES = [Queued, Running, Succeeded, Failed, Partial, Cancelled]"

subsection \<open>Rows\<close>

record user =
  u_id :: string
  u_workspace_id :: string
  u_role :: string
  u_enabled :: bool

record source =
  s_id :: string
  s_workspace_id :: string
  s_scope :: string
  s_owner_user_id :: "string option"
  s_type :: string
  s_config :: dict
  s_enabled :: bool

record subscription =
  us_id :: string
  us_user_id :: string
  us_source_id :: string
  us_enabled :: bool

record job =
  j_id :: string
  j_workspace_id :: string
  j_user_id :: string
  j_source_id :: "string option"
  j_subscription_id :: "string option"
  j_job_type :: string
  j_status :: job_status
  j_priority :: int
  j_attempts :: int
  j_max_attempts :: int
  j_worker_id :: "string option"
  j_claim_token :: "string option"
  j_next_run_at :: "time option"
  j_locked_until :: "time option"
  j_payload :: dict
  j_result :: "json option"
  j_error_code :: "string option"
  j_error_message :: "string option"
  j_created_at :: time
  j_started_at :: "time option"
  j_finished_at :: "time option"
  j_cancelled_at :: "time option"
  j_expires_at :: "time option"
  j_updated_at :: time

record feed_schedule =
  fs_user_id :: string
  fs_workspace_id :: string
  fs_enabled :: bool
  fs_interval_minutes :: int
  fs_next_run_at :: "time option"
  fs_last_evaluated_at :: "time option"
  fs_last_enqueued_at :: "time option"
  fs_last_job_id :: "string option"
  fs_last_skip_reason :: "string option"
  fs_created_at :: "time option"
  fs_updated_at :: "time option"

record source_schedule =
  ss_subscription_id :: string
  ss_workspace_id :: string
  ss_user_id :: string
  ss_source_id :: string
  ss_enabled :: bool
  ss_interval_minutes :: int
  ss_next_run_at :: "time option"
  ss_last_evaluated_at :: "time option"
  ss_last_enqueued_at :: "time option"
  ss_last_job_id :: "string option"
  ss_last_skip_reason :: "string option"
  ss_created_at :: "time option"
  ss_updated_at :: "time option"

datatype health_status = Healthy | Degraded | Failing

record source_health =
  h_subscription_id :: string
  h_workspace_id :: string
  h_user_id :: string
  h_source_id :: string
  h_status :: health_status
  h_last_attempt_at :: time
  h_last_success_at :: "time option"
  h_last_failure_at :: "time option"
  h_consecutive_failures :: int
  h_last_fetched_count :: int
  h_last_issue_stage :: "string option"
  h_last_issue_code :: "string option"
  h_last_issue_message :: "string option"
  h_last_issue_retryable :: "bool option"
  h_last_job_id :: "string option"
  h_created_at :: time
  h_updated_at :: time

record health_application =
  ha_subscription_id :: string
  ha_job_id :: string
  ha_applied_at :: time

record usage_event =
  ue_id :: string
  ue_workspace_id :: string
  ue_user_id :: string
  ue_event_type :: string
  ue_quantity :: int
  ue_provider :: "string option"
  ue_metadata :: dict
  ue_created_at :: time

record delegation =
  ad_id :: string
  ad_workspace_id :: string
  ad_user_id :: string
  ad_scopes :: json
  ad_expires_at :: time
  ad_revoked_at :: "time option"

text \<open>\<open>overrides_json\<close> may hold text that is not JSON: None.\<close>

record settings_row =
  ws_workspace_id :: string
  ws_overrides :: "json option"
  ws_generation :: int
  ws_updated_by :: "string option"
  ws_updated_at :: time

datatype proposal_status = Pending | Applied | Expired

record setting_proposal =
  sp_id :: string
  sp_workspace_id :: string
  sp_actor_user_id :: string
  sp_delegation_id :: "string option"
  sp_actor_channel :: string
  sp_base_generation :: int
  sp_changes :: dict
  sp_confirmation_hash :: string
  sp_status :: proposal_status
  sp_created_at :: time
  sp_expires_at :: time
  sp_applied_at :: "time option"
  sp_updated_at :: time

record db =
  workspaces :: "string list"
  users :: "user list"
  source_catalog :: "source list"
  user_subscriptions :: "subscription list"
  fetch_jobs :: "job list"
  user_feed_schedules :: "feed_schedule list"
  user_source_schedules :: "source_schedule list"
  user_source_health :: "source_health list"
  user_source_health_applications :: "health_application list"
  usage_events :: "usage_event list"
  agent_delegations :: "delegation list"
  workspace_system_settings :: "settings_row list"
  system_setting_change_proposals :: "setting_proposal list"
  system_settings_migrated :: bool
  feed_storage_v3_pending :: bool

subsection \<open>Connections\<close>

record conn =
  durable :: db
  work :: db
  in_tx :: bool
  clock :: time
  uuid_hex :: "nat \<Rightarrow> string"
  drawn :: nat

definition conn_ok :: "conn \<Rightarrow> bool" where
  "conn_ok c \<longleftrightarrow> (\<not> in_tx c \<longrightarrow> work c = durable c)"

definition open_conn :: "db \<Rightarrow> time \<Rightarrow> (nat \<Rightarrow> string) \<Rightarrow> conn" where
  "open_conn d now hex =
     \<lparr>durable = d, work = d, in_tx = False, clock = now, uuid_hex = hex, drawn = 0\<rparr>"

definition begin_immediate :: "conn \<Rightarrow> (conn, unit) outcome" where
  "begin_immediate c =
     (if in_tx c
      then Raise (OperationalError ''cannot start a transaction within a transaction'') c
      else Return () (c\<lparr>in_tx := True\<rparr>))"

definition commit :: "conn \<Rightarrow> conn" where
  "commit c = c\<lparr>durable := work c, in_tx := False\<rparr>"

definition rollback :: "conn \<Rightarrow> conn" where
  "rollback c = c\<lparr>work := durable c, in_tx := False\<rparr>"

definition rollback_if_open :: "conn \<Rightarrow> conn" where
  "rollback_if_open c = (if in_tx c then rollback c else c)"

text \<open>A data-changing statement: it opens a transaction if none is open.\<close>

definition dml :: "(db \<Rightarrow> db) \<Rightarrow> conn \<Rightarrow> conn" where
  "dml f c = c\<lparr>work := f (work c), in_tx := True\<rparr>"

definition new_uuid :: "conn \<Rightarrow> string \<times> conn" where
  "new_uuid c = (uuid_hex c (drawn c), c\<lparr>drawn := Suc (drawn c)\<rparr>)"

text \<open>
  The block every mutating operation is written in: \<open>owns_transaction = not in_transaction\<close>,
  BEGIN IMMEDIATE when it owns it, the body, COMMIT when it owns it, and on an exception
  ROLLBACK when it owns it and a transaction is still open.  The body works on the open
  transaction's database; what it wrote before an exception stays visible to a caller that
  owns the transaction.
\<close>

definition owned_transaction :: "(db \<Rightarrow> (db, 'a) outcome) \<Rightarrow> conn \<Rightarrow> (conn, 'a) outcome" where
  "owned_transaction body c =
     (case body (work c) of
        (Inr x, d) \<Rightarrow>
          Return x (if in_tx c then c\<lparr>work := d\<rparr>
                    else commit (c\<lparr>work := d, in_tx := True\<rparr>))
      | (Inl e, d) \<Rightarrow>
          Raise e (if in_tx c then c\<lparr>work := d\<rparr>
                   else rollback_if_open (c\<lparr>work := d, in_tx := True\<rparr>)))"

text \<open>The same block for a body that itself calls operations on the connection.\<close>

definition owning :: "(conn \<Rightarrow> (conn, 'a) outcome) \<Rightarrow> conn \<Rightarrow> (conn, 'a) outcome" where
  "owning body c =
     (if in_tx c then body c
      else (case body (c\<lparr>in_tx := True\<rparr>) of
              (Inr x, c') \<Rightarrow> Return x (commit c')
            | (Inl e, c') \<Rightarrow> Raise e (rollback_if_open c')))"

lemma open_conn_fields [simp]:
  "durable (open_conn d now hex) = d" "work (open_conn d now hex) = d"
  "\<not> in_tx (open_conn d now hex)" "clock (open_conn d now hex) = now"
  "uuid_hex (open_conn d now hex) = hex" "drawn (open_conn d now hex) = 0"
  by (simp_all add: open_conn_def)

lemma conn_ok_commit [simp]: "conn_ok (commit c)"
  by (simp add: conn_ok_def commit_def)

lemma conn_ok_rollback [simp]: "conn_ok (rollback c)"
  by (simp add: conn_ok_def rollback_def)

lemma conn_ok_dml [simp]: "conn_ok (dml f c)"
  by (simp add: conn_ok_def dml_def)

lemma commit_fields [simp]:
  "durable (commit c) = work c" "work (commit c) = work c" "\<not> in_tx (commit c)"
  "clock (commit c) = clock c" "uuid_hex (commit c) = uuid_hex c" "drawn (commit c) = drawn c"
  by (simp_all add: commit_def)

lemma rollback_fields [simp]:
  "durable (rollback c) = durable c" "work (rollback c) = durable c" "\<not> in_tx (rollback c)"
  "clock (rollback c) = clock c" "uuid_hex (rollback c) = uuid_hex c"
  "drawn (rollback c) = drawn c"
  by (simp_all add: rollback_def)

lemma dml_fields [simp]:
  "durable (dml f c) = durable c" "work (dml f c) = f (work c)" "in_tx (dml f c)"
  "clock (dml f c) = clock c" "uuid_hex (dml f c) = uuid_hex c" "drawn (dml f c) = drawn c"
  by (simp_all add: dml_def)

lemma rollback_if_open_fields [simp]:
  "durable (rollback_if_open c) = durable c" "\<not> in_tx (rollback_if_open c)"
  "clock (rollback_if_open c) = clock c" "uuid_hex (rollback_if_open c) = uuid_hex c"
  "drawn (rollback_if_open c) = drawn c"
  by (simp_all add: rollback_if_open_def)

lemma conn_ok_rollback_if_open [simp]: "conn_ok c \<Longrightarrow> conn_ok (rollback_if_open c)"
  by (simp add: rollback_if_open_def)

lemma work_rollback_if_open: "conn_ok c \<Longrightarrow> work (rollback_if_open c) = durable c"
  by (simp add: rollback_if_open_def conn_ok_def)

lemma owned_transaction_new:
  assumes "\<not> in_tx c"
  shows "owned_transaction body c =
    (case body (work c) of
       (Inr x, d) \<Rightarrow> (Inr x, c\<lparr>work := d, durable := d, in_tx := False\<rparr>)
     | (Inl e, d) \<Rightarrow> (Inl e, c\<lparr>work := durable c, in_tx := False\<rparr>))"
  using assms
  by (auto simp: owned_transaction_def commit_def rollback_if_open_def rollback_def
      split: sum.splits prod.splits)

lemma owned_transaction_nested:
  assumes "in_tx c"
  shows "owned_transaction body c = (fst (body (work c)), c\<lparr>work := snd (body (work c))\<rparr>)"
  using assms by (auto simp: owned_transaction_def split: sum.splits prod.splits)

text \<open>Atomicity of an owned transaction: all of the body, or nothing.\<close>

lemma owned_transaction_atomic:
  assumes "conn_ok c" and "owned_transaction body c = (r, c')"
  shows "conn_ok c' \<and> in_tx c' = in_tx c \<and>
    (in_tx c \<longrightarrow> durable c' = durable c) \<and>
    (\<not> in_tx c \<longrightarrow> work c' = durable c' \<and>
       (case r of Inl _ \<Rightarrow> durable c' = durable c | Inr x \<Rightarrow> body (work c) = (Inr x, durable c')))"
  using assms
  by (cases "in_tx c")
     (auto simp: owned_transaction_new owned_transaction_nested conn_ok_def
       split: sum.splits prod.splits)

end
