(* ===== verification/PyText.thy ===== *)
theory PyText
  imports Prelude
begin

section \<open>Text: the string operations of Python that the code uses\<close>

text \<open>
  \<open>str.strip\<close>, \<open>str.casefold\<close> on ASCII text, decimal rendering and \<open>int(text)\<close>, with the
  round trip of the last two.
\<close>

definition is_space :: "char \<Rightarrow> bool" where
  "is_space c \<longleftrightarrow> (let n = (of_char c :: nat) in 9 \<le> n \<and> n \<le> 13 \<or> 28 \<le> n \<and> n \<le> 32)"

definition strip :: "string \<Rightarrow> string" where
  "strip s = rev (dropWhile is_space (rev (dropWhile is_space s)))"

definition lower_char :: "char \<Rightarrow> char" where
  "lower_char c = (let n = (of_char c :: nat) in if 65 \<le> n \<and> n \<le> 90 then char_of (n + 32) else c)"

definition casefold :: "string \<Rightarrow> string" where
  "casefold s = map lower_char s"

definition is_digit :: "char \<Rightarrow> bool" where
  "is_digit c \<longleftrightarrow> (let n = (of_char c :: nat) in 48 \<le> n \<and> n \<le> 57)"

definition digit_value :: "char \<Rightarrow> int" where
  "digit_value c = int (of_char c) - 48"

definition digit_char :: "nat \<Rightarrow> char" where
  "digit_char n = char_of (48 + n)"

fun show_nat :: "nat \<Rightarrow> string" where
  "show_nat n = (if n < 10 then [digit_char n] else show_nat (n div 10) @ [digit_char (n mod 10)])"

declare show_nat.simps [simp del]

definition show_int :: "int \<Rightarrow> string" where
  "show_int i = (if i < 0 then CHR ''-'' # show_nat (nat (- i)) else show_nat (nat i))"

text \<open>\<open>int(text)\<close>: digits, single underscores between them, an optional sign.\<close>

fun parse_digits :: "int \<Rightarrow> string \<Rightarrow> int option" where
  "parse_digits n [] = Some n"
| "parse_digits n (c # cs) =
     (if is_digit c then parse_digits (10 * n + digit_value c) cs
      else if c = CHR ''_'' then
        (case cs of
           [] \<Rightarrow> None
         | d # ds \<Rightarrow> if is_digit d then parse_digits (10 * n + digit_value d) ds else None)
      else None)"

fun parse_natural :: "string \<Rightarrow> int option" where
  "parse_natural [] = None"
| "parse_natural (c # cs) = (if is_digit c then parse_digits (digit_value c) cs else None)"

fun parse_int :: "string \<Rightarrow> int option" where
  "parse_int [] = None"
| "parse_int (c # cs) =
     (if c = CHR ''-'' then map_option uminus (parse_natural cs)
      else if c = CHR ''+'' then parse_natural cs
      else parse_natural (c # cs))"

lemma digit_char_simps [simp]:
  assumes "n < 10"
  shows "is_digit (digit_char n)" "digit_value (digit_char n) = int n"
  using assms by (auto simp: is_digit_def digit_char_def digit_value_def Let_def)

lemma digit_char_no_sign:
  assumes "n < 10"
  shows "digit_char n \<noteq> CHR ''-''" "digit_char n \<noteq> CHR ''+''"
proof -
  have "\<not> is_digit (CHR ''-'')" "\<not> is_digit (CHR ''+'')" by (simp_all add: is_digit_def)
  then show "digit_char n \<noteq> CHR ''-''" "digit_char n \<noteq> CHR ''+''"
    using digit_char_simps(1) [OF assms] by metis+
qed

lemma parse_digits_append:
  "list_all is_digit xs \<Longrightarrow> is_digit d \<Longrightarrow>
   parse_digits a (xs @ [d]) = map_option (\<lambda>n. 10 * n + digit_value d) (parse_digits a xs)"
  by (induction xs arbitrary: a) auto

lemma show_nat_digits: "show_nat n \<noteq> [] \<and> list_all is_digit (show_nat n)"
  by (induction n rule: show_nat.induct) (subst (1 2) show_nat.simps, auto)

lemma parse_digits_show_nat:
  "parse_natural (show_nat n) = Some (int n)"
proof (induction n rule: show_nat.induct)
  case (1 n)
  show ?case
  proof (cases "n < 10")
    case True
    then show ?thesis by (subst show_nat.simps) simp
  next
    case False
    obtain c cs where cs: "show_nat (n div 10) = c # cs" "is_digit c" "list_all is_digit cs"
      using show_nat_digits [of "n div 10"] by (cases "show_nat (n div 10)") auto
    then have "parse_digits (digit_value c) cs = Some (int (n div 10))" using 1 False by simp
    moreover have "10 * int (n div 10) + int (n mod 10) = int n" by presburger
    ultimately show ?thesis
      using False cs parse_digits_append [of cs "digit_char (n mod 10)" "digit_value c"]
      by (subst show_nat.simps) simp
  qed
qed

lemma parse_int_show_int [simp]: "parse_int (show_int i) = Some i"
proof (cases "i < 0")
  case True
  then show ?thesis by (simp add: show_int_def parse_digits_show_nat)
next
  case False
  obtain c cs where cs: "show_nat (nat i) = c # cs" "is_digit c"
    using show_nat_digits [of "nat i"] by (cases "show_nat (nat i)") auto
  then have "c \<noteq> CHR ''-''" "c \<noteq> CHR ''+''" by (auto simp: is_digit_def)
  then show ?thesis
    using False cs parse_digits_show_nat [of "nat i"] by (simp add: show_int_def)
qed

end
