(* ===== verification/PyJson.thy ===== *)
theory PyJson
  imports Store PyText
begin

section \<open>JSON text\<close>

text \<open>
  \<open>json.dumps(value, ensure_ascii=False)\<close>: the code measures inputs of language models by the
  length of this text.  Control characters, quotes and backslashes are escaped, items are separated
  by a comma and a space, keys and values by a colon and a space; dictionaries keep the order of
  insertion.
\<close>

definition hex_digit :: "nat \<Rightarrow> char" where
  "hex_digit n = char_of (if n < 10 then 48 + n else 87 + n)"

definition escape_char :: "char \<Rightarrow> string" where
  "escape_char c =
     (let n = of_char c :: nat in
      if c = CHR 0x22 then [CHR 0x5C, CHR 0x22]
      else if c = CHR 0x5C then [CHR 0x5C, CHR 0x5C]
      else if n = 8 then [CHR 0x5C, CHR ''b'']
      else if n = 9 then [CHR 0x5C, CHR ''t'']
      else if n = 10 then [CHR 0x5C, CHR ''n'']
      else if n = 12 then [CHR 0x5C, CHR ''f'']
      else if n = 13 then [CHR 0x5C, CHR ''r'']
      else if n < 32 then CHR 0x5C # ''u00'' @ [hex_digit (n div 16), hex_digit (n mod 16)]
      else [c])"

definition dump_string :: "string \<Rightarrow> string" where
  "dump_string s = CHR 0x22 # concat (map escape_char s) @ [CHR 0x22]"

fun comma_separated :: "string list \<Rightarrow> string" where
  "comma_separated [] = []"
| "comma_separated [x] = x"
| "comma_separated (x # y # ys) = x @ '', '' @ comma_separated (y # ys)"

fun dumps :: "json \<Rightarrow> string" where
  "dumps JNull = ''null''"
| "dumps (JBool b) = (if b then ''true'' else ''false'')"
| "dumps (JInt i) = show_int i"
| "dumps (JReal s) = s"
| "dumps (JStr s) = dump_string s"
| "dumps (JArr xs) = ''['' @ comma_separated (map dumps xs) @ '']''"
| "dumps (JObj kvs) = ''{'' @ comma_separated (map (\<lambda>kv. dump_string (fst kv) @ '': '' @ dumps (snd kv)) kvs) @ ''}''"

text \<open>\<open>value.get(key)\<close>; on anything but an object there is nothing to get.\<close>

fun obj_get :: "string \<Rightarrow> json \<Rightarrow> json option" where
  "obj_get k (JObj kvs) = map_of kvs k"
| "obj_get k _ = None"

fun str_value :: "json option \<Rightarrow> string option" where
  "str_value (Some (JStr s)) = Some s"
| "str_value _ = None"

fun arr_value :: "json option \<Rightarrow> json list" where
  "arr_value (Some (JArr xs)) = xs"
| "arr_value _ = []"

text \<open>\<open>part in text\<close>.\<close>

fun occurs_in :: "string \<Rightarrow> string \<Rightarrow> bool" where
  "occurs_in p [] \<longleftrightarrow> p = []"
| "occurs_in p (c # cs) \<longleftrightarrow> take (length p) (c # cs) = p \<or> occurs_in p cs"

lemma occurs_in_iff: "occurs_in p s \<longleftrightarrow> (\<exists>a b. s = a @ p @ b)"
proof (induction s)
  case Nil
  then show ?case by auto
next
  case (Cons c cs)
  have "take (length p) (c # cs) = p \<longleftrightarrow> (\<exists>b. c # cs = p @ b)"
    by (metis append_eq_conv_conj append_take_drop_id)
  then show ?case unfolding occurs_in.simps Cons.IH
    by (metis append_Cons append_Nil list.inject neq_Nil_conv)
qed

lemma occurs_in_append: "occurs_in p s \<Longrightarrow> occurs_in p (a @ s @ b)"
  unfolding occurs_in_iff by (metis append.assoc)

end
