(* ===== verification/InfoStore.thy ===== *)
theory InfoStore
  imports PyJson
begin

section \<open>Information automations: tables\<close>

text \<open>
  The tables of \<open>information_automation_schema.py\<close>, \<open>information_connector_schema.py\<close>,
  \<open>information_unified_schema.py\<close> and \<open>information_recovery_schema.py\<close> that the automations read
  and write, with the columns some modelled code reads.  JSON columns hold decoded values.  The
  answers of other services (accounts, subscriptions, personal agents, notification targets, stored
  articles) are the record \<open>info_env\<close>.  Every operation runs in one transaction: a body that
  raises leaves the tables as they were.  Identifiers are drawn from an infinite source.
\<close>

subsection \<open>Rules and their configuration\<close>

datatype trigger_kind = EachTrigger | CountTrigger | IntervalTrigger | CalendarTrigger

record trigger =
  tg_kind :: trigger_kind
  tg_count :: int
  tg_max_wait_seconds :: "int option"
  tg_interval_seconds :: int
  tg_time :: string
  tg_weekdays :: "int list"
  tg_timezone :: string

record model_selection =
  ms_id :: string
  ms_thinking :: "string option"

record info_config =
  cf_name :: string
  cf_source_ids :: "string list"
  cf_target_id :: "string option"
  cf_notification_enabled :: bool
  cf_requirement :: string
  cf_trigger :: trigger
  cf_model :: "model_selection option"

datatype rule_state = DraftRule | ActiveRule | PausedRule | ArchivedRule

record info_rule =
  ir_id :: string
  ir_workspace_id :: string
  ir_user_id :: string
  ir_version :: int
  ir_state :: rule_state
  ir_config :: info_config
  ir_issue :: "string option"
  ir_binding_id :: "string option"
  ir_target_generation :: "int option"
  ir_target_activation :: "int option"
  ir_transport_generation :: "int option"
  ir_checked_at :: "time option"
  ir_confirmation_id :: "string option"
  ir_cursor :: int
  ir_created_at :: time
  ir_updated_at :: time

subsection \<open>Events, runs, previews\<close>

record info_event =
  ie_id :: int
  ie_workspace_id :: string
  ie_user_id :: string
  ie_article_id :: string
  ie_source_ids :: "string list"
  ie_created_at :: time

record info_item =
  it_article_id :: string
  it_title :: string
  it_text :: string
  it_source_ids :: "string list"
  it_truncated :: bool
  it_analysis_mode :: string
  it_source_name :: string
  it_published_at :: string
  it_url :: string

datatype info_status =
    PendingWork | JudgingWork | QuotaWaitWork | MatchedWork | NotMatchedWork | InsufficientWork
  | CompletedWork | FailedWork | CancelledWork

datatype notice_status =
    WaitingAnalysis | NotRequired | NoticePending | Sending | Sent | NoticeFailed | NoticeUnknown
  | NoticeCancelled | NoticeQuotaWait

record info_run =
  rn_id :: string
  rn_rule_id :: string
  rn_version :: int
  rn_confirmation_id :: "string option"
  rn_status :: info_status
  rn_notice :: notice_status
  rn_reason :: "string option"
  rn_input :: "info_item list"
  rn_event_ids :: "int list"
  rn_claim_hash :: "string option"
  rn_delivery_started_at :: "time option"
  rn_attempts :: int
  rn_ready_at :: time
  rn_created_at :: time

record info_preview =
  pv_id :: string
  pv_rule_id :: string
  pv_user_id :: string
  pv_version :: int
  pv_binding_id :: string
  pv_input :: "info_item list"
  pv_status :: info_status
  pv_reason :: "string option"
  pv_claim_hash :: "string option"
  pv_attempts :: int
  pv_ready_at :: time
  pv_created_at :: time

record preview_confirmation =
  pc_preview_id :: string
  pc_fingerprint :: string
  pc_superseded_by :: "string option"

record preview_request =
  pr_user_id :: string
  pr_request_id :: string
  pr_fingerprint :: string
  pr_preview_id :: string

record preview_notice =
  pn_preview_id :: string
  pn_target_id :: string
  pn_target_generation :: int
  pn_target_activation :: int
  pn_status :: notice_status
  pn_reason :: "string option"
  pn_delivery_started_at :: "time option"
  pn_ready_at :: "time option"
  pn_created_at :: time

subsection \<open>Batches, steps, claims\<close>

record evidence =
  ev_article_id :: string
  ev_quote :: string
  ev_note :: string

record batch_result =
  br_status :: string
  br_summary :: string
  br_reason :: string
  br_covered_ids :: "string list"
  br_evidence :: "evidence list"

record info_batch =
  ba_id :: string
  ba_run_id :: "string option"
  ba_preview_id :: "string option"
  ba_result :: "batch_result option"
  ba_created_at :: time

datatype step_kind = FinalStep | ExtractStep | ReduceStep

datatype step_status = StepPending | StepJudging | StepCompleted | StepFailed

record info_step =
  st_id :: string
  st_batch_id :: string
  st_level :: nat
  st_ordinal :: nat
  st_kind :: step_kind
  st_input :: "json list"
  st_result :: "batch_result option"
  st_status :: step_status
  st_attempts :: int
  st_claim_id :: "string option"

datatype claim_status = Claimed | ClaimCompleted | ClaimExpired | ClaimRejected

record info_claim =
  cl_id :: string
  cl_run_id :: "string option"
  cl_preview_id :: "string option"
  cl_user_id :: string
  cl_binding_id :: string
  cl_generation :: int
  cl_token_hash :: string
  cl_status :: claim_status
  cl_result_hash :: "string option"
  cl_created_at :: time
  cl_expires_at :: time

record info_connector =
  cn_binding_id :: string
  cn_user_id :: string
  cn_token_hash :: string
  cn_generation :: int
  cn_enabled :: bool
  cn_verified_at :: "time option"
  cn_last_seen :: "time option"

record filtered_model =
  fm_id :: string
  fm_reason :: string

record execution_state =
  ex_binding_id :: string
  ex_generation :: int
  ex_mode :: string
  ex_updated_at :: time
  ex_filtered :: "filtered_model list"
  ex_runtime_block :: "string option"

record available_model =
  am_id :: string
  am_name :: string
  am_thinking_levels :: "string list"

record model_catalog =
  mc_binding_id :: string
  mc_generation :: int
  mc_models :: "available_model list"
  mc_blocked :: "string list"

datatype refresh_status = RefreshPending | RefreshCompleted | RefreshFailed

record refresh_request =
  rf_id :: string
  rf_binding_id :: string
  rf_generation :: int
  rf_status :: refresh_status
  rf_requested_at :: time
  rf_completed_at :: "time option"
  rf_reason :: "string option"
  rf_changed :: "bool option"

subsection \<open>The database\<close>

record info_db =
  if_rules :: "info_rule list"
  if_rule_versions :: "(string \<times> int \<times> info_config) list"
  if_baselines :: "(string \<times> string) list"
  if_seen_items :: "(string \<times> string) list"
  if_seen_identities :: "(string \<times> string) list"
  if_events :: "info_event list"
  if_next_event_id :: int
  if_runs :: "info_run list"
  if_previews :: "info_preview list"
  if_confirmations :: "preview_confirmation list"
  if_preview_requests :: "preview_request list"
  if_notices :: "preview_notice list"
  if_trigger_state :: "(string \<times> time option) list"
  if_rule_carry :: "(string \<times> string) list"
  if_event_carry :: "(string \<times> int) list"
  if_batches :: "info_batch list"
  if_steps :: "info_step list"
  if_claims :: "info_claim list"
  if_connectors :: "info_connector list"
  if_executions :: "execution_state list"
  if_catalogs :: "model_catalog list"
  if_refreshes :: "refresh_request list"
  if_id_source :: "nat \<Rightarrow> string"
  if_drawn :: nat

subsection \<open>What other services answer\<close>

record notification_target =
  nt_id :: string
  nt_channel :: string
  nt_config_generation :: int
  nt_activation_generation :: int

record stored_article =
  sa_article_id :: string
  sa_title :: string
  sa_body_text :: string
  sa_content :: string
  sa_summary :: string
  sa_body_truncated :: bool
  sa_source_ids :: "string list"
  sa_source_id :: "string option"
  sa_analysis_mode :: string
  sa_source_name :: string
  sa_published_at :: string
  sa_url :: string

text \<open>
  \<open>en_live\<close> is the binding of \<open>AgentConnections.live\<close> with its agent, \<open>en_enabled_sources\<close> and
  \<open>en_private_sources\<close> read the subscriptions of a user (workspace and user, user),
  \<open>en_target\<close> is the lookup of a notification target (workspace, user, target, whether it has to be
  ready), \<open>en_transport\<close> the generation of a transport (channel, workspace), \<open>en_article\<close> the
  content store (workspace, user, article), \<open>en_local\<close> and \<open>en_utc\<close> turn an instant into the wall
  clock of a zone and back (the earlier instant when the clock shows a time twice),
  \<open>en_day_start\<close> is the midnight in Shanghai before an instant, \<open>en_digest\<close> SHA-256, and
  \<open>en_original_url\<close> the address of an article when it is a plain web address, else nothing.
\<close>

record info_env =
  en_users :: "string \<Rightarrow> user option"
  en_live :: "string \<Rightarrow> (string \<times> string) option"
  en_enabled_sources :: "string \<Rightarrow> string \<Rightarrow> string list"
  en_private_sources :: "string \<Rightarrow> string list"
  en_target :: "string \<Rightarrow> string \<Rightarrow> string \<Rightarrow> bool \<Rightarrow> notification_target option"
  en_transport :: "string \<Rightarrow> string \<Rightarrow> int option"
  en_article :: "string \<Rightarrow> string \<Rightarrow> string \<Rightarrow> stored_article option"
  en_local :: "string \<Rightarrow> time \<Rightarrow> time"
  en_utc :: "string \<Rightarrow> time \<Rightarrow> time"
  en_day_start :: "time \<Rightarrow> time"
  en_digest :: "string \<Rightarrow> string"
  en_original_url :: "string \<Rightarrow> string"
  en_notices_ready :: bool

subsection \<open>Statements and transactions\<close>

text \<open>\<open>with transaction(store)\<close>: BEGIN IMMEDIATE, commit, and rollback on any exception.\<close>

definition info_transaction :: "(info_db \<Rightarrow> (info_db, 'a) outcome) \<Rightarrow> info_db \<Rightarrow> (info_db, 'a) outcome" where
  "info_transaction body d = (case body d of (Inr x, d') \<Rightarrow> (Inr x, d') | (Inl e, _) \<Rightarrow> (Inl e, d))"

definition draw :: "info_db \<Rightarrow> string \<times> info_db" where
  "draw d = (if_id_source d (if_drawn d), d\<lparr>if_drawn := Suc (if_drawn d)\<rparr>)"

definition update_runs :: "(info_run \<Rightarrow> bool) \<Rightarrow> (info_run \<Rightarrow> info_run) \<Rightarrow> info_db \<Rightarrow> info_db" where
  "update_runs P f d = d\<lparr>if_runs := update_where P f (if_runs d)\<rparr>"

definition update_previews ::
  "(info_preview \<Rightarrow> bool) \<Rightarrow> (info_preview \<Rightarrow> info_preview) \<Rightarrow> info_db \<Rightarrow> info_db" where
  "update_previews P f d = d\<lparr>if_previews := update_where P f (if_previews d)\<rparr>"

definition update_batches ::
  "(info_batch \<Rightarrow> bool) \<Rightarrow> (info_batch \<Rightarrow> info_batch) \<Rightarrow> info_db \<Rightarrow> info_db" where
  "update_batches P f d = d\<lparr>if_batches := update_where P f (if_batches d)\<rparr>"

definition update_steps :: "(info_step \<Rightarrow> bool) \<Rightarrow> (info_step \<Rightarrow> info_step) \<Rightarrow> info_db \<Rightarrow> info_db" where
  "update_steps P f d = d\<lparr>if_steps := update_where P f (if_steps d)\<rparr>"

definition update_claims :: "(info_claim \<Rightarrow> bool) \<Rightarrow> (info_claim \<Rightarrow> info_claim) \<Rightarrow> info_db \<Rightarrow> info_db" where
  "update_claims P f d = d\<lparr>if_claims := update_where P f (if_claims d)\<rparr>"

definition update_rules :: "(info_rule \<Rightarrow> bool) \<Rightarrow> (info_rule \<Rightarrow> info_rule) \<Rightarrow> info_db \<Rightarrow> info_db" where
  "update_rules P f d = d\<lparr>if_rules := update_where P f (if_rules d)\<rparr>"

definition update_notices ::
  "(preview_notice \<Rightarrow> bool) \<Rightarrow> (preview_notice \<Rightarrow> preview_notice) \<Rightarrow> info_db \<Rightarrow> info_db" where
  "update_notices P f d = d\<lparr>if_notices := update_where P f (if_notices d)\<rparr>"

lemmas info_updates =
  update_runs_def update_previews_def update_batches_def update_steps_def update_claims_def
  update_rules_def update_notices_def

lemma info_transaction_Inr:
  assumes "info_transaction body d = (Inr x, d')"
  shows "body d = (Inr x, d')"
  using assms by (auto simp: info_transaction_def split: sum.splits prod.splits)

lemma info_transaction_Inl:
  assumes "info_transaction body d = (Inl e, d')"
  shows "d' = d" and "\<exists>d''. body d = (Inl e, d'')"
  using assms by (auto simp: info_transaction_def split: sum.splits prod.splits)

end
