(* ===== verification/InfoSteps.thy ===== *)
theory InfoSteps
  imports InfoBatches
begin

section \<open>Steps of a batch: results, the next level, the final verdict\<close>

text \<open>
  The stateful half of \<open>batches.py\<close>: \<open>create_batch\<close>, \<open>validate\<close>, \<open>complete_step\<close> and \<open>finish\<close>.
  The lemmas show that the work on a batch ends: completing a step always lowers a measure, the
  number of calls is quadratic in the number of first-level steps at most, and a batch without a
  result always has a step left to judge.
\<close>

subsection \<open>Results of a call\<close>

definition text_field :: "nat \<Rightarrow> string \<Rightarrow> (string \<times> json) list \<Rightarrow> string option" where
  "text_field maximum k kvs =
     (case str_value (map_of kvs k) of
        None \<Rightarrow> None
      | Some s \<Rightarrow> if s \<noteq> [] \<and> length s \<le> maximum then Some s else None)"

fun parse_evidence :: "json \<Rightarrow> evidence option" where
  "parse_evidence (JObj kvs) =
     (if fst ` set kvs \<subseteq> {''article_id'', ''quote'', ''note''} then
        (case (text_field 256 ''article_id'' kvs, text_field 300 ''quote'' kvs, text_field 200 ''note'' kvs) of
           (Some a, Some q, Some n) \<Rightarrow> Some \<lparr>ev_article_id = a, ev_quote = q, ev_note = n\<rparr>
         | _ \<Rightarrow> None)
      else None)"
| "parse_evidence _ = None"

fun list_field :: "string \<Rightarrow> (string \<times> json) list \<Rightarrow> json list option" where
  "list_field k kvs = (case map_of kvs k of Some (JArr xs) \<Rightarrow> Some xs | _ \<Rightarrow> None)"

definition result_fields :: "string list" where
  "result_fields = [''status'', ''summary'', ''reason'', ''covered_ids'', ''evidence'']"

fun parse_result :: "json \<Rightarrow> batch_result option" where
  "parse_result (JObj kvs) =
     (if \<not> fst ` set kvs \<subseteq> set result_fields then None
      else case (str_value (map_of kvs ''status''), text_field 1200 ''summary'' kvs, text_field 600 ''reason'' kvs,
                 Option.bind (list_field ''covered_ids'' kvs) (\<lambda>xs. those (map (str_value \<circ> Some) xs)),
                 Option.bind (list_field ''evidence'' kvs) (\<lambda>xs. those (map parse_evidence xs))) of
          (Some st, Some su, Some re, Some ids, Some evs) \<Rightarrow>
            if st \<in> {''matched'', ''not_matched'', ''insufficient''} \<and> ids \<noteq> [] \<and> length ids \<le> 20 \<and> length evs \<le> 8
            then Some \<lparr>br_status = st, br_summary = su, br_reason = re, br_covered_ids = ids, br_evidence = evs\<rparr>
            else None
        | _ \<Rightarrow> None)"
| "parse_result _ = None"

text \<open>Quotes a unit supplies: its own text, or the evidence of an earlier level.\<close>

definition supplied :: "json \<Rightarrow> evidence \<Rightarrow> bool" where
  "supplied u e \<longleftrightarrow>
     str_value (obj_get ''article_id'' u) = Some (ev_article_id e) \<and> occurs_in (ev_quote e) (unit_text u)
     \<or> (\<exists>x \<in> set (arr_value (obj_get ''evidence'' u)).
          str_value (obj_get ''article_id'' x) = Some (ev_article_id e)
          \<and> str_value (obj_get ''quote'' x) = Some (ev_quote e))"

definition original_text :: "info_item list \<Rightarrow> string \<Rightarrow> string option" where
  "original_text originals = map_of (rev (map (\<lambda>it. (it_article_id it, it_text it)) (filter eligible originals)))"

fun check_evidence :: "info_step \<Rightarrow> info_item list \<Rightarrow> evidence list \<Rightarrow> exn + unit" where
  "check_evidence s originals [] = Inr ()"
| "check_evidence s originals (e # es) =
     (if \<not> (case original_text originals (ev_article_id e) of None \<Rightarrow> False | Some t \<Rightarrow> occurs_in (ev_quote e) t)
      then Inl (ValueError ''invalid_quote'')
      else if \<not> (\<exists>u \<in> set (st_input s). supplied u e) then Inl (ValueError ''quote_not_in_step'')
      else check_evidence s originals es)"

definition validate :: "json \<Rightarrow> info_step \<Rightarrow> info_item list \<Rightarrow> exn + batch_result" where
  "validate v s originals =
     (case parse_result v of
        None \<Rightarrow> Inl (ValueError ''BatchResult'')
      | Some r \<Rightarrow>
          if \<not> distinct (br_covered_ids r) \<or> set (br_covered_ids r) \<noteq> unit_id ` set (st_input s)
          then Inl (ValueError ''incomplete_coverage'')
          else case check_evidence s originals (br_evidence r) of
             Inl e \<Rightarrow> Inl e
           | Inr _ \<Rightarrow> if br_status r = ''matched'' \<and> br_evidence r = [] then Inl (ValueError ''missing_evidence'')
                      else Inr r)"

subsection \<open>Steps\<close>

fun add_steps :: "string \<Rightarrow> nat \<Rightarrow> nat \<Rightarrow> nat \<Rightarrow> json list list \<Rightarrow> info_db \<Rightarrow> info_db" where
  "add_steps bid level count ordinal [] d = d"
| "add_steps bid level count ordinal (g # gs) d =
     (let (hex, d') = draw d;
          s = \<lparr>st_id = ''iastep_'' @ hex, st_batch_id = bid, st_level = level, st_ordinal = ordinal,
               st_kind = (if count = 1 then FinalStep else if level = 0 then ExtractStep else ReduceStep),
               st_input = g, st_result = None, st_status = StepPending, st_attempts = 0, st_claim_id = None\<rparr>
      in add_steps bid level count (Suc ordinal) gs (d'\<lparr>if_steps := if_steps d' @ [s]\<rparr>))"

definition status_of_result :: "string \<Rightarrow> info_status" where
  "status_of_result s =
     (if s = ''matched'' then MatchedWork else if s = ''not_matched'' then NotMatchedWork else InsufficientWork)"

definition sends_notification :: "string \<Rightarrow> info_db \<Rightarrow> bool" where
  "sends_notification run_id d =
     (case lookup_row rn_id run_id (if_runs d) of
        None \<Rightarrow> False
      | Some r \<Rightarrow> (case map_of (map (\<lambda>(i, v, c). ((i, v), c)) (if_rule_versions d)) (rn_rule_id r, rn_version r) of
                     None \<Rightarrow> False | Some c \<Rightarrow> cf_notification_enabled c))"

definition finish :: "info_env \<Rightarrow> string \<Rightarrow> batch_result \<Rightarrow> info_db \<Rightarrow> info_db" where
  "finish env bid r d =
     (let d1 = update_batches (\<lambda>b. ba_id b = bid) (\<lambda>b. b\<lparr>ba_result := Some r\<rparr>) d
      in case lookup_row ba_id bid (if_batches d) of
           None \<Rightarrow> d1
         | Some row \<Rightarrow>
            (case ba_run_id row of
               Some rid \<Rightarrow>
                 update_runs (\<lambda>x. rn_id x = rid)
                   (\<lambda>x. x\<lparr>rn_status := status_of_result (br_status r),
                          rn_notice := (if br_status r = ''matched'' \<and> sends_notification rid d then NoticePending
                                        else NotRequired),
                          rn_reason := Some (br_reason r)\<rparr>) d1
             | None \<Rightarrow>
                 let d2 = update_previews (\<lambda>p. Some (pv_id p) = ba_preview_id row)
                            (\<lambda>p. p\<lparr>pv_status := CompletedWork, pv_reason := Some (br_reason r)\<rparr>) d1
                 in if en_notices_ready env
                    then update_notices (\<lambda>n. Some (pn_preview_id n) = ba_preview_id row \<and> pn_status n = WaitingAnalysis)
                           (\<lambda>n. n\<lparr>pn_status := (if br_status r = ''matched'' then NoticePending else NotRequired)\<rparr>) d2
                    else d2))"

definition insufficient :: "string \<Rightarrow> batch_result" where
  "insufficient reason =
     \<lparr>br_status = ''insufficient'', br_summary = [], br_reason = reason, br_covered_ids = [], br_evidence = []\<rparr>"

definition first_groups :: "info_item list \<Rightarrow> string \<Rightarrow> exn + json list list" where
  "first_groups inputs requirement =
     (case content_units inputs requirement of Inl e \<Rightarrow> Inl e | Inr us \<Rightarrow> pack us requirement)"

definition create_batch ::
  "info_env \<Rightarrow> info_config \<Rightarrow> info_item list \<Rightarrow> time \<Rightarrow> string option \<Rightarrow> string option \<Rightarrow> info_db \<Rightarrow> info_db" where
  "create_batch env config inputs now run_id preview_id d =
     (let (hex, d') = draw d; bid = ''iabatch_'' @ hex;
          b = \<lparr>ba_id = bid, ba_run_id = run_id, ba_preview_id = preview_id, ba_result = None, ba_created_at = now\<rparr>;
          d1 = d'\<lparr>if_batches := if_batches d' @ [b]\<rparr>
      in if \<not> list_all eligible inputs then finish env bid (insufficient ''input_incomplete'') d1
         else case first_groups inputs (cf_requirement config) of
                Inl _ \<Rightarrow> finish env bid (insufficient ''input_too_large'') d1
              | Inr gs \<Rightarrow> add_steps bid 0 (length gs) 0 gs d1)"

text \<open>The unit of the next level: the result of a step without its coverage.\<close>

definition summary_unit :: "string \<Rightarrow> batch_result \<Rightarrow> json" where
  "summary_unit sid r =
     JObj [(''unit_id'', JStr sid), (''status'', JStr (br_status r)), (''summary'', JStr (br_summary r)),
           (''reason'', JStr (br_reason r)),
           (''evidence'', JArr (map (\<lambda>e. JObj [(''article_id'', JStr (ev_article_id e)), (''quote'', JStr (ev_quote e)),
                                               (''note'', JStr (ev_note e))]) (br_evidence r)))]"

definition siblings :: "string \<Rightarrow> nat \<Rightarrow> info_db \<Rightarrow> info_step list" where
  "siblings bid level d = sort_key st_ordinal (filter (\<lambda>s. st_batch_id s = bid \<and> st_level s = level) (if_steps d))"

text \<open>An exception keeps what was written: the caller catches it inside its transaction.\<close>

definition complete_step ::
  "info_env \<Rightarrow> info_step \<Rightarrow> batch_result \<Rightarrow> info_config \<Rightarrow> info_db \<Rightarrow> (info_db, info_status) outcome" where
  "complete_step env s r config d =
     (let d1 = update_steps (\<lambda>x. st_id x = st_id s) (\<lambda>x. x\<lparr>st_status := StepCompleted, st_result := Some r\<rparr>) d
      in if st_kind s = FinalStep
         then Return (status_of_result (br_status r)) (finish env (st_batch_id s) r d1)
         else let sibs = siblings (st_batch_id s) (st_level s) d1
         in if \<not> list_all (\<lambda>x. st_status x = StepCompleted) sibs then Return PendingWork d1
            else case those (map (\<lambda>x. map_option (summary_unit (st_id x)) (st_result x)) sibs) of
               None \<Rightarrow> Raise (ValueError ''result_json'') d1
             | Some units \<Rightarrow>
                (case pack units (cf_requirement config) of
                   Inl e \<Rightarrow> Raise e d1
                 | Inr gs \<Rightarrow>
                    if length sibs \<le> length gs then Raise (ValueError ''summary_not_reducing'') d1
                    else Return PendingWork (add_steps (st_batch_id s) (Suc (st_level s)) (length gs) 0 gs d1)))"

subsection \<open>What a batch looks like\<close>

definition steps_of :: "string \<Rightarrow> info_db \<Rightarrow> info_step list" where
  "steps_of bid d = filter (\<lambda>s. st_batch_id s = bid) (if_steps d)"

definition at_level :: "string \<Rightarrow> nat \<Rightarrow> info_db \<Rightarrow> info_step list" where
  "at_level bid l d = filter (\<lambda>s. st_level s = l) (steps_of bid d)"

definition top_level :: "string \<Rightarrow> info_db \<Rightarrow> nat" where
  "top_level bid d = foldr max (map st_level (steps_of bid d)) 0"

definition open_steps :: "string \<Rightarrow> info_db \<Rightarrow> info_step list" where
  "open_steps bid d = filter (\<lambda>s. st_status s \<noteq> StepCompleted) (steps_of bid d)"

definition batch_measure :: "string \<Rightarrow> info_db \<Rightarrow> nat" where
  "batch_measure bid d =
     (let n = length (at_level bid (top_level bid d) d) - 1 in length (open_steps bid d) + n * (n + 1) div 2)"

text \<open>Levels below the top are complete, the top level has steps, and it is final exactly when it
  has a single one; a completed step has its result.\<close>

definition ids_fresh :: "info_db \<Rightarrow> bool" where
  "ids_fresh d \<longleftrightarrow>
     inj (if_id_source d) \<and> distinct (map st_id (if_steps d))
     \<and> set (map st_id (if_steps d)) \<subseteq> (\<lambda>i. ''iastep_'' @ if_id_source d i) ` {..< if_drawn d}"

definition batch_shape :: "string \<Rightarrow> info_db \<Rightarrow> bool" where
  "batch_shape bid d \<longleftrightarrow>
     ids_fresh d \<and> at_level bid (top_level bid d) d \<noteq> []
     \<and> (\<forall>s \<in> set (steps_of bid d).
          (st_status s = StepCompleted \<longleftrightarrow> st_result s \<noteq> None)
          \<and> (st_level s < top_level bid d \<longrightarrow> st_status s = StepCompleted)
          \<and> (st_level s = top_level bid d \<longrightarrow>
               (st_kind s = FinalStep \<longleftrightarrow> length (at_level bid (top_level bid d) d) = 1)))"

definition undecided :: "string \<Rightarrow> info_db \<Rightarrow> bool" where
  "undecided bid d \<longleftrightarrow> (\<exists>b \<in> set (if_batches d). ba_id b = bid \<and> ba_result b = None)"

definition batch_ok :: "string \<Rightarrow> info_db \<Rightarrow> bool" where
  "batch_ok bid d \<longleftrightarrow> batch_shape bid d \<and> (undecided bid d \<longrightarrow> open_steps bid d \<noteq> [])"

subsection \<open>Every completed step lowers the measure\<close>

lemma filter_update_where:
  "(\<And>x. P x \<Longrightarrow> Q (f x) = Q x) \<Longrightarrow> filter Q (update_where P f xs) = update_where P f (filter Q xs)"
  by (induction xs) auto

lemma length_filter_update_one:
  assumes "distinct (map key xs)" "s \<in> set xs" "Q s" "\<not> Q (f s)"
  shows "Suc (length (filter Q (update_where (\<lambda>x. key x = key s) f xs))) = length (filter Q xs)"
  using assms
proof (induction xs)
  case (Cons a xs)
  show ?case
  proof (cases "a = s")
    case True
    then have "update_where (\<lambda>x. key x = key s) f xs = xs"
      using Cons.prems(1) by (intro update_where_none) (auto simp: image_iff)
    with True Cons.prems show ?thesis by simp
  next
    case False
    then have "s \<in> set xs" "key a \<noteq> key s" using Cons.prems by (auto simp: image_iff)
    with Cons show ?thesis by simp
  qed
qed simp

lemma le_foldr_max: "x \<in> set xs \<Longrightarrow> (x::nat) \<le> foldr max xs 0"
  by (induction xs) auto

lemma foldr_max_append: "foldr max (xs @ ys) 0 = max (foldr max xs 0) (foldr max ys (0::nat))"
  by (induction xs) auto

lemma foldr_max_const: "xs \<noteq> [] \<Longrightarrow> \<forall>x \<in> set xs. x = (n::nat) \<Longrightarrow> foldr max xs 0 = n"
proof (induction xs)
  case (Cons x xs)
  then show ?case by (cases "xs = []") auto
qed simp

lemma level_le_top: "s \<in> set (steps_of bid d) \<Longrightarrow> st_level s \<le> top_level bid d"
  unfolding top_level_def by (intro le_foldr_max) auto

lemma add_steps_rows:
  "\<exists>new. if_steps (add_steps bid l c k gs d) = if_steps d @ new \<and> length new = length gs
    \<and> map st_id new = map (\<lambda>i. ''iastep_'' @ if_id_source d i) [if_drawn d ..< if_drawn d + length gs]
    \<and> map st_input new = gs
    \<and> (\<forall>s \<in> set new. st_batch_id s = bid \<and> st_level s = l \<and> st_status s = StepPending \<and> st_result s = None
         \<and> (st_kind s = FinalStep \<longleftrightarrow> c = 1))"
proof (induction gs arbitrary: k d)
  case (Cons g gs)
  let ?s = "\<lparr>st_id = ''iastep_'' @ if_id_source d (if_drawn d), st_batch_id = bid, st_level = l, st_ordinal = k,
     st_kind = (if c = 1 then FinalStep else if l = 0 then ExtractStep else ReduceStep),
     st_input = g, st_result = None, st_status = StepPending, st_attempts = 0, st_claim_id = None\<rparr>"
  let ?d = "d\<lparr>if_drawn := Suc (if_drawn d), if_steps := if_steps d @ [?s]\<rparr>"
  obtain new where new: "if_steps (add_steps bid l c (Suc k) gs ?d) = if_steps ?d @ new" "length new = length gs"
    "map st_id new = map (\<lambda>i. ''iastep_'' @ if_id_source ?d i) [if_drawn ?d ..< if_drawn ?d + length gs]"
    "map st_input new = gs"
    "\<forall>s \<in> set new. st_batch_id s = bid \<and> st_level s = l \<and> st_status s = StepPending \<and> st_result s = None
         \<and> (st_kind s = FinalStep \<longleftrightarrow> c = 1)"
    using Cons.IH [of "Suc k" ?d] by blast
  have "add_steps bid l c k (g # gs) d = add_steps bid l c (Suc k) gs ?d"
    by (simp add: draw_def Let_def)
  moreover have "[if_drawn d ..< if_drawn d + length (g # gs)]
      = if_drawn d # [Suc (if_drawn d) ..< Suc (if_drawn d) + length gs]" 
    by (simp add: upt_conv_Cons del: upt_Suc)
  ultimately show ?case using new by (intro exI [of _ "?s # new"]) (simp del: upt_Suc)
qed simp

lemma add_steps_frame [simp]:
  "if_batches (add_steps bid l c k gs d) = if_batches d" "if_runs (add_steps bid l c k gs d) = if_runs d"
  "if_claims (add_steps bid l c k gs d) = if_claims d" "if_id_source (add_steps bid l c k gs d) = if_id_source d"
  "if_drawn (add_steps bid l c k gs d) = if_drawn d + length gs"
  "if_previews (add_steps bid l c k gs d) = if_previews d" "if_rules (add_steps bid l c k gs d) = if_rules d"
  "if_notices (add_steps bid l c k gs d) = if_notices d"
  by (induction gs arbitrary: k d) (simp_all add: draw_def Let_def)

lemma finish_frame [simp]:
  "if_steps (finish env bid r d) = if_steps d" "if_claims (finish env bid r d) = if_claims d"
  "if_id_source (finish env bid r d) = if_id_source d" "if_drawn (finish env bid r d) = if_drawn d"
  "if_rules (finish env bid r d) = if_rules d"
  "if_batches (finish env bid r d) = update_where (\<lambda>b. ba_id b = bid) (\<lambda>b. b\<lparr>ba_result := Some r\<rparr>) (if_batches d)"
  by (simp_all add: finish_def info_updates Let_def split: option.splits)

lemma complete_update:
  fixes s r
  defines "f \<equiv> \<lambda>x. x\<lparr>st_status := StepCompleted, st_result := Some r\<rparr>"
  defines "upd \<equiv> update_where (\<lambda>x. st_id x = st_id s) f"
  assumes "s \<in> set (steps_of bid d)" "st_status s \<noteq> StepCompleted" "distinct (map st_id (if_steps d))"
  shows "steps_of bid (d\<lparr>if_steps := upd (if_steps d)\<rparr>) = upd (steps_of bid d)"
    and "map st_level (upd (steps_of bid d)) = map st_level (steps_of bid d)"
    and "map st_id (upd (if_steps d)) = map st_id (if_steps d)"
    and "Suc (length (filter (\<lambda>x. st_status x \<noteq> StepCompleted) (upd (steps_of bid d))))
      = length (filter (\<lambda>x. st_status x \<noteq> StepCompleted) (steps_of bid d))"
    and "length (filter (\<lambda>x. st_level x = l) (upd (steps_of bid d)))
      = length (filter (\<lambda>x. st_level x = l) (steps_of bid d))"
    and "\<And>x. x \<in> set (upd (steps_of bid d)) \<Longrightarrow>
      \<exists>y \<in> set (steps_of bid d). (if st_id y = st_id s then x = f y else x = y)"
proof -
  have keep: "st_batch_id x = bid" if "st_id x = st_id s" "x \<in> set (if_steps d)" for x
    using that assms(3,5) by (auto simp: steps_of_def dest: lookup_row_unique)
  show "steps_of bid (d\<lparr>if_steps := upd (if_steps d)\<rparr>) = upd (steps_of bid d)"
    unfolding steps_of_def upd_def by (simp add: filter_update_where f_def)
  show "map st_level (upd (steps_of bid d)) = map st_level (steps_of bid d)"
    "map st_id (upd (if_steps d)) = map st_id (if_steps d)"
    by (simp_all add: upd_def f_def map_update_where_keep)
  show "Suc (length (filter (\<lambda>x. st_status x \<noteq> StepCompleted) (upd (steps_of bid d))))
      = length (filter (\<lambda>x. st_status x \<noteq> StepCompleted) (steps_of bid d))"
    unfolding upd_def using assms(3-5)
    by (intro length_filter_update_one) (auto simp: f_def steps_of_def distinct_map_filter)
  show "length (filter (\<lambda>x. st_level x = l) (upd (steps_of bid d)))
      = length (filter (\<lambda>x. st_level x = l) (steps_of bid d))"
    unfolding upd_def by (simp add: filter_update_where f_def)
  show "\<exists>y \<in> set (steps_of bid d). (if st_id y = st_id s then x = f y else x = y)"
    if "x \<in> set (upd (steps_of bid d))" for x
    using that unfolding upd_def by (elim in_update_whereE) auto
qed

lemma shape_after_update:
  fixes s r
  defines "f \<equiv> \<lambda>x. x\<lparr>st_status := StepCompleted, st_result := Some r\<rparr>"
  assumes ok: "batch_shape bid d" and s: "s \<in> set (steps_of bid d)" "st_status s \<noteq> StepCompleted"
    and d1: "d1 = d\<lparr>if_steps := update_where (\<lambda>x. st_id x = st_id s) f (if_steps d)\<rparr>"
  shows "batch_shape bid d1" and "batch_measure bid d1 < batch_measure bid d"
    and "st_level s = top_level bid d1"
proof -
  have dist: "distinct (map st_id (if_steps d))" using ok by (simp add: batch_shape_def ids_fresh_def)
  note upd = complete_update [OF s dist, where r = r, folded f_def]
  have st: "steps_of bid d1 = update_where (\<lambda>x. st_id x = st_id s) f (steps_of bid d)"
    unfolding d1 by (rule upd(1))
  have top: "top_level bid d1 = top_level bid d"
    unfolding top_level_def st upd(2) ..
  have len: "length (at_level bid l d1) = length (at_level bid l d)" for l
    unfolding at_level_def st by (rule upd(5))
  have "st_level s \<le> top_level bid d" using s(1) by (rule level_le_top)
  moreover have "\<not> st_level s < top_level bid d" using ok s by (auto simp: batch_shape_def)
  ultimately show "st_level s = top_level bid d1" using top by simp
  show "batch_measure bid d1 < batch_measure bid d"
    using upd(4) unfolding batch_measure_def Let_def open_steps_def top len st by simp
  have rows: "x \<in> set (steps_of bid d1) \<Longrightarrow>
      \<exists>y \<in> set (steps_of bid d). (if st_id y = st_id s then x = f y else x = y)" for x
    unfolding st by (elim in_update_whereE) auto
  have fresh: "ids_fresh d1"
  proof -
    have "map st_id (if_steps d1) = map st_id (if_steps d)"
      unfolding d1 by (simp add: f_def map_update_where_keep)
    then show ?thesis using ok unfolding batch_shape_def ids_fresh_def by (simp add: d1)
  qed
  have "at_level bid (top_level bid d1) d1 \<noteq> []"
    using ok len [of "top_level bid d1"] unfolding top batch_shape_def by (metis length_0_conv)
  moreover have "(st_status x = StepCompleted \<longleftrightarrow> st_result x \<noteq> None)
      \<and> (st_level x < top_level bid d1 \<longrightarrow> st_status x = StepCompleted)
      \<and> (st_level x = top_level bid d1 \<longrightarrow>
          (st_kind x = FinalStep \<longleftrightarrow> length (at_level bid (top_level bid d1) d1) = 1))"
    if x: "x \<in> set (steps_of bid d1)" for x
  proof -
    from rows [OF x] obtain y where y: "y \<in> set (steps_of bid d)" "if st_id y = st_id s then x = f y else x = y"
      by blast
    then show ?thesis using ok unfolding top len batch_shape_def
      by (cases "st_id y = st_id s") (auto simp: f_def)
  qed
  ultimately show "batch_shape bid d1" using fresh unfolding batch_shape_def by blast
qed

lemma disjoint_subset_left: "A \<subseteq> B \<Longrightarrow> B \<inter> C = {} \<Longrightarrow> A \<inter> C = {}"
  by blast

lemma add_steps_fresh:
  assumes "ids_fresh d"
  shows "ids_fresh (add_steps bid l c k gs d)"
proof -
  define d' where "d' = add_steps bid l c k gs d"
  let ?g = "length gs" and ?f = "\<lambda>i. ''iastep_'' @ if_id_source d i"
  obtain new where new: "if_steps d' = if_steps d @ new"
    "map st_id new = map ?f [if_drawn d ..< if_drawn d + ?g]"
    using add_steps_rows [of bid l c k gs d] unfolding d'_def by blast
  have inj: "inj ?f" and dist: "distinct (map st_id (if_steps d))"
    and old: "set (map st_id (if_steps d)) \<subseteq> ?f ` {..< if_drawn d}"
    and src: "inj (if_id_source d)"
    using assms by (auto simp: ids_fresh_def inj_def)
  have ids: "set (map st_id new) = ?f ` {if_drawn d ..< if_drawn d + ?g}"
    using arg_cong [OF new(2), of set] by simp
  have "distinct (map st_id new)"
    unfolding new(2) using inj_on_subset [OF inj subset_UNIV] by (simp add: distinct_map)
  moreover have "set (map st_id (if_steps d)) \<inter> set (map st_id new) = {}"
  proof -
    have "?f ` {..< if_drawn d} \<inter> ?f ` {if_drawn d ..< if_drawn d + ?g} = {}"
      unfolding image_Int [OF inj, symmetric] by (simp add: ivl_disj_int)
    then show ?thesis unfolding ids by (rule disjoint_subset_left [OF old])
  qed
  ultimately have "distinct (map st_id (if_steps d'))" using dist by (simp add: new(1) del: set_map)
  moreover have "set (map st_id (if_steps d')) \<subseteq> ?f ` {..< if_drawn d + ?g}"
  proof -
    have a: "?f ` {..< if_drawn d} \<subseteq> ?f ` {..< if_drawn d + ?g}" by (rule image_mono) auto
    have b: "?f ` {if_drawn d ..< if_drawn d + ?g} \<subseteq> ?f ` {..< if_drawn d + ?g}"
      by (rule image_mono) auto
    from subset_trans [OF old a] b show ?thesis
      unfolding new(1) map_append set_append ids by (rule Un_least)
  qed
  ultimately have "ids_fresh d'" unfolding ids_fresh_def using src by (simp add: d'_def)
  then show ?thesis by (simp add: d'_def)
qed

lemma next_level_shape:
  assumes ok: "batch_shape bid d" and none: "open_steps bid d = []"
    and gs: "gs \<noteq> []" "length gs < length (at_level bid (top_level bid d) d)"
    and d': "d' = add_steps bid (Suc (top_level bid d)) (length gs) 0 gs d"
  shows "batch_shape bid d'" and "batch_measure bid d' \<le> batch_measure bid d" and "open_steps bid d' \<noteq> []"
proof -
  let ?t = "top_level bid d" and ?n = "length (at_level bid (top_level bid d) d)" and ?g = "length gs"
  obtain new where new: "if_steps d' = if_steps d @ new" "length new = ?g"
    "map st_id new = map (\<lambda>i. ''iastep_'' @ if_id_source d i) [if_drawn d ..< if_drawn d + ?g]"
    "\<forall>s \<in> set new. st_batch_id s = bid \<and> st_level s = Suc ?t \<and> st_status s = StepPending \<and> st_result s = None
       \<and> (st_kind s = FinalStep \<longleftrightarrow> ?g = 1)"
    using add_steps_rows [of bid "Suc ?t" ?g 0 gs d] unfolding d' by blast
  have "filter (\<lambda>s. st_batch_id s = bid) new = new" using new(4) by simp
  then have st: "steps_of bid d' = steps_of bid d @ new" by (simp add: steps_of_def new(1))
  have lv: "foldr max (map st_level new) 0 = Suc ?t"
    using new(2,4) gs(1) by (intro foldr_max_const) auto
  have top: "top_level bid d' = Suc ?t"
    unfolding top_level_def [of bid d'] st map_append foldr_max_append lv by (simp add: top_level_def)
  have below: "st_level s \<le> ?t" if "s \<in> set (steps_of bid d)" for s
    using that by (rule level_le_top)
  have "filter (\<lambda>s. st_level s = Suc ?t) (steps_of bid d) = []"
    using below by (fastforce simp: filter_empty_conv)
  moreover have "filter (\<lambda>s. st_level s = Suc ?t) new = new" using new(4) by simp
  ultimately have lvl: "at_level bid (Suc ?t) d' = new" by (simp add: at_level_def st)
  have "filter (\<lambda>s. st_status s \<noteq> StepCompleted) new = new" using new(4) by simp
  then have op: "open_steps bid d' = new" using none by (simp add: open_steps_def st)
  show "open_steps bid d' \<noteq> []" using op new(2) gs(1) by auto
  have "?g + (?g - 1) * ?g div 2 \<le> (?n - 1) * ?n div 2"
  proof -
    obtain k m where k: "?g = Suc k" and m: "?n = Suc m" using gs by (metis Suc_pred length_greater_0_conv less_nat_zero_code neq0_conv)
    with gs(2) have "Suc k \<le> m" by simp
    then have "Suc k * Suc (Suc k) \<le> m * Suc m" by (intro mult_le_mono) auto
    then have "Suc k * Suc (Suc k) div 2 \<le> m * Suc m div 2" by (rule div_le_mono)
    moreover have "Suc k * Suc (Suc k) = 2 * Suc k + k * Suc k" by simp
    then have "Suc k * Suc (Suc k) div 2 = Suc k + k * Suc k div 2" by (metis div_mult_self4 add.commute zero_neq_numeral)
    ultimately show ?thesis unfolding k m by simp
  qed
  then show "batch_measure bid d' \<le> batch_measure bid d"
    using gs none unfolding batch_measure_def Let_def top lvl op new(2)
    by (cases ?g; cases ?n) (auto simp: mult.commute)
  have "ids_fresh d'" unfolding d' using ok by (intro add_steps_fresh) (simp add: batch_shape_def)
  moreover have "st_level s \<le> ?t \<and> st_status s = StepCompleted \<and> st_result s \<noteq> None" if "s \<in> set (steps_of bid d)" for s
    using that below none ok by (auto simp: open_steps_def filter_empty_conv batch_shape_def)
  ultimately show "batch_shape bid d'"
    unfolding batch_shape_def top lvl st new(2) using new(2,4) gs(1) by fastforce
qed

lemma batch_shape_cong:
  assumes "if_steps d' = if_steps d" "if_id_source d' = if_id_source d" "if_drawn d' = if_drawn d"
  shows "batch_shape bid d' \<longleftrightarrow> batch_shape bid d" and "batch_measure bid d' = batch_measure bid d"
    and "open_steps bid d' = open_steps bid d"
proof -
  have st: "steps_of bid d' = steps_of bid d" using assms by (simp add: steps_of_def)
  then have top: "top_level bid d' = top_level bid d" by (simp add: top_level_def)
  show "batch_shape bid d' \<longleftrightarrow> batch_shape bid d" "batch_measure bid d' = batch_measure bid d"
    "open_steps bid d' = open_steps bid d"
    using assms by (simp_all add: batch_shape_def batch_measure_def open_steps_def at_level_def ids_fresh_def st top)
qed

lemma length_siblings: "length (siblings bid l d) = length (at_level bid l d)"
  by (simp add: siblings_def at_level_def steps_of_def conj_commute)

lemma set_siblings: "set (siblings bid l d) = {s \<in> set (steps_of bid d). st_level s = l}"
  by (auto simp: siblings_def steps_of_def)

text \<open>Accepting the result of an open step keeps the shape and lowers the measure; the batch is
  decided, or a step is open.\<close>

lemma complete_step_progress:
  assumes ok: "batch_ok bid d" and s: "s \<in> set (steps_of bid d)" "st_status s \<noteq> StepCompleted"
    and run: "complete_step env s r config d = (Inr st, d')"
  shows "batch_ok bid d' \<and> batch_measure bid d' < batch_measure bid d"
proof -
  define f :: "info_step \<Rightarrow> info_step"
    where "f = (\<lambda>x. x\<lparr>st_status := StepCompleted, st_result := Some r\<rparr>)"
  define d1 where "d1 = d\<lparr>if_steps := update_where (\<lambda>x. st_id x = st_id s) f (if_steps d)\<rparr>"
  have shape: "batch_shape bid d" using ok by (simp add: batch_ok_def)
  note d1 = shape_after_update [OF shape s d1_def [unfolded f_def]]
  have bid: "st_batch_id s = bid" using s(1) by (simp add: steps_of_def)
  have upd: "update_steps (\<lambda>x. st_id x = st_id s) f d = d1" by (simp add: update_steps_def d1_def)
  note run' = run [unfolded complete_step_def bid f_def [symmetric] upd Let_def]
  show ?thesis
  proof (cases "st_kind s = FinalStep")
    case True
    with run' have d': "d' = finish env bid r d1" by simp
    then have same: "if_steps d' = if_steps d1" "if_id_source d' = if_id_source d1" "if_drawn d' = if_drawn d1"
      by simp_all
    have "ba_result b \<noteq> None" if "b \<in> set (if_batches d')" "ba_id b = bid" for b
      using that unfolding d' finish_frame by (elim in_update_whereE) auto
    then have "\<not> undecided bid d'" unfolding undecided_def by blast
    then show ?thesis using d1(1,2)
      unfolding batch_ok_def batch_shape_cong(1) [OF same] batch_shape_cong(2) [OF same] by blast
  next
    case False
    show ?thesis
    proof (cases "list_all (\<lambda>x. st_status x = StepCompleted) (siblings bid (st_level s) d1)")
      case open_left: False
      with False run' have d': "d' = d1" by simp
      have "open_steps bid d1 \<noteq> []"
        using open_left by (auto simp: list_all_iff set_siblings open_steps_def filter_empty_conv)
      with d1 show ?thesis by (simp add: batch_ok_def d')
    next
      case all_done: True
      from False all_done run' obtain units gs where
        units: "those (map (\<lambda>x. map_option (summary_unit (st_id x)) (st_result x)) (siblings bid (st_level s) d1)) = Some units"
        and gs: "pack units (cf_requirement config) = Inr gs" "\<not> length (siblings bid (st_level s) d1) \<le> length gs"
        and d': "d' = add_steps bid (Suc (st_level s)) (length gs) 0 gs d1"
        by (auto split: option.splits sum.splits if_splits)
      have none: "open_steps bid d1 = []"
        using all_done d1(1,3) level_le_top [of _ bid d1]
        by (fastforce simp: open_steps_def filter_empty_conv list_all_iff set_siblings batch_shape_def)
      have ne: "siblings bid (st_level s) d1 \<noteq> []"
        using d1(1,3) length_siblings [of bid "st_level s" d1] by (auto simp: batch_shape_def)
      then have "units \<noteq> []" using units by (cases "siblings bid (st_level s) d1") (auto split: option.splits)
      then have "gs \<noteq> []" using pack_partitions(1) [OF gs(1)] by auto
      moreover have "length gs < length (at_level bid (top_level bid d1) d1)"
        using gs(2) by (simp add: length_siblings d1(3))
      ultimately have next_level: "batch_shape bid d'" "batch_measure bid d' \<le> batch_measure bid d1" "open_steps bid d' \<noteq> []"
        using next_level_shape [OF d1(1) none _ _ d' [unfolded d1(3)]] by blast+
      with d1(2) show ?thesis by (auto simp: batch_ok_def)
    qed
  qed
qed

subsection \<open>Runs of accepted results\<close>

inductive accepts :: "info_env \<Rightarrow> string \<Rightarrow> nat \<Rightarrow> info_db \<Rightarrow> info_db \<Rightarrow> bool" for env bid where
  accepts_none: "accepts env bid 0 d d"
| accepts_step: "accepts env bid k d d1 \<Longrightarrow> s \<in> set (steps_of bid d1) \<Longrightarrow> st_status s \<noteq> StepCompleted \<Longrightarrow>
     complete_step env s r config d1 = (Inr st, d2) \<Longrightarrow> accepts env bid (Suc k) d d2"

lemma accepts_measure:
  "accepts env bid k d d' \<Longrightarrow> batch_ok bid d \<Longrightarrow> batch_ok bid d' \<and> batch_measure bid d' + k \<le> batch_measure bid d"
proof (induction rule: accepts.induct)
  case (accepts_step k d d1 s r config st d2)
  then show ?case using complete_step_progress [of bid d1 s env r config st d2] by simp
qed simp

end
