(* ===== verification/InfoRules.thy ===== *)
theory InfoRules
  imports InfoSteps
begin

section \<open>Rules: who may act, and what an approval still covers\<close>

text \<open>
  The checks of \<open>rules.py\<close> and \<open>execution.py\<close> every operation of the automations starts with, and
  the two updates that take work back: \<open>cancel_unsent\<close> and \<open>pause_invalid\<close>.  The messages of the
  errors and the test for a pending migration are left out.
\<close>

definition actor :: "info_env \<Rightarrow> string \<Rightarrow> bool \<Rightarrow> exn + user" where
  "actor env uid write =
     (case en_users env uid of
        None \<Rightarrow> Inl (RuleError ''not_authenticated'')
      | Some u \<Rightarrow>
          if \<not> u_enabled u then Inl (RuleError ''not_authenticated'')
          else if write \<and> u_role u \<notin> {''owner'', ''admin'', ''member''} then Inl (RuleError ''forbidden'')
          else Inr u)"

definition live_binding :: "info_env \<Rightarrow> user \<Rightarrow> exn + string" where
  "live_binding env u =
     (case en_live env (u_id u) of
        None \<Rightarrow> Inl (RuleError ''agent_binding_required'')
      | Some (b, _) \<Rightarrow> Inr b)"

definition find_rule :: "user \<Rightarrow> string \<Rightarrow> info_db \<Rightarrow> exn + info_rule" where
  "find_rule u rid d =
     (case find (\<lambda>r. ir_id r = rid \<and> ir_user_id r = u_id u) (if_rules d) of
        None \<Rightarrow> Inl (RuleError ''not_found'')
      | Some r \<Rightarrow> if ir_issue r = Some ''deleted_by_user'' then Inl (RuleError ''not_found'') else Inr r)"

definition validate_sources :: "info_env \<Rightarrow> user \<Rightarrow> info_config \<Rightarrow> exn + unit" where
  "validate_sources env u c =
     (if set (cf_source_ids c) \<subseteq> set (en_enabled_sources env (u_workspace_id u) (u_id u)) then Inr ()
      else Inl (RuleError ''subscription_required''))"

definition find_target :: "info_env \<Rightarrow> user \<Rightarrow> info_config \<Rightarrow> bool \<Rightarrow> exn + notification_target option" where
  "find_target env u c require_ready =
     (case cf_target_id c of
        None \<Rightarrow> Inr None
      | Some t \<Rightarrow>
          (case en_target env (u_workspace_id u) (u_id u) t require_ready of
             None \<Rightarrow> Inl (RuleError ''notification_target_unavailable'')
           | Some x \<Rightarrow> Inr (Some x)))"

definition transport_generation :: "info_env \<Rightarrow> user \<Rightarrow> notification_target \<Rightarrow> int" where
  "transport_generation env u t =
     (if nt_channel t \<in> {''email'', ''telegram''} then
        (case en_transport env (nt_channel t) (u_workspace_id u) of None \<Rightarrow> 0 | Some g \<Rightarrow> g)
      else 0)"

text \<open>An approval covers a binding, a target at its generations, and a transport at its generation.\<close>

definition approved_context ::
  "info_env \<Rightarrow> info_rule \<Rightarrow> exn + (user \<times> info_config \<times> notification_target option)" where
  "approved_context env row =
     (case actor env (ir_user_id row) True of
        Inl e \<Rightarrow> Inl e
      | Inr u \<Rightarrow>
     (let c = ir_config row in
      if ir_state row \<noteq> ActiveRule then Inl (RuleError ''rule_inactive'')
      else case live_binding env u of
        Inl e \<Rightarrow> Inl e
      | Inr b \<Rightarrow>
      if Some b \<noteq> ir_binding_id row then Inl (RuleError ''agent_binding_changed'')
      else case validate_sources env u c of
        Inl e \<Rightarrow> Inl e
      | Inr _ \<Rightarrow>
      if \<not> cf_notification_enabled c then Inr (u, c, None)
      else case find_target env u c True of
        Inl e \<Rightarrow> Inl e
      | Inr None \<Rightarrow> Inl (RuleError ''notification_target_changed'')
      | Inr (Some t) \<Rightarrow>
         if (Some (nt_config_generation t), Some (nt_activation_generation t))
            \<noteq> (ir_target_generation row, ir_target_activation row)
         then Inl (RuleError ''notification_target_changed'')
         else if Some (transport_generation env u t) \<noteq> ir_transport_generation row
         then Inl (RuleError ''notification_transport_changed'')
         else Inr (u, c, Some t)))"

abbreviation open_status :: "info_status \<Rightarrow> bool" where
  "open_status s \<equiv> s \<in> {PendingWork, JudgingWork, QuotaWaitWork}"

definition cancel_unsent :: "string \<Rightarrow> string \<Rightarrow> info_db \<Rightarrow> info_db" where
  "cancel_unsent rid reason d =
     update_runs
       (\<lambda>r. rn_rule_id r = rid
          \<and> (rn_notice r \<in> {NoticePending, NoticeQuotaWait} \<or> open_status (rn_status r)))
       (\<lambda>r. r\<lparr>rn_status := (if open_status (rn_status r) then CancelledWork else rn_status r),
              rn_notice := NoticeCancelled, rn_reason := Some reason\<rparr>) d"

definition pause_invalid :: "info_rule \<Rightarrow> string \<Rightarrow> time \<Rightarrow> info_db \<Rightarrow> info_db" where
  "pause_invalid row reason now d =
     cancel_unsent (ir_id row) reason
       (update_rules (\<lambda>r. ir_id r = ir_id row)
          (\<lambda>r. r\<lparr>ir_state := PausedRule, ir_issue := Some reason, ir_updated_at := now\<rparr>) d)"

text \<open>\<open>semantic_validation.py\<close>: the privacy of a source is read again at every boundary.\<close>

definition apply_current_privacy :: "info_env \<Rightarrow> string \<Rightarrow> info_item list \<Rightarrow> info_item list" where
  "apply_current_privacy env uid items =
     map (\<lambda>it. if list_ex (\<lambda>s. s \<in> set (en_private_sources env uid)) (it_source_ids it)
               then it\<lparr>it_analysis_mode := ''personal_only''\<rparr> else it) items"

lemma private_items_are_not_eligible:
  assumes "it \<in> set (apply_current_privacy env uid items)" "eligible it"
  shows "set (it_source_ids it) \<inter> set (en_private_sources env uid) = {}"
  using assms by (auto simp: apply_current_privacy_def eligible_def list_ex_iff split: if_splits)

end
