(* ===== verification/InfoClaims.thy ===== *)
theory InfoClaims
  imports InfoRules
begin

section \<open>Claims: one connector works on one step at a time\<close>

text \<open>
  \<open>semantic_claims.py\<close> with the parts of \<open>connector_auth.py\<close>, \<open>execution_capability.py\<close>,
  \<open>model_catalog.py\<close> and \<open>claim_context.py\<close> it calls.  A connector authenticates with its token,
  claims the next step of its user under a lease of 180 seconds, and submits a result; leases that
  run out give the step back, at most three times.  The regular expression of a token is written
  out, SHA-256 and the tables of other services are in \<open>info_env\<close>.
\<close>

subsection \<open>The connector\<close>

record machine =
  ma_user_id :: string
  ma_binding_id :: string
  ma_generation :: int
  ma_agent_id :: string

definition is_hex :: "char \<Rightarrow> bool" where
  "is_hex c \<longleftrightarrow> is_digit c \<or> (let n = of_char c :: nat in 97 \<le> n \<and> n \<le> 102)"

definition is_url_safe :: "char \<Rightarrow> bool" where
  "is_url_safe c \<longleftrightarrow>
     is_digit c \<or> c = CHR ''_'' \<or> c = CHR ''-''
     \<or> (let n = of_char c :: nat in 65 \<le> n \<and> n \<le> 90 \<or> 97 \<le> n \<and> n \<le> 122)"

definition token_binding :: "string \<Rightarrow> string option" where
  "token_binding t =
     (let b = take 32 (drop 9 t); s = drop 42 t
      in if take 9 t = ''ih_ic_v1_'' \<and> length b = 32 \<and> list_all is_hex b \<and> take 1 (drop 41 t) = ''.''
            \<and> length s = 43 \<and> list_all is_url_safe s
         then Some b else None)"

definition authenticate :: "info_env \<Rightarrow> string \<Rightarrow> info_db \<Rightarrow> exn + machine" where
  "authenticate env token d =
     (let refused = Inl (RuleError ''connector_unauthorized'') in
      case Option.bind (token_binding token) (\<lambda>b. lookup_row cn_binding_id b (if_connectors d)) of
        None \<Rightarrow> refused
      | Some row \<Rightarrow>
         if \<not> cn_enabled row \<or> cn_token_hash row \<noteq> en_digest env token then refused
         else case en_users env (cn_user_id row) of
           None \<Rightarrow> refused
         | Some u \<Rightarrow>
            if \<not> u_enabled u \<or> u_role u = ''viewer'' then refused
            else case en_live env (u_id u) of
              None \<Rightarrow> refused
            | Some (b, agent) \<Rightarrow>
               if b \<noteq> cn_binding_id row then refused
               else Inr \<lparr>ma_user_id = cn_user_id row, ma_binding_id = b, ma_generation = cn_generation row,
                         ma_agent_id = agent\<rparr>)"

definition recent_report :: "time \<Rightarrow> time \<Rightarrow> bool" where
  "recent_report now t \<longleftrightarrow> 0 \<le> now - t \<and> now - t \<le> seconds 300"

definition execution_reason :: "string \<Rightarrow> time \<Rightarrow> info_db \<Rightarrow> string option" where
  "execution_reason b now d =
     (case lookup_row cn_binding_id b (if_connectors d) of
        None \<Rightarrow> Some ''offline''
      | Some c \<Rightarrow>
         if \<not> cn_enabled c \<or> (case cn_last_seen c of None \<Rightarrow> True | Some t \<Rightarrow> \<not> recent_report now t)
         then Some ''offline''
         else case lookup_row ex_binding_id b (if_executions d) of
           None \<Rightarrow> Some ''connector_upgrade_required''
         | Some e \<Rightarrow>
            if ex_generation e \<noteq> cn_generation c then Some ''connector_upgrade_required''
            else if \<not> recent_report now (ex_updated_at e) then Some ''offline''
            else if truthy (or_empty (ex_runtime_block e)) then ex_runtime_block e
            else if ex_mode e = ''catalog_only'' then Some ''execution_disabled''
            else None)"

definition require_execution :: "string \<Rightarrow> time \<Rightarrow> info_db \<Rightarrow> exn + string" where
  "require_execution b now d =
     (case execution_reason b now d of
        Some r \<Rightarrow> Inl (RuleError r)
      | None \<Rightarrow> (case lookup_row ex_binding_id b (if_executions d) of
                  None \<Rightarrow> Inr [] | Some e \<Rightarrow> Inr (ex_mode e)))"

definition catalog_models :: "string \<Rightarrow> info_db \<Rightarrow> available_model list" where
  "catalog_models b d =
     (case (lookup_row mc_binding_id b (if_catalogs d), lookup_row cn_binding_id b (if_connectors d)) of
        (Some m, Some c) \<Rightarrow>
          if cn_enabled c \<and> mc_generation m = cn_generation c
          then filter (\<lambda>x. am_id x \<notin> set (mc_blocked m)) (mc_models m) else []
      | _ \<Rightarrow> [])"

definition require_model :: "string \<Rightarrow> model_selection option \<Rightarrow> info_db \<Rightarrow> exn + available_model" where
  "require_model b sel d =
     (case sel of
        None \<Rightarrow> Inl (RuleError ''analysis_model_unavailable'')
      | Some s \<Rightarrow>
         (case find (\<lambda>m. am_id m = ms_id s) (catalog_models b d) of
            None \<Rightarrow> Inl (RuleError ''analysis_model_unavailable'')
          | Some m \<Rightarrow>
             if truthy (or_empty (ms_thinking s)) \<and> or_empty (ms_thinking s) \<notin> set (am_thinking_levels m)
             then Inl (RuleError ''analysis_thinking_unavailable'') else Inr m))"

definition block_model :: "string \<Rightarrow> string \<Rightarrow> info_db \<Rightarrow> info_db" where
  "block_model b mid d =
     d\<lparr>if_catalogs := update_where (\<lambda>m. mc_binding_id m = b)
         (\<lambda>m. m\<lparr>mc_blocked := sort (remdups (mid # mc_blocked m))\<rparr>) (if_catalogs d)\<rparr>"

subsection \<open>The parent of a batch\<close>

record parent =
  pa_rule_id :: string
  pa_version :: int
  pa_confirmation_id :: "string option"
  pa_binding_id :: "string option"
  pa_status :: info_status
  pa_input :: "info_item list"
  pa_claim_hash :: "string option"
  pa_ready_at :: time

definition parent_of :: "info_batch \<Rightarrow> info_db \<Rightarrow> parent option" where
  "parent_of b d =
     (case ba_run_id b of
        Some rid \<Rightarrow>
          map_option (\<lambda>r. \<lparr>pa_rule_id = rn_rule_id r, pa_version = rn_version r, pa_confirmation_id = rn_confirmation_id r,
             pa_binding_id = None, pa_status = rn_status r, pa_input = rn_input r, pa_claim_hash = rn_claim_hash r,
             pa_ready_at = rn_ready_at r\<rparr>) (lookup_row rn_id rid (if_runs d))
      | None \<Rightarrow>
          map_option (\<lambda>p. \<lparr>pa_rule_id = pv_rule_id p, pa_version = pv_version p, pa_confirmation_id = None,
             pa_binding_id = Some (pv_binding_id p), pa_status = pv_status p, pa_input = pv_input p,
             pa_claim_hash = pv_claim_hash p, pa_ready_at = pv_ready_at p\<rparr>)
            (Option.bind (ba_preview_id b) (\<lambda>i. lookup_row pv_id i (if_previews d))))"

definition parent_state ::
  "info_batch \<Rightarrow> info_status \<Rightarrow> string option \<Rightarrow> time option \<Rightarrow> info_db \<Rightarrow> info_db" where
  "parent_state b st reason ready d =
     (case ba_run_id b of
        Some rid \<Rightarrow>
          update_runs (\<lambda>r. rn_id r = rid)
            (\<lambda>r. r\<lparr>rn_status := st, rn_reason := reason, rn_claim_hash := None,
                   rn_ready_at := (case ready of None \<Rightarrow> rn_ready_at r | Some t \<Rightarrow> t)\<rparr>) d
      | None \<Rightarrow>
          update_previews (\<lambda>p. Some (pv_id p) = ba_preview_id b)
            (\<lambda>p. p\<lparr>pv_status := st, pv_reason := reason, pv_claim_hash := None,
                   pv_ready_at := (case ready of None \<Rightarrow> pv_ready_at p | Some t \<Rightarrow> t)\<rparr>) d)"

definition parent_claimed :: "info_batch \<Rightarrow> string \<Rightarrow> info_db \<Rightarrow> info_db" where
  "parent_claimed b hash d =
     (case ba_run_id b of
        Some rid \<Rightarrow>
          update_runs (\<lambda>r. rn_id r = rid) (\<lambda>r. r\<lparr>rn_claim_hash := Some hash, rn_attempts := rn_attempts r + 1\<rparr>) d
      | None \<Rightarrow>
          update_previews (\<lambda>p. Some (pv_id p) = ba_preview_id b)
            (\<lambda>p. p\<lparr>pv_claim_hash := Some hash, pv_attempts := pv_attempts p + 1\<rparr>) d)"

text \<open>\<open>parent_context\<close>: everything that has to hold still before a step is judged.  When the input is
  no longer eligible the batch is finished before the error is raised.\<close>

definition parent_context ::
  "info_env \<Rightarrow> info_batch \<Rightarrow> machine \<Rightarrow> info_db \<Rightarrow> (info_db, info_config \<times> info_item list) outcome" where
  "parent_context env b m d =
     (case parent_of b d of
        None \<Rightarrow> Raise (LookupError ''parent'') d
      | Some p \<Rightarrow>
     (case actor env (ma_user_id m) True of
        Inl e \<Rightarrow> Raise e d
      | Inr u \<Rightarrow>
     (case find_rule u (pa_rule_id p) d of
        Inl e \<Rightarrow> Raise e d
      | Inr rule \<Rightarrow>
      if pa_version p \<noteq> ir_version rule \<or> ir_state rule = ArchivedRule
      then Raise (RuleError ''rule_changed'') d
      else case (if ba_run_id b \<noteq> None then
                   (case approved_context env rule of
                      Inl e \<Rightarrow> Inl e
                    | Inr _ \<Rightarrow> if pa_confirmation_id p \<noteq> ir_confirmation_id rule \<or> \<not> open_status (pa_status p)
                               then Inl (RuleError ''rule_changed'') else Inr ())
                 else
                   (case validate_sources env u (ir_config rule) of
                      Inl e \<Rightarrow> Inl e
                    | Inr _ \<Rightarrow> if pa_binding_id p \<noteq> Some (ma_binding_id m) \<or> \<not> open_status (pa_status p)
                               then Inl (RuleError ''rule_changed'') else Inr ())) of
        Inl e \<Rightarrow> Raise e d
      | Inr _ \<Rightarrow>
     (case require_model (ma_binding_id m) (cf_model (ir_config rule)) d of
        Inl e \<Rightarrow> Raise e d
      | Inr _ \<Rightarrow>
         let inputs = apply_current_privacy env (ma_user_id m) (pa_input p)
         in if \<not> list_all eligible inputs
            then Raise (RuleError ''input_incomplete'') (finish env (ba_id b) (insufficient ''input_incomplete'') d)
            else Return (ir_config rule, inputs) d))))"

definition context_error :: "info_batch \<Rightarrow> string \<Rightarrow> time \<Rightarrow> info_db \<Rightarrow> info_db" where
  "context_error b code now d =
     (if code = ''input_incomplete'' then d
      else let waiting = code \<in> {''analysis_model_unavailable'', ''analysis_thinking_unavailable''}
           in parent_state b
                (if waiting then PendingWork else if ba_run_id b \<noteq> None then CancelledWork else FailedWork)
                (Some code) (if waiting then Some (now + seconds 60) else None) d)"

subsection \<open>Leases\<close>

definition LEASE_SECONDS :: int where "LEASE_SECONDS = 180"

definition MAX_ATTEMPTS :: int where "MAX_ATTEMPTS = 3"

definition live_claim :: "time \<Rightarrow> string \<Rightarrow> info_claim \<Rightarrow> bool" where
  "live_claim now uid c \<longleftrightarrow> cl_user_id c = uid \<and> cl_status c = Claimed \<and> now < cl_expires_at c"

definition expired_leases :: "time \<Rightarrow> info_db \<Rightarrow> (info_claim \<times> info_step) list" where
  "expired_leases now d =
     concat (map (\<lambda>c. map (Pair c) (filter (\<lambda>s. st_claim_id s = Some (cl_id c)
                          \<and> st_batch_id s \<in> ba_id ` set (if_batches d)) (if_steps d)))
       (filter (\<lambda>c. cl_status c = Claimed \<and> cl_expires_at c \<le> now) (if_claims d)))"

definition expire_one :: "info_claim \<times> info_step \<Rightarrow> info_db \<Rightarrow> info_db" where
  "expire_one cs d =
     (case cs of (c, s) \<Rightarrow>
      case lookup_row ba_id (st_batch_id s) (if_batches d) of
        None \<Rightarrow> d
      | Some b \<Rightarrow>
         let again = ba_preview_id b = None \<and> st_attempts s < MAX_ATTEMPTS;
             d1 = update_steps (\<lambda>x. st_id x = st_id s)
                    (\<lambda>x. x\<lparr>st_status := (if again then StepPending else StepFailed)\<rparr>) d;
             d2 = (case parent_of b d1 of
                     None \<Rightarrow> d1
                   | Some p \<Rightarrow>
                      if ba_result b = None \<and> pa_status p = JudgingWork \<and> pa_claim_hash p = Some (cl_token_hash c)
                      then parent_state b (if again then PendingWork else FailedWork)
                             (Some (if ba_preview_id b \<noteq> None then ''completion_unknown''
                                    else ''semantic_lease_expired'')) None d1
                      else d1)
         in update_claims (\<lambda>x. cl_id x = cl_id c) (\<lambda>x. x\<lparr>cl_status := ClaimExpired\<rparr>) d2)"

definition expire_claims :: "time \<Rightarrow> info_db \<Rightarrow> info_db" where
  "expire_claims now d = fold expire_one (expired_leases now d) d"

subsection \<open>Claiming\<close>

record task =
  tk_claim_id :: string
  tk_claim_token :: string
  tk_agent_id :: string
  tk_run_id :: "string option"
  tk_preview_id :: "string option"
  tk_stage :: step_kind
  tk_requirement :: string
  tk_model :: "model_selection option"
  tk_input :: "json list"
  tk_expires_at :: time

record claim_answer =
  an_task :: "task option"
  an_reason :: "string option"
  an_retry_after :: int

definition allocate ::
  "info_env \<Rightarrow> machine \<Rightarrow> info_batch \<Rightarrow> info_step \<Rightarrow> info_config \<Rightarrow> time \<Rightarrow> info_db \<Rightarrow> claim_answer \<times> info_db" where
  "allocate env m b s config now d =
     (let (hex, d1) = draw d; (lease, d2) = draw d1;
          cid = ''icclaim_'' @ hex; expires = now + seconds LEASE_SECONDS;
          c = \<lparr>cl_id = cid, cl_run_id = ba_run_id b, cl_preview_id = ba_preview_id b, cl_user_id = ma_user_id m,
               cl_binding_id = ma_binding_id m, cl_generation = ma_generation m, cl_token_hash = en_digest env lease,
               cl_status = Claimed, cl_result_hash = None, cl_created_at = now, cl_expires_at = expires\<rparr>;
          d3 = d2\<lparr>if_claims := if_claims d2 @ [c]\<rparr>;
          d4 = update_steps (\<lambda>x. st_id x = st_id s)
                 (\<lambda>x. x\<lparr>st_status := StepJudging, st_attempts := st_attempts x + 1, st_claim_id := Some cid\<rparr>) d3;
          d5 = parent_claimed b (en_digest env lease) (parent_state b JudgingWork None None d4)
      in (\<lparr>an_task = Some \<lparr>tk_claim_id = cid, tk_claim_token = lease, tk_agent_id = ma_agent_id m,
             tk_run_id = ba_run_id b, tk_preview_id = ba_preview_id b, tk_stage = st_kind s,
             tk_requirement = cf_requirement config, tk_model = cf_model config, tk_input = st_input s,
             tk_expires_at = expires\<rparr>, an_reason = None, an_retry_after = 0\<rparr>, d5))"

definition claimable :: "string \<Rightarrow> string \<Rightarrow> time \<Rightarrow> info_db \<Rightarrow> info_step \<Rightarrow> bool" where
  "claimable uid mode now d s \<longleftrightarrow>
     st_status s = StepPending
     \<and> (case lookup_row ba_id (st_batch_id s) (if_batches d) of
          None \<Rightarrow> False
        | Some b \<Rightarrow>
           ba_result b = None
           \<and> (ba_run_id b \<noteq> None \<and> mode = ''full''
              \<or> (\<exists>c \<in> set (if_confirmations d). pc_superseded_by c = None \<and> Some (pc_preview_id c) = ba_preview_id b))
           \<and> (case parent_of b d of
                None \<Rightarrow> False
              | Some p \<Rightarrow>
                 (\<exists>q \<in> set (if_rules d). ir_id q = pa_rule_id p \<and> ir_user_id q = uid)
                 \<and> pa_status p \<in> {PendingWork, QuotaWaitWork} \<and> pa_ready_at p \<le> now))"

definition step_order :: "info_db \<Rightarrow> info_step \<Rightarrow> time \<times> nat \<times> nat" where
  "step_order d s =
     (case lookup_row ba_id (st_batch_id s) (if_batches d) of None \<Rightarrow> 0 | Some b \<Rightarrow> ba_created_at b,
      st_level s, st_ordinal s)"

definition claimable_steps :: "string \<Rightarrow> string \<Rightarrow> time \<Rightarrow> info_db \<Rightarrow> info_step list" where
  "claimable_steps uid mode now d =
     take 50 (sort_key (step_order d) (filter (claimable uid mode now d) (if_steps d)))"

fun claim_loop ::
  "info_env \<Rightarrow> machine \<Rightarrow> time \<Rightarrow> bool \<Rightarrow> string option \<Rightarrow> info_step list \<Rightarrow> info_db
   \<Rightarrow> (info_db, claim_answer) outcome" where
  "claim_loop env m now exhausted waiting [] d =
     Return \<lparr>an_task = None, an_reason = Some (case waiting of None \<Rightarrow> ''empty'' | Some w \<Rightarrow> w),
             an_retry_after = 15\<rparr> d"
| "claim_loop env m now exhausted waiting (s # ss) d =
     (case lookup_row ba_id (st_batch_id s) (if_batches d) of
        None \<Rightarrow> Raise (LookupError ''batch'') d
      | Some b \<Rightarrow>
     (case parent_context env b m d of
        (Inl (RuleError code), d1) \<Rightarrow>
          claim_loop env m now exhausted (Some code) ss (context_error b code now d1)
      | (Inl e, d1) \<Rightarrow> Raise e d1
      | (Inr (config, _), d1) \<Rightarrow>
          if exhausted
          then Return \<lparr>an_task = None, an_reason = Some ''daily_semantic_limit'', an_retry_after = 60\<rparr>
                 (parent_state b QuotaWaitWork (Some ''daily_semantic_limit'')
                    (Some (en_day_start env now + days 1)) d1)
          else (let (a, d2) = allocate env m b s config now d1 in Return a d2)))"

definition claims_since :: "string \<Rightarrow> time \<Rightarrow> info_db \<Rightarrow> int" where
  "claims_since uid t d =
     int (length (filter (\<lambda>c. cl_user_id c = uid \<and> t \<le> cl_created_at c) (if_claims d)))"

definition seen_now :: "string \<Rightarrow> time \<Rightarrow> info_db \<Rightarrow> info_db" where
  "seen_now b now d =
     d\<lparr>if_connectors := update_where (\<lambda>c. cn_binding_id c = b) (\<lambda>c. c\<lparr>cn_last_seen := Some now\<rparr>) (if_connectors d)\<rparr>"

definition claim_body ::
  "info_env \<Rightarrow> string \<Rightarrow> time \<Rightarrow> int \<Rightarrow> int \<Rightarrow> info_db \<Rightarrow> (info_db, claim_answer) outcome" where
  "claim_body env token now daily_limit protocol d =
     (case authenticate env token d of
        Inl e \<Rightarrow> Raise e d
      | Inr m \<Rightarrow>
         if protocol \<noteq> 2 then Raise (RuleError ''connector_upgrade_required'') d
         else let d1 = seen_now (ma_binding_id m) now d in
         (case require_execution (ma_binding_id m) now d1 of
            Inl e \<Rightarrow> Raise e d1
          | Inr mode \<Rightarrow>
             let d2 = expire_claims now d1 in
             if list_ex (live_claim now (ma_user_id m)) (if_claims d2)
             then Return \<lparr>an_task = None, an_reason = Some ''user_concurrency'', an_retry_after = 15\<rparr> d2
             else claim_loop env m now
                    (daily_limit \<le> claims_since (ma_user_id m) (en_day_start env now) d2) None
                    (claimable_steps (ma_user_id m) mode now d2) d2))"

definition claim_work ::
  "info_env \<Rightarrow> string \<Rightarrow> time \<Rightarrow> int \<Rightarrow> int \<Rightarrow> info_db \<Rightarrow> (info_db, claim_answer) outcome" where
  "claim_work env token now daily_limit protocol =
     info_transaction (claim_body env token now daily_limit protocol)"

definition maintain_semantic_leases :: "time \<Rightarrow> info_db \<Rightarrow> info_db" where
  "maintain_semantic_leases now d = expire_claims now d"

subsection \<open>Submitting a result\<close>

text \<open>\<open>json.dumps(result, sort_keys=True, separators=(',',':'), ensure_ascii=True)\<close>.\<close>

definition ascii_char :: "char \<Rightarrow> string" where
  "ascii_char c =
     (let n = of_char c :: nat
      in if 128 \<le> n then CHR 0x5C # ''u00'' @ [hex_digit (n div 16), hex_digit (n mod 16)] else escape_char c)"

definition ascii_string :: "string \<Rightarrow> string" where
  "ascii_string s = CHR 0x22 # concat (map ascii_char s) @ [CHR 0x22]"

fun comma_joined :: "string list \<Rightarrow> string" where
  "comma_joined [] = []"
| "comma_joined [x] = x"
| "comma_joined (x # y # ys) = x @ '','' @ comma_joined (y # ys)"

fun canonical :: "json \<Rightarrow> string" where
  "canonical JNull = ''null''"
| "canonical (JBool b) = (if b then ''true'' else ''false'')"
| "canonical (JInt i) = show_int i"
| "canonical (JReal s) = s"
| "canonical (JStr s) = ascii_string s"
| "canonical (JArr xs) = ''['' @ comma_joined (map canonical xs) @ '']''"
| "canonical (JObj kvs) =
     ''{'' @ comma_joined (map (\<lambda>kt. ascii_string (fst kt) @ '':'' @ snd kt)
               (sort_key fst (map (\<lambda>kv. (fst kv, canonical (snd kv))) kvs))) @ ''}''"

definition authorized_claim ::
  "info_env \<Rightarrow> machine \<Rightarrow> string \<Rightarrow> string \<Rightarrow> string \<Rightarrow> time \<Rightarrow> info_db \<Rightarrow> exn + (info_claim \<times> bool)" where
  "authorized_claim env m cid ctoken digest now d =
     (case find (\<lambda>c. cl_id c = cid \<and> cl_user_id c = ma_user_id m) (if_claims d) of
        None \<Rightarrow> Inl (RuleError ''claim_unauthorized'')
      | Some c \<Rightarrow>
         if cl_token_hash c \<noteq> en_digest env ctoken \<or> cl_binding_id c \<noteq> ma_binding_id m
            \<or> cl_generation c \<noteq> ma_generation m
         then Inl (RuleError ''claim_unauthorized'')
         else if cl_status c = ClaimCompleted then
           (if cl_result_hash c \<noteq> Some digest then Inl (RuleError ''result_conflict'') else Inr (c, True))
         else if cl_status c \<noteq> Claimed \<or> cl_expires_at c \<le> now then Inl (RuleError ''claim_expired'')
         else Inr (c, False))"

record submit_answer =
  sb_accepted :: bool
  sb_duplicate :: bool
  sb_status :: "info_status option"
  sb_reason :: "string option"

definition complete_claim :: "string \<Rightarrow> string \<Rightarrow> info_db \<Rightarrow> info_db" where
  "complete_claim cid digest =
     update_claims (\<lambda>c. cl_id c = cid) (\<lambda>c. c\<lparr>cl_status := ClaimCompleted, cl_result_hash := Some digest\<rparr>)"

definition error_result :: "string \<Rightarrow> json" where
  "error_result e = JObj [(''error'', JStr e)]"

definition reported_failure :: "json \<Rightarrow> string" where
  "reported_failure result =
     (if result = error_result ''analysis_timeout'' then ''analysis_timeout''
      else if result = error_result ''analysis_call_failed'' then ''analysis_call_failed''
      else if result = error_result ''completion_unknown'' then ''completion_unknown''
      else ''invalid_model_output'')"

text \<open>\<open>set(result) != {'output','model'} or result['model'] != config.model.id\<close>, then the output.\<close>

definition model_output :: "info_config \<Rightarrow> json \<Rightarrow> json option" where
  "model_output config result =
     (case result of
        JObj kvs \<Rightarrow>
          if fst ` set kvs = {''output'', ''model''}
             \<and> map_of kvs ''model'' = map_option (JStr \<circ> ms_id) (cf_model config)
          then map_of kvs ''output'' else None
      | _ \<Rightarrow> None)"

definition judge_result ::
  "info_env \<Rightarrow> info_batch \<Rightarrow> info_step \<Rightarrow> info_config \<Rightarrow> info_item list \<Rightarrow> json \<Rightarrow> info_db \<Rightarrow> info_status \<times> info_db" where
  "judge_result env b s config inputs result d =
     (let failed = (\<lambda>d. (FailedWork, update_steps (\<lambda>x. st_id x = st_id s) (\<lambda>x. x\<lparr>st_status := StepFailed\<rparr>)
                           (parent_state b FailedWork (Some (reported_failure result)) None d)))
      in case model_output config result of
           None \<Rightarrow> failed d
         | Some out \<Rightarrow>
            (case validate out s inputs of
               Inl _ \<Rightarrow> failed d
             | Inr r \<Rightarrow>
                (case complete_step env s r config d of
                   (Inl _, d1) \<Rightarrow> failed d1
                 | (Inr st, d1) \<Rightarrow> (st, if st = PendingWork then parent_state b PendingWork None None d1 else d1))))"

definition submit_body ::
  "info_env \<Rightarrow> string \<Rightarrow> string \<Rightarrow> string \<Rightarrow> json \<Rightarrow> time \<Rightarrow> info_db \<Rightarrow> (info_db, submit_answer) outcome" where
  "submit_body env token cid ctoken result now d =
     (let digest = en_digest env (canonical result) in
      case authenticate env token d of
        Inl e \<Rightarrow> Raise e d
      | Inr m \<Rightarrow>
     (case authorized_claim env m cid ctoken digest now d of
        Inl e \<Rightarrow> Raise e d
      | Inr (c, True) \<Rightarrow>
          Return \<lparr>sb_accepted = True, sb_duplicate = True, sb_status = None, sb_reason = None\<rparr> d
      | Inr (c, False) \<Rightarrow>
     (case find (\<lambda>s. st_claim_id s = Some cid \<and> st_status s = StepJudging) (if_steps d) of
        None \<Rightarrow> Raise (RuleError ''claim_superseded'') d
      | Some s \<Rightarrow>
     (case lookup_row ba_id (st_batch_id s) (if_batches d) of
        None \<Rightarrow> Raise (LookupError ''batch'') d
      | Some b \<Rightarrow>
     (case parent_context env b m d of
        (Inl (RuleError code), d1) \<Rightarrow>
          (let d2 = context_error b code now d1;
               d3 = update_claims (\<lambda>x. cl_id x = cid) (\<lambda>x. x\<lparr>cl_status := ClaimRejected\<rparr>) d2;
               d4 = update_steps (\<lambda>x. st_id x = st_id s) (\<lambda>x. x\<lparr>st_status := StepPending\<rparr>) d3
           in Return \<lparr>sb_accepted = False, sb_duplicate = False, sb_status = None, sb_reason = Some code\<rparr> d4)
      | (Inl e, d1) \<Rightarrow> Raise e d1
      | (Inr (config, inputs), d1) \<Rightarrow>
          if result = error_result ''isolated_completion_failed'' then
            (let st = (if ba_preview_id b \<noteq> None then FailedWork else PendingWork);
                 d2 = (case cf_model config of None \<Rightarrow> d1 | Some x \<Rightarrow> block_model (ma_binding_id m) (ms_id x) d1);
                 d3 = parent_state b st (Some ''analysis_model_unavailable'') (Some (now + minutes 5)) d2;
                 d4 = update_steps (\<lambda>x. st_id x = st_id s)
                        (\<lambda>x. x\<lparr>st_status := (if ba_preview_id b \<noteq> None then StepFailed else StepPending)\<rparr>) d3
             in Return \<lparr>sb_accepted = True, sb_duplicate = False, sb_status = Some st, sb_reason = None\<rparr>
                  (complete_claim cid digest d4))
          else (let (st, d2) = judge_result env b s config inputs result d1
                in Return \<lparr>sb_accepted = True, sb_duplicate = False, sb_status = Some st, sb_reason = None\<rparr>
                     (complete_claim cid digest d2)))))))"

definition submit_result ::
  "info_env \<Rightarrow> string \<Rightarrow> string \<Rightarrow> string \<Rightarrow> json \<Rightarrow> time \<Rightarrow> info_db \<Rightarrow> (info_db, submit_answer) outcome" where
  "submit_result env token cid ctoken result now =
     info_transaction (submit_body env token cid ctoken result now)"

end
