(* ===== verification/InfoSchedule.thy ===== *)
theory InfoSchedule
  imports InfoClaims
begin

section \<open>Events and triggers: which content a rule judges, and when\<close>

text \<open>
  \<open>events.py\<close>, \<open>scheduling.py\<close>, \<open>content.py\<close> and \<open>execution.py\<close>.  A published feed records one event
  per new article and user; the worker asks every active rule whether its trigger is due and puts
  the events the rule has not judged yet into a run.  A zone is the pair of functions of \<open>info_env\<close>;
  seconds are counted in integers where the code divides floating point numbers.
\<close>

subsection \<open>Events\<close>

record feed_item =
  fi_id :: "string option"
  fi_source_ids :: "string list"
  fi_source_id :: "string option"
  fi_fingerprint :: string

definition item_sources :: "feed_item \<Rightarrow> string list" where
  "item_sources it = (case fi_source_id it of None \<Rightarrow> fi_source_ids it
     | Some s \<Rightarrow> if truthy s then s # fi_source_ids it else fi_source_ids it)"

definition insert_or_ignore :: "'a \<Rightarrow> 'a list \<Rightarrow> 'a list" where
  "insert_or_ignore x xs = (if x \<in> set xs then xs else xs @ [x])"

definition record_item ::
  "string \<Rightarrow> string \<Rightarrow> string list \<Rightarrow> string list \<Rightarrow> time \<Rightarrow> feed_item \<Rightarrow> (info_db, nat) outcome
   \<Rightarrow> (info_db, nat) outcome" where
  "record_item w uid active known now it r =
     (case r of
        (Inl e, d) \<Rightarrow> (Inl e, d)
      | (Inr n, d) \<Rightarrow>
     (case fi_id it of
        None \<Rightarrow> (Inr n, d)
      | Some aid \<Rightarrow>
         let sources = filter (\<lambda>s. s \<in> set active) (item_sources it)
         in if aid = [] \<or> sources = [] then (Inr n, d)
            else
              let new = (uid, aid) \<notin> set (if_seen_items d);
                  new_identity = (uid, fi_fingerprint it) \<notin> set (if_seen_identities d);
                  d1 = d\<lparr>if_seen_items := insert_or_ignore (uid, aid) (if_seen_items d),
                         if_seen_identities := insert_or_ignore (uid, fi_fingerprint it) (if_seen_identities d)\<rparr>;
                  from_known = sort (remdups (filter (\<lambda>s. s \<in> set known) sources))
              in if new \<and> new_identity \<and> from_known \<noteq> [] then
                   if \<exists>e \<in> set (if_events d1). ie_user_id e = uid \<and> ie_article_id e = aid
                   then (Inl IntegrityError, d1)
                   else (Inr (Suc n),
                     d1\<lparr>if_events := if_events d1 @ [\<lparr>ie_id = if_next_event_id d1, ie_workspace_id = w, ie_user_id = uid,
                          ie_article_id = aid, ie_source_ids = from_known, ie_created_at = now\<rparr>],
                        if_next_event_id := if_next_event_id d1 + 1\<rparr>)
                 else (Inr n, d1)))"

text \<open>The caller owns the transaction.\<close>

definition record_events ::
  "string \<Rightarrow> string \<Rightarrow> feed_item list \<Rightarrow> string list \<Rightarrow> time \<Rightarrow> info_db \<Rightarrow> (info_db, nat) outcome" where
  "record_events w uid items successful now d =
     (let known = map snd (filter (\<lambda>b. fst b = uid) (if_baselines d))
      in case fold (record_item w uid successful known now) items (Inr 0, d) of
           (Inl e, d1) \<Rightarrow> Raise e d1
         | (Inr n, d1) \<Rightarrow>
             Return n (d1\<lparr>if_baselines :=
               fold (\<lambda>s. insert_or_ignore (uid, s)) (sort (remdups successful)) (if_baselines d1)\<rparr>))"

subsection \<open>Clocks\<close>

definition day :: time where "day = days 1"

definition clock_time :: "trigger \<Rightarrow> time" where
  "clock_time t =
     (case (parse_int (take 2 (tg_time t)), parse_int (drop 3 (tg_time t))) of
        (Some h, Some m) \<Rightarrow> minutes (60 * h + m) | _ \<Rightarrow> 0)"

text \<open>Monday is 0; the first day of the epoch was a Thursday.\<close>

definition weekday :: "int \<Rightarrow> int" where
  "weekday n = (n + 3) mod 7"

fun next_calendar :: "info_env \<Rightarrow> trigger \<Rightarrow> time \<Rightarrow> int \<Rightarrow> nat \<Rightarrow> exn + time" where
  "next_calendar env t after date 0 = Inl (ValueError ''No valid calendar occurrence'')"
| "next_calendar env t after date (Suc n) =
     (let candidate = date * day + clock_time t; utc = en_utc env (tg_timezone t) candidate
      in if tg_weekdays t \<noteq> [] \<and> weekday date \<notin> set (tg_weekdays t)
         then next_calendar env t after (date + 1) n
         else if en_local env (tg_timezone t) utc \<noteq> candidate then next_calendar env t after (date + 1) n
         else if after < utc then Inr utc
         else next_calendar env t after (date + 1) n)"

definition next_due :: "info_env \<Rightarrow> trigger \<Rightarrow> time \<Rightarrow> exn + time option" where
  "next_due env t after =
     (case tg_kind t of
        IntervalTrigger \<Rightarrow> Inr (Some (after + seconds (tg_interval_seconds t)))
      | CalendarTrigger \<Rightarrow>
          (case next_calendar env t after (en_local env (tg_timezone t) after div day) 16 of
             Inl e \<Rightarrow> Inl e | Inr x \<Rightarrow> Inr (Some x))
      | _ \<Rightarrow> Inr None)"

lemma next_calendar_later: "next_calendar env t after date n = Inr x \<Longrightarrow> after < x"
  by (induction n arbitrary: date) (auto simp: Let_def split: if_splits)

definition due_count :: "trigger \<Rightarrow> info_event list \<Rightarrow> time option \<Rightarrow> time \<Rightarrow> int" where
  "due_count t events scheduled now =
     (case events of
        [] \<Rightarrow> 0
      | e # _ \<Rightarrow>
         (case tg_kind t of
            EachTrigger \<Rightarrow> 1
          | CountTrigger \<Rightarrow>
              if tg_count t \<le> int (length events) then tg_count t
              else if (case tg_max_wait_seconds t of None \<Rightarrow> False | Some w \<Rightarrow> ie_created_at e + seconds w \<le> now)
              then int (length events) else 0
          | _ \<Rightarrow> if (case scheduled of None \<Rightarrow> False | Some s \<Rightarrow> s \<le> now) then int (length events) else 0))"

definition advance_due :: "info_env \<Rightarrow> trigger \<Rightarrow> time \<Rightarrow> time \<Rightarrow> exn + time option" where
  "advance_due env t scheduled now =
     (if tg_kind t = IntervalTrigger
      then (let i = seconds (tg_interval_seconds t)
            in Inr (Some (scheduled + ((now - scheduled) div i + 1) * i)))
      else next_due env t now)"

function last_boundary :: "info_env \<Rightarrow> trigger \<Rightarrow> time \<Rightarrow> time \<Rightarrow> time \<Rightarrow> exn + time" where
  "last_boundary env t now previous candidate =
     (if candidate \<le> now then
        (case next_calendar env t candidate (en_local env (tg_timezone t) candidate div day) 16 of
           Inl e \<Rightarrow> Inl e
         | Inr c \<Rightarrow> last_boundary env t now (max previous candidate) c)
      else Inr previous)"
  by pat_completeness auto

termination
  by (relation "measure (\<lambda>(_, _, now, _, candidate). nat (now - candidate + 1))")
     (auto dest: next_calendar_later)

declare last_boundary.simps [simp del]

definition batch_cutoff :: "info_env \<Rightarrow> trigger \<Rightarrow> time option \<Rightarrow> time \<Rightarrow> exn + time" where
  "batch_cutoff env t scheduled now =
     (case scheduled of
        None \<Rightarrow> Inr now
      | Some previous \<Rightarrow>
         if tg_kind t \<notin> {IntervalTrigger, CalendarTrigger} then Inr now
         else if now < previous then Inr previous
         else if tg_kind t = IntervalTrigger
         then (let i = seconds (tg_interval_seconds t)
               in Inr (previous + ((now - previous) div i + 1) * i - i))
         else (case next_calendar env t (now - days 16)
                      (en_local env (tg_timezone t) (now - days 16) div day) 16 of
                 Inl e \<Rightarrow> Inl e
               | Inr c \<Rightarrow> last_boundary env t now previous c))"

subsection \<open>Runs\<close>

definition evidence_input :: "stored_article \<Rightarrow> nat \<Rightarrow> info_item" where
  "evidence_input a remaining =
     (let title = take 500 (sa_title a);
          body = (if truthy (sa_body_text a) then sa_body_text a
                  else if truthy (sa_content a) then sa_content a else sa_summary a);
          whole = title @ newline @ body; text = take remaining whole
      in \<lparr>it_article_id = sa_article_id a, it_title = title, it_text = text,
          it_source_ids = sort (remdups ((case sa_source_id a of None \<Rightarrow> [] | Some s \<Rightarrow> if truthy s then [s] else [])
                                         @ sa_source_ids a)),
          it_truncated = (length text < length whole \<or> sa_body_truncated a),
          it_analysis_mode = sa_analysis_mode a, it_source_name = sa_source_name a,
          it_published_at = sa_published_at a, it_url = sa_url a\<rparr>)"

definition event_input :: "info_env \<Rightarrow> info_event \<Rightarrow> string \<Rightarrow> string \<Rightarrow> info_item" where
  "event_input env e w uid =
     (case en_article env w uid (ie_article_id e) of
        Some a \<Rightarrow> evidence_input a 1000000
      | None \<Rightarrow> \<lparr>it_article_id = ie_article_id e, it_title = [], it_text = [], it_source_ids = ie_source_ids e,
                 it_truncated = True, it_analysis_mode = ''full'', it_source_name = [], it_published_at = [],
                 it_url = []\<rparr>)"

definition matches_rule :: "info_rule \<Rightarrow> info_config \<Rightarrow> time \<Rightarrow> info_db \<Rightarrow> info_event \<Rightarrow> bool" where
  "matches_rule row c now d e \<longleftrightarrow>
     ie_user_id e = ir_user_id row
     \<and> (ir_cursor row < ie_id e \<or> (ir_id row, ie_id e) \<in> set (if_event_carry d))
     \<and> ie_created_at e \<le> now \<and> list_ex (\<lambda>s. s \<in> set (cf_source_ids c)) (ie_source_ids e)"

definition matching_events :: "info_rule \<Rightarrow> info_config \<Rightarrow> time \<Rightarrow> info_db \<Rightarrow> info_event list" where
  "matching_events row c now d =
     (if cf_source_ids c = [] then [] else sort_key ie_id (filter (matches_rule row c now d) (if_events d)))"

definition start_run ::
  "info_env \<Rightarrow> info_rule \<Rightarrow> info_config \<Rightarrow> info_item list \<Rightarrow> int list \<Rightarrow> time \<Rightarrow> info_db \<Rightarrow> string \<times> info_db" where
  "start_run env row c inputs event_ids now d =
     (let (hex, d1) = draw d; rid = ''iarun_'' @ hex;
          run = \<lparr>rn_id = rid, rn_rule_id = ir_id row, rn_version = ir_version row,
                 rn_confirmation_id = ir_confirmation_id row, rn_status = PendingWork, rn_notice = NotRequired,
                 rn_reason = None, rn_input = inputs, rn_event_ids = event_ids, rn_claim_hash = None,
                 rn_delivery_started_at = None, rn_attempts = 0, rn_ready_at = now, rn_created_at = now\<rparr>;
          d2 = d1\<lparr>if_runs := if_runs d1 @ [run]\<rparr>
      in (rid, create_batch env c inputs now (Some rid) None d2))"

definition reschedule :: "info_env \<Rightarrow> info_rule \<Rightarrow> trigger \<Rightarrow> time option \<Rightarrow> time \<Rightarrow> info_db \<Rightarrow> (info_db, unit) outcome" where
  "reschedule env row t scheduled now d =
     (case scheduled of
        None \<Rightarrow> Return () d
      | Some s \<Rightarrow>
         if now < s then Return () d
         else case advance_due env t s now of
           Inl e \<Rightarrow> Raise e d
         | Inr None \<Rightarrow> Raise (LookupError ''isoformat'') d
         | Inr (Some due) \<Rightarrow>
             Return () (d\<lparr>if_trigger_state := update_where (\<lambda>x. fst x = ir_id row) (\<lambda>x. (fst x, Some due))
                            (if_trigger_state d)\<rparr>))"

definition take_events :: "info_env \<Rightarrow> info_rule \<Rightarrow> info_config \<Rightarrow> info_event list \<Rightarrow> time \<Rightarrow> info_db \<Rightarrow> string \<times> info_db" where
  "take_events env row c selected now d =
     (let ids = map ie_id selected;
          (rid, d1) = start_run env row c
             (map (\<lambda>e. event_input env e (ir_workspace_id row) (ir_user_id row)) selected) ids now d
      in (rid, (update_rules (\<lambda>r. ir_id r = ir_id row) (\<lambda>r. r\<lparr>ir_cursor := max (ir_cursor r) (last ids)\<rparr>) d1)
               \<lparr>if_event_carry := filter (\<lambda>x. \<not> (fst x = ir_id row \<and> snd x \<in> set ids)) (if_event_carry d1)\<rparr>))"

definition enqueue_rule :: "info_env \<Rightarrow> info_rule \<Rightarrow> time \<Rightarrow> info_db \<Rightarrow> (info_db, string option) outcome" where
  "enqueue_rule env row now d =
     (case approved_context env row of
        Inl (RuleError code) \<Rightarrow> Return None (pause_invalid row code now d)
      | Inl e \<Rightarrow> Raise e d
      | Inr (_, c, _) \<Rightarrow>
         let scheduled = Option.bind (map_of (if_trigger_state d) (ir_id row)) id
         in case batch_cutoff env (cf_trigger c) scheduled now of
              Inl e \<Rightarrow> Raise e d
            | Inr cutoff \<Rightarrow>
               let events = matching_events row c cutoff d;
                   n = due_count (cf_trigger c) events scheduled now
               in case reschedule env row (cf_trigger c) scheduled now d of
                    (Inl e, d1) \<Rightarrow> Raise e d1
                  | (Inr _, d1) \<Rightarrow>
                     if n = 0 then Return None d1
                     else (let (rid, d2) = take_events env row c (take (nat n) events) now d1
                           in Return (Some rid) d2))"

fun enqueue_all :: "info_env \<Rightarrow> time \<Rightarrow> info_rule list \<Rightarrow> info_db \<Rightarrow> (info_db, string list) outcome" where
  "enqueue_all env now [] d = Return [] d"
| "enqueue_all env now (row # rows) d =
     (case enqueue_rule env row now d of
        (Inl e, d1) \<Rightarrow> Raise e d1
      | (Inr rid, d1) \<Rightarrow>
         let d2 = update_rules (\<lambda>r. ir_id r = ir_id row) (\<lambda>r. r\<lparr>ir_checked_at := Some now\<rparr>) d1
         in case enqueue_all env now rows d2 of
              (Inl e, d3) \<Rightarrow> Raise e d3
            | (Inr ids, d3) \<Rightarrow> Return (case rid of None \<Rightarrow> ids | Some i \<Rightarrow> i # ids) d3)"

definition due_rules :: "int \<Rightarrow> info_db \<Rightarrow> info_rule list" where
  "due_rules limit d =
     limit_rows limit
       (sort_key (\<lambda>r. (case ir_checked_at r of None \<Rightarrow> (0::nat, 0::int) | Some t \<Rightarrow> (1, t), ir_id r))
         (filter (\<lambda>r. ir_state r = ActiveRule) (if_rules d)))"

definition evaluate_pending :: "info_env \<Rightarrow> time \<Rightarrow> int \<Rightarrow> info_db \<Rightarrow> (info_db, string list) outcome" where
  "evaluate_pending env now limit = info_transaction (\<lambda>d. enqueue_all env now (due_rules limit d) d)"

end
