(* ===== verification/InfoChanges.thy ===== *)
theory InfoChanges
  imports InfoSchedule
begin

section \<open>Changing a rule\<close>

text \<open>
  \<open>save\<close>, \<open>transition\<close> and \<open>delete\<close> of \<open>rules.py\<close> with \<open>model_change.py\<close>, and \<open>revoke\<close> of
  \<open>connector_auth.py\<close>.  An edit asks for a new approval and cancels what was not sent; an edit of
  the model only keeps the waiting content for the next approval.  The log of approvals, which no
  modelled code reads, and the projection of a rule for the page are left out: an operation answers
  the identifier of its rule.
\<close>

definition without_model :: "info_config \<Rightarrow> info_config" where
  "without_model c = c\<lparr>cf_model := None\<rparr>"

definition drop_carry :: "string \<Rightarrow> info_db \<Rightarrow> info_db" where
  "drop_carry rid d =
     d\<lparr>if_rule_carry := filter (\<lambda>x. snd x \<noteq> rid) (if_rule_carry d),
       if_event_carry := filter (\<lambda>x. fst x \<noteq> rid) (if_event_carry d)\<rparr>"

definition carry_run :: "string \<Rightarrow> info_run \<Rightarrow> (string \<times> string) list \<Rightarrow> (string \<times> string) list" where
  "carry_run rid r xs = (if rn_id r \<in> fst ` set xs then xs else xs @ [(rn_id r, rid)])"

definition preserve_waiting :: "info_rule \<Rightarrow> info_config \<Rightarrow> time \<Rightarrow> info_db \<Rightarrow> info_db" where
  "preserve_waiting row c now d =
     (if without_model (ir_config row) \<noteq> without_model c then drop_carry (ir_id row) d
      else
        let d1 = (if ir_state row = ActiveRule
                  then d\<lparr>if_event_carry := fold (\<lambda>e. insert_or_ignore (ir_id row, ie_id e))
                           (matching_events row c now d) (if_event_carry d)\<rparr>
                  else d)
        in d1\<lparr>if_rule_carry := fold (carry_run (ir_id row))
                 (filter (\<lambda>r. rn_rule_id r = ir_id row \<and> open_status (rn_status r) \<and> rn_notice r = NotRequired)
                   (if_runs d1)) (if_rule_carry d1)\<rparr>)"

fun resume_runs :: "info_env \<Rightarrow> info_rule \<Rightarrow> info_config \<Rightarrow> time \<Rightarrow> info_run list \<Rightarrow> info_db \<Rightarrow> info_db" where
  "resume_runs env row c now [] d = d"
| "resume_runs env row c now (old # rest) d =
     resume_runs env row c now rest (snd (start_run env row c (rn_input old) (rn_event_ids old) now d))"

definition resume_waiting :: "info_env \<Rightarrow> info_rule \<Rightarrow> info_config \<Rightarrow> time \<Rightarrow> info_db \<Rightarrow> info_db" where
  "resume_waiting env row c now d =
     (let previous = sort_key (\<lambda>r. (rn_created_at r, rn_id r))
            (filter (\<lambda>r. (rn_id r, ir_id row) \<in> set (if_rule_carry d)) (if_runs d));
          d1 = resume_runs env row c now previous d
      in d1\<lparr>if_rule_carry := filter (\<lambda>x. snd x \<noteq> ir_id row) (if_rule_carry d1)\<rparr>)"

definition save_body ::
  "info_env \<Rightarrow> string \<Rightarrow> info_config \<Rightarrow> string option \<Rightarrow> int option \<Rightarrow> time \<Rightarrow> info_db \<Rightarrow> (info_db, string) outcome" where
  "save_body env uid c rule_id expected now d =
     (case actor env uid True of
        Inl e \<Rightarrow> Raise e d
      | Inr u \<Rightarrow>
     (case live_binding env u of
        Inl e \<Rightarrow> Raise e d
      | Inr _ \<Rightarrow>
     (case validate_sources env u c of
        Inl e \<Rightarrow> Raise e d
      | Inr _ \<Rightarrow>
     (case (if cf_notification_enabled c then find_target env u c False else Inr None) of
        Inl e \<Rightarrow> Raise e d
      | Inr _ \<Rightarrow>
     (case rule_id of
        Some rid \<Rightarrow>
          (case find_rule u rid d of
             Inl e \<Rightarrow> Raise e d
           | Inr row \<Rightarrow>
              if Some (ir_version row) \<noteq> expected \<or> ir_state row = ArchivedRule
              then Raise (RuleError ''rule_version_conflict'') d
              else
                let v = ir_version row + 1;
                    d1 = preserve_waiting row c now d;
                    d2 = update_rules (\<lambda>r. ir_id r = rid)
                           (\<lambda>r. r\<lparr>ir_version := v, ir_config := c,
                             ir_state := (if ir_state row = DraftRule then DraftRule else PausedRule),
                             ir_confirmation_id := None, ir_issue := None, ir_updated_at := now\<rparr>) d1;
                    d3 = cancel_unsent rid ''rule_changed'' d2
                in Return rid (d3\<lparr>if_rule_versions := if_rule_versions d3 @ [(rid, v, c)]\<rparr>))
      | None \<Rightarrow>
          let (hex, d1) = draw d; rid = ''iar_'' @ hex;
              row = \<lparr>ir_id = rid, ir_workspace_id = u_workspace_id u, ir_user_id = uid, ir_version = 1,
                     ir_state = DraftRule, ir_config = c, ir_issue = None, ir_binding_id = None,
                     ir_target_generation = None, ir_target_activation = None, ir_transport_generation = None,
                     ir_checked_at = None, ir_confirmation_id = None, ir_cursor = 0, ir_created_at = now,
                     ir_updated_at = now\<rparr>
          in Return rid (d1\<lparr>if_rules := if_rules d1 @ [row],
                            if_rule_versions := if_rule_versions d1 @ [(rid, 1, c)]\<rparr>))))))"

definition save_rule ::
  "info_env \<Rightarrow> string \<Rightarrow> info_config \<Rightarrow> string option \<Rightarrow> int option \<Rightarrow> time \<Rightarrow> info_db \<Rightarrow> (info_db, string) outcome" where
  "save_rule env uid c rule_id expected now = info_transaction (save_body env uid c rule_id expected now)"

definition newest_event :: "string \<Rightarrow> info_db \<Rightarrow> int" where
  "newest_event uid d =
     (let ids = map ie_id (filter (\<lambda>e. ie_user_id e = uid) (if_events d))
      in if ids = [] then 0 else foldr max ids (hd ids))"

definition enable_rule :: "info_env \<Rightarrow> user \<Rightarrow> info_rule \<Rightarrow> time \<Rightarrow> info_db \<Rightarrow> (info_db, string) outcome" where
  "enable_rule env u row now d =
     (let c = ir_config row; rid = ir_id row in
      case live_binding env u of
        Inl e \<Rightarrow> Raise e d
      | Inr b \<Rightarrow>
     (case validate_sources env u c of
        Inl e \<Rightarrow> Raise e d
      | Inr _ \<Rightarrow>
     (case (if cf_notification_enabled c then find_target env u c True else Inr None) of
        Inl e \<Rightarrow> Raise e d
      | Inr target \<Rightarrow>
         if cf_source_ids c = [] \<or> (cf_notification_enabled c \<and> target = None) \<or> strip (cf_requirement c) = []
            \<or> cf_model c = None
         then Raise (RuleError ''incomplete_rule'') d
         else case require_model b (cf_model c) d of
           Inl e \<Rightarrow> Raise e d
         | Inr _ \<Rightarrow>
            let granted = (Some b, map_option nt_config_generation target, map_option nt_activation_generation target,
                           map_option (transport_generation env u) target)
            in if ir_state row = ActiveRule then
                 (if (ir_binding_id row, ir_target_generation row, ir_target_activation row,
                      ir_transport_generation row) \<noteq> granted
                  then Raise (RuleError ''rule_authorization_changed'') d else Return rid d)
               else
                 let cursor = newest_event (u_id u) d; (hex, d1) = draw d;
                     d2 = update_rules (\<lambda>r. ir_id r = rid)
                            (\<lambda>r. r\<lparr>ir_state := ActiveRule, ir_issue := None, ir_binding_id := Some b,
                              ir_target_generation := map_option nt_config_generation target,
                              ir_target_activation := map_option nt_activation_generation target,
                              ir_transport_generation := map_option (transport_generation env u) target,
                              ir_confirmation_id := Some (''iaapproval_'' @ hex), ir_cursor := cursor,
                              ir_updated_at := now\<rparr>) d1
                 in case next_due env (cf_trigger c) now of
                      Inl e \<Rightarrow> Raise e d2
                    | Inr due \<Rightarrow>
                       let d3 = d2\<lparr>if_trigger_state :=
                                  filter (\<lambda>x. fst x \<noteq> rid) (if_trigger_state d2) @ [(rid, due)]\<rparr>
                       in case find_rule u rid d3 of
                            Inl e \<Rightarrow> Raise e d3
                          | Inr row' \<Rightarrow> Return rid (resume_waiting env row' c now d3))))"

definition transition_body ::
  "info_env \<Rightarrow> string \<Rightarrow> string \<Rightarrow> int \<Rightarrow> string \<Rightarrow> time \<Rightarrow> info_db \<Rightarrow> (info_db, string) outcome" where
  "transition_body env uid rid version action now d =
     (case actor env uid True of
        Inl e \<Rightarrow> Raise e d
      | Inr u \<Rightarrow>
     (case find_rule u rid d of
        Inl e \<Rightarrow> Raise e d
      | Inr row \<Rightarrow>
         if ir_version row \<noteq> version then Raise (RuleError ''rule_version_conflict'') d
         else if action = ''restore'' then
           (if ir_state row \<noteq> ArchivedRule then Raise (RuleError ''invalid_rule_transition'') d
            else Return rid (update_rules (\<lambda>r. ir_id r = rid)
                   (\<lambda>r. r\<lparr>ir_state := DraftRule, ir_issue := None, ir_binding_id := None, ir_target_generation := None,
                     ir_target_activation := None, ir_transport_generation := None, ir_checked_at := None,
                     ir_confirmation_id := None, ir_updated_at := now\<rparr>) d))
         else if ir_state row = ArchivedRule then Raise (RuleError ''rule_version_conflict'') d
         else if action = ''enable'' then enable_rule env u row now d
         else Return rid
                (drop_carry rid
                  (cancel_unsent rid (''rule_'' @ action)
                    (update_rules (\<lambda>r. ir_id r = rid)
                      (\<lambda>r. r\<lparr>ir_state := (if action = ''pause'' then PausedRule else ArchivedRule),
                             ir_updated_at := now\<rparr>) d)))))"

definition transition_rule ::
  "info_env \<Rightarrow> string \<Rightarrow> string \<Rightarrow> int \<Rightarrow> string \<Rightarrow> time \<Rightarrow> info_db \<Rightarrow> (info_db, string) outcome" where
  "transition_rule env uid rid version action now d =
     (if action \<notin> {''enable'', ''pause'', ''archive'', ''restore''} then Raise (RuleError ''invalid_action'') d
      else info_transaction (transition_body env uid rid version action now) d)"

definition fail_open_previews :: "(info_preview \<Rightarrow> bool) \<Rightarrow> string \<Rightarrow> info_db \<Rightarrow> info_db" where
  "fail_open_previews P reason =
     update_previews (\<lambda>p. P p \<and> open_status (pv_status p)) (\<lambda>p. p\<lparr>pv_status := FailedWork, pv_reason := Some reason\<rparr>)"

definition delete_body ::
  "info_env \<Rightarrow> string \<Rightarrow> string \<Rightarrow> int \<Rightarrow> time \<Rightarrow> info_db \<Rightarrow> (info_db, string) outcome" where
  "delete_body env uid rid version now d =
     (case actor env uid True of
        Inl e \<Rightarrow> Raise e d
      | Inr u \<Rightarrow>
     (case find_rule u rid d of
        Inl e \<Rightarrow> Raise e d
      | Inr row \<Rightarrow>
         if ir_version row \<noteq> version then Raise (RuleError ''rule_version_conflict'') d
         else
           let d1 = update_rules (\<lambda>r. ir_id r = rid)
                      (\<lambda>r. r\<lparr>ir_state := ArchivedRule, ir_issue := Some ''deleted_by_user'', ir_updated_at := now\<rparr>) d;
               d2 = cancel_unsent rid ''rule_deleted'' d1;
               d3 = drop_carry rid (d2\<lparr>if_trigger_state := filter (\<lambda>x. fst x \<noteq> rid) (if_trigger_state d2)\<rparr>)
           in Return rid (fail_open_previews (\<lambda>p. pv_rule_id p = rid) ''rule_deleted'' d3)))"

definition delete_rule ::
  "info_env \<Rightarrow> string \<Rightarrow> string \<Rightarrow> int \<Rightarrow> time \<Rightarrow> info_db \<Rightarrow> (info_db, string) outcome" where
  "delete_rule env uid rid version now = info_transaction (delete_body env uid rid version now)"

fun revoke_rules :: "time \<Rightarrow> info_rule list \<Rightarrow> info_db \<Rightarrow> info_db" where
  "revoke_rules now [] d = d"
| "revoke_rules now (row # rows) d = revoke_rules now rows (pause_invalid row ''connector_revoked'' now d)"

definition revoke_connectors :: "string \<Rightarrow> time \<Rightarrow> info_db \<Rightarrow> info_db" where
  "revoke_connectors uid now d =
     (let d1 = d\<lparr>if_connectors := update_where (\<lambda>c. cn_user_id c = uid) (\<lambda>c. c\<lparr>cn_enabled := False, cn_verified_at := None\<rparr>) (if_connectors d)\<rparr>;
          d2 = revoke_rules now (filter (\<lambda>r. ir_user_id r = uid \<and> ir_state r = ActiveRule) (if_rules d1)) d1
      in fail_open_previews (\<lambda>p. pv_user_id p = uid) ''connector_revoked'' d2)"

end
