(* ===== verification/InfoDelivery.thy ===== *)
theory InfoDelivery
  imports InfoChanges
begin

section \<open>Delivery: a reminder is handed to its transport at most once\<close>

text \<open>
  \<open>delivery.py\<close>.  A matched run is claimed for sending in one transaction, sent, and settled in
  another; a send whose outcome is unknown is terminal, and so is one a lost worker left behind.
  The answer of the transport is an argument.  Quotes of an article are kept as a list; the code
  joins them.
\<close>

record payload_item =
  py_id :: string
  py_title :: string
  py_quotes :: "string list"
  py_source_name :: string
  py_url :: string

record payload =
  pl_rule_name :: string
  pl_run_id :: string
  pl_summary :: string
  pl_reason :: string
  pl_items :: "payload_item list"

definition payload_item_of :: "info_env \<Rightarrow> info_config \<Rightarrow> batch_result \<Rightarrow> info_item \<Rightarrow> payload_item" where
  "payload_item_of env c r it =
     \<lparr>py_id = it_article_id it, py_title = it_title it,
      py_quotes = map ev_quote (filter (\<lambda>e. ev_article_id e = it_article_id it) (br_evidence r)),
      py_source_name = (if truthy (it_source_name it) then it_source_name it else cf_name c),
      py_url = en_original_url env (it_url it)\<rparr>"

text \<open>\<open>dict.fromkeys\<close>: the first occurrences, in order.\<close>

definition cited :: "batch_result \<Rightarrow> string list" where
  "cited r = rev (remdups (rev (map ev_article_id (br_evidence r))))"

definition notification_payload ::
  "info_env \<Rightarrow> info_run \<Rightarrow> info_config \<Rightarrow> info_db \<Rightarrow> exn + payload option" where
  "notification_payload env run c d =
     (case Option.bind (find (\<lambda>b. ba_run_id b = Some (rn_id run)) (if_batches d)) ba_result of
        None \<Rightarrow> Inr None
      | Some r \<Rightarrow>
         if br_status r \<noteq> ''matched'' then Inr None
         else case those (map (map_of (rev (map (\<lambda>it. (it_article_id it, it)) (rn_input run)))) (cited r)) of
                None \<Rightarrow> Inl (LookupError ''article_id'')
              | Some its \<Rightarrow>
                  Inr (Some \<lparr>pl_rule_name = cf_name c, pl_run_id = rn_id run, pl_summary = br_summary r,
                       pl_reason = br_reason r, pl_items = map (payload_item_of env c r) its\<rparr>))"

definition deliveries_since :: "info_env \<Rightarrow> string \<Rightarrow> time \<Rightarrow> info_db \<Rightarrow> int" where
  "deliveries_since env rid start d =
     int (length (filter (\<lambda>r. rn_rule_id r = rid
        \<and> (case rn_delivery_started_at r of None \<Rightarrow> False | Some t \<Rightarrow> start \<le> t)) (if_runs d)))
     + (if en_notices_ready env then
          int (length (filter (\<lambda>n. (\<exists>p \<in> set (if_previews d). pv_id p = pn_preview_id n \<and> pv_rule_id p = rid)
            \<and> (case pn_delivery_started_at n of None \<Rightarrow> False | Some t \<Rightarrow> start \<le> t)) (if_notices d)))
        else 0)"

definition set_notice :: "string \<Rightarrow> notice_status \<Rightarrow> string option \<Rightarrow> info_db \<Rightarrow> info_db" where
  "set_notice rid st reason =
     update_runs (\<lambda>r. rn_id r = rid) (\<lambda>r. r\<lparr>rn_notice := st, rn_reason := reason\<rparr>)"

definition delivery_body ::
  "info_env \<Rightarrow> string \<Rightarrow> time \<Rightarrow> int \<Rightarrow> info_db
   \<Rightarrow> (info_db, (user \<times> notification_target option \<times> payload) option) outcome" where
  "delivery_body env rid now daily_limit d =
     (case lookup_row rn_id rid (if_runs d) of
        None \<Rightarrow> Return None d
      | Some run \<Rightarrow>
         if rn_notice run \<notin> {NoticePending, NoticeQuotaWait} then Return None d
         else case lookup_row ir_id (rn_rule_id run) (if_rules d) of
           None \<Rightarrow> Raise (LookupError ''rule'') d
         | Some row \<Rightarrow>
            if rn_version run \<noteq> ir_version row \<or> rn_confirmation_id run \<noteq> ir_confirmation_id row
               \<or> rn_status run \<noteq> MatchedWork
            then Return None (set_notice rid NoticeCancelled (Some ''rule_changed'') d)
            else case approved_context env row of
              Inl (RuleError code) \<Rightarrow> Return None (pause_invalid row code now d)
            | Inl e \<Rightarrow> Raise e d
            | Inr (u, c, target) \<Rightarrow>
               let start = en_day_start env now in
               if daily_limit \<le> deliveries_since env (ir_id row) start d
               then Return None (update_runs (\<lambda>r. rn_id r = rid)
                      (\<lambda>r. r\<lparr>rn_notice := NoticeQuotaWait, rn_reason := Some ''daily_notification_limit'',
                             rn_ready_at := start + days 1\<rparr>) d)
               else if \<not> list_all eligible (apply_current_privacy env (ir_user_id row) (rn_input run))
               then Return None (set_notice rid NoticeCancelled (Some ''input_incomplete'') d)
               else case notification_payload env run c d of
                 Inl e \<Rightarrow> Raise e d
               | Inr p \<Rightarrow>
                  if p = None \<or> (case p of None \<Rightarrow> False | Some x \<Rightarrow> \<not> list_ex (\<lambda>i. truthy (py_url i)) (pl_items x))
                  then Return None (set_notice rid NoticeFailed (Some ''missing_evidence'') d)
                  else Return (map_option (\<lambda>x. (u, target, x)) p)
                         (update_runs (\<lambda>r. rn_id r = rid)
                           (\<lambda>r. r\<lparr>rn_notice := Sending, rn_reason := None, rn_delivery_started_at := Some now\<rparr>) d))"

definition claim_delivery ::
  "info_env \<Rightarrow> string \<Rightarrow> time \<Rightarrow> int \<Rightarrow> info_db
   \<Rightarrow> (info_db, (user \<times> notification_target option \<times> payload) option) outcome" where
  "claim_delivery env rid now daily_limit = info_transaction (delivery_body env rid now daily_limit)"

subsection \<open>The answer of the transport\<close>

text \<open>A receipt, or an exception with its attributes \<open>outcome_unknown\<close> and \<open>code\<close>.\<close>

datatype send_outcome = Receipt json | SendError bool "string option"

definition WEBHOOK_PROVIDERS :: "string list" where
  "WEBHOOK_PROVIDERS = [''generic_event'', ''generic_text'', ''feishu_lark_v2'', ''wecom'', ''dingtalk'', ''slack'', ''discord'']"

text \<open>\<open>str(value.get('message_id') or '')\<close> for the texts and numbers a transport answers.\<close>

fun message_text :: "json option \<Rightarrow> string" where
  "message_text (Some (JStr s)) = s"
| "message_text (Some (JInt i)) = (if i = 0 then [] else show_int i)"
| "message_text _ = []"

definition verified_receipt :: "json \<Rightarrow> json option" where
  "verified_receipt v =
     (let channel = str_value (obj_get ''channel'' v); verification = str_value (obj_get ''verification'' v);
          base = [(''channel'', JStr (or_empty channel)), (''verification'', JStr (or_empty verification))]
      in if channel = Some ''email'' \<and> verification = Some ''smtp_accepted'' then Some (JObj base)
         else if channel = Some ''telegram'' \<and> verification = Some ''provider_accepted''
                 \<and> (case obj_get ''message_id'' v of Some (JInt i) \<Rightarrow> 0 < i | _ \<Rightarrow> False)
         then Some (JObj (base @ [(''message_id'', case obj_get ''message_id'' v of None \<Rightarrow> JNull | Some x \<Rightarrow> x)]))
         else if channel = Some ''webhook''
                 \<and> verification \<in> {Some ''provider_accepted'', Some ''http_accepted''}
                 \<and> or_empty (str_value (obj_get ''provider'' v)) \<in> set WEBHOOK_PROVIDERS
         then Some (JObj (base @ [(''provider'', JStr (or_empty (str_value (obj_get ''provider'' v))))]))
         else if channel = Some ''openclaw'' \<and> verification = Some ''provider_accepted''
                 \<and> strip (message_text (obj_get ''message_id'' v)) \<noteq> []
         then Some (JObj (base @ [(''message_id'', JStr (message_text (obj_get ''message_id'' v)))]))
         else None)"

text \<open>\<open>re.fullmatch('[a-z][a-z0-9_]{0,79}', code)\<close>.\<close>

definition error_code_ok :: "string \<Rightarrow> bool" where
  "error_code_ok s \<longleftrightarrow>
     (case s of [] \<Rightarrow> False
      | c # cs \<Rightarrow>
         (let lower = (\<lambda>c. let n = of_char c :: nat in 97 \<le> n \<and> n \<le> 122)
          in lower c \<and> length cs \<le> 79 \<and> list_all (\<lambda>x. lower x \<or> is_digit x \<or> x = CHR ''_'') cs))"

definition send_status :: "send_outcome \<Rightarrow> notice_status \<times> string option" where
  "send_status o1 =
     (case o1 of
        Receipt v \<Rightarrow>
          (case verified_receipt v of
             Some _ \<Rightarrow> (Sent, None) | None \<Rightarrow> (NoticeUnknown, Some ''unverified_receipt''))
      | SendError unknown code \<Rightarrow>
          (if unknown then NoticeUnknown else NoticeFailed,
           Some (case code of Some s \<Rightarrow> if error_code_ok s then s else ''notification_failed''
                 | None \<Rightarrow> ''notification_failed'')))"

definition settle_delivery :: "string \<Rightarrow> send_outcome \<Rightarrow> info_db \<Rightarrow> notice_status \<times> info_db" where
  "settle_delivery rid o1 d =
     (let (st, reason) = send_status o1
      in (st, update_runs (\<lambda>r. rn_id r = rid \<and> rn_notice r = Sending)
               (\<lambda>r. r\<lparr>rn_notice := st, rn_reason := reason\<rparr>) d))"

definition mark_interrupted :: "time \<Rightarrow> info_db \<Rightarrow> info_db" where
  "mark_interrupted now =
     update_runs (\<lambda>r. rn_notice r = Sending
        \<and> (case rn_delivery_started_at r of None \<Rightarrow> False | Some t \<Rightarrow> t < now - minutes 5))
       (\<lambda>r. r\<lparr>rn_notice := NoticeUnknown, rn_reason := Some ''delivery_interrupted''\<rparr>)"

definition undelivered :: "time \<Rightarrow> int \<Rightarrow> info_db \<Rightarrow> string list" where
  "undelivered now limit d =
     map rn_id (limit_rows limit (sort_key (\<lambda>r. (rn_created_at r, rn_id r))
       (filter (\<lambda>r. rn_notice r = NoticePending \<or> rn_notice r = NoticeQuotaWait \<and> rn_ready_at r \<le> now) (if_runs d))))"

text \<open>Each claim and each settlement is a transaction of its own; an exception of a claim ends the
  dispatch and keeps what earlier runs wrote.\<close>

fun dispatch_runs ::
  "info_env \<Rightarrow> (user \<Rightarrow> notification_target option \<Rightarrow> payload \<Rightarrow> send_outcome) \<Rightarrow> time \<Rightarrow> int \<Rightarrow> string list
   \<Rightarrow> info_db \<Rightarrow> (info_db, notice_status list) outcome" where
  "dispatch_runs env sender now daily_limit [] d = Return [] d"
| "dispatch_runs env sender now daily_limit (rid # rids) d =
     (case claim_delivery env rid now daily_limit d of
        (Inl e, d1) \<Rightarrow> Raise e d1
      | (Inr None, d1) \<Rightarrow> dispatch_runs env sender now daily_limit rids d1
      | (Inr (Some (u, t, p)), d1) \<Rightarrow>
          (let (st, d2) = settle_delivery rid (sender u t p) d1
           in case dispatch_runs env sender now daily_limit rids d2 of
                (Inl e, d3) \<Rightarrow> Raise e d3
              | (Inr sts, d3) \<Rightarrow> Return (st # sts) d3))"

definition dispatch_pending ::
  "info_env \<Rightarrow> (user \<Rightarrow> notification_target option \<Rightarrow> payload \<Rightarrow> send_outcome) \<Rightarrow> time \<Rightarrow> int \<Rightarrow> int
   \<Rightarrow> info_db \<Rightarrow> (info_db, notice_status list) outcome" where
  "dispatch_pending env sender now limit daily_limit d =
     (let d1 = mark_interrupted now d
      in dispatch_runs env sender now daily_limit (undelivered now limit d1) d1)"

end
