(* ===== verification/InfoPreviews.thy ===== *)
theory InfoPreviews
  imports InfoDelivery
begin

section \<open>Previews: a rule is tried on chosen articles\<close>

text \<open>
  \<open>test\<close> of \<open>rules.py\<close>, \<open>semantic_previews.py\<close>, \<open>preview_recovery.py\<close> and \<open>preview_delivery.py\<close>.  A
  preview uses the batches and claims of the runs.  A request is recognised by its fingerprint and
  its number, so that sending it twice starts no second analysis; a matched preview may send one
  notification.  Own text is prepared by \<open>custom_preview_input.py\<close>, the argument \<open>custom\<close>.  The
  projection of a preview is left out: an operation answers its identifier.
\<close>

subsection \<open>Recognising a request\<close>

definition request_print ::
  "info_env \<Rightarrow> string \<Rightarrow> string \<Rightarrow> int \<Rightarrow> string list \<Rightarrow> bool \<Rightarrow> string option \<Rightarrow> string" where
  "request_print env uid rid version article_ids send target =
     en_digest env (canonical (JArr [JStr uid, JStr rid, JInt version,
       JArr (map JStr (sort (remdups article_ids))), JBool send,
       if send then (case target of None \<Rightarrow> JNull | Some t \<Rightarrow> JStr t) else JNull]))"

definition find_request :: "string \<Rightarrow> string option \<Rightarrow> info_db \<Rightarrow> preview_request option" where
  "find_request uid request_id d =
     (case request_id of
        None \<Rightarrow> None
      | Some i \<Rightarrow> if i = [] then None else find (\<lambda>r. pr_user_id r = uid \<and> pr_request_id r = i) (if_preview_requests d))"

definition remember :: "string \<Rightarrow> string option \<Rightarrow> string \<Rightarrow> string \<Rightarrow> info_db \<Rightarrow> (info_db, unit) outcome" where
  "remember uid request_id digest pid d =
     (case request_id of
        None \<Rightarrow> Return () d
      | Some i \<Rightarrow>
         if i = [] then Return () d
         else if find_request uid request_id d \<noteq> None then Raise IntegrityError d
         else Return () (d\<lparr>if_preview_requests := if_preview_requests d
                @ [\<lparr>pr_user_id = uid, pr_request_id = i, pr_fingerprint = digest, pr_preview_id = pid\<rparr>]\<rparr>))"

definition reusable :: "string \<Rightarrow> info_db \<Rightarrow> info_preview \<Rightarrow> bool" where
  "reusable digest d p \<longleftrightarrow>
     (\<exists>c \<in> set (if_confirmations d). pc_preview_id c = pv_id p \<and> pc_fingerprint c = digest \<and> pc_superseded_by c = None)
     \<and> (pv_status p \<in> {PendingWork, JudgingWork, QuotaWaitWork, CompletedWork} \<or> pv_reason p = Some ''completion_unknown'')"

definition existing :: "string \<Rightarrow> string option \<Rightarrow> string \<Rightarrow> info_db \<Rightarrow> (info_db, string option) outcome" where
  "existing uid request_id digest d =
     (case find_request uid request_id d of
        Some r \<Rightarrow>
          if pr_fingerprint r \<noteq> digest then Raise (RuleError ''preview_request_conflict'') d
          else Return (Some (pr_preview_id r)) d
      | None \<Rightarrow>
         (case first_by (\<lambda>p. - pv_created_at p) (reusable digest d) (if_previews d) of
            None \<Rightarrow> Return None d
          | Some p \<Rightarrow>
             (case remember uid request_id digest (pv_id p) d of
                (Inl e, d1) \<Rightarrow> Raise e d1
              | (Inr _, d1) \<Rightarrow> Return (Some (pv_id p)) d1)))"

text \<open>\<open>request_preview\<close>: a number that is known is answered before anything else is asked.\<close>

definition request_preview :: "string \<Rightarrow> string option \<Rightarrow> string \<Rightarrow> info_db \<Rightarrow> exn + string option" where
  "request_preview uid request_id digest d =
     (case find_request uid request_id d of
        None \<Rightarrow> Inr None
      | Some r \<Rightarrow> if pr_fingerprint r \<noteq> digest then Inl (RuleError ''preview_request_conflict'')
                 else Inr (Some (pr_preview_id r)))"

subsection \<open>Confirming a test\<close>

definition unconfirmed :: "string \<Rightarrow> info_rule \<Rightarrow> info_db \<Rightarrow> info_preview list" where
  "unconfirmed uid row d =
     filter (\<lambda>p. pv_user_id p = uid \<and> pv_rule_id p = ir_id row \<and> pv_version p = ir_version row
        \<and> pv_id p \<notin> pc_preview_id ` set (if_confirmations d)
        \<and> (pv_status p \<in> {PendingWork, QuotaWaitWork, JudgingWork} \<or> 0 < pv_attempts p)) (if_previews d)"

definition terminal_failure :: "info_preview \<Rightarrow> info_db \<Rightarrow> bool" where
  "terminal_failure p d \<longleftrightarrow>
     pv_status p = FailedWork \<and> pv_reason p \<in> {Some ''analysis_call_failed'', Some ''invalid_model_output''}
     \<and> (\<exists>c \<in> set (if_claims d). cl_preview_id c = Some (pv_id p) \<and> cl_status c = ClaimCompleted)"

definition add_confirmation :: "string \<Rightarrow> string \<Rightarrow> string option \<Rightarrow> info_db \<Rightarrow> info_db" where
  "add_confirmation pid digest superseded d =
     d\<lparr>if_confirmations := if_confirmations d
        @ [\<lparr>pc_preview_id = pid, pc_fingerprint = digest, pc_superseded_by = superseded\<rparr>]\<rparr>"

fun supersede :: "string list \<Rightarrow> string \<Rightarrow> string \<Rightarrow> info_preview list \<Rightarrow> info_db \<Rightarrow> (info_db, unit) outcome" where
  "supersede article_ids pid digest [] d = Return () d"
| "supersede article_ids pid digest (p # ps) d =
     (if set (map it_article_id (pv_input p)) \<noteq> set article_ids then supersede article_ids pid digest ps d
      else if pv_attempts p \<noteq> 0 \<and> \<not> terminal_failure p d then Raise (RuleError ''completion_unknown'') d
      else if terminal_failure p d then supersede article_ids pid digest ps d
      else supersede article_ids pid digest ps
             (update_previews (\<lambda>x. pv_id x = pv_id p)
               (\<lambda>x. x\<lparr>pv_status := FailedWork, pv_reason := Some ''preview_superseded''\<rparr>)
               (add_confirmation (pv_id p) digest (Some pid) d)))"

definition confirm ::
  "string \<Rightarrow> info_rule \<Rightarrow> string list \<Rightarrow> string \<Rightarrow> string \<Rightarrow> info_db \<Rightarrow> (info_db, unit) outcome" where
  "confirm uid row article_ids pid digest d =
     (case supersede article_ids pid digest (unconfirmed uid row d) d of
        (Inl e, d1) \<Rightarrow> Raise e d1
      | (Inr _, d1) \<Rightarrow> Return () (add_confirmation pid digest None d1))"

definition open_previews :: "string \<Rightarrow> info_db \<Rightarrow> info_preview list" where
  "open_previews uid d =
     filter (\<lambda>p. pv_user_id p = uid \<and> open_status (pv_status p)
        \<and> (\<exists>c \<in> set (if_confirmations d). pc_preview_id c = pv_id p \<and> pc_superseded_by c = None)) (if_previews d)"

definition MAX_PREVIEWS :: nat where "MAX_PREVIEWS = 5"

subsection \<open>Creating a preview\<close>

text \<open>The articles of the test, each of a source of the rule.\<close>

fun preview_inputs :: "info_env \<Rightarrow> user \<Rightarrow> info_config \<Rightarrow> string list \<Rightarrow> exn + info_item list" where
  "preview_inputs env u c [] = Inr []"
| "preview_inputs env u c (aid # aids) =
     (case en_article env (u_workspace_id u) (u_id u) aid of
        None \<Rightarrow> Inl (RuleError ''not_found'')
      | Some a \<Rightarrow>
         let it = evidence_input a 1000000
         in if set (cf_source_ids c) \<inter> set (it_source_ids it) = {} then Inl (RuleError ''test_source_mismatch'')
            else (case preview_inputs env u c aids of Inl e \<Rightarrow> Inl e | Inr its \<Rightarrow> Inr (it # its)))"

record preview_plan =
  pq_rule :: info_rule
  pq_user :: user
  pq_article_ids :: "string list"
  pq_request_id :: "string option"
  pq_digest :: string
  pq_inputs :: "info_item list"
  pq_target :: "notification_target option"

text \<open>The second transaction: everything is asked again, then the rows are written.\<close>

definition insert_preview :: "info_env \<Rightarrow> preview_plan \<Rightarrow> string \<Rightarrow> string \<Rightarrow> time \<Rightarrow> info_db \<Rightarrow> info_db" where
  "insert_preview env pl pid b now d =
     (let row = pq_rule pl;
          p = \<lparr>pv_id = pid, pv_rule_id = ir_id row, pv_user_id = u_id (pq_user pl), pv_version = ir_version row,
               pv_binding_id = b, pv_input = pq_inputs pl, pv_status = PendingWork, pv_reason = None,
               pv_claim_hash = None, pv_attempts = 0, pv_ready_at = now, pv_created_at = now\<rparr>;
          d1 = d\<lparr>if_previews := if_previews d @ [p]\<rparr>;
          d2 = (case pq_target pl of
                  None \<Rightarrow> d1
                | Some t \<Rightarrow> d1\<lparr>if_notices := if_notices d1
                    @ [\<lparr>pn_preview_id = pid, pn_target_id = nt_id t, pn_target_generation = nt_config_generation t,
                        pn_target_activation = nt_activation_generation t, pn_status = WaitingAnalysis,
                        pn_reason = None, pn_delivery_started_at = None, pn_ready_at = None, pn_created_at = now\<rparr>]\<rparr>)
      in create_batch env (ir_config row) (pq_inputs pl) now None (Some pid) d2)"

definition preview_body :: "info_env \<Rightarrow> preview_plan \<Rightarrow> time \<Rightarrow> info_db \<Rightarrow> (info_db, string) outcome" where
  "preview_body env pl now d0 =
     (let (hex, d) = draw d0; pid = ''iapreview_'' @ hex; uid = u_id (pq_user pl); row = pq_rule pl in
      case actor env uid True of
        Inl e \<Rightarrow> Raise e d
      | Inr u \<Rightarrow>
     (case find_rule u (ir_id row) d of
        Inl e \<Rightarrow> Raise e d
      | Inr current \<Rightarrow>
         if ir_version current \<noteq> ir_version row \<or> ir_state current = ArchivedRule
         then Raise (RuleError ''rule_version_conflict'') d
         else case live_binding env u of
           Inl e \<Rightarrow> Raise e d
         | Inr b \<Rightarrow>
        (case require_execution b now d of
           Inl e \<Rightarrow> Raise e d
         | Inr _ \<Rightarrow>
        (case require_model b (cf_model (ir_config row)) d of
           Inl e \<Rightarrow> Raise e d
         | Inr _ \<Rightarrow>
        (case existing uid (pq_request_id pl) (pq_digest pl) d of
           (Inl e, d1) \<Rightarrow> Raise e d1
         | (Inr (Some reused), d1) \<Rightarrow> Return reused d1
         | (Inr None, d1) \<Rightarrow>
        (case validate_sources env (pq_user pl) (ir_config row) of
           Inl e \<Rightarrow> Raise e d1
         | Inr _ \<Rightarrow>
        (case confirm uid row (pq_article_ids pl) pid (pq_digest pl) d1 of
           (Inl e, d2) \<Rightarrow> Raise e d2
         | (Inr _, d2) \<Rightarrow>
            if MAX_PREVIEWS \<le> length (open_previews uid d2) then Raise (RuleError ''preview_limit'') d2
            else
              let d3 = insert_preview env pl pid b now d2
              in case remember uid (pq_request_id pl) (pq_digest pl) pid d3 of
                   (Inl e, d4) \<Rightarrow> Raise e d4
                 | (Inr _, d4) \<Rightarrow> Return pid d4)))))))"

definition reuse_preview :: "string \<Rightarrow> string option \<Rightarrow> string \<Rightarrow> info_db \<Rightarrow> (info_db, string option) outcome" where
  "reuse_preview uid request_id digest = info_transaction (existing uid request_id digest)"

definition store_preview :: "info_env \<Rightarrow> preview_plan \<Rightarrow> time \<Rightarrow> info_db \<Rightarrow> (info_db, string) outcome" where
  "store_preview env pl now = info_transaction (preview_body env pl now)"

text \<open>The checks between the two transactions, which read only.\<close>

definition plan_preview ::
  "info_env \<Rightarrow> user \<Rightarrow> info_rule \<Rightarrow> string list \<Rightarrow> info_item option \<Rightarrow> string \<Rightarrow> time \<Rightarrow> info_db
   \<Rightarrow> exn + info_item list" where
  "plan_preview env u row article_ids custom b now d =
     (case require_execution b now d of
        Inl e \<Rightarrow> Inl e
      | Inr _ \<Rightarrow>
     (case require_model b (cf_model (ir_config row)) d of
        Inl e \<Rightarrow> Inl e
      | Inr _ \<Rightarrow>
         if strip (cf_requirement (ir_config row)) = [] then Inl (RuleError ''incomplete_rule'')
         else case custom of
           Some it \<Rightarrow> Inr [it]
         | None \<Rightarrow> preview_inputs env u (ir_config row) (rev (remdups (rev article_ids)))))"

definition create_preview ::
  "info_env \<Rightarrow> user \<Rightarrow> info_rule \<Rightarrow> string list \<Rightarrow> string option \<Rightarrow> bool \<Rightarrow> string option \<Rightarrow> info_item option
   \<Rightarrow> time \<Rightarrow> info_db \<Rightarrow> (info_db, string) outcome" where
  "create_preview env u row article_ids request_id send target_id custom now d =
     (case live_binding env u of
        Inl e \<Rightarrow> Raise e d
      | Inr b \<Rightarrow>
      if truthy (or_empty target_id) \<and> \<not> send then Raise (RuleError ''invalid_test_notification'') d
      else
        let c = ir_config row;
            selected = (if send then (if truthy (or_empty target_id) then target_id else cf_target_id c) else None)
        in if send \<and> \<not> truthy (or_empty selected) then Raise (RuleError ''notification_target_required'') d
           else if send \<and> \<not> en_notices_ready env then Raise (RuleError ''notification_migration_required'') d
           else case (if send then find_target env u (c\<lparr>cf_target_id := selected\<rparr>) True else Inr None) of
             Inl e \<Rightarrow> Raise e d
           | Inr target \<Rightarrow>
              let digest = request_print env (u_id u) (ir_id row) (ir_version row) article_ids send selected
              in case reuse_preview (u_id u) request_id digest d of
                   (Inl e, d1) \<Rightarrow> Raise e d1
                 | (Inr (Some reused), d1) \<Rightarrow> Return reused d1
                 | (Inr None, d1) \<Rightarrow>
                    (case plan_preview env u row article_ids custom b now d1 of
                       Inl e \<Rightarrow> Raise e d1
                     | Inr inputs \<Rightarrow>
                        store_preview env \<lparr>pq_rule = row, pq_user = u, pq_article_ids = article_ids,
                          pq_request_id = request_id, pq_digest = digest, pq_inputs = inputs, pq_target = target\<rparr> now d1))"

definition test_rule ::
  "info_env \<Rightarrow> string \<Rightarrow> string \<Rightarrow> int \<Rightarrow> string list \<Rightarrow> string option \<Rightarrow> bool \<Rightarrow> string option \<Rightarrow> info_item option
   \<Rightarrow> time \<Rightarrow> info_db \<Rightarrow> (info_db, string) outcome" where
  "test_rule env uid rid version article_ids request_id send target_id custom now d =
     (case actor env uid False of
        Inl e \<Rightarrow> Raise e d
      | Inr u \<Rightarrow>
     (case find_rule u rid d of
        Inl e \<Rightarrow> Raise e d
      | Inr row \<Rightarrow>
         let ids = (case custom of None \<Rightarrow> article_ids | Some it \<Rightarrow> [it_article_id it]);
             selected = (if send then (if truthy (or_empty target_id) then target_id else cf_target_id (ir_config row)) else None)
         in case request_preview uid request_id (request_print env uid rid version ids send selected) d of
              Inl e \<Rightarrow> Raise e d
            | Inr (Some previous) \<Rightarrow> Return previous d
            | Inr None \<Rightarrow>
               if ir_version row \<noteq> version then Raise (RuleError ''rule_version_conflict'') d
               else if ids = [] \<or> 1000 < length ids then Raise (RuleError ''invalid_test_items'') d
               else create_preview env u row ids request_id send target_id custom now d))"

end
