(* ===== verification/InfoPreviewDelivery.thy ===== *)
theory InfoPreviewDelivery
  imports InfoPreviews
begin

section \<open>The notification of a preview\<close>

text \<open>
  \<open>preview_delivery.py\<close>: like the delivery of a run, for the one notification a preview may ask for.
  The mark that the title of a test starts with is left out.
\<close>

definition preview_payload :: "info_env \<Rightarrow> info_preview \<Rightarrow> info_config \<Rightarrow> info_db \<Rightarrow> payload option" where
  "preview_payload env p c d =
     (case Option.bind (find (\<lambda>b. ba_preview_id b = Some (pv_id p)) (if_batches d)) ba_result of
        None \<Rightarrow> None
      | Some r \<Rightarrow>
         if br_status r \<noteq> ''matched'' then None
         else case those (map (map_of (rev (map (\<lambda>it. (it_article_id it, it)) (pv_input p)))) (cited r)) of
                None \<Rightarrow> None
              | Some its \<Rightarrow>
                  if its = [] then None
                  else Some \<lparr>pl_rule_name = cf_name c, pl_run_id = ''test:'' @ pv_id p, pl_summary = br_summary r,
                         pl_reason = br_reason r, pl_items = map (payload_item_of env c r) its\<rparr>)"

definition set_preview_notice :: "string \<Rightarrow> notice_status \<Rightarrow> string option \<Rightarrow> info_db \<Rightarrow> info_db" where
  "set_preview_notice pid st reason =
     update_notices (\<lambda>n. pn_preview_id n = pid) (\<lambda>n. n\<lparr>pn_status := st, pn_reason := reason\<rparr>)"

definition preview_current :: "info_preview \<Rightarrow> info_rule \<Rightarrow> info_db \<Rightarrow> bool" where
  "preview_current p row d \<longleftrightarrow>
     (case lookup_row pc_preview_id (pv_id p) (if_confirmations d) of
        None \<Rightarrow> False | Some c \<Rightarrow> \<not> truthy (or_empty (pc_superseded_by c)))
     \<and> pv_status p = CompletedWork \<and> ir_version row = pv_version p"

text \<open>Everything the notification needs still holds: account, binding, sources, target, privacy.\<close>

definition preview_context ::
  "info_env \<Rightarrow> info_preview \<Rightarrow> info_rule \<Rightarrow> preview_notice \<Rightarrow> exn + (user \<times> notification_target option)" where
  "preview_context env p row n =
     (case actor env (pv_user_id p) True of
        Inl e \<Rightarrow> Inl e
      | Inr u \<Rightarrow>
     (case live_binding env u of
        Inl e \<Rightarrow> Inl e
      | Inr b \<Rightarrow>
         if b \<noteq> pv_binding_id p then Inl (RuleError ''agent_binding_changed'')
         else case validate_sources env u (ir_config row) of
           Inl e \<Rightarrow> Inl e
         | Inr _ \<Rightarrow>
        (case find_target env u ((ir_config row)\<lparr>cf_target_id := Some (pn_target_id n)\<rparr>) True of
           Inl e \<Rightarrow> Inl e
         | Inr None \<Rightarrow> Inl (RuleError ''notification_target_changed'')
         | Inr (Some t) \<Rightarrow>
            if (nt_config_generation t, nt_activation_generation t) \<noteq> (pn_target_generation n, pn_target_activation n)
            then Inl (RuleError ''notification_target_changed'')
            else if \<not> list_all eligible (apply_current_privacy env (u_id u) (pv_input p))
            then Inl (RuleError ''input_incomplete'')
            else Inr (u, Some t))))"

definition preview_deliveries :: "string \<Rightarrow> time \<Rightarrow> info_db \<Rightarrow> int" where
  "preview_deliveries rid start d =
     int (length (filter (\<lambda>r. rn_rule_id r = rid
        \<and> (case rn_delivery_started_at r of None \<Rightarrow> False | Some t \<Rightarrow> start \<le> t)) (if_runs d)))
     + int (length (filter (\<lambda>n. (\<exists>p \<in> set (if_previews d). pv_id p = pn_preview_id n \<and> pv_rule_id p = rid)
          \<and> (case pn_delivery_started_at n of None \<Rightarrow> False | Some t \<Rightarrow> start \<le> t)) (if_notices d)))"

definition preview_claim_body ::
  "info_env \<Rightarrow> string \<Rightarrow> time \<Rightarrow> int \<Rightarrow> info_db
   \<Rightarrow> (info_db, (user \<times> notification_target option \<times> payload) option) outcome" where
  "preview_claim_body env pid now daily_limit d =
     (case lookup_row pn_preview_id pid (if_notices d) of
        None \<Rightarrow> Return None d
      | Some n \<Rightarrow>
         if pn_status n \<notin> {NoticePending, NoticeQuotaWait} then Return None d
         else case Option.bind (lookup_row pv_id pid (if_previews d))
                     (\<lambda>p. map_option (Pair p) (lookup_row ir_id (pv_rule_id p) (if_rules d))) of
           None \<Rightarrow> Return None (set_preview_notice pid NoticeCancelled (Some ''preview_changed'') d)
         | Some (p, row) \<Rightarrow>
            if \<not> preview_current p row d
            then Return None (set_preview_notice pid NoticeCancelled (Some ''preview_changed'') d)
            else case preview_context env p row n of
              Inl (RuleError code) \<Rightarrow> Return None (set_preview_notice pid NoticeCancelled (Some code) d)
            | Inl e \<Rightarrow> Raise e d
            | Inr (u, target) \<Rightarrow>
               let start = en_day_start env now in
               if daily_limit \<le> preview_deliveries (ir_id row) start d
               then Return None (update_notices (\<lambda>n. pn_preview_id n = pid)
                      (\<lambda>n. n\<lparr>pn_status := NoticeQuotaWait, pn_reason := Some ''daily_notification_limit'',
                             pn_ready_at := Some (start + days 1)\<rparr>) d)
               else case preview_payload env p (ir_config row) d of
                 None \<Rightarrow> Return None (set_preview_notice pid NoticeFailed (Some ''missing_evidence'') d)
               | Some x \<Rightarrow>
                  Return (Some (u, target, x))
                    (update_notices (\<lambda>n. pn_preview_id n = pid)
                      (\<lambda>n. n\<lparr>pn_status := Sending, pn_reason := None, pn_delivery_started_at := Some now\<rparr>) d))"

definition preview_claim ::
  "info_env \<Rightarrow> string \<Rightarrow> time \<Rightarrow> int \<Rightarrow> info_db
   \<Rightarrow> (info_db, (user \<times> notification_target option \<times> payload) option) outcome" where
  "preview_claim env pid now daily_limit = info_transaction (preview_claim_body env pid now daily_limit)"

definition preview_settle :: "string \<Rightarrow> send_outcome \<Rightarrow> info_db \<Rightarrow> notice_status \<times> info_db" where
  "preview_settle pid answer d =
     (let (st, reason) = send_status answer
      in (st, update_notices (\<lambda>n. pn_preview_id n = pid \<and> pn_status n = Sending)
               (\<lambda>n. n\<lparr>pn_status := st, pn_reason := reason\<rparr>) d))"

text \<open>The first transaction of a dispatch: lost workers, and previews whose analysis failed.\<close>

definition preview_sweep :: "time \<Rightarrow> info_db \<Rightarrow> info_db" where
  "preview_sweep now d =
     (let d1 = update_notices (\<lambda>n. pn_status n = Sending
                 \<and> (case pn_delivery_started_at n of None \<Rightarrow> False | Some t \<Rightarrow> t < now - minutes 5))
                 (\<lambda>n. n\<lparr>pn_status := NoticeUnknown, pn_reason := Some ''delivery_interrupted''\<rparr>) d
      in update_notices (\<lambda>n. pn_status n = WaitingAnalysis
           \<and> (\<exists>p \<in> set (if_previews d1). pv_id p = pn_preview_id n \<and> pv_status p \<in> {FailedWork, CancelledWork}))
           (\<lambda>n. n\<lparr>pn_status := NoticeCancelled, pn_reason := Some ''analysis_failed''\<rparr>) d1)"

definition pending_notices :: "time \<Rightarrow> int \<Rightarrow> info_db \<Rightarrow> string list" where
  "pending_notices now limit d =
     map pn_preview_id (limit_rows limit (sort_key (\<lambda>n. (pn_created_at n, pn_preview_id n))
       (filter (\<lambda>n. pn_status n = NoticePending
          \<or> pn_status n = NoticeQuotaWait \<and> (case pn_ready_at n of None \<Rightarrow> False | Some t \<Rightarrow> t \<le> now)) (if_notices d))))"

fun dispatch_notices ::
  "info_env \<Rightarrow> (user \<Rightarrow> notification_target option \<Rightarrow> payload \<Rightarrow> send_outcome) \<Rightarrow> time \<Rightarrow> int \<Rightarrow> string list
   \<Rightarrow> info_db \<Rightarrow> (info_db, notice_status list) outcome" where
  "dispatch_notices env sender now daily_limit [] d = Return [] d"
| "dispatch_notices env sender now daily_limit (pid # pids) d =
     (case preview_claim env pid now daily_limit d of
        (Inl e, d1) \<Rightarrow> Raise e d1
      | (Inr None, d1) \<Rightarrow> dispatch_notices env sender now daily_limit pids d1
      | (Inr (Some (u, t, p)), d1) \<Rightarrow>
          (let (st, d2) = preview_settle pid (sender u t p) d1
           in case dispatch_notices env sender now daily_limit pids d2 of
                (Inl e, d3) \<Rightarrow> Raise e d3
              | (Inr sts, d3) \<Rightarrow> Return (st # sts) d3))"

definition dispatch_preview_notifications ::
  "info_env \<Rightarrow> (user \<Rightarrow> notification_target option \<Rightarrow> payload \<Rightarrow> send_outcome) \<Rightarrow> time \<Rightarrow> int \<Rightarrow> int
   \<Rightarrow> info_db \<Rightarrow> (info_db, notice_status list) outcome" where
  "dispatch_preview_notifications env sender now limit daily_limit d =
     (if \<not> en_notices_ready env then Return [] d
      else let d1 = preview_sweep now d
           in dispatch_notices env sender now daily_limit (pending_notices now limit d1) d1)"

end
