(* ===== verification/InfoConnectors.thy ===== *)
theory InfoConnectors
  imports InfoPreviewDelivery
begin

section \<open>Connectors: credentials, the model catalog, refresh requests\<close>

text \<open>
  \<open>provision\<close> and \<open>is_verified\<close> of \<open>connector_auth.py\<close>, \<open>attest\<close> of \<open>execution_capability.py\<close>,
  \<open>sync_catalog\<close> of \<open>model_catalog.py\<close>, and \<open>model_refresh.py\<close>.  The secret store and the random
  part of a token are arguments; the phase shown during a setup (table \<open>agent_analysis\<close>) is left out.
\<close>

subsection \<open>Credentials\<close>

definition provision ::
  "info_env \<Rightarrow> string option \<Rightarrow> string \<Rightarrow> string \<Rightarrow> time \<Rightarrow> info_db \<Rightarrow> (info_db, string \<times> string) outcome" where
  "provision env stored random uid now d =
     (let required = RuleError ''agent_binding_required'' in
      case en_users env uid of
        None \<Rightarrow> Raise required d
      | Some u \<Rightarrow>
         if \<not> u_enabled u then Raise required d
         else case en_live env (u_id u) of
           None \<Rightarrow> Raise required d
         | Some (b, agent) \<Rightarrow>
            if u_role u = ''viewer'' then Raise required d
            else
              let current = lookup_row cn_binding_id b (if_connectors d)
              in if (case current of None \<Rightarrow> False | Some c \<Rightarrow> cn_enabled c)
                 then (case (current, stored) of
                         (Some c, Some t) \<Rightarrow>
                           if t \<noteq> [] \<and> cn_token_hash c = en_digest env t then Return (b, t) d
                           else Raise (RuleError ''connector_secret_mismatch'') d
                       | _ \<Rightarrow> Raise (RuleError ''connector_secret_mismatch'') d)
                 else
                   let token = ''ih_ic_v1_'' @ b @ ''.'' @ random
                   in Return (b, token)
                        (if current = None then
                           d\<lparr>if_connectors := if_connectors d
                              @ [\<lparr>cn_binding_id = b, cn_user_id = uid, cn_token_hash = en_digest env token, cn_generation = 1,
                                  cn_enabled = True, cn_verified_at = None, cn_last_seen = None\<rparr>]\<rparr>
                         else
                           d\<lparr>if_connectors := update_where (\<lambda>c. cn_binding_id c = b)
                              (\<lambda>c. c\<lparr>cn_token_hash := en_digest env token, cn_generation := cn_generation c + 1,
                                     cn_enabled := True, cn_verified_at := None, cn_last_seen := None\<rparr>)
                              (if_connectors d)\<rparr>))"

definition is_verified :: "string \<Rightarrow> time \<Rightarrow> info_db \<Rightarrow> bool" where
  "is_verified b now d =
     (case lookup_row cn_binding_id b (if_connectors d) of
        None \<Rightarrow> False
      | Some c \<Rightarrow>
         cn_enabled c \<and> cn_verified_at c \<noteq> None
         \<and> (case cn_last_seen c of None \<Rightarrow> False | Some t \<Rightarrow> recent_report now t))"

definition attest ::
  "machine \<Rightarrow> string option \<Rightarrow> time \<Rightarrow> filtered_model list \<Rightarrow> string option \<Rightarrow> info_db \<Rightarrow> info_db" where
  "attest m mode now filtered block d =
     (case mode of
        None \<Rightarrow> d\<lparr>if_executions := filter (\<lambda>e. ex_binding_id e \<noteq> ma_binding_id m) (if_executions d)\<rparr>
      | Some md \<Rightarrow>
         let e = \<lparr>ex_binding_id = ma_binding_id m, ex_generation = ma_generation m, ex_mode = md, ex_updated_at = now,
                  ex_filtered = filtered, ex_runtime_block = block\<rparr>
         in if ma_binding_id m \<in> ex_binding_id ` set (if_executions d)
            then d\<lparr>if_executions := update_where (\<lambda>x. ex_binding_id x = ma_binding_id m) (\<lambda>_. e) (if_executions d)\<rparr>
            else d\<lparr>if_executions := if_executions d @ [e]\<rparr>)"

definition verify_connector :: "machine \<Rightarrow> time \<Rightarrow> info_db \<Rightarrow> info_db" where
  "verify_connector m now d =
     d\<lparr>if_connectors := update_where (\<lambda>c. cn_binding_id c = ma_binding_id m)
        (\<lambda>c. c\<lparr>cn_verified_at := Some now, cn_last_seen := Some now\<rparr>) (if_connectors d)\<rparr>"

subsection \<open>Refresh requests\<close>

definition latest_refresh :: "string \<Rightarrow> info_db \<Rightarrow> refresh_request option" where
  "latest_refresh b d =
     (case lookup_row cn_binding_id b (if_connectors d) of
        None \<Rightarrow> None
      | Some c \<Rightarrow> find (\<lambda>r. rf_binding_id r = b \<and> rf_generation r = cn_generation c) (rev (if_refreshes d)))"

definition update_refresh :: "string \<Rightarrow> (refresh_request \<Rightarrow> refresh_request) \<Rightarrow> info_db \<Rightarrow> info_db" where
  "update_refresh i f d = d\<lparr>if_refreshes := update_where (\<lambda>r. rf_id r = i) f (if_refreshes d)\<rparr>"

definition pending_refresh :: "refresh_request option \<Rightarrow> bool" where
  "pending_refresh r \<longleftrightarrow> (case r of None \<Rightarrow> False | Some x \<Rightarrow> rf_status x = RefreshPending)"

definition request_refresh :: "string \<Rightarrow> time \<Rightarrow> info_db \<Rightarrow> (info_db, refresh_request option) outcome" where
  "request_refresh b now d =
     (case lookup_row cn_binding_id b (if_connectors d) of
        None \<Rightarrow> Raise (RuleError ''connector_upgrade_required'') d
      | Some c \<Rightarrow>
         if \<not> cn_enabled c then Raise (RuleError ''connector_upgrade_required'') d
         else let previous = latest_refresh b d;
             d1 = (if \<not> pending_refresh previous
                      \<or> (case previous of None \<Rightarrow> True | Some p \<Rightarrow> seconds 120 \<le> now - rf_requested_at p)
                   then
                     let d' = (case previous of
                                 None \<Rightarrow> d
                               | Some p \<Rightarrow>
                                   if rf_status p = RefreshPending
                                   then update_refresh (rf_id p) (\<lambda>r. r\<lparr>rf_status := RefreshFailed,
                                          rf_reason := Some ''refresh_timeout'', rf_completed_at := Some now\<rparr>) d
                                   else d);
                         (hex, d'') = draw d'
                     in d''\<lparr>if_refreshes := if_refreshes d''
                          @ [\<lparr>rf_id = ''refresh_'' @ hex, rf_binding_id = b, rf_generation = cn_generation c,
                              rf_status = RefreshPending, rf_requested_at = now, rf_completed_at = None,
                              rf_reason = None, rf_changed = None\<rparr>]\<rparr>
                   else d)
         in Return (latest_refresh b d1) d1)"

definition acknowledge :: "machine \<Rightarrow> string option \<Rightarrow> time \<Rightarrow> bool \<Rightarrow> info_db \<Rightarrow> info_db" where
  "acknowledge m request_id now changed d =
     (case (latest_refresh (ma_binding_id m) d, request_id) of
        (Some r, Some i) \<Rightarrow>
          if i = [] \<or> rf_id r \<noteq> i \<or> rf_status r \<noteq> RefreshPending then d
          else
            let d1 = update_refresh i (\<lambda>r. r\<lparr>rf_status := RefreshCompleted, rf_completed_at := Some now,
                       rf_changed := Some changed\<rparr>) d
            in d1\<lparr>if_catalogs := update_where (\<lambda>c. mc_binding_id c = ma_binding_id m) (\<lambda>c. c\<lparr>mc_blocked := []\<rparr>)
                    (if_catalogs d1)\<rparr>
      | _ \<Rightarrow> d)"

definition fail_refresh :: "machine \<Rightarrow> string \<Rightarrow> time \<Rightarrow> info_db \<Rightarrow> info_db" where
  "fail_refresh m request_id now d =
     (case latest_refresh (ma_binding_id m) d of
        None \<Rightarrow> d
      | Some r \<Rightarrow>
         if rf_id r = request_id \<and> rf_status r = RefreshPending
         then update_refresh request_id (\<lambda>r. r\<lparr>rf_status := RefreshFailed,
                rf_reason := Some ''model_discovery_failed'', rf_completed_at := Some now\<rparr>) d
         else d)"

text \<open>The connector learns from the control message what to do: a request to answer, or a catalog it
  has to read.\<close>

definition control ::
  "machine \<Rightarrow> string option \<Rightarrow> string option \<Rightarrow> time \<Rightarrow> info_db \<Rightarrow> (string option \<times> bool) \<times> info_db" where
  "control m mode block now d =
     (let request = latest_refresh (ma_binding_id m) d;
          required = (case lookup_row mc_binding_id (ma_binding_id m) (if_catalogs d) of
                        None \<Rightarrow> True | Some c \<Rightarrow> mc_generation c \<noteq> ma_generation m);
          filtered = (case lookup_row ex_binding_id (ma_binding_id m) (if_executions d) of
                        None \<Rightarrow> [] | Some e \<Rightarrow> ex_filtered e)
      in ((if pending_refresh request then map_option rf_id request else None, required),
          verify_connector m now (attest m mode now filtered block d)))"

subsection \<open>The catalog\<close>

record capabilities =
  cp_catalog_only :: bool
  cp_mode :: "string option"
  cp_refresh_request_id :: "string option"
  cp_runtime_block :: "string option"
  cp_filtered :: "filtered_model list"
  cp_models :: "available_model list"

datatype sync_answer = Accepted bool | Superseded

definition upsert_catalog :: "machine \<Rightarrow> available_model list \<Rightarrow> info_db \<Rightarrow> info_db" where
  "upsert_catalog m models d =
     (if ma_binding_id m \<in> mc_binding_id ` set (if_catalogs d)
      then d\<lparr>if_catalogs := update_where (\<lambda>c. mc_binding_id c = ma_binding_id m)
               (\<lambda>c. c\<lparr>mc_generation := ma_generation m, mc_models := models\<rparr>) (if_catalogs d)\<rparr>
      else d\<lparr>if_catalogs := if_catalogs d
               @ [\<lparr>mc_binding_id = ma_binding_id m, mc_generation = ma_generation m, mc_models = models, mc_blocked = []\<rparr>]\<rparr>)"

definition sync_body :: "machine \<Rightarrow> capabilities \<Rightarrow> available_model list \<Rightarrow> time \<Rightarrow> bool \<Rightarrow> info_db \<Rightarrow> (info_db, sync_answer) outcome" where
  "sync_body m caps models now verified d =
     (case lookup_row cn_binding_id (ma_binding_id m) (if_connectors d) of
        None \<Rightarrow> Raise (RuleError ''connector_revoked'') d
      | Some c \<Rightarrow>
         if \<not> cn_enabled c \<or> cn_generation c \<noteq> ma_generation m then Raise (RuleError ''connector_revoked'') d
         else
           let request = latest_refresh (ma_binding_id m) d
           in if truthy (or_empty (cp_refresh_request_id caps))
                 \<and> (map_option rf_id request \<noteq> cp_refresh_request_id caps \<or> \<not> pending_refresh request)
              then Return Superseded d
              else
                let changed = (case lookup_row mc_binding_id (ma_binding_id m) (if_catalogs d) of
                                 None \<Rightarrow> True
                               | Some p \<Rightarrow> mc_generation p \<noteq> ma_generation m \<or> mc_models p \<noteq> models);
                    d1 = upsert_catalog m models d
                in Return (Accepted changed)
                     (if verified
                      then verify_connector m now
                             (acknowledge m (cp_refresh_request_id caps) now changed
                               (attest m (cp_mode caps) now (cp_filtered caps) (cp_runtime_block caps) d1))
                      else d1))"

definition sync_catalog :: "machine \<Rightarrow> capabilities \<Rightarrow> time \<Rightarrow> bool \<Rightarrow> info_db \<Rightarrow> (info_db, sync_answer) outcome" where
  "sync_catalog m caps now verified d =
     (let models = sort_key am_id (cp_models caps) in
      if cp_catalog_only caps \<and> cp_mode caps \<notin> {None, Some ''catalog_only''}
      then Raise (RuleError ''invalid_execution_mode'') d
      else if \<not> distinct (map am_id models) then Raise (RuleError ''invalid_model_catalog'') d
      else info_transaction (sync_body m caps models now verified) d)"

end
