(* ===== verification/InfoEvolve.thy ===== *)
theory InfoEvolve
  imports InfoConnectors
begin

section \<open>How runs evolve\<close>

text \<open>
  A run of a rule never reopens once it is decided, and its notification never leaves the states it
  reaches after it was handed to a transport.  Both hold for each statement of the code, hence for
  each operation; the lemmas follow the operations from the statements up.
\<close>

subsection \<open>What a step may do to a run\<close>

definition handed :: "notice_status \<Rightarrow> bool" where
  "handed n \<longleftrightarrow> n \<in> {Sending, Sent, NoticeFailed, NoticeUnknown, NoticeCancelled}"

definition run_inv :: "info_run \<Rightarrow> bool" where
  "run_inv r \<longleftrightarrow> (open_status (rn_status r) \<longrightarrow> rn_notice r = NotRequired)"

definition run_step :: "info_run \<Rightarrow> info_run \<Rightarrow> bool" where
  "run_step a b \<longleftrightarrow>
     rn_id b = rn_id a \<and> rn_rule_id b = rn_rule_id a \<and> rn_version b = rn_version a
     \<and> rn_confirmation_id b = rn_confirmation_id a \<and> rn_event_ids b = rn_event_ids a
     \<and> (open_status (rn_status b) \<longrightarrow> open_status (rn_status a))
     \<and> (handed (rn_notice a) \<longrightarrow> handed (rn_notice b))"

definition notice_step :: "preview_notice \<Rightarrow> preview_notice \<Rightarrow> bool" where
  "notice_step a b \<longleftrightarrow> pn_preview_id b = pn_preview_id a \<and> (handed (pn_status a) \<longrightarrow> handed (pn_status b))"

definition drawn_ids :: "string \<Rightarrow> info_db \<Rightarrow> string set" where
  "drawn_ids prefix d = (\<lambda>i. prefix @ if_id_source d i) ` {..< if_drawn d}"

definition runs_ok :: "info_db \<Rightarrow> bool" where
  "runs_ok d \<longleftrightarrow>
     inj (if_id_source d) \<and> distinct (map rn_id (if_runs d))
     \<and> rn_id ` set (if_runs d) \<subseteq> drawn_ids ''iarun_'' d
     \<and> ba_id ` set (if_batches d) \<subseteq> drawn_ids ''iabatch_'' d
     \<and> list_all run_inv (if_runs d)
     \<and> distinct (map pn_preview_id (if_notices d))
     \<and> pn_preview_id ` set (if_notices d) \<subseteq> drawn_ids ''iapreview_'' d"

definition draws :: "info_db \<Rightarrow> info_db \<Rightarrow> bool" where
  "draws d d' \<longleftrightarrow> if_id_source d' = if_id_source d \<and> if_drawn d \<le> if_drawn d'"

definition evolves :: "info_db \<Rightarrow> info_db \<Rightarrow> bool" where
  "evolves d d' \<longleftrightarrow>
     (runs_ok d \<longrightarrow> runs_ok d' \<and> draws d d' \<and> (\<forall>a \<in> set (if_runs d). \<exists>b \<in> set (if_runs d'). run_step a b)
        \<and> (\<forall>a \<in> set (if_notices d). \<exists>b \<in> set (if_notices d'). notice_step a b))"

lemma run_step_refl [simp]: "run_step a a"
  by (simp add: run_step_def)

lemma run_step_trans: "run_step a b \<Longrightarrow> run_step b c \<Longrightarrow> run_step a c"
  unfolding run_step_def by metis

lemma notice_step_refl [simp]: "notice_step a a"
  by (simp add: notice_step_def)

lemma notice_step_trans: "notice_step a b \<Longrightarrow> notice_step b c \<Longrightarrow> notice_step a c"
  unfolding notice_step_def by metis

lemma draws_refl [simp]: "draws d d"
  by (simp add: draws_def)

lemma draws_trans: "draws d d1 \<Longrightarrow> draws d1 d2 \<Longrightarrow> draws d d2"
  by (simp add: draws_def)

lemma evolves_refl [simp]: "evolves d d"
  unfolding evolves_def using run_step_refl notice_step_refl draws_refl by blast

lemma evolves_trans [trans]: "evolves d d1 \<Longrightarrow> evolves d1 d2 \<Longrightarrow> evolves d d2"
  unfolding evolves_def by (meson run_step_trans notice_step_trans draws_trans)

lemma evolvesI:
  assumes "runs_ok d \<Longrightarrow> evolves d d'"
  shows "evolves d d'"
  using assms by (auto simp: evolves_def)

lemma evolves_keepI:
  "runs_ok d' \<Longrightarrow> draws d d' \<Longrightarrow> set (if_runs d) \<subseteq> set (if_runs d') \<Longrightarrow> set (if_notices d) \<subseteq> set (if_notices d')
   \<Longrightarrow> evolves d d'"
  unfolding evolves_def using run_step_refl notice_step_refl by blast

lemma drawn_ids_mono:
  assumes "if_id_source d' = if_id_source d" "if_drawn d \<le> if_drawn d'"
  shows "drawn_ids p d \<subseteq> drawn_ids p d'"
  using assms(2) unfolding drawn_ids_def assms(1) by (intro image_mono) auto

subsection \<open>Statements\<close>

text \<open>Statements on other tables.\<close>

lemma evolves_frame:
  assumes "if_runs d' = if_runs d" "ba_id ` set (if_batches d') = ba_id ` set (if_batches d)"
    "if_id_source d' = if_id_source d" "if_drawn d \<le> if_drawn d'" "if_notices d' = if_notices d"
  shows "evolves d d'"
proof -
  have "runs_ok d'" if ok: "runs_ok d"
    using ok subset_trans [OF _ drawn_ids_mono [OF assms(3,4)]]
    unfolding runs_ok_def assms(1-3,5) by simp
  then show ?thesis unfolding evolves_def draws_def assms(1,3,5)
    using assms(4) run_step_refl notice_step_refl by blast
qed

lemma evolves_update_runs:
  assumes "\<And>r. runs_ok d \<Longrightarrow> r \<in> set (if_runs d) \<Longrightarrow> P r \<Longrightarrow> run_inv r \<Longrightarrow> run_step r (f r) \<and> run_inv (f r)"
  shows "evolves d (update_runs P f d)"
  unfolding evolves_def
proof (intro impI conjI)
  assume ok: "runs_ok d"
  let ?rows = "update_where P f (if_runs d)"
  have step: "run_step r (if P r then f r else r) \<and> run_inv (if P r then f r else r)"
    if "r \<in> set (if_runs d)" for r
    using that ok assms [OF ok] by (auto simp: runs_ok_def list_all_iff)
  have map_id: "map rn_id ?rows = map rn_id (if_runs d)"
    using step by (auto simp: update_where_def run_step_def)
  have "list_all run_inv ?rows" unfolding update_where_def list_all_iff set_map using step by blast
  then show "runs_ok (update_runs P f d)"
    using ok map_id unfolding runs_ok_def update_runs_def drawn_ids_def
    by (simp flip: set_map)
  show "draws d (update_runs P f d)" by (simp add: draws_def update_runs_def)
  show "\<forall>a \<in> set (if_runs d). \<exists>b \<in> set (if_runs (update_runs P f d)). run_step a b"
  proof
    fix a assume "a \<in> set (if_runs d)"
    with step [OF this] show "\<exists>b \<in> set (if_runs (update_runs P f d)). run_step a b"
      unfolding update_runs_def update_where_def by (intro bexI [of _ "if P a then f a else a"]) auto
  qed
  show "\<forall>a \<in> set (if_notices d). \<exists>b \<in> set (if_notices (update_runs P f d)). notice_step a b"
    unfolding update_runs_def using notice_step_refl by (simp, blast)
qed

lemma evolves_update_notices:
  assumes "\<And>n. runs_ok d \<Longrightarrow> n \<in> set (if_notices d) \<Longrightarrow> P n \<Longrightarrow> notice_step n (f n)"
  shows "evolves d (update_notices P f d)"
  unfolding evolves_def
proof (intro impI conjI)
  assume ok: "runs_ok d"
  have step: "notice_step n (if P n then f n else n)" if "n \<in> set (if_notices d)" for n
    using that assms [OF ok] by simp
  have "map pn_preview_id (update_where P f (if_notices d)) = map pn_preview_id (if_notices d)"
    using step by (auto simp: update_where_def notice_step_def)
  then show "runs_ok (update_notices P f d)"
    using ok unfolding runs_ok_def update_notices_def drawn_ids_def by (simp flip: set_map)
  show "draws d (update_notices P f d)" by (simp add: draws_def update_notices_def)
  show "\<forall>a \<in> set (if_runs d). \<exists>b \<in> set (if_runs (update_notices P f d)). run_step a b"
    unfolding update_notices_def using run_step_refl by (simp, blast)
  show "\<forall>a \<in> set (if_notices d). \<exists>b \<in> set (if_notices (update_notices P f d)). notice_step a b"
  proof
    fix a assume "a \<in> set (if_notices d)"
    with step [OF this] show "\<exists>b \<in> set (if_notices (update_notices P f d)). notice_step a b"
      unfolding update_notices_def update_where_def by (intro bexI [of _ "if P a then f a else a"]) auto
  qed
qed

lemma runs_ok_unique:
  assumes "runs_ok d" "lookup_row rn_id i (if_runs d) = Some r" "x \<in> set (if_runs d)" "rn_id x = i"
  shows "x = r"
  using assms lookup_row_SomeD [OF assms(2)] unfolding runs_ok_def by (metis lookup_row_unique)

text \<open>A new run has a new identifier, and is open.\<close>

lemma drawn_ids_new:
  assumes "inj (if_id_source d)"
  shows "p @ if_id_source d (if_drawn d) \<notin> drawn_ids p d"
  using assms by (auto simp: drawn_ids_def inj_def)

lemma runs_ok_append_run:
  assumes ok: "runs_ok d" and r: "rn_id r = ''iarun_'' @ if_id_source d (if_drawn d)" "run_inv r"
  shows "runs_ok (d\<lparr>if_drawn := Suc (if_drawn d), if_runs := if_runs d @ [r]\<rparr>)"
proof -
  have mono: "drawn_ids p d \<subseteq> drawn_ids p (d\<lparr>if_drawn := Suc (if_drawn d), if_runs := if_runs d @ [r]\<rparr>)" for p
    by (rule drawn_ids_mono) simp_all
  have inj: "inj (if_id_source d)" using ok by (simp add: runs_ok_def)
  have "rn_id r \<notin> rn_id ` set (if_runs d)"
    using drawn_ids_new [OF inj] ok unfolding r runs_ok_def by blast
  moreover have "rn_id r \<in> drawn_ids ''iarun_'' (d\<lparr>if_drawn := Suc (if_drawn d), if_runs := if_runs d @ [r]\<rparr>)"
    by (simp add: drawn_ids_def r)
  ultimately show ?thesis
    using ok r(2) subset_trans [OF _ mono] unfolding runs_ok_def by simp
qed

subsection \<open>The parent of a batch\<close>

definition parent_open :: "info_batch \<Rightarrow> info_db \<Rightarrow> bool" where
  "parent_open b d \<longleftrightarrow> (\<forall>r \<in> set (if_runs d). ba_run_id b = Some (rn_id r) \<longrightarrow> open_status (rn_status r))"

lemma parent_openI:
  assumes "runs_ok d" "parent_of b d = Some p" "open_status (pa_status p)"
  shows "parent_open b d"
  using assms runs_ok_unique [OF assms(1)] unfolding parent_open_def parent_of_def
  by (fastforce split: option.splits)

lemma parent_open_cong: "if_runs d' = if_runs d \<Longrightarrow> parent_open b d' = parent_open b d"
  by (simp add: parent_open_def)

lemma evolves_parent_state:
  assumes "runs_ok d \<Longrightarrow> open_status st \<Longrightarrow> parent_open b d"
  shows "evolves d (parent_state b st reason ready d)"
proof (cases "ba_run_id b")
  case None
  then show ?thesis by (intro evolves_frame) (simp_all add: parent_state_def update_previews_def)
next
  case (Some rid)
  then have "parent_state b st reason ready d = update_runs (\<lambda>r. rn_id r = rid)
      (\<lambda>r. r\<lparr>rn_status := st, rn_reason := reason, rn_claim_hash := None,
             rn_ready_at := (case ready of None \<Rightarrow> rn_ready_at r | Some t \<Rightarrow> t)\<rparr>) d"
    by (simp add: parent_state_def)
  moreover have "open_status (rn_status r)" if "runs_ok d" "open_status st" "r \<in> set (if_runs d)" "rn_id r = rid" for r
    using assms [OF that(1,2)] that Some by (auto simp: parent_open_def)
  ultimately show ?thesis by (simp only:) (rule evolves_update_runs; auto simp: run_step_def run_inv_def)
qed

lemma evolves_parent_claimed: "evolves d (parent_claimed b hash d)"
proof (cases "ba_run_id b")
  case None
  then show ?thesis by (intro evolves_frame) (simp_all add: parent_claimed_def update_previews_def)
next
  case (Some rid)
  show ?thesis unfolding parent_claimed_def Some option.case
    by (rule evolves_update_runs) (auto simp: run_step_def run_inv_def)
qed

lemma status_of_result_decided [simp]:
  "status_of_result s \<noteq> PendingWork" "status_of_result s \<noteq> JudgingWork" "status_of_result s \<noteq> QuotaWaitWork"
  by (simp_all add: status_of_result_def)

lemma evolves_finish:
  assumes "runs_ok d \<Longrightarrow> lookup_row ba_id bid (if_batches d) = Some b \<Longrightarrow> parent_open b d"
    and "lookup_row ba_id bid (if_batches d) = Some b"
  shows "evolves d (finish env bid r d)"
proof -
  have other: "evolves d d'" if "if_runs d' = if_runs d" "if_id_source d' = if_id_source d" "if_drawn d' = if_drawn d"
    "if_notices d' = if_notices d"
    "if_batches d' = update_where (\<lambda>b. ba_id b = bid) (\<lambda>b. b\<lparr>ba_result := Some r\<rparr>) (if_batches d)" for d'
  proof (rule evolves_frame)
    have "map ba_id (if_batches d') = map ba_id (if_batches d)"
      unfolding that(5) by (rule map_update_where_keep) simp
    then show "ba_id ` set (if_batches d') = ba_id ` set (if_batches d)" by (metis set_map)
  qed (simp_all add: that)
  show ?thesis
  proof (cases "ba_run_id b")
    case None
    define d2 where "d2 = update_previews (\<lambda>p. Some (pv_id p) = ba_preview_id b)
        (\<lambda>p. p\<lparr>pv_status := CompletedWork, pv_reason := Some (br_reason r)\<rparr>)
        (update_batches (\<lambda>b. ba_id b = bid) (\<lambda>b. b\<lparr>ba_result := Some r\<rparr>) d)"
    have "evolves d d2" by (rule other) (simp_all add: d2_def update_previews_def update_batches_def)
    moreover have "evolves d2 (update_notices (\<lambda>n. Some (pn_preview_id n) = ba_preview_id b \<and> pn_status n = WaitingAnalysis)
        (\<lambda>n. n\<lparr>pn_status := (if br_status r = ''matched'' then NoticePending else NotRequired)\<rparr>) d2)"
      by (rule evolves_update_notices) (auto simp: notice_step_def handed_def)
    ultimately have "evolves d d2 \<and> evolves d (update_notices (\<lambda>n. Some (pn_preview_id n) = ba_preview_id b \<and> pn_status n = WaitingAnalysis)
        (\<lambda>n. n\<lparr>pn_status := (if br_status r = ''matched'' then NoticePending else NotRequired)\<rparr>) d2)"
      using evolves_trans by blast
    then show ?thesis unfolding finish_def assms(2) None option.case Let_def d2_def by (simp split: if_split)
  next
    case (Some rid)
    define d1 where "d1 = update_batches (\<lambda>b. ba_id b = bid) (\<lambda>b. b\<lparr>ba_result := Some r\<rparr>) d"
    have "evolves d d1" by (rule other) (simp_all add: d1_def update_batches_def)
    also have "evolves d1 (finish env bid r d)"
    proof -
      have runs: "if_runs d1 = if_runs d" by (simp add: d1_def update_batches_def)
      have fin: "finish env bid r d = update_runs (\<lambda>x. rn_id x = rid)
          (\<lambda>x. x\<lparr>rn_status := status_of_result (br_status r),
                 rn_notice := (if br_status r = ''matched'' \<and> sends_notification rid d then NoticePending else NotRequired),
                 rn_reason := Some (br_reason r)\<rparr>) d1"
        by (simp add: finish_def assms(2) Some d1_def)
      have ok: "runs_ok d" if "runs_ok d1"
        using that unfolding d1_def update_batches_def runs_ok_def drawn_ids_def
        by (simp add: map_update_where_keep flip: set_map)
      show ?thesis unfolding fin
        using assms ok Some unfolding runs [symmetric]
        by (intro evolves_update_runs) (auto simp: run_step_def run_inv_def handed_def parent_open_def runs)
    qed
    finally show ?thesis .
  qed
qed

text \<open>The frame of the tables the runs do not live in.\<close>

lemma evolves_tables [simp]:
  "evolves d (update_steps P f d)" "evolves d (update_claims Q g d)" "evolves d (update_rules R h d)"
  "evolves d (update_previews S k d)" "evolves d (seen_now m now d)" "evolves d (block_model m i d)"
  "evolves d (add_steps bid l c n gs d)" "evolves d (snd (draw d))"
  by (rule evolves_frame; simp add: info_updates seen_now_def block_model_def draw_def)+

lemma evolves_columns:
  "evolves d (d\<lparr>if_trigger_state := ts\<rparr>)" "evolves d (d\<lparr>if_event_carry := ec\<rparr>)" "evolves d (d\<lparr>if_rule_carry := rc\<rparr>)"
  "evolves d (d\<lparr>if_rule_versions := vs\<rparr>)" "evolves d (d\<lparr>if_connectors := cs\<rparr>)"
  "evolves d (d\<lparr>if_rules := rs, if_rule_versions := vs\<rparr>)"
  by (rule evolves_frame; simp)+

lemma evolves_cancel_unsent [simp]: "evolves d (cancel_unsent rid reason d)"
  unfolding cancel_unsent_def
  by (rule evolves_update_runs) (auto simp: run_step_def run_inv_def handed_def)

lemma evolves_pause_invalid [simp]: "evolves d (pause_invalid row reason now d)"
  unfolding pause_invalid_def by (rule evolves_trans [OF evolves_tables(3) evolves_cancel_unsent])

subsection \<open>Batches and runs\<close>

lemma lookup_new_batch:
  assumes "runs_ok d" "ba_id b = ''iabatch_'' @ if_id_source d (if_drawn d)"
  shows "lookup_row ba_id (ba_id b) (if_batches d @ [b]) = Some b"
proof (rule lookup_row_append_new)
  show "ba_id b \<notin> ba_id ` set (if_batches d)"
    using assms drawn_ids_new [of d "''iabatch_''"] unfolding runs_ok_def by auto
qed simp

lemma runs_ok_append_batch:
  assumes "runs_ok d" "ba_id b = ''iabatch_'' @ if_id_source d (if_drawn d)"
  shows "runs_ok (d\<lparr>if_drawn := Suc (if_drawn d), if_batches := if_batches d @ [b]\<rparr>)"
proof -
  have mono: "drawn_ids p d \<subseteq> drawn_ids p (d\<lparr>if_drawn := Suc (if_drawn d), if_batches := if_batches d @ [b]\<rparr>)" for p
    by (rule drawn_ids_mono) simp_all
  have "ba_id b \<in> drawn_ids ''iabatch_'' (d\<lparr>if_drawn := Suc (if_drawn d), if_batches := if_batches d @ [b]\<rparr>)"
    by (simp add: drawn_ids_def assms(2))
  then show ?thesis using assms(1) subset_trans [OF _ mono] unfolding runs_ok_def by simp
qed

lemma evolves_create_batch:
  assumes "\<And>r. r \<in> set (if_runs d) \<Longrightarrow> rid = Some (rn_id r) \<Longrightarrow> open_status (rn_status r)"
  shows "evolves d (create_batch env config inputs now rid pid d)"
proof (rule evolvesI)
  assume ok: "runs_ok d"
  define b where "b = \<lparr>ba_id = ''iabatch_'' @ if_id_source d (if_drawn d), ba_run_id = rid, ba_preview_id = pid,
    ba_result = None, ba_created_at = now\<rparr>"
  define d1 where "d1 = d\<lparr>if_drawn := Suc (if_drawn d), if_batches := if_batches d @ [b]\<rparr>"
  have "runs_ok d1" unfolding d1_def by (rule runs_ok_append_batch [OF ok]) (simp add: b_def)
  then have "evolves d d1" by (rule evolves_keepI) (auto simp: d1_def draws_def)
  also have "evolves d1 (create_batch env config inputs now rid pid d)"
  proof -
    have look: "lookup_row ba_id (ba_id b) (if_batches d1) = Some b"
      using lookup_new_batch [OF ok, of b] by (simp add: d1_def b_def)
    have "parent_open b d1" using assms by (auto simp: parent_open_def d1_def b_def)
    then have fin: "evolves d1 (finish env (ba_id b) r d1)" for r using look by (intro evolves_finish) auto
    have "create_batch env config inputs now rid pid d =
        (if \<not> list_all eligible inputs then finish env (ba_id b) (insufficient ''input_incomplete'') d1
         else case first_groups inputs (cf_requirement config) of
                Inl _ \<Rightarrow> finish env (ba_id b) (insufficient ''input_too_large'') d1
              | Inr gs \<Rightarrow> add_steps (ba_id b) 0 (length gs) 0 gs d1)"
      by (simp add: create_batch_def draw_def Let_def d1_def b_def split: sum.split)
    then show ?thesis using fin by (auto split: sum.splits)
  qed
  finally show "evolves d (create_batch env config inputs now rid pid d)" .
qed

lemma evolves_start_run [simp]: "evolves d (snd (start_run env row c inputs ids now d))"
proof (rule evolvesI)
  assume ok: "runs_ok d"
  define run where "run = \<lparr>rn_id = ''iarun_'' @ if_id_source d (if_drawn d), rn_rule_id = ir_id row, rn_version = ir_version row,
                 rn_confirmation_id = ir_confirmation_id row, rn_status = PendingWork, rn_notice = NotRequired,
                 rn_reason = None, rn_input = inputs, rn_event_ids = ids, rn_claim_hash = None,
                 rn_delivery_started_at = None, rn_attempts = 0, rn_ready_at = now, rn_created_at = now\<rparr>"
  define d1 where "d1 = d\<lparr>if_drawn := Suc (if_drawn d), if_runs := if_runs d @ [run]\<rparr>"
  have ok1: "runs_ok d1" unfolding d1_def by (rule runs_ok_append_run [OF ok]) (simp_all add: run_def run_inv_def)
  then have "evolves d d1" by (rule evolves_keepI) (auto simp: d1_def draws_def)
  also have "evolves d1 (create_batch env c inputs now (Some (rn_id run)) None d1)"
  proof (rule evolves_create_batch)
    fix r assume "r \<in> set (if_runs d1)" "Some (rn_id run) = Some (rn_id r)"
    moreover have "run \<in> set (if_runs d1)" "distinct (map rn_id (if_runs d1))" "open_status (rn_status run)"
      using ok1 by (simp_all add: d1_def runs_ok_def run_def)
    ultimately show "open_status (rn_status r)" by (metis lookup_row_unique option.inject)
  qed
  finally show "evolves d (snd (start_run env row c inputs ids now d))"
    by (simp add: start_run_def draw_def Let_def d1_def run_def)
qed

subsection \<open>Claims and results\<close>

definition waiting_code :: "string \<Rightarrow> bool" where
  "waiting_code code \<longleftrightarrow> code \<in> {''analysis_model_unavailable'', ''analysis_thinking_unavailable''}"

lemma actor_error: "actor env uid w = Inl e \<Longrightarrow> e \<noteq> RuleError code \<or> \<not> waiting_code code"
  by (auto simp: actor_def waiting_code_def split: option.splits if_splits)

lemma find_rule_error: "find_rule u rid d = Inl e \<Longrightarrow> e \<noteq> RuleError code \<or> \<not> waiting_code code"
  by (auto simp: find_rule_def waiting_code_def split: option.splits if_splits)

lemma validate_sources_error: "validate_sources env u c = Inl e \<Longrightarrow> e \<noteq> RuleError code \<or> \<not> waiting_code code"
  by (auto simp: validate_sources_def waiting_code_def split: if_splits)

lemma approved_context_error: "approved_context env row = Inl e \<Longrightarrow> e \<noteq> RuleError code \<or> \<not> waiting_code code"
  unfolding approved_context_def
  by (auto simp: waiting_code_def Let_def live_binding_def find_target_def validate_sources_def actor_def
      split: sum.splits option.splits if_splits)

text \<open>A check of the context changes nothing before the parent was seen open; it then finishes the
  batch, or fails for the model, or passes.\<close>

lemma parent_context_cases:
  assumes "parent_context env b m d = (res, d1)"
  obtains "d1 = d" "\<And>code. res = Inl (RuleError code) \<Longrightarrow> \<not> waiting_code code" "\<exists>e. res = Inl e"
  | "d1 = d" "runs_ok d \<Longrightarrow> parent_open b d"
  | "d1 = finish env (ba_id b) (insufficient ''input_incomplete'') d" "runs_ok d \<Longrightarrow> parent_open b d"
      "res = Inl (RuleError ''input_incomplete'')"
proof (cases "\<exists>p. parent_of b d = Some p \<and> open_status (pa_status p)")
  case True
  then obtain p where p: "parent_of b d = Some p" "open_status (pa_status p)" by blast
  have "d1 = d \<or> d1 = finish env (ba_id b) (insufficient ''input_incomplete'') d
      \<and> res = Inl (RuleError ''input_incomplete'')"
    using assms unfolding parent_context_def p(1) option.case Let_def
    by (simp split: sum.splits if_splits)
  with that(2,3) parent_openI [OF _ p] show ?thesis by blast
next
  case False
  then have "d1 = d \<and> (\<exists>e. res = Inl e) \<and> (\<forall>code. res = Inl (RuleError code) \<longrightarrow> \<not> waiting_code code)"
    using assms unfolding parent_context_def Let_def
    by (auto split: sum.splits if_splits option.splits
        dest: actor_error find_rule_error approved_context_error validate_sources_error
        simp: waiting_code_def)
  with that(1) show ?thesis by blast
qed

lemma evolves_parent_context:
  assumes "parent_context env b m d = (res, d1)" "lookup_row ba_id (ba_id b) (if_batches d) = Some b"
  shows "evolves d d1"
  using parent_context_cases [OF assms(1)] evolves_finish [OF _ assms(2)] by (metis evolves_refl)

lemma evolves_context_error:
  assumes "waiting_code code \<Longrightarrow> runs_ok d \<Longrightarrow> parent_open b d"
  shows "evolves d (context_error b code now d)"
  using assms unfolding context_error_def Let_def waiting_code_def
  by (auto intro: evolves_parent_state split: if_splits)

lemma evolves_failed_context:
  assumes "parent_context env b m d = (Inl (RuleError code), d1)" "lookup_row ba_id (ba_id b) (if_batches d) = Some b"
  shows "evolves d (context_error b code now d1)"
  using assms(1)
proof (cases rule: parent_context_cases)
  case 1
  then show ?thesis by (auto intro: evolves_context_error)
next
  case 2
  then show ?thesis by (auto intro: evolves_context_error)
next
  case 3
  then show ?thesis using evolves_parent_context [OF assms] by (simp add: context_error_def)
qed

lemma evolves_expire_one: "evolves d (expire_one cs d)"
proof (cases cs)
  case (Pair c s)
  show ?thesis
  proof (cases "lookup_row ba_id (st_batch_id s) (if_batches d)")
    case None
    then show ?thesis by (simp add: expire_one_def Pair)
  next
    case (Some b)
    define again where "again \<longleftrightarrow> ba_preview_id b = None \<and> st_attempts s < MAX_ATTEMPTS"
    define d1 where "d1 = update_steps (\<lambda>x. st_id x = st_id s)
      (\<lambda>x. x\<lparr>st_status := (if again then StepPending else StepFailed)\<rparr>) d"
    define d2 where "d2 = (case parent_of b d1 of None \<Rightarrow> d1
       | Some p \<Rightarrow> if ba_result b = None \<and> pa_status p = JudgingWork \<and> pa_claim_hash p = Some (cl_token_hash c)
                  then parent_state b (if again then PendingWork else FailedWork)
                         (Some (if ba_preview_id b \<noteq> None then ''completion_unknown'' else ''semantic_lease_expired''))
                         None d1 else d1)"
    have "evolves d d1" unfolding d1_def by simp
    also have "evolves d1 d2"
      unfolding d2_def using parent_openI [of d1 b]
      by (auto intro!: evolves_parent_state split: option.splits)
    also have "evolves d2 (update_claims (\<lambda>x. cl_id x = cl_id c) (\<lambda>x. x\<lparr>cl_status := ClaimExpired\<rparr>) d2)" by simp
    finally show ?thesis
      unfolding expire_one_def Pair Some prod.case option.case Let_def again_def d1_def d2_def .
  qed
qed

lemma evolves_fold: "(\<And>x d. evolves d (f x d)) \<Longrightarrow> evolves d (fold f xs d)"
  by (induction xs arbitrary: d) (auto intro: evolves_trans)

lemma evolves_expire_claims [simp]: "evolves d (expire_claims now d)"
  unfolding expire_claims_def by (rule evolves_fold) (rule evolves_expire_one)

lemma evolves_allocate:
  assumes "runs_ok d \<Longrightarrow> parent_open b d"
  shows "evolves d (snd (allocate env m b s config now d))"
proof (rule evolvesI)
  assume ok: "runs_ok d"
  show "evolves d (snd (allocate env m b s config now d))"
    unfolding allocate_def Let_def prod.case_eq_if snd_conv
    apply (rule evolves_trans [OF _ evolves_parent_claimed])
    apply (rule evolves_trans [OF _ evolves_parent_state])
    apply (rule evolves_trans [OF _ evolves_tables(1)])
    apply (rule evolves_frame)
    using assms [OF ok] by (simp_all add: draw_def parent_open_def update_steps_def)
qed

lemma evolves_claim_loop: "evolves d (snd (claim_loop env m now exhausted waiting ss d))"
proof (induction ss arbitrary: waiting d)
  case (Cons s ss)
  show ?case
  proof (cases "lookup_row ba_id (st_batch_id s) (if_batches d)")
    case (Some b)
    then have b: "lookup_row ba_id (ba_id b) (if_batches d) = Some b" by (metis lookup_row_SomeD)
    obtain res d1 where pc: "parent_context env b m d = (res, d1)" by fastforce
    note ev = evolves_parent_context [OF pc b]
    show ?thesis
    proof (cases res)
      case (Inl e)
      show ?thesis
      proof (cases "\<exists>code. e = RuleError code")
        case True
        then obtain code where e: "e = RuleError code" ..
        show ?thesis using evolves_trans [OF evolves_failed_context [OF pc [unfolded Inl e] b] Cons.IH]
          by (simp add: Some pc Inl e)
      next
        case False
        then show ?thesis using ev by (cases e) (simp_all add: Some pc Inl)
      qed
    next
      case (Inr ci)
      from pc have "d1 = d \<and> (runs_ok d \<longrightarrow> parent_open b d)"
        unfolding Inr by (cases rule: parent_context_cases) auto
      then show ?thesis using evolves_allocate [of d b env m s _ now] evolves_parent_state
        by (cases ci) (auto simp: Some pc Inr Let_def prod.case_eq_if)
    qed
  qed simp
qed simp

lemma evolves_transaction:
  assumes "evolves d (snd (body d))"
  shows "evolves d (snd (info_transaction body d))"
  using assms by (auto simp: info_transaction_def split: prod.splits sum.splits)

lemma evolves_claim_work: "evolves d (snd (claim_work env token now limit protocol d))"
  unfolding claim_work_def
proof (rule evolves_transaction)
  have "evolves d (snd (claim_loop env m now ex None ss (expire_claims now (seen_now b now d))))" for m ex ss b
    by (intro evolves_trans [OF evolves_trans [OF evolves_tables(5) evolves_expire_claims] evolves_claim_loop])
  moreover have "evolves d (expire_claims now (seen_now b now d))" for b
    by (rule evolves_trans [OF evolves_tables(5) evolves_expire_claims])
  ultimately show "evolves d (snd (claim_body env token now limit protocol d))"
    by (simp add: claim_body_def Let_def split: sum.split)
qed

lemma complete_step_cases:
  assumes "complete_step env s r config d = (res, d1)"
  obtains "if_runs d1 = if_runs d" "evolves d d1" "\<And>st. res = Inr st \<Longrightarrow> st = PendingWork"
  | d0 where "d1 = finish env (st_batch_id s) r d0" "if_runs d0 = if_runs d" "if_batches d0 = if_batches d" "evolves d d0"
      "res = Inr (status_of_result (br_status r))"
proof -
  define d0 where "d0 = update_steps (\<lambda>x. st_id x = st_id s) (\<lambda>x. x\<lparr>st_status := StepCompleted, st_result := Some r\<rparr>) d"
  have d0: "if_runs d0 = if_runs d" "if_batches d0 = if_batches d" "evolves d d0"
    unfolding d0_def by (simp_all only: evolves_tables) (simp_all add: update_steps_def)
  show ?thesis
  proof (cases "st_kind s = FinalStep")
    case True
    then show ?thesis using that(2) [of d0] d0 assms by (simp add: complete_step_def Let_def d0_def)
  next
    case False
    then have "d1 = d0 \<or> (\<exists>l c gs. d1 = add_steps (st_batch_id s) l c 0 gs d0)" "\<And>st. res = Inr st \<Longrightarrow> st = PendingWork"
      using assms unfolding complete_step_def Let_def d0_def [symmetric]
      by (auto split: option.splits sum.splits if_splits)
    then show ?thesis using that(1) d0 evolves_trans [OF d0(3) evolves_tables(7)] by force
  qed
qed

lemma evolves_judge_result:
  assumes "runs_ok d \<Longrightarrow> parent_open b d" "lookup_row ba_id (st_batch_id s) (if_batches d) = Some b"
  shows "evolves d (snd (judge_result env b s config inputs result d))"
proof (rule evolvesI)
  assume "runs_ok d"
  then have par: "parent_open b d" by (rule assms(1))
  have failed: "evolves d' (update_steps P f (parent_state b FailedWork why None d'))" for P f why d'
    by (rule evolves_trans [OF evolves_parent_state evolves_tables(1)]) simp
  have step: "evolves d d1 \<and> (res = Inr PendingWork \<longrightarrow> parent_open b d1)"
    if "complete_step env s r config d = (res, d1)" for r res d1
    using that
  proof (cases rule: complete_step_cases)
    case 1
    then show ?thesis using par by (auto simp: parent_open_def)
  next
    case (2 d0)
    have "evolves d0 (finish env (st_batch_id s) r d0)"
      using assms(2) par 2(2,3) parent_open_cong [of d0 d b] by (intro evolves_finish) simp_all
    with 2 evolves_trans [OF 2(4)] show ?thesis by simp
  qed
  show "evolves d (snd (judge_result env b s config inputs result d))"
  proof (cases "Option.bind (model_output config result) (\<lambda>out. case validate out s inputs of Inl _ \<Rightarrow> None | Inr r \<Rightarrow> Some r)")
    case None
    then show ?thesis using failed
      by (auto simp: judge_result_def Let_def split: option.splits sum.splits)
  next
    case (Some r)
    obtain res d1 where cs: "complete_step env s r config d = (res, d1)" by fastforce
    note ev = step [OF cs]
    have "evolves d (snd (case complete_step env s r config d of
        (Inl _, d1) \<Rightarrow> (FailedWork, update_steps (\<lambda>x. st_id x = st_id s) (\<lambda>x. x\<lparr>st_status := StepFailed\<rparr>)
                           (parent_state b FailedWork (Some (reported_failure result)) None d1))
      | (Inr st, d1) \<Rightarrow> (st, if st = PendingWork then parent_state b PendingWork None None d1 else d1)))"
    proof (cases res)
      case (Inl e)
      then show ?thesis using evolves_trans [OF conjunct1 [OF ev] failed] by (simp add: cs)
    next
      case (Inr st)
      have "evolves d1 (parent_state b PendingWork None None d1)" if "st = PendingWork"
        using ev that Inr by (intro evolves_parent_state) auto
      then show ?thesis using evolves_trans [OF conjunct1 [OF ev]] ev by (simp add: cs Inr)
    qed
    then show ?thesis using Some
      by (auto simp: judge_result_def Let_def split: option.splits sum.splits bind_splits)
  qed
qed

lemma evolves_submit_result: "evolves d (snd (submit_result env token cid ctoken result now d))"
  unfolding submit_result_def
proof (rule evolves_transaction)
  show "evolves d (snd (submit_body env token cid ctoken result now d))"
  proof (cases "\<exists>m c s b. authenticate env token d = Inr m
      \<and> authorized_claim env m cid ctoken (en_digest env (canonical result)) now d = Inr (c, False)
      \<and> find (\<lambda>s. st_claim_id s = Some cid \<and> st_status s = StepJudging) (if_steps d) = Some s
      \<and> lookup_row ba_id (st_batch_id s) (if_batches d) = Some b")
    case False
    then show ?thesis
      by (auto simp: submit_body_def Let_def split: sum.splits option.splits bool.splits)
  next
    case True
    then obtain m c s b where auth: "authenticate env token d = Inr m"
      "authorized_claim env m cid ctoken (en_digest env (canonical result)) now d = Inr (c, False)"
      "find (\<lambda>s. st_claim_id s = Some cid \<and> st_status s = StepJudging) (if_steps d) = Some s"
      and b: "lookup_row ba_id (st_batch_id s) (if_batches d) = Some b" by blast
    then have b': "lookup_row ba_id (ba_id b) (if_batches d) = Some b" by (metis lookup_row_SomeD)
    obtain res d1 where pc: "parent_context env b m d = (res, d1)" by fastforce
    note body = submit_body_def Let_def auth b pc
    show ?thesis
    proof (cases res)
      case (Inl e)
      show ?thesis
      proof (cases "\<exists>code. e = RuleError code")
        case True
        then obtain code where e: "e = RuleError code" ..
        show ?thesis
          using evolves_trans [OF evolves_trans [OF evolves_failed_context [OF pc [unfolded Inl e] b']
                evolves_tables(2)] evolves_tables(1)]
          by (simp add: body Inl e)
      next
        case False
        then show ?thesis using evolves_parent_context [OF pc b'] by (cases e) (simp_all add: body Inl)
      qed
    next
      case (Inr ci)
      then obtain config inputs where ci: "res = Inr (config, inputs)" by (cases ci) simp
      from pc have d1: "d1 = d" and open_d: "runs_ok d \<Longrightarrow> parent_open b d"
        unfolding ci by (cases rule: parent_context_cases; simp)+
      have judged: "evolves d (complete_claim cid dg (snd (judge_result env b s config inputs result d)))" for dg
        unfolding complete_claim_def
        by (rule evolves_trans [OF evolves_judge_result [OF open_d b] evolves_tables(2)])
      have blocked: "evolves d (complete_claim cid dg (update_steps P f (parent_state b st why ready
          (case cf_model config of None \<Rightarrow> d | Some x \<Rightarrow> block_model i (ms_id x) d))))" for dg P f st why ready i
      proof (rule evolvesI)
        assume "runs_ok d"
        then have "parent_open b (case cf_model config of None \<Rightarrow> d | Some x \<Rightarrow> block_model i (ms_id x) d)"
          using open_d by (auto simp: parent_open_def block_model_def split: option.splits)
        then show ?thesis unfolding complete_claim_def
          by (intro evolves_trans [OF evolves_trans [OF evolves_trans [OF _ evolves_parent_state]
                evolves_tables(1)] evolves_tables(2)]) (auto split: option.splits)
      qed
      show ?thesis using judged blocked
        by (simp add: body ci d1 prod.case_eq_if)
    qed
  qed
qed

subsection \<open>Schedules and changes of rules\<close>

lemma evolves_enqueue_rule: "evolves d (snd (enqueue_rule env row now d))"
proof -
  have re: "evolves d (snd (reschedule env row t scheduled now d))" for t scheduled
    unfolding reschedule_def by (auto split: option.splits sum.splits intro!: evolves_frame)
  have take: "evolves d (snd (take_events env row c selected now d))" for c selected d
    unfolding take_events_def Let_def prod.case_eq_if snd_conv
    by (rule evolves_trans [OF evolves_trans [OF evolves_start_run evolves_tables(3)] evolves_columns(2)])
  show ?thesis
  proof (cases "approved_context env row")
    case (Inl e)
    then show ?thesis by (cases e) (simp_all add: enqueue_rule_def)
  next
    case (Inr u)
    obtain v c t where u: "u = (v, c, t)" by (cases u)
    show ?thesis
      using re evolves_trans [OF re take]
      by (auto simp: enqueue_rule_def Inr u Let_def prod.case_eq_if split: sum.split)
  qed
qed

lemma evolves_enqueue_all: "evolves d (snd (enqueue_all env now rows d))"
proof (induction rows arbitrary: d)
  case (Cons row rows)
  obtain res d1 where rule: "enqueue_rule env row now d = (res, d1)" by fastforce
  then have ev: "evolves d d1" using evolves_enqueue_rule [of d env row now] by simp
  have "evolves d (snd (enqueue_all env now rows
      (update_rules (\<lambda>r. ir_id r = ir_id row) (\<lambda>r. r\<lparr>ir_checked_at := Some now\<rparr>) d1)))"
    by (rule evolves_trans [OF evolves_trans [OF ev evolves_tables(3)] Cons.IH])
  with ev show ?case by (cases res) (auto simp: rule Let_def split: prod.splits sum.splits)
qed simp

lemma evolves_evaluate_pending: "evolves d (snd (evaluate_pending env now limit d))"
  unfolding evaluate_pending_def by (intro evolves_transaction evolves_enqueue_all)

lemma evolves_carry [simp]: "evolves d (drop_carry rid d)" "evolves d (preserve_waiting row c now d)"
  by (rule evolves_frame; simp add: drop_carry_def preserve_waiting_def Let_def)+

lemma evolves_save_rule: "evolves d (snd (save_rule env uid c rule_id expected now d))"
  unfolding save_rule_def
proof (rule evolves_transaction)
  have edit: "evolves d ((cancel_unsent rid why (update_rules P f (preserve_waiting row c now d)))
      \<lparr>if_rule_versions := vs\<rparr>)" for rid why P f row vs
    by (rule evolves_trans [OF evolves_trans [OF evolves_trans [OF evolves_carry(2) evolves_tables(3)]
          evolves_cancel_unsent] evolves_columns(4)])
  have create: "evolves d ((snd (draw d))\<lparr>if_rules := rs, if_rule_versions := vs\<rparr>)" for rs vs
    by (rule evolves_trans [OF evolves_tables(8) evolves_columns(6)])
  show "evolves d (snd (save_body env uid c rule_id expected now d))"
    unfolding save_body_def Let_def using edit create
    by (auto simp: prod.case_eq_if split: sum.split option.split)
qed

lemma evolves_resume_runs: "evolves d (resume_runs env row c now olds d)"
  by (induction olds arbitrary: d) (auto intro: evolves_trans [OF evolves_start_run])

lemma evolves_resume_waiting: "evolves d (resume_waiting env row c now d)"
  unfolding resume_waiting_def Let_def
  by (rule evolves_trans [OF evolves_resume_runs evolves_columns(3)])

lemma evolves_enable_rule: "evolves d (snd (enable_rule env u row now d))"
proof -
  have set: "evolves d (update_rules P f (snd (draw d)))" for P f
    by (rule evolves_trans [OF evolves_tables(8) evolves_tables(3)])
  have due: "evolves d ((update_rules P f (snd (draw d)))\<lparr>if_trigger_state := ts\<rparr>)" for P f ts
    by (rule evolves_trans [OF set evolves_columns(1)])
  show ?thesis
    unfolding enable_rule_def Let_def using set due evolves_trans [OF due evolves_resume_waiting]
    by (auto simp: prod.case_eq_if split: sum.split)
qed

lemma evolves_transition_rule: "evolves d (snd (transition_rule env uid rid version action now d))"
proof -
  have stop: "evolves d (drop_carry rid (cancel_unsent rid why (update_rules P f d)))" for why P f
    by (rule evolves_trans [OF evolves_trans [OF evolves_tables(3) evolves_cancel_unsent] evolves_carry(1)])
  have "evolves d (snd (transition_body env uid rid version action now d))"
    unfolding transition_body_def using stop evolves_enable_rule by (auto split: sum.split)
  then show ?thesis by (auto simp: transition_rule_def intro: evolves_transaction)
qed

lemma evolves_fail_open_previews [simp]: "evolves d (fail_open_previews P reason d)"
  by (simp add: fail_open_previews_def)

lemma evolves_delete_rule: "evolves d (snd (delete_rule env uid rid version now d))"
  unfolding delete_rule_def
proof (rule evolves_transaction)
  have "evolves d (fail_open_previews Q why (drop_carry rid
      ((cancel_unsent rid why' (update_rules P f d))\<lparr>if_trigger_state := ts\<rparr>)))" for Q why why' P f ts
    by (rule evolves_trans [OF evolves_trans [OF evolves_trans [OF evolves_trans [OF evolves_tables(3)
          evolves_cancel_unsent] evolves_columns(1)] evolves_carry(1)] evolves_fail_open_previews])
  then show "evolves d (snd (delete_body env uid rid version now d))"
    unfolding delete_body_def Let_def by (auto split: sum.split)
qed

lemma evolves_revoke_rules: "evolves d (revoke_rules now rows d)"
  by (induction rows arbitrary: d) (auto intro: evolves_trans [OF evolves_pause_invalid])

lemma evolves_revoke_connectors: "evolves d (revoke_connectors uid now d)"
proof -
  from evolves_trans [OF evolves_trans [OF evolves_columns(5) evolves_revoke_rules] evolves_fail_open_previews]
  show ?thesis unfolding revoke_connectors_def Let_def .
qed

subsection \<open>Delivery\<close>

lemma evolves_settle_delivery: "evolves d (snd (settle_delivery rid o1 d))"
proof -
  have "handed (fst (send_status o1))"
    by (cases o1) (auto simp: send_status_def handed_def split: option.splits)
  then show ?thesis
    unfolding settle_delivery_def Let_def prod.case_eq_if snd_conv
    by (intro evolves_update_runs) (auto simp: run_step_def run_inv_def handed_def)
qed

lemma evolves_mark_interrupted: "evolves d (mark_interrupted now d)"
  unfolding mark_interrupted_def
  by (rule evolves_update_runs) (auto simp: run_step_def run_inv_def handed_def)

text \<open>A claim for delivery either hands the reminder over, marking it so, or returns nothing.\<close>

lemma delivery_update:
  assumes "lookup_row rn_id rid (if_runs d) = Some run" "rn_notice run \<in> {NoticePending, NoticeQuotaWait}"
    and "\<And>r. rn_id r = rid \<Longrightarrow> rn_id (f r) = rn_id r \<and> rn_rule_id (f r) = rn_rule_id r \<and> rn_version (f r) = rn_version r
      \<and> rn_confirmation_id (f r) = rn_confirmation_id r \<and> rn_event_ids (f r) = rn_event_ids r
      \<and> rn_status (f r) = rn_status r"
  shows "evolves d (update_runs (\<lambda>r. rn_id r = rid) f d)"
proof (rule evolves_update_runs)
  fix r assume r: "runs_ok d" "r \<in> set (if_runs d)" "rn_id r = rid" "run_inv r"
  then have "r = run" by (intro runs_ok_unique [OF r(1) assms(1)])
  with r(4) assms(2) have "\<not> open_status (rn_status r)" "\<not> handed (rn_notice r)"
    by (auto simp: run_inv_def handed_def)
  with assms(3) [OF r(3)] show "run_step r (f r) \<and> run_inv (f r)"
    by (simp add: run_step_def run_inv_def)
qed

lemma evolves_claim_delivery: "evolves d (snd (claim_delivery env rid now limit d))"
  unfolding claim_delivery_def
proof (rule evolves_transaction)
  show "evolves d (snd (delivery_body env rid now limit d))"
  proof (cases "\<exists>run. lookup_row rn_id rid (if_runs d) = Some run \<and> rn_notice run \<in> {NoticePending, NoticeQuotaWait}")
    case False
    then show ?thesis by (auto simp: delivery_body_def split: option.splits)
  next
    case True
    then obtain run where run: "lookup_row rn_id rid (if_runs d) = Some run"
      "rn_notice run \<in> {NoticePending, NoticeQuotaWait}" by blast
    note upd = delivery_update [OF run]
    have notice: "evolves d (set_notice rid st reason d)" for st reason
      unfolding set_notice_def by (rule upd) simp
    show ?thesis
      unfolding delivery_body_def run(1) option.case Let_def using notice
      by (auto intro!: upd split: option.split sum.split exn.split)
  qed
qed

lemma claim_delivery_hands_over:
  assumes "claim_delivery env rid now limit d = (Inr (Some x), d1)"
  shows "\<exists>r \<in> set (if_runs d1). rn_id r = rid \<and> handed (rn_notice r)"
proof -
  have "delivery_body env rid now limit d = (Inr (Some x), d1)"
    using info_transaction_Inr [OF assms [unfolded claim_delivery_def]] .
  moreover from this obtain run where run: "lookup_row rn_id rid (if_runs d) = Some run"
    by (cases "lookup_row rn_id rid (if_runs d)") (simp_all add: delivery_body_def)
  ultimately have "d1 = update_runs (\<lambda>r. rn_id r = rid)
      (\<lambda>r. r\<lparr>rn_notice := Sending, rn_reason := None, rn_delivery_started_at := Some now\<rparr>) d"
    unfolding delivery_body_def option.case Let_def
    by (auto split: option.splits if_splits sum.splits exn.splits)
  moreover have "run \<in> set (if_runs d)" "rn_id run = rid" using lookup_row_SomeD [OF run] by auto
  ultimately show ?thesis
    by (intro bexI [of _ "run\<lparr>rn_notice := Sending, rn_reason := None, rn_delivery_started_at := Some now\<rparr>"])
       (auto simp: update_runs_def set_update_where handed_def)
qed

lemma handed_is_not_claimed:
  assumes "runs_ok d" "r \<in> set (if_runs d)" "rn_id r = rid" "handed (rn_notice r)"
  shows "claim_delivery env rid now limit d = (Inr None, d)"
proof -
  have "lookup_row rn_id rid (if_runs d) = Some r"
    using assms by (intro lookup_row_eqI) (simp_all add: runs_ok_def)
  moreover have "rn_notice r \<notin> {NoticePending, NoticeQuotaWait}" using assms(4) by (auto simp: handed_def)
  ultimately show ?thesis by (simp add: claim_delivery_def info_transaction_def delivery_body_def)
qed

end
