(* ===== verification/InfoTrials.thy ===== *)
theory InfoTrials
  imports InfoEvolve
begin

section \<open>How previews and connectors change the tables of the runs\<close>

text \<open>
  The operations of the previews and of the connectors move the runs and the notifications as the
  other operations do: a new notification has a new identifier, and one that was handed to a
  transport stays so.
\<close>

text \<open>One branch at a time.\<close>

lemma evolves_branches:
  "(\<And>a. evolves d (snd (f a))) \<Longrightarrow> (\<And>b. evolves d (snd (g b))) \<Longrightarrow> evolves d (snd (case_sum f g x))"
  "evolves d (snd y) \<Longrightarrow> (\<And>z. evolves d (snd (h z))) \<Longrightarrow> evolves d (snd (case_option y h p))"
  "evolves d (snd v) \<Longrightarrow> evolves d (snd w) \<Longrightarrow> evolves d (snd (if b then v else w))"
  by (simp_all split: sum.split option.split)

subsection \<open>Requests and confirmations\<close>

named_theorems trial_frame \<open>tables a statement of the previews does not write\<close>

lemma remember_frame [trial_frame]:
  "if_runs (snd (remember uid i dg pid d)) = if_runs d" "if_batches (snd (remember uid i dg pid d)) = if_batches d"
  "if_id_source (snd (remember uid i dg pid d)) = if_id_source d" "if_drawn (snd (remember uid i dg pid d)) = if_drawn d"
  "if_notices (snd (remember uid i dg pid d)) = if_notices d"
  by (simp_all add: remember_def split: option.split)

lemma existing_cases:
  "snd (existing uid i dg d) = d \<or> (\<exists>pid. snd (existing uid i dg d) = snd (remember uid i dg pid d))"
  by (auto simp: existing_def split: option.splits prod.splits sum.splits) (metis snd_conv)+

lemma existing_frame [trial_frame]:
  "if_runs (snd (existing uid i dg d)) = if_runs d" "if_batches (snd (existing uid i dg d)) = if_batches d"
  "if_id_source (snd (existing uid i dg d)) = if_id_source d" "if_drawn (snd (existing uid i dg d)) = if_drawn d"
  "if_notices (snd (existing uid i dg d)) = if_notices d"
  using existing_cases [of uid i dg d] by (auto simp: trial_frame)

lemma supersede_frame [trial_frame]:
  "if_runs (snd (supersede ids pid dg ps d)) = if_runs d" "if_batches (snd (supersede ids pid dg ps d)) = if_batches d"
  "if_id_source (snd (supersede ids pid dg ps d)) = if_id_source d" "if_drawn (snd (supersede ids pid dg ps d)) = if_drawn d"
  "if_notices (snd (supersede ids pid dg ps d)) = if_notices d"
  by (induction ps arbitrary: d) (simp_all add: add_confirmation_def update_previews_def)

lemma confirm_frame [trial_frame]:
  "if_runs (snd (confirm uid row ids pid dg d)) = if_runs d" "if_batches (snd (confirm uid row ids pid dg d)) = if_batches d"
  "if_id_source (snd (confirm uid row ids pid dg d)) = if_id_source d" "if_drawn (snd (confirm uid row ids pid dg d)) = if_drawn d"
  "if_notices (snd (confirm uid row ids pid dg d)) = if_notices d"
  using supersede_frame [of ids pid dg "unconfirmed uid row d" d]
  by (simp_all add: confirm_def add_confirmation_def prod.case_eq_if split: sum.split)

lemma evolves_requests [simp]:
  "evolves d (snd (remember uid i dg pid d))" "evolves d (snd (existing uid i dg d))"
  "evolves d (snd (confirm uid row ids pid dg d))"
  by (rule evolves_frame; simp add: trial_frame)+

subsection \<open>A new preview\<close>

definition unused_preview :: "string \<Rightarrow> info_db \<Rightarrow> bool" where
  "unused_preview pid d \<longleftrightarrow> pid \<in> drawn_ids ''iapreview_'' d \<and> pid \<notin> pn_preview_id ` set (if_notices d)"

lemma unused_preview_cong:
  "if_notices d' = if_notices d \<Longrightarrow> if_id_source d' = if_id_source d \<Longrightarrow> if_drawn d' = if_drawn d
   \<Longrightarrow> unused_preview pid d' = unused_preview pid d"
  by (simp add: unused_preview_def drawn_ids_def)

lemma unused_preview_draw:
  assumes "runs_ok d"
  shows "unused_preview (''iapreview_'' @ if_id_source d (if_drawn d)) (snd (draw d))"
proof -
  have "inj (if_id_source d)" using assms by (simp add: runs_ok_def)
  from drawn_ids_new [OF this] assms show ?thesis
    by (auto simp: unused_preview_def draw_def drawn_ids_def runs_ok_def)
qed

lemma evolves_append_notice:
  assumes "unused_preview (pn_preview_id n) d"
  shows "evolves d (d\<lparr>if_notices := if_notices d @ [n]\<rparr>)"
proof (rule evolvesI)
  assume ok: "runs_ok d"
  have "drawn_ids p (d\<lparr>if_notices := if_notices d @ [n]\<rparr>) = drawn_ids p d" for p
    by (simp add: drawn_ids_def)
  then have "runs_ok (d\<lparr>if_notices := if_notices d @ [n]\<rparr>)"
    using ok assms by (auto simp: runs_ok_def unused_preview_def)
  then show ?thesis by (rule evolves_keepI) (auto simp: draws_def)
qed

lemma evolves_insert_preview:
  assumes "unused_preview pid d"
  shows "evolves d (insert_preview env pl pid b now d)"
proof -
  have row: "evolves d (d\<lparr>if_previews := ps\<rparr>)" for ps by (rule evolves_frame) simp_all
  have notice: "evolves (d\<lparr>if_previews := ps\<rparr>) (d\<lparr>if_previews := ps, if_notices := if_notices d @ [n]\<rparr>)"
    if "pn_preview_id n = pid" for ps n
    using evolves_append_notice [of n "d\<lparr>if_previews := ps\<rparr>"] assms that
    by (simp add: unused_preview_def drawn_ids_def)
  have "evolves d (create_batch env c its now None p e)" if "evolves d e" for c its p e
    using that by (rule evolves_trans) (rule evolves_create_batch, simp)
  then show ?thesis
    using row evolves_trans [OF row notice] by (auto simp: insert_preview_def Let_def split: option.split)
qed

lemma evolves_preview_body: "evolves d0 (snd (preview_body env pl now d0))"
proof (rule evolvesI)
  assume ok: "runs_ok d0"
  let ?d = "snd (draw d0)" and ?pid = "''iapreview_'' @ if_id_source d0 (if_drawn d0)"
  have draw: "evolves d0 ?d" by simp
  have ex: "evolves d0 (snd (existing uid i dg ?d))" for uid i dg
    by (rule evolves_trans [OF draw evolves_requests(2)])
  have co: "evolves d0 (snd (confirm uid row ids pid dg' (snd (existing uid i dg ?d))))" for uid row ids pid dg' i dg
    by (rule evolves_trans [OF ex evolves_requests(3)])
  have "unused_preview ?pid (snd (confirm uid row ids pid dg' (snd (existing uid i dg ?d))))"
    for uid row ids pid dg' i dg
    using unused_preview_draw [OF ok] by (subst unused_preview_cong [where d = ?d]) (simp_all add: trial_frame)
  note ins = evolves_trans [OF co evolves_insert_preview [OF this]]
  have rem: "evolves d0 (snd (remember uid' i' dg'' pid'
      (insert_preview env pl ?pid b now (snd (confirm uid row ids pid dg' (snd (existing uid i dg ?d)))))))"
    for uid' i' dg'' pid' b uid row ids pid dg' i dg
    by (rule evolves_trans [OF ins evolves_requests(1)])
  have hex: "fst (draw d0) = if_id_source d0 (if_drawn d0)" by (simp add: draw_def)
  show "evolves d0 (snd (preview_body env pl now d0))"
    unfolding preview_body_def Let_def prod.case_eq_if hex
    by (intro evolves_branches) (simp_all add: ex co rem del: append_Cons)
qed

lemma evolves_reuse_preview: "evolves d (snd (reuse_preview uid i dg d))"
  unfolding reuse_preview_def by (rule evolves_transaction) simp

lemma evolves_store_preview: "evolves d (snd (store_preview env pl now d))"
  unfolding store_preview_def by (rule evolves_transaction) (rule evolves_preview_body)

lemma evolves_create_preview:
  "evolves d (snd (create_preview env u row ids i send target custom now d))"
proof -
  have "evolves d (snd (store_preview env pl now (snd (reuse_preview uid i dg d))))" for pl uid dg
    by (rule evolves_trans [OF evolves_reuse_preview evolves_store_preview])
  then show ?thesis
    unfolding create_preview_def Let_def prod.case_eq_if
    by (intro evolves_branches) (simp_all add: evolves_reuse_preview)
qed

lemma evolves_test_rule: "evolves d (snd (test_rule env uid rid version ids i send target custom now d))"
  unfolding test_rule_def Let_def by (intro evolves_branches) (simp_all add: evolves_create_preview)

subsection \<open>The notification of a preview\<close>

lemma notice_update:
  assumes "runs_ok d \<Longrightarrow> lookup_row pn_preview_id pid (if_notices d) = Some n" "pn_status n \<in> {NoticePending, NoticeQuotaWait}"
    and "\<And>x. pn_preview_id (f x) = pn_preview_id x"
  shows "evolves d (update_notices (\<lambda>n. pn_preview_id n = pid) f d)"
proof (rule evolves_update_notices)
  fix x assume x: "runs_ok d" "x \<in> set (if_notices d)" "pn_preview_id x = pid"
  from assms(1) [OF x(1)] x have "x = n"
    unfolding runs_ok_def by (metis lookup_row_SomeD lookup_row_unique)
  then show "notice_step x (f x)" using assms(2,3) by (auto simp: notice_step_def handed_def)
qed

lemma evolves_preview_claim: "evolves d (snd (preview_claim env pid now limit d))"
  unfolding preview_claim_def
proof (rule evolves_transaction)
  show "evolves d (snd (preview_claim_body env pid now limit d))"
  proof (cases "\<exists>n. lookup_row pn_preview_id pid (if_notices d) = Some n \<and> pn_status n \<in> {NoticePending, NoticeQuotaWait}")
    case False
    then show ?thesis by (auto simp: preview_claim_body_def split: option.splits)
  next
    case True
    then obtain n where n: "lookup_row pn_preview_id pid (if_notices d) = Some n"
      "pn_status n \<in> {NoticePending, NoticeQuotaWait}" by blast
    note upd = notice_update [OF n]
    have notice: "evolves d (set_preview_notice pid st reason d)" for st reason
      unfolding set_preview_notice_def by (rule upd) simp
    show ?thesis
      unfolding preview_claim_body_def n(1) option.case Let_def using notice
      by (auto intro!: upd split: option.split sum.split exn.split)
  qed
qed

lemma evolves_preview_settle: "evolves d (snd (preview_settle pid answer d))"
proof -
  have "handed (fst (send_status answer))"
    by (cases answer) (auto simp: send_status_def handed_def split: option.splits)
  then show ?thesis
    unfolding preview_settle_def Let_def prod.case_eq_if snd_conv
    by (intro evolves_update_notices) (auto simp: notice_step_def)
qed

lemma evolves_preview_sweep: "evolves d (preview_sweep now d)"
  unfolding preview_sweep_def Let_def
  by (rule evolves_trans [OF evolves_update_notices evolves_update_notices])
    (auto simp: notice_step_def handed_def)

text \<open>A claim for delivery hands the notification over, or returns nothing.\<close>

lemma preview_claim_hands_over:
  assumes "preview_claim env pid now limit d = (Inr (Some x), d1)"
  shows "\<exists>n \<in> set (if_notices d1). pn_preview_id n = pid \<and> handed (pn_status n)"
proof -
  have "preview_claim_body env pid now limit d = (Inr (Some x), d1)"
    using info_transaction_Inr [OF assms [unfolded preview_claim_def]] .
  moreover from this obtain n where n: "lookup_row pn_preview_id pid (if_notices d) = Some n"
    by (cases "lookup_row pn_preview_id pid (if_notices d)") (simp_all add: preview_claim_body_def)
  ultimately have "d1 = update_notices (\<lambda>n. pn_preview_id n = pid)
      (\<lambda>n. n\<lparr>pn_status := Sending, pn_reason := None, pn_delivery_started_at := Some now\<rparr>) d"
    unfolding preview_claim_body_def option.case Let_def
    by (auto split: option.splits if_splits sum.splits exn.splits prod.splits)
  moreover have "n \<in> set (if_notices d)" "pn_preview_id n = pid" using lookup_row_SomeD [OF n] by auto
  ultimately show ?thesis
    by (intro bexI [of _ "n\<lparr>pn_status := Sending, pn_reason := None, pn_delivery_started_at := Some now\<rparr>"])
      (auto simp: update_notices_def set_update_where handed_def)
qed

lemma handed_notice_is_not_claimed:
  assumes "runs_ok d" "n \<in> set (if_notices d)" "pn_preview_id n = pid" "handed (pn_status n)"
  shows "preview_claim env pid now limit d = (Inr None, d)"
proof -
  have "lookup_row pn_preview_id pid (if_notices d) = Some n"
    using assms by (intro lookup_row_eqI) (simp_all add: runs_ok_def)
  moreover have "pn_status n \<notin> {NoticePending, NoticeQuotaWait}" using assms(4) by (auto simp: handed_def)
  ultimately show ?thesis by (simp add: preview_claim_def info_transaction_def preview_claim_body_def)
qed

subsection \<open>Connectors\<close>

lemma evolves_connector_columns [simp]:
  "evolves d (attest m mode now fs b d)" "evolves d (verify_connector m now d)" "evolves d (update_refresh i f d)"
  "evolves d (upsert_catalog m models d)"
  by (rule evolves_frame; simp add: attest_def verify_connector_def update_refresh_def upsert_catalog_def
      Let_def split: option.split)+

lemma evolves_provision: "evolves d (snd (provision env stored random uid now d))"
  by (rule evolves_frame) (simp_all add: provision_def Let_def split: option.split prod.split)

lemma evolves_request_refresh: "evolves d (snd (request_refresh b now d))"
  by (rule evolves_frame) (simp_all add: request_refresh_def Let_def draw_def update_refresh_def split: option.split)

lemma evolves_acknowledge [simp]: "evolves d (acknowledge m i now changed d)"
  by (rule evolves_frame) (simp_all add: acknowledge_def Let_def update_refresh_def split: option.split)

lemma evolves_fail_refresh: "evolves d (fail_refresh m i now d)"
  by (simp add: fail_refresh_def split: option.split)

lemma evolves_control: "evolves d (snd (control m mode block now d))"
  unfolding control_def Let_def snd_conv
  by (rule evolves_trans [OF evolves_connector_columns(1,2)])

lemma evolves_sync_catalog: "evolves d (snd (sync_catalog m caps now verified d))"
proof -
  have "evolves d (verify_connector m now (acknowledge m i now ch (attest m mode now fs b (upsert_catalog m models d))))"
    for i ch mode fs b models
    by (rule evolves_trans [OF evolves_trans [OF evolves_trans [OF evolves_connector_columns(4,1)]
          evolves_acknowledge] evolves_connector_columns(2)])
  then have "evolves d (snd (sync_body m caps models now verified d))" for models
    by (auto simp: sync_body_def Let_def split: option.split)
  then show ?thesis by (auto simp: sync_catalog_def Let_def intro: evolves_transaction)
qed

end
