(* ===== verification/InfoWork.thy ===== *)
theory InfoWork
  imports InfoSteps
begin

section \<open>The work on a batch: coverage and termination\<close>

text \<open>
  A batch is created with steps that hold every character of the articles, and ends after at most
  \<open>n * (n + 1) / 2\<close> accepted results when it started with \<open>n\<close> steps.
\<close>

lemma all_units_cover:
  assumes "all_units budget inputs = Inr us"
  shows "\<exists>parts. us = concat parts \<and>
    list_all2 (\<lambda>it p. concat (map unit_text p) = it_text it \<and> (\<forall>u \<in> set p. unit_article u = it_article_id it))
      inputs parts"
  using assms
proof (induction inputs arbitrary: us)
  case (Cons it its)
  then obtain p vs where p: "item_units budget it 0 = Inr p" and vs: "all_units budget its = Inr vs"
    and us: "us = p @ vs" by (auto split: sum.splits)
  from Cons.IH [OF vs] obtain parts where "vs = concat parts"
    "list_all2 (\<lambda>it p. concat (map unit_text p) = it_text it \<and> (\<forall>u \<in> set p. unit_article u = it_article_id it))
      its parts" by blast
  moreover have "concat (map unit_text p) = it_text it \<and> (\<forall>u \<in> set p. unit_article u = it_article_id it)"
    using item_units_cover [OF p] by (simp add: list_all_iff)
  ultimately show ?case using us by (intro exI [of _ "p # parts"]) simp
qed simp

lemma first_groups_cover:
  assumes "first_groups inputs requirement = Inr gs"
  shows "\<exists>parts. concat gs = concat parts \<and>
    list_all2 (\<lambda>it p. concat (map unit_text p) = it_text it \<and> (\<forall>u \<in> set p. unit_article u = it_article_id it))
      inputs parts" and "list_all (group_ok (unit_budget requirement)) gs"
proof -
  obtain us where us: "content_units inputs requirement = Inr us" and gs: "pack us requirement = Inr gs"
    using assms by (auto simp: first_groups_def split: sum.splits)
  have "all_units (unit_budget requirement) inputs = Inr us"
    using us by (auto simp: content_units_def split: if_splits)
  then show "\<exists>parts. concat gs = concat parts \<and>
    list_all2 (\<lambda>it p. concat (map unit_text p) = it_text it \<and> (\<forall>u \<in> set p. unit_article u = it_article_id it))
      inputs parts" using all_units_cover pack_partitions(1) [OF gs] by simp
  show "list_all (group_ok (unit_budget requirement)) gs" using pack_partitions(2) [OF gs] .
qed

lemma create_batch_steps:
  assumes "list_all eligible inputs" "first_groups inputs (cf_requirement config) = Inr gs"
  shows "create_batch env config inputs now rid pid d =
    (let bid = ''iabatch_'' @ if_id_source d (if_drawn d)
     in add_steps bid 0 (length gs) 0 gs (d\<lparr>if_drawn := Suc (if_drawn d),
          if_batches := if_batches d @ [\<lparr>ba_id = bid, ba_run_id = rid, ba_preview_id = pid,
            ba_result = None, ba_created_at = now\<rparr>]\<rparr>))"
  using assms by (simp add: create_batch_def draw_def Let_def)

text \<open>C19: The articles of a batch are cut up and packed without loss: put together in order, the units
  of its first steps give the text of every article, each unit names the article it comes from, and
  the units of a step are at most twenty and fit the input of one call.\<close>

theorem first_steps_cover_the_articles:
  assumes "list_all eligible inputs" "first_groups inputs (cf_requirement config) = Inr gs"
  shows "\<exists>new parts. if_steps (create_batch env config inputs now rid pid d) = if_steps d @ new
    \<and> concat (map st_input new) = concat parts
    \<and> list_all2 (\<lambda>it p. concat (map unit_text p) = it_text it \<and> (\<forall>u \<in> set p. unit_article u = it_article_id it))
        inputs parts
    \<and> list_all (\<lambda>s. group_ok (unit_budget (cf_requirement config)) (st_input s)) new"
proof -
  let ?bid = "''iabatch_'' @ if_id_source d (if_drawn d)"
  let ?d = "d\<lparr>if_drawn := Suc (if_drawn d),
          if_batches := if_batches d @ [\<lparr>ba_id = ?bid, ba_run_id = rid, ba_preview_id = pid,
            ba_result = None, ba_created_at = now\<rparr>]\<rparr>"
  obtain new where new: "if_steps (add_steps ?bid 0 (length gs) 0 gs ?d) = if_steps ?d @ new" "map st_input new = gs"
    using add_steps_rows [of ?bid 0 "length gs" 0 gs ?d] by blast
  have "list_all (\<lambda>s. group_ok (unit_budget (cf_requirement config)) (st_input s)) new"
    using first_groups_cover(2) [OF assms(2)] unfolding new(2) [symmetric] by (simp add: list_all_iff)
  with new first_groups_cover(1) [OF assms(2)] show ?thesis
    unfolding create_batch_steps [OF assms] Let_def by auto
qed

subsection \<open>Termination\<close>

lemma created_batch_ok:
  fixes d :: info_db
  defines "bid \<equiv> ''iabatch_'' @ if_id_source d (if_drawn d)"
  assumes "list_all eligible inputs" "first_groups inputs (cf_requirement config) = Inr gs" "gs \<noteq> []"
    and "ids_fresh d" "steps_of bid d = []"
  shows "batch_ok bid (create_batch env config inputs now rid pid d)"
    and "batch_measure bid (create_batch env config inputs now rid pid d) = length gs * (length gs + 1) div 2"
proof -
  define d0 where "d0 = d\<lparr>if_drawn := Suc (if_drawn d),
          if_batches := if_batches d @ [\<lparr>ba_id = bid, ba_run_id = rid, ba_preview_id = pid,
            ba_result = None, ba_created_at = now\<rparr>]\<rparr>"
  let ?d' = "create_batch env config inputs now rid pid d"
  have d': "?d' = add_steps bid 0 (length gs) 0 gs d0"
    unfolding create_batch_steps [OF assms(2,3)] Let_def d0_def bid_def by simp
  obtain new where new: "if_steps ?d' = if_steps d0 @ new" "length new = length gs"
    "map st_id new = map (\<lambda>i. ''iastep_'' @ if_id_source d0 i) [if_drawn d0 ..< if_drawn d0 + length gs]"
    "\<forall>s \<in> set new. st_batch_id s = bid \<and> st_level s = 0 \<and> st_status s = StepPending \<and> st_result s = None
       \<and> (st_kind s = FinalStep \<longleftrightarrow> length gs = 1)"
    using add_steps_rows [of bid 0 "length gs" 0 gs d0] unfolding d' by blast
  have "filter (\<lambda>s. st_batch_id s = bid) new = new" using new(4) by simp
  then have st: "steps_of bid ?d' = new" using assms(6) by (simp add: steps_of_def new(1) d0_def)
  have "new \<noteq> []" using new(2) assms(4) by auto
  then have top: "top_level bid ?d' = 0"
    unfolding top_level_def st using new(4) by (intro foldr_max_const) auto
  have lvl: "at_level bid 0 ?d' = new" using new(4) by (simp add: at_level_def st)
  have op: "open_steps bid ?d' = new" using new(4) by (simp add: open_steps_def st)
  have "ids_fresh d0"
  proof -
    have "(\<lambda>i. ''iastep_'' @ if_id_source d i) ` {..< if_drawn d}
        \<subseteq> (\<lambda>i. ''iastep_'' @ if_id_source d i) ` {..< Suc (if_drawn d)}" by (rule image_mono) auto
    from subset_trans [OF _ this] assms(5) show ?thesis unfolding ids_fresh_def d0_def by (simp del: set_map)
  qed
  then have "ids_fresh ?d'" unfolding d' by (rule add_steps_fresh)
  with \<open>new \<noteq> []\<close> show "batch_ok bid ?d'"
    unfolding batch_ok_def batch_shape_def top lvl st op using new(2,4) by auto
  show "batch_measure bid ?d' = length gs * (length gs + 1) div 2"
  proof -
    obtain k where k: "length gs = Suc k" using assms(4) by (cases gs) auto
    have "Suc k * Suc (Suc k) = 2 * Suc k + k * Suc k" by simp
    then have "Suc k * Suc (Suc k) div 2 = Suc k + k * Suc k div 2"
      by (metis div_mult_self4 add.commute zero_neq_numeral)
    then show ?thesis unfolding batch_measure_def Let_def top lvl op new(2) k by simp
  qed
qed

text \<open>C11: Every batch ends: a batch that starts with \<open>n\<close> steps accepts at most \<open>n * (n + 1) / 2\<close>
  results, whatever the results are and in whatever order the steps are judged, and as long as it
  has no verdict one of its steps is open.\<close>

theorem batch_work_ends:
  fixes d :: info_db
  defines "bid \<equiv> ''iabatch_'' @ if_id_source d (if_drawn d)"
  assumes "list_all eligible inputs" "first_groups inputs (cf_requirement config) = Inr gs" "gs \<noteq> []"
    and "ids_fresh d" "steps_of bid d = []"
    and "accepts env bid k (create_batch env config inputs now rid pid d) d'"
  shows "k \<le> length gs * (length gs + 1) div 2 \<and> (undecided bid d' \<longrightarrow> open_steps bid d' \<noteq> [])"
  using accepts_measure [OF assms(7)] created_batch_ok [OF assms(2-5) assms(6) [unfolded bid_def],
      of env now rid pid, folded bid_def]
  by (auto simp: batch_ok_def)

subsection \<open>Witnesses\<close>

definition sample_ids :: "nat \<Rightarrow> string" where
  "sample_ids n = replicate n CHR ''x''"

lemma inj_sample_ids: "inj sample_ids"
  by (rule injI) (metis length_replicate sample_ids_def)

definition sample_trigger :: trigger where
  "sample_trigger = \<lparr>tg_kind = EachTrigger, tg_count = 5, tg_max_wait_seconds = None, tg_interval_seconds = 3600,
     tg_time = ''08:00'', tg_weekdays = [], tg_timezone = ''UTC''\<rparr>"

definition sample_config :: info_config where
  "sample_config = \<lparr>cf_name = ''n'', cf_source_ids = [''s''], cf_target_id = Some ''t'', cf_notification_enabled = True,
     cf_requirement = ''r'', cf_trigger = sample_trigger, cf_model = Some \<lparr>ms_id = ''m'', ms_thinking = None\<rparr>\<rparr>"

definition sample_item :: info_item where
  "sample_item = \<lparr>it_article_id = ''a'', it_title = ''t'', it_text = ''hello'', it_source_ids = [''s''],
     it_truncated = False, it_analysis_mode = ''full'', it_source_name = [], it_published_at = [], it_url = ''u''\<rparr>"

definition empty_info_db :: info_db where
  "empty_info_db = \<lparr>if_rules = [], if_rule_versions = [], if_baselines = [], if_seen_items = [],
     if_seen_identities = [], if_events = [], if_next_event_id = 1, if_runs = [], if_previews = [],
     if_confirmations = [], if_preview_requests = [], if_notices = [], if_trigger_state = [], if_rule_carry = [], if_event_carry = [],
     if_batches = [], if_steps = [], if_claims = [], if_connectors = [], if_executions = [], if_catalogs = [], if_refreshes = [],
     if_id_source = sample_ids, if_drawn = 0\<rparr>"

definition sample_info_env :: info_env where
  "sample_info_env = \<lparr>
     en_users = (\<lambda>u. if u = ''u'' then Some \<lparr>u_id = ''u'', u_workspace_id = ''w'', u_role = ''member'', u_enabled = True\<rparr> else None),
     en_live = (\<lambda>_. Some (''0123456789abcdef0123456789abcdef'', ''agent'')), en_enabled_sources = (\<lambda>_ _. [''s'']),
     en_private_sources = (\<lambda>_. []),
     en_target = (\<lambda>_ _ t _. Some \<lparr>nt_id = t, nt_channel = ''webhook'', nt_config_generation = 1, nt_activation_generation = 1\<rparr>),
     en_transport = (\<lambda>_ _. None), en_article = (\<lambda>_ _ _. None), en_local = (\<lambda>_ t. t), en_utc = (\<lambda>_ t. t),
     en_day_start = (\<lambda>t. t div days 1 * days 1), en_digest = (\<lambda>s. s), en_original_url = (\<lambda>s. s), en_notices_ready = True\<rparr>"

lemma sample_groups:
  "first_groups [sample_item] (cf_requirement sample_config) = Inr [[content_unit sample_item 0 5]]"
  by code_simp

lemma sample_eligible: "list_all eligible [sample_item]"
  by code_simp

lemma first_steps_cover_the_articles_witness:
  "\<exists>new parts. if_steps (create_batch sample_info_env sample_config [sample_item] 7 (Some ''r'') None empty_info_db)
      = if_steps empty_info_db @ new
    \<and> concat (map st_input new) = concat parts
    \<and> list_all2 (\<lambda>it p. concat (map unit_text p) = it_text it \<and> (\<forall>u \<in> set p. unit_article u = it_article_id it))
        [sample_item] parts
    \<and> list_all (\<lambda>s. group_ok (unit_budget (cf_requirement sample_config)) (st_input s)) new"
  by (rule first_steps_cover_the_articles [OF sample_eligible sample_groups])

definition sample_batch_id :: string where
  "sample_batch_id = ''iabatch_'' @ if_id_source empty_info_db (if_drawn empty_info_db)"

definition sample_batch_db :: info_db where
  "sample_batch_db = create_batch sample_info_env sample_config [sample_item] 7 (Some ''r'') None empty_info_db"

definition sample_step :: info_step where
  "sample_step = \<lparr>st_id = ''iastep_x'', st_batch_id = sample_batch_id, st_level = 0, st_ordinal = 0, st_kind = FinalStep,
     st_input = [content_unit sample_item 0 5], st_result = None, st_status = StepPending, st_attempts = 0,
     st_claim_id = None\<rparr>"

lemma sample_steps: "if_steps sample_batch_db = [sample_step]"
  unfolding sample_batch_db_def create_batch_steps [OF sample_eligible sample_groups] Let_def
  by (simp add: draw_def sample_step_def empty_info_db_def sample_ids_def sample_batch_id_def)

lemma batch_work_ends_witness:
  "\<exists>d'. accepts sample_info_env sample_batch_id 1 sample_batch_db d'
    \<and> (1::nat) \<le> length [[content_unit sample_item 0 5]] * (length [[content_unit sample_item 0 5]] + 1) div 2
    \<and> (undecided sample_batch_id d' \<longrightarrow> open_steps sample_batch_id d' \<noteq> [])"
proof -
  have "\<exists>st d'. complete_step sample_info_env sample_step (insufficient ''x'') sample_config sample_batch_db = (Inr st, d')"
    by (simp add: complete_step_def sample_step_def Let_def)
  then obtain st d' where "complete_step sample_info_env sample_step (insufficient ''x'') sample_config sample_batch_db = (Inr st, d')"
    by blast
  moreover have "sample_step \<in> set (steps_of sample_batch_id sample_batch_db)"
    unfolding steps_of_def sample_steps by (simp add: sample_step_def)
  ultimately have acc: "accepts sample_info_env sample_batch_id (Suc 0) sample_batch_db d'"
    by (intro accepts_step [OF accepts_none]) (simp_all add: sample_step_def)
  have "ids_fresh empty_info_db" using inj_sample_ids by (simp add: ids_fresh_def empty_info_db_def)
  with acc show ?thesis
    using batch_work_ends [OF sample_eligible sample_groups, of empty_info_db sample_info_env "Suc 0" 7 "Some ''r''" None d',
        folded sample_batch_id_def sample_batch_db_def]
    by (intro exI [of _ d']) (simp add: steps_of_def empty_info_db_def)
qed

end
