(* ===== verification/InfoOnce.thy ===== *)
theory InfoOnce
  imports InfoTrials InfoWork
begin

section \<open>All operations as one machine: a reminder is handed over at most once\<close>

text \<open>
  Every operation of the automations, with all its arguments, is an operation of one machine; its
  effect on the tables is \<open>exec_op\<close>.  The interface \<open>operations\<close> is interpreted for the law that
  runs evolve.
\<close>

subsection \<open>The machine\<close>

datatype info_op =
    ClaimWorkOp info_env string time int int
  | SubmitOp info_env string string string json time
  | MaintainOp time
  | RecordOp string string "feed_item list" "string list" time
  | EvaluateOp info_env time int
  | SaveOp info_env string info_config "string option" "int option" time
  | TransitionOp info_env string string int string time
  | DeleteOp info_env string string int time
  | RevokeOp string time
  | InterruptOp time
  | ClaimDeliveryOp info_env string time int
  | SettleOp string send_outcome
  | ReusePreviewOp string "string option" string
  | StorePreviewOp info_env preview_plan time
  | PreviewClaimOp info_env string time int
  | PreviewSettleOp string send_outcome
  | PreviewSweepOp time
  | ProvisionOp info_env "string option" string string time
  | RefreshOp string time
  | ControlOp machine "string option" "string option" time
  | FailRefreshOp machine string time
  | SyncOp machine capabilities time bool

fun exec_op :: "info_op \<Rightarrow> info_db \<Rightarrow> info_db" where
  "exec_op (ClaimWorkOp env token now limit protocol) d = snd (claim_work env token now limit protocol d)"
| "exec_op (SubmitOp env token cid ctoken result now) d = snd (submit_result env token cid ctoken result now d)"
| "exec_op (MaintainOp now) d = maintain_semantic_leases now d"
| "exec_op (RecordOp w uid items sources now) d = snd (info_transaction (record_events w uid items sources now) d)"
| "exec_op (EvaluateOp env now limit) d = snd (evaluate_pending env now limit d)"
| "exec_op (SaveOp env uid c rid expected now) d = snd (save_rule env uid c rid expected now d)"
| "exec_op (TransitionOp env uid rid version action now) d = snd (transition_rule env uid rid version action now d)"
| "exec_op (DeleteOp env uid rid version now) d = snd (delete_rule env uid rid version now d)"
| "exec_op (RevokeOp uid now) d = revoke_connectors uid now d"
| "exec_op (InterruptOp now) d = mark_interrupted now d"
| "exec_op (ClaimDeliveryOp env rid now limit) d = snd (claim_delivery env rid now limit d)"
| "exec_op (SettleOp rid answer) d = snd (settle_delivery rid answer d)"
| "exec_op (ReusePreviewOp uid i dg) d = snd (reuse_preview uid i dg d)"
| "exec_op (StorePreviewOp env pl now) d = snd (store_preview env pl now d)"
| "exec_op (PreviewClaimOp env pid now limit) d = snd (preview_claim env pid now limit d)"
| "exec_op (PreviewSettleOp pid answer) d = snd (preview_settle pid answer d)"
| "exec_op (PreviewSweepOp now) d = preview_sweep now d"
| "exec_op (ProvisionOp env stored random uid now) d = snd (provision env stored random uid now d)"
| "exec_op (RefreshOp b now) d = snd (request_refresh b now d)"
| "exec_op (ControlOp m mode block now) d = snd (control m mode block now d)"
| "exec_op (FailRefreshOp m i now) d = fail_refresh m i now d"
| "exec_op (SyncOp m caps now verified) d = snd (sync_catalog m caps now verified d)"

text \<open>Recording events writes no table of the runs or claims.\<close>

lemma record_item_frame:
  "if_runs (snd (record_item w uid active known now it r)) = if_runs (snd r)
   \<and> if_batches (snd (record_item w uid active known now it r)) = if_batches (snd r)
   \<and> if_claims (snd (record_item w uid active known now it r)) = if_claims (snd r)
   \<and> if_id_source (snd (record_item w uid active known now it r)) = if_id_source (snd r)
   \<and> if_drawn (snd (record_item w uid active known now it r)) = if_drawn (snd r)
   \<and> if_notices (snd (record_item w uid active known now it r)) = if_notices (snd r)"
  unfolding record_item_def Let_def by (auto split: prod.splits sum.splits option.splits)

lemma record_items_frame:
  "if_runs (snd (fold (record_item w uid active known now) items r)) = if_runs (snd r)
   \<and> if_batches (snd (fold (record_item w uid active known now) items r)) = if_batches (snd r)
   \<and> if_claims (snd (fold (record_item w uid active known now) items r)) = if_claims (snd r)
   \<and> if_id_source (snd (fold (record_item w uid active known now) items r)) = if_id_source (snd r)
   \<and> if_drawn (snd (fold (record_item w uid active known now) items r)) = if_drawn (snd r)
   \<and> if_notices (snd (fold (record_item w uid active known now) items r)) = if_notices (snd r)"
  by (induction items arbitrary: r) (simp_all add: record_item_frame)

lemma record_events_frame:
  "if_runs (snd (record_events w uid items sources now d)) = if_runs d
   \<and> if_batches (snd (record_events w uid items sources now d)) = if_batches d
   \<and> if_claims (snd (record_events w uid items sources now d)) = if_claims d
   \<and> if_id_source (snd (record_events w uid items sources now d)) = if_id_source d
   \<and> if_drawn (snd (record_events w uid items sources now d)) = if_drawn d
   \<and> if_notices (snd (record_events w uid items sources now d)) = if_notices d"
proof -
  let ?known = "map snd (filter (\<lambda>b. fst b = uid) (if_baselines d))"
  obtain res d1 where f: "fold (record_item w uid sources ?known now) items (Inr 0, d) = (res, d1)" by fastforce
  show ?thesis using record_items_frame [of w uid sources ?known now items "(Inr 0, d)"]
    unfolding f by (cases res) (simp_all add: record_events_def f)
qed

lemma evolves_exec_op: "evolves d (exec_op op d)"
proof (cases op)
  case (RecordOp w uid items sources now)
  have "evolves d (snd (record_events w uid items sources now d))"
    by (rule evolves_frame) (simp_all add: record_events_frame)
  then show ?thesis unfolding RecordOp exec_op.simps by (rule evolves_transaction)
qed (simp_all add: evolves_claim_work evolves_submit_result maintain_semantic_leases_def
      evolves_evaluate_pending evolves_save_rule evolves_transition_rule evolves_delete_rule
      evolves_revoke_connectors evolves_mark_interrupted evolves_claim_delivery evolves_settle_delivery
      evolves_reuse_preview evolves_store_preview evolves_preview_claim evolves_preview_settle evolves_preview_sweep
      evolves_provision evolves_request_refresh evolves_control evolves_fail_refresh evolves_sync_catalog)

interpretation runs: operations exec_op evolves
  by unfold_locales (auto intro: evolves_trans evolves_exec_op)

subsection \<open>Delivery\<close>

text \<open>C1: At most once: when a reminder was handed to its transport, no sequence of operations of any
  process (claims, results, sends that fail, lost workers, edits of the rule) makes the claim for
  delivery hand it over again.\<close>

theorem reminder_is_sent_once:
  assumes "runs_ok d" "claim_delivery env rid now limit d = (Inr (Some x), d1)"
  shows "claim_delivery env' rid now' limit' (fold exec_op ops d1) = (Inr None, fold exec_op ops d1)"
proof -
  have "evolves d d1" using evolves_claim_delivery [of d env rid now limit] assms(2) by simp
  then have ok1: "runs_ok d1" using assms(1) by (simp add: evolves_def)
  obtain a where a: "a \<in> set (if_runs d1)" "rn_id a = rid" "handed (rn_notice a)"
    using claim_delivery_hands_over [OF assms(2)] by blast
  have "evolves d1 (fold exec_op ops d1)" by (rule runs.run_moves)
  with ok1 a(1) obtain b where "runs_ok (fold exec_op ops d1)" "b \<in> set (if_runs (fold exec_op ops d1))" "run_step a b"
    unfolding evolves_def by blast
  then show ?thesis using a(2,3) by (intro handed_is_not_claimed [of _ b]) (auto simp: run_step_def)
qed

subsection \<open>Witness\<close>

definition sample_rule :: info_rule where
  "sample_rule = \<lparr>ir_id = ''iar_1'', ir_workspace_id = ''w'', ir_user_id = ''u'', ir_version = 1, ir_state = ActiveRule,
     ir_config = sample_config, ir_issue = None, ir_binding_id = Some ''0123456789abcdef0123456789abcdef'',
     ir_target_generation = Some 1, ir_target_activation = Some 1, ir_transport_generation = Some 0,
     ir_checked_at = None, ir_confirmation_id = Some ''c'', ir_cursor = 0, ir_created_at = 0, ir_updated_at = 0\<rparr>"

definition sample_run :: info_run where
  "sample_run = \<lparr>rn_id = ''iarun_'', rn_rule_id = ''iar_1'', rn_version = 1, rn_confirmation_id = Some ''c'',
     rn_status = MatchedWork, rn_notice = NoticePending, rn_reason = None, rn_input = [sample_item], rn_event_ids = [1],
     rn_claim_hash = None, rn_delivery_started_at = None, rn_attempts = 1, rn_ready_at = 0, rn_created_at = 0\<rparr>"

definition sample_matched_db :: info_db where
  "sample_matched_db = empty_info_db\<lparr>if_rules := [sample_rule], if_runs := [sample_run],
     if_batches := [\<lparr>ba_id = ''iabatch_x'', ba_run_id = Some ''iarun_'', ba_preview_id = None,
       ba_result = Some \<lparr>br_status = ''matched'', br_summary = ''s'', br_reason = ''r'', br_covered_ids = [''a:0''],
         br_evidence = [\<lparr>ev_article_id = ''a'', ev_quote = ''hello'', ev_note = ''n''\<rparr>]\<rparr>, ba_created_at = 0\<rparr>],
     if_drawn := 2\<rparr>"

lemma sample_handed_over:
  "\<exists>x d1. claim_delivery sample_info_env ''iarun_'' 7 5 sample_matched_db = (Inr (Some x), d1)"
proof -
  have "(case fst (claim_delivery sample_info_env ''iarun_'' 7 5 sample_matched_db) of
      Inr (Some _) \<Rightarrow> True | _ \<Rightarrow> False)" by code_simp
  then show ?thesis by (auto simp: prod_eq_iff split: sum.splits option.splits)
qed

lemma sample_runs_ok: "runs_ok sample_matched_db"
  using inj_sample_ids
  by (auto simp: runs_ok_def sample_matched_db_def empty_info_db_def sample_run_def drawn_ids_def run_inv_def
      sample_ids_def image_iff intro: bexI [of _ 0] bexI [of _ 1])

lemma reminder_is_sent_once_witness:
  "\<exists>x d1. claim_delivery sample_info_env ''iarun_'' 7 5 sample_matched_db = (Inr (Some x), d1)
    \<and> claim_delivery sample_info_env ''iarun_'' 9 5
        (fold exec_op [SettleOp ''iarun_'' (SendError True None), InterruptOp 8] d1)
      = (Inr None, fold exec_op [SettleOp ''iarun_'' (SendError True None), InterruptOp 8] d1)"
proof -
  obtain x d1 where x: "claim_delivery sample_info_env ''iarun_'' 7 5 sample_matched_db = (Inr (Some x), d1)"
    using sample_handed_over by blast
  show ?thesis using x reminder_is_sent_once [OF sample_runs_ok x] by blast
qed

end
