(* ===== verification/InfoColumns.thy ===== *)
theory InfoColumns
  imports InfoOnce
begin

section \<open>Tables that few operations write\<close>

text \<open>
  The events, the claims, the requests for previews and the refresh requests are each written by a few
  operations only.  The interface \<open>base_column\<close> is what the others need of such a table: that it does
  not depend on the tables they write.  It is proved once that these operations keep the table;
  \<open>column\<close> adds the recording of events, \<open>unclaimed_column\<close>, \<open>unrequested_column\<close> and
  \<open>unrefreshed_column\<close> the operations on claims, requests and refresh requests.
\<close>

named_theorems column_frame \<open>statements and operations that keep a table\<close>

subsection \<open>Tables of their own\<close>

locale base_column =
  fixes col :: "info_db \<Rightarrow> 'c"
  assumes independent [column_frame]:
    "col (d\<lparr>if_rules := r1\<rparr>) = col d" "col (d\<lparr>if_rule_versions := r2\<rparr>) = col d"
    "col (d\<lparr>if_baselines := r3\<rparr>) = col d" "col (d\<lparr>if_seen_items := r4\<rparr>) = col d"
    "col (d\<lparr>if_seen_identities := r5\<rparr>) = col d" "col (d\<lparr>if_runs := r8\<rparr>) = col d"
    "col (d\<lparr>if_previews := r9\<rparr>) = col d" "col (d\<lparr>if_confirmations := r10\<rparr>) = col d"
    "col (d\<lparr>if_notices := r11\<rparr>) = col d" "col (d\<lparr>if_trigger_state := r12\<rparr>) = col d"
    "col (d\<lparr>if_rule_carry := r13\<rparr>) = col d" "col (d\<lparr>if_event_carry := r14\<rparr>) = col d"
    "col (d\<lparr>if_batches := r15\<rparr>) = col d" "col (d\<lparr>if_steps := r16\<rparr>) = col d"
    "col (d\<lparr>if_connectors := r17\<rparr>) = col d" "col (d\<lparr>if_executions := r18\<rparr>) = col d"
    "col (d\<lparr>if_catalogs := r19\<rparr>) = col d" "col (d\<lparr>if_drawn := r20\<rparr>) = col d"
begin

lemma snd_branches:
  "(\<And>a. col (snd (f a)) = v) \<Longrightarrow> (\<And>b. col (snd (g b)) = v) \<Longrightarrow> col (snd (case_sum f g x)) = v"
  "col (snd y) = v \<Longrightarrow> (\<And>z. col (snd (h z)) = v) \<Longrightarrow> col (snd (case_option y h p)) = v"
  "col (snd s) = v \<Longrightarrow> col (snd t) = v \<Longrightarrow> col (snd (if b then s else t)) = v"
  by (simp_all split: sum.split option.split)

lemma col_of_updates [column_frame]:
  "col (update_runs P f d) = col d" "col (update_previews Q g d) = col d" "col (update_batches R h d) = col d"
  "col (update_steps S k d) = col d" "col (update_rules T l d) = col d" "col (update_notices U n d) = col d"
  "col (snd (draw d)) = col d"
  by (simp_all add: info_updates draw_def independent)

lemma col_of_statements [column_frame]:
  "col (cancel_unsent rid reason d) = col d" "col (pause_invalid row reason now d) = col d"
  "col (parent_state b st why ready d) = col d" "col (parent_claimed b hash d) = col d"
  "col (context_error b code now d) = col d" "col (seen_now m now d) = col d"
  "col (block_model m i d) = col d" "col (drop_carry rid d) = col d"
  "col (preserve_waiting row c now d) = col d" "col (fail_open_previews V reason d) = col d"
  "col (attest ma mode now fs b' d) = col d" "col (verify_connector ma now d) = col d"
  "col (upsert_catalog ma models d) = col d" "col (add_confirmation pid dg by_pid d) = col d"
  by (simp_all add: cancel_unsent_def pause_invalid_def parent_state_def parent_claimed_def context_error_def
      seen_now_def block_model_def drop_carry_def preserve_waiting_def fail_open_previews_def attest_def
      verify_connector_def upsert_catalog_def add_confirmation_def column_frame Let_def split: option.split)

lemma col_of_add_steps [column_frame]: "col (add_steps bid l n k gs d) = col d"
  by (induction gs arbitrary: k d) (simp_all add: draw_def Let_def column_frame)

lemma col_of_finish [column_frame]: "col (finish env bid r d) = col d"
  by (simp add: finish_def Let_def column_frame split: option.split)

lemma col_of_create_batch [column_frame]: "col (create_batch env c its now rid pid d) = col d"
  by (simp add: create_batch_def draw_def Let_def column_frame split: sum.split)

lemma col_of_start_run [column_frame]: "col (snd (start_run env row c its ids now d)) = col d"
  by (simp add: start_run_def draw_def Let_def column_frame)

lemma col_of_resume [column_frame]:
  "col (resume_runs env row c now olds d) = col d" "col (resume_waiting env row c now d) = col d"
proof -
  show "col (resume_runs env row c now olds d) = col d" for olds d
    by (induction olds arbitrary: d) (simp_all add: column_frame)
  then show "col (resume_waiting env row c now d) = col d"
    by (simp add: resume_waiting_def Let_def column_frame)
qed

lemma col_of_revoke_rules [column_frame]: "col (revoke_rules now rows d) = col d"
  by (induction rows arbitrary: d) (simp_all add: column_frame)

lemma col_of_transaction:
  "col (snd (body d)) = col d \<Longrightarrow> col (snd (info_transaction body d)) = col d"
  by (auto simp: info_transaction_def split: prod.splits sum.splits)

lemma col_of_enqueue_rule [column_frame]: "col (snd (enqueue_rule env row now d)) = col d"
proof -
  have "col (snd (reschedule env row t s now d)) = col d" for t s
    by (simp add: reschedule_def column_frame split: option.split sum.split)
  moreover have "col (snd (take_events env row c es now d)) = col d" for c es d
    by (simp add: take_events_def Let_def prod.case_eq_if column_frame)
  ultimately show ?thesis
    by (auto simp: enqueue_rule_def Let_def prod.case_eq_if column_frame split: sum.split exn.split)
qed

lemma col_of_enqueue_all [column_frame]: "col (snd (enqueue_all env now rows d)) = col d"
proof (induction rows arbitrary: d)
  case (Cons row rows)
  obtain res d1 where rule: "enqueue_rule env row now d = (res, d1)" by fastforce
  have "col (snd (enqueue_all env now rows (update_rules P f d1))) = col d" for P f
    using Cons.IH col_of_enqueue_rule [of env row now d] by (simp add: rule column_frame)
  moreover have "col d1 = col d" using col_of_enqueue_rule [of env row now d] by (simp add: rule)
  ultimately show ?case by (cases res) (simp_all add: rule Let_def prod.case_eq_if split: sum.split)
qed simp

lemma col_of_enable_rule [column_frame]: "col (snd (enable_rule env u row now d)) = col d"
  by (auto simp: enable_rule_def Let_def prod.case_eq_if column_frame split: sum.split)

lemma col_of_rule_bodies [column_frame]:
  "col (snd (save_body env uid c rid0 expected now d)) = col d"
  "col (snd (transition_body env uid rid version action now d)) = col d"
  "col (snd (delete_body env uid rid version now d)) = col d"
  by (auto simp: save_body_def transition_body_def delete_body_def Let_def prod.case_eq_if column_frame
      split: sum.split option.split)

lemma col_of_deliveries [column_frame]:
  "col (snd (delivery_body env rid now limit d)) = col d"
  "col (snd (preview_claim_body env pid now limit d)) = col d"
  by (auto simp: delivery_body_def preview_claim_body_def Let_def set_notice_def set_preview_notice_def column_frame
      split: option.split sum.split exn.split)

lemma col_of_provision [column_frame]: "col (snd (provision env stored random uid now d)) = col d"
  unfolding provision_def Let_def prod.case_eq_if
  by (intro snd_branches) (simp_all add: column_frame split: option.split)

lemma col_of_context [column_frame]: "col (snd (parent_context env b m d)) = col d"
proof -
  obtain res d1 where pc: "parent_context env b m d = (res, d1)" by fastforce
  then show ?thesis by (cases rule: parent_context_cases) (simp_all add: pc column_frame)
qed

lemma col_of_judge_result [column_frame]: "col (snd (judge_result env b s c its result d)) = col d"
proof -
  have "col (snd (complete_step env s r c d)) = col d" for r
    by (auto simp: complete_step_def Let_def column_frame split: option.split sum.split)
  then show ?thesis
    by (auto simp: judge_result_def Let_def column_frame split: option.split sum.split prod.split)
      (metis snd_conv)+
qed

lemma col_of_supersede: "col (snd (supersede ids pid dg ps d)) = col d"
  by (induction ps arbitrary: d) (simp_all add: column_frame)

lemma col_of_confirm [column_frame]: "col (snd (confirm uid row ids pid dg d)) = col d"
  by (simp add: confirm_def prod.case_eq_if col_of_supersede column_frame split: sum.split)

lemma col_of_insert_preview [column_frame]: "col (insert_preview env pl pid b now d) = col d"
  by (simp add: insert_preview_def Let_def column_frame split: option.split)

end

definition writes_elsewhere :: "info_op \<Rightarrow> bool" where
  "writes_elsewhere op \<longleftrightarrow>
     (case op of ClaimWorkOp _ _ _ _ _ \<Rightarrow> False | SubmitOp _ _ _ _ _ _ \<Rightarrow> False | MaintainOp _ \<Rightarrow> False
      | ReusePreviewOp _ _ _ \<Rightarrow> False | StorePreviewOp _ _ _ \<Rightarrow> False | RefreshOp _ _ \<Rightarrow> False
      | FailRefreshOp _ _ _ \<Rightarrow> False | SyncOp _ _ _ _ \<Rightarrow> False | _ \<Rightarrow> True)"

definition keeps_events :: "info_op \<Rightarrow> bool" where
  "keeps_events op \<longleftrightarrow> (case op of RecordOp _ _ _ _ _ \<Rightarrow> False | _ \<Rightarrow> True)"

context base_column
begin

lemma col_of_inside:
  assumes "writes_elsewhere op" "keeps_events op"
  shows "col (exec_op op d) = col d"
  using assms
  by (cases op) (simp_all add: writes_elsewhere_def keeps_events_def col_of_transaction column_frame
      evaluate_pending_def save_rule_def transition_rule_def delete_rule_def revoke_connectors_def Let_def
      mark_interrupted_def claim_delivery_def settle_delivery_def prod.case_eq_if preview_claim_def
      preview_settle_def preview_sweep_def control_def)

end

subsection \<open>Tables the recording of events keeps too\<close>

locale column = base_column +
  assumes not_events [column_frame]:
    "col (d\<lparr>if_events := es\<rparr>) = col d" "col (d\<lparr>if_next_event_id := i\<rparr>) = col d"
begin

lemma col_of_record_item: "col (snd (record_item w uid active known now it r)) = col (snd r)"
  unfolding record_item_def Let_def by (auto simp: column_frame split: prod.splits sum.splits option.splits)

lemma col_of_record_events: "col (snd (record_events w uid items sources now d)) = col d"
proof -
  let ?known = "map snd (filter (\<lambda>b. fst b = uid) (if_baselines d))"
  have fold: "col (snd (fold (record_item w uid sources ?known now) items r)) = col (snd r)" for r
    by (induction items arbitrary: r) (simp_all add: col_of_record_item)
  obtain res d1 where f: "fold (record_item w uid sources ?known now) items (Inr 0, d) = (res, d1)" by fastforce
  show ?thesis using fold [of "(Inr 0, d)"]
    unfolding f by (cases res) (simp_all add: record_events_def f column_frame)
qed

lemma col_of_op:
  assumes "writes_elsewhere op"
  shows "col (exec_op op d) = col d"
proof (cases "keeps_events op")
  case True
  with assms show ?thesis by (rule col_of_inside)
next
  case False
  then show ?thesis by (cases op) (simp_all add: keeps_events_def col_of_transaction col_of_record_events)
qed

end

subsection \<open>Tables the operations on claims keep too\<close>

locale unclaimed_column = base_column +
  assumes not_claims [column_frame]: "col (d\<lparr>if_claims := cs\<rparr>) = col d"
begin

lemma col_of_update_claims [column_frame]: "col (update_claims P f d) = col d" "col (complete_claim cid dg d) = col d"
  by (simp_all add: update_claims_def complete_claim_def column_frame)

lemma col_of_expire_claims [column_frame]: "col (expire_claims now d) = col d"
proof -
  have one: "col (expire_one cs d) = col d" for cs d
    by (simp add: expire_one_def Let_def column_frame split: prod.split option.split)
  have "col (fold expire_one leases d) = col d" for leases d
    by (induction leases arbitrary: d) (simp_all add: one)
  then show ?thesis by (simp add: expire_claims_def)
qed

lemma col_of_allocate [column_frame]: "col (snd (allocate env m b s config now d)) = col d"
  by (simp add: allocate_def Let_def prod.case_eq_if draw_def column_frame)

lemma col_of_claim_loop [column_frame]: "col (snd (claim_loop env m now exhausted waiting ss d)) = col d"
proof (induction ss arbitrary: waiting d)
  case (Cons s ss)
  show ?case
  proof (cases "lookup_row ba_id (st_batch_id s) (if_batches d)")
    case (Some b)
    obtain res d1 where pc: "parent_context env b m d = (res, d1)" by fastforce
    then have "col d1 = col d" using col_of_context [of env b m d] by simp
    then show ?thesis using Cons.IH
      by (cases res) (auto simp: Some pc column_frame Let_def prod.case_eq_if split: exn.split)
  qed simp
qed simp

lemma col_of_claim_op [column_frame]:
  "col (snd (claim_work env token now limit protocol d)) = col d"
  "col (snd (submit_result env token cid ctoken result now d)) = col d"
  "col (maintain_semantic_leases now d) = col d"
proof -
  have "col (snd (claim_body env token now limit protocol d)) = col d"
    by (simp add: claim_body_def Let_def column_frame split: sum.split)
  then show "col (snd (claim_work env token now limit protocol d)) = col d"
    unfolding claim_work_def by (rule col_of_transaction)
  have "col (snd (submit_body env token cid ctoken result now d)) = col d"
    unfolding submit_body_def Let_def prod.case_eq_if
    by (auto simp: column_frame split: sum.split option.split bool.split exn.split)
  then show "col (snd (submit_result env token cid ctoken result now d)) = col d"
    unfolding submit_result_def by (rule col_of_transaction)
  show "col (maintain_semantic_leases now d) = col d"
    by (simp add: maintain_semantic_leases_def column_frame)
qed

end

subsection \<open>Tables the requests keep\<close>

locale unrequested_column = base_column +
  assumes not_requests [column_frame]: "col (d\<lparr>if_preview_requests := rs\<rparr>) = col d"
begin

lemma col_of_existing: "col (snd (remember uid i dg pid d)) = col d" "col (snd (existing uid i dg d)) = col d"
proof -
  show "col (snd (remember uid i dg pid d)) = col d" for pid
    by (simp add: remember_def column_frame split: option.split)
  with existing_cases [of uid i dg d] show "col (snd (existing uid i dg d)) = col d" by metis
qed

lemma col_of_preview_op [column_frame]:
  "col (snd (reuse_preview uid i dg d)) = col d" "col (snd (store_preview env pl now d)) = col d"
proof -
  show "col (snd (reuse_preview uid i dg d)) = col d"
    unfolding reuse_preview_def by (rule col_of_transaction) (rule col_of_existing)
  have "col (snd (preview_body env pl now d)) = col d"
    unfolding preview_body_def Let_def prod.case_eq_if
    by (intro snd_branches) (simp_all add: col_of_existing column_frame)
  then show "col (snd (store_preview env pl now d)) = col d"
    unfolding store_preview_def by (rule col_of_transaction)
qed

end

locale unrefreshed_column = base_column +
  assumes not_refreshes [column_frame]: "col (d\<lparr>if_refreshes := rs\<rparr>) = col d"
begin

lemma col_of_acknowledge [column_frame]: "col (update_refresh i f d) = col d" "col (acknowledge m i' now changed d) = col d"
proof -
  show "col (update_refresh i f d) = col d" for i f d by (simp add: update_refresh_def column_frame)
  then show "col (acknowledge m i' now changed d) = col d"
    by (simp add: acknowledge_def Let_def column_frame split: option.split)
qed

lemma col_of_refresh_op [column_frame]:
  "col (snd (request_refresh b now d)) = col d" "col (fail_refresh m i now d) = col d"
  "col (snd (sync_catalog m caps now verified d)) = col d"
proof -
  show "col (snd (request_refresh b now d)) = col d"
    by (simp add: request_refresh_def Let_def draw_def column_frame split: option.split)
  show "col (fail_refresh m i now d) = col d"
    by (simp add: fail_refresh_def column_frame split: option.split)
  have "col (snd (sync_body m caps models now verified d)) = col d" for models
    by (simp add: sync_body_def Let_def column_frame split: option.split)
  then show "col (snd (sync_catalog m caps now verified d)) = col d"
    by (simp add: sync_catalog_def Let_def col_of_transaction)
qed

end

subsection \<open>The four tables\<close>

definition event_table :: "info_db \<Rightarrow> info_event list \<times> int" where
  "event_table d = (if_events d, if_next_event_id d)"

interpretation events_column: unclaimed_column event_table
  by unfold_locales (simp_all add: event_table_def)

interpretation events_column: unrequested_column event_table
  by unfold_locales (simp_all add: event_table_def)

interpretation events_column: unrefreshed_column event_table
  by unfold_locales (simp_all add: event_table_def)

interpretation claims_column: column if_claims
  by unfold_locales simp_all

interpretation claims_column: unrequested_column if_claims
  by unfold_locales simp_all

interpretation claims_column: unrefreshed_column if_claims
  by unfold_locales simp_all

interpretation requests_column: column if_preview_requests
  by unfold_locales simp_all

interpretation requests_column: unclaimed_column if_preview_requests
  by unfold_locales simp_all

interpretation requests_column: unrefreshed_column if_preview_requests
  by unfold_locales simp_all

interpretation refreshes_column: column if_refreshes
  by unfold_locales simp_all

interpretation refreshes_column: unclaimed_column if_refreshes
  by unfold_locales simp_all

interpretation refreshes_column: unrequested_column if_refreshes
  by unfold_locales simp_all

text \<open>The writers of each table.\<close>

lemma events_of_op:
  assumes "keeps_events op"
  shows "event_table (exec_op op d) = event_table d"
proof (cases "writes_elsewhere op")
  case True
  then show ?thesis using assms by (rule events_column.col_of_inside)
next
  case False
  then show ?thesis by (cases op) (simp_all add: writes_elsewhere_def column_frame)
qed

definition keeps_claims :: "info_op \<Rightarrow> bool" where
  "keeps_claims op \<longleftrightarrow> (case op of ClaimWorkOp _ _ _ _ _ \<Rightarrow> False | SubmitOp _ _ _ _ _ _ \<Rightarrow> False | MaintainOp _ \<Rightarrow> False | _ \<Rightarrow> True)"

lemma claims_of_op:
  assumes "keeps_claims op"
  shows "if_claims (exec_op op d) = if_claims d"
proof (cases "writes_elsewhere op")
  case True
  then show ?thesis by (rule claims_column.col_of_op)
next
  case False
  then show ?thesis using assms by (cases op) (simp_all add: writes_elsewhere_def keeps_claims_def column_frame)
qed

definition keeps_requests :: "info_op \<Rightarrow> bool" where
  "keeps_requests op \<longleftrightarrow> (case op of ReusePreviewOp _ _ _ \<Rightarrow> False | StorePreviewOp _ _ _ \<Rightarrow> False | _ \<Rightarrow> True)"

lemma requests_of_op:
  assumes "keeps_requests op"
  shows "if_preview_requests (exec_op op d) = if_preview_requests d"
proof (cases "writes_elsewhere op")
  case True
  then show ?thesis by (rule requests_column.col_of_op)
next
  case False
  then show ?thesis using assms by (cases op) (simp_all add: writes_elsewhere_def keeps_requests_def column_frame)
qed

definition keeps_refreshes :: "info_op \<Rightarrow> bool" where
  "keeps_refreshes op \<longleftrightarrow> (case op of RefreshOp _ _ \<Rightarrow> False | FailRefreshOp _ _ _ \<Rightarrow> False | SyncOp _ _ _ _ \<Rightarrow> False | _ \<Rightarrow> True)"

lemma refreshes_of_op:
  assumes "keeps_refreshes op"
  shows "if_refreshes (exec_op op d) = if_refreshes d"
proof (cases "writes_elsewhere op")
  case True
  then show ?thesis by (rule refreshes_column.col_of_op)
next
  case False
  then show ?thesis using assms by (cases op) (simp_all add: writes_elsewhere_def keeps_refreshes_def column_frame)
qed

end
