(* ===== verification/InfoLeases.thy ===== *)
theory InfoLeases
  imports InfoColumns
begin

section \<open>Claims: one at a time, within the daily limit, accepted once\<close>

text \<open>
  What the operations do to the table of claims: only \<open>claim_work\<close> adds a row, one at most, when
  its user holds no live claim and the claims of the day are below the limit; a completed claim
  never changes.  The consequences hold for every sequence of operations in the order of their
  clocks.
\<close>

subsection \<open>What happens to a row\<close>

definition claim_step :: "info_claim \<Rightarrow> info_claim \<Rightarrow> bool" where
  "claim_step a b \<longleftrightarrow>
     cl_id b = cl_id a \<and> cl_user_id b = cl_user_id a \<and> cl_created_at b = cl_created_at a
     \<and> cl_expires_at b = cl_expires_at a
     \<and> (cl_status b = Claimed \<longrightarrow> cl_status a = Claimed)
     \<and> (cl_status a = ClaimCompleted \<longrightarrow> cl_status b = ClaimCompleted \<and> cl_result_hash b = cl_result_hash a)"

definition claims_kept :: "info_claim list \<Rightarrow> info_claim list \<Rightarrow> bool" where
  "claims_kept cs cs' \<longleftrightarrow> list_all2 claim_step cs cs'"

lemma claim_step_refl [simp]: "claim_step a a"
  by (simp add: claim_step_def)

lemma claim_step_trans: "claim_step a b \<Longrightarrow> claim_step b c \<Longrightarrow> claim_step a c"
  unfolding claim_step_def by metis

lemma claims_kept_refl [simp]: "claims_kept cs cs"
  by (simp add: claims_kept_def list_all2_refl)

lemma claims_kept_trans: "claims_kept a b \<Longrightarrow> claims_kept b c \<Longrightarrow> claims_kept a c"
  unfolding claims_kept_def using claim_step_trans by (rule list_all2_trans)

lemma claims_kept_update:
  assumes "\<And>c. c \<in> set cs \<Longrightarrow> P c \<Longrightarrow> claim_step c (f c)"
  shows "claims_kept cs (update_where P f cs)"
  using assms by (induction cs) (auto simp: claims_kept_def)

lemma claims_kept_ids: "claims_kept cs cs' \<Longrightarrow> map cl_id cs' = map cl_id cs"
  unfolding claims_kept_def by (induction rule: list_all2_induct) (auto simp: claim_step_def)

lemma claims_kept_fewer:
  assumes "claims_kept cs cs'" "\<And>a b. claim_step a b \<Longrightarrow> Q b \<Longrightarrow> P a"
  shows "length (filter Q cs') \<le> length (filter P cs)"
  using assms(1) unfolding claims_kept_def
  by (induction rule: list_all2_induct) (auto dest: assms(2))

lemma claims_kept_completed:
  assumes "claims_kept cs cs'" "c \<in> set cs" "cl_status c = ClaimCompleted"
  shows "\<exists>c' \<in> set cs'. cl_id c' = cl_id c \<and> cl_status c' = ClaimCompleted \<and> cl_result_hash c' = cl_result_hash c"
  using assms unfolding claims_kept_def by (induction rule: list_all2_induct) (auto simp: claim_step_def)

subsection \<open>Leases that run out, results\<close>

lemma claims_of_expire_one:
  "if_claims (expire_one (c, s) d) = if_claims d
   \<or> if_claims (expire_one (c, s) d) = update_where (\<lambda>x. cl_id x = cl_id c) (\<lambda>x. x\<lparr>cl_status := ClaimExpired\<rparr>) (if_claims d)"
  by (auto simp: expire_one_def Let_def update_claims_def column_frame split: option.split)

lemma expire_fold_kept:
  assumes "\<And>c s x. (c, s) \<in> set leases \<Longrightarrow> x \<in> set (if_claims d) \<Longrightarrow> cl_id x = cl_id c \<Longrightarrow> cl_status x \<noteq> ClaimCompleted"
  shows "claims_kept (if_claims d) (if_claims (fold expire_one leases d))"
  using assms
proof (induction leases arbitrary: d)
  case (Cons cs leases)
  obtain c s where cs: "cs = (c, s)" by (cases cs)
  have here: "cl_status x \<noteq> ClaimCompleted" if "x \<in> set (if_claims d)" "cl_id x = cl_id c" for x
    using Cons.prems [of c s x] that by (simp add: cs)
  have "claims_kept (if_claims d)
      (update_where (\<lambda>x. cl_id x = cl_id c) (\<lambda>x. x\<lparr>cl_status := ClaimExpired\<rparr>) (if_claims d))"
    using here by (intro claims_kept_update) (auto simp: claim_step_def)
  then have one: "claims_kept (if_claims d) (if_claims (expire_one (c, s) d))"
    using claims_of_expire_one [of c s d] by auto
  have "cl_status x \<noteq> ClaimCompleted"
    if "(c', s') \<in> set leases" "x \<in> set (if_claims (expire_one (c, s) d))" "cl_id x = cl_id c'" for c' s' x
  proof -
    have "\<forall>y \<in> set (if_claims d). cl_id y = cl_id c' \<longrightarrow> cl_status y \<noteq> ClaimCompleted"
      using Cons.prems [of c' s'] that(1) by simp
    then show ?thesis using claims_of_expire_one [of c s d] that(2,3)
      by (auto elim!: in_update_whereE)
  qed
  then have "claims_kept (if_claims (expire_one (c, s) d)) (if_claims (fold expire_one leases (expire_one (c, s) d)))"
    by (intro Cons.IH) blast
  with one show ?case unfolding cs by (auto intro: claims_kept_trans)
qed simp

lemma expire_claims_kept:
  assumes "distinct (map cl_id (if_claims d))"
  shows "claims_kept (if_claims d) (if_claims (expire_claims now d))"
  unfolding expire_claims_def
proof (rule expire_fold_kept)
  fix c s x assume "(c, s) \<in> set (expired_leases now d)" and x: "x \<in> set (if_claims d)" "cl_id x = cl_id c"
  then have "c \<in> set (if_claims d)" "cl_status c = Claimed" by (auto simp: expired_leases_def)
  with lookup_row_unique [OF assms _ x(1)] x(2) show "cl_status x \<noteq> ClaimCompleted" by fastforce
qed

lemma authorized_open_claim:
  assumes "authorized_claim env m cid ctoken dg now d = Inr (c, False)"
  shows "c \<in> set (if_claims d)" "cl_id c = cid" "cl_status c = Claimed"
  using assms by (auto simp: authorized_claim_def find_Some_iff split: option.splits if_splits)

lemma submit_kept:
  assumes "distinct (map cl_id (if_claims d))"
  shows "claims_kept (if_claims d) (if_claims (snd (submit_result env token cid ctoken result now d)))"
proof -
  have upd: "claims_kept (if_claims d) (update_where (\<lambda>c. cl_id c = cid) f (if_claims d))"
    if "authorized_claim env m cid ctoken dg now d = Inr (c, False)"
      and "\<And>c. f c = c\<lparr>cl_status := ClaimRejected\<rparr> \<or> f c = c\<lparr>cl_status := ClaimCompleted, cl_result_hash := Some dg\<rparr>"
    for m dg c f
  proof (rule claims_kept_update)
    fix x assume "x \<in> set (if_claims d)" "cl_id x = cid"
    with authorized_open_claim [OF that(1)] have "x = c" using lookup_row_unique [OF assms] by metis
    then show "claim_step x (f x)" using authorized_open_claim(3) [OF that(1)] that(2) [of x]
      by (auto simp: claim_step_def)
  qed
  have "claims_kept (if_claims d) (if_claims (snd (submit_body env token cid ctoken result now d)))"
    unfolding submit_body_def Let_def complete_claim_def
    by (auto simp: column_frame update_claims_def prod.case_eq_if intro: upd
        split: sum.split option.split bool.split exn.split)
  then show ?thesis
    by (auto simp: submit_result_def info_transaction_def split: prod.split sum.split)
qed

subsection \<open>New claims\<close>

definition new_claim :: "string \<Rightarrow> time \<Rightarrow> info_db \<Rightarrow> info_db \<Rightarrow> bool" where
  "new_claim uid now d d' \<longleftrightarrow>
     (\<exists>c i. if_claims d' = if_claims d @ [c] \<and> cl_user_id c = uid \<and> cl_created_at c = now
        \<and> cl_id c = ''icclaim_'' @ if_id_source d i \<and> if_drawn d \<le> i \<and> i < if_drawn d')"

lemma new_claim_after:
  "new_claim uid now d1 d' \<Longrightarrow> if_claims d1 = if_claims d \<Longrightarrow> draws d d1 \<Longrightarrow> new_claim uid now d d'"
  unfolding new_claim_def draws_def by fastforce

lemma draws_parent [simp]:
  "if_id_source (parent_state b st why ready d) = if_id_source d" "if_drawn (parent_state b st why ready d) = if_drawn d"
  "if_id_source (parent_claimed b h d) = if_id_source d" "if_drawn (parent_claimed b h d) = if_drawn d"
  "if_id_source (context_error b code now d) = if_id_source d" "if_drawn (context_error b code now d) = if_drawn d"
  by (simp_all add: parent_state_def parent_claimed_def context_error_def info_updates Let_def split: option.split)

lemma new_claim_allocate: "new_claim (ma_user_id m) now d (snd (allocate env m b s config now d))"
  unfolding new_claim_def
  by (intro exI [of _ "if_drawn d"] exI)
    (auto simp: allocate_def Let_def prod.case_eq_if draw_def column_frame info_updates)

lemma claim_loop_claims:
  "if_claims (snd (claim_loop env m now exhausted waiting ss d)) = if_claims d
   \<or> \<not> exhausted \<and> new_claim (ma_user_id m) now d (snd (claim_loop env m now exhausted waiting ss d))"
proof (induction ss arbitrary: waiting d)
  case (Cons s ss)
  show ?case
  proof (cases "lookup_row ba_id (st_batch_id s) (if_batches d)")
    case (Some b)
    obtain res d1 where pc: "parent_context env b m d = (res, d1)" by fastforce
    then have d1: "if_claims d1 = if_claims d" "draws d d1"
      by (cases rule: parent_context_cases; simp add: draws_def)+
    show ?thesis
    proof (cases res)
      case (Inl e)
      have "if_claims d2 = if_claims d1 \<and> draws d1 d2" if "d2 = context_error b code now d1" for code d2
        using that by (simp add: column_frame draws_def)
      with Inl show ?thesis using Cons.IH new_claim_after [OF _ _ draws_trans [OF d1(2)]] d1(1)
        by (cases e) (simp_all add: Some pc, metis)
    next
      case (Inr ci)
      then show ?thesis using d1 new_claim_after [OF new_claim_allocate d1]
        by (cases ci) (auto simp: Some pc column_frame Let_def prod.case_eq_if)
    qed
  qed simp
qed simp

text \<open>A claim for work expires the old leases, then adds at most one row.\<close>

lemma claim_work_claims:
  assumes "distinct (map cl_id (if_claims d))"
  obtains cs where "claims_kept (if_claims d) cs" "if_claims (snd (claim_work env token now limit protocol d)) = cs"
  | uid d2 where "claims_kept (if_claims d) (if_claims d2)" "if_id_source d2 = if_id_source d" "if_drawn d2 = if_drawn d"
      "\<not> list_ex (live_claim now uid) (if_claims d2)" "claims_since uid (en_day_start env now) d2 < limit"
      "new_claim uid now d2 (snd (claim_work env token now limit protocol d))"
proof (cases "fst (claim_work env token now limit protocol d)")
  case (Inl e)
  then have "snd (claim_work env token now limit protocol d) = d"
    by (auto simp: claim_work_def info_transaction_def split: prod.splits sum.splits)
  then show ?thesis using that(1) [of "if_claims d"] by simp
next
  case (Inr a)
  then obtain d' where work: "claim_work env token now limit protocol d = (Inr a, d')"
    by (metis prod.collapse)
  note body = info_transaction_Inr [OF work [unfolded claim_work_def]]
  then obtain m where m: "authenticate env token d = Inr m"
    by (cases "authenticate env token d") (simp_all add: claim_body_def)
  have proto: "protocol = 2" using body by (cases "protocol = 2") (simp_all add: claim_body_def m)
  define d1 where "d1 = seen_now (ma_binding_id m) now d"
  define d2 where "d2 = expire_claims now d1"
  have "if_claims d1 = if_claims d" "if_id_source d1 = if_id_source d" "if_drawn d1 = if_drawn d"
    by (simp_all add: d1_def seen_now_def)
  moreover have "if_id_source (expire_one cs d) = if_id_source d \<and> if_drawn (expire_one cs d) = if_drawn d" for cs d
    by (simp add: expire_one_def Let_def info_updates split: prod.split option.split)
  then have "if_id_source (fold expire_one xs d) = if_id_source d \<and> if_drawn (fold expire_one xs d) = if_drawn d" for xs d
    by (induction xs arbitrary: d) auto
  ultimately have d2: "claims_kept (if_claims d) (if_claims d2)" "if_id_source d2 = if_id_source d"
    "if_drawn d2 = if_drawn d"
    using expire_claims_kept [of d1 now] assms by (simp_all add: d2_def expire_claims_def)
  show ?thesis
  proof (cases "list_ex (live_claim now (ma_user_id m)) (if_claims d2)")
    case True
    then have "d' = d2"
      using body by (auto simp: claim_body_def m proto Let_def d1_def [symmetric] d2_def [symmetric] split: sum.splits)
    then have "if_claims (snd (claim_work env token now limit protocol d)) = if_claims d2" by (simp add: work)
    then show ?thesis using that(1) d2(1) by blast
  next
    case False
    then obtain mode where loop:
        "claim_loop env m now (limit \<le> claims_since (ma_user_id m) (en_day_start env now) d2) None
          (claimable_steps (ma_user_id m) mode now d2) d2 = (Inr a, d')"
      using body by (auto simp: claim_body_def m proto Let_def d1_def [symmetric] d2_def [symmetric] split: sum.splits)
    show ?thesis
      using claim_loop_claims [of env m now "limit \<le> claims_since (ma_user_id m) (en_day_start env now) d2" None
          "claimable_steps (ma_user_id m) mode now d2" d2] that d2 False
      unfolding loop work by force
  qed
qed

subsection \<open>The invariant\<close>

definition claims_ok :: "info_db \<Rightarrow> bool" where
  "claims_ok d \<longleftrightarrow>
     runs_ok d \<and> distinct (map cl_id (if_claims d)) \<and> cl_id ` set (if_claims d) \<subseteq> drawn_ids ''icclaim_'' d"

lemma drawn_ids_later:
  assumes "inj (if_id_source d)" "if_drawn d \<le> i"
  shows "p @ if_id_source d i \<notin> drawn_ids p d"
  using assms by (auto simp: drawn_ids_def dest: injD)

text \<open>One operation: the rows stay, and a claim for work may add one.\<close>

lemma exec_op_claims:
  assumes "claims_ok d"
  obtains "claims_kept (if_claims d) (if_claims (exec_op op d))"
  | env token now limit protocol uid d2 where "op = ClaimWorkOp env token now limit protocol"
      "claims_kept (if_claims d) (if_claims d2)" "if_id_source d2 = if_id_source d" "if_drawn d2 = if_drawn d"
      "\<not> list_ex (live_claim now uid) (if_claims d2)" "claims_since uid (en_day_start env now) d2 < limit"
      "new_claim uid now d2 (exec_op op d)"
proof -
  have dist: "distinct (map cl_id (if_claims d))" using assms by (simp add: claims_ok_def)
  show ?thesis
  proof (cases op)
    case (ClaimWorkOp env token now limit protocol)
    show ?thesis
    proof (cases rule: claim_work_claims [OF dist, of env token now limit protocol])
      case (1 cs)
      then show ?thesis using that(1) by (simp add: ClaimWorkOp)
    next
      case (2 uid d2)
      then show ?thesis using that(2) by (simp add: ClaimWorkOp)
    qed
  next
    case (SubmitOp env token cid ctoken result now)
    then show ?thesis using that(1) submit_kept [OF dist] by simp
  next
    case (MaintainOp now)
    then show ?thesis using that(1) expire_claims_kept [OF dist] by (simp add: maintain_semantic_leases_def)
  qed (use that(1) claims_of_op [of op d] in \<open>simp_all add: keeps_claims_def\<close>)
qed

lemma claims_ok_exec:
  assumes ok: "claims_ok d"
  shows "claims_ok (exec_op op d)"
proof -
  have ev: "runs_ok (exec_op op d)" "draws d (exec_op op d)"
    using evolves_exec_op [of d op] ok by (simp_all add: evolves_def claims_ok_def)
  then have mono: "drawn_ids p d \<subseteq> drawn_ids p (exec_op op d)" for p
    by (intro drawn_ids_mono) (simp_all add: draws_def)
  note old = ok [unfolded claims_ok_def]
  show ?thesis
  proof (cases rule: exec_op_claims [OF ok, of op])
    case 1
    then have "map cl_id (if_claims (exec_op op d)) = map cl_id (if_claims d)" by (rule claims_kept_ids)
    moreover from this have "cl_id ` set (if_claims (exec_op op d)) = cl_id ` set (if_claims d)" by (metis set_map)
    ultimately show ?thesis using old ev(1) subset_trans [OF _ mono] by (simp add: claims_ok_def)
  next
    case (2 env token now limit protocol uid d2)
    then obtain c i where c: "if_claims (exec_op op d) = if_claims d2 @ [c]" "cl_id c = ''icclaim_'' @ if_id_source d i"
      "if_drawn d \<le> i" "i < if_drawn (exec_op op d)"
      by (auto simp: new_claim_def)
    have ids: "map cl_id (if_claims d2) = map cl_id (if_claims d)" using 2(2) by (rule claims_kept_ids)
    then have set_ids: "cl_id ` set (if_claims d2) = cl_id ` set (if_claims d)" by (metis set_map)
    have "cl_id c \<notin> drawn_ids ''icclaim_'' d"
      unfolding c(2) using old c(3) by (intro drawn_ids_later) (simp_all add: runs_ok_def)
    moreover have "cl_id c \<in> drawn_ids ''icclaim_'' (exec_op op d)"
      using c(2,4) ev(2) by (simp add: drawn_ids_def draws_def)
    ultimately show ?thesis using old ev(1) subset_trans [OF _ mono] ids set_ids
      by (auto simp: claims_ok_def c(1) subset_iff)
  qed
qed

definition claims_move :: "info_db \<Rightarrow> info_db \<Rightarrow> bool" where
  "claims_move d d' \<longleftrightarrow>
     (claims_ok d \<longrightarrow> claims_ok d' \<and> (\<forall>c \<in> set (if_claims d). \<exists>c' \<in> set (if_claims d'). claim_step c c'))"

lemma claims_kept_member: "claims_kept cs cs' \<Longrightarrow> c \<in> set cs \<Longrightarrow> \<exists>c' \<in> set cs'. claim_step c c'"
  unfolding claims_kept_def by (induction rule: list_all2_induct) auto

lemma claims_move_exec: "claims_move d (exec_op op d)"
proof -
  have "\<exists>c' \<in> set (if_claims (exec_op op d)). claim_step c c'" if "claims_ok d" "c \<in> set (if_claims d)" for c
    using exec_op_claims [OF that(1), of op] that(2)
    by cases (auto simp: new_claim_def dest: claims_kept_member)
  then show ?thesis unfolding claims_move_def using claims_ok_exec by blast
qed

interpretation claims: operations exec_op claims_move
proof
  show "claims_move d d" for d unfolding claims_move_def using claim_step_refl by blast
  show "claims_move d e" if "claims_move d f" "claims_move f e" for d e f
    using that unfolding claims_move_def by (meson claim_step_trans)
qed (rule claims_move_exec)

subsection \<open>Clocks\<close>

fun op_clock :: "info_op \<Rightarrow> time list" where
  "op_clock (ClaimWorkOp env token now limit protocol) = [now]"
| "op_clock (SubmitOp env token cid ctoken result now) = [now]"
| "op_clock (MaintainOp now) = [now]"
| "op_clock (RecordOp w uid items sources now) = [now]"
| "op_clock (EvaluateOp env now limit) = [now]"
| "op_clock (SaveOp env uid c rid expected now) = [now]"
| "op_clock (TransitionOp env uid rid version action now) = [now]"
| "op_clock (DeleteOp env uid rid version now) = [now]"
| "op_clock (RevokeOp uid now) = [now]"
| "op_clock (InterruptOp now) = [now]"
| "op_clock (ClaimDeliveryOp env rid now limit) = [now]"
| "op_clock (SettleOp rid answer) = []"
| "op_clock (ReusePreviewOp uid i dg) = []"
| "op_clock (StorePreviewOp env pl now) = [now]"
| "op_clock (PreviewClaimOp env pid now limit) = [now]"
| "op_clock (PreviewSettleOp pid answer) = []"
| "op_clock (PreviewSweepOp now) = [now]"
| "op_clock (ProvisionOp env stored random uid now) = [now]"
| "op_clock (RefreshOp b now) = [now]"
| "op_clock (ControlOp m mode block now) = [now]"
| "op_clock (FailRefreshOp m i now) = [now]"
| "op_clock (SyncOp m caps now verified) = [now]"

definition clocks :: "info_op list \<Rightarrow> time list" where
  "clocks ops = concat (map op_clock ops)"

text \<open>An invariant that time only weakens: when every operation keeps it from its own instant on, it
  holds after operations whose clocks do not go back.\<close>

lemma timed_run:
  assumes step: "\<And>op d t t'. Q op \<Longrightarrow> (\<And>t'. t \<le> t' \<Longrightarrow> I t' d) \<Longrightarrow> \<forall>c \<in> set (op_clock op). t \<le> c \<Longrightarrow>
      t \<le> t' \<Longrightarrow> \<forall>c \<in> set (op_clock op). c \<le> t' \<Longrightarrow> I t' (exec_op op d)"
    and "list_all Q ops" "\<And>t'. t \<le> t' \<Longrightarrow> I t' d" "sorted (t # clocks ops @ [now])"
  shows "I now (fold exec_op ops d)"
  using assms(2-)
proof (induction ops arbitrary: t d)
  case Nil
  then show ?case by (simp add: clocks_def)
next
  case (Cons op ops)
  have cs: "op_clock op = [] \<or> (\<exists>c. op_clock op = [c])" by (cases op) simp_all
  define t2 where "t2 = (case op_clock op of [] \<Rightarrow> t | c # _ \<Rightarrow> c)"
  have t2: "t \<le> t2" "sorted (t2 # clocks ops @ [now])" "\<forall>c \<in> set (op_clock op). t \<le> c \<and> c \<le> t2"
    using Cons.prems(3) cs by (auto simp: clocks_def t2_def)
  have "I t' (exec_op op d)" if "t2 \<le> t'" for t'
    using Cons.prems(1,2) t2 that by (intro step [of op t d]) auto
  then have "I now (fold exec_op ops (exec_op op d))"
    using Cons.prems(1) by (intro Cons.IH [OF _ _ t2(2)]) simp_all
  then show ?case by simp
qed

lemma timed_invariant:
  assumes step: "\<And>op d t t'. claims_ok d \<Longrightarrow> Q op \<Longrightarrow> (\<And>t'. t \<le> t' \<Longrightarrow> I t' d) \<Longrightarrow> \<forall>c \<in> set (op_clock op). t \<le> c \<Longrightarrow>
      t \<le> t' \<Longrightarrow> \<forall>c \<in> set (op_clock op). c \<le> t' \<Longrightarrow> I t' (exec_op op d)"
    and "claims_ok d" "list_all Q ops" "\<And>t'. t \<le> t' \<Longrightarrow> I t' d" "sorted (t # clocks ops @ [now])"
  shows "I now (fold exec_op ops d)"
proof -
  have "claims_ok (fold exec_op ops d) \<and> I now (fold exec_op ops d)"
  proof (rule timed_run [where Q = Q and I = "\<lambda>t d. claims_ok d \<and> I t d", OF _ assms(3) _ assms(5)])
    fix op d t t'
    assume "Q op" and I: "\<And>t'. t \<le> t' \<Longrightarrow> claims_ok d \<and> I t' d" and "t \<le> t'"
      and "\<forall>c \<in> set (op_clock op). t \<le> c" "\<forall>c \<in> set (op_clock op). c \<le> t'"
    moreover have "claims_ok d" using I by blast
    ultimately show "claims_ok (exec_op op d) \<and> I t' (exec_op op d)" using claims_ok_exec step by blast
  qed (use assms(2,4) in simp)
  then show ?thesis by simp
qed

text \<open>The first clock of a sequence.\<close>

lemma sorted_clocks: "sorted (clocks ops @ [now]) \<Longrightarrow> \<exists>t. sorted (t # clocks ops @ [now])"
  by (intro exI [of _ "hd (clocks ops @ [now])"]) (cases "clocks ops", auto)

subsection \<open>One live claim\<close>

definition live_claims :: "time \<Rightarrow> string \<Rightarrow> info_claim list \<Rightarrow> nat" where
  "live_claims now uid cs = length (filter (live_claim now uid) cs)"

lemma live_claims_kept: "claims_kept cs cs' \<Longrightarrow> t \<le> t' \<Longrightarrow> live_claims t' uid cs' \<le> live_claims t uid cs"
  unfolding live_claims_def by (erule claims_kept_fewer) (auto simp: live_claim_def claim_step_def)

lemma one_live_claim_step:
  assumes "claims_ok d" "\<And>t'. t \<le> t' \<Longrightarrow> live_claims t' uid (if_claims d) \<le> 1" "\<forall>c \<in> set (op_clock op). t \<le> c" "t \<le> t'"
    "\<forall>c \<in> set (op_clock op). c \<le> t'"
  shows "live_claims t' uid (if_claims (exec_op op d)) \<le> 1"
proof (cases rule: exec_op_claims [OF assms(1), of op])
  case 1
  then show ?thesis using live_claims_kept [OF 1 order_refl, of t' uid] assms(2) [OF assms(4)] by linarith
next
  case (2 env token now limit protocol uid' d2)
  then obtain c where c: "if_claims (exec_op op d) = if_claims d2 @ [c]" "cl_user_id c = uid'"
    by (auto simp: new_claim_def)
  have le: "live_claims t' uid (if_claims d2) \<le> 1"
    using live_claims_kept [OF 2(2) order_refl, of t' uid] assms(2) [OF assms(4)] by linarith
  show ?thesis
  proof (cases "uid' = uid")
    case False
    then show ?thesis using le c by (simp add: live_claims_def live_claim_def)
  next
    case True
    have "now \<le> t'" using assms(5) 2(1) by simp
    then have "live_claims t' uid (if_claims d2) \<le> live_claims now uid (if_claims d2)"
      by (rule live_claims_kept [OF claims_kept_refl])
    moreover have "live_claims now uid (if_claims d2) = 0"
      using 2(5) True by (auto simp: live_claims_def list_ex_iff filter_empty_conv)
    ultimately show ?thesis unfolding c(1) by (simp add: live_claims_def)
  qed
qed

text \<open>C15: A user never has two live claims, whatever connectors claim, submit and let expire, in any
  order; the clocks of the operations only have to agree on the order.\<close>

theorem one_live_claim_per_user:
  assumes "runs_ok d" "if_claims d = []" "sorted (clocks ops @ [now])"
  shows "length (filter (live_claim now uid) (if_claims (fold exec_op ops d))) \<le> 1"
proof -
  obtain t where t: "sorted (t # clocks ops @ [now])" using sorted_clocks [OF assms(3)] by blast
  have "live_claims now uid (if_claims (fold exec_op ops d)) \<le> 1"
  proof (rule timed_invariant [where Q = "\<lambda>_. True" and I = "\<lambda>t d. live_claims t uid (if_claims d) \<le> 1", OF _ _ _ _ t])
    show "claims_ok d" using assms(1,2) by (simp add: claims_ok_def)
    show "live_claims t' uid (if_claims (exec_op op d)) \<le> 1"
      if "claims_ok d" "\<And>t'. t \<le> t' \<Longrightarrow> live_claims t' uid (if_claims d) \<le> 1" "t \<le> t'"
        "\<forall>c \<in> set (op_clock op). t \<le> c" "\<forall>c \<in> set (op_clock op). c \<le> t'" for op d t t'
      using that(1,2,4,3,5) by (rule one_live_claim_step)
  qed (simp_all add: assms(2) live_claims_def list_all_iff)
  then show ?thesis by (simp add: live_claims_def)
qed

subsection \<open>The daily limit\<close>

definition within_limit :: "(time \<Rightarrow> time) \<Rightarrow> int \<Rightarrow> info_op \<Rightarrow> bool" where
  "within_limit start limit op \<longleftrightarrow>
     (case op of ClaimWorkOp env token now l protocol \<Rightarrow> l \<le> limit \<and> en_day_start env = start | _ \<Rightarrow> True)"

definition claims_from :: "string \<Rightarrow> time \<Rightarrow> info_claim list \<Rightarrow> int" where
  "claims_from uid t cs = int (length (filter (\<lambda>c. cl_user_id c = uid \<and> t \<le> cl_created_at c) cs))"

lemma claims_since_from: "claims_since uid t d = claims_from uid t (if_claims d)"
  by (simp add: claims_since_def claims_from_def)

lemma claims_from_kept: "claims_kept cs cs' \<Longrightarrow> t \<le> t' \<Longrightarrow> claims_from uid t' cs' \<le> claims_from uid t cs"
  unfolding claims_from_def of_nat_le_iff by (erule claims_kept_fewer) (auto simp: claim_step_def)

lemma daily_limit_step:
  assumes "claims_ok d" "within_limit start limit op" "mono start"
    "\<And>t'. t \<le> t' \<Longrightarrow> claims_since uid (start t') d \<le> max 0 limit" "t \<le> t'"
    "\<forall>c \<in> set (op_clock op). c \<le> t'"
  shows "claims_since uid (start t') (exec_op op d) \<le> max 0 limit"
proof (cases rule: exec_op_claims [OF assms(1), of op])
  case 1
  then show ?thesis using claims_from_kept [OF 1 order_refl, of uid "start t'"] assms(4) [OF assms(5)]
    unfolding claims_since_from by linarith
next
  case (2 env token now l protocol uid' d2)
  then obtain c where c: "if_claims (exec_op op d) = if_claims d2 @ [c]" "cl_user_id c = uid'"
    by (auto simp: new_claim_def)
  have le: "claims_from uid (start t') (if_claims d2) \<le> max 0 limit"
    using claims_from_kept [OF 2(2) order_refl, of uid "start t'"] assms(4) [OF assms(5)]
    unfolding claims_since_from by linarith
  show ?thesis
  proof (cases "uid' = uid")
    case False
    then show ?thesis using le c by (simp add: claims_since_from claims_from_def)
  next
    case True
    have "start now \<le> start t'" using assms(3,6) 2(1) by (auto intro: monoD)
    then have "claims_from uid (start t') (if_claims d2) \<le> claims_from uid (start now) (if_claims d2)"
      by (rule claims_from_kept [OF claims_kept_refl])
    also have "\<dots> < limit" using 2(1,6) True assms(2) by (simp add: claims_since_from within_limit_def)
    finally show ?thesis unfolding claims_since_from c(1) by (simp add: claims_from_def)
  qed
qed

text \<open>C17: The number of calls a user is given in a day is bounded by the limit the workers use, whatever
  happens to the claims in between.\<close>

theorem daily_semantic_limit:
  assumes "runs_ok d" "if_claims d = []" "mono start" "list_all (within_limit start limit) ops"
    "sorted (clocks ops @ [now])"
  shows "claims_since uid (start now) (fold exec_op ops d) \<le> max 0 limit"
proof -
  obtain t where t: "sorted (t # clocks ops @ [now])" using sorted_clocks [OF assms(5)] by blast
  show ?thesis
  proof (rule timed_invariant [where Q = "within_limit start limit"
        and I = "\<lambda>t d. claims_since uid (start t) d \<le> max 0 limit", OF _ _ assms(4) _ t])
    show "claims_ok d" using assms(1,2) by (simp add: claims_ok_def)
    show "claims_since uid (start t') (exec_op op d) \<le> max 0 limit"
      if "claims_ok d" "within_limit start limit op"
        "\<And>t'. t \<le> t' \<Longrightarrow> claims_since uid (start t') d \<le> max 0 limit" "t \<le> t'"
        "\<forall>c \<in> set (op_clock op). c \<le> t'" for op d t t'
      using that(1,2) assms(3) that(3-5) by (rule daily_limit_step)
  qed (simp_all add: assms(2) claims_since_from claims_from_def)
qed

subsection \<open>A result is accepted once\<close>

lemma claims_ok_submit:
  assumes "claims_ok d" "submit_result env token cid ctoken result now d = (r, d1)"
  shows "claims_ok d1"
  using claims_ok_exec [OF assms(1), of "SubmitOp env token cid ctoken result now"] assms(2) by simp

lemma accepted_is_completed:
  assumes "submit_result env token cid ctoken result now d = (Inr a, d1)" "sb_accepted a"
  shows "\<exists>c \<in> set (if_claims d1). cl_id c = cid \<and> cl_status c = ClaimCompleted
    \<and> cl_result_hash c = Some (en_digest env (canonical result))"
proof -
  let ?dg = "en_digest env (canonical result)"
  have body: "submit_body env token cid ctoken result now d = (Inr a, d1)"
    using info_transaction_Inr [OF assms(1) [unfolded submit_result_def]] .
  then obtain m where m: "authenticate env token d = Inr m"
    by (cases "authenticate env token d") (simp_all add: submit_body_def)
  obtain c dup where c: "authorized_claim env m cid ctoken ?dg now d = Inr (c, dup)"
    using body by (cases "authorized_claim env m cid ctoken ?dg now d") (auto simp: submit_body_def m)
  show ?thesis
  proof (cases dup)
    case True
    then have "d1 = d" using body by (simp add: submit_body_def m c)
    moreover have "c \<in> set (if_claims d) \<and> cl_id c = cid \<and> cl_status c = ClaimCompleted \<and> cl_result_hash c = Some ?dg"
      using c True by (auto simp: authorized_claim_def find_Some_iff split: option.splits if_splits)
    ultimately show ?thesis by blast
  next
    case False
    then have no_dup: "dup = False" by simp
    have "\<exists>d'. d1 = complete_claim cid ?dg d' \<and> if_claims d' = if_claims d"
      using body assms(2) claims_column.col_of_context [of env _ m d] unfolding submit_body_def Let_def m c no_dup sum.case prod.case bool.case
      by (auto simp: prod.case_eq_if column_frame split: option.splits sum.splits exn.splits if_splits)
    then show ?thesis using authorized_open_claim(1,2) [OF c [unfolded no_dup]]
      by (intro bexI [of _ "c\<lparr>cl_status := ClaimCompleted, cl_result_hash := Some ?dg\<rparr>"])
        (auto simp: complete_claim_def update_claims_def set_update_where)
  qed
qed

text \<open>C3: After a result was accepted for a claim, no later submission for that claim changes anything:
  the same result is answered as a duplicate, any other is refused.\<close>

theorem result_is_accepted_once:
  assumes "claims_ok d" "submit_result env token cid ctoken result now d = (Inr a, d1)" "sb_accepted a"
    "submit_result env' token' cid ctoken' result' now' (fold exec_op ops d1) = (res, d2)"
  shows "d2 = fold exec_op ops d1 \<and> (\<forall>a'. res = Inr a' \<longrightarrow>
    sb_duplicate a' \<and> Some (en_digest env' (canonical result')) = Some (en_digest env (canonical result)))"
proof -
  let ?e = "fold exec_op ops d1"
  obtain c where c: "c \<in> set (if_claims d1)" "cl_id c = cid" "cl_status c = ClaimCompleted"
    "cl_result_hash c = Some (en_digest env (canonical result))"
    using accepted_is_completed [OF assms(2,3)] by blast
  have "claims_move d1 ?e" by (rule claims.run_moves)
  with claims_ok_submit [OF assms(1,2)] c(1) obtain c' where c': "claims_ok ?e" "c' \<in> set (if_claims ?e)" "claim_step c c'"
    unfolding claims_move_def by blast
  have found: "x = c'" if "find (\<lambda>c. cl_id c = cid \<and> cl_user_id c = u) (if_claims ?e) = Some x" for u x
    using that c'(1-3) c(2) lookup_row_unique [of cl_id "if_claims ?e" x c']
    by (auto simp: find_Some_iff claims_ok_def claim_step_def)
  show ?thesis
    using assms(4) c'(3) c(3,4)
    by (auto simp: submit_result_def info_transaction_def submit_body_def authorized_claim_def claim_step_def Let_def
        dest!: found split: sum.splits option.splits prod.splits if_splits)
qed

subsection \<open>Witnesses\<close>

definition sample_token :: string where
  "sample_token = ''ih_ic_v1_0123456789abcdef0123456789abcdef.'' @ replicate 43 CHR ''k''"

definition sample_work_db :: info_db where
  "sample_work_db = snd (start_run sample_info_env sample_rule sample_config [sample_item] [1] 7
     (empty_info_db\<lparr>if_rules := [sample_rule], if_rule_versions := [(''iar_1'', 1, sample_config)],
       if_connectors := [\<lparr>cn_binding_id = ''0123456789abcdef0123456789abcdef'', cn_user_id = ''u'',
         cn_token_hash = sample_token, cn_generation = 1, cn_enabled = True, cn_verified_at = None, cn_last_seen = None\<rparr>],
       if_executions := [\<lparr>ex_binding_id = ''0123456789abcdef0123456789abcdef'', ex_generation = 1, ex_mode = ''full'',
         ex_updated_at = 8, ex_filtered = [], ex_runtime_block = None\<rparr>],
       if_catalogs := [\<lparr>mc_binding_id = ''0123456789abcdef0123456789abcdef'', mc_generation = 1,
         mc_models = [\<lparr>am_id = ''m'', am_name = ''m'', am_thinking_levels = []\<rparr>], mc_blocked = []\<rparr>]\<rparr>))"

definition sample_claimed_db :: info_db where
  "sample_claimed_db = snd (claim_work sample_info_env sample_token 9 5 2 sample_work_db)"

definition sample_answer :: json where
  "sample_answer = JObj [(''model'', JStr ''m''), (''output'', JObj [(''status'', JStr ''matched''), (''summary'', JStr ''s''),
     (''reason'', JStr ''r''), (''covered_ids'', JArr [JStr ''a:0'']),
     (''evidence'', JArr [JObj [(''article_id'', JStr ''a''), (''quote'', JStr ''hello''), (''note'', JStr ''n'')]])])]"

lemma sample_claim_has_a_task:
  "(case fst (claim_work sample_info_env sample_token 9 5 2 sample_work_db) of
      Inr a \<Rightarrow> map_option tk_claim_id (an_task a) = Some ''icclaim_xxx'' | Inl _ \<Rightarrow> False)"
  by code_simp

lemma sample_submit_accepted:
  "(case fst (submit_result sample_info_env sample_token ''icclaim_xxx'' ''xxxx'' sample_answer 10 sample_claimed_db) of
      Inr a \<Rightarrow> sb_accepted a \<and> sb_status a = Some MatchedWork | Inl _ \<Rightarrow> False)"
  by code_simp

lemma sample_work_ok: "runs_ok sample_work_db" and sample_work_unclaimed: "if_claims sample_work_db = []"
proof -
  define d where "d = empty_info_db\<lparr>if_rules := [sample_rule], if_rule_versions := [(''iar_1'', 1, sample_config)],
       if_connectors := [\<lparr>cn_binding_id = ''0123456789abcdef0123456789abcdef'', cn_user_id = ''u'',
         cn_token_hash = sample_token, cn_generation = 1, cn_enabled = True, cn_verified_at = None, cn_last_seen = None\<rparr>],
       if_executions := [\<lparr>ex_binding_id = ''0123456789abcdef0123456789abcdef'', ex_generation = 1, ex_mode = ''full'',
         ex_updated_at = 8, ex_filtered = [], ex_runtime_block = None\<rparr>],
       if_catalogs := [\<lparr>mc_binding_id = ''0123456789abcdef0123456789abcdef'', mc_generation = 1,
         mc_models = [\<lparr>am_id = ''m'', am_name = ''m'', am_thinking_levels = []\<rparr>], mc_blocked = []\<rparr>]\<rparr>"
  have work: "sample_work_db = snd (start_run sample_info_env sample_rule sample_config [sample_item] [1] 7 d)"
    by (simp only: sample_work_db_def d_def)
  have "runs_ok d" using inj_sample_ids by (simp add: runs_ok_def d_def empty_info_db_def)
  then show "runs_ok sample_work_db"
    using evolves_start_run [of d sample_info_env sample_rule sample_config "[sample_item]" "[1]" 7]
    unfolding work evolves_def by blast
  show "if_claims sample_work_db = []" unfolding work by (simp add: column_frame d_def empty_info_db_def)
qed

lemma sample_claimed_ok: "claims_ok sample_claimed_db"
  using claims_ok_exec [of sample_work_db "ClaimWorkOp sample_info_env sample_token 9 5 2"] sample_work_ok sample_work_unclaimed
  by (simp add: claims_ok_def sample_claimed_db_def)

definition sample_ops :: "info_op list" where
  "sample_ops = [ClaimWorkOp sample_info_env sample_token 9 5 2, ClaimWorkOp sample_info_env sample_token 10 5 2,
     SubmitOp sample_info_env sample_token ''icclaim_xxx'' ''xxxx'' sample_answer 11, MaintainOp 500]"

lemma one_live_claim_per_user_witness:
  "length (filter (live_claim 600 ''u'') (if_claims (fold exec_op sample_ops sample_work_db))) \<le> 1"
  by (rule one_live_claim_per_user [OF sample_work_ok sample_work_unclaimed]) (simp add: clocks_def sample_ops_def)

lemma daily_semantic_limit_witness:
  "claims_since ''u'' (en_day_start sample_info_env 600) (fold exec_op sample_ops sample_work_db) \<le> max 0 5"
proof (rule daily_semantic_limit [OF sample_work_ok sample_work_unclaimed, where start = "en_day_start sample_info_env"])
  show "mono (en_day_start sample_info_env)"
    by (rule monoI) (simp add: sample_info_env_def days_def seconds_def zdiv_mono1)
qed (simp_all add: clocks_def sample_ops_def within_limit_def)

lemma result_is_accepted_once_witness:
  "\<exists>a d1 d2 res. submit_result sample_info_env sample_token ''icclaim_xxx'' ''xxxx'' sample_answer 10 sample_claimed_db = (Inr a, d1)
    \<and> sb_accepted a
    \<and> submit_result sample_info_env sample_token ''icclaim_xxx'' ''xxxx'' JNull 12 (fold exec_op [MaintainOp 11] d1) = (res, d2)
    \<and> (d2 = fold exec_op [MaintainOp 11] d1 \<and> (\<forall>a'. res = Inr a' \<longrightarrow>
          sb_duplicate a' \<and> Some (en_digest sample_info_env (canonical JNull)) = Some (en_digest sample_info_env (canonical sample_answer))))"
proof -
  obtain a d1 where a: "submit_result sample_info_env sample_token ''icclaim_xxx'' ''xxxx'' sample_answer 10 sample_claimed_db
      = (Inr a, d1)" "sb_accepted a"
    using sample_submit_accepted
    by (cases "submit_result sample_info_env sample_token ''icclaim_xxx'' ''xxxx'' sample_answer 10 sample_claimed_db")
      (auto split: sum.splits)
  obtain res d2 where "submit_result sample_info_env sample_token ''icclaim_xxx'' ''xxxx'' JNull 12 (fold exec_op [MaintainOp 11] d1)
      = (res, d2)" by fastforce
  with a result_is_accepted_once [OF sample_claimed_ok a this] show ?thesis by blast
qed

end
