(* ===== verification/InfoEvents.thy ===== *)
theory InfoEvents
  imports InfoLeases
begin

section \<open>Events and triggers: nothing twice, nothing lost, on time\<close>

text \<open>
  A published article is one event of a user however often its feed is collected; a rule puts the
  first events that match it into a run and never sees them again, and keeps the others; an interval
  trigger stays on the grid of its first date.
\<close>

subsection \<open>Recording\<close>

definition recordable :: "string list \<Rightarrow> feed_item \<Rightarrow> bool" where
  "recordable active it \<longleftrightarrow>
     (case fi_id it of None \<Rightarrow> False | Some aid \<Rightarrow> aid \<noteq> [] \<and> filter (\<lambda>s. s \<in> set active) (item_sources it) \<noteq> [])"

definition events_ok :: "info_db \<Rightarrow> bool" where
  "events_ok d \<longleftrightarrow>
     distinct (map (\<lambda>e. (ie_user_id e, ie_article_id e)) (if_events d))
     \<and> (\<lambda>e. (ie_user_id e, ie_article_id e)) ` set (if_events d) \<subseteq> set (if_seen_items d)"

lemma set_insert_or_ignore [simp]: "set (insert_or_ignore x xs) = insert x (set xs)"
  by (auto simp: insert_or_ignore_def)

text \<open>The sources of an article that were collected successfully, now and before; and the articles of a
  collection that become events: those with such a source whose article and identity are new, also
  among the articles before them.\<close>

definition baseline_sources :: "string \<Rightarrow> info_db \<Rightarrow> string list \<Rightarrow> feed_item \<Rightarrow> string list" where
  "baseline_sources uid d active it =
     sort (remdups (filter (\<lambda>s. s \<in> set active \<and> (uid, s) \<in> set (if_baselines d)) (item_sources it)))"

definition becomes_event :: "string \<Rightarrow> info_db \<Rightarrow> string list \<Rightarrow> feed_item list \<Rightarrow> nat \<Rightarrow> bool" where
  "becomes_event uid d active items i \<longleftrightarrow>
     recordable active (items ! i) \<and> baseline_sources uid d active (items ! i) \<noteq> []
     \<and> (uid, the (fi_id (items ! i))) \<notin> set (if_seen_items d)
     \<and> (uid, fi_fingerprint (items ! i)) \<notin> set (if_seen_identities d)
     \<and> list_all (\<lambda>it. recordable active it \<longrightarrow> fi_id it \<noteq> fi_id (items ! i) \<and> fi_fingerprint it \<noteq> fi_fingerprint (items ! i))
         (take i items)"

text \<open>One item: it never fails, and what it writes.\<close>

lemma record_item_exact:
  assumes "events_ok d" "known = map snd (filter (\<lambda>b. fst b = uid) (if_baselines d))"
  defines "d1 it \<equiv> d\<lparr>if_seen_items := insert_or_ignore (uid, the (fi_id it)) (if_seen_items d),
                     if_seen_identities := insert_or_ignore (uid, fi_fingerprint it) (if_seen_identities d)\<rparr>"
  shows "record_item w uid active known now it (Inr n, d) =
    (if \<not> recordable active it then (Inr n, d)
     else if (uid, the (fi_id it)) \<notin> set (if_seen_items d) \<and> (uid, fi_fingerprint it) \<notin> set (if_seen_identities d)
          \<and> baseline_sources uid d active it \<noteq> []
     then (Inr (Suc n), (d1 it)\<lparr>if_events := if_events d @ [\<lparr>ie_id = if_next_event_id d, ie_workspace_id = w, ie_user_id = uid,
             ie_article_id = the (fi_id it), ie_source_ids = baseline_sources uid d active it, ie_created_at = now\<rparr>],
             if_next_event_id := if_next_event_id d + 1\<rparr>)
     else (Inr n, d1 it))"
proof (cases "recordable active it")
  case False
  then show ?thesis by (auto simp: record_item_def recordable_def Let_def split: option.splits)
next
  case True
  then obtain aid where aid: "fi_id it = Some aid" "aid \<noteq> []" "filter (\<lambda>s. s \<in> set active) (item_sources it) \<noteq> []"
    by (auto simp: recordable_def split: option.splits)
  have "(s \<in> set known) = ((uid, s) \<in> set (if_baselines d))" for s by (force simp: assms(2))
  then have fk: "sort (remdups (filter (\<lambda>s. s \<in> set known) (filter (\<lambda>s. s \<in> set active) (item_sources it))))
      = baseline_sources uid d active it"
    by (simp add: baseline_sources_def conj_commute)
  have fresh: "\<not> (\<exists>e \<in> set (if_events (d1 it)). ie_user_id e = uid \<and> ie_article_id e = aid)" if "(uid, aid) \<notin> set (if_seen_items d)"
    using that assms(1) by (auto simp: d1_def events_ok_def)
  show ?thesis using True aid fresh fk by (auto simp: record_item_def Let_def d1_def)
qed

text \<open>A collection: its events, in order, and the articles seen after it.\<close>

definition event_view :: "info_event \<Rightarrow> string \<times> string \<times> string \<times> string list \<times> time" where
  "event_view e = (ie_workspace_id e, ie_user_id e, ie_article_id e, ie_source_ids e, ie_created_at e)"

definition new_events :: "string \<Rightarrow> string \<Rightarrow> info_db \<Rightarrow> string list \<Rightarrow> feed_item list \<Rightarrow> time
    \<Rightarrow> (string \<times> string \<times> string \<times> string list \<times> time) list" where
  "new_events w uid d active items now =
     map (\<lambda>i. (w, uid, the (fi_id (items ! i)), baseline_sources uid d active (items ! i), now))
       (filter (becomes_event uid d active items) [0..<length items])"

lemma new_events_snoc:
  "new_events w uid d active (items @ [it]) now = new_events w uid d active items now
     @ (if becomes_event uid d active (items @ [it]) (length items)
        then [(w, uid, the (fi_id it), baseline_sources uid d active it, now)] else [])"
proof -
  have "filter (becomes_event uid d active (items @ [it])) [0..<length items] = filter (becomes_event uid d active items) [0..<length items]"
    by (rule filter_cong) (simp_all add: becomes_event_def nth_append)
  moreover have "map (\<lambda>i. (w, uid, the (fi_id ((items @ [it]) ! i)), baseline_sources uid d active ((items @ [it]) ! i), now))
      (filter P [0..<length items]) =
    map (\<lambda>i. (w, uid, the (fi_id (items ! i)), baseline_sources uid d active (items ! i), now)) (filter P [0..<length items])" for P
    by (rule map_cong) (simp_all add: nth_append)
  ultimately show ?thesis by (simp add: new_events_def)
qed

definition seen_after :: "string \<Rightarrow> string list \<Rightarrow> feed_item list \<Rightarrow> info_db \<Rightarrow> info_db \<Rightarrow> bool" where
  "seen_after uid active items d d' \<longleftrightarrow>
     set (if_seen_items d') = set (if_seen_items d) \<union> (\<lambda>it. (uid, the (fi_id it))) ` set (filter (recordable active) items)
     \<and> set (if_seen_identities d') = set (if_seen_identities d) \<union> (\<lambda>it. (uid, fi_fingerprint it)) ` set (filter (recordable active) items)
     \<and> if_baselines d' = if_baselines d"

lemma becomes_event_next:
  assumes "seen_after uid active items d d'" "recordable active it"
  shows "becomes_event uid d active (items @ [it]) (length items) \<longleftrightarrow>
    (uid, the (fi_id it)) \<notin> set (if_seen_items d') \<and> (uid, fi_fingerprint it) \<notin> set (if_seen_identities d')
    \<and> baseline_sources uid d' active it \<noteq> []"
proof -
  have named: "(fi_id x = fi_id it) = (the (fi_id x) = the (fi_id it))" if "recordable active x" for x
    using that assms(2) by (auto simp: recordable_def split: option.splits)
  have "(uid, the (fi_id it)) \<in> set (if_seen_items d') \<longleftrightarrow>
      (uid, the (fi_id it)) \<in> set (if_seen_items d) \<or> (\<exists>x \<in> set items. recordable active x \<and> fi_id x = fi_id it)"
    using assms(1) named by (auto simp: seen_after_def) (metis (mono_tags, lifting) image_eqI mem_Collect_eq)
  moreover have "(uid, fi_fingerprint it) \<in> set (if_seen_identities d') \<longleftrightarrow>
      (uid, fi_fingerprint it) \<in> set (if_seen_identities d) \<or> (\<exists>x \<in> set items. recordable active x \<and> fi_fingerprint x = fi_fingerprint it)"
    using assms(1) by (auto simp: seen_after_def) (metis (mono_tags, lifting) image_eqI mem_Collect_eq)
  moreover have "baseline_sources uid d' active it = baseline_sources uid d active it"
    using assms(1) by (simp add: baseline_sources_def seen_after_def)
  ultimately show ?thesis using assms(2) by (auto simp: becomes_event_def list_all_iff)
qed

lemma record_items_exact:
  assumes "events_ok d" "known = map snd (filter (\<lambda>b. fst b = uid) (if_baselines d))"
  shows "\<exists>new d'. fold (record_item w uid active known now) items (Inr 0, d) = (Inr (length new), d') \<and> events_ok d'
    \<and> if_events d' = if_events d @ new \<and> map event_view new = new_events w uid d active items now
    \<and> seen_after uid active items d d'"
proof (induction items rule: rev_induct)
  case Nil
  show ?case using assms(1) by (simp add: new_events_def seen_after_def)
next
  case (snoc it items)
  then obtain new d' where IH: "fold (record_item w uid active known now) items (Inr 0, d) = (Inr (length new), d')" "events_ok d'"
    "if_events d' = if_events d @ new" "map event_view new = new_events w uid d active items now"
    "seen_after uid active items d d'" by blast
  have known: "known = map snd (filter (\<lambda>b. fst b = uid) (if_baselines d'))" using assms(2) IH(5) by (simp add: seen_after_def)
  note item = record_item_exact [OF IH(2) known, of w active now it "length new"]
  have same: "baseline_sources uid d' active it = baseline_sources uid d active it"
    using IH(5) by (simp add: baseline_sources_def seen_after_def)
  show ?case
  proof (cases "recordable active it")
    case False
    have "\<not> becomes_event uid d active (items @ [it]) (length items)" using False by (simp add: becomes_event_def)
    then show ?thesis using IH False item
      by (intro exI [of _ new] exI [of _ d']) (simp add: new_events_snoc seen_after_def)
  next
    case True
    define e where "e = \<lparr>ie_id = if_next_event_id d', ie_workspace_id = w, ie_user_id = uid, ie_article_id = the (fi_id it),
      ie_source_ids = baseline_sources uid d' active it, ie_created_at = now\<rparr>"
    define d1 where "d1 = d'\<lparr>if_seen_items := insert_or_ignore (uid, the (fi_id it)) (if_seen_items d'),
                     if_seen_identities := insert_or_ignore (uid, fi_fingerprint it) (if_seen_identities d')\<rparr>"
    define d2 where "d2 = d1\<lparr>if_events := if_events d' @ [e], if_next_event_id := if_next_event_id d' + 1\<rparr>"
    note B = becomes_event_next [OF IH(5) True]
    show ?thesis
    proof (cases "becomes_event uid d active (items @ [it]) (length items)")
      case rec: True
      have "events_ok d2" using IH(2) rec [unfolded B]
        by (auto simp: d2_def d1_def e_def events_ok_def)
      moreover have "record_item w uid active known now it (Inr (length new), d') = (Inr (length (new @ [e])), d2)"
        using item True rec [unfolded B] by (simp add: d2_def d1_def e_def)
      moreover have "event_view e = (w, uid, the (fi_id it), baseline_sources uid d active it, now)"
        by (simp add: e_def event_view_def same)
      ultimately show ?thesis using IH True rec
        by (intro exI [of _ "new @ [e]"] exI [of _ d2]) (auto simp: new_events_snoc seen_after_def d2_def d1_def)
    next
      case rec: False
      have "events_ok d1" using IH(2) by (auto simp: d1_def events_ok_def)
      moreover have "record_item w uid active known now it (Inr (length new), d') = (Inr (length new), d1)"
        using item True rec [unfolded B] by (auto simp: d1_def)
      ultimately show ?thesis using IH True rec
        by (intro exI [of _ new] exI [of _ d1]) (auto simp: new_events_snoc seen_after_def d1_def)
    qed
  qed
qed

lemma set_fold_insert: "set (fold (\<lambda>s. insert_or_ignore (f s)) xs ys) = f ` set xs \<union> set ys"
  by (induction xs arbitrary: ys) auto

lemma record_events_exact:
  assumes "events_ok d"
  obtains new d' where "record_events w uid items sources now d = (Inr (length new), d')" "events_ok d'"
    "if_events d' = if_events d @ new" "map event_view new = new_events w uid d sources items now"
    "set (if_baselines d') = Pair uid ` set sources \<union> set (if_baselines d)"
    "(\<lambda>it. (uid, the (fi_id it))) ` set (filter (recordable sources) items) \<subseteq> set (if_seen_items d')"
proof -
  let ?known = "map snd (filter (\<lambda>b. fst b = uid) (if_baselines d))"
  obtain new d1 where f: "fold (record_item w uid sources ?known now) items (Inr 0, d) = (Inr (length new), d1)" "events_ok d1"
    "if_events d1 = if_events d @ new" "map event_view new = new_events w uid d sources items now"
    "seen_after uid sources items d d1"
    using record_items_exact [OF assms refl, of w uid sources now items] by blast
  let ?d' = "d1\<lparr>if_baselines := fold (\<lambda>s. insert_or_ignore (uid, s)) (sort (remdups sources)) (if_baselines d1)\<rparr>"
  have "record_events w uid items sources now d = (Inr (length new), ?d')" by (simp add: record_events_def f(1))
  moreover have "events_ok ?d'" using f(2) by (simp add: events_ok_def)
  moreover have "set (if_baselines ?d') = Pair uid ` set sources \<union> set (if_baselines d)"
    using f(5) by (simp add: set_fold_insert seen_after_def)
  moreover have "(\<lambda>it. (uid, the (fi_id it))) ` set (filter (recordable sources) items) \<subseteq> set (if_seen_items ?d')"
    using f(5) by (simp add: seen_after_def)
  ultimately show thesis using that f(3,4) by simp
qed

text \<open>C39: Recording is idempotent and complete: it never fails; the events it adds are, in their order, those
  articles of the collection whose article and identity this user has not seen, before or earlier in the
  collection, each with the collected sources in the baseline; every collected source is in the baseline
  afterwards, and no other is added, so that the first collection of a source adds no event for it; and
  collecting the same articles again adds none.\<close>

theorem articles_are_recorded_once:
  assumes "events_ok d" "record_events w uid items sources now d = (r, d1)"
  shows "\<exists>new d2. r = Inr (length new) \<and> if_events d1 = if_events d @ new
    \<and> map event_view new = new_events w uid d sources items now
    \<and> set (if_baselines d1) = Pair uid ` set sources \<union> set (if_baselines d)
    \<and> events_ok d1 \<and> record_events w uid items sources now' d1 = (Inr 0, d2) \<and> if_events d2 = if_events d1"
proof -
  obtain new where new: "r = Inr (length new)" "events_ok d1" "if_events d1 = if_events d @ new"
    "map event_view new = new_events w uid d sources items now"
    "set (if_baselines d1) = Pair uid ` set sources \<union> set (if_baselines d)"
    "(\<lambda>it. (uid, the (fi_id it))) ` set (filter (recordable sources) items) \<subseteq> set (if_seen_items d1)"
    using record_events_exact [OF assms(1), of w uid items sources now] unfolding assms(2) by (metis prod.inject)
  obtain more d2 where d2: "record_events w uid items sources now' d1 = (Inr (length more), d2)"
    "if_events d2 = if_events d1 @ more" "map event_view more = new_events w uid d1 sources items now'"
    using record_events_exact [OF new(2), of w uid items sources now'] by metis
  have "\<not> becomes_event uid d1 sources items i" if "i < length items" for i
    using new(6) nth_mem [OF that] by (auto simp: becomes_event_def)
  then have "new_events w uid d1 sources items now' = []" by (simp add: new_events_def filter_empty_conv)
  then have "more = []" using d2(3) by simp
  then show ?thesis using new d2 by auto
qed

subsection \<open>Interval triggers\<close>

text \<open>C40: When an interval trigger is due, its next date is in the future, one interval away at most and
  a whole number of intervals after the last one, however late the worker is; the articles judged are
  those up to the grid point before.\<close>

theorem interval_trigger_keeps_its_grid:
  assumes "tg_kind t = IntervalTrigger" "0 < tg_interval_seconds t" "scheduled \<le> now"
  shows "\<exists>due. advance_due env t scheduled now = Inr (Some due) \<and> now < due \<and> due \<le> now + seconds (tg_interval_seconds t)
    \<and> seconds (tg_interval_seconds t) dvd due - scheduled
    \<and> batch_cutoff env t (Some scheduled) now = Inr (due - seconds (tg_interval_seconds t))"
proof -
  define i where "i = seconds (tg_interval_seconds t)"
  have i: "0 < i" unfolding i_def using assms(2) by (rule seconds_mono)
  define q where "q = (now - scheduled) div i"
  have "i * q + (now - scheduled) mod i = now - scheduled" unfolding q_def by (rule mult_div_mod_eq)
  moreover have "0 \<le> (now - scheduled) mod i" "(now - scheduled) mod i < i" using i by simp_all
  ultimately have b: "now < scheduled + (q + 1) * i" "scheduled + (q + 1) * i \<le> now + i" by (simp_all add: algebra_simps)
  have "advance_due env t scheduled now = Inr (Some (scheduled + (q + 1) * i))"
    using assms(1) by (simp add: advance_due_def q_def i_def Let_def)
  moreover have "batch_cutoff env t (Some scheduled) now = Inr (scheduled + (q + 1) * i - i)"
    using assms(1,3) by (simp add: batch_cutoff_def q_def i_def Let_def)
  ultimately show ?thesis using b unfolding i_def [symmetric]
    by (intro exI [of _ "scheduled + (q + 1) * i"]) simp
qed

subsection \<open>Events of a run\<close>

lemma events_of_start_run:
  "if_events (snd (start_run env row c its ids now d)) = if_events d"
  "if_event_carry (snd (start_run env row c its ids now d)) = if_event_carry d"
  "if_rules (snd (start_run env row c its ids now d)) = if_rules d"
  "\<exists>r \<in> set (if_runs (snd (start_run env row c its ids now d))).
     rn_id r = fst (start_run env row c its ids now d) \<and> rn_event_ids r = ids"
proof -
  have fin: "if_events (finish env bid r d) = if_events d \<and> if_event_carry (finish env bid r d) = if_event_carry d
      \<and> map (\<lambda>r. (rn_id r, rn_event_ids r)) (if_runs (finish env bid r d)) = map (\<lambda>r. (rn_id r, rn_event_ids r)) (if_runs d)"
    for bid r d
    by (simp add: finish_def info_updates Let_def map_update_where_keep split: option.split)
  have add: "if_events (add_steps bid l n k gs d) = if_events d \<and> if_event_carry (add_steps bid l n k gs d) = if_event_carry d"
    for bid l n k gs d by (induction gs arbitrary: k d) (simp_all add: draw_def Let_def)
  have batch: "if_events (create_batch env c its now rid pid d) = if_events d
      \<and> if_event_carry (create_batch env c its now rid pid d) = if_event_carry d
      \<and> if_rules (create_batch env c its now rid pid d) = if_rules d
      \<and> map (\<lambda>r. (rn_id r, rn_event_ids r)) (if_runs (create_batch env c its now rid pid d)) = map (\<lambda>r. (rn_id r, rn_event_ids r)) (if_runs d)"
    for rid pid d
    by (simp add: create_batch_def draw_def Let_def fin add split: sum.split)
  show "if_events (snd (start_run env row c its ids now d)) = if_events d"
    "if_event_carry (snd (start_run env row c its ids now d)) = if_event_carry d"
    "if_rules (snd (start_run env row c its ids now d)) = if_rules d"
    by (simp_all add: start_run_def draw_def Let_def batch)
  have "(fst (start_run env row c its ids now d), ids)
      \<in> set (map (\<lambda>r. (rn_id r, rn_event_ids r)) (if_runs (snd (start_run env row c its ids now d))))"
    unfolding start_run_def draw_def Let_def by (simp add: batch del: set_map)
  then show "\<exists>r \<in> set (if_runs (snd (start_run env row c its ids now d))).
     rn_id r = fst (start_run env row c its ids now d) \<and> rn_event_ids r = ids" by auto
qed

text \<open>The events of a table in order: the ones of a run are first, and the cursor passes them.\<close>

lemma taken_events_split:
  assumes "distinct (map ie_id es)" "0 < n" "M = sort_key ie_id (filter (matches_rule row c cutoff d) es)" "M \<noteq> []"
    and "L = last (map ie_id (take n M))" "e \<in> set es"
  shows "ie_id e \<in> ie_id ` set (take n M) \<Longrightarrow> ie_id e \<le> L"
    and "matches_rule row c cutoff d e \<Longrightarrow> ie_id e \<notin> ie_id ` set (take n M) \<Longrightarrow> L < ie_id e"
proof -
  have "sorted (map ie_id M)" unfolding assms(3) by (rule sorted_sort_key)
  then have s: "sorted (map ie_id (take n M) @ map ie_id (drop n M))" by (simp flip: map_append)
  have ne: "take n M \<noteq> []" using assms(2,4) by simp
  then have L: "L \<in> ie_id ` set (take n M)" unfolding assms(5) by (metis last_in_set list.map_disc_iff set_map)
  obtain xs where xs: "map ie_id (take n M) = xs @ [L]"
    using ne unfolding assms(5) by (metis append_butlast_last_id list.map_disc_iff)
  show "ie_id e \<le> L" if "ie_id e \<in> ie_id ` set (take n M)"
  proof -
    have "ie_id e \<in> set (xs @ [L])" using that xs by (metis set_map)
    moreover have "sorted (xs @ [L])" using s unfolding xs by (simp add: sorted_append)
    ultimately show ?thesis by (auto simp: sorted_append)
  qed
  show "L < ie_id e" if "matches_rule row c cutoff d e" "ie_id e \<notin> ie_id ` set (take n M)"
  proof -
    have "e \<in> set M" using that(1) assms(3,6) by simp
    then have "e \<in> set (take n M) \<union> set (drop n M)" by (metis append_take_drop_id set_append)
    then have "e \<in> set (drop n M)" using that(2) by auto
    then have "L \<le> ie_id e" using s L by (auto simp: sorted_append)
    moreover have "L \<noteq> ie_id e" using that(2) L by metis
    ultimately show ?thesis by simp
  qed
qed

lemma take_events_tables:
  fixes env row c selected now d
  defines "L \<equiv> last (map ie_id selected)"
  assumes "take_events env row c selected now d = (rid, d')"
  shows "if_events d' = if_events d"
    and "if_event_carry d' = filter (\<lambda>x. \<not> (fst x = ir_id row \<and> snd x \<in> ie_id ` set selected)) (if_event_carry d)"
    and "if_rules d' = update_where (\<lambda>r. ir_id r = ir_id row) (\<lambda>r. r\<lparr>ir_cursor := max (ir_cursor r) L\<rparr>) (if_rules d)"
    and "\<exists>r \<in> set (if_runs d'). rn_id r = rid \<and> rn_event_ids r = map ie_id selected"
proof -
  let ?its = "map (\<lambda>e. event_input env e (ir_workspace_id row) (ir_user_id row)) selected"
  note run = events_of_start_run [of env row c ?its "map ie_id selected" now d]
  from assms(2) have d': "d' = (update_rules (\<lambda>r. ir_id r = ir_id row) (\<lambda>r. r\<lparr>ir_cursor := max (ir_cursor r) L\<rparr>)
       (snd (start_run env row c ?its (map ie_id selected) now d)))
       \<lparr>if_event_carry := filter (\<lambda>x. \<not> (fst x = ir_id row \<and> snd x \<in> ie_id ` set selected))
          (if_event_carry (snd (start_run env row c ?its (map ie_id selected) now d)))\<rparr>"
    and rid: "rid = fst (start_run env row c ?its (map ie_id selected) now d)"
    by (simp_all add: take_events_def Let_def prod.case_eq_if L_def)
  show "if_events d' = if_events d"
    "if_event_carry d' = filter (\<lambda>x. \<not> (fst x = ir_id row \<and> snd x \<in> ie_id ` set selected)) (if_event_carry d)"
    "if_rules d' = update_where (\<lambda>r. ir_id r = ir_id row) (\<lambda>r. r\<lparr>ir_cursor := max (ir_cursor r) L\<rparr>) (if_rules d)"
    "\<exists>r \<in> set (if_runs d'). rn_id r = rid \<and> rn_event_ids r = map ie_id selected"
    using run by (simp_all add: d' rid update_rules_def)
qed

lemma matches_after_take:
  assumes "distinct (map ie_id (if_events d))" "0 < n" "M = matching_events row c cutoff d" "M \<noteq> []"
    and "L = last (map ie_id (take n M))"
    and order: "\<And>a b. a \<in> set (if_events d) \<Longrightarrow> b \<in> set (if_events d) \<Longrightarrow> ie_id a \<le> ie_id b \<Longrightarrow> ie_created_at a \<le> ie_created_at b"
    and carry: "if_event_carry d' = filter (\<lambda>x. \<not> (fst x = ir_id row \<and> snd x \<in> ie_id ` set (take n M))) (if_event_carry d)"
    and e: "e \<in> set (if_events d)"
  shows "matches_rule (row\<lparr>ir_cursor := max (ir_cursor row) L\<rparr>) c t d' e \<longleftrightarrow>
    matches_rule row c t d e \<and> ie_id e \<notin> ie_id ` set (take n M)"
proof -
  have M: "M = sort_key ie_id (filter (matches_rule row c cutoff d) (if_events d))"
    using assms(3,4) by (auto simp: matching_events_def split: if_splits)
  note split = taken_events_split [OF assms(1,2) M assms(4,5) e]
  have later: "L < ie_id e" if "matches_rule row c t d e" "ie_id e \<notin> ie_id ` set (take n M)"
  proof (cases "ie_created_at e \<le> cutoff")
    case True
    with that(1) have "matches_rule row c cutoff d e" by (simp add: matches_rule_def)
    then show ?thesis using that(2) by (rule split(2))
  next
    case False
    have "take n M \<noteq> []" using assms(2,4) by simp
    then have "L \<in> ie_id ` set (take n M)" unfolding assms(5) by (metis last_in_set list.map_disc_iff set_map)
    then obtain b where b: "b \<in> set (take n M)" "ie_id b = L" by auto
    then have "b \<in> set M" by (metis in_set_takeD)
    then have "b \<in> set (if_events d)" "ie_created_at b \<le> cutoff" unfolding M by (simp_all add: matches_rule_def)
    with order [OF e, of b] False b(2) show ?thesis by fastforce
  qed
  show ?thesis
  proof (cases "ie_id e \<in> ie_id ` set (take n M)")
    case True
    then show ?thesis using split(1) [OF True] by (auto simp: matches_rule_def carry)
  next
    case False
    then show ?thesis using later by (auto simp: matches_rule_def carry)
  qed
qed

lemma enqueued_run_takes_first:
  assumes "lookup_row ir_id (ir_id row) (if_rules d) = Some row" "distinct (map ie_id (if_events d))"
    "\<And>a b. a \<in> set (if_events d) \<Longrightarrow> b \<in> set (if_events d) \<Longrightarrow> ie_id a \<le> ie_id b \<Longrightarrow> ie_created_at a \<le> ie_created_at b"
    "0 < tg_count (cf_trigger (ir_config row))" "enqueue_rule env row now d = (Inr (Some rid), d')"
  shows "\<exists>run row' cutoff n. run \<in> set (if_runs d') \<and> rn_id run = rid \<and> 0 < n
    \<and> rn_event_ids run = map ie_id (take n (matching_events row (ir_config row) cutoff d))
    \<and> lookup_row ir_id (ir_id row) (if_rules d') = Some row'
    \<and> (\<forall>t. matching_events row' (ir_config row) t d'
           = filter (\<lambda>e. ie_id e \<notin> set (rn_event_ids run)) (matching_events row (ir_config row) t d))"
proof -
  let ?c = "ir_config row"
  obtain u t where ctx: "approved_context env row = Inr (u, ?c, t)"
  proof (cases "approved_context env row")
    case (Inl e)
    then show ?thesis using assms(5) by (cases e) (simp_all add: enqueue_rule_def)
  next
    case (Inr x)
    then show ?thesis using that
      by (auto simp: approved_context_def Let_def split: sum.splits option.splits if_splits)
  qed
  define scheduled where "scheduled = Option.bind (map_of (if_trigger_state d) (ir_id row)) id"
  obtain cutoff where cut: "batch_cutoff env (cf_trigger ?c) scheduled now = Inr cutoff"
    using assms(5) by (auto simp: enqueue_rule_def ctx scheduled_def [symmetric] Let_def split: sum.splits)
  define M where "M = matching_events row ?c cutoff d"
  define k where "k = due_count (cf_trigger ?c) M scheduled now"
  obtain res d1 where re: "reschedule env row (cf_trigger ?c) scheduled now d = (res, d1)" by fastforce
  have d1: "if_rules d1 = if_rules d" "if_events d1 = if_events d" "if_event_carry d1 = if_event_carry d"
    using re by (auto simp: reschedule_def split: option.splits sum.splits if_splits)
  have k: "k \<noteq> 0" and take: "take_events env row ?c (take (nat k) M) now d1 = (rid, d')"
    using assms(5)
    by (auto simp: enqueue_rule_def ctx scheduled_def [symmetric] cut M_def [symmetric] k_def [symmetric] re
        Let_def prod.case_eq_if prod_eq_iff split: sum.splits if_splits)
  have M: "M \<noteq> []" using k by (auto simp: k_def due_count_def)
  have n: "0 < nat k" using k assms(4) by (auto simp: k_def due_count_def split: list.splits trigger_kind.splits if_splits)
  define L where "L = last (map ie_id (take (nat k) M))"
  define row' where "row' = row\<lparr>ir_cursor := max (ir_cursor row) L\<rparr>"
  note tables = take_events_tables [OF take, folded L_def, unfolded d1]
  obtain run where run: "run \<in> set (if_runs d')" "rn_id run = rid" "rn_event_ids run = map ie_id (take (nat k) M)"
    using tables(4) by blast
  have "lookup_row ir_id (ir_id row) (if_rules d') = Some row'"
    unfolding tables(3) by (subst lookup_row_update_where) (simp_all add: assms(1) row'_def)
  moreover have "matching_events row' ?c t d' = filter (\<lambda>e. ie_id e \<notin> set (rn_event_ids run)) (matching_events row ?c t d)" for t
  proof (cases "cf_source_ids ?c = []")
    case True
    then show ?thesis by (simp add: matching_events_def)
  next
    case False
    have "filter (matches_rule row' ?c t d') (if_events d)
        = filter (\<lambda>e. ie_id e \<notin> set (rn_event_ids run)) (filter (matches_rule row ?c t d) (if_events d))"
      unfolding row'_def filter_filter
      using matches_after_take [OF assms(2) n M_def M L_def assms(3) tables(2), of _ t]
      by (intro filter_cong refl) (simp add: run(3))
    then show ?thesis using False by (simp add: matching_events_def tables(1) filter_sort)
  qed
  ultimately show ?thesis using run n unfolding M_def by blast
qed

subsection \<open>The log of events\<close>

text \<open>The events have distinct identifiers, and later identifiers have later dates, up to the clock.\<close>

definition event_log :: "time \<Rightarrow> info_db \<Rightarrow> bool" where
  "event_log t d \<longleftrightarrow> distinct (map ie_id (if_events d))
     \<and> (\<forall>e \<in> set (if_events d). ie_id e < if_next_event_id d \<and> ie_created_at e \<le> t
          \<and> (\<forall>e' \<in> set (if_events d). ie_id e \<le> ie_id e' \<longrightarrow> ie_created_at e \<le> ie_created_at e'))"

lemma event_log_table: "event_table d' = event_table d \<Longrightarrow> event_log t d' = event_log t d"
  by (simp add: event_log_def event_table_def)

lemma event_logD:
  assumes "event_log t d" "a \<in> set (if_events d)"
  shows "ie_id a < if_next_event_id d" "ie_created_at a \<le> t"
    and "b \<in> set (if_events d) \<Longrightarrow> ie_id a \<le> ie_id b \<Longrightarrow> ie_created_at a \<le> ie_created_at b"
  using assms unfolding event_log_def by blast+

lemma event_log_distinct: "event_log t d \<Longrightarrow> distinct (map ie_id (if_events d))"
  unfolding event_log_def by blast

lemma event_log_later:
  assumes "event_log t d" "t \<le> t'"
  shows "event_log t' d"
  unfolding event_log_def
proof (intro conjI ballI impI)
  fix e assume e: "e \<in> set (if_events d)"
  show "ie_created_at e \<le> t'" using event_logD(2) [OF assms(1) e] assms(2) by (rule order_trans)
qed (use assms(1) in \<open>simp_all only: event_logD event_log_distinct\<close>)

lemma event_log_add:
  assumes "event_log t d" "if_events d' = if_events d @ [e]" "if_next_event_id d' = if_next_event_id d + 1"
    "ie_id e = if_next_event_id d" "ie_created_at e = t"
  shows "event_log t d'"
proof -
  have before: "ie_id a < ie_id e \<and> ie_created_at a \<le> ie_created_at e" if "a \<in> set (if_events d)" for a
    using event_logD(1,2) [OF assms(1) that] assms(4,5) by simp
  have "ie_id e \<notin> ie_id ` set (if_events d)"
  proof
    assume "ie_id e \<in> ie_id ` set (if_events d)"
    then obtain a where "a \<in> set (if_events d)" "ie_id e = ie_id a" by (rule imageE)
    then show False using before [of a] by simp
  qed
  then have "distinct (map ie_id (if_events d'))" using event_log_distinct [OF assms(1)] assms(2) by simp
  moreover have "ie_id a < if_next_event_id d' \<and> ie_created_at a \<le> t \<and> (ie_id a \<le> ie_id b \<longrightarrow> ie_created_at a \<le> ie_created_at b)"
    if a: "a \<in> set (if_events d')" and b: "b \<in> set (if_events d')" for a b
  proof (cases "a \<in> set (if_events d)")
    case True
    then show ?thesis
      using event_logD(1,2) [OF assms(1) True] event_logD(3) [OF assms(1) True, of b] before [OF True] b assms(2-5)
      by (cases "b \<in> set (if_events d)") auto
  next
    case False
    then have "a = e" using a assms(2) by simp
    then show ?thesis using assms(2-5) b before [of b] by fastforce
  qed
  ultimately show ?thesis unfolding event_log_def by blast
qed

lemma event_log_item:
  assumes "event_log now (snd r)"
  shows "event_log now (snd (record_item w uid active known now it r))"
proof -
  obtain x d where r: "r = (x, d)" by fastforce
  show ?thesis
  proof (cases "event_table (snd (record_item w uid active known now it r)) = event_table d")
    case True
    then show ?thesis using assms event_log_table [OF True] r by simp
  next
    case False
    then obtain n aid where x: "x = Inr n" "fi_id it = Some aid"
      by (cases x; cases "fi_id it") (simp_all add: record_item_def r)
    let ?d' = "snd (record_item w uid active known now it r)"
    have "\<exists>e. if_events ?d' = if_events d @ [e] \<and> if_next_event_id ?d' = if_next_event_id d + 1
        \<and> ie_id e = if_next_event_id d \<and> ie_created_at e = now"
      using False by (simp add: r x record_item_def Let_def event_table_def split: if_splits)
    then show ?thesis using event_log_add [of now d ?d'] assms r by auto
  qed
qed

lemma event_log_record:
  assumes "event_log now d"
  shows "event_log now (snd (info_transaction (record_events w uid items sources now) d))"
proof -
  let ?known = "map snd (filter (\<lambda>b. fst b = uid) (if_baselines d))"
  have fold: "event_log now (snd (fold (record_item w uid sources ?known now) items r))" if "event_log now (snd r)" for r
    using that by (induction items arbitrary: r) (simp_all add: event_log_item)
  obtain res d1 where f: "fold (record_item w uid sources ?known now) items (Inr 0, d) = (res, d1)" by fastforce
  have d1: "event_log now d1" using fold [of "(Inr 0, d)"] assms by (simp add: f)
  have "event_table (snd (record_events w uid items sources now d)) = event_table d1"
    by (cases res) (simp_all add: record_events_def f event_table_def)
  from event_log_table [OF this] d1 have "event_log now (snd (record_events w uid items sources now d))" by simp
  then show ?thesis using assms by (auto simp: info_transaction_def split: prod.splits sum.splits)
qed

lemma event_log_op:
  assumes "\<And>t'. t \<le> t' \<Longrightarrow> event_log t' d" "\<forall>c \<in> set (op_clock op). t \<le> c" "t \<le> t'" "\<forall>c \<in> set (op_clock op). c \<le> t'"
  shows "event_log t' (exec_op op d)"
proof (cases op)
  case (RecordOp w uid items sources now)
  then have "event_log now d" "now \<le> t'" using assms by simp_all
  then show ?thesis using event_log_later [OF event_log_record] by (simp add: RecordOp)
qed (use assms(1) [OF assms(3)] event_log_table [OF events_of_op] in \<open>simp_all only: keeps_events_def info_op.case\<close>)

lemma event_log_run:
  assumes "if_events d = []" "sorted (clocks ops @ [now])"
  shows "event_log now (fold exec_op ops d)"
proof -
  obtain t where t: "sorted (t # clocks ops @ [now])" using sorted_clocks [OF assms(2)] by blast
  show ?thesis
  proof (rule timed_run [where Q = "\<lambda>_. True" and I = event_log, OF _ _ _ t])
    show "event_log t' (exec_op op d)"
      if "\<And>t'. t \<le> t' \<Longrightarrow> event_log t' d" "\<forall>c \<in> set (op_clock op). t \<le> c" "t \<le> t'" "\<forall>c \<in> set (op_clock op). c \<le> t'" for op d t t'
      using that by (rule event_log_op)
  qed (simp_all add: assms(1) event_log_def list_all_iff)
qed

text \<open>C8: From a database without events on, whatever runs, with a clock that does not go back, the run that
  is enqueued for a stored rule (of a positive batch count) takes the first of the events that match the
  rule at its cutoff, and afterwards the rule matches exactly the others, at any instant: no event is
  judged twice for an approval and none is lost.\<close>

theorem run_takes_the_first_events:
  assumes "if_events d0 = []" "sorted (clocks ops @ [now])" "d = fold exec_op ops d0"
    "lookup_row ir_id (ir_id row) (if_rules d) = Some row" "0 < tg_count (cf_trigger (ir_config row))"
    "enqueue_rule env row now d = (Inr (Some rid), d')"
  shows "\<exists>run row' cutoff n. run \<in> set (if_runs d') \<and> rn_id run = rid \<and> 0 < n
    \<and> rn_event_ids run = map ie_id (take n (matching_events row (ir_config row) cutoff d))
    \<and> lookup_row ir_id (ir_id row) (if_rules d') = Some row'
    \<and> (\<forall>t. matching_events row' (ir_config row) t d'
           = filter (\<lambda>e. ie_id e \<notin> set (rn_event_ids run)) (matching_events row (ir_config row) t d))"
proof -
  have "event_log now d" unfolding assms(3) using assms(1,2) by (rule event_log_run)
  then show ?thesis
    by (intro enqueued_run_takes_first [OF assms(4) _ _ assms(5,6)]) (blast intro: event_logD event_log_distinct)+
qed

subsection \<open>Witnesses\<close>

definition sample_feed_item :: feed_item where
  "sample_feed_item = \<lparr>fi_id = Some ''a'', fi_source_ids = [''s''], fi_source_id = None, fi_fingerprint = ''f''\<rparr>"

lemma articles_are_recorded_once_witness:
  fixes d :: info_db
  defines "d \<equiv> empty_info_db\<lparr>if_baselines := [(''u'', ''s'')]\<rparr>"
  shows "\<exists>d1 new d2. record_events ''w'' ''u'' [sample_feed_item, sample_feed_item] [''s'', ''t''] 3 d = (Inr 1, d1)
    \<and> if_events d1 = new \<and> map event_view new = [(''w'', ''u'', ''a'', [''s''], 3)]
    \<and> set (if_baselines d1) = {(''u'', ''s''), (''u'', ''t'')}
    \<and> record_events ''w'' ''u'' [sample_feed_item, sample_feed_item] [''s'', ''t''] 9 d1 = (Inr 0, d2)
    \<and> if_events d2 = if_events d1"
proof -
  let ?items = "[sample_feed_item, sample_feed_item]" and ?sources = "[''s'', ''t'']"
  obtain r d1 where r: "record_events ''w'' ''u'' ?items ?sources 3 d = (r, d1)" by fastforce
  have ok: "events_ok d" by (simp add: events_ok_def d_def empty_info_db_def)
  obtain new d2 where new: "r = Inr (length new)" "if_events d1 = if_events d @ new"
    "map event_view new = new_events ''w'' ''u'' d ?sources ?items 3"
    "set (if_baselines d1) = Pair ''u'' ` set ?sources \<union> set (if_baselines d)"
    "record_events ''w'' ''u'' ?items ?sources 9 d1 = (Inr 0, d2)" "if_events d2 = if_events d1"
    using articles_are_recorded_once [OF ok r, of 9] by blast
  have view: "new_events ''w'' ''u'' d ?sources ?items 3 = [(''w'', ''u'', ''a'', [''s''], 3)]"
    unfolding d_def by code_simp
  then have "length new = 1" using new(3) by (metis length_Cons length_map list.size(3) One_nat_def)
  moreover have "if_events d = []" "if_baselines d = [(''u'', ''s'')]" by (simp_all add: d_def empty_info_db_def)
  ultimately show ?thesis using r new view
    by (intro exI [of _ d1] exI [of _ new] exI [of _ d2]) (simp add: insert_commute)
qed

lemma interval_trigger_keeps_its_grid_witness:
  fixes t :: trigger
  defines "t \<equiv> sample_trigger\<lparr>tg_kind := IntervalTrigger\<rparr>"
  shows "\<exists>due. advance_due sample_info_env t 0 (seconds 10000) = Inr (Some due) \<and> seconds 10000 < due
    \<and> due \<le> seconds 10000 + seconds (tg_interval_seconds t) \<and> seconds (tg_interval_seconds t) dvd due - 0
    \<and> batch_cutoff sample_info_env t (Some 0) (seconds 10000) = Inr (due - seconds (tg_interval_seconds t))"
  by (rule interval_trigger_keeps_its_grid) (simp_all add: t_def sample_trigger_def seconds_def)

definition sample_event_db :: info_db where
  "sample_event_db = empty_info_db\<lparr>if_rules := [sample_rule], if_baselines := [(''u'', ''s'')]\<rparr>"

definition sample_event_ops :: "info_op list" where
  "sample_event_ops = [RecordOp ''w'' ''u'' [sample_feed_item] [''s''] 1,
     RecordOp ''w'' ''u'' [sample_feed_item\<lparr>fi_id := Some ''b'', fi_fingerprint := ''g''\<rparr>] [''s''] 2]"

lemma sample_enqueued:
  "fst (enqueue_rule sample_info_env sample_rule 5 (fold exec_op sample_event_ops sample_event_db)) = Inr (Some ''iarun_'')"
  by code_simp

lemma run_takes_the_first_events_witness:
  fixes d :: info_db
  defines "d \<equiv> fold exec_op sample_event_ops sample_event_db"
  shows "\<exists>d'. enqueue_rule sample_info_env sample_rule 5 d = (Inr (Some ''iarun_''), d')
    \<and> (\<exists>run row' cutoff n. run \<in> set (if_runs d') \<and> rn_id run = ''iarun_'' \<and> 0 < n
      \<and> rn_event_ids run = map ie_id (take n (matching_events sample_rule (ir_config sample_rule) cutoff d))
      \<and> lookup_row ir_id (ir_id sample_rule) (if_rules d') = Some row'
      \<and> (\<forall>t. matching_events row' (ir_config sample_rule) t d'
             = filter (\<lambda>e. ie_id e \<notin> set (rn_event_ids run)) (matching_events sample_rule (ir_config sample_rule) t d)))"
proof -
  obtain d' where d': "enqueue_rule sample_info_env sample_rule 5 d = (Inr (Some ''iarun_''), d')"
    using sample_enqueued unfolding d_def [symmetric] by (cases "enqueue_rule sample_info_env sample_rule 5 d") auto
  have dd: "d = fold exec_op sample_event_ops sample_event_db" by (simp add: d_def)
  have rules: "if_rules d = [sample_rule]"
    by (simp add: d_def sample_event_ops_def sample_event_db_def info_transaction_def record_events_def record_item_def Let_def
        empty_info_db_def sample_feed_item_def item_sources_def)
  have "if_events sample_event_db = []" "sorted (clocks sample_event_ops @ [5])"
    "lookup_row ir_id (ir_id sample_rule) (if_rules d) = Some sample_rule" "0 < tg_count (cf_trigger (ir_config sample_rule))"
    by (simp_all add: rules sample_event_db_def empty_info_db_def lookup_row_def sample_event_ops_def clocks_def
        sample_rule_def sample_config_def sample_trigger_def)
  then show ?thesis
    by (intro exI [of _ d'] conjI run_takes_the_first_events [OF _ _ dd _ _ d'] d')
qed

end
