(* ===== verification/InfoRequests.thy ===== *)
theory InfoRequests
  imports InfoColumns
begin

section \<open>Requests: a test is started once, a refresh is asked once\<close>

text \<open>
  The requests of the browser are idempotent.  The number of a request for a test names one preview
  for ever, whose notification is handed over at most once; and a connector never has two refresh
  requests to answer.
\<close>

subsection \<open>The notification of a test\<close>

text \<open>C14: The notification of a test is handed to its transport at most once: after a claim
  succeeded, no sequence of operations makes the claim hand it over again.\<close>

theorem preview_notice_is_sent_once:
  assumes "runs_ok d" "preview_claim env pid now limit d = (Inr (Some x), d1)"
  shows "preview_claim env' pid now' limit' (fold exec_op ops d1) = (Inr None, fold exec_op ops d1)"
proof -
  have "evolves d d1" using evolves_preview_claim [of d env pid now limit] assms(2) by simp
  then have ok1: "runs_ok d1" using assms(1) by (simp add: evolves_def)
  obtain a where a: "a \<in> set (if_notices d1)" "pn_preview_id a = pid" "handed (pn_status a)"
    using preview_claim_hands_over [OF assms(2)] by blast
  have "evolves d1 (fold exec_op ops d1)" by (rule runs.run_moves)
  with ok1 a(1) obtain b where "runs_ok (fold exec_op ops d1)" "b \<in> set (if_notices (fold exec_op ops d1))" "notice_step a b"
    unfolding evolves_def by blast
  then show ?thesis using a(2,3) by (intro handed_notice_is_not_claimed [of _ b]) (auto simp: notice_step_def)
qed

subsection \<open>Request numbers\<close>

definition requests_grow :: "info_db \<Rightarrow> info_db \<Rightarrow> bool" where
  "requests_grow d d' \<longleftrightarrow> (\<exists>rs. if_preview_requests d' = if_preview_requests d @ rs)"

lemma requests_grow_refl [simp]: "if_preview_requests d' = if_preview_requests d \<Longrightarrow> requests_grow d d'"
  by (simp add: requests_grow_def)

lemma requests_grow_trans: "requests_grow d d1 \<Longrightarrow> requests_grow d1 d2 \<Longrightarrow> requests_grow d d2"
  by (auto simp: requests_grow_def)

lemma requests_grow_remember [simp]:
  "requests_grow d (snd (remember uid i dg pid d))" "requests_grow d (snd (existing uid i dg d))"
proof -
  show "requests_grow d (snd (remember uid i dg pid d))" for pid
    by (simp add: remember_def requests_grow_def split: option.split)
  then show "requests_grow d (snd (existing uid i dg d))"
    using existing_cases [of uid i dg d] by (metis requests_grow_refl)
qed

lemma requests_grow_branches:
  "(\<And>a. requests_grow d (snd (f a))) \<Longrightarrow> (\<And>b. requests_grow d (snd (g b))) \<Longrightarrow> requests_grow d (snd (case_sum f g x))"
  "requests_grow d (snd y) \<Longrightarrow> (\<And>z. requests_grow d (snd (h z))) \<Longrightarrow> requests_grow d (snd (case_option y h p))"
  "requests_grow d (snd v) \<Longrightarrow> requests_grow d (snd w) \<Longrightarrow> requests_grow d (snd (if b then v else w))"
  by (simp_all split: sum.split option.split)

lemma requests_grow_transaction:
  "requests_grow d (snd (body d)) \<Longrightarrow> requests_grow d (snd (info_transaction body d))"
  by (auto simp: info_transaction_def split: prod.splits sum.splits)

lemma requests_grow_preview_body: "requests_grow d (snd (preview_body env pl now d))"
proof -
  have draw: "requests_grow d (snd (draw d))" by (simp add: column_frame)
  have ex: "requests_grow d (snd (existing uid i dg (snd (draw d))))" for uid i dg
    by (rule requests_grow_trans [OF draw requests_grow_remember(2)])
  have co: "requests_grow d (snd (confirm uid row ids pid dg' (snd (existing uid i dg (snd (draw d))))))"
    for uid row ids pid dg' i dg
    by (rule requests_grow_trans [OF ex requests_grow_refl]) (simp add: column_frame)
  have re: "requests_grow d (snd (remember uid' i' dg'' pid' (insert_preview env pl pid'' b now
      (snd (confirm uid row ids pid dg' (snd (existing uid i dg (snd (draw d)))))))))"
    for uid' i' dg'' pid' pid'' b uid row ids pid dg' i dg
    by (rule requests_grow_trans [OF requests_grow_trans [OF co requests_grow_refl] requests_grow_remember(1)])
      (simp add: column_frame)
  show ?thesis
    unfolding preview_body_def Let_def prod.case_eq_if
    by (intro requests_grow_branches) (simp_all add: draw ex co re)
qed

lemma requests_grow_exec: "requests_grow d (exec_op op d)"
proof (cases "keeps_requests op")
  case True
  then show ?thesis by (simp add: requests_of_op)
next
  case False
  have "requests_grow d (snd (reuse_preview uid i dg d))" for uid i dg
    unfolding reuse_preview_def by (rule requests_grow_transaction) simp
  moreover have "requests_grow d (snd (store_preview env pl now d))" for env pl now
    unfolding store_preview_def by (rule requests_grow_transaction) (rule requests_grow_preview_body)
  ultimately show ?thesis using False by (cases op) (simp_all add: keeps_requests_def)
qed

interpretation requests: operations exec_op requests_grow
  by unfold_locales (auto intro: requests_grow_trans requests_grow_exec)

text \<open>What a request number names.\<close>

definition names_preview :: "string \<Rightarrow> string \<Rightarrow> string \<Rightarrow> info_db \<Rightarrow> bool" where
  "names_preview uid i pid d \<longleftrightarrow> map_option pr_preview_id (find_request uid (Some i) d) = Some pid"

lemma find_append_Some: "find P xs = Some x \<Longrightarrow> find P (xs @ ys) = Some x"
  by (induction xs) (auto split: if_splits)

lemma names_preview_grow:
  assumes "names_preview uid i pid d" "requests_grow d d'"
  shows "names_preview uid i pid d'"
  using assms by (auto simp: names_preview_def find_request_def requests_grow_def find_append_Some split: if_splits)

lemma remember_names:
  assumes "remember uid (Some i) dg pid d = (Inr u, d1)" "i \<noteq> []"
  shows "names_preview uid i pid d1"
proof -
  have "find (\<lambda>r. pr_user_id r = uid \<and> pr_request_id r = i)
      (xs @ [\<lparr>pr_user_id = uid, pr_request_id = i, pr_fingerprint = dg, pr_preview_id = pid\<rparr>])
    = Some \<lparr>pr_user_id = uid, pr_request_id = i, pr_fingerprint = dg, pr_preview_id = pid\<rparr>"
    if "find (\<lambda>r. pr_user_id r = uid \<and> pr_request_id r = i) xs = None" for xs
    using that by (induction xs) (auto split: if_splits)
  then show ?thesis using assms
    by (auto simp: remember_def names_preview_def find_request_def split: if_splits)
qed

lemma existing_names:
  assumes "existing uid (Some i) dg d = (Inr (Some pid), d1)" "i \<noteq> []"
  shows "names_preview uid i pid d1"
  using assms remember_names [OF _ assms(2)]
  by (auto simp: existing_def names_preview_def split: option.splits prod.splits sum.splits if_splits)

lemma preview_body_names:
  assumes "preview_body env pl now d0 = (Inr pid, d1)" "pq_request_id pl = Some i" "i \<noteq> []"
  shows "names_preview (u_id (pq_user pl)) i pid d1"
proof -
  have "existing (u_id (pq_user pl)) (Some i) (pq_digest pl) (snd (draw d0)) = (Inr (Some pid), d1)
      \<or> (\<exists>d3 u. remember (u_id (pq_user pl)) (Some i) (pq_digest pl) pid d3 = (Inr u, d1))"
    using assms(1) unfolding preview_body_def Let_def assms(2)
    by (auto split: prod.splits sum.splits option.splits if_splits)
  then show ?thesis using existing_names remember_names assms(3) by blast
qed

lemma create_preview_names:
  assumes "create_preview env u row ids (Some i) send target custom now d = (Inr pid, d1)" "i \<noteq> []"
  shows "names_preview (u_id u) i pid d1"
proof -
  have "(\<exists>dg. existing (u_id u) (Some i) dg d = (Inr (Some pid), d1))
      \<or> (\<exists>pl d0. u_id (pq_user pl) = u_id u \<and> pq_request_id pl = Some i \<and> preview_body env pl now d0 = (Inr pid, d1))"
    using assms(1) unfolding create_preview_def Let_def
    by (auto simp: reuse_preview_def store_preview_def split: prod.splits sum.splits option.splits if_splits
        dest!: info_transaction_Inr)
  then show ?thesis using existing_names preview_body_names assms(2) by metis
qed

text \<open>C6: The number of a request names one test for ever: when a request for a test was answered, every
  later request of the user with that number, for whatever rule, version or articles, changes
  nothing, and its answer, when it is no error, is the same test.\<close>

theorem repeated_test_creates_nothing:
  assumes "\<And>u. en_users env uid = Some u \<Longrightarrow> u_id u = uid"
    "test_rule env uid rid version ids (Some i) send target custom now d = (Inr pid, d1)" "i \<noteq> []"
    "test_rule env' uid rid' version' ids' (Some i) send' target' custom' now' (fold exec_op ops d1) = (r, d2)"
  shows "d2 = fold exec_op ops d1 \<and> (\<forall>pid'. r = Inr pid' \<longrightarrow> pid' = pid)"
proof -
  obtain u where u: "actor env uid False = Inr u"
    using assms(2) by (cases "actor env uid False") (simp_all add: test_rule_def)
  then have "u_id u = uid" using assms(1) by (auto simp: actor_def split: option.splits if_splits)
  then have "names_preview uid i pid d1"
    using assms(2) create_preview_names [OF _ assms(3)] unfolding test_rule_def u Let_def
    by (auto simp: request_preview_def names_preview_def split: sum.splits option.splits if_splits)
  then have "names_preview uid i pid (fold exec_op ops d1)"
    using requests.run_moves names_preview_grow by blast
  then show ?thesis using assms(4)
    by (auto simp: test_rule_def request_preview_def names_preview_def Let_def split: sum.splits option.splits if_splits)
qed

subsection \<open>Refresh requests\<close>

definition of_connector :: "string \<Rightarrow> int \<Rightarrow> refresh_request \<Rightarrow> bool" where
  "of_connector b g r \<longleftrightarrow> rf_binding_id r = b \<and> rf_generation r = g"

definition answered :: "refresh_request list \<Rightarrow> bool" where
  "answered rs \<longleftrightarrow> list_all (\<lambda>r. rf_status r \<noteq> RefreshPending) rs"

definition refreshes_ok :: "info_db \<Rightarrow> bool" where
  "refreshes_ok d \<longleftrightarrow> (\<forall>b g. answered (butlast (filter (of_connector b g) (if_refreshes d))))"

definition refreshes_move :: "info_db \<Rightarrow> info_db \<Rightarrow> bool" where
  "refreshes_move d d' \<longleftrightarrow> (refreshes_ok d \<longrightarrow> refreshes_ok d')"

text \<open>A statement that answers a request.\<close>

definition answers :: "(refresh_request \<Rightarrow> refresh_request) \<Rightarrow> bool" where
  "answers f \<longleftrightarrow> (\<forall>r. rf_binding_id (f r) = rf_binding_id r \<and> rf_generation (f r) = rf_generation r
     \<and> rf_status (f r) \<noteq> RefreshPending)"

lemma filter_update_refresh:
  assumes "answers f"
  shows "filter (of_connector b g) (if_refreshes (update_refresh i f d))
    = map (\<lambda>r. if rf_id r = i then f r else r) (filter (of_connector b g) (if_refreshes d))"
proof -
  have "filter (of_connector b g) (map (\<lambda>r. if rf_id r = i then f r else r) xs)
    = map (\<lambda>r. if rf_id r = i then f r else r) (filter (of_connector b g) xs)" for xs
    using assms by (induction xs) (auto simp: answers_def of_connector_def)
  then show ?thesis by (simp add: update_refresh_def update_where_def)
qed

lemma answered_map: "answers f \<Longrightarrow> answered rs \<Longrightarrow> answered (map (\<lambda>r. if rf_id r = i then f r else r) rs)"
  by (auto simp: answered_def answers_def list_all_iff)

lemma answered_last:
  assumes "answered (butlast rs)" "rs \<noteq> []"
  shows "answers f \<Longrightarrow> answered (map (\<lambda>r. if rf_id r = rf_id (last rs) then f r else r) rs)"
    and "rf_status (last rs) \<noteq> RefreshPending \<Longrightarrow> answered rs"
proof -
  obtain ys y where rs: "rs = ys @ [y]" using assms(2) by (metis append_butlast_last_id)
  then have ys: "answered ys" using assms(1) by simp
  show "answered (map (\<lambda>r. if rf_id r = rf_id (last rs) then f r else r) rs)" if f: "answers f"
    using answered_map [OF f ys, of "rf_id y"] f by (simp add: rs answered_def answers_def)
  show "answered rs" if "rf_status (last rs) \<noteq> RefreshPending"
    using ys that by (simp add: rs answered_def)
qed

lemma refreshes_ok_update:
  assumes "answers f" "refreshes_ok d"
  shows "refreshes_ok (update_refresh i f d)"
  using assms(2) answered_map [OF assms(1)]
  unfolding refreshes_ok_def filter_update_refresh [OF assms(1)] map_butlast [symmetric] by blast

lemma latest_refresh_last:
  assumes "lookup_row cn_binding_id b (if_connectors d) = Some c"
  defines "rs \<equiv> filter (of_connector b (cn_generation c)) (if_refreshes d)"
  shows "latest_refresh b d = (if rs = [] then None else Some (last rs))"
proof -
  have "find P (rev xs) = (if filter P xs = [] then None else Some (last (filter P xs)))"
    for P and xs :: "refresh_request list"
    by (induction xs rule: rev_induct) auto
  then show ?thesis by (simp add: latest_refresh_def assms of_connector_def [abs_def])
qed

text \<open>A new request first answers the open one, when there is one.\<close>

lemma refreshes_move_request: "refreshes_move d (snd (request_refresh b now d))"
  unfolding refreshes_move_def
proof
  assume ok: "refreshes_ok d"
  show "refreshes_ok (snd (request_refresh b now d))"
  proof (cases "lookup_row cn_binding_id b (if_connectors d)")
    case None
    then show ?thesis using ok by (simp add: request_refresh_def)
  next
    case (Some c)
    let ?f = "\<lambda>r. r\<lparr>rf_status := RefreshFailed, rf_reason := Some ''refresh_timeout'', rf_completed_at := Some now\<rparr>"
    let ?rs = "filter (of_connector b (cn_generation c)) (if_refreshes d)"
    define d' where "d' = (case latest_refresh b d of None \<Rightarrow> d
       | Some p \<Rightarrow> if rf_status p = RefreshPending then update_refresh (rf_id p) ?f d else d)"
    have f: "answers ?f" by (simp add: answers_def)
    have ok': "refreshes_ok d'"
      using ok refreshes_ok_update [OF f ok] by (simp add: d'_def split: option.split)
    have rs: "answered (butlast ?rs)" using ok by (simp add: refreshes_ok_def)
    have "answered (filter (of_connector b (cn_generation c)) (if_refreshes d'))"
    proof (cases "?rs = []")
      case True
      then show ?thesis by (simp add: d'_def latest_refresh_last [OF Some] answered_def)
    next
      case False
      with f answered_last [OF rs False] show ?thesis
        by (simp add: d'_def latest_refresh_last [OF Some] filter_update_refresh [OF f] del: map_eq_conv)
    qed
    then have "refreshes_ok (d'\<lparr>if_drawn := k, if_refreshes := if_refreshes d' @ [r]\<rparr>)"
      if "rf_binding_id r = b" "rf_generation r = cn_generation c" for k r
      using ok' that by (auto simp: refreshes_ok_def of_connector_def)
    then show ?thesis using ok
      by (auto simp: request_refresh_def Some Let_def draw_def d'_def [symmetric])
  qed
qed

lemma refreshes_move_cong: "if_refreshes d' = if_refreshes d \<Longrightarrow> refreshes_move d d'"
  by (simp add: refreshes_move_def refreshes_ok_def)

lemma refreshes_move_trans: "refreshes_move d d1 \<Longrightarrow> refreshes_move d1 d2 \<Longrightarrow> refreshes_move d d2"
  by (simp add: refreshes_move_def)

lemma refreshes_move_update [simp]: "answers f \<Longrightarrow> refreshes_move d (update_refresh i f d)"
  by (simp add: refreshes_move_def refreshes_ok_update)

lemma refreshes_move_acknowledge: "refreshes_move d (acknowledge m i now changed d)"
proof -
  have "refreshes_move d ((update_refresh j f d)\<lparr>if_catalogs := cs\<rparr>)" if "answers f" for j f cs
    by (rule refreshes_move_trans [OF refreshes_move_update [OF that] refreshes_move_cong]) simp
  then show ?thesis
    by (simp add: acknowledge_def Let_def answers_def refreshes_move_cong split: option.split)
qed

lemma refreshes_move_sync: "refreshes_move d (snd (sync_catalog m caps now verified d))"
proof -
  have up: "refreshes_move d (attest m mode now fs bl (upsert_catalog m models d))" for mode fs bl models
    by (rule refreshes_move_cong) (simp add: column_frame)
  have "refreshes_move d (verify_connector m now (acknowledge m i now ch (attest m mode now fs bl (upsert_catalog m models d))))"
    for i ch mode fs bl models
    by (rule refreshes_move_trans [OF refreshes_move_trans [OF up refreshes_move_acknowledge] refreshes_move_cong])
      (simp add: column_frame)
  then have "refreshes_move d (snd (sync_body m caps models now verified d))" for models
    by (auto simp: sync_body_def Let_def column_frame intro: refreshes_move_cong split: option.split)
  then show ?thesis
    by (auto simp: sync_catalog_def Let_def info_transaction_def refreshes_move_cong split: prod.splits sum.splits)
      (metis snd_conv)+
qed

lemma refreshes_move_exec: "refreshes_move d (exec_op op d)"
proof (cases "keeps_refreshes op")
  case True
  then show ?thesis by (simp add: refreshes_of_op refreshes_move_cong)
next
  case False
  moreover have "refreshes_move d (fail_refresh m i now d)" for m i now
    by (simp add: fail_refresh_def answers_def refreshes_move_cong split: option.split)
  ultimately show ?thesis
    using refreshes_move_request refreshes_move_sync by (cases op) (simp_all add: keeps_refreshes_def)
qed

interpretation refreshes: operations exec_op refreshes_move
  by unfold_locales (auto intro: refreshes_move_trans refreshes_move_exec refreshes_move_cong)

text \<open>C20: A connector never has two refresh requests to answer: the browser may ask again at any moment,
  the connector may answer, fail or be provisioned anew, in any order.\<close>

theorem one_pending_refresh:
  assumes "if_refreshes d = []"
  shows "length (filter (\<lambda>r. of_connector b g r \<and> rf_status r = RefreshPending) (if_refreshes (fold exec_op ops d))) \<le> 1"
proof -
  have "refreshes_ok d" using assms by (simp add: refreshes_ok_def answered_def)
  then have "refreshes_ok (fold exec_op ops d)"
    using refreshes.run_moves [of d ops] by (simp add: refreshes_move_def)
  then have ans: "answered (butlast (filter (of_connector b g) (if_refreshes (fold exec_op ops d))))"
    by (simp add: refreshes_ok_def)
  have "length (filter (\<lambda>r. rf_status r = RefreshPending) rs) \<le> 1" if "answered (butlast rs)" for rs
    using that by (induction rs rule: rev_induct) (auto simp: answered_def list_all_iff filter_empty_conv)
  from this [OF ans] show ?thesis by (simp add: conj_commute)
qed

subsection \<open>Witnesses\<close>

definition sample_ready_db :: info_db where
  "sample_ready_db = empty_info_db\<lparr>if_rules := [sample_rule], if_rule_versions := [(''iar_1'', 1, sample_config)],
     if_connectors := [\<lparr>cn_binding_id = ''0123456789abcdef0123456789abcdef'', cn_user_id = ''u'', cn_token_hash = ''k'',
       cn_generation = 1, cn_enabled = True, cn_verified_at = Some 7, cn_last_seen = Some 8\<rparr>],
     if_executions := [\<lparr>ex_binding_id = ''0123456789abcdef0123456789abcdef'', ex_generation = 1, ex_mode = ''full'',
       ex_updated_at = 8, ex_filtered = [], ex_runtime_block = None\<rparr>],
     if_catalogs := [\<lparr>mc_binding_id = ''0123456789abcdef0123456789abcdef'', mc_generation = 1,
       mc_models = [\<lparr>am_id = ''m'', am_name = ''m'', am_thinking_levels = []\<rparr>], mc_blocked = []\<rparr>]\<rparr>"

definition sample_noticed_db :: info_db where
  "sample_noticed_db = sample_ready_db\<lparr>
     if_previews := [\<lparr>pv_id = ''iapreview_'', pv_rule_id = ''iar_1'', pv_user_id = ''u'', pv_version = 1,
       pv_binding_id = ''0123456789abcdef0123456789abcdef'', pv_input = [sample_item], pv_status = CompletedWork,
       pv_reason = None, pv_claim_hash = None, pv_attempts = 1, pv_ready_at = 0, pv_created_at = 0\<rparr>],
     if_confirmations := [\<lparr>pc_preview_id = ''iapreview_'', pc_fingerprint = ''f'', pc_superseded_by = None\<rparr>],
     if_notices := [\<lparr>pn_preview_id = ''iapreview_'', pn_target_id = ''t'', pn_target_generation = 1,
       pn_target_activation = 1, pn_status = NoticePending, pn_reason = None, pn_delivery_started_at = None,
       pn_ready_at = None, pn_created_at = 0\<rparr>],
     if_batches := [\<lparr>ba_id = ''iabatch_x'', ba_run_id = None, ba_preview_id = Some ''iapreview_'',
       ba_result = Some \<lparr>br_status = ''matched'', br_summary = ''s'', br_reason = ''r'', br_covered_ids = [''a:0''],
         br_evidence = [\<lparr>ev_article_id = ''a'', ev_quote = ''hello'', ev_note = ''n''\<rparr>]\<rparr>, ba_created_at = 0\<rparr>],
     if_drawn := 2\<rparr>"

lemma sample_noticed_ok: "runs_ok sample_noticed_db"
  using inj_sample_ids
  by (auto simp: runs_ok_def sample_noticed_db_def sample_ready_db_def empty_info_db_def drawn_ids_def
      sample_ids_def image_iff intro: bexI [of _ 0] bexI [of _ 1])

lemma sample_notice_claimed:
  "\<exists>x d1. preview_claim sample_info_env ''iapreview_'' 9 5 sample_noticed_db = (Inr (Some x), d1)"
proof -
  have "(case fst (preview_claim sample_info_env ''iapreview_'' 9 5 sample_noticed_db) of
      Inr (Some _) \<Rightarrow> True | _ \<Rightarrow> False)" by code_simp
  then show ?thesis by (auto simp: prod_eq_iff split: sum.splits option.splits)
qed

lemma preview_notice_is_sent_once_witness:
  "\<exists>x d1. preview_claim sample_info_env ''iapreview_'' 9 5 sample_noticed_db = (Inr (Some x), d1)
    \<and> preview_claim sample_info_env ''iapreview_'' 700 5 (fold exec_op [PreviewSweepOp 650] d1)
      = (Inr None, fold exec_op [PreviewSweepOp 650] d1)"
proof -
  obtain x d1 where x: "preview_claim sample_info_env ''iapreview_'' 9 5 sample_noticed_db = (Inr (Some x), d1)"
    using sample_notice_claimed by blast
  show ?thesis using x preview_notice_is_sent_once [OF sample_noticed_ok x] by blast
qed

lemma sample_tested:
  "fst (test_rule sample_info_env ''u'' ''iar_1'' 1 [] (Some ''n1'') False None (Some sample_item) 9 sample_ready_db)
    = Inr ''iapreview_''"
  by code_simp

lemma repeated_test_creates_nothing_witness:
  "\<exists>d1 r d2. test_rule sample_info_env ''u'' ''iar_1'' 1 [] (Some ''n1'') False None (Some sample_item) 9 sample_ready_db
      = (Inr ''iapreview_'', d1)
    \<and> test_rule sample_info_env ''u'' ''iar_1'' 1 [''b''] (Some ''n1'') True None None 20 (fold exec_op [MaintainOp 15] d1) = (r, d2)
    \<and> (d2 = fold exec_op [MaintainOp 15] d1 \<and> (\<forall>pid'. r = Inr pid' \<longrightarrow> pid' = ''iapreview_''))"
proof -
  let ?t = "test_rule sample_info_env ''u'' ''iar_1'' 1 [] (Some ''n1'') False None (Some sample_item) 9 sample_ready_db"
  obtain d1 where d1: "?t = (Inr ''iapreview_'', d1)" using sample_tested by (cases ?t) auto
  obtain r d2 where r: "test_rule sample_info_env ''u'' ''iar_1'' 1 [''b''] (Some ''n1'') True None None 20
      (fold exec_op [MaintainOp 15] d1) = (r, d2)" by fastforce
  have "u_id u = ''u''" if "en_users sample_info_env ''u'' = Some u" for u
    using that by (auto simp: sample_info_env_def)
  from repeated_test_creates_nothing [OF this d1 _ r] d1 r show ?thesis by blast
qed

lemma one_pending_refresh_witness:
  "length (filter (\<lambda>r. of_connector ''0123456789abcdef0123456789abcdef'' 1 r \<and> rf_status r = RefreshPending)
    (if_refreshes (fold exec_op [RefreshOp ''0123456789abcdef0123456789abcdef'' 10,
       RefreshOp ''0123456789abcdef0123456789abcdef'' 20, RefreshOp ''0123456789abcdef0123456789abcdef'' 200000000]
       sample_ready_db))) \<le> 1"
  by (rule one_pending_refresh) (simp add: sample_ready_db_def empty_info_db_def)

end
