(* ===== verification/IsoTime.thy ===== *)
theory IsoTime
  imports Prelude
begin

section \<open>Stored timestamps and instants\<close>

text \<open>
  \<open>utc_now\<close> of \<open>src/src/storage/service_store.py\<close> stores an instant as the text
  \<open>datetime.isoformat\<close> gives for it in UTC, and the statements compare these texts.  This theory
  shows that the comparison of two texts is the comparison of the two instants, so that the other
  theories may keep an instant as a number of microseconds.  The calendar is the proleptic
  Gregorian one of the Python library; the microseconds are printed only when there are some.
\<close>

subsection \<open>Calendar\<close>

record civil =
  cv_year :: nat
  cv_month :: nat
  cv_day :: nat
  cv_hour :: nat
  cv_minute :: nat
  cv_second :: nat
  cv_micro :: nat

definition leap :: "nat \<Rightarrow> bool" where
  "leap y \<longleftrightarrow> y mod 4 = 0 \<and> (y mod 100 \<noteq> 0 \<or> y mod 400 = 0)"

definition days_in_month :: "nat \<Rightarrow> nat \<Rightarrow> nat" where
  "days_in_month y m =
     (if m = 2 then (if leap y then 29 else 28) else if m \<in> {4, 6, 9, 11} then 30 else 31)"

definition days_before_year :: "nat \<Rightarrow> nat" where
  "days_before_year y = (y - 1) * 365 + (y - 1) div 4 - (y - 1) div 100 + (y - 1) div 400"

fun days_before_month :: "nat \<Rightarrow> nat \<Rightarrow> nat" where
  "days_before_month y 0 = 0"
| "days_before_month y (Suc 0) = 0"
| "days_before_month y (Suc (Suc m)) = days_before_month y (Suc m) + days_in_month y (Suc m)"

definition civil_ok :: "civil \<Rightarrow> bool" where
  "civil_ok c \<longleftrightarrow>
     1 \<le> cv_year c \<and> cv_year c \<le> 9999 \<and> 1 \<le> cv_month c \<and> cv_month c \<le> 12
     \<and> 1 \<le> cv_day c \<and> cv_day c \<le> days_in_month (cv_year c) (cv_month c)
     \<and> cv_hour c < 24 \<and> cv_minute c < 60 \<and> cv_second c < 60 \<and> cv_micro c < 1000000"

definition ordinal :: "civil \<Rightarrow> nat" where
  "ordinal c = days_before_year (cv_year c) + days_before_month (cv_year c) (cv_month c) + cv_day c"

text \<open>Microseconds since the epoch, day 719163 of the calendar.\<close>

definition instant :: "civil \<Rightarrow> int" where
  "instant c =
     int ((((ordinal c * 24 + cv_hour c) * 60 + cv_minute c) * 60 + cv_second c) * 1000000 + cv_micro c)
     - 719163 * 24 * 60 * 60 * 1000000"

subsection \<open>Text\<close>

fun pad :: "nat \<Rightarrow> nat \<Rightarrow> string" where
  "pad 0 n = []"
| "pad (Suc k) n = pad k (n div 10) @ [char_of (48 + n mod 10)]"

definition isoformat :: "civil \<Rightarrow> string" where
  "isoformat c =
     pad 4 (cv_year c) @ ''-'' @ pad 2 (cv_month c) @ ''-'' @ pad 2 (cv_day c) @ ''T''
     @ pad 2 (cv_hour c) @ '':'' @ pad 2 (cv_minute c) @ '':'' @ pad 2 (cv_second c)
     @ (if cv_micro c = 0 then [] else ''.'' @ pad 6 (cv_micro c)) @ ''+00:00''"

definition civil_key :: "civil \<Rightarrow> nat \<times> nat \<times> nat \<times> nat \<times> nat \<times> nat \<times> nat" where
  "civil_key c =
     (cv_year c, cv_month c, cv_day c, cv_hour c, cv_minute c, cv_second c, cv_micro c)"

subsection \<open>The text order is the lexicographic order of the fields\<close>

lemma length_pad [simp]: "length (pad k n) = k"
  by (induction k n rule: pad.induct) auto

lemma append_less_append:
  fixes xs ys us vs :: "'a::linorder list"
  assumes "length xs = length ys"
  shows "xs @ us < ys @ vs \<longleftrightarrow> xs < ys \<or> (xs = ys \<and> us < vs)"
  using assms by (induction xs ys rule: list_induct2) auto

lemma digit_less [simp]:
  "(char_of (48 + a mod 10 :: nat) :: char) < char_of (48 + b mod 10 :: nat) \<longleftrightarrow> a mod 10 < b mod 10"
  by (simp add: less_char_def mod_less)

lemma digit_eq [simp]:
  "(char_of (48 + a mod 10 :: nat) :: char) = char_of (48 + b mod 10 :: nat) \<longleftrightarrow> a mod 10 = b mod 10"
proof
  assume "(char_of (48 + a mod 10 :: nat) :: char) = char_of (48 + b mod 10 :: nat)"
  then have "(of_char (char_of (48 + a mod 10 :: nat) :: char) :: nat)
    = of_char (char_of (48 + b mod 10 :: nat) :: char)" by simp
  then show "a mod 10 = b mod 10" by (simp add: mod_less)
qed simp

lemma mixed_radix_less:
  fixes q q' r r' B :: nat
  assumes "r < B" "r' < B"
  shows "q * B + r < q' * B + r' \<longleftrightarrow> q < q' \<or> (q = q' \<and> r < r')"
proof (cases q q' rule: linorder_cases)
  case less
  then have "Suc q * B \<le> q' * B" by (intro mult_le_mono1) simp
  with assms less show ?thesis by simp
next
  case greater
  then have "Suc q' * B \<le> q * B" by (intro mult_le_mono1) simp
  with assms greater show ?thesis by simp
qed simp

lemma mixed_radix_eq:
  fixes q q' r r' B :: nat
  assumes "r < B" "r' < B"
  shows "q * B + r = q' * B + r' \<longleftrightarrow> q = q' \<and> r = r'"
  using mixed_radix_less [OF assms, of q q'] mixed_radix_less [OF assms(2,1), of q' q]
  by (metis less_irrefl linorder_neqE_nat)

lemma pad_eq:
  assumes "a < 10 ^ k" "b < 10 ^ k"
  shows "pad k a = pad k b \<longleftrightarrow> a = b"
  using assms
proof (induction k arbitrary: a b)
  case (Suc k)
  then have "a div 10 < 10 ^ k" "b div 10 < 10 ^ k" by (auto simp: less_mult_imp_div_less mult.commute)
  with Suc.IH [of "a div 10" "b div 10"] show ?case
    by (auto simp del: One_nat_def) (metis div_mult_mod_eq)
qed simp

lemma pad_less:
  assumes "a < 10 ^ k" "b < 10 ^ k"
  shows "pad k a < pad k b \<longleftrightarrow> a < b"
  using assms
proof (induction k arbitrary: a b)
  case (Suc k)
  then have d: "a div 10 < 10 ^ k" "b div 10 < 10 ^ k" by (auto simp: less_mult_imp_div_less mult.commute)
  have "a < b \<longleftrightarrow> a div 10 * 10 + a mod 10 < b div 10 * 10 + b mod 10" by simp
  also have "\<dots> \<longleftrightarrow> a div 10 < b div 10 \<or> (a div 10 = b div 10 \<and> a mod 10 < b mod 10)"
    by (intro mixed_radix_less) simp_all
  finally show ?case using Suc.IH [OF d] pad_eq [OF d] by (simp add: append_less_append)
qed simp

lemma pad_append_less:
  assumes "a < 10 ^ k" "b < 10 ^ k"
  shows "pad k a @ us < pad k b @ vs \<longleftrightarrow> a < b \<or> (a = b \<and> us < vs)"
  using pad_less [OF assms] pad_eq [OF assms] by (simp add: append_less_append)

lemma micro_text_less:
  assumes "a < 1000000" "b < 1000000"
  shows "(if a = 0 then [] else ''.'' @ pad 6 a) @ ''+00:00''
       < (if b = 0 then [] else ''.'' @ pad 6 b) @ ''+00:00'' \<longleftrightarrow> (a::nat) < b"
  using assms pad_append_less [of a 6 b]
  by (auto simp: less_char_def)

lemma isoformat_less_iff_key:
  assumes "civil_ok a" "civil_ok b"
  shows "isoformat a < isoformat b \<longleftrightarrow> civil_key a < civil_key b"
proof -
  have two: "x < 10 ^ 2" if "x < 100" for x :: nat using that by simp
  have m: "days_in_month y m \<le> 31" for y m by (simp add: days_in_month_def)
  have d: "cv_day c < 100" if "civil_ok c" for c
    using that m [of "cv_year c" "cv_month c"] by (simp add: civil_ok_def)
  have y: "cv_year a < 10 ^ 4" "cv_year b < 10 ^ 4" using assms by (simp_all add: civil_ok_def)
  have r: "cv_month c < 100" "cv_hour c < 100" "cv_minute c < 100" "cv_second c < 100"
    "cv_micro c < 1000000" if "civil_ok c" for c using that by (simp_all add: civil_ok_def)
  show ?thesis
    using pad_append_less [OF y] d [OF assms(1)] d [OF assms(2)] r [OF assms(1)] r [OF assms(2)]
    unfolding isoformat_def civil_key_def
    by (simp only: pad_append_less two micro_text_less [unfolded append_Cons append_Nil] less_prod_def' fst_conv snd_conv append_Cons
        append_Nil Cons_less_Cons less_irrefl simp_thms)
qed

subsection \<open>The order of instants is the lexicographic order of the fields\<close>

lemma year_count:
  fixes w f h g :: nat
  assumes "h \<le> f" "by100 \<Longrightarrow> by4" "by400 \<Longrightarrow> by100"
  shows "Suc w * 365 + (f + (if by4 then 1 else 0)) - (h + (if by100 then 1 else 0))
      + (g + (if by400 then 1 else 0))
    = w * 365 + f - h + g + (if by4 \<and> (\<not> by100 \<or> by400) then 366 else 365)"
  using assms by (cases by4; cases by100; cases by400) simp_all

lemma days_before_year_step:
  assumes "1 \<le> y"
  shows "days_before_year (Suc y) = days_before_year y + (if leap y then 366 else 365)"
proof -
  obtain n where n: "y = Suc n" using assms by (cases y) auto
  have le: "m div 100 \<le> m div 4" for m :: nat by (rule div_le_mono2) simp_all
  have four: "Suc n div 4 = n div 4 + (if Suc n mod 4 = 0 then 1 else 0)"
    and hundred: "Suc n div 100 = n div 100 + (if Suc n mod 100 = 0 then 1 else 0)"
    and year400: "Suc n div 400 = n div 400 + (if Suc n mod 400 = 0 then 1 else 0)"
    by (simp_all add: div_Suc)
  have "Suc n mod 4 = 0" if "Suc n mod 100 = 0"
    using that mod_mod_cancel [of 4 100 "Suc n"] by simp
  moreover have "Suc n mod 100 = 0" if "Suc n mod 400 = 0"
    using that mod_mod_cancel [of 100 400 "Suc n"] by simp
  ultimately show ?thesis
    unfolding n days_before_year_def leap_def diff_Suc_1 four hundred year400
    by (intro year_count le)
qed

lemma days_before_year_mono:
  assumes "1 \<le> y" "y \<le> y'"
  shows "days_before_year y \<le> days_before_year y'"
  using assms(2,1)
proof (induction y' rule: dec_induct)
  case (step n)
  then show ?case using days_before_year_step [of n] by (auto split: if_splits)
qed simp

lemma days_before_month_step:
  "1 \<le> m \<Longrightarrow> days_before_month y (Suc m) = days_before_month y m + days_in_month y m"
  by (cases m) auto

lemma days_before_month_mono:
  assumes "1 \<le> m" "m \<le> m'"
  shows "days_before_month y m \<le> days_before_month y m'"
  using assms(2,1)
  by (induction m' rule: dec_induct) (auto simp: days_before_month_step)

lemma days_in_year: "days_before_month y 12 + days_in_month y 12 = (if leap y then 366 else 365)"
  by (simp add: eval_nat_numeral days_in_month_def)

lemma date_in_year:
  assumes "civil_ok c"
  shows "days_before_month (cv_year c) (cv_month c) + cv_day c \<le> (if leap (cv_year c) then 366 else 365)"
proof -
  let ?y = "cv_year c"
  have c: "1 \<le> cv_month c" "cv_month c \<le> 12" "cv_day c \<le> days_in_month ?y (cv_month c)"
    using assms by (simp_all add: civil_ok_def)
  have "days_before_month ?y (cv_month c) + days_in_month ?y (cv_month c)
      = days_before_month ?y (Suc (cv_month c))" using c by (simp add: days_before_month_step)
  also have "\<dots> \<le> days_before_month ?y 13" using c by (intro days_before_month_mono) auto
  also have "\<dots> = (if leap ?y then 366 else 365)"
    using days_in_year [of ?y] days_before_month_step [of 12 ?y] by simp
  finally show ?thesis using c by simp
qed

lemma ordinal_less:
  assumes "civil_ok a" "civil_ok b"
    and "(cv_year a, cv_month a, cv_day a) < (cv_year b, cv_month b, cv_day b)"
  shows "ordinal a < ordinal b"
proof (cases "cv_year a = cv_year b")
  case False
  with assms(3) have lt: "cv_year a < cv_year b" by (auto simp: less_prod_def')
  have "ordinal a \<le> days_before_year (Suc (cv_year a))"
    using date_in_year [OF assms(1)] days_before_year_step [of "cv_year a"] assms(1)
    by (simp add: ordinal_def civil_ok_def)
  also have "\<dots> \<le> days_before_year (cv_year b)" using lt by (intro days_before_year_mono) auto
  also have "\<dots> < ordinal b" using assms(2) by (simp add: ordinal_def civil_ok_def)
  finally show ?thesis .
next
  case same: True
  show ?thesis
  proof (cases "cv_month a = cv_month b")
    case True
    with same assms(3) show ?thesis by (auto simp: less_prod_def' ordinal_def)
  next
    case False
    with same assms(3) have lt: "cv_month a < cv_month b" by (auto simp: less_prod_def')
    have "days_before_month (cv_year a) (cv_month a) + cv_day a
        \<le> days_before_month (cv_year a) (Suc (cv_month a))"
      using assms(1) by (simp add: civil_ok_def days_before_month_step)
    also have "\<dots> \<le> days_before_month (cv_year a) (cv_month b)"
      using lt by (intro days_before_month_mono) auto
    also have "\<dots> < days_before_month (cv_year b) (cv_month b) + cv_day b"
      using same assms(2) by (simp add: civil_ok_def)
    finally show ?thesis using same by (simp add: ordinal_def)
  qed
qed

lemma order_embedding:
  fixes f :: "'a \<Rightarrow> 'b::linorder" and k :: "'a \<Rightarrow> 'c::linorder"
  assumes "k a < k b \<Longrightarrow> f a < f b" "k b < k a \<Longrightarrow> f b < f a" "k a = k b \<Longrightarrow> f a = f b"
  shows "f a < f b \<longleftrightarrow> k a < k b" and "f a = f b \<longleftrightarrow> k a = k b"
  using assms by (metis less_asym less_irrefl neq_iff)+

lemma ordinal_less_iff:
  assumes "civil_ok a" "civil_ok b"
  shows "ordinal a < ordinal b \<longleftrightarrow>
    (cv_year a, cv_month a, cv_day a) < (cv_year b, cv_month b, cv_day b)"
    and "ordinal a = ordinal b \<longleftrightarrow>
    (cv_year a, cv_month a, cv_day a) = (cv_year b, cv_month b, cv_day b)"
proof -
  let ?a = "(cv_year a, cv_month a, cv_day a)" and ?b = "(cv_year b, cv_month b, cv_day b)"
  have "?a = ?b \<Longrightarrow> ordinal a = ordinal b" by (simp add: ordinal_def)
  note order_embedding [where k = "\<lambda>c. (cv_year c, cv_month c, cv_day c)" and f = ordinal,
      OF ordinal_less [OF assms] ordinal_less [OF assms(2,1)] this]
  then show "ordinal a < ordinal b \<longleftrightarrow> ?a < ?b" "ordinal a = ordinal b \<longleftrightarrow> ?a = ?b" by blast+
qed

lemma instant_less_iff_ordinal:
  assumes "civil_ok a" "civil_ok b"
  shows "instant a < instant b \<longleftrightarrow>
    (ordinal a, cv_hour a, cv_minute a, cv_second a, cv_micro a)
      < (ordinal b, cv_hour b, cv_minute b, cv_second b, cv_micro b)"
proof -
  have "instant a < instant b \<longleftrightarrow>
    (((ordinal a * 24 + cv_hour a) * 60 + cv_minute a) * 60 + cv_second a) * 1000000 + cv_micro a
    < (((ordinal b * 24 + cv_hour b) * 60 + cv_minute b) * 60 + cv_second b) * 1000000 + cv_micro b"
    unfolding instant_def by linarith
  also have "\<dots> \<longleftrightarrow> (ordinal a, cv_hour a, cv_minute a, cv_second a, cv_micro a)
      < (ordinal b, cv_hour b, cv_minute b, cv_second b, cv_micro b)"
    using assms unfolding civil_ok_def
    by (simp only: mixed_radix_less mixed_radix_eq less_prod_def' fst_conv snd_conv) auto
  finally show ?thesis .
qed

lemma instant_less_iff_key:
  assumes "civil_ok a" "civil_ok b"
  shows "instant a < instant b \<longleftrightarrow> civil_key a < civil_key b"
  unfolding instant_less_iff_ordinal [OF assms]
  using ordinal_less_iff [OF assms]
  by (auto simp: civil_key_def less_prod_def')

lemma epoch_instant:
  "instant \<lparr>cv_year = 1970, cv_month = 1, cv_day = 2, cv_hour = 0, cv_minute = 0,
     cv_second = 1, cv_micro = 3\<rparr> = 86401000003"
  by (simp add: instant_def ordinal_def days_before_year_def)

lemma isoformat_example:
  "isoformat \<lparr>cv_year = 2024, cv_month = 2, cv_day = 29, cv_hour = 7, cv_minute = 5,
     cv_second = 0, cv_micro = 12\<rparr> = ''2024-02-29T07:05:00.000012+00:00''"
  by code_simp

theorem stored_times_compare_as_instants:
  assumes "civil_ok a" "civil_ok b"
  shows "isoformat a < isoformat b \<longleftrightarrow> instant a < instant b"
  using isoformat_less_iff_key [OF assms] instant_less_iff_key [OF assms] by simp

end
