(* ===== verification/JobQueue.thy ===== *)
theory JobQueue
  imports Store
begin

section \<open>The durable job queue\<close>

text \<open>
  \<open>src/src/services/job_queue.py\<close> with the transactions it delegates to
  (\<open>job_queue_claims.py\<close>, \<open>job_cancellation.py\<close>), the job-type policy
  (\<open>worker_job_policy.py\<close>), the retirement of old jobs (\<open>worker_retired_actorops_jobs.py\<close>)
  and the return of a claim that never started (\<open>worker_preexecution.py\<close>).  Durations that the
  code takes in seconds are integers in microseconds here; \<open>max(float(x), 0)\<close> is \<open>max x 0\<close>.
  An operation that generates an identifier draws one per call, used or not.
\<close>

subsection \<open>Job types\<close>

definition RETIRED_ACTOROPS_V1_JOB_TYPES :: "string list" where
  "RETIRED_ACTOROPS_V1_JOB_TYPES = map ((@) ''apify_actor_'')
     [''discovery'', ''validation'', ''canary_batch'', ''freshness_check'']"

definition ACTOROPS_V2_JOB_TYPES :: "string list" where
  "ACTOROPS_V2_JOB_TYPES =
     [''actorops_v2_discovery'', ''actorops_v2_maintenance'', ''actorops_v2_replacement'',
      ''actorops_v2_repair'', ''actorops_v2_metadata_refresh'']"

definition WORKER_CLAIMABLE_JOB_TYPES :: "string list" where
  "WORKER_CLAIMABLE_JOB_TYPES =
     [''source_test'', ''source_fetch'', ''user_feed_refresh'', ''content_repair'',
      ''content_translate''] @ ACTOROPS_V2_JOB_TYPES"

subsection \<open>Rows and queries\<close>

definition find_job :: "string \<Rightarrow> db \<Rightarrow> job option" where
  "find_job jid d = lookup_row j_id jid (fetch_jobs d)"

definition get_job :: "string \<Rightarrow> conn \<Rightarrow> job option" where
  "get_job jid c = find_job jid (work c)"

definition update_jobs :: "(job \<Rightarrow> bool) \<Rightarrow> (job \<Rightarrow> job) \<Rightarrow> db \<Rightarrow> db" where
  "update_jobs P f d = d\<lparr>fetch_jobs := update_where P f (fetch_jobs d)\<rparr>"

definition job_row_count :: "(job \<Rightarrow> bool) \<Rightarrow> db \<Rightarrow> nat" where
  "job_row_count P d = row_count P (fetch_jobs d)"

definition is_active :: "job \<Rightarrow> bool" where
  "is_active j \<longleftrightarrow> j_status j = Queued \<or> j_status j = Running"

text \<open>ORDER BY CASE status WHEN 'running' THEN 0 ELSE 1 END, created_at\<close>

definition active_order :: "job \<Rightarrow> nat \<times> time" where
  "active_order j = ((if j_status j = Running then 0 else 1), j_created_at j)"

definition active_feed_for :: "string \<times> string \<Rightarrow> job \<Rightarrow> bool" where
  "active_feed_for k j \<longleftrightarrow>
     j_workspace_id j = fst k \<and> j_user_id j = snd k
     \<and> j_job_type j = ''user_feed_refresh'' \<and> is_active j"

definition active_fetch_for :: "string \<times> string \<times> string \<times> string \<Rightarrow> job \<Rightarrow> bool" where
  "active_fetch_for k j \<longleftrightarrow>
     (case k of (w, u, s, b) \<Rightarrow>
        j_workspace_id j = w \<and> j_user_id j = u \<and> j_source_id j = Some s
        \<and> j_subscription_id j = Some b \<and> j_job_type j = ''source_fetch'' \<and> is_active j)"

subsection \<open>Creation\<close>

record job_args =
  ja_workspace_id :: string
  ja_user_id :: string
  ja_job_type :: string
  ja_payload :: "dict option"
  ja_source_id :: "string option"
  ja_subscription_id :: "string option"
  ja_priority :: int
  ja_max_attempts :: int
  ja_delay :: time
  ja_retention_days :: "int option"

definition expires_after :: "time \<Rightarrow> int option \<Rightarrow> time option" where
  "expires_after now r =
     (case r of None \<Rightarrow> None | Some n \<Rightarrow> if n = 0 then None else Some (now + days n))"

definition queued_job :: "string \<Rightarrow> time \<Rightarrow> job_args \<Rightarrow> job" where
  "queued_job jid now a =
     \<lparr>j_id = jid, j_workspace_id = ja_workspace_id a, j_user_id = ja_user_id a,
      j_source_id = ja_source_id a, j_subscription_id = ja_subscription_id a,
      j_job_type = ja_job_type a, j_status = Queued, j_priority = ja_priority a,
      j_attempts = 0, j_max_attempts = max 1 (ja_max_attempts a),
      j_worker_id = None, j_claim_token = None,
      j_next_run_at = Some (now + max (ja_delay a) 0), j_locked_until = None,
      j_payload = (case ja_payload a of None \<Rightarrow> [] | Some p \<Rightarrow> p), j_result = None,
      j_error_code = None, j_error_message = None, j_created_at = now,
      j_started_at = None, j_finished_at = None, j_cancelled_at = None,
      j_expires_at = expires_after now (ja_retention_days a), j_updated_at = now\<rparr>"

definition job_fk_ok :: "db \<Rightarrow> job \<Rightarrow> bool" where
  "job_fk_ok d j \<longleftrightarrow>
     j_workspace_id j \<in> set (workspaces d)
     \<and> j_user_id j \<in> u_id ` set (users d)
     \<and> (case j_source_id j of None \<Rightarrow> True | Some s \<Rightarrow> s \<in> s_id ` set (source_catalog d))
     \<and> (case j_subscription_id j of None \<Rightarrow> True
        | Some b \<Rightarrow> b \<in> us_id ` set (user_subscriptions d))"

definition insert_job :: "job \<Rightarrow> db \<Rightarrow> exn + db" where
  "insert_job j d =
     (if j_id j \<in> j_id ` set (fetch_jobs d) \<or> \<not> job_fk_ok d j then Inl IntegrityError
      else Inr (d\<lparr>fetch_jobs := fetch_jobs d @ [j]\<rparr>))"

definition feed_refresh_body ::
  "string \<Rightarrow> time \<Rightarrow> job_args \<Rightarrow> db \<Rightarrow> (db, job \<times> bool) outcome" where
  "feed_refresh_body jid now a d =
     (case first_by active_order (active_feed_for (ja_workspace_id a, ja_user_id a)) (fetch_jobs d) of
        Some j \<Rightarrow> Return (j, False) d
      | None \<Rightarrow>
         (case insert_job
            (queued_job jid now
               (a\<lparr>ja_job_type := ''user_feed_refresh'', ja_source_id := None,
                  ja_subscription_id := None\<rparr>)) d of
            Inl e \<Rightarrow> Raise e d
          | Inr d' \<Rightarrow>
             (case find_job jid d' of
                None \<Rightarrow> Raise (LookupError ''created user feed refresh not found'') d'
              | Some j \<Rightarrow> Return (j, True) d')))"

definition create_user_feed_refresh_if_absent :: "job_args \<Rightarrow> conn \<Rightarrow> (conn, job \<times> bool) outcome" where
  "create_user_feed_refresh_if_absent a c =
     (let (hex, c1) = new_uuid c
      in owned_transaction (feed_refresh_body (''job_'' @ hex) (clock c1) a) c1)"

definition source_fetch_body ::
  "string \<Rightarrow> time \<Rightarrow> string \<Rightarrow> string \<Rightarrow> job_args \<Rightarrow> db \<Rightarrow> (db, job \<times> bool) outcome" where
  "source_fetch_body jid now src sub a d =
     (case first_by active_order
             (active_fetch_for (ja_workspace_id a, ja_user_id a, src, sub)) (fetch_jobs d) of
        Some j \<Rightarrow> Return (j, False) d
      | None \<Rightarrow>
         (case insert_job
            (queued_job jid now
               (a\<lparr>ja_job_type := ''source_fetch'', ja_source_id := Some src,
                  ja_subscription_id := Some sub\<rparr>)) d of
            Inl e \<Rightarrow> Raise e d
          | Inr d' \<Rightarrow>
             (case find_job jid d' of
                None \<Rightarrow> Raise (LookupError ''created source fetch not found'') d'
              | Some j \<Rightarrow> Return (j, True) d')))"

definition create_source_fetch_if_absent ::
  "string \<Rightarrow> string \<Rightarrow> job_args \<Rightarrow> conn \<Rightarrow> (conn, job \<times> bool) outcome" where
  "create_source_fetch_if_absent src sub a c =
     (let (hex, c1) = new_uuid c
      in owned_transaction (source_fetch_body (''job_'' @ hex) (clock c1) src sub a) c1)"

definition create_job :: "job_args \<Rightarrow> bool \<Rightarrow> conn \<Rightarrow> (conn, job) outcome" where
  "create_job a do_commit c =
     (if ja_job_type a = ''user_feed_refresh'' then
        (if \<not> do_commit
         then Raise (ValueError ''user_feed_refresh creation uses its own transaction boundary'') c
         else (case create_user_feed_refresh_if_absent a c of
                 (Inl e, c') \<Rightarrow> Raise e c'
               | (Inr (j, _), c') \<Rightarrow> Return j c'))
      else
        (let (hex, c1) = new_uuid c; jid = ''job_'' @ hex
         in case insert_job (queued_job jid (clock c1) a) (work c1) of
              Inl e \<Rightarrow> Raise e (c1\<lparr>in_tx := True\<rparr>)
            | Inr d \<Rightarrow>
               (let c2 = dml (\<lambda>_. d) c1; c3 = (if do_commit then commit c2 else c2)
                in case get_job jid c3 of
                     None \<Rightarrow> Raise (LookupError ''created job not found'') c3
                   | Some j \<Rightarrow> Return j c3)))"

subsection \<open>Claims and lease recovery\<close>

definition claimable_job_type :: "string list option \<Rightarrow> string \<Rightarrow> bool" where
  "claimable_job_type allowed t \<longleftrightarrow>
     t \<notin> set RETIRED_ACTOROPS_V1_JOB_TYPES
     \<and> (case allowed of None \<Rightarrow> True | Some ts \<Rightarrow> t \<in> set ts)"

definition is_claimable :: "time \<Rightarrow> string list option \<Rightarrow> job \<Rightarrow> bool" where
  "is_claimable now allowed j \<longleftrightarrow>
     j_status j = Queued
     \<and> (case j_next_run_at j of None \<Rightarrow> True | Some t \<Rightarrow> t \<le> now)
     \<and> claimable_job_type allowed (j_job_type j)"

text \<open>ORDER BY priority DESC, created_at LIMIT 1\<close>

definition claim_order :: "job \<Rightarrow> int \<times> time" where
  "claim_order j = (- j_priority j, j_created_at j)"

definition claimed :: "string \<Rightarrow> string \<Rightarrow> time \<Rightarrow> time \<Rightarrow> job \<Rightarrow> job" where
  "claimed worker token now until j =
     j\<lparr>j_status := Running, j_attempts := j_attempts j + 1, j_worker_id := Some worker,
       j_claim_token := Some token,
       j_started_at := (case j_started_at j of None \<Rightarrow> Some now | Some t \<Rightarrow> Some t),
       j_locked_until := Some until, j_updated_at := now\<rparr>"

definition claim_next_job ::
  "string \<Rightarrow> time \<Rightarrow> string list option \<Rightarrow> conn \<Rightarrow> (conn, job option) outcome" where
  "claim_next_job worker lease allowed c =
     (let (token, c1) = new_uuid c;
          now = clock c1;
          until = now + max lease (seconds 1)
      in case begin_immediate c1 of
           (Inl e, c2) \<Rightarrow> Raise e (rollback_if_open c2)
         | (Inr _, c2) \<Rightarrow>
            (case first_by claim_order (is_claimable now allowed) (fetch_jobs (work c2)) of
               None \<Rightarrow> Return None (commit c2)
             | Some row \<Rightarrow>
                (let P = (\<lambda>j. j_id j = j_id row \<and> is_claimable now allowed j);
                     c3 = dml (update_jobs P (claimed worker token now until)) c2
                 in if job_row_count P (work c2) \<noteq> 1 then Return None (rollback c3)
                    else Return (get_job (j_id row) c3) (commit c3))))"

definition lease_expired :: "time \<Rightarrow> string list option \<Rightarrow> job \<Rightarrow> bool" where
  "lease_expired now allowed j \<longleftrightarrow>
     j_status j = Running
     \<and> (case j_locked_until j of None \<Rightarrow> False | Some t \<Rightarrow> t < now)
     \<and> claimable_job_type allowed (j_job_type j)"

definition recovered :: "time \<Rightarrow> job \<Rightarrow> job" where
  "recovered now j =
     j\<lparr>j_status := (if j_attempts j \<ge> j_max_attempts j then Failed else Queued),
       j_worker_id := None, j_claim_token := None, j_locked_until := None,
       j_error_code := Some ''lease_expired'',
       j_error_message := Some ''Worker lease expired before completion'',
       j_finished_at := (if j_attempts j \<ge> j_max_attempts j then Some now else j_finished_at j),
       j_updated_at := now\<rparr>"

record recovered_job =
  rj_job_id :: string
  rj_workspace_id :: string
  rj_user_id :: string
  rj_source_id :: "string option"
  rj_subscription_id :: "string option"
  rj_attempts :: int
  rj_status :: job_status

definition recovery_row :: "job \<Rightarrow> recovered_job" where
  "recovery_row j =
     \<lparr>rj_job_id = j_id j, rj_workspace_id = j_workspace_id j, rj_user_id = j_user_id j,
      rj_source_id = j_source_id j, rj_subscription_id = j_subscription_id j,
      rj_attempts = j_attempts j,
      rj_status = (if j_attempts j \<ge> j_max_attempts j then Failed else Queued)\<rparr>"

text \<open>ORDER BY created_at ASC, id ASC\<close>

definition created_then_id :: "job \<Rightarrow> time \<times> string" where
  "created_then_id j = (j_created_at j, j_id j)"

definition recover_stale_running_jobs ::
  "time option \<Rightarrow> string list option \<Rightarrow> conn \<Rightarrow> (conn, recovered_job list) outcome" where
  "recover_stale_running_jobs at allowed c =
     (let now = (case at of None \<Rightarrow> clock c | Some t \<Rightarrow> t)
      in case begin_immediate c of
           (Inl e, c1) \<Rightarrow> Raise e (rollback_if_open c1)
         | (Inr _, c1) \<Rightarrow>
            (let rows = sort_key created_then_id
                          (filter (lease_expired now allowed) (fetch_jobs (work c1)));
                 c2 = dml (update_jobs (lease_expired now allowed) (recovered now)) c1
             in Return (map recovery_row rows) (commit c2)))"

definition requeue_stale_running_jobs ::
  "time option \<Rightarrow> string list option \<Rightarrow> conn \<Rightarrow> (conn, nat) outcome" where
  "requeue_stale_running_jobs at allowed c =
     (case recover_stale_running_jobs at allowed c of
        (Inl e, c') \<Rightarrow> Raise e c'
      | (Inr rows, c') \<Rightarrow> Return (length rows) c')"

subsection \<open>Completion, failure, cancellation\<close>

definition claim_conflict :: "string \<Rightarrow> conn \<Rightarrow> exn" where
  "claim_conflict jid c =
     (case get_job jid c of
        None \<Rightarrow> LookupError ''job not found''
      | Some _ \<Rightarrow> PermissionError ''job claim is no longer active'')"

definition holds_claim :: "string \<Rightarrow> string \<Rightarrow> string \<Rightarrow> job \<Rightarrow> bool" where
  "holds_claim jid worker token j \<longleftrightarrow>
     j_id j = jid \<and> j_status j = Running
     \<and> j_worker_id j = Some worker \<and> j_claim_token j = Some token"

text \<open>The guard of a completion: the claim is held and its lease has not expired.\<close>

definition holds_lease :: "string \<Rightarrow> string \<Rightarrow> string \<Rightarrow> time \<Rightarrow> job \<Rightarrow> bool" where
  "holds_lease jid worker token now j \<longleftrightarrow>
     holds_claim jid worker token j
     \<and> (case j_locked_until j of None \<Rightarrow> False | Some t \<Rightarrow> now \<le> t)"

definition claim_guard_error :: exn where
  "claim_guard_error = ValueError ''worker_id and claim_token are required''"

definition completed ::
  "job_status \<Rightarrow> json option \<Rightarrow> string option \<Rightarrow> string option \<Rightarrow> time \<Rightarrow> job \<Rightarrow> job" where
  "completed status result code msg now j =
     j\<lparr>j_status := status, j_result := result, j_error_code := code, j_error_message := msg,
       j_worker_id := None, j_claim_token := None, j_locked_until := None,
       j_finished_at := Some now, j_updated_at := now\<rparr>"

definition complete_job ::
  "string \<Rightarrow> job_status \<Rightarrow> json option \<Rightarrow> string option \<Rightarrow> string option
   \<Rightarrow> string \<Rightarrow> string \<Rightarrow> bool \<Rightarrow> conn \<Rightarrow> (conn, job) outcome" where
  "complete_job jid status result code msg worker token do_commit c =
     (if status \<notin> set (removeAll Running (removeAll Queued JOB_STATUSES))
      then Raise (ValueError ''completion status must be succeeded, failed, or partial'') c
      else if \<not> truthy worker \<or> \<not> truthy token then Raise claim_guard_error c
      else
        (let now = clock c;
             P = holds_lease jid worker token now;
             c1 = dml (update_jobs P (completed status result code msg now)) c
         in if job_row_count P (work c) \<noteq> 1
            then (let c2 = rollback c1 in Raise (claim_conflict jid c2) c2)
            else (case get_job jid c1 of
                    None \<Rightarrow> Raise (LookupError ''job not found'') (rollback_if_open c1)
                  | Some j \<Rightarrow> Return j (if do_commit then commit c1 else c1))))"

definition retry_delay :: "time \<Rightarrow> int \<Rightarrow> time" where
  "retry_delay base attempts = max base 0 * 2 ^ nat (max (attempts - 1) 0)"

definition keep_or :: "'a option \<Rightarrow> 'a option \<Rightarrow> 'a option" where
  "keep_or new old = (case new of None \<Rightarrow> old | Some x \<Rightarrow> Some x)"

definition requeued :: "time \<Rightarrow> string \<Rightarrow> string \<Rightarrow> json option \<Rightarrow> time \<Rightarrow> job \<Rightarrow> job" where
  "requeued run_at code msg result now j =
     j\<lparr>j_status := Queued, j_worker_id := None, j_claim_token := None, j_locked_until := None,
       j_next_run_at := Some run_at, j_error_code := Some code, j_error_message := Some msg,
       j_result := keep_or result (j_result j), j_updated_at := now\<rparr>"

definition failed :: "string \<Rightarrow> string \<Rightarrow> json option \<Rightarrow> time \<Rightarrow> job \<Rightarrow> job" where
  "failed code msg result now j =
     j\<lparr>j_status := Failed, j_worker_id := None, j_claim_token := None, j_locked_until := None,
       j_error_code := Some code, j_error_message := Some msg,
       j_result := keep_or result (j_result j), j_finished_at := Some now, j_updated_at := now\<rparr>"

definition should_retry :: "bool \<Rightarrow> job \<Rightarrow> bool" where
  "should_retry retryable j \<longleftrightarrow>
     retryable \<and> j_attempts j < (if j_max_attempts j = 0 then 1 else j_max_attempts j)"

definition fail_or_retry_job ::
  "string \<Rightarrow> string \<Rightarrow> string \<Rightarrow> bool \<Rightarrow> time \<Rightarrow> json option
   \<Rightarrow> string \<Rightarrow> string \<Rightarrow> bool \<Rightarrow> conn \<Rightarrow> (conn, job) outcome" where
  "fail_or_retry_job jid code msg retryable base result worker token do_commit c =
     (if \<not> truthy worker \<or> \<not> truthy token then Raise claim_guard_error c
      else
        (let now = clock c;
             P = holds_lease jid worker token now;
             c1 = c\<lparr>in_tx := True\<rparr>
         in case find P (fetch_jobs (work c1)) of
              None \<Rightarrow> (let c2 = rollback c1 in Raise (claim_conflict jid c2) c2)
            | Some current \<Rightarrow>
               (let f = (if should_retry retryable current
                         then requeued (now + retry_delay base (j_attempts current)) code msg result now
                         else failed code msg result now);
                    c2 = dml (update_jobs P f) c1
                in if job_row_count P (work c1) \<noteq> 1
                   then (let c3 = rollback c2 in Raise (claim_conflict jid c3) c3)
                   else (let c3 = (if do_commit then commit c2 else c2)
                         in case get_job jid c3 of
                              None \<Rightarrow> Raise (LookupError ''job not found after update'') c3
                            | Some j \<Rightarrow> Return j c3))))"

definition invalidated :: "string \<Rightarrow> string \<Rightarrow> time \<Rightarrow> job \<Rightarrow> job" where
  "invalidated reason code now j =
     j\<lparr>j_status := Cancelled,
       j_result := Some (JObj [(''invalidation_reason'', JStr reason)]),
       j_error_code := Some code, j_error_message := None,
       j_worker_id := None, j_claim_token := None, j_locked_until := None,
       j_cancelled_at := keep_or (j_cancelled_at j) (Some now),
       j_finished_at := Some now, j_updated_at := now\<rparr>"

definition cancel_claimed_job ::
  "string \<Rightarrow> string \<Rightarrow> string \<Rightarrow> string \<Rightarrow> string \<Rightarrow> bool \<Rightarrow> conn \<Rightarrow> (conn, job) outcome" where
  "cancel_claimed_job jid reason worker token code do_commit c =
     (if \<not> truthy worker \<or> \<not> truthy token then Raise claim_guard_error c
      else
        (let now = clock c;
             P = holds_claim jid worker token;
             c1 = dml (update_jobs P (invalidated reason code now)) c
         in if job_row_count P (work c) \<noteq> 1
            then (let c2 = (if do_commit then rollback_if_open c1 else c1)
                  in Raise (claim_conflict jid c2) c2)
            else (let c2 = (if do_commit then commit c1 else c1)
                  in case get_job jid c2 of
                       None \<Rightarrow> Raise (LookupError ''job not found after invalidation'') c2
                     | Some j \<Rightarrow> Return j c2)))"

definition may_extend :: "string \<Rightarrow> string \<Rightarrow> string \<Rightarrow> time \<Rightarrow> job \<Rightarrow> bool" where
  "may_extend jid worker token now j \<longleftrightarrow>
     holds_claim jid worker token j
     \<and> (case j_locked_until j of None \<Rightarrow> True | Some t \<Rightarrow> now \<le> t)"

definition extended :: "time \<Rightarrow> time \<Rightarrow> job \<Rightarrow> job" where
  "extended until now j =
     j\<lparr>j_locked_until :=
         (case j_locked_until j of
            None \<Rightarrow> Some until
          | Some t \<Rightarrow> if t < until then Some until else Some t),
       j_updated_at := now\<rparr>"

definition extend_job_lease ::
  "string \<Rightarrow> string \<Rightarrow> string \<Rightarrow> time \<Rightarrow> conn \<Rightarrow> (conn, job) outcome" where
  "extend_job_lease jid worker token lease c =
     (if \<not> truthy worker \<or> \<not> truthy token then Raise claim_guard_error c
      else
        (let now = clock c;
             until = now + max lease (seconds 1);
             P = may_extend jid worker token now;
             c1 = commit (dml (update_jobs P (extended until now)) c)
         in if job_row_count P (work c) \<noteq> 1 then Raise (claim_conflict jid c1) c1
            else (case get_job jid c1 of
                    None \<Rightarrow> Raise (LookupError ''job not found after lease extension'') c1
                  | Some j \<Rightarrow> Return j c1)))"

definition cancelled_while_queued :: "time \<Rightarrow> job \<Rightarrow> job" where
  "cancelled_while_queued now j =
     j\<lparr>j_status := Cancelled, j_worker_id := None, j_claim_token := None, j_locked_until := None,
       j_cancelled_at := Some now, j_finished_at := Some now, j_updated_at := now\<rparr>"

definition cancel_requested :: "time \<Rightarrow> job \<Rightarrow> job" where
  "cancel_requested now j =
     j\<lparr>j_cancelled_at := keep_or (j_cancelled_at j) (Some now), j_updated_at := now\<rparr>"

definition cancel_body :: "time \<Rightarrow> string \<Rightarrow> string option \<Rightarrow> db \<Rightarrow> (db, unit) outcome" where
  "cancel_body now jid uid d =
     (case find_job jid d of
        None \<Rightarrow> Raise (LookupError ''job not found'') d
      | Some cur \<Rightarrow>
         (if uid \<noteq> None \<and> Some (j_user_id cur) \<noteq> uid
          then Raise (PermissionError ''cannot cancel another user's job'') d
          else if j_status cur = Cancelled \<and> j_cancelled_at cur \<noteq> None then Return () d
          else if j_status cur = Queued
          then Return () (update_jobs (\<lambda>j. j_id j = jid \<and> j_status j = Queued)
                            (cancelled_while_queued now) d)
          else if j_status cur = Running \<and> j_job_type cur = ''user_feed_refresh''
          then Return () (update_jobs
                 (\<lambda>j. j_id j = jid \<and> j_status j = Running \<and> j_job_type j = ''user_feed_refresh'')
                 (cancel_requested now) d)
          else Raise (ValueError
                 ''only queued jobs and running user Feed refreshes can be cancelled'') d))"

definition cancel_job :: "string \<Rightarrow> string option \<Rightarrow> conn \<Rightarrow> (conn, job) outcome" where
  "cancel_job jid uid c =
     (case begin_immediate c of
        (Inl e, c1) \<Rightarrow> Raise e (rollback_if_open c1)
      | (Inr _, c1) \<Rightarrow>
         (case cancel_body (clock c) jid uid (work c1) of
            (Inl e, d) \<Rightarrow> Raise e (rollback_if_open (c1\<lparr>work := d\<rparr>))
          | (Inr _, d) \<Rightarrow>
             (let c2 = commit (c1\<lparr>work := d\<rparr>)
              in case get_job jid c2 of
                   None \<Rightarrow> Raise (LookupError ''job not found after cancellation'') c2
                 | Some j \<Rightarrow> Return j c2)))"

subsection \<open>Retry\<close>

text \<open>The message of the refusal is Chinese text, written here as its UTF-8 bytes.\<close>

definition retry_from_card_message :: string where
  "retry_from_card_message = [
     CHR 0xE8, CHR 0xAF, CHR 0xB7, CHR 0xE4, CHR 0xBB, CHR 0x8E, CHR 0xE5, CHR 0x8D, CHR 0xA1, CHR
     0xE7, CHR 0x89, CHR 0x87, CHR 0xE7, CHR 0xBF, CHR 0xBB, CHR 0xE8, CHR 0xAF, CHR 0x91, CHR 0xE5,
     CHR 0x85, CHR 0xA5, CHR 0xE5, CHR 0x8F, CHR 0xA3, CHR 0xE9, CHR 0x87, CHR 0x8D, CHR 0xE8, CHR
     0xAF, CHR 0x95, CHR 0xEF, CHR 0xBC, CHR 0x8C, CHR 0xE4, CHR 0xBB, CHR 0xA5, CHR 0xE9, CHR 0x87,
     CHR 0x8D, CHR 0xE6, CHR 0x96, CHR 0xB0, CHR 0xE6, CHR 0xA3, CHR 0x80, CHR 0xE6, CHR 0x9F, CHR
     0xA5, CHR 0xE6, CHR 0xAD, CHR 0xA3, CHR 0xE6, CHR 0x96, CHR 0x87, CHR 0xE3, CHR 0x80, CHR 0x81,
     CHR 0xE6, CHR 0xA8, CHR 0xA1, CHR 0xE5, CHR 0x9E, CHR 0x8B, CHR 0xE5, CHR 0x92, CHR 0x8C, CHR
     0xE9, CHR 0xA2, CHR 0x9D, CHR 0xE5, CHR 0xBA, CHR 0xA6, CHR 0xE3, CHR 0x80, CHR 0x82]"

definition retry_error :: exn where
  "retry_error = ValueError ''only failed, partial, or cancelled jobs can be retried''"

definition retryable_status :: "job_status \<Rightarrow> bool" where
  "retryable_status s \<longleftrightarrow> s \<in> {Failed, Partial, Cancelled}"

definition reset_for_retry :: "time \<Rightarrow> job \<Rightarrow> job" where
  "reset_for_retry now j =
     j\<lparr>j_status := Queued, j_attempts := 0, j_worker_id := None, j_claim_token := None,
       j_locked_until := None, j_next_run_at := Some now, j_cancelled_at := None,
       j_finished_at := None, j_error_code := None, j_error_message := None,
       j_result := None, j_started_at := None, j_updated_at := now\<rparr>"

text \<open>The active job, other than the one retried, that answers the retry instead.\<close>

definition retry_replacement :: "job \<Rightarrow> db \<Rightarrow> job option" where
  "retry_replacement cur d =
     (let other = (\<lambda>j. j_id j \<noteq> j_id cur)
      in if j_job_type cur = ''user_feed_refresh''
         then first_by active_order
                (\<lambda>j. active_feed_for (j_workspace_id cur, j_user_id cur) j \<and> other j) (fetch_jobs d)
         else if j_job_type cur = ''source_fetch''
         then (case j_subscription_id cur of
                 None \<Rightarrow> None
               | Some b \<Rightarrow>
                  if \<not> truthy b then None
                  else (case j_source_id cur of
                          None \<Rightarrow> None
                        | Some s \<Rightarrow>
                           first_by active_order
                             (\<lambda>j. active_fetch_for (j_workspace_id cur, j_user_id cur, s, b) j \<and> other j)
                             (fetch_jobs d)))
         else None)"

definition forget_health_of :: "string \<Rightarrow> db \<Rightarrow> db" where
  "forget_health_of jid d =
     d\<lparr>user_source_health_applications :=
          filter (\<lambda>a. ha_job_id a \<noteq> jid) (user_source_health_applications d),
       user_source_health :=
          update_where (\<lambda>h. h_last_job_id h = Some jid) (\<lambda>h. h\<lparr>h_last_job_id := None\<rparr>)
            (user_source_health d)\<rparr>"

text \<open>The body returns the job that answers the retry when there is one, and None when the
  row itself was reset (the caller then reads it back).\<close>

definition retry_body :: "time \<Rightarrow> string \<Rightarrow> string option \<Rightarrow> db \<Rightarrow> (db, job option) outcome" where
  "retry_body now jid uid d =
     (case find_job jid d of
        None \<Rightarrow> Raise (LookupError ''job not found'') d
      | Some cur \<Rightarrow>
         (if uid \<noteq> None \<and> Some (j_user_id cur) \<noteq> uid
          then Raise (PermissionError ''cannot retry another user's job'') d
          else if \<not> retryable_status (j_status cur) then Raise retry_error d
          else if j_job_type cur = ''content_translate''
          then Raise (ValueError retry_from_card_message) d
          else (case retry_replacement cur d of
                  Some act \<Rightarrow> Return (Some act) d
                | None \<Rightarrow>
                   (let P = (\<lambda>j. j_id j = jid \<and> retryable_status (j_status j));
                        d1 = update_jobs P (reset_for_retry now) d
                    in if job_row_count P d \<noteq> 1 then Raise retry_error d1
                       else Return None (forget_health_of jid d1)))))"

text \<open>\<open>owns_transaction = commit and not in_transaction\<close>: without \<open>commit\<close> the statements
  open a transaction that the caller has to close.\<close>

definition retry_job :: "string \<Rightarrow> string option \<Rightarrow> bool \<Rightarrow> conn \<Rightarrow> (conn, job) outcome" where
  "retry_job jid uid do_commit c =
     (let run = retry_body (clock c) jid uid;
          (r, c1) = (if do_commit then owned_transaction run c
                     else (case run (work c) of
                             (Inr None, d) \<Rightarrow> (Inr None, c\<lparr>work := d, in_tx := True\<rparr>)
                           | (r, d) \<Rightarrow> (r, c\<lparr>work := d\<rparr>)))
      in case r of
           Inl e \<Rightarrow> Raise e c1
         | Inr (Some act) \<Rightarrow> Return act c1
         | Inr None \<Rightarrow>
            (case get_job jid c1 of
               None \<Rightarrow> Raise (LookupError ''job not found after retry'') c1
             | Some j \<Rightarrow> Return j c1))"

subsection \<open>Pruning\<close>

definition is_terminal :: "job_status \<Rightarrow> bool" where
  "is_terminal s \<longleftrightarrow> s \<in> {Succeeded, Failed, Partial, Cancelled}"

definition prunable :: "time \<Rightarrow> job \<Rightarrow> bool" where
  "prunable now j \<longleftrightarrow>
     is_terminal (j_status j) \<and> (case j_expires_at j of None \<Rightarrow> False | Some t \<Rightarrow> t < now)"

definition drop_ref :: "string set \<Rightarrow> string option \<Rightarrow> string option" where
  "drop_ref gone r = (case r of None \<Rightarrow> None | Some x \<Rightarrow> if x \<in> gone then None else Some x)"

text \<open>DELETE FROM fetch_jobs with the actions of the foreign keys that point at it: the health
  applications cascade, the \<open>last_job_id\<close> columns are set to NULL.\<close>

definition delete_jobs :: "(job \<Rightarrow> bool) \<Rightarrow> db \<Rightarrow> db" where
  "delete_jobs P d =
     (let gone = j_id ` set (filter P (fetch_jobs d))
      in d\<lparr>fetch_jobs := filter (\<lambda>j. \<not> P j) (fetch_jobs d),
           user_source_health_applications :=
             filter (\<lambda>a. ha_job_id a \<notin> gone) (user_source_health_applications d),
           user_source_health :=
             map (\<lambda>h. h\<lparr>h_last_job_id := drop_ref gone (h_last_job_id h)\<rparr>) (user_source_health d),
           user_feed_schedules :=
             map (\<lambda>f. f\<lparr>fs_last_job_id := drop_ref gone (fs_last_job_id f)\<rparr>) (user_feed_schedules d),
           user_source_schedules :=
             map (\<lambda>f. f\<lparr>ss_last_job_id := drop_ref gone (ss_last_job_id f)\<rparr>)
               (user_source_schedules d)\<rparr>)"

definition prune_terminal_jobs :: "time option \<Rightarrow> conn \<Rightarrow> (conn, nat) outcome" where
  "prune_terminal_jobs at c =
     (let now = (case at of None \<Rightarrow> clock c | Some t \<Rightarrow> t)
      in Return (job_row_count (prunable now) (work c))
           (commit (dml (delete_jobs (prunable now)) c)))"

subsection \<open>Retired job types and claims that never started\<close>

definition retirable :: "job \<Rightarrow> bool" where
  "retirable j \<longleftrightarrow>
     j_job_type j \<in> set RETIRED_ACTOROPS_V1_JOB_TYPES \<and> j_status j = Queued
     \<and> j_attempts j = 0 \<and> j_started_at j = None"

definition retire_queued_actorops_v1_jobs :: "conn \<Rightarrow> (conn, string list) outcome" where
  "retire_queued_actorops_v1_jobs c =
     (case begin_immediate c of
        (Inl e, c1) \<Rightarrow> Raise e (rollback_if_open c1)
      | (Inr _, c1) \<Rightarrow>
         (let rows = sort_key created_then_id (filter retirable (fetch_jobs (work c1)));
              f = invalidated ''actorops_v1_retired'' ''actorops_v1_retired'' (clock c)
          in Return (map j_id rows)
               (commit (if rows = [] then c1 else dml (update_jobs retirable f) c1))))"

definition unstarted :: "string \<Rightarrow> time \<Rightarrow> job \<Rightarrow> job" where
  "unstarted code now j =
     j\<lparr>j_status := Queued, j_attempts := (if 0 < j_attempts j then j_attempts j - 1 else 0),
       j_worker_id := None, j_claim_token := None, j_locked_until := None,
       j_next_run_at := Some now, j_error_code := Some code,
       j_error_message := Some ''Worker could not start the job; retrying'',
       j_updated_at := now\<rparr>"

definition requeue_unstarted_claim ::
  "string \<Rightarrow> string \<Rightarrow> string \<Rightarrow> string \<Rightarrow> conn \<Rightarrow> (conn, job option) outcome" where
  "requeue_unstarted_claim jid worker token code c =
     (case begin_immediate c of
        (Inl e, c1) \<Rightarrow> Raise e (rollback_if_open c1)
      | (Inr _, c1) \<Rightarrow>
         (let P = holds_claim jid worker token;
              c2 = dml (update_jobs P (unstarted code (clock c))) c1
          in if job_row_count P (work c1) \<noteq> 1 then Return None (rollback c2)
             else (let c3 = commit c2 in Return (get_job jid c3) c3)))"

subsection \<open>Listings\<close>

definition list_filter ::
  "string \<Rightarrow> string option \<Rightarrow> job_status option \<Rightarrow> string list \<Rightarrow> job \<Rightarrow> bool" where
  "list_filter w uid st types j \<longleftrightarrow>
     j_workspace_id j = w
     \<and> (truthy (or_empty uid) \<longrightarrow> Some (j_user_id j) = uid)
     \<and> (case st of None \<Rightarrow> True | Some s \<Rightarrow> j_status j = s)
     \<and> (types = [] \<or> j_job_type j \<in> set types)"

definition newest_first :: "job list \<Rightarrow> job list" where
  "newest_first = sort_key (\<lambda>j. - j_created_at j)"

definition list_jobs ::
  "string \<Rightarrow> string option \<Rightarrow> job_status option \<Rightarrow> string list \<Rightarrow> int \<Rightarrow> conn \<Rightarrow> job list" where
  "list_jobs w uid st types limit c =
     limit_rows limit (newest_first (filter (list_filter w uid st types) (fetch_jobs (work c))))"

record job_result_summary =
  jr_message :: "string option"
  jr_snapshot_created :: "bool option"
  jr_new_item_count :: "int option"
  jr_failed_source_count :: "int option"

record job_summary =
  js_id :: string
  js_user_id :: string
  js_source_id :: "string option"
  js_subscription_id :: "string option"
  js_job_type :: string
  js_status :: job_status
  js_error_code :: "string option"
  js_error_message :: "string option"
  js_created_at :: time
  js_started_at :: "time option"
  js_cancelled_at :: "time option"
  js_finished_at :: "time option"
  js_result :: "job_result_summary option"

text \<open>\<open>json_extract(result_json, '$.key')\<close>: NULL unless the result is an object with the key.\<close>

fun json_member :: "string \<Rightarrow> json option \<Rightarrow> json option" where
  "json_member k (Some (JObj kvs)) = map_of kvs k"
| "json_member k _ = None"

fun natural_member :: "json option \<Rightarrow> int option" where
  "natural_member (Some (JInt n)) = (if 0 \<le> n then Some n else None)"
| "natural_member _ = None"

fun failed_outcomes :: "json option \<Rightarrow> int option" where
  "failed_outcomes (Some (JArr vs)) =
     Some (int (length (filter (\<lambda>v. json_member ''status'' (Some v) = Some (JStr ''failed'')) vs)))"
| "failed_outcomes _ = None"

definition summary_result :: "json option \<Rightarrow> job_result_summary" where
  "summary_result res =
     \<lparr>jr_message = (case json_member ''message'' res of
                      Some (JStr s) \<Rightarrow> Some (take 240 s) | _ \<Rightarrow> None),
      jr_snapshot_created = (case json_member ''snapshot_created'' res of
                               Some (JBool b) \<Rightarrow> Some b | _ \<Rightarrow> None),
      jr_new_item_count = natural_member (json_member ''new_item_count'' res),
      jr_failed_source_count =
        (case natural_member (json_member ''failed_source_count'' res) of
           Some n \<Rightarrow> Some n
         | None \<Rightarrow> failed_outcomes (json_member ''source_outcomes'' res))\<rparr>"

definition empty_summary :: job_result_summary where
  "empty_summary = \<lparr>jr_message = None, jr_snapshot_created = None, jr_new_item_count = None,
                    jr_failed_source_count = None\<rparr>"

definition job_summary_row :: "job \<Rightarrow> job_summary" where
  "job_summary_row j =
     \<lparr>js_id = j_id j, js_user_id = j_user_id j, js_source_id = j_source_id j,
      js_subscription_id = j_subscription_id j, js_job_type = j_job_type j,
      js_status = j_status j,
      js_error_code = map_option (take 64) (j_error_code j),
      js_error_message = map_option (take 240) (j_error_message j),
      js_created_at = j_created_at j, js_started_at = j_started_at j,
      js_cancelled_at = j_cancelled_at j, js_finished_at = j_finished_at j,
      js_result = (let r = summary_result (j_result j)
                   in if r = empty_summary then None else Some r)\<rparr>"

text \<open>\<open>rows_by_id.update\<close>: active rows not listed yet go to the end.\<close>

definition merge_rows :: "job list \<Rightarrow> job list \<Rightarrow> job list" where
  "merge_rows recent active =
     recent @ filter (\<lambda>j. j_id j \<notin> j_id ` set recent) active"

definition list_job_summaries ::
  "string \<Rightarrow> string option \<Rightarrow> job_status option \<Rightarrow> string list \<Rightarrow> int \<Rightarrow> bool \<Rightarrow> conn
   \<Rightarrow> job_summary list" where
  "list_job_summaries w uid st types limit include_active c =
     (let recent = list_jobs w uid st types limit c;
          active = (if include_active \<and> st = None
                    then limit_rows 200 (newest_first
                           (filter (\<lambda>j. list_filter w uid st types j \<and> is_active j)
                              (fetch_jobs (work c))))
                    else [])
      in map job_summary_row (newest_first (merge_rows recent active)))"

end
