(* ===== verification/JobLifecycle.thy ===== *)
theory JobLifecycle
  imports JobQueue
begin

section \<open>The life of a queued job: invariant, abstract machine, refinement\<close>

text \<open>
  The abstract specification of the queue is a machine on the table of jobs whose steps are the
  constructors of \<open>table_step\<close>: rewrite rows along the status graph \<open>lifecycle\<close>, append a fresh
  queued job, reopen one finished job, delete finished jobs.  Every operation of \<open>JobQueue\<close>
  is shown to be one such step inside SQLite's transaction discipline (\<open>conn_step\<close>), and what
  the machine keeps (\<open>jobs_ok\<close>: row invariant, unique identifiers, one active full refresh per
  user) is proved once, on the machine.
\<close>

subsection \<open>Status graph and row invariant\<close>

fun lifecycle :: "job_status \<Rightarrow> job_status \<Rightarrow> bool" where
  "lifecycle Queued s = (s = Queued \<or> s = Running \<or> s = Cancelled)"
| "lifecycle Running s = True"
| "lifecycle s s' = (s' = s)"

definition job_ok :: "job \<Rightarrow> bool" where
  "job_ok j \<longleftrightarrow>
     1 \<le> j_max_attempts j \<and> 0 \<le> j_attempts j \<and> j_attempts j \<le> j_max_attempts j
     \<and> (j_status j = Queued \<longrightarrow> j_attempts j < j_max_attempts j)
     \<and> (j_status j = Running \<longrightarrow>
          1 \<le> j_attempts j \<and> j_worker_id j \<noteq> None \<and> j_claim_token j \<noteq> None
          \<and> j_locked_until j \<noteq> None \<and> j_started_at j \<noteq> None)
     \<and> (j_status j \<noteq> Running \<longrightarrow>
          j_worker_id j = None \<and> j_claim_token j = None \<and> j_locked_until j = None)
     \<and> (is_terminal (j_status j) \<longleftrightarrow> j_finished_at j \<noteq> None)"

definition same_identity :: "job \<Rightarrow> job \<Rightarrow> bool" where
  "same_identity j j' \<longleftrightarrow>
     j_id j' = j_id j \<and> j_workspace_id j' = j_workspace_id j \<and> j_user_id j' = j_user_id j
     \<and> j_source_id j' = j_source_id j \<and> j_subscription_id j' = j_subscription_id j
     \<and> j_job_type j' = j_job_type j \<and> j_priority j' = j_priority j
     \<and> j_max_attempts j' = j_max_attempts j \<and> j_payload j' = j_payload j
     \<and> j_created_at j' = j_created_at j \<and> j_expires_at j' = j_expires_at j"

text \<open>What a row rewrite may do: token \<open>tok\<close> is the one the operation drew.\<close>

definition row_step :: "string \<Rightarrow> job \<Rightarrow> job \<Rightarrow> bool" where
  "row_step tok j j' \<longleftrightarrow>
     is_active j \<and> job_ok j' \<and> same_identity j j' \<and> lifecycle (j_status j) (j_status j')
     \<and> (j_claim_token j' = None \<or> j_claim_token j' = j_claim_token j
        \<or> j_status j = Queued \<and> j_claim_token j' = Some tok)"

definition moves_rows :: "string \<Rightarrow> (job \<Rightarrow> bool) \<Rightarrow> (job \<Rightarrow> job) \<Rightarrow> bool" where
  "moves_rows tok P f \<longleftrightarrow> (\<forall>j. job_ok j \<longrightarrow> P j \<longrightarrow> row_step tok j (f j))"

lemma lifecycle_refl [simp]: "lifecycle s s"
  by (cases s) auto

lemma is_terminal_iff: "is_terminal s \<longleftrightarrow> s \<noteq> Queued \<and> s \<noteq> Running"
  by (cases s) (auto simp: is_terminal_def)

lemma is_active_iff: "is_active j \<longleftrightarrow> \<not> is_terminal (j_status j)"
  by (auto simp: is_active_def is_terminal_iff)

lemmas row_defs = moves_rows_def row_step_def job_ok_def same_identity_def is_active_def
  is_terminal_iff

lemma moves_claimed:
  "moves_rows tok (\<lambda>j. j_id j = i \<and> is_claimable now allowed j) (claimed worker tok now until)"
  by (auto simp: row_defs claimed_def is_claimable_def split: option.splits)

lemma moves_recovered: "moves_rows tok (lease_expired now allowed) (recovered now)"
  by (auto simp: row_defs recovered_def lease_expired_def split: option.splits)

lemma moves_completed:
  "is_terminal status \<Longrightarrow>
   moves_rows tok (holds_lease jid worker t now) (completed status result code msg now)"
  by (auto simp: row_defs completed_def holds_lease_def holds_claim_def split: option.splits)

lemma moves_requeued:
  "moves_rows tok (\<lambda>j. holds_lease jid worker t now j \<and> should_retry r j)
     (requeued run_at code msg result now)"
  by (auto simp: row_defs requeued_def holds_lease_def holds_claim_def should_retry_def
      split: option.splits if_splits)

lemma moves_failed:
  "moves_rows tok (holds_lease jid worker t now) (failed code msg result now)"
  by (auto simp: row_defs failed_def holds_lease_def holds_claim_def split: option.splits)

lemma moves_invalidated:
  "moves_rows tok (holds_claim jid worker t) (invalidated reason code now)"
  by (auto simp: row_defs invalidated_def holds_claim_def keep_or_def split: option.splits)

lemma moves_retired:
  "moves_rows tok retirable (invalidated reason code now)"
  by (auto simp: row_defs invalidated_def retirable_def keep_or_def split: option.splits)

lemma moves_extended:
  "moves_rows tok (may_extend jid worker t now) (extended until now)"
  by (auto simp: row_defs extended_def may_extend_def holds_claim_def split: option.splits)

lemma moves_cancelled_while_queued:
  "(\<And>j. P j \<Longrightarrow> j_status j = Queued) \<Longrightarrow> moves_rows tok P (cancelled_while_queued now)"
  by (auto simp: row_defs cancelled_while_queued_def)

lemma moves_cancel_requested:
  "(\<And>j. P j \<Longrightarrow> j_status j = Running) \<Longrightarrow> moves_rows tok P (cancel_requested now)"
  by (auto simp: row_defs cancel_requested_def)

lemma moves_unstarted:
  "moves_rows tok (holds_claim jid worker t) (unstarted code now)"
  by (auto simp: row_defs unstarted_def holds_claim_def)

subsection \<open>The table invariant\<close>

definition feed_unique :: "job list \<Rightarrow> bool" where
  "feed_unique js \<longleftrightarrow>
     (\<forall>k. \<forall>j \<in> set js. \<forall>j' \<in> set js.
        active_feed_for k j \<longrightarrow> active_feed_for k j' \<longrightarrow> j_id j = j_id j')"

definition jobs_ok :: "job list \<Rightarrow> bool" where
  "jobs_ok js \<longleftrightarrow> distinct (map j_id js) \<and> (\<forall>j \<in> set js. job_ok j) \<and> feed_unique js"

inductive table_step :: "string \<Rightarrow> job list \<Rightarrow> job list \<Rightarrow> bool" for tok where
  stutter: "table_step tok js js"
| rewrite: "moves_rows tok P f \<Longrightarrow> table_step tok js (update_where P f js)"
| append: "j_id j = ''job_'' @ tok \<Longrightarrow> j_id j \<notin> j_id ` set js \<Longrightarrow> job_ok j \<Longrightarrow> j_status j = Queued \<Longrightarrow>
     (\<And>k j'. active_feed_for k j \<Longrightarrow> j' \<in> set js \<Longrightarrow> \<not> active_feed_for k j') \<Longrightarrow>
     table_step tok js (js @ [j])"
| reopen: "cur \<in> set js \<Longrightarrow> retryable_status (j_status cur) \<Longrightarrow>
     (\<And>j'. j_job_type cur = ''user_feed_refresh'' \<Longrightarrow> j' \<in> set js \<Longrightarrow> j_id j' \<noteq> j_id cur \<Longrightarrow>
        \<not> active_feed_for (j_workspace_id cur, j_user_id cur) j') \<Longrightarrow>
     table_step tok js
       (update_where (\<lambda>j. j_id j = j_id cur \<and> retryable_status (j_status j)) (reset_for_retry now) js)"
| delete: "(\<And>j. P j \<Longrightarrow> is_terminal (j_status j)) \<Longrightarrow>
     table_step tok js (filter (\<lambda>j. \<not> P j) js)"

lemma feed_uniqueD:
  "feed_unique js \<Longrightarrow> j \<in> set js \<Longrightarrow> j' \<in> set js \<Longrightarrow> active_feed_for k j \<Longrightarrow>
   active_feed_for k j' \<Longrightarrow> j_id j = j_id j'"
  unfolding feed_unique_def by blast

lemma jobs_ok_feed_unique: "jobs_ok js \<Longrightarrow> feed_unique js"
  by (simp add: jobs_ok_def)

lemma jobs_ok_distinct [dest]: "jobs_ok js \<Longrightarrow> distinct (map j_id js)"
  by (simp add: jobs_ok_def)

lemma jobs_ok_job_ok: "jobs_ok js \<Longrightarrow> j \<in> set js \<Longrightarrow> job_ok j"
  by (simp add: jobs_ok_def)

lemma jobs_ok_rewrite:
  assumes ok: "jobs_ok js" and rw: "moves_rows tok P f"
  shows "jobs_ok (update_where P f js)"
proof -
  have step: "row_step tok j (f j)" if "j \<in> set js" "P j" for j
    using ok rw that by (auto simp: jobs_ok_def moves_rows_def)
  have orig: "\<exists>j0 \<in> set js. j_id j0 = j_id j \<and> (active_feed_for k j \<longrightarrow> active_feed_for k j0)"
    if "j \<in> set (update_where P f js)" for j k
    using that
  proof (cases rule: in_update_whereE)
    case 1 then show ?thesis by auto
  next
    case (2 r)
    then have s: "row_step tok r (f r)" using step by blast
    show ?thesis
      using 2 s by (intro bexI [of _ r]) (auto simp: row_step_def same_identity_def active_feed_for_def)
  qed
  have "map j_id (update_where P f js) = map j_id js"
    using step by (auto simp: update_where_def row_step_def same_identity_def)
  moreover have "\<forall>j \<in> set (update_where P f js). job_ok j"
    using ok step by (auto simp: jobs_ok_def table_simps row_step_def)
  moreover have "feed_unique (update_where P f js)"
    unfolding feed_unique_def
  proof (intro allI ballI impI)
    fix k j j'
    assume j: "j \<in> set (update_where P f js)" and j': "j' \<in> set (update_where P f js)"
      and a: "active_feed_for k j" "active_feed_for k j'"
    obtain r where r: "r \<in> set js" "j_id r = j_id j" "active_feed_for k r"
      using orig [OF j, of k] a by blast
    obtain r' where r': "r' \<in> set js" "j_id r' = j_id j'" "active_feed_for k r'"
      using orig [OF j', of k] a by blast
    have "j_id r = j_id r'"
      using feed_uniqueD [OF jobs_ok_feed_unique [OF ok] r(1) r'(1) r(3) r'(3)] .
    then show "j_id j = j_id j'" using r r' by simp
  qed
  ultimately show ?thesis using ok by (simp add: jobs_ok_def)
qed

lemma jobs_ok_append:
  assumes "jobs_ok js" "j_id j \<notin> j_id ` set js" "job_ok j"
    and "\<And>k j'. active_feed_for k j \<Longrightarrow> j' \<in> set js \<Longrightarrow> \<not> active_feed_for k j'"
  shows "jobs_ok (js @ [j])"
proof -
  have "feed_unique (js @ [j])"
    unfolding feed_unique_def
  proof (intro allI ballI impI)
    fix k a b
    assume mem: "a \<in> set (js @ [j])" "b \<in> set (js @ [j])"
      and act: "active_feed_for k a" "active_feed_for k b"
    have "a = j \<and> b = j \<or> a \<in> set js \<and> b \<in> set js"
      using mem act assms(4) [of k] by auto
    then show "j_id a = j_id b"
      using feed_uniqueD [OF jobs_ok_feed_unique [OF assms(1)] _ _ act] by blast
  qed
  then show ?thesis using assms(1-3) by (auto simp: jobs_ok_def)
qed

lemma jobs_ok_filter: "jobs_ok js \<Longrightarrow> jobs_ok (filter P js)"
  by (auto simp: jobs_ok_def feed_unique_def distinct_map inj_on_def)

lemma job_ok_reset: "job_ok j \<Longrightarrow> job_ok (reset_for_retry now j)"
  by (auto simp: job_ok_def reset_for_retry_def is_terminal_def)

lemma jobs_ok_reopen:
  assumes ok: "jobs_ok js" and cur: "cur \<in> set js" "retryable_status (j_status cur)"
    and free: "\<And>j'. j_job_type cur = ''user_feed_refresh'' \<Longrightarrow> j' \<in> set js \<Longrightarrow>
      j_id j' \<noteq> j_id cur \<Longrightarrow> \<not> active_feed_for (j_workspace_id cur, j_user_id cur) j'"
  shows "jobs_ok (update_where (\<lambda>j. j_id j = j_id cur \<and> retryable_status (j_status j))
    (reset_for_retry now) js)" (is "jobs_ok (update_where ?P ?f js)")
proof -
  have only: "j = cur" if "j \<in> set js" "j_id j = j_id cur" for j
    using ok cur that lookup_row_unique by (metis jobs_ok_def)
  have "map j_id (update_where ?P ?f js) = map j_id js"
    by (rule map_update_where_keep) (simp add: reset_for_retry_def)
  moreover have "\<forall>j \<in> set (update_where ?P ?f js). job_ok j"
    using ok by (auto simp: jobs_ok_def table_simps job_ok_reset)
  moreover have "feed_unique (update_where ?P ?f js)"
    unfolding feed_unique_def
  proof (intro allI ballI impI)
    have split: "j = ?f cur \<or> j \<in> set js \<and> j_id j \<noteq> j_id cur"
      if "j \<in> set (update_where ?P ?f js)" for j
      using that cur only by (auto simp: table_simps)
    have clash: "j_id j = j_id cur" if "active_feed_for k (?f cur)" "active_feed_for k j" "j \<in> set js"
      for k j
      using that free [of j] by (cases k) (auto simp: active_feed_for_def reset_for_retry_def)
    fix k j j'
    assume j: "j \<in> set (update_where ?P ?f js)" and j': "j' \<in> set (update_where ?P ?f js)"
      and a: "active_feed_for k j" "active_feed_for k j'"
    have id: "j_id (?f cur) = j_id cur" by (simp add: reset_for_retry_def)
    show "j_id j = j_id j'"
      using split [OF j] split [OF j'] a clash id ok
      by (metis feed_unique_def jobs_ok_def)
  qed
  ultimately show ?thesis using ok by (simp add: jobs_ok_def)
qed

theorem table_step_keeps: "table_step tok js js' \<Longrightarrow> jobs_ok js \<Longrightarrow> jobs_ok js'"
proof (induction rule: table_step.induct)
  case (stutter js)
  then show ?case .
next
  case (rewrite P f js)
  then show ?case by (blast intro: jobs_ok_rewrite)
next
  case (append j js)
  then show ?case by (intro jobs_ok_append) auto
next
  case (reopen cur js now)
  then show ?case by (intro jobs_ok_reopen) auto
next
  case (delete P js)
  then show ?case by (simp add: jobs_ok_filter)
qed

subsection \<open>The connection around the table\<close>

text \<open>
  One operation, seen from the table: it is rolled back to the committed table, or it makes one
  \<open>table_step\<close> that stays pending in an open transaction or is committed.
\<close>

definition conn_step :: "string \<Rightarrow> conn \<Rightarrow> conn \<Rightarrow> bool" where
  "conn_step tok c c' \<longleftrightarrow>
     clock c' = clock c \<and> uuid_hex c' = uuid_hex c \<and>
     (work c' = durable c \<and> durable c' = durable c \<and> \<not> in_tx c'
      \<or> table_step tok (fetch_jobs (work c)) (fetch_jobs (work c'))
        \<and> (durable c' = durable c \<and> (in_tx c' \<or> \<not> in_tx c \<and> work c' = work c)
           \<or> durable c' = work c' \<and> \<not> in_tx c'))"

definition op_step :: "conn \<Rightarrow> conn \<Rightarrow> bool" where
  "op_step c c' \<longleftrightarrow>
     conn_step (uuid_hex c (drawn c)) c c' \<and> drawn c' = Suc (drawn c)
     \<or> (\<forall>tok. conn_step tok c c') \<and> drawn c' = drawn c"

definition queue_inv :: "conn \<Rightarrow> bool" where
  "queue_inv c \<longleftrightarrow>
     conn_ok c \<and> jobs_ok (fetch_jobs (work c)) \<and> jobs_ok (fetch_jobs (durable c))"

lemma fetch_jobs_update_jobs [table_simps, simp]:
  "fetch_jobs (update_jobs P f d) = update_where P f (fetch_jobs d)"
  by (simp add: update_jobs_def)

lemma fetch_jobs_forget_health [table_simps, simp]: "fetch_jobs (forget_health_of i d) = fetch_jobs d"
  by (simp add: forget_health_of_def)

lemma fetch_jobs_delete_jobs [table_simps, simp]:
  "fetch_jobs (delete_jobs P d) = filter (\<lambda>j. \<not> P j) (fetch_jobs d)"
  by (simp add: delete_jobs_def Let_def)

lemma insert_job_Inr:
  "insert_job j d = Inr d' \<longleftrightarrow>
     j_id j \<notin> j_id ` set (fetch_jobs d) \<and> job_fk_ok d j
     \<and> d' = d\<lparr>fetch_jobs := fetch_jobs d @ [j]\<rparr>"
  by (auto simp: insert_job_def)

lemma conn_step_refl: "conn_ok c \<Longrightarrow> conn_step tok c c"
  by (auto simp: conn_step_def conn_ok_def intro: table_step.stutter)

lemma conn_step_keeps:
  "conn_step tok c c' \<Longrightarrow> queue_inv c \<Longrightarrow> queue_inv c'"
  by (auto simp: conn_step_def queue_inv_def conn_ok_def dest: table_step_keeps)

lemma op_step_keeps: "op_step c c' \<Longrightarrow> queue_inv c \<Longrightarrow> queue_inv c'"
  by (auto simp: op_step_def dest: conn_step_keeps)

lemma op_step_same: "conn_ok c \<Longrightarrow> op_step c c"
  by (simp add: op_step_def conn_step_refl)

lemma begin_immediate_cases:
  obtains "in_tx c"
      "begin_immediate c =
         (Inl (OperationalError ''cannot start a transaction within a transaction''), c)"
  | "\<not> in_tx c" "begin_immediate c = (Inr (), c\<lparr>in_tx := True\<rparr>)"
  by (cases "in_tx c") (auto simp: begin_immediate_def)

text \<open>A rewriting statement, left pending, committed or rolled back.\<close>

lemma conn_step_update:
  assumes "moves_rows tok P f" and "fetch_jobs (work c') = update_where P f (fetch_jobs (work c))"
    and "clock c' = clock c" "uuid_hex c' = uuid_hex c"
    and "durable c' = durable c \<and> in_tx c' \<or> durable c' = work c' \<and> \<not> in_tx c'"
  shows "conn_step tok c c'"
  using assms table_step.rewrite [OF assms(1), of "fetch_jobs (work c)"]
  by (auto simp: conn_step_def)

lemma conn_step_rollback:
  "work c' = durable c \<Longrightarrow> durable c' = durable c \<Longrightarrow> \<not> in_tx c' \<Longrightarrow> clock c' = clock c \<Longrightarrow>
   uuid_hex c' = uuid_hex c \<Longrightarrow> conn_step tok c c'"
  by (simp add: conn_step_def)

subsection \<open>Every operation is a step\<close>

lemma queued_job_ok [simp]: "job_ok (queued_job jid now a)"
  by (auto simp: job_ok_def queued_job_def is_terminal_def)

lemma queued_job_fields [simp]:
  "j_id (queued_job jid now a) = jid" "j_status (queued_job jid now a) = Queued"
  "j_job_type (queued_job jid now a) = ja_job_type a"
  "j_workspace_id (queued_job jid now a) = ja_workspace_id a"
  "j_user_id (queued_job jid now a) = ja_user_id a"
  "j_claim_token (queued_job jid now a) = None"
  "j_source_id (queued_job jid now a) = ja_source_id a"
  "j_subscription_id (queued_job jid now a) = ja_subscription_id a"
  by (simp_all add: queued_job_def)

lemma table_step_append_queued:
  assumes "insert_job (queued_job jid now a) d = Inr d'" and jid: "jid = ''job_'' @ tok"
    and "ja_job_type a = ''user_feed_refresh'' \<Longrightarrow>
      \<forall>j \<in> set (fetch_jobs d). \<not> active_feed_for (ja_workspace_id a, ja_user_id a) j"
  shows "table_step tok (fetch_jobs d) (fetch_jobs d')"
proof -
  have "fetch_jobs d' = fetch_jobs d @ [queued_job jid now a]"
    and "jid \<notin> j_id ` set (fetch_jobs d)"
    using assms(1) by (auto simp: insert_job_Inr)
  moreover have "table_step tok (fetch_jobs d) (fetch_jobs d @ [queued_job jid now a])"
    if "jid \<notin> j_id ` set (fetch_jobs d)"
  proof (rule table_step.append)
    fix k j'
    assume "active_feed_for k (queued_job jid now a)" "j' \<in> set (fetch_jobs d)"
    then show "\<not> active_feed_for k j'"
      using assms(3) by (cases k) (auto simp: active_feed_for_def)
  qed (use that jid in simp_all)
  ultimately show ?thesis by simp
qed

lemma feed_refresh_body_step:
  "table_step tok (fetch_jobs d) (fetch_jobs (snd (feed_refresh_body (''job_'' @ tok) now a d)))"
proof (cases "first_by active_order (active_feed_for (ja_workspace_id a, ja_user_id a)) (fetch_jobs d)")
  case None
  then have free: "\<forall>j \<in> set (fetch_jobs d). \<not> active_feed_for (ja_workspace_id a, ja_user_id a) j"
    by (simp add: first_by_None_iff)
  show ?thesis
    using None free
    by (auto simp: feed_refresh_body_def split: sum.splits option.splits
        intro: table_step.stutter table_step_append_queued)
next
  case (Some j)
  then show ?thesis by (simp add: feed_refresh_body_def table_step.stutter)
qed

lemma source_fetch_body_step:
  "table_step tok (fetch_jobs d)
     (fetch_jobs (snd (source_fetch_body (''job_'' @ tok) now src sub a d)))"
  by (auto simp: source_fetch_body_def split: sum.splits option.splits
      intro: table_step.stutter table_step_append_queued)

lemma conn_step_owned_transaction:
  assumes "conn_ok c" and "table_step tok (fetch_jobs (work c)) (fetch_jobs (snd (body (work c))))"
  shows "conn_step tok c (snd (owned_transaction body c))"
  using assms
  by (cases "in_tx c")
     (auto simp: owned_transaction_new owned_transaction_nested conn_step_def conn_ok_def
       split: sum.splits prod.splits)

lemma owned_transaction_drawn [simp]: "drawn (snd (owned_transaction body c)) = drawn c"
  by (cases "in_tx c")
     (auto simp: owned_transaction_new owned_transaction_nested split: sum.splits prod.splits)

lemma new_uuid_simps [simp]:
  "fst (new_uuid c) = uuid_hex c (drawn c)" "snd (new_uuid c) = c\<lparr>drawn := Suc (drawn c)\<rparr>"
  by (simp_all add: new_uuid_def)

lemma conn_ok_drawn [simp]: "conn_ok (c\<lparr>drawn := n\<rparr>) = conn_ok c"
  by (simp add: conn_ok_def)

lemma conn_step_drawn [simp]: "conn_step tok (c\<lparr>drawn := n\<rparr>) c' = conn_step tok c c'"
  by (simp add: conn_step_def)

lemma op_step_create_feed:
  assumes "conn_ok c"
  shows "op_step c (snd (create_user_feed_refresh_if_absent a c))"
  using conn_step_owned_transaction [of "c\<lparr>drawn := Suc (drawn c)\<rparr>" "uuid_hex c (drawn c)"
      "feed_refresh_body (''job_'' @ uuid_hex c (drawn c)) (clock c) a"]
    assms feed_refresh_body_step
  by (simp add: op_step_def create_user_feed_refresh_if_absent_def new_uuid_def)

lemma op_step_create_fetch:
  assumes "conn_ok c"
  shows "op_step c (snd (create_source_fetch_if_absent src sub a c))"
  using conn_step_owned_transaction [of "c\<lparr>drawn := Suc (drawn c)\<rparr>" "uuid_hex c (drawn c)"
      "source_fetch_body (''job_'' @ uuid_hex c (drawn c)) (clock c) src sub a"]
    assms source_fetch_body_step
  by (simp add: op_step_def create_source_fetch_if_absent_def new_uuid_def)

lemma op_step_create_job:
  assumes "conn_ok c"
  shows "op_step c (snd (create_job a do_commit c))"
proof (cases "ja_job_type a = ''user_feed_refresh''")
  case True
  then show ?thesis
    using assms op_step_create_feed [OF assms, of a]
    by (auto simp: create_job_def op_step_same split: sum.splits prod.splits)
next
  case False
  then show ?thesis
    using assms table_step_append_queued [of "''job_'' @ uuid_hex c (drawn c)" "clock c" a "work c"]
    by (auto simp: create_job_def new_uuid_def Let_def op_step_def conn_step_def
        split: sum.splits option.splits intro: table_step.stutter)
qed

lemma op_step_claim:
  assumes "conn_ok c"
  shows "op_step c (snd (claim_next_job worker lease allowed c))"
proof -
  let ?tok = "uuid_hex c (drawn c)" and ?c1 = "c\<lparr>drawn := Suc (drawn c)\<rparr>"
  have "conn_step ?tok c (snd (claim_next_job worker lease allowed c))"
  proof (cases "in_tx c")
    case True
    then show ?thesis
      using assms
      by (simp add: claim_next_job_def new_uuid_def Let_def begin_immediate_def
          rollback_if_open_def conn_step_rollback)
  next
    case False
    show ?thesis
    proof (cases "first_by claim_order (is_claimable (clock c) allowed) (fetch_jobs (work c))")
      case None
      then show ?thesis
        using False assms
        by (simp add: claim_next_job_def new_uuid_def Let_def begin_immediate_def
            conn_step_def conn_ok_def table_step.stutter)
    next
      case (Some row)
      let ?P = "\<lambda>j. j_id j = j_id row \<and> is_claimable (clock c) allowed j"
      let ?f = "claimed worker ?tok (clock c) (clock c + max lease (seconds 1))"
      show ?thesis
      proof (cases "job_row_count ?P (work c) = 1")
        case True
        with Some False show ?thesis
          by (intro conn_step_update [OF moves_claimed [of ?tok "j_id row" "clock c" allowed worker
                  "clock c + max lease (seconds 1)"]])
             (simp_all add: claim_next_job_def new_uuid_def Let_def begin_immediate_def)
      next
        case no: False
        with Some False show ?thesis
          by (intro conn_step_rollback)
             (simp_all add: claim_next_job_def new_uuid_def Let_def begin_immediate_def)
      qed
    qed
  qed
  moreover have "drawn (snd (claim_next_job worker lease allowed c)) = Suc (drawn c)"
    by (auto simp: claim_next_job_def new_uuid_def Let_def begin_immediate_def
        split: option.splits)
  ultimately show ?thesis by (simp add: op_step_def)
qed

lemma op_step_recover:
  assumes "conn_ok c"
  shows "op_step c (snd (recover_stale_running_jobs at allowed c))"
proof -
  let ?now = "case at of None \<Rightarrow> clock c | Some t \<Rightarrow> t"
  show ?thesis
  proof (cases "in_tx c")
    case True
    then show ?thesis
      by (simp add: recover_stale_running_jobs_def Let_def begin_immediate_def op_step_def
          rollback_if_open_def conn_step_rollback)
  next
    case False
    have "conn_step tok c (snd (recover_stale_running_jobs at allowed c))" for tok
      using False
      by (intro conn_step_update [OF moves_recovered [of tok ?now allowed]])
         (simp_all add: recover_stale_running_jobs_def Let_def begin_immediate_def)
    moreover have "drawn (snd (recover_stale_running_jobs at allowed c)) = drawn c"
      using False by (simp add: recover_stale_running_jobs_def Let_def begin_immediate_def)
    ultimately show ?thesis by (simp add: op_step_def)
  qed
qed

lemma op_step_requeue_stale:
  "conn_ok c \<Longrightarrow> op_step c (snd (requeue_stale_running_jobs at allowed c))"
  using op_step_recover [of c at allowed]
  by (auto simp: requeue_stale_running_jobs_def split: sum.splits prod.splits)

text \<open>A statement that rewrites the rows of \<open>P\<close>, outside BEGIN IMMEDIATE.\<close>

lemma op_step_statement:
  assumes "\<And>tok. moves_rows tok P f"
    and "c' \<in> {dml (update_jobs P f) c, commit (dml (update_jobs P f) c),
               rollback (dml (update_jobs P f) c)}"
  shows "op_step c c'"
proof -
  have "conn_step tok c c'" for tok
  proof (cases "c' = rollback (dml (update_jobs P f) c)")
    case True
    then show ?thesis by (intro conn_step_rollback) simp_all
  next
    case False
    with assms(2) show ?thesis
      by (intro conn_step_update [OF assms(1)]) auto
  qed
  moreover have "drawn c' = drawn c" using assms(2) by auto
  ultimately show ?thesis by (simp add: op_step_def)
qed

lemma rollback_if_open_dml [simp]: "rollback_if_open (dml f c) = rollback (dml f c)"
  by (simp add: rollback_if_open_def)

lemma op_step_complete:
  assumes "conn_ok c"
  shows "op_step c (snd (complete_job jid status result code msg worker token do_commit c))"
proof (cases "status \<in> set (removeAll Running (removeAll Queued JOB_STATUSES))
    \<and> truthy worker \<and> truthy token")
  case True
  then have "is_terminal status" by (auto simp: is_terminal_iff)
  then show ?thesis
    using True
    by (intro op_step_statement [OF moves_completed])
       (auto simp: complete_job_def Let_def split: option.splits)
next
  case False
  then show ?thesis using assms by (auto simp: complete_job_def op_step_same)
qed

lemma op_step_cancel_claimed:
  assumes "conn_ok c"
  shows "op_step c (snd (cancel_claimed_job jid reason worker token code do_commit c))"
proof (cases "truthy worker \<and> truthy token")
  case True
  then show ?thesis
    by (intro op_step_statement [OF moves_invalidated])
       (auto simp: cancel_claimed_job_def Let_def split: option.splits)
next
  case False
  then show ?thesis using assms by (auto simp: cancel_claimed_job_def op_step_same)
qed

lemma op_step_extend:
  assumes "conn_ok c"
  shows "op_step c (snd (extend_job_lease jid worker token lease c))"
proof (cases "truthy worker \<and> truthy token")
  case True
  then show ?thesis
    by (intro op_step_statement [OF moves_extended])
       (auto simp: extend_job_lease_def Let_def split: option.splits)
next
  case False
  then show ?thesis using assms by (auto simp: extend_job_lease_def op_step_same)
qed

lemma update_where_cong_on:
  "(\<And>r. r \<in> set rows \<Longrightarrow> P r = Q r) \<Longrightarrow> update_where P f rows = update_where Q f rows"
  by (simp add: update_where_def)

lemma find_SomeD: "find P xs = Some x \<Longrightarrow> x \<in> set xs \<and> P x"
  by (auto simp: find_Some_iff)

lemma find_unique_row:
  assumes "distinct (map key rows)" and "find P rows = Some r" and "\<And>r. P r \<Longrightarrow> key r = k"
  shows "\<And>r'. r' \<in> set rows \<Longrightarrow> P r' \<Longrightarrow> r' = r"
  using assms by (metis find_SomeD lookup_row_unique)

lemma holds_lease_id: "holds_lease jid worker token now j \<Longrightarrow> j_id j = jid"
  by (simp add: holds_lease_def holds_claim_def)

lemma op_step_fail_or_retry:
  assumes inv: "queue_inv c"
  shows "op_step c (snd (fail_or_retry_job jid code msg r base result worker token do_commit c))"
proof (cases "truthy worker \<and> truthy token")
  case False
  with inv show ?thesis by (auto simp: fail_or_retry_job_def op_step_same queue_inv_def)
next
  case True
  let ?now = "clock c" and ?js = "fetch_jobs (work c)"
  let ?P = "holds_lease jid worker token ?now"
  let ?out = "snd (fail_or_retry_job jid code msg r base result worker token do_commit c)"
  show ?thesis
  proof (cases "find ?P ?js")
    case None
    with True show ?thesis
      by (auto simp: fail_or_retry_job_def Let_def op_step_def intro!: conn_step_rollback)
  next
    case (Some cur)
    let ?f = "if should_retry r cur
              then requeued (?now + retry_delay base (j_attempts cur)) code msg result ?now
              else failed code msg result ?now"
    have only: "j = cur" if "j \<in> set ?js" "?P j" for j
      using find_unique_row [OF _ Some holds_lease_id that] inv
      by (auto simp: queue_inv_def jobs_ok_def)
    obtain Q where Q: "update_where ?P ?f ?js = update_where Q ?f ?js" "\<And>tok. moves_rows tok Q ?f"
    proof (cases "should_retry r cur")
      case yes: True
      have "update_where ?P ?f ?js = update_where (\<lambda>j. ?P j \<and> should_retry r j) ?f ?js"
        using only yes by (intro update_where_cong_on) auto
      with yes that moves_requeued show ?thesis by simp
    next
      case no: False
      with that [of ?P] moves_failed show ?thesis by simp
    qed
    have out: "fetch_jobs (work ?out) = update_where Q ?f ?js \<and> (durable ?out = durable c \<and> in_tx ?out
        \<or> durable ?out = work ?out \<and> \<not> in_tx ?out)
      \<or> work ?out = durable c \<and> durable ?out = durable c \<and> \<not> in_tx ?out"
      and env: "clock ?out = clock c" "uuid_hex ?out = uuid_hex c" "drawn ?out = drawn c"
      using True Some Q(1)
      by (auto simp: fail_or_retry_job_def Let_def split: option.splits)
    have "conn_step tok c ?out" for tok
      using out
    proof
      assume "fetch_jobs (work ?out) = update_where Q ?f ?js \<and> (durable ?out = durable c \<and> in_tx ?out
        \<or> durable ?out = work ?out \<and> \<not> in_tx ?out)"
      then show ?thesis using env by (intro conn_step_update [OF Q(2)]) auto
    next
      assume "work ?out = durable c \<and> durable ?out = durable c \<and> \<not> in_tx ?out"
      then show ?thesis using env by (intro conn_step_rollback) auto
    qed
    then show ?thesis using env(3) by (simp add: op_step_def)
  qed
qed

lemma cancel_body_step:
  "table_step tok (fetch_jobs d) (fetch_jobs (snd (cancel_body now jid uid d)))"
  by (auto simp: cancel_body_def split: option.splits
      intro!: table_step.stutter table_step.rewrite moves_cancelled_while_queued
        moves_cancel_requested)

lemma cancel_job_in_tx:
  "in_tx c \<Longrightarrow> snd (cancel_job jid uid c) = rollback c"
  by (simp add: cancel_job_def begin_immediate_def rollback_if_open_def)

lemma cancel_job_refused:
  assumes "\<not> in_tx c" and "cancel_body (clock c) jid uid (work c) = (Inl e, d)"
  shows "cancel_job jid uid c = (Inl e, rollback (c\<lparr>in_tx := True, work := d\<rparr>))"
  using assms by (simp add: cancel_job_def begin_immediate_def rollback_if_open_def)

lemma cancel_job_done:
  assumes "\<not> in_tx c" and "cancel_body (clock c) jid uid (work c) = (Inr u, d)"
  shows "snd (cancel_job jid uid c) = commit (c\<lparr>in_tx := True, work := d\<rparr>)"
  unfolding cancel_job_def begin_immediate_def using assms
  by (simp only: Let_def if_False sum.case prod.case) (simp split: option.split)

lemma op_step_cancel:
  assumes "conn_ok c"
  shows "op_step c (snd (cancel_job jid uid c))"
proof (cases "in_tx c")
  case True
  then show ?thesis by (simp add: cancel_job_in_tx op_step_def conn_step_rollback)
next
  case False
  obtain r d where b: "cancel_body (clock c) jid uid (work c) = (r, d)" by fastforce
  have "table_step tok (fetch_jobs (work c)) (fetch_jobs d)" for tok
    using cancel_body_step [of tok "work c" "clock c" jid uid] b by simp
  note st = this
  show ?thesis
  proof (cases r)
    case (Inl e)
    have "snd (cancel_job jid uid c) = rollback (c\<lparr>in_tx := True, work := d\<rparr>)"
      by (simp only: cancel_job_refused [OF False b [unfolded Inl]] snd_conv)
    then show ?thesis by (simp add: op_step_def conn_step_rollback)
  next
    case (Inr u)
    have "snd (cancel_job jid uid c) = commit (c\<lparr>in_tx := True, work := d\<rparr>)"
      by (rule cancel_job_done [OF False b [unfolded Inr]])
    with st show ?thesis by (simp add: op_step_def conn_step_def)
  qed
qed

lemma find_job_SomeD: "find_job jid d = Some j \<Longrightarrow> j \<in> set (fetch_jobs d) \<and> j_id j = jid"
  unfolding find_job_def by (rule lookup_row_SomeD)

lemma retry_body_step:
  "jobs_ok (fetch_jobs d) \<Longrightarrow>
   table_step tok (fetch_jobs d) (fetch_jobs (snd (retry_body now jid uid d)))"
proof (cases "find_job jid d")
  case None
  then show ?thesis by (simp add: retry_body_def table_step.stutter)
next
  case (Some cur)
  note cur = find_job_SomeD [OF Some]
  show ?thesis
  proof (cases "retryable_status (j_status cur) \<and> retry_replacement cur d = None")
    case True
    have "table_step tok (fetch_jobs d)
      (update_where (\<lambda>j. j_id j = j_id cur \<and> retryable_status (j_status j))
        (reset_for_retry now) (fetch_jobs d))"
    proof (rule table_step.reopen)
      fix j'
      assume "j_job_type cur = ''user_feed_refresh''" "j' \<in> set (fetch_jobs d)"
        "j_id j' \<noteq> j_id cur"
      with True show "\<not> active_feed_for (j_workspace_id cur, j_user_id cur) j'"
        by (auto simp: retry_replacement_def Let_def first_by_None_iff)
    qed (use cur True in auto)
    with Some cur True show ?thesis
      by (auto simp: retry_body_def Let_def intro: table_step.stutter)
  next
    case False
    with Some show ?thesis
      by (auto simp: retry_body_def intro: table_step.stutter split: option.splits)
  qed
qed

lemma row_count_one:
  assumes "distinct (map key rows)" "r \<in> set rows" "P r" "\<And>r. P r \<Longrightarrow> key r = k"
  shows "row_count P rows = 1"
  using row_count_key_le_1 [OF assms(1,4)] row_count_pos_iff [of P rows] assms(2,3)
  by (metis One_nat_def Suc_leI le_antisym)

lemma retry_body_fails_unchanged:
  assumes "jobs_ok (fetch_jobs d)" "retry_body now jid uid d = (Inl e, d')"
  shows "d' = d"
proof (cases "find_job jid d")
  case None
  with assms show ?thesis by (simp add: retry_body_def)
next
  case (Some cur)
  note cur = find_job_SomeD [OF Some]
  have "retryable_status (j_status cur) \<Longrightarrow>
    job_row_count (\<lambda>j. j_id j = jid \<and> retryable_status (j_status j)) d = 1"
    unfolding job_row_count_def
    by (rule row_count_one [where key = j_id and r = cur and k = jid])
       (use assms(1) cur in \<open>auto simp: jobs_ok_def\<close>)
  with assms Some show ?thesis
    by (auto simp: retry_body_def Let_def split: if_splits option.splits)
qed

lemma retry_body_answer_unchanged:
  "retry_body now jid uid d = (Inr (Some j), d') \<Longrightarrow> d' = d"
  by (auto simp: retry_body_def Let_def split: if_splits option.splits)

lemma op_step_retry:
  assumes "queue_inv c"
  shows "op_step c (snd (retry_job jid uid do_commit c))"
proof -
  let ?body = "retry_body (clock c) jid uid"
  have ok: "conn_ok c" "jobs_ok (fetch_jobs (work c))" using assms by (auto simp: queue_inv_def)
  have st: "table_step tok (fetch_jobs (work c)) (fetch_jobs (snd (?body (work c))))" for tok
    by (rule retry_body_step [OF ok(2)])
  show ?thesis
  proof (cases do_commit)
    case True
    then have "snd (retry_job jid uid do_commit c) = snd (owned_transaction ?body c)"
      by (auto simp: retry_job_def Let_def split: prod.splits sum.splits option.splits)
    then show ?thesis
      using conn_step_owned_transaction [where body = ?body, OF ok(1) st] by (simp add: op_step_def)
  next
    case False
    obtain r d where b: "?body (work c) = (r, d)" by fastforce
    have "snd (retry_job jid uid do_commit c) =
      (if r = Inr None then c\<lparr>work := d, in_tx := True\<rparr> else c)"
      using False b retry_body_fails_unchanged [OF ok(2)] retry_body_answer_unchanged
      by (fastforce simp: retry_job_def Let_def split: sum.splits option.splits)
    moreover have "table_step tok (fetch_jobs (work c)) (fetch_jobs d)" for tok
      using st [of tok] b by simp
    ultimately show ?thesis
      using ok(1) by (auto simp: op_step_def conn_step_def conn_ok_def intro: table_step.stutter)
  qed
qed

lemma op_step_prune:
  assumes "conn_ok c"
  shows "op_step c (snd (prune_terminal_jobs at c))"
proof -
  let ?now = "case at of None \<Rightarrow> clock c | Some t \<Rightarrow> t"
  have "table_step tok (fetch_jobs (work c)) (filter (\<lambda>j. \<not> prunable ?now j) (fetch_jobs (work c)))"
    for tok
    by (rule table_step.delete) (simp add: prunable_def)
  then show ?thesis
    by (simp add: prune_terminal_jobs_def Let_def op_step_def conn_step_def del: filter_filter)
qed

lemma op_step_retire:
  assumes "conn_ok c"
  shows "op_step c (snd (retire_queued_actorops_v1_jobs c))"
proof (cases "in_tx c")
  case True
  then show ?thesis
    by (auto simp: retire_queued_actorops_v1_jobs_def begin_immediate_def op_step_def
        rollback_if_open_def intro!: conn_step_rollback)
next
  case False
  let ?out = "snd (retire_queued_actorops_v1_jobs c)"
  have "table_step tok (fetch_jobs (work c)) (fetch_jobs (work ?out))" for tok
    using False
    by (auto simp: retire_queued_actorops_v1_jobs_def begin_immediate_def Let_def
        intro: table_step.stutter table_step.rewrite moves_retired)
  then show ?thesis
    using False
    by (auto simp: retire_queued_actorops_v1_jobs_def begin_immediate_def Let_def op_step_def
        conn_step_def)
qed

lemma op_step_requeue_unstarted:
  assumes "conn_ok c"
  shows "op_step c (snd (requeue_unstarted_claim jid worker token code c))"
proof (cases "in_tx c")
  case True
  then show ?thesis
    by (auto simp: requeue_unstarted_claim_def begin_immediate_def op_step_def
        rollback_if_open_def intro!: conn_step_rollback)
next
  case False
  have "op_step (c\<lparr>in_tx := True\<rparr>) (snd (requeue_unstarted_claim jid worker token code c))"
    using False
    by (intro op_step_statement [OF moves_unstarted])
       (auto simp: requeue_unstarted_claim_def begin_immediate_def Let_def)
  moreover have "in_tx (snd (requeue_unstarted_claim jid worker token code c)) = False"
    using False by (simp add: requeue_unstarted_claim_def begin_immediate_def Let_def)
  ultimately show ?thesis by (auto simp: op_step_def conn_step_def)
qed

subsection \<open>Runs\<close>

text \<open>
  Every operation of the queue with its arguments, the transaction statements a caller may
  issue around them, and the passing of time.
\<close>

datatype queue_op =
    CreateJob job_args bool
  | CreateFeed job_args
  | CreateFetch string string job_args
  | Claim string time "string list option"
  | Recover "time option" "string list option"
  | Complete string job_status "json option" "string option" "string option" string string bool
  | FailOrRetry string string string bool time "json option" string string bool
  | CancelClaimed string string string string string bool
  | Extend string string string time
  | CancelJob string "string option"
  | RetryJob string "string option" bool
  | Prune "time option"
  | RetireV1
  | RequeueUnstarted string string string string
  | Begin
  | Commit
  | Rollback
  | Tick nat

fun exec_op :: "queue_op \<Rightarrow> conn \<Rightarrow> conn" where
  "exec_op (CreateJob a b) c = snd (create_job a b c)"
| "exec_op (CreateFeed a) c = snd (create_user_feed_refresh_if_absent a c)"
| "exec_op (CreateFetch s b a) c = snd (create_source_fetch_if_absent s b a c)"
| "exec_op (Claim w l ts) c = snd (claim_next_job w l ts c)"
| "exec_op (Recover at ts) c = snd (recover_stale_running_jobs at ts c)"
| "exec_op (Complete i st r e m w t b) c = snd (complete_job i st r e m w t b c)"
| "exec_op (FailOrRetry i e m rt base r w t b) c = snd (fail_or_retry_job i e m rt base r w t b c)"
| "exec_op (CancelClaimed i why w t e b) c = snd (cancel_claimed_job i why w t e b c)"
| "exec_op (Extend i w t l) c = snd (extend_job_lease i w t l c)"
| "exec_op (CancelJob i u) c = snd (cancel_job i u c)"
| "exec_op (RetryJob i u b) c = snd (retry_job i u b c)"
| "exec_op (Prune at) c = snd (prune_terminal_jobs at c)"
| "exec_op RetireV1 c = snd (retire_queued_actorops_v1_jobs c)"
| "exec_op (RequeueUnstarted i w t e) c = snd (requeue_unstarted_claim i w t e c)"
| "exec_op Begin c = snd (begin_immediate c)"
| "exec_op Commit c = commit c"
| "exec_op Rollback c = rollback c"
| "exec_op (Tick n) c = c\<lparr>clock := clock c + int n\<rparr>"

fun exec_ops :: "queue_op list \<Rightarrow> conn \<Rightarrow> conn" where
  "exec_ops [] c = c"
| "exec_ops (x # xs) c = exec_ops xs (exec_op x c)"

lemma exec_ops_append [simp]: "exec_ops (xs @ ys) c = exec_ops ys (exec_ops xs c)"
  by (induction xs arbitrary: c) auto

lemmas op_steps = op_step_create_job op_step_create_feed op_step_create_fetch op_step_claim
  op_step_recover op_step_complete op_step_cancel_claimed op_step_extend op_step_cancel
  op_step_prune op_step_retire op_step_requeue_unstarted

text \<open>Time passing aside, every element of a run is a step of the abstract machine.\<close>

lemma exec_op_step:
  assumes "queue_inv c" and "\<nexists>n. x = Tick n"
  shows "op_step c (exec_op x c)"
proof -
  have ok: "conn_ok c" using assms by (simp add: queue_inv_def)
  have begins: "op_step c (snd (begin_immediate c))"
    by (auto simp: op_step_def conn_step_def begin_immediate_def intro: table_step.stutter)
  have commits: "op_step c (commit c)"
    by (auto simp: op_step_def conn_step_def intro: table_step.stutter)
  have rolls: "op_step c (rollback c)"
    by (auto simp: op_step_def conn_step_def)
  show ?thesis
    using assms ok begins commits rolls
    by (cases x) (simp_all add: op_steps op_step_fail_or_retry op_step_retry)
qed

lemma queue_inv_tick: "queue_inv c \<Longrightarrow> queue_inv (c\<lparr>clock := t\<rparr>)"
  by (simp add: queue_inv_def conn_ok_def)

lemma exec_op_keeps: "queue_inv c \<Longrightarrow> queue_inv (exec_op x c)"
  using exec_op_step [of c x] op_step_keeps queue_inv_tick
  by (cases "\<exists>n. x = Tick n") auto

lemma exec_ops_keeps: "queue_inv c \<Longrightarrow> queue_inv (exec_ops xs c)"
  by (induction xs arbitrary: c) (auto intro: exec_op_keeps)

subsection \<open>Claim tokens\<close>

definition row_tokens :: "job list \<Rightarrow> (string \<times> string) set" where
  "row_tokens js = {(i, t). \<exists>j \<in> set js. j_id j = i \<and> j_claim_token j = Some t}"

definition tokens :: "conn \<Rightarrow> (string \<times> string) set" where
  "tokens c = row_tokens (fetch_jobs (work c)) \<union> row_tokens (fetch_jobs (durable c))"

definition drawn_uuids :: "conn \<Rightarrow> string set" where
  "drawn_uuids c = uuid_hex c ` {..<drawn c}"

lemma table_step_tokens:
  "table_step tok js js' \<Longrightarrow> jobs_ok js \<Longrightarrow> row_tokens js' \<subseteq> UNIV \<times> {tok} \<union> row_tokens js"
proof (induction rule: table_step.induct)
  case (rewrite P f js)
  show ?case
  proof (rule subrelI)
    fix i t assume "(i, t) \<in> row_tokens (update_where P f js)"
    then obtain j where j: "j \<in> set (update_where P f js)" "j_id j = i" "j_claim_token j = Some t"
      by (auto simp: row_tokens_def)
    show "(i, t) \<in> UNIV \<times> {tok} \<union> row_tokens js"
      using j(1)
    proof (cases rule: in_update_whereE)
      case 1
      with j show ?thesis by (auto simp: row_tokens_def)
    next
      case (2 r)
      then have "row_step tok r (f r)"
        using rewrite by (auto simp: moves_rows_def jobs_ok_def)
      with 2 j show ?thesis by (auto simp: row_step_def row_tokens_def same_identity_def)
    qed
  qed
next
  case (append j js)
  then have "j_claim_token j = None" by (auto simp: job_ok_def)
  then show ?case by (auto simp: row_tokens_def)
qed (auto simp: row_tokens_def table_simps reset_for_retry_def)

lemma conn_step_tokens:
  "conn_step tok c c' \<Longrightarrow> queue_inv c \<Longrightarrow> tokens c' \<subseteq> UNIV \<times> {tok} \<union> tokens c"
  using table_step_tokens [of tok "fetch_jobs (work c)" "fetch_jobs (work c')"]
  by (auto simp: conn_step_def tokens_def queue_inv_def)

lemma op_step_tokens:
  assumes "op_step c c'" "queue_inv c"
  shows "uuid_hex c' = uuid_hex c \<and>
    (tokens c' \<subseteq> tokens c \<and> drawn c' = drawn c
     \<or> tokens c' \<subseteq> UNIV \<times> {uuid_hex c (drawn c)} \<union> tokens c \<and> drawn c' = Suc (drawn c))"
proof (cases "drawn c' = Suc (drawn c)")
  case True
  then have "conn_step (uuid_hex c (drawn c)) c c'" using assms by (auto simp: op_step_def)
  with conn_step_tokens [OF this assms(2)] True show ?thesis by (auto simp: conn_step_def)
next
  case False
  then have s: "conn_step tok c c'" and d: "drawn c' = drawn c" for tok
    using assms by (auto simp: op_step_def)
  have "tokens c' \<subseteq> (UNIV \<times> {''a''} \<union> tokens c) \<inter> (UNIV \<times> {''b''} \<union> tokens c)"
    using conn_step_tokens [OF s assms(2)] by blast
  then show ?thesis using s d by (auto simp: conn_step_def)
qed

text \<open>A token that was drawn and that no version of the job's row holds is spent for the job.\<close>

definition spent :: "string \<Rightarrow> string \<Rightarrow> conn \<Rightarrow> bool" where
  "spent i t c \<longleftrightarrow> t \<in> drawn_uuids c \<and> (i, t) \<notin> tokens c"

lemma spent_op_step:
  assumes "op_step c c'" "queue_inv c" "inj (uuid_hex c)" "spent i t c"
  shows "spent i t c'"
proof -
  have "t \<noteq> uuid_hex c (drawn c)"
    using assms(3,4) by (auto simp: spent_def drawn_uuids_def dest: injD)
  then show ?thesis
    using op_step_tokens [OF assms(1,2)] assms(4)
    by (fastforce simp: spent_def drawn_uuids_def)
qed

lemma spent_exec_op:
  assumes "queue_inv c" "inj (uuid_hex c)" "spent i t c"
  shows "spent i t (exec_op x c)"
proof (cases "\<exists>n. x = Tick n")
  case True
  with assms(3) show ?thesis by (auto simp: spent_def drawn_uuids_def tokens_def)
next
  case False
  then show ?thesis using exec_op_step [OF assms(1) False] spent_op_step assms by blast
qed

lemma exec_op_uuid_hex: "queue_inv c \<Longrightarrow> uuid_hex (exec_op x c) = uuid_hex c"
  using exec_op_step [of c x] op_step_tokens [of c "exec_op x c"]
  by (cases "\<exists>n. x = Tick n") auto

lemma spent_forever:
  "queue_inv c \<Longrightarrow> inj (uuid_hex c) \<Longrightarrow> spent i t c \<Longrightarrow> spent i t (exec_ops xs c)"
  by (induction xs arbitrary: c) (auto simp: exec_op_uuid_hex exec_op_keeps spent_exec_op)

subsection \<open>Succeeded jobs\<close>

text \<open>All versions of the row with identifier \<open>i\<close> are \<open>j\<close>, and \<open>i\<close> cannot be drawn again.\<close>

definition settled :: "job \<Rightarrow> conn \<Rightarrow> bool" where
  "settled j c \<longleftrightarrow>
     j_id j \<in> (@) ''job_'' ` drawn_uuids c
     \<and> (\<forall>j' \<in> set (fetch_jobs (work c)) \<union> set (fetch_jobs (durable c)).
          j_id j' = j_id j \<longrightarrow> j' = j)"

lemma table_step_settled:
  "table_step tok js js' \<Longrightarrow> jobs_ok js \<Longrightarrow> j_status j = Succeeded \<Longrightarrow> j_id j \<noteq> ''job_'' @ tok \<Longrightarrow>
   \<forall>r \<in> set js. j_id r = j_id j \<longrightarrow> r = j \<Longrightarrow> \<forall>r \<in> set js'. j_id r = j_id j \<longrightarrow> r = j"
proof (induction rule: table_step.induct)
  case (rewrite P f js)
  show ?case
  proof (intro ballI impI)
    fix r assume r: "r \<in> set (update_where P f js)" and i: "j_id r = j_id j"
    show "r = j"
      using r
    proof (cases rule: in_update_whereE)
      case 1
      with rewrite i show ?thesis by blast
    next
      case (2 r0)
      then have "row_step tok r0 (f r0)"
        using rewrite by (auto simp: moves_rows_def jobs_ok_def)
      with 2 rewrite i show ?thesis by (auto simp: row_step_def same_identity_def is_active_def)
    qed
  qed
qed (auto simp: table_simps reset_for_retry_def retryable_status_def)

lemma conn_step_settled:
  assumes "conn_step tok c c'" "queue_inv c" "j_status j = Succeeded" "j_id j \<noteq> ''job_'' @ tok"
    and "\<forall>r \<in> set (fetch_jobs (work c)) \<union> set (fetch_jobs (durable c)). j_id r = j_id j \<longrightarrow> r = j"
  shows "\<forall>r \<in> set (fetch_jobs (work c')) \<union> set (fetch_jobs (durable c')). j_id r = j_id j \<longrightarrow> r = j"
  using assms table_step_settled [of tok "fetch_jobs (work c)" "fetch_jobs (work c')" j]
  by (auto simp: conn_step_def queue_inv_def)

lemma settled_exec_op:
  assumes "queue_inv c" "inj (uuid_hex c)" "j_status j = Succeeded" "settled j c"
  shows "settled j (exec_op x c)"
proof (cases "\<exists>n. x = Tick n")
  case True
  with assms(4) show ?thesis by (auto simp: settled_def drawn_uuids_def)
next
  case False
  let ?c' = "exec_op x c"
  have st: "op_step c ?c'" using exec_op_step [OF assms(1) False] .
  obtain u where u: "j_id j = ''job_'' @ u" "u \<in> drawn_uuids c"
    using assms(4) by (auto simp: settled_def)
  have fresh: "u \<noteq> uuid_hex c (drawn c)"
    using u(2) assms(2) by (auto simp: drawn_uuids_def dest: injD)
  obtain tok where tok: "conn_step tok c ?c'" "u \<noteq> tok"
  proof (cases "drawn ?c' = Suc (drawn c)")
    case True
    with st fresh that show ?thesis by (auto simp: op_step_def)
  next
    case False
    with st that [of "CHR ''x'' # u"] show ?thesis by (auto simp: op_step_def)
  qed
  have "drawn_uuids c \<subseteq> drawn_uuids ?c'"
    using op_step_tokens [OF st assms(1)] by (auto simp: drawn_uuids_def)
  then have "j_id j \<in> (@) ''job_'' ` drawn_uuids ?c'"
    using u by blast
  moreover have "\<forall>r \<in> set (fetch_jobs (work ?c')) \<union> set (fetch_jobs (durable ?c')).
      j_id r = j_id j \<longrightarrow> r = j"
  proof (rule conn_step_settled [OF tok(1) assms(1,3)])
    show "j_id j \<noteq> ''job_'' @ tok" using u(1) tok(2) by simp
    show "\<forall>r \<in> set (fetch_jobs (work c)) \<union> set (fetch_jobs (durable c)). j_id r = j_id j \<longrightarrow> r = j"
      using assms(4) unfolding settled_def by (elim conjE)
  qed
  ultimately show ?thesis by (simp only: settled_def)
qed

lemma settled_forever:
  "queue_inv c \<Longrightarrow> inj (uuid_hex c) \<Longrightarrow> j_status j = Succeeded \<Longrightarrow> settled j c \<Longrightarrow>
   settled j (exec_ops xs c)"
  by (induction xs arbitrary: c) (auto simp: exec_op_uuid_hex exec_op_keeps settled_exec_op)

end
