(* ===== verification/JobQueueSpec.thy ===== *)
theory JobQueueSpec
  imports JobLifecycle
begin

section \<open>What each operation of the queue does\<close>

text \<open>
  The functional behaviour of the operations of \<open>JobQueue\<close> under the invariant of
  \<open>JobLifecycle\<close>, branch by branch: a guarded UPDATE that addresses one job either rewrites
  exactly the row its caller holds (\<open>set_row\<close>) or touches nothing and is refused.  The
  properties of the queue follow, each with a witness on a small concrete database.
\<close>

lemma claim_next_job_new:
  assumes "\<not> in_tx c"
  shows "claim_next_job worker lease allowed c =
    (let tok = uuid_hex c (drawn c); now = clock c; until = now + max lease (seconds 1)
     in case first_by claim_order (is_claimable now allowed) (fetch_jobs (work c)) of
          None \<Rightarrow> (Inr None, commit (c\<lparr>drawn := Suc (drawn c), in_tx := True\<rparr>))
        | Some row \<Rightarrow>
            (let P = (\<lambda>j. j_id j = j_id row \<and> is_claimable now allowed j);
                 c3 = dml (update_jobs P (claimed worker tok now until))
                        (c\<lparr>drawn := Suc (drawn c), in_tx := True\<rparr>)
             in if job_row_count P (work c) \<noteq> 1 then (Inr None, rollback c3)
                else (Inr (get_job (j_id row) c3), commit c3)))"
  using assms by (simp add: claim_next_job_def new_uuid_def begin_immediate_def Let_def cong: option.case_cong)

lemma is_claimable_count:
  assumes "jobs_ok js" "row \<in> set js" "is_claimable now allowed row"
  shows "row_count (\<lambda>j. j_id j = j_id row \<and> is_claimable now allowed j) js = 1"
  by (rule row_count_one [where key = j_id and r = row and k = "j_id row"])
     (use assms in \<open>auto simp: jobs_ok_def\<close>)

lemma find_job_update:
  assumes "\<And>j. P j \<Longrightarrow> j_id (f j) = j_id j"
  shows "find_job jid (update_jobs P f d) =
    map_option (\<lambda>j. if P j then f j else j) (find_job jid d)"
  unfolding find_job_def fetch_jobs_update_jobs
  by (rule lookup_row_update_where) (rule assms)

lemma find_job_eqI:
  "jobs_ok (fetch_jobs d) \<Longrightarrow> j \<in> set (fetch_jobs d) \<Longrightarrow> find_job (j_id j) d = Some j"
  unfolding find_job_def by (rule lookup_row_eqI) (auto simp: jobs_ok_def)

text \<open>A claim takes the first claimable row in queue order, or there is none.\<close>

lemma claim_next_job_some:
  assumes "queue_inv c" "\<not> in_tx c"
    and best: "first_by claim_order (is_claimable (clock c) allowed) (fetch_jobs (work c)) = Some row"
  shows "claim_next_job worker lease allowed c =
    (let j = claimed worker (uuid_hex c (drawn c)) (clock c) (clock c + max lease (seconds 1)) row;
         d = (work c)\<lparr>fetch_jobs := update_where (\<lambda>r. r = row) (\<lambda>_. j) (fetch_jobs (work c))\<rparr>
     in (Inr (Some j), c\<lparr>drawn := Suc (drawn c), work := d, durable := d\<rparr>))"
proof -
  note row = first_by_SomeD [OF best]
  let ?P = "\<lambda>j. j_id j = j_id row \<and> is_claimable (clock c) allowed j"
  let ?f = "claimed worker (uuid_hex c (drawn c)) (clock c) (clock c + max lease (seconds 1))"
  have ok: "jobs_ok (fetch_jobs (work c))" using assms by (simp add: queue_inv_def)
  have one: "job_row_count ?P (work c) = 1"
    unfolding job_row_count_def using ok row by (intro is_claimable_count) auto
  have only: "update_where ?P ?f (fetch_jobs (work c)) =
      update_where (\<lambda>r. r = row) (\<lambda>_. ?f row) (fetch_jobs (work c))"
    unfolding update_where_def
  proof (rule map_cong [OF refl])
    fix r assume "r \<in> set (fetch_jobs (work c))"
    moreover have "distinct (map j_id (fetch_jobs (work c)))" using ok by (simp add: jobs_ok_def)
    ultimately have "j_id r = j_id row \<Longrightarrow> r = row" using row lookup_row_unique by metis
    then show "(if ?P r then ?f r else r) = (if r = row then ?f row else r)" using row by auto
  qed
  have upd: "update_jobs ?P ?f (work c) =
      (work c)\<lparr>fetch_jobs := update_where (\<lambda>r. r = row) (\<lambda>_. ?f row) (fetch_jobs (work c))\<rparr>"
    by (simp add: update_jobs_def only)
  have got: "find_job (j_id row) (update_jobs ?P ?f (work c)) = Some (?f row)"
    using find_job_update [of ?P ?f "j_id row" "work c"] find_job_eqI [OF ok row(1)] row
    by (auto simp: claimed_def)
  show ?thesis
    using one got assms(2)
    by (simp add: claim_next_job_new best Let_def get_job_def commit_def dml_def upd)
qed

lemma claim_next_job_none:
  assumes "queue_inv c" "\<not> in_tx c"
    and "first_by claim_order (is_claimable (clock c) allowed) (fetch_jobs (work c)) = None"
  shows "claim_next_job worker lease allowed c = (Inr None, c\<lparr>drawn := Suc (drawn c)\<rparr>)"
  using assms by (simp add: claim_next_job_new Let_def commit_def queue_inv_def conn_ok_def)

text \<open>A guarded statement on one row: who passes the guard, and what is left when nobody does.\<close>

definition set_row :: "job \<Rightarrow> job \<Rightarrow> db \<Rightarrow> db" where
  "set_row row j d = d\<lparr>fetch_jobs := update_where (\<lambda>r. r = row) (\<lambda>_. j) (fetch_jobs d)\<rparr>"

lemma held_row_unique:
  assumes "jobs_ok (fetch_jobs d)" "row \<in> set (fetch_jobs d)" "P row" "\<And>j. P j \<Longrightarrow> j_id j = jid"
  shows "find P (fetch_jobs d) = Some row"
proof -
  have "find P (fetch_jobs d) \<noteq> None" using assms(2,3) by (auto simp: find_None_iff)
  then obtain r where r: "find P (fetch_jobs d) = Some r" by blast
  have "row = r"
    by (rule find_unique_row [where P = P, OF _ r assms(4) assms(2,3)]) (use assms(1) in \<open>auto simp: jobs_ok_def\<close>)
  with r show ?thesis by simp
qed

lemma guard_count:
  assumes "jobs_ok js" "\<And>j. P j \<Longrightarrow> j_id j = jid"
  shows "row_count P js = 1 \<longleftrightarrow> (\<exists>j \<in> set js. P j)"
  using row_count_key_le_1 [of j_id js P jid] assms row_count_pos_iff [of P js]
  by (auto simp: jobs_ok_def le_Suc_eq)

lemma update_one_row:
  assumes "jobs_ok (fetch_jobs d)" "\<And>j. P j \<Longrightarrow> j_id j = jid" "row \<in> set (fetch_jobs d)" "P row"
  shows "update_jobs P f d =
    set_row row (f row) d"
proof -
  have "P r \<longleftrightarrow> r = row" if "r \<in> set (fetch_jobs d)" for r
    using assms that lookup_row_unique [of j_id "fetch_jobs d" r row] by (auto simp: jobs_ok_def)
  then have "update_where P f (fetch_jobs d) = update_where (\<lambda>r. r = row) (\<lambda>_. f row) (fetch_jobs d)"
    by (auto simp: update_where_def)
  then show ?thesis by (simp add: update_jobs_def set_row_def)
qed

lemma find_after_update_one:
  assumes "jobs_ok (fetch_jobs d)" "row \<in> set (fetch_jobs d)" "j_id j = j_id row"
  shows "find_job (j_id row) (set_row row j d) = Some j"
proof -
  have "distinct (map j_id (update_where (\<lambda>r. r = row) (\<lambda>_. j) (fetch_jobs d)))"
    using assms map_update_where_keep [of "\<lambda>r. r = row" j_id "\<lambda>_. j" "fetch_jobs d"]
    by (auto simp: jobs_ok_def)
  moreover have "j \<in> set (update_where (\<lambda>r. r = row) (\<lambda>_. j) (fetch_jobs d))"
    using assms by (auto simp: table_simps)
  ultimately have "lookup_row j_id (j_id row) (update_where (\<lambda>r. r = row) (\<lambda>_. j) (fetch_jobs d)) = Some j"
    using assms(3) by (rule lookup_row_eqI)
  then show ?thesis by (simp add: find_job_def set_row_def)
qed

text \<open>A statement that addresses one job by its identifier and leaves the identifier alone.\<close>

definition addresses :: "string \<Rightarrow> (job \<Rightarrow> bool) \<Rightarrow> bool" where
  "addresses jid P \<longleftrightarrow> (\<forall>j. P j \<longrightarrow> j_id j = jid)"

definition keeps_id :: "(job \<Rightarrow> job) \<Rightarrow> bool" where
  "keeps_id f \<longleftrightarrow> (\<forall>j. j_id (f j) = j_id j)"

lemma addresses_guards [simp]:
  "addresses jid (holds_claim jid worker token)" "addresses jid (holds_lease jid worker token now)"
  "addresses jid (may_extend jid worker token now)" "addresses jid (\<lambda>j. j_id j = jid \<and> Q j)"
  by (auto simp: addresses_def holds_lease_def holds_claim_def may_extend_def)

lemma keeps_id_writes [simp]:
  "keeps_id (completed status result code msg now)" "keeps_id (requeued at c m result now)"
  "keeps_id (failed c m result now)" "keeps_id (invalidated reason c now)"
  "keeps_id (extended until now)" "keeps_id (unstarted c now)"
  "keeps_id (cancelled_while_queued now)" "keeps_id (cancel_requested now)"
  "keeps_id (reset_for_retry now)" "keeps_id (recovered now)"
  by (auto simp: keeps_id_def completed_def requeued_def failed_def invalidated_def extended_def
      unstarted_def cancelled_while_queued_def cancel_requested_def reset_for_retry_def
      recovered_def)

lemma guard_passed:
  assumes "jobs_ok (fetch_jobs d)" "addresses jid P" "keeps_id f" "row \<in> set (fetch_jobs d)" "P row"
  shows "job_row_count P d = 1 \<and> update_jobs P f d = set_row row (f row) d
    \<and> find_job jid (set_row row (f row) d) = Some (f row) \<and> find P (fetch_jobs d) = Some row"
proof (intro conjI)
  have id: "\<And>j. P j \<Longrightarrow> j_id j = jid" using assms(2) by (simp add: addresses_def)
  show "job_row_count P d = 1"
    unfolding job_row_count_def
    by (rule iffD2 [OF guard_count [OF assms(1)]]) (use assms id in blast)+
  show "update_jobs P f d = set_row row (f row) d"
    by (rule update_one_row [where P = P and jid = jid]) (use assms id in auto)
  have "j_id (f row) = j_id row" using assms(3) by (simp add: keeps_id_def)
  then show "find_job jid (set_row row (f row) d) = Some (f row)"
    using find_after_update_one [OF assms(1,4)] id [OF assms(5)] by simp
  show "find P (fetch_jobs d) = Some row"
    by (rule held_row_unique [where P = P, OF assms(1,4,5) id])
qed

lemma guard_refused:
  "(\<And>row. row \<in> set (fetch_jobs d) \<Longrightarrow> \<not> P row) \<Longrightarrow> job_row_count P d = 0"
  by (simp add: job_row_count_def row_count_def)

lemma rollback_dml [simp]: "rollback (dml f c) = rollback c"
  by (simp add: rollback_def dml_def)

lemma complete_job_accepted:
  assumes "queue_inv c" "is_terminal status" "truthy worker" "truthy token"
    and row: "row \<in> set (fetch_jobs (work c))" "holds_lease jid worker token (clock c) row"
  shows "complete_job jid status result code msg worker token do_commit c =
    (let j = completed status result code msg (clock c) row; d = set_row row j (work c)
     in (Inr j, c\<lparr>work := d, durable := (if do_commit then d else durable c),
                  in_tx := \<not> do_commit\<rparr>))"
proof -
  let ?P = "holds_lease jid worker token (clock c)"
  have "status \<in> set (removeAll Running (removeAll Queued JOB_STATUSES))"
    using assms(2) by (cases status) (auto simp: JOB_STATUSES_def is_terminal_def)
  moreover have "jobs_ok (fetch_jobs (work c))" using assms by (simp add: queue_inv_def)
  ultimately show ?thesis
    using guard_passed [where jid = jid and P = ?P and f = "completed status result code msg (clock c)", of "work c" row]
      row assms(3,4)
    by (simp add: complete_job_def Let_def get_job_def commit_def dml_def)
qed

lemma complete_job_refused:
  assumes "is_terminal status" "truthy worker" "truthy token"
    and none: "\<And>row. row \<in> set (fetch_jobs (work c)) \<Longrightarrow> \<not> holds_lease jid worker token (clock c) row"
  shows "complete_job jid status result code msg worker token do_commit c =
    (Inl (claim_conflict jid (rollback c)), rollback c)"
proof -
  have "status \<in> set (removeAll Running (removeAll Queued JOB_STATUSES))"
    using assms(1) by (cases status) (auto simp: JOB_STATUSES_def is_terminal_def)
  then show ?thesis
    using guard_refused [where P = "holds_lease jid worker token (clock c)", OF none] assms(2,3)
    by (simp add: complete_job_def Let_def claim_conflict_def get_job_def)
qed

text \<open>A failure reported under a valid lease: back to the queue while attempts remain, with an
  exponential delay, and failed for good otherwise.\<close>

definition after_failure ::
  "string \<Rightarrow> string \<Rightarrow> bool \<Rightarrow> time \<Rightarrow> json option \<Rightarrow> time \<Rightarrow> job \<Rightarrow> job" where
  "after_failure code msg retryable base result now j =
     (if should_retry retryable j
      then requeued (now + retry_delay base (j_attempts j)) code msg result now j
      else failed code msg result now j)"

lemma fail_or_retry_job_accepted:
  assumes "queue_inv c" "truthy worker" "truthy token"
    and row: "row \<in> set (fetch_jobs (work c))" "holds_lease jid worker token (clock c) row"
  shows "fail_or_retry_job jid code msg retryable base result worker token do_commit c =
    (let j = after_failure code msg retryable base result (clock c) row; d = set_row row j (work c)
     in (Inr j, c\<lparr>work := d, durable := (if do_commit then d else durable c),
                  in_tx := \<not> do_commit\<rparr>))"
proof -
  let ?P = "holds_lease jid worker token (clock c)"
  let ?retry = "requeued (clock c + retry_delay base (j_attempts row)) code msg result (clock c)"
  let ?fail = "failed code msg result (clock c)"
  have ok: "jobs_ok (fetch_jobs (work c))" using assms by (simp add: queue_inv_def)
  show ?thesis
    using assms(2,3) guard_passed [where jid = jid and P = ?P and f = ?retry, OF ok _ _ row]
      guard_passed [where jid = jid and P = ?P and f = ?fail, OF ok _ _ row]
    by (simp add: fail_or_retry_job_def Let_def after_failure_def get_job_def commit_def dml_def)
qed

lemma fail_or_retry_job_refused:
  assumes "truthy worker" "truthy token"
    and none: "\<And>row. row \<in> set (fetch_jobs (work c)) \<Longrightarrow> \<not> holds_lease jid worker token (clock c) row"
  shows "fail_or_retry_job jid code msg retryable base result worker token do_commit c =
    (Inl (claim_conflict jid (rollback c)), rollback c)"
proof -
  have "find (holds_lease jid worker token (clock c)) (fetch_jobs (work c)) = None"
    using none by (auto simp: find_None_iff)
  then show ?thesis
    using assms(1,2)
    by (simp add: fail_or_retry_job_def Let_def claim_conflict_def get_job_def rollback_def)
qed

lemma extend_job_lease_accepted:
  assumes "queue_inv c" "truthy worker" "truthy token"
    and row: "row \<in> set (fetch_jobs (work c))" "holds_lease jid worker token (clock c) row"
  shows "extend_job_lease jid worker token lease c =
    (let j = extended (clock c + max lease (seconds 1)) (clock c) row; d = set_row row j (work c)
     in (Inr j, c\<lparr>work := d, durable := d, in_tx := False\<rparr>))"
proof -
  let ?P = "may_extend jid worker token (clock c)"
  have ok: "jobs_ok (fetch_jobs (work c))" using assms by (simp add: queue_inv_def)
  have P: "?P row" using row(2) by (auto simp: holds_lease_def may_extend_def split: option.splits)
  show ?thesis
    using assms(2,3) guard_passed [where jid = jid and P = ?P and f = "extended (clock c + max lease (seconds 1)) (clock c)",
        OF ok _ _ row(1) P]
    by (simp add: extend_job_lease_def Let_def get_job_def commit_def dml_def)
qed

lemma extend_job_lease_refused:
  assumes "queue_inv c" "truthy worker" "truthy token"
    and none: "\<And>row. row \<in> set (fetch_jobs (work c)) \<Longrightarrow> \<not> holds_lease jid worker token (clock c) row"
  shows "extend_job_lease jid worker token lease c =
    (Inl (claim_conflict jid (commit c)), commit c)"
proof -
  let ?P = "may_extend jid worker token (clock c)"
  have none': "\<not> ?P row" if "row \<in> set (fetch_jobs (work c))" for row
  proof
    assume "?P row"
    moreover from this that have "j_locked_until row \<noteq> None"
      using assms(1) jobs_ok_job_ok [of "fetch_jobs (work c)" row]
      by (auto simp: may_extend_def holds_claim_def queue_inv_def job_ok_def)
    ultimately have "holds_lease jid worker token (clock c) row"
      by (auto simp: may_extend_def holds_lease_def split: option.splits)
    with none that show False by blast
  qed
  have "update_jobs ?P f (work c) = work c" for f
    using none' by (simp add: update_jobs_def update_where_none)
  then show ?thesis
    using assms(2,3) guard_refused [where P = ?P, OF none']
    by (simp add: extend_job_lease_def Let_def commit_def dml_def claim_conflict_def get_job_def)
qed

lemma cancel_claimed_job_accepted:
  assumes "queue_inv c" "truthy worker" "truthy token"
    and row: "row \<in> set (fetch_jobs (work c))" "holds_claim jid worker token row"
  shows "cancel_claimed_job jid reason worker token code do_commit c =
    (let j = invalidated reason code (clock c) row; d = set_row row j (work c)
     in (Inr j, c\<lparr>work := d, durable := (if do_commit then d else durable c),
                  in_tx := \<not> do_commit\<rparr>))"
proof -
  let ?P = "holds_claim jid worker token"
  have ok: "jobs_ok (fetch_jobs (work c))" using assms by (simp add: queue_inv_def)
  show ?thesis
    using assms(2,3) guard_passed [where jid = jid and P = ?P and f = "invalidated reason code (clock c)", OF ok _ _ row]
    by (simp add: cancel_claimed_job_def Let_def get_job_def commit_def dml_def)
qed

lemma requeue_unstarted_claim_accepted:
  assumes "queue_inv c" "\<not> in_tx c"
    and row: "row \<in> set (fetch_jobs (work c))" "holds_claim jid worker token row"
  shows "requeue_unstarted_claim jid worker token code c =
    (let j = unstarted code (clock c) row; d = set_row row j (work c)
     in (Inr (Some j), c\<lparr>work := d, durable := d\<rparr>))"
proof -
  let ?P = "holds_claim jid worker token"
  have ok: "jobs_ok (fetch_jobs (work c))" using assms by (simp add: queue_inv_def)
  show ?thesis
    using assms(2) guard_passed [where jid = jid and P = ?P and f = "unstarted code (clock c)", OF ok _ _ row]
    by (simp add: requeue_unstarted_claim_def begin_immediate_def Let_def get_job_def commit_def
        dml_def)
qed

text \<open>Recovery of expired leases.\<close>

lemma recover_stale_running_jobs_new:
  assumes "\<not> in_tx c"
  shows "recover_stale_running_jobs at allowed c =
    (let now = (case at of None \<Rightarrow> clock c | Some t \<Rightarrow> t);
         d = update_jobs (lease_expired now allowed) (recovered now) (work c)
     in (Inr (map recovery_row
               (sort_key created_then_id (filter (lease_expired now allowed) (fetch_jobs (work c))))),
         c\<lparr>work := d, durable := d\<rparr>))"
  using assms
  by (simp add: recover_stale_running_jobs_def begin_immediate_def Let_def commit_def dml_def
      cong: option.case_cong)

text \<open>Cancellation by a user.\<close>

definition cancellable :: "job \<Rightarrow> bool" where
  "cancellable j \<longleftrightarrow> j_status j = Queued \<or> j_status j = Running \<and> j_job_type j = ''user_feed_refresh''"

definition after_cancel :: "time \<Rightarrow> job \<Rightarrow> job" where
  "after_cancel now j =
     (if j_status j = Queued then cancelled_while_queued now j else cancel_requested now j)"

lemma cancel_job_accepted:
  assumes "queue_inv c" "\<not> in_tx c" "find_job jid (work c) = Some row"
    "uid = None \<or> uid = Some (j_user_id row)" "cancellable row"
  shows "cancel_job jid uid c =
    (let j = after_cancel (clock c) row; d = set_row row j (work c)
     in (Inr j, c\<lparr>work := d, durable := d\<rparr>))"
proof -
  have ok: "jobs_ok (fetch_jobs (work c))" using assms(1) by (simp add: queue_inv_def)
  have mem: "row \<in> set (fetch_jobs (work c))" and id: "j_id row = jid"
    using find_job_SomeD [OF assms(3)] by auto
  show ?thesis
  proof (cases "j_status row = Queued")
    case True
    then have q: "j_id row = jid \<and> j_status row = Queued" using id by simp
    show ?thesis
      using assms(2-4) True guard_passed [where jid = jid and f = "cancelled_while_queued (clock c)"
          and P = "\<lambda>j. j_id j = jid \<and> j_status j = Queued", OF ok _ _ mem q]
      by (auto simp: cancel_job_def begin_immediate_def cancel_body_def after_cancel_def Let_def
          get_job_def commit_def)
  next
    case False
    then have q: "j_id row = jid \<and> j_status row = Running \<and> j_job_type row = ''user_feed_refresh''"
      using id assms(5) by (simp add: cancellable_def)
    show ?thesis
      using assms(2-4) q guard_passed [where jid = jid and f = "cancel_requested (clock c)"
          and P = "\<lambda>j. j_id j = jid \<and> j_status j = Running \<and> j_job_type j = ''user_feed_refresh''", OF ok _ _ mem q]
      by (auto simp: cancel_job_def begin_immediate_def cancel_body_def after_cancel_def Let_def
          get_job_def commit_def)
  qed
qed

end
