(* ===== verification/Samples.thy ===== *)
theory Samples
  imports JobLifecycle
begin

section \<open>A small database for the witnesses\<close>

text \<open>
  Concrete inputs on which the hypotheses of the properties hold: one workspace with two users,
  one source with a subscription, and an identifier source that never repeats itself.
\<close>

definition unary :: "nat \<Rightarrow> string" where
  "unary n = replicate n CHR ''a''"

lemma inj_unary: "inj unary"
  by (rule injI) (metis length_replicate unary_def)

definition sample_db :: db where
  "sample_db =
     \<lparr>workspaces = [''w''],
      users = [\<lparr>u_id = ''u'', u_workspace_id = ''w'', u_role = ''user'', u_enabled = True\<rparr>,
               \<lparr>u_id = ''v'', u_workspace_id = ''w'', u_role = ''admin'', u_enabled = True\<rparr>],
      source_catalog =
        [\<lparr>s_id = ''s'', s_workspace_id = ''w'', s_scope = ''workspace'', s_owner_user_id = None,
          s_type = ''rss'', s_config = [], s_enabled = True\<rparr>],
      user_subscriptions =
        [\<lparr>us_id = ''b'', us_user_id = ''u'', us_source_id = ''s'', us_enabled = True\<rparr>],
      fetch_jobs = [], user_feed_schedules = [], user_source_schedules = [],
      user_source_health = [], user_source_health_applications = [], usage_events = [], agent_delegations = [],
      workspace_system_settings =
        [\<lparr>ws_workspace_id = ''w'', ws_overrides = Some (JObj []), ws_generation = 1,
          ws_updated_by = None, ws_updated_at = 0\<rparr>],
      system_setting_change_proposals = [], system_settings_migrated = True,
      feed_storage_v3_pending = False\<rparr>"

definition plain_args :: "string \<Rightarrow> int \<Rightarrow> job_args" where
  "plain_args t p = \<lparr>ja_workspace_id = ''w'', ja_user_id = ''u'', ja_job_type = t, ja_payload = None,
     ja_source_id = Some ''s'', ja_subscription_id = Some ''b'', ja_priority = p, ja_max_attempts = 2, ja_delay = 0,
     ja_retention_days = Some 7\<rparr>"

definition sample0 :: conn where
  "sample0 = open_conn sample_db 1000 unary"

definition sample1 :: conn where
  "sample1 = exec_ops [CreateJob (plain_args ''source_test'' 1) True, CreateJob (plain_args ''source_test'' 5) True] sample0"

definition sample_claimed :: conn where
  "sample_claimed = exec_ops [Claim ''w1'' (seconds 5) None] sample1"

definition sample_feed :: conn where
  "sample_feed = exec_ops [CreateFeed (plain_args ''x'' 1)] sample0"

definition sample_done :: conn where
  "sample_done =
     exec_ops [Complete ''job_a'' Succeeded None None None ''w1'' ''aa'' True] sample_claimed"

lemma some_outcome:
  "(case fst r of Inr (Some x) \<Rightarrow> True | _ \<Rightarrow> False) \<Longrightarrow> \<exists>x s. r = (Inr (Some x), s)"
  by (cases r) (auto split: sum.splits option.splits)

lemma any_outcome: "isl (fst r) = False \<Longrightarrow> \<exists>x s. r = (Inr x, s)"
  by (cases r) (auto simp: isl_def split: sum.splits, metis sum.exhaust)

end
