(* ===== verification/QueueReach.thy ===== *)
theory QueueReach
  imports JobQueueSpec Samples
begin

section \<open>Reachable states of the queue\<close>

text \<open>
  The states that runs of queue operations, transaction statements and clock ticks reach from
  an empty queue: they satisfy the invariant, and every identifier and claim token in them was
  drawn from the random source.
\<close>

subsection \<open>Identifiers and tokens were drawn\<close>

definition row_ids :: "conn \<Rightarrow> string set" where
  "row_ids c = j_id ` (set (fetch_jobs (work c)) \<union> set (fetch_jobs (durable c)))"

definition drawn_only :: "conn \<Rightarrow> bool" where
  "drawn_only c \<longleftrightarrow> tokens c \<subseteq> UNIV \<times> drawn_uuids c \<and> row_ids c \<subseteq> (@) ''job_'' ` drawn_uuids c"

lemma table_step_ids:
  "table_step tok js js' \<Longrightarrow> jobs_ok js \<Longrightarrow> j_id ` set js' \<subseteq> insert (''job_'' @ tok) (j_id ` set js)"
proof (induction rule: table_step.induct)
  case (rewrite P f js)
  show ?case
  proof
    fix i assume "i \<in> j_id ` set (update_where P f js)"
    then obtain r where r: "r \<in> set (update_where P f js)" "i = j_id r" by auto
    from r(1) show "i \<in> insert (''job_'' @ tok) (j_id ` set js)"
    proof (cases rule: in_update_whereE)
      case (2 r0)
      then have "row_step tok r0 (f r0)"
        using rewrite by (auto simp: moves_rows_def jobs_ok_def)
      with 2 r(2) show ?thesis by (auto simp: row_step_def same_identity_def)
    qed (use r(2) in auto)
  qed
qed (auto simp: table_simps reset_for_retry_def)

lemma conn_step_ids:
  "conn_step tok c c' \<Longrightarrow> queue_inv c \<Longrightarrow> row_ids c' \<subseteq> insert (''job_'' @ tok) (row_ids c)"
proof -
  assume st: "conn_step tok c c'" and inv: "queue_inv c"
  from st have "work c' = durable c \<and> durable c' = durable c
    \<or> table_step tok (fetch_jobs (work c)) (fetch_jobs (work c'))
      \<and> (durable c' = durable c \<or> durable c' = work c')"
    by (auto simp: conn_step_def)
  then show ?thesis
  proof (elim disjE conjE)
    assume "table_step tok (fetch_jobs (work c)) (fetch_jobs (work c'))" and d: "durable c' = durable c"
    then show ?thesis
      using table_step_ids [of tok "fetch_jobs (work c)" "fetch_jobs (work c')"] inv
      unfolding row_ids_def image_Un d queue_inv_def by blast
  next
    assume "table_step tok (fetch_jobs (work c)) (fetch_jobs (work c'))" and d: "durable c' = work c'"
    then show ?thesis
      using table_step_ids [of tok "fetch_jobs (work c)" "fetch_jobs (work c')"] inv
      unfolding row_ids_def image_Un d queue_inv_def by blast
  qed (auto simp: row_ids_def)
qed

lemma op_step_ids:
  assumes "op_step c c'" "queue_inv c"
  shows "row_ids c' \<subseteq> row_ids c \<and> drawn c' = drawn c
    \<or> row_ids c' \<subseteq> insert (''job_'' @ uuid_hex c (drawn c)) (row_ids c) \<and> drawn c' = Suc (drawn c)"
proof (cases "drawn c' = Suc (drawn c)")
  case True
  then have "conn_step (uuid_hex c (drawn c)) c c'" using assms by (auto simp: op_step_def)
  with conn_step_ids [OF this assms(2)] True show ?thesis by auto
next
  case False
  then have s: "conn_step tok c c'" and d: "drawn c' = drawn c" for tok
    using assms by (auto simp: op_step_def)
  have "row_ids c' \<subseteq> insert ''job_a'' (row_ids c) \<inter> insert ''job_b'' (row_ids c)"
    using conn_step_ids [OF s [of "''a''"] assms(2)] conn_step_ids [OF s [of "''b''"] assms(2)] by simp
  with d show ?thesis by auto
qed

lemma drawn_only_op_step:
  assumes "op_step c c'" "queue_inv c" "drawn_only c"
  shows "drawn_only c'"
proof -
  have hex: "uuid_hex c' = uuid_hex c" using op_step_tokens [OF assms(1,2)] by simp
  have old: "tokens c \<subseteq> UNIV \<times> drawn_uuids c" "row_ids c \<subseteq> (@) ''job_'' ` drawn_uuids c"
    using assms(3) by (auto simp: drawn_only_def)
  show ?thesis
  proof (cases "drawn c' = Suc (drawn c)")
    case True
    then have d: "drawn_uuids c' = insert (uuid_hex c (drawn c)) (drawn_uuids c)"
      by (auto simp: drawn_uuids_def hex lessThan_Suc)
    have "tokens c' \<subseteq> UNIV \<times> {uuid_hex c (drawn c)} \<union> tokens c"
      using op_step_tokens [OF assms(1,2)] by blast
    moreover have "row_ids c' \<subseteq> insert (''job_'' @ uuid_hex c (drawn c)) (row_ids c)"
      using op_step_ids [OF assms(1,2)] by blast
    ultimately show ?thesis using old unfolding drawn_only_def d by blast
  next
    case False
    then have d: "drawn_uuids c' = drawn_uuids c"
      using op_step_ids [OF assms(1,2)] by (auto simp: drawn_uuids_def hex)
    have "tokens c' \<subseteq> tokens c" "row_ids c' \<subseteq> row_ids c"
      using op_step_tokens [OF assms(1,2)] op_step_ids [OF assms(1,2)] False by auto
    then show ?thesis using old unfolding drawn_only_def d by blast
  qed
qed

lemma drawn_only_exec_op:
  assumes "queue_inv c" "drawn_only c"
  shows "drawn_only (exec_op x c)"
proof (cases "\<exists>n. x = Tick n")
  case True
  then have "tokens (exec_op x c) = tokens c" "row_ids (exec_op x c) = row_ids c"
    "drawn_uuids (exec_op x c) = drawn_uuids c"
    by (auto simp: tokens_def row_ids_def drawn_uuids_def)
  with assms(2) show ?thesis unfolding drawn_only_def by simp
next
  case False
  show ?thesis by (rule drawn_only_op_step [OF exec_op_step [OF assms(1) False] assms])
qed

text \<open>The states a run can reach from an empty queue.\<close>

definition reachable :: "conn \<Rightarrow> bool" where
  "reachable c \<longleftrightarrow>
     (\<exists>d now hex xs. fetch_jobs d = [] \<and> inj hex \<and> c = exec_ops xs (open_conn d now hex))"

lemma reachable_facts:
  assumes "reachable c"
  shows "queue_inv c \<and> drawn_only c \<and> inj (uuid_hex c)"
proof -
  obtain d now hex xs where c: "fetch_jobs d = []" "inj hex" "c = exec_ops xs (open_conn d now hex)"
    using assms by (auto simp: reachable_def)
  have start: "queue_inv (open_conn d now hex)" "drawn_only (open_conn d now hex)"
    using c(1) by (auto simp: queue_inv_def conn_ok_def jobs_ok_def feed_unique_def drawn_only_def
        tokens_def row_tokens_def row_ids_def)
  have "queue_inv c0 \<Longrightarrow> drawn_only c0 \<Longrightarrow> inj (uuid_hex c0) \<Longrightarrow>
    queue_inv (exec_ops ys c0) \<and> drawn_only (exec_ops ys c0) \<and> inj (uuid_hex (exec_ops ys c0))"
    for ys c0
    by (induction ys arbitrary: c0) (auto simp: exec_op_keeps drawn_only_exec_op exec_op_uuid_hex)
  from this [OF start] c show ?thesis by simp
qed

lemma reachable_exec_ops: "reachable c \<Longrightarrow> reachable (exec_ops ys c)"
  unfolding reachable_def by (metis exec_ops_append)

lemma reachable_sample: "reachable (exec_ops xs sample0)"
proof -
  have "fetch_jobs sample_db = []" by (simp add: sample_db_def)
  then show ?thesis unfolding reachable_def sample0_def using inj_unary by blast
qed

lemma sample_states:
  "reachable sample0" "reachable sample1" "reachable sample_claimed" "reachable sample_feed"
  "reachable sample_done"
  using reachable_sample [of "[]"] reachable_sample
  by (simp_all add: sample1_def sample_claimed_def sample_feed_def sample_done_def
      reachable_exec_ops del: exec_ops.simps(2))

lemma sample_no_tx:
  "\<not> in_tx sample0" "\<not> in_tx sample1" "\<not> in_tx sample_claimed" "\<not> in_tx sample_feed"
  "\<not> in_tx sample_done"
  by code_simp+

lemmas sample_inv = sample_states [THEN reachable_facts, THEN conjunct1]
lemmas sample_inj = sample_states [THEN reachable_facts, THEN conjunct2, THEN conjunct2]

definition sample_late :: conn where
  "sample_late = sample_claimed\<lparr>clock := 6001000\<rparr>"

lemma sample_late_run: "sample_late = exec_ops [Tick 6000000] sample_claimed"
proof -
  have "clock sample_claimed = 1000" by code_simp
  then show ?thesis by (simp add: sample_late_def)
qed

lemma sample_late_facts: "reachable sample_late" "\<not> in_tx sample_late"
  using reachable_exec_ops [OF sample_states(3)] sample_no_tx(3)
  by (simp add: sample_late_run del: exec_ops.simps) (simp add: sample_late_def sample_no_tx)

end
