(* ===== verification/QueueProps.thy ===== *)
theory QueueProps
  imports QueueReach
begin

section \<open>Properties of the job queue\<close>

text \<open>
  The properties of the queue over runs and over single operations, each followed by a witness
  on the small database of \<open>Samples\<close>.
\<close>

text \<open>C18: In every state that runs of queue operations, transaction statements and clock ticks
  reach from an empty queue, a user has at most one queued or running full feed refresh.\<close>

theorem at_most_one_active_refresh:
  assumes "reachable c" and "j \<in> set (fetch_jobs (work c))" "j' \<in> set (fetch_jobs (work c))"
    and "j_job_type j = ''user_feed_refresh''" "j_job_type j' = ''user_feed_refresh''"
    and "j_workspace_id j = j_workspace_id j'" "j_user_id j = j_user_id j'"
    and "is_active j" "is_active j'"
  shows "j = j'"
proof -
  have ok: "jobs_ok (fetch_jobs (work c))" using reachable_facts [OF assms(1)] by (simp add: queue_inv_def)
  have "j_id j = j_id j'"
    by (rule feed_uniqueD [OF jobs_ok_feed_unique [OF ok], of j j' "(j_workspace_id j, j_user_id j)"])
       (use assms in \<open>auto simp: active_feed_for_def\<close>)
  with jobs_ok_distinct [OF ok] assms(2,3) show ?thesis by (rule lookup_row_unique)
qed

lemma at_most_one_active_refresh_witness:
  "last (fetch_jobs (work (exec_ops [CreateFeed (plain_args ''y'' 9)] sample_feed))) =
   hd (fetch_jobs (work (exec_ops [CreateFeed (plain_args ''y'' 9)] sample_feed)))"
  by (rule at_most_one_active_refresh
      [OF reachable_exec_ops [OF sample_states(4), of "[CreateFeed (plain_args ''y'' 9)]"]]) code_simp+

lemma claim_next_job_outcome:
  assumes "queue_inv c" "\<not> in_tx c" "claim_next_job worker lease allowed c = (Inr (Some j), c')"
  obtains row where "first_by claim_order (is_claimable (clock c) allowed) (fetch_jobs (work c)) = Some row"
    "j = claimed worker (uuid_hex c (drawn c)) (clock c) (clock c + max lease (seconds 1)) row"
    "c' = c\<lparr>drawn := Suc (drawn c), work := set_row row j (work c), durable := set_row row j (work c)\<rparr>"
proof (cases "first_by claim_order (is_claimable (clock c) allowed) (fetch_jobs (work c))")
  case None
  with claim_next_job_none [OF assms(1,2) None, of worker lease] assms(3) show ?thesis by simp
next
  case (Some row)
  with claim_next_job_some [OF assms(1,2) Some, of worker lease] assms(3) that show ?thesis
    by (simp add: Let_def set_row_def)
qed

text \<open>C13: A claim hands out a claimable row of highest priority, the oldest of those, marked
  running under a fresh token with a lease of at least one second; nothing else in the table
  changes, and the change is committed.\<close>

theorem claim_takes_first_claimable:
  assumes "queue_inv c" "\<not> in_tx c" "claim_next_job worker lease allowed c = (Inr (Some j), c')"
  shows "\<exists>row \<in> set (fetch_jobs (durable c)).
      is_claimable (clock c) allowed row
      \<and> (\<forall>r \<in> set (fetch_jobs (durable c)). is_claimable (clock c) allowed r \<longrightarrow>
           j_priority r \<le> j_priority row
           \<and> (j_priority r = j_priority row \<longrightarrow> j_created_at row \<le> j_created_at r))
      \<and> j = claimed worker (uuid_hex c (drawn c)) (clock c) (clock c + max lease (seconds 1)) row
      \<and> durable c' = set_row row j (durable c) \<and> work c' = durable c' \<and> \<not> in_tx c'"
proof -
  obtain row where r: "first_by claim_order (is_claimable (clock c) allowed) (fetch_jobs (work c)) = Some row"
    "j = claimed worker (uuid_hex c (drawn c)) (clock c) (clock c + max lease (seconds 1)) row"
    "c' = c\<lparr>drawn := Suc (drawn c), work := set_row row j (work c), durable := set_row row j (work c)\<rparr>"
    using claim_next_job_outcome [OF assms] .
  have same: "work c = durable c" using assms(1,2) by (simp add: queue_inv_def conn_ok_def)
  show ?thesis
    using first_by_SomeD [OF r(1)] r(2,3) assms(2) same
    by (intro bexI [of _ row]) (fastforce simp: claim_order_def less_eq_prod_def)+
qed

lemma claim_takes_first_claimable_witness:
  "\<exists>j c'. claim_next_job ''w1'' 5 None sample1 = (Inr (Some j), c')
     \<and> (\<exists>row \<in> set (fetch_jobs (durable sample1)). j_priority row = 5
          \<and> j = claimed ''w1'' ''aa'' 1000 (1000 + seconds 1) row)"
proof -
  have "case fst (claim_next_job ''w1'' 5 None sample1) of Inr (Some x) \<Rightarrow> True | _ \<Rightarrow> False"
    by code_simp
  from some_outcome [OF this] obtain j c' where c: "claim_next_job ''w1'' 5 None sample1 = (Inr (Some j), c')"
    by blast
  have "uuid_hex sample1 (drawn sample1) = ''aa''" "clock sample1 = 1000"
    "clock sample1 + max 5 (seconds 1) = 1000 + seconds 1" by code_simp+
  moreover have "\<exists>r \<in> set (fetch_jobs (durable sample1)). is_claimable (clock sample1) None r \<and> j_priority r = 5"
    "\<forall>r \<in> set (fetch_jobs (durable sample1)). j_priority r \<le> 5" by code_simp+
  ultimately show ?thesis
    using claim_takes_first_claimable [OF sample_inv(2) sample_no_tx(2) c] c by (metis order_antisym)
qed

text \<open>Outside a transaction a claim never raises, and it returns nothing exactly when no row
  of the queue is claimable.\<close>

theorem claim_none_iff_nothing_claimable:
  assumes "queue_inv c" "\<not> in_tx c"
  shows "(fst (claim_next_job worker lease allowed c) = Inr None \<longleftrightarrow>
           (\<forall>r \<in> set (fetch_jobs (durable c)). \<not> is_claimable (clock c) allowed r))
    \<and> succeeded (claim_next_job worker lease allowed c)"
proof -
  have same: "work c = durable c" using assms(1,2) by (simp add: queue_inv_def conn_ok_def)
  show ?thesis
  proof (cases "first_by claim_order (is_claimable (clock c) allowed) (fetch_jobs (work c))")
    case None
    then show ?thesis
      using claim_next_job_none [OF assms None, of worker lease] same by (simp add: first_by_None_iff)
  next
    case (Some row)
    then show ?thesis
      using claim_next_job_some [OF assms Some, of worker lease] first_by_SomeD [OF Some] same
      by (auto simp: Let_def)
  qed
qed

lemma claim_none_iff_nothing_claimable_witness:
  "fst (claim_next_job ''w1'' 5 None sample0) = Inr None"
  using claim_none_iff_nothing_claimable [OF sample_inv(1) sample_no_tx(1), of "''w1''" 5 None]
  by (simp add: sample0_def sample_db_def)

text \<open>C29: Two successive claims never hand out the same job or the same token, whatever the clock
  does in between.\<close>

theorem claims_are_exclusive:
  assumes "queue_inv c" "\<not> in_tx c" "inj (uuid_hex c)"
    and first: "claim_next_job worker lease allowed c = (Inr (Some j), c1)"
    and second: "claim_next_job worker' lease' allowed' (c1\<lparr>clock := now\<rparr>) = (Inr (Some j'), c2)"
  shows "j_id j \<noteq> j_id j' \<and> j_claim_token j \<noteq> j_claim_token j'"
proof -
  obtain row where r: "first_by claim_order (is_claimable (clock c) allowed) (fetch_jobs (work c)) = Some row"
    "j = claimed worker (uuid_hex c (drawn c)) (clock c) (clock c + max lease (seconds 1)) row"
    "c1 = c\<lparr>drawn := Suc (drawn c), work := set_row row j (work c), durable := set_row row j (work c)\<rparr>"
    using claim_next_job_outcome [OF assms(1,2) first] .
  have inv1: "queue_inv (c1\<lparr>clock := now\<rparr>)"
    using exec_op_keeps [OF assms(1), of "Claim worker lease allowed"] first queue_inv_tick by simp
  have tx1: "\<not> in_tx (c1\<lparr>clock := now\<rparr>)" using r(3) assms(2) by simp
  obtain row' where r': "first_by claim_order (is_claimable now allowed') (fetch_jobs (work c1)) = Some row'"
    "j' = claimed worker' (uuid_hex c (Suc (drawn c))) now (now + max lease' (seconds 1)) row'"
    using claim_next_job_outcome [OF inv1 tx1 second] r(3) by auto
  have "j \<in> set (fetch_jobs (work c1))"
    using r(3) first_by_SomeD(1) [OF r(1)] by (auto simp: set_row_def table_simps)
  moreover have "j_status j = Running" "j_status row' = Queued" "row' \<in> set (fetch_jobs (work c1))"
    using r(2) first_by_SomeD [OF r'(1)] by (auto simp: claimed_def is_claimable_def)
  moreover have "distinct (map j_id (fetch_jobs (work c1)))"
    using inv1 by (auto simp: queue_inv_def)
  ultimately have "j_id j \<noteq> j_id row'" using lookup_row_unique by fastforce
  moreover have "uuid_hex c (drawn c) \<noteq> uuid_hex c (Suc (drawn c))"
    using assms(3) by (auto dest: injD)
  ultimately show ?thesis using r(2) r'(2) by (simp add: claimed_def)
qed

lemma claims_are_exclusive_witness:
  "\<exists>j c1 j' c2. claim_next_job ''w1'' 5 None sample1 = (Inr (Some j), c1)
     \<and> claim_next_job ''w2'' 5 None (c1\<lparr>clock := 2000\<rparr>) = (Inr (Some j'), c2) \<and> j_id j \<noteq> j_id j'"
proof -
  have "case fst (claim_next_job ''w1'' 5 None sample1) of Inr (Some x) \<Rightarrow> True | _ \<Rightarrow> False"
    by code_simp
  from some_outcome [OF this] obtain j c1 where c: "claim_next_job ''w1'' 5 None sample1 = (Inr (Some j), c1)"
    by blast
  have "case fst (claim_next_job ''w2'' 5 None
      ((snd (claim_next_job ''w1'' 5 None sample1))\<lparr>clock := 2000\<rparr>)) of Inr (Some x) \<Rightarrow> True | _ \<Rightarrow> False"
    by code_simp
  then obtain j' c2 where c': "claim_next_job ''w2'' 5 None (c1\<lparr>clock := 2000\<rparr>) = (Inr (Some j'), c2)"
    using some_outcome [of "claim_next_job ''w2'' 5 None (c1\<lparr>clock := 2000\<rparr>)"] c by auto
  show ?thesis
    using claims_are_exclusive [OF sample_inv(2) sample_no_tx(2) sample_inj(2) c c'] c c' by blast
qed

text \<open>Without the claim, a worker's statements change nothing and raise.\<close>

lemma no_claim_no_effect:
  assumes "\<And>row. row \<in> set (fetch_jobs (work c)) \<Longrightarrow> \<not> holds_claim jid w tok row"
  shows "\<exists>e c'. complete_job jid st res cd msg w tok b c = (Inl e, c') \<and> c' \<in> {c, rollback c}"
    and "\<exists>e c'. fail_or_retry_job jid cd' msg' r base res w tok b c = (Inl e, c') \<and> c' \<in> {c, rollback c}"
    and "\<exists>e c'. extend_job_lease jid w tok lease c = (Inl e, c') \<and> c' \<in> {c, commit c}"
    and "\<exists>e c'. cancel_claimed_job jid why w tok cd' b c = (Inl e, c')
           \<and> c' \<in> {c, rollback c, c\<lparr>in_tx := True\<rparr>}"
proof -
  have no: "\<not> holds_lease jid w tok now row" "\<not> may_extend jid w tok now row"
    if "row \<in> set (fetch_jobs (work c))" for row now
    using assms [OF that] by (auto simp: holds_lease_def may_extend_def)
  have count: "job_row_count (holds_claim jid w tok) (work c) = 0"
    "job_row_count (holds_lease jid w tok now) (work c) = 0"
    "job_row_count (may_extend jid w tok now) (work c) = 0" for now
    by (rule guard_refused, use assms no in blast)+
  have nobody: "find (holds_lease jid w tok now) (fetch_jobs (work c)) = None" for now
    using no by (simp add: find_None_iff)
  have same: "update_jobs (holds_claim jid w tok) f (work c) = work c"
    "update_jobs (may_extend jid w tok now) f (work c) = work c" for f now
    using assms no by (simp_all add: update_jobs_def update_where_none)
  show "\<exists>e c'. complete_job jid st res cd msg w tok b c = (Inl e, c') \<and> c' \<in> {c, rollback c}"
    by (simp add: complete_job_def Let_def count)
  show "\<exists>e c'. fail_or_retry_job jid cd' msg' r base res w tok b c = (Inl e, c') \<and> c' \<in> {c, rollback c}"
    by (simp add: fail_or_retry_job_def Let_def nobody rollback_def)
  show "\<exists>e c'. extend_job_lease jid w tok lease c = (Inl e, c') \<and> c' \<in> {c, commit c}"
    by (simp add: extend_job_lease_def Let_def count dml_def same)
  show "\<exists>e c'. cancel_claimed_job jid why w tok cd' b c = (Inl e, c')
      \<and> c' \<in> {c, rollback c, c\<lparr>in_tx := True\<rparr>}"
    by (simp add: cancel_claimed_job_def Let_def count dml_def same rollback_if_open_def rollback_def)
qed

lemma spent_no_claim:
  "spent jid tok c \<Longrightarrow> row \<in> set (fetch_jobs (work c)) \<Longrightarrow> \<not> holds_claim jid w tok row"
  by (auto simp: spent_def tokens_def row_tokens_def holds_claim_def)

lemma recovery_spends_token:
  assumes "queue_inv c" "drawn_only c" "\<not> in_tx c"
    and row: "row \<in> set (fetch_jobs (work c))" "lease_expired (clock c) allowed row" "j_claim_token row = Some tok"
  shows "spent (j_id row) tok (exec_op (Recover None allowed) c)"
proof -
  let ?js = "fetch_jobs (work c)"
  let ?js' = "update_where (lease_expired (clock c) allowed) (recovered (clock c)) ?js"
  have c': "exec_op (Recover None allowed) c =
      c\<lparr>work := (work c)\<lparr>fetch_jobs := ?js'\<rparr>, durable := (work c)\<lparr>fetch_jobs := ?js'\<rparr>\<rparr>"
    using assms(3) by (simp add: recover_stale_running_jobs_new Let_def update_jobs_def)
  have "(j_id row, tok) \<notin> row_tokens ?js'"
  proof
    assume "(j_id row, tok) \<in> row_tokens ?js'"
    then obtain j where j: "j \<in> set ?js'" "j_id j = j_id row" "j_claim_token j = Some tok"
      by (auto simp: row_tokens_def)
    from j(1) show False
    proof (cases rule: in_update_whereE)
      case 1
      then have "j = row"
        using lookup_row_unique [OF _ 1(1) row(1) j(2)] assms(1) by (auto simp: queue_inv_def)
      with 1 row(2) show ?thesis by simp
    qed (use j(3) in \<open>auto simp: recovered_def\<close>)
  qed
  moreover have "tok \<in> drawn_uuids c"
    using assms(2) row by (fastforce simp: drawn_only_def tokens_def row_tokens_def)
  ultimately show ?thesis unfolding c' by (simp add: spent_def tokens_def drawn_uuids_def)
qed

text \<open>C2: Once an expired lease was recovered, its token is dead for ever: after any later run,
  completing, failing, extending or cancelling the job with that token raises and writes
  nothing.\<close>

theorem stale_worker_is_fenced_off:
  assumes "reachable c" "\<not> in_tx c"
    and "row \<in> set (fetch_jobs (work c))" "lease_expired (clock c) allowed row" "j_claim_token row = Some tok"
    and "c' = exec_ops (Recover None allowed # later) c"
  shows "(\<exists>e c''. complete_job (j_id row) st res cd msg w tok b c' = (Inl e, c'') \<and> c'' \<in> {c', rollback c'})
    \<and> (\<exists>e c''. fail_or_retry_job (j_id row) cd' msg' r base res w tok b c' = (Inl e, c'') \<and> c'' \<in> {c', rollback c'})
    \<and> (\<exists>e c''. extend_job_lease (j_id row) w tok lease c' = (Inl e, c'') \<and> c'' \<in> {c', commit c'})
    \<and> (\<exists>e c''. cancel_claimed_job (j_id row) why w tok cd' b c' = (Inl e, c'')
         \<and> c'' \<in> {c', rollback c', c'\<lparr>in_tx := True\<rparr>})"
proof -
  let ?c = "exec_op (Recover None allowed) c"
  note facts = reachable_facts [OF assms(1)]
  have "queue_inv ?c" "inj (uuid_hex ?c)"
    using facts exec_op_keeps [of c "Recover None allowed"] exec_op_uuid_hex [of c "Recover None allowed"]
    by simp_all
  moreover have "spent (j_id row) tok ?c" using facts assms by (intro recovery_spends_token) auto
  ultimately have "spent (j_id row) tok c'" unfolding assms(6) exec_ops.simps by (rule spent_forever)
  then have "\<not> holds_claim (j_id row) w tok r" if "r \<in> set (fetch_jobs (work c'))" for r
    using that by (rule spent_no_claim)
  from no_claim_no_effect [where c = c' and jid = "j_id row" and tok = tok, OF this] show ?thesis by blast
qed

lemma stale_worker_is_fenced_off_witness:
  "\<exists>e. fst (complete_job ''job_a'' Succeeded None None None ''w1'' ''aa'' True
     (exec_ops (Recover None None # [Claim ''w2'' 5 None]) sample_late)) = Inl e"
proof -
  have "\<exists>row \<in> set (fetch_jobs (work sample_late)).
      lease_expired (clock sample_late) None row
      \<and> j_claim_token row = Some ''aa'' \<and> j_id row = ''job_a''"
    by code_simp
  then obtain row where row: "row \<in> set (fetch_jobs (work sample_late))"
      "lease_expired (clock sample_late) None row"
      "j_claim_token row = Some ''aa''" "j_id row = ''job_a''" by blast
  from stale_worker_is_fenced_off [OF sample_late_facts row(1-3) refl, where b = True and st = Succeeded
      and w = "''w1''" and res = None and cd = None and msg = None]
  show ?thesis unfolding row(4) by (metis fst_conv)
qed

text \<open>A job that succeeded is never changed again, by any run of operations: a later row with
  its identifier is the same row.\<close>

theorem succeeded_job_is_final:
  assumes "reachable c" "\<not> in_tx c" "row \<in> set (fetch_jobs (work c))" "j_status row = Succeeded"
    and "j' \<in> set (fetch_jobs (work (exec_ops later c)))" "j_id j' = j_id row"
  shows "j' = row"
proof -
  note facts = reachable_facts [OF assms(1)]
  have same: "durable c = work c" using facts assms(2) by (simp add: queue_inv_def conn_ok_def)
  have uniq: "distinct (map j_id (fetch_jobs (work c)))" using facts by (auto simp: queue_inv_def)
  have "\<forall>r \<in> set (fetch_jobs (work c)). j_id r = j_id row \<longrightarrow> r = row"
    using lookup_row_unique [OF uniq] assms(3) by blast
  moreover have "j_id row \<in> row_ids c" using assms(3) by (simp add: row_ids_def)
  then have "j_id row \<in> (@) ''job_'' ` drawn_uuids c" using facts unfolding drawn_only_def by blast
  ultimately have "settled row c" unfolding settled_def same by simp
  then have "settled row (exec_ops later c)" using facts assms(4) by (intro settled_forever) auto
  then show ?thesis using assms(5,6) unfolding settled_def by blast
qed

lemma succeeded_job_is_final_witness:
  "fetch_jobs (work (exec_ops [RetryJob ''job_a'' None True] sample_done)) ! 1 =
   fetch_jobs (work sample_done) ! 1"
  by (rule succeeded_job_is_final [OF sample_states(5) sample_no_tx(5),
        where later = "[RetryJob ''job_a'' None True]"]) code_simp+

text \<open>C33: Completion, on every branch: a status that does not end a job and an empty worker or token are
  refused and change nothing; otherwise it rewrites exactly the row whose claim the caller holds under an
  unexpired lease, and without one it rolls back and raises the conflict error.\<close>

theorem complete_job_decides:
  assumes "queue_inv c"
  shows "complete_job jid status result code msg worker tok do_commit c =
    (if \<not> is_terminal status
     then (Inl (ValueError ''completion status must be succeeded, failed, or partial''), c)
     else if \<not> truthy worker \<or> \<not> truthy tok then (Inl claim_guard_error, c)
     else case find (holds_lease jid worker tok (clock c)) (fetch_jobs (work c)) of
       None \<Rightarrow> (Inl (claim_conflict jid (rollback c)), rollback c)
     | Some row \<Rightarrow>
        (let j = completed status result code msg (clock c) row; d = set_row row j (work c)
         in (Inr j, c\<lparr>work := d, durable := (if do_commit then d else durable c),
                      in_tx := \<not> do_commit\<rparr>)))"
proof (cases "is_terminal status \<and> truthy worker \<and> truthy tok")
  case False
  then show ?thesis by (cases status) (auto simp: complete_job_def JOB_STATUSES_def is_terminal_def)
next
  case guards: True
  show ?thesis
  proof (cases "find (holds_lease jid worker tok (clock c)) (fetch_jobs (work c))")
    case None
    then have "\<not> holds_lease jid worker tok (clock c) row" if "row \<in> set (fetch_jobs (work c))" for row
      using that by (auto simp: find_None_iff)
    with guards complete_job_refused [of status worker tok c jid] None show ?thesis by simp
  next
    case (Some row)
    note row = find_SomeD [OF Some]
    show ?thesis
      using complete_job_accepted [of c status worker tok row jid] assms guards row Some by simp
  qed
qed

lemma complete_job_decides_witness:
  "fst (complete_job ''job_a'' Succeeded None None None ''w1'' ''zz'' True sample_claimed) =
     Inl (PermissionError ''job claim is no longer active'')
   \<and> fst (complete_job ''job_a'' Running None None None ''w1'' ''aa'' True sample_claimed) =
     Inl (ValueError ''completion status must be succeeded, failed, or partial'')"
proof
  show "fst (complete_job ''job_a'' Succeeded None None None ''w1'' ''zz'' True sample_claimed) =
     Inl (PermissionError ''job claim is no longer active'')"
    by (subst complete_job_decides [OF sample_inv(3)]) code_simp+
  show "fst (complete_job ''job_a'' Running None None None ''w1'' ''aa'' True sample_claimed) =
     Inl (ValueError ''completion status must be succeeded, failed, or partial'')"
    by (simp add: complete_job_decides [OF sample_inv(3)] is_terminal_def)
qed

text \<open>Reporting a failure, on every branch: the row held under an unexpired lease is requeued
  while attempts remain and failed otherwise; without the lease the call rolls back and
  raises.\<close>

theorem fail_or_retry_job_decides:
  assumes "queue_inv c" "truthy worker" "truthy tok"
  shows "fail_or_retry_job jid code msg retryable base result worker tok do_commit c =
    (case find (holds_lease jid worker tok (clock c)) (fetch_jobs (work c)) of
       None \<Rightarrow> (Inl (claim_conflict jid (rollback c)), rollback c)
     | Some row \<Rightarrow>
        (let j = after_failure code msg retryable base result (clock c) row; d = set_row row j (work c)
         in (Inr j, c\<lparr>work := d, durable := (if do_commit then d else durable c),
                      in_tx := \<not> do_commit\<rparr>)))"
proof (cases "find (holds_lease jid worker tok (clock c)) (fetch_jobs (work c))")
  case None
  then have "\<not> holds_lease jid worker tok (clock c) row" if "row \<in> set (fetch_jobs (work c))" for row
    using that by (auto simp: find_None_iff)
  from fail_or_retry_job_refused [OF assms(2,3) this] None show ?thesis by simp
next
  case (Some row)
  note row = find_SomeD [OF Some]
  show ?thesis using row Some assms by (simp add: fail_or_retry_job_accepted)
qed

lemma fail_or_retry_job_decides_witness:
  "map_option j_status (get_job ''job_a''
     (snd (fail_or_retry_job ''job_a'' ''e'' ''m'' True 5 None ''w1'' ''aa'' True sample_claimed))) =
     Some Queued"
  by (subst fail_or_retry_job_decides [OF sample_inv(3)]) code_simp+

text \<open>A job none of whose attempts succeeds: the claim that follows its last failure.\<close>

definition failing_attempt :: "string \<Rightarrow> string \<Rightarrow> time \<Rightarrow> time \<Rightarrow> time \<Rightarrow> job \<Rightarrow> job" where
  "failing_attempt worker tok base lease now j =
     after_failure ''failed'' ''failed'' True base None now (claimed worker tok now (now + lease) j)"

lemma failing_attempt_fields:
  "j_attempts (failing_attempt w t base lease now j) = j_attempts j + 1"
  "j_max_attempts (failing_attempt w t base lease now j) = j_max_attempts j"
  "1 \<le> j_max_attempts j \<Longrightarrow> j_status (failing_attempt w t base lease now j) =
     (if j_attempts j + 1 < j_max_attempts j then Queued else Failed)"
  by (auto simp: failing_attempt_def after_failure_def claimed_def requeued_def failed_def should_retry_def)

lemma failing_attempts:
  "1 \<le> j_max_attempts j \<Longrightarrow> 0 \<le> j_attempts j \<Longrightarrow>
   j_attempts ((failing_attempt w t base lease now ^^ n) j) = j_attempts j + int n
   \<and> j_max_attempts ((failing_attempt w t base lease now ^^ n) j) = j_max_attempts j
   \<and> (0 < n \<longrightarrow> j_status ((failing_attempt w t base lease now ^^ n) j) =
        (if j_attempts j + int n < j_max_attempts j then Queued else Failed))"
  by (induction n) (auto simp: failing_attempt_fields)

text \<open>A job whose every attempt fails retryably is queued again after each of its first
  attempts and failed for good after attempt number max_attempts.\<close>

theorem failing_job_fails_after_max_attempts:
  assumes "1 \<le> j_max_attempts j" "j_attempts j = 0" "j_status j = Queued"
  shows "j_status ((failing_attempt w t base lease now ^^ n) j) =
    (if int n < j_max_attempts j then Queued else Failed)"
  using failing_attempts [where j = j and n = n] assms by (cases n) auto

lemma failing_job_fails_after_max_attempts_witness:
  "j_status ((failing_attempt ''w'' ''t'' 1 1 0 ^^ 2)
     (queued_job ''j'' 0 (plain_args ''source_test'' 1))) = Failed"
  by (subst failing_job_fails_after_max_attempts) code_simp+

text \<open>A retryable failure requeues the job with the delay base * 2 ^ (attempts - 1), and no
  worker can claim it before that instant.\<close>

theorem failed_attempt_backs_off:
  assumes "queue_inv c" "truthy worker" "truthy tok"
    and "find (holds_lease jid worker tok (clock c)) (fetch_jobs (work c)) = Some row"
    and "j_attempts row < j_max_attempts row"
    and "fail_or_retry_job jid code msg True base result worker tok do_commit c = (Inr j, c')"
  shows "j_status j = Queued \<and> j_attempts j = j_attempts row \<and> j_claim_token j = None
    \<and> j_next_run_at j = Some (clock c + max base 0 * 2 ^ nat (j_attempts row - 1))
    \<and> (\<forall>now allowed. now < clock c + max base 0 * 2 ^ nat (j_attempts row - 1) \<longrightarrow>
         \<not> is_claimable now allowed j)"
proof -
  have row: "row \<in> set (fetch_jobs (work c))" "holds_lease jid worker tok (clock c) row"
    using find_SomeD [OF assms(4)] by auto
  then have "1 \<le> j_attempts row" "1 \<le> j_max_attempts row"
    using assms(1) jobs_ok_job_ok [of "fetch_jobs (work c)" row]
    by (auto simp: queue_inv_def job_ok_def holds_lease_def holds_claim_def)
  moreover have "j = after_failure code msg True base result (clock c) row"
    using assms(6) fail_or_retry_job_accepted [OF assms(1-3) row, of code msg True base result do_commit]
    by (simp add: Let_def)
  ultimately show ?thesis
    using assms(5)
    by (auto simp: after_failure_def should_retry_def requeued_def retry_delay_def is_claimable_def)
qed

lemma failed_attempt_backs_off_witness:
  "\<exists>j. fst (fail_or_retry_job ''job_a'' ''e'' ''m'' True (seconds 30) None ''w1'' ''aa'' True
        sample_claimed) = Inr j \<and> j_next_run_at j = Some (1000 + seconds 30)
     \<and> \<not> is_claimable (1000 + seconds 29) None j"
proof -
  let ?out = "fail_or_retry_job ''job_a'' ''e'' ''m'' True (seconds 30) None ''w1'' ''aa'' True sample_claimed"
  have "isl (fst ?out) = False" by code_simp
  from any_outcome [OF this] obtain j c' where out: "?out = (Inr j, c')" by blast
  obtain row where row: "find (holds_lease ''job_a'' ''w1'' ''aa'' (clock sample_claimed))
      (fetch_jobs (work sample_claimed)) = Some row" "j_attempts row = 1" "j_max_attempts row = 2"
  proof -
    have "case find (holds_lease ''job_a'' ''w1'' ''aa'' (clock sample_claimed))
        (fetch_jobs (work sample_claimed)) of None \<Rightarrow> False | Some r \<Rightarrow> j_attempts r = 1 \<and> j_max_attempts r = 2"
      by code_simp
    with that show ?thesis by (auto split: option.splits)
  qed
  have "clock sample_claimed = 1000" by code_simp
  then show ?thesis
    using failed_attempt_backs_off [OF sample_inv(3) _ _ row(1) _ out] row(2,3) out
    by (auto simp: seconds_def)
qed

text \<open>Recovery rewrites exactly the running rows whose lease expired, reports exactly those,
  and leaves no expired lease behind.\<close>

theorem recovery_ends_every_expired_lease:
  assumes "queue_inv c" "\<not> in_tx c" "recover_stale_running_jobs None allowed c = (Inr rows, c')"
  shows "(\<forall>j \<in> set (fetch_jobs (durable c)).
      find_job (j_id j) (durable c') = Some (if lease_expired (clock c) allowed j then recovered (clock c) j else j))
    \<and> (\<forall>j' \<in> set (fetch_jobs (durable c')). \<not> lease_expired (clock c) allowed j')
    \<and> set (map rj_job_id rows) = j_id ` {j \<in> set (fetch_jobs (durable c)). lease_expired (clock c) allowed j}"
proof -
  have same: "work c = durable c" using assms(1,2) by (simp add: queue_inv_def conn_ok_def)
  have ok: "jobs_ok (fetch_jobs (durable c))" using assms(1) by (simp add: queue_inv_def)
  let ?P = "lease_expired (clock c) allowed" and ?f = "recovered (clock c)"
  have r: "rows = map recovery_row (sort_key created_then_id (filter ?P (fetch_jobs (durable c))))"
    and d: "durable c' = update_jobs ?P ?f (durable c)"
    using assms(3) recover_stale_running_jobs_new [OF assms(2), of None allowed] same by (auto simp: Let_def)
  show ?thesis
  proof (intro conjI ballI)
    fix j assume j: "j \<in> set (fetch_jobs (durable c))"
    have "find_job (j_id j) (update_jobs ?P ?f (durable c)) =
        map_option (\<lambda>j. if ?P j then ?f j else j) (find_job (j_id j) (durable c))"
      by (rule find_job_update) (simp add: recovered_def)
    then show "find_job (j_id j) (durable c') = Some (if ?P j then ?f j else j)"
      using find_job_eqI [OF ok j] d by simp
  next
    fix j' assume "j' \<in> set (fetch_jobs (durable c'))"
    then show "\<not> ?P j'" unfolding d
      by (auto simp: table_simps lease_expired_def recovered_def split: if_splits)
  next
    show "set (map rj_job_id rows) = j_id ` {j \<in> set (fetch_jobs (durable c)). ?P j}"
      unfolding r by (auto simp: recovery_row_def)
  qed
qed

lemma recovery_ends_every_expired_lease_witness:
  "\<exists>rows c'. recover_stale_running_jobs None None sample_late = (Inr rows, c')
     \<and> rj_job_id ` set rows = {''job_a''}"
proof -
  let ?c = sample_late
  have "queue_inv ?c" using reachable_facts [OF sample_late_facts(1)] by simp
  moreover have tx: "\<not> in_tx ?c" by (rule sample_late_facts)
  moreover obtain rows c' where out: "recover_stale_running_jobs None None ?c = (Inr rows, c')"
    using recover_stale_running_jobs_new [OF tx] by (auto simp: Let_def)
  moreover have one: "map j_id (filter (lease_expired (clock ?c) None) (fetch_jobs (durable ?c))) = [''job_a'']"
    by code_simp
  have "j_id ` {j \<in> set (fetch_jobs (durable ?c)). lease_expired (clock ?c) None j} =
      set (map j_id (filter (lease_expired (clock ?c) None) (fetch_jobs (durable ?c))))" by simp
  then have "j_id ` {j \<in> set (fetch_jobs (durable ?c)). lease_expired (clock ?c) None j} = {''job_a''}"
    unfolding one by simp
  ultimately show ?thesis
    using recovery_ends_every_expired_lease [of ?c None rows c'] by auto
qed

text \<open>Cancellation by a user, on every branch: unknown job, another user's job, queued job,
  running full refresh, already cancelled job, and the refusal of everything else without a
  write.\<close>

theorem cancel_job_decides:
  assumes "queue_inv c" "\<not> in_tx c"
  shows "cancel_job jid uid c =
    (case find_job jid (work c) of
       None \<Rightarrow> (Inl (LookupError ''job not found''), c)
     | Some row \<Rightarrow>
        if uid \<noteq> None \<and> uid \<noteq> Some (j_user_id row)
        then (Inl (PermissionError ''cannot cancel another user's job''), c)
        else if cancellable row
        then (let j = after_cancel (clock c) row; d = set_row row j (work c)
              in (Inr j, c\<lparr>work := d, durable := d\<rparr>))
        else if j_status row = Cancelled \<and> j_cancelled_at row \<noteq> None then (Inr row, c)
        else (Inl (ValueError ''only queued jobs and running user Feed refreshes can be cancelled''), c))"
proof -
  have rb: "rollback (c\<lparr>in_tx := True, work := work c\<rparr>) = c"
    and cm: "commit (c\<lparr>in_tx := True, work := work c\<rparr>) = c"
    using assms by (auto simp: rollback_def commit_def queue_inv_def conn_ok_def)
  show ?thesis
  proof (cases "find_job jid (work c)")
    case None
    then show ?thesis
      using cancel_job_refused [OF assms(2), of jid uid "LookupError ''job not found''" "work c"] rb
      by (simp add: cancel_body_def)
  next
    case (Some row)
    consider (alien) "uid \<noteq> None \<and> uid \<noteq> Some (j_user_id row)"
      | (yes) "uid = None \<or> uid = Some (j_user_id row)" "cancellable row"
      | (already) "uid = None \<or> uid = Some (j_user_id row)" "\<not> cancellable row"
          "j_status row = Cancelled \<and> j_cancelled_at row \<noteq> None"
      | (no) "uid = None \<or> uid = Some (j_user_id row)" "\<not> cancellable row"
          "\<not> (j_status row = Cancelled \<and> j_cancelled_at row \<noteq> None)"
      by metis
    then show ?thesis
    proof cases
      case alien
      then have "cancel_body (clock c) jid uid (work c) =
        (Inl (PermissionError ''cannot cancel another user's job''), work c)"
        using Some by (auto simp: cancel_body_def)
      then show ?thesis using alien Some cancel_job_refused [OF assms(2)] rb by auto
    next
      case yes
      then show ?thesis using cancel_job_accepted [OF assms Some] Some by auto
    next
      case already
      then have "cancel_body (clock c) jid uid (work c) = (Inr (), work c)"
        using Some by (auto simp: cancel_body_def)
      then show ?thesis
        using already Some assms(2) cm
        by (auto simp: cancel_job_def begin_immediate_def Let_def get_job_def)
    next
      case no
      then have "cancel_body (clock c) jid uid (work c) =
        (Inl (ValueError ''only queued jobs and running user Feed refreshes can be cancelled''), work c)"
        using Some by (auto simp: cancel_body_def cancellable_def)
      then show ?thesis using no Some cancel_job_refused [OF assms(2)] rb by auto
    qed
  qed
qed

lemma cancel_job_decides_witness:
  "fst (cancel_job ''job_a'' (Some ''v'') sample_claimed) =
     Inl (PermissionError ''cannot cancel another user's job'')"
  by (subst cancel_job_decides [OF sample_inv(3) sample_no_tx(3)]) code_simp

text \<open>Pruning and the references to what it deletes.\<close>

definition job_refs_ok :: "db \<Rightarrow> bool" where
  "job_refs_ok d \<longleftrightarrow>
     ha_job_id ` set (user_source_health_applications d) \<subseteq> j_id ` set (fetch_jobs d)
     \<and> (\<Union>h \<in> set (user_source_health d). set_option (h_last_job_id h)) \<subseteq> j_id ` set (fetch_jobs d)
     \<and> (\<Union>f \<in> set (user_feed_schedules d). set_option (fs_last_job_id f)) \<subseteq> j_id ` set (fetch_jobs d)
     \<and> (\<Union>f \<in> set (user_source_schedules d). set_option (ss_last_job_id f)) \<subseteq> j_id ` set (fetch_jobs d)"

lemma set_option_drop_ref [simp]: "set_option (drop_ref gone r) = set_option r - gone"
  by (auto simp: drop_ref_def split: option.splits)

lemma delete_jobs_refs_ok:
  assumes "job_refs_ok d" "distinct (map j_id (fetch_jobs d))"
  shows "job_refs_ok (delete_jobs P d)"
proof -
  have "j_id ` {j \<in> set (fetch_jobs d). \<not> P j} = j_id ` set (fetch_jobs d) - j_id ` {j \<in> set (fetch_jobs d). P j}"
    using assms(2) by (auto simp: distinct_map inj_on_def)
  then show ?thesis
    using assms(1) by (auto simp: job_refs_ok_def delete_jobs_def Let_def)
qed

text \<open>Pruning deletes exactly the finished jobs past their expiry, returns their number, keeps
  every active job, and leaves no reference to a deleted job.\<close>

theorem prune_deletes_expired_jobs_only:
  assumes "queue_inv c" "\<not> in_tx c" "job_refs_ok (durable c)"
    and "prune_terminal_jobs at c = (Inr n, c')"
  shows "fetch_jobs (durable c') =
      filter (\<lambda>j. \<not> prunable (case at of None \<Rightarrow> clock c | Some t \<Rightarrow> t) j) (fetch_jobs (durable c))
    \<and> n + length (fetch_jobs (durable c')) = length (fetch_jobs (durable c))
    \<and> (\<forall>j \<in> set (fetch_jobs (durable c)). is_active j \<or> j_expires_at j = None \<longrightarrow> j \<in> set (fetch_jobs (durable c')))
    \<and> job_refs_ok (durable c')"
proof -
  let ?P = "prunable (case at of None \<Rightarrow> clock c | Some t \<Rightarrow> t)"
  have same: "work c = durable c" using assms(1,2) by (simp add: queue_inv_def conn_ok_def)
  have d: "durable c' = delete_jobs ?P (durable c)" "n = length (filter ?P (fetch_jobs (durable c)))"
    using assms(4) same by (auto simp: prune_terminal_jobs_def Let_def job_row_count_def row_count_def)
  moreover have "job_refs_ok (durable c')"
    unfolding d by (rule delete_jobs_refs_ok [OF assms(3)]) (use assms(1) in \<open>auto simp: queue_inv_def\<close>)
  moreover have "n + length (fetch_jobs (durable c')) = length (fetch_jobs (durable c))"
    unfolding d by (simp add: sum_length_filter_compl)
  ultimately show ?thesis by (auto simp: prunable_def is_active_iff)
qed

lemma prune_deletes_expired_jobs_only_witness:
  "\<exists>n c'. prune_terminal_jobs (Some (days 8)) sample_done = (Inr n, c')
     \<and> n + length (fetch_jobs (durable c')) = 2"
proof -
  obtain n c' where out: "prune_terminal_jobs (Some (days 8)) sample_done = (Inr n, c')"
    by (auto simp: prune_terminal_jobs_def Let_def)
  have "length (fetch_jobs (durable sample_done)) = 2" by code_simp
  moreover have "job_refs_ok (durable sample_done)" by code_simp
  ultimately show ?thesis
    using prune_deletes_expired_jobs_only [OF sample_inv(5) sample_no_tx(5) _ out] out by auto
qed

text \<open>Retrying a finished job answers with the active job of the same key when there is one,
  without a write; otherwise it resets the row and drops the health records of its previous
  run.\<close>

theorem retry_job_decides:
  assumes "queue_inv c" "\<not> in_tx c" "find_job jid (work c) = Some row"
    and "uid = None \<or> uid = Some (j_user_id row)" "retryable_status (j_status row)"
    and "j_job_type row \<noteq> ''content_translate''"
  shows "retry_job jid uid True c =
    (case retry_replacement row (work c) of
       Some act \<Rightarrow> (Inr act, c)
     | None \<Rightarrow>
        (let j = reset_for_retry (clock c) row; d = forget_health_of jid (set_row row j (work c))
         in (Inr j, c\<lparr>work := d, durable := d\<rparr>)))"
proof -
  have ok: "jobs_ok (fetch_jobs (work c))" and same: "work c = durable c"
    using assms(1,2) by (auto simp: queue_inv_def conn_ok_def)
  have mem: "row \<in> set (fetch_jobs (work c))" and id: "j_id row = jid"
    using find_job_SomeD [OF assms(3)] by auto
  have q: "j_id row = jid \<and> retryable_status (j_status row)" using id assms(5) by simp
  note passed = guard_passed [where jid = jid and f = "reset_for_retry (clock c)"
      and P = "\<lambda>j. j_id j = jid \<and> retryable_status (j_status j)", OF ok _ _ mem q]
  have b: "retry_body (clock c) jid uid (work c) =
    (case retry_replacement row (work c) of
       Some act \<Rightarrow> (Inr (Some act), work c)
     | None \<Rightarrow> (Inr None, forget_health_of jid (set_row row (reset_for_retry (clock c) row) (work c))))"
    using assms(3-6) passed by (auto simp: retry_body_def Let_def split: option.splits)
  have got: "find_job jid (forget_health_of jid d) = find_job jid d" for d
    by (simp add: find_job_def)
  show ?thesis
  proof (cases "retry_replacement row (work c)")
    case None
    then show ?thesis
      using b got passed assms(2)
      by (simp add: retry_job_def Let_def owned_transaction_new get_job_def)
  next
    case (Some act)
    then show ?thesis
      using b same assms(2) by (simp add: retry_job_def Let_def owned_transaction_new)
  qed
qed

lemma retry_job_decides_witness:
  "map_option j_status (get_job ''job_a'' (snd (retry_job ''job_a'' None True
     (exec_ops [CancelJob ''job_a'' (Some ''u'')] sample1)))) = Some Queued"
proof -
  let ?c = "exec_ops [CancelJob ''job_a'' (Some ''u'')] sample1"
  let ?row = "the (find_job ''job_a'' (work ?c))"
  have "find_job ''job_a'' (work ?c) \<noteq> None" by code_simp
  then have row: "find_job ''job_a'' (work ?c) = Some ?row" by simp
  have st: "retryable_status (j_status ?row)" "j_job_type ?row \<noteq> ''content_translate''" by code_simp+
  have inv: "queue_inv ?c" by (rule exec_ops_keeps [OF sample_inv(2)])
  have tx: "\<not> in_tx ?c" by code_simp
  show ?thesis
    by (subst retry_job_decides [OF inv tx row _ st]) code_simp+
qed

end
