(* ===== verification/JobDedup.thy ===== *)
theory JobDedup
  imports QueueReach
begin

section \<open>Create-if-absent as an interface\<close>

text \<open>
  \<open>create_user_feed_refresh_if_absent\<close> and \<open>create_source_fetch_if_absent\<close> make the same
  promise to the scheduler, the API routes and retries: at most one active job per key.  The
  locale states the promise, its lemmas are what the callers rely on, and the two
  interpretations discharge it for the model of the code.
\<close>

locale dedup_queue =
  fixes active_for :: "'k \<Rightarrow> job \<Rightarrow> bool"
    and create :: "'k \<Rightarrow> 'a \<Rightarrow> conn \<Rightarrow> (conn, job \<times> bool) outcome"
  assumes created: "queue_inv c \<Longrightarrow> create k a c = (Inr (j, True), c') \<Longrightarrow>
      active_for k j \<and> fetch_jobs (work c') = fetch_jobs (work c) @ [j]
      \<and> (\<forall>r \<in> set (fetch_jobs (work c)). \<not> active_for k r)"
    and answered: "queue_inv c \<Longrightarrow> create k a c = (Inr (j, False), c') \<Longrightarrow>
      active_for k j \<and> j \<in> set (fetch_jobs (work c)) \<and> fetch_jobs (work c') = fetch_jobs (work c)"
    and refused: "queue_inv c \<Longrightarrow> create k a c = (Inl e, c') \<Longrightarrow>
      fetch_jobs (work c') = fetch_jobs (work c)"
    and finds: "queue_inv c \<Longrightarrow> r \<in> set (fetch_jobs (work c)) \<Longrightarrow> active_for k r \<Longrightarrow>
      \<exists>j c'. create k a c = (Inr (j, False), c')"
    and keeps: "queue_inv c \<Longrightarrow> queue_inv (snd (create k a c))"
begin

definition single :: "'k \<Rightarrow> conn \<Rightarrow> bool" where
  "single k c \<longleftrightarrow> (\<forall>j \<in> set (fetch_jobs (work c)). \<forall>j' \<in> set (fetch_jobs (work c)).
     active_for k j \<longrightarrow> active_for k j' \<longrightarrow> j = j')"

lemma create_keeps_single:
  assumes "queue_inv c" "single k c"
  shows "single k (snd (create k a c))"
proof (cases "create k a c")
  case (Pair r c')
  show ?thesis
  proof (cases r)
    case (Inl e)
    then show ?thesis using refused [OF assms(1), of k a e c'] Pair assms(2) by (simp add: single_def)
  next
    case (Inr jb)
    obtain j b where jb: "jb = (j, b)" by fastforce
    show ?thesis
    proof (cases b)
      case True
      then show ?thesis
        using created [OF assms(1), of k a j c'] Pair Inr jb assms(2) by (auto simp: single_def)
    next
      case False
      then show ?thesis
        using answered [OF assms(1), of k a j c'] Pair Inr jb assms(2) by (simp add: single_def)
    qed
  qed
qed

lemma create_twice:
  assumes "queue_inv c" "single k c" "create k a c = (Inr (j, b), c')"
  shows "\<exists>c''. create k a' c' = (Inr (j, False), c'') \<and> fetch_jobs (work c'') = fetch_jobs (work c')"
proof -
  have inv: "queue_inv c'" and one: "single k c'"
    using keeps [OF assms(1), of k a] create_keeps_single [OF assms(1,2), of a] assms(3) by simp_all
  have j: "active_for k j" "j \<in> set (fetch_jobs (work c'))"
    using created [OF assms(1), of k a j c'] answered [OF assms(1), of k a j c'] assms(3)
    by (cases b; auto)+
  obtain j' c'' where c'': "create k a' c' = (Inr (j', False), c'')"
    using finds [OF inv j(2,1)] by blast
  have "j' = j" using answered [OF inv c''] one j unfolding single_def by blast
  then show ?thesis using c'' answered [OF inv c''] by blast
qed

end

text \<open>The two providers, with the key made explicit.\<close>

definition feed_create :: "string \<times> string \<Rightarrow> job_args \<Rightarrow> conn \<Rightarrow> (conn, job \<times> bool) outcome" where
  "feed_create k a c =
     create_user_feed_refresh_if_absent (a\<lparr>ja_workspace_id := fst k, ja_user_id := snd k\<rparr>) c"

definition fetch_create ::
  "string \<times> string \<times> string \<times> string \<Rightarrow> job_args \<Rightarrow> conn \<Rightarrow> (conn, job \<times> bool) outcome" where
  "fetch_create k a c =
     (case k of (w, u, s, b) \<Rightarrow>
        create_source_fetch_if_absent s b (a\<lparr>ja_workspace_id := w, ja_user_id := u\<rparr>) c)"

lemma insert_then_find:
  assumes "insert_job j d = Inr d'"
  shows "find_job (j_id j) d' = Some j \<and> fetch_jobs d' = fetch_jobs d @ [j]"
proof -
  have new: "j_id j \<notin> j_id ` set (fetch_jobs d)" and d': "d' = d\<lparr>fetch_jobs := fetch_jobs d @ [j]\<rparr>"
    using assms by (auto simp: insert_job_Inr)
  show ?thesis unfolding d' find_job_def using lookup_row_append_new [OF new refl] by simp
qed

lemma feed_refresh_body_cases:
  "feed_refresh_body jid now a d =
     (case first_by active_order (active_feed_for (ja_workspace_id a, ja_user_id a)) (fetch_jobs d) of
        Some j \<Rightarrow> (Inr (j, False), d)
      | None \<Rightarrow>
         (let j = queued_job jid now (a\<lparr>ja_job_type := ''user_feed_refresh'', ja_source_id := None,
                  ja_subscription_id := None\<rparr>)
          in case insert_job j d of Inl e \<Rightarrow> (Inl e, d) | Inr d' \<Rightarrow> (Inr (j, True), d')))"
proof -
  let ?j = "queued_job jid now (a\<lparr>ja_job_type := ''user_feed_refresh'', ja_source_id := None,
                  ja_subscription_id := None\<rparr>)"
  have "insert_job ?j d = Inr d' \<Longrightarrow> find_job jid d' = Some ?j" for d'
    using insert_then_find [of ?j d d'] by simp
  then show ?thesis
    by (simp add: feed_refresh_body_def Let_def split: option.split sum.split)
qed

lemma source_fetch_body_cases:
  "source_fetch_body jid now src sub a d =
     (case first_by active_order (active_fetch_for (ja_workspace_id a, ja_user_id a, src, sub)) (fetch_jobs d) of
        Some j \<Rightarrow> (Inr (j, False), d)
      | None \<Rightarrow>
         (let j = queued_job jid now (a\<lparr>ja_job_type := ''source_fetch'', ja_source_id := Some src,
                  ja_subscription_id := Some sub\<rparr>)
          in case insert_job j d of Inl e \<Rightarrow> (Inl e, d) | Inr d' \<Rightarrow> (Inr (j, True), d')))"
proof -
  let ?j = "queued_job jid now (a\<lparr>ja_job_type := ''source_fetch'', ja_source_id := Some src,
                  ja_subscription_id := Some sub\<rparr>)"
  have "insert_job ?j d = Inr d' \<Longrightarrow> find_job jid d' = Some ?j" for d'
    using insert_then_find [of ?j d d'] by simp
  then show ?thesis
    by (simp add: source_fetch_body_def Let_def split: option.split sum.split)
qed

text \<open>What a body of this shape gives inside \<open>owned_transaction\<close>, for any key and any row.\<close>

definition dedup_body :: "(job \<Rightarrow> bool) \<Rightarrow> job \<Rightarrow> db \<Rightarrow> (db, job \<times> bool) outcome" where
  "dedup_body act new d =
     (case first_by active_order act (fetch_jobs d) of
        Some j \<Rightarrow> (Inr (j, False), d)
      | None \<Rightarrow> (case insert_job new d of Inl e \<Rightarrow> (Inl e, d) | Inr d' \<Rightarrow> (Inr (new, True), d')))"

lemma dedup_body_outcome:
  "owned_transaction (dedup_body act new) c = (Inr (j, True), c') \<Longrightarrow>
     j = new \<and> fetch_jobs (work c') = fetch_jobs (work c) @ [j]
     \<and> (\<forall>r \<in> set (fetch_jobs (work c)). \<not> act r)"
  "owned_transaction (dedup_body act new) c = (Inr (j, False), c') \<Longrightarrow>
     act j \<and> j \<in> set (fetch_jobs (work c)) \<and> fetch_jobs (work c') = fetch_jobs (work c)"
  "conn_ok c \<Longrightarrow> owned_transaction (dedup_body act new) c = (Inl e, c') \<Longrightarrow>
     fetch_jobs (work c') = fetch_jobs (work c)"
  "r \<in> set (fetch_jobs (work c)) \<Longrightarrow> act r \<Longrightarrow>
     \<exists>j c'. owned_transaction (dedup_body act new) c = (Inr (j, False), c')"
proof -
  note split = owned_transaction_def dedup_body_def
  show "owned_transaction (dedup_body act new) c = (Inr (j, True), c') \<Longrightarrow>
     j = new \<and> fetch_jobs (work c') = fetch_jobs (work c) @ [j]
     \<and> (\<forall>r \<in> set (fetch_jobs (work c)). \<not> act r)"
    by (auto simp: split insert_job_Inr first_by_None_iff split: option.splits sum.splits if_splits)
  show "owned_transaction (dedup_body act new) c = (Inr (j, False), c') \<Longrightarrow>
     act j \<and> j \<in> set (fetch_jobs (work c)) \<and> fetch_jobs (work c') = fetch_jobs (work c)"
    by (auto simp: split dest: first_by_SomeD split: option.splits sum.splits if_splits)
  show "conn_ok c \<Longrightarrow> owned_transaction (dedup_body act new) c = (Inl e, c') \<Longrightarrow>
     fetch_jobs (work c') = fetch_jobs (work c)"
    by (auto simp: split conn_ok_def rollback_if_open_def split: option.splits sum.splits if_splits)
  show "r \<in> set (fetch_jobs (work c)) \<Longrightarrow> act r \<Longrightarrow>
     \<exists>j c'. owned_transaction (dedup_body act new) c = (Inr (j, False), c')"
    using first_by_ex [of r "fetch_jobs (work c)" act active_order]
    by (auto simp: split)
qed

definition feed_row :: "string \<times> string \<Rightarrow> job_args \<Rightarrow> conn \<Rightarrow> job" where
  "feed_row k a c = queued_job (''job_'' @ uuid_hex c (drawn c)) (clock c)
     (a\<lparr>ja_workspace_id := fst k, ja_user_id := snd k, ja_job_type := ''user_feed_refresh'',
        ja_source_id := None, ja_subscription_id := None\<rparr>)"

definition fetch_row :: "string \<times> string \<times> string \<times> string \<Rightarrow> job_args \<Rightarrow> conn \<Rightarrow> job" where
  "fetch_row k a c = (case k of (w, u, s, b) \<Rightarrow>
     queued_job (''job_'' @ uuid_hex c (drawn c)) (clock c)
       (a\<lparr>ja_workspace_id := w, ja_user_id := u, ja_job_type := ''source_fetch'',
          ja_source_id := Some s, ja_subscription_id := Some b\<rparr>))"

lemma feed_create_owned:
  "feed_create k a c =
     owned_transaction (dedup_body (active_feed_for k) (feed_row k a c)) (c\<lparr>drawn := Suc (drawn c)\<rparr>)"
proof -
  have "feed_refresh_body (''job_'' @ uuid_hex c (drawn c)) (clock c)
      (a\<lparr>ja_workspace_id := fst k, ja_user_id := snd k\<rparr>) = dedup_body (active_feed_for k) (feed_row k a c)"
    unfolding feed_refresh_body_cases dedup_body_def feed_row_def Let_def by simp
  then show ?thesis
    by (simp add: feed_create_def create_user_feed_refresh_if_absent_def new_uuid_def)
qed

lemma fetch_create_owned:
  "fetch_create k a c =
     owned_transaction (dedup_body (active_fetch_for k) (fetch_row k a c)) (c\<lparr>drawn := Suc (drawn c)\<rparr>)"
proof -
  obtain w u s b where k: "k = (w, u, s, b)" by (cases k) auto
  have "source_fetch_body (''job_'' @ uuid_hex c (drawn c)) (clock c) s b
      (a\<lparr>ja_workspace_id := w, ja_user_id := u\<rparr>) = dedup_body (active_fetch_for k) (fetch_row k a c)"
    unfolding source_fetch_body_cases dedup_body_def fetch_row_def Let_def k prod.case by simp
  then show ?thesis
    by (simp add: fetch_create_def create_source_fetch_if_absent_def new_uuid_def k)
qed

lemma feed_row_active [simp]: "active_feed_for k (feed_row k a c)"
  by (simp add: feed_row_def active_feed_for_def is_active_def queued_job_def)

lemma fetch_row_active [simp]: "active_fetch_for k (fetch_row k a c)"
  by (auto simp: fetch_row_def active_fetch_for_def is_active_def queued_job_def split: prod.splits)

text \<open>Any provider of this shape satisfies the laws of the interface.\<close>

lemma dedup_provider:
  assumes shape: "\<And>k a c. create k a c =
      owned_transaction (dedup_body (act k) (new k a c)) (c\<lparr>drawn := Suc (drawn c)\<rparr>)"
    and key: "\<And>k a c. act k (new k a c)"
    and keeps: "\<And>k a c. queue_inv c \<Longrightarrow> queue_inv (snd (create k a c))"
  shows "dedup_queue act create"
proof (rule dedup_queue.intro)
  fix c :: conn and k a j c'
  assume "create k a c = (Inr (j, True), c')"
  then show "act k j \<and> fetch_jobs (work c') = fetch_jobs (work c) @ [j]
      \<and> (\<forall>r \<in> set (fetch_jobs (work c)). \<not> act k r)"
    using dedup_body_outcome(1) key unfolding shape by fastforce
next
  fix c :: conn and k a j c'
  assume "create k a c = (Inr (j, False), c')"
  then show "act k j \<and> j \<in> set (fetch_jobs (work c)) \<and> fetch_jobs (work c') = fetch_jobs (work c)"
    using dedup_body_outcome(2) unfolding shape by fastforce
next
  fix c :: conn and k a e c'
  assume "queue_inv c" "create k a c = (Inl e, c')"
  then show "fetch_jobs (work c') = fetch_jobs (work c)"
    using dedup_body_outcome(3) [of "c\<lparr>drawn := Suc (drawn c)\<rparr>"] unfolding shape
    by (simp add: queue_inv_def)
next
  fix c :: conn and r k a
  assume "r \<in> set (fetch_jobs (work c))" "act k r"
  then show "\<exists>j c'. create k a c = (Inr (j, False), c')"
    unfolding shape by (intro dedup_body_outcome(4)) auto
qed (rule keeps)

lemma feed_create_keeps: "queue_inv c \<Longrightarrow> queue_inv (snd (feed_create k a c))"
  using exec_op_keeps [of c "CreateFeed (a\<lparr>ja_workspace_id := fst k, ja_user_id := snd k\<rparr>)"]
  by (simp add: feed_create_def)

lemma fetch_create_keeps:
  assumes "queue_inv c"
  shows "queue_inv (snd (fetch_create k a c))"
proof -
  obtain w u s b where "k = (w, u, s, b)" by (cases k) auto
  then show ?thesis
    using exec_op_keeps [OF assms, of "CreateFetch s b (a\<lparr>ja_workspace_id := w, ja_user_id := u\<rparr>)"]
    by (simp add: fetch_create_def)
qed

interpretation feed_dedup: dedup_queue active_feed_for feed_create
  by (rule dedup_provider [OF feed_create_owned feed_row_active feed_create_keeps])

interpretation fetch_dedup: dedup_queue active_fetch_for fetch_create
  by (rule dedup_provider [OF fetch_create_owned fetch_row_active fetch_create_keeps])

text \<open>Creating a full refresh twice for a user creates one: the second call answers with the
  first call's job and adds no row.\<close>

theorem feed_refresh_creation_is_idempotent:
  assumes "queue_inv c"
    and "create_user_feed_refresh_if_absent a c = (Inr (j, b), c')"
    and "ja_workspace_id a' = ja_workspace_id a" "ja_user_id a' = ja_user_id a"
  shows "\<exists>c''. create_user_feed_refresh_if_absent a' c' = (Inr (j, False), c'')
    \<and> fetch_jobs (work c'') = fetch_jobs (work c')"
proof -
  let ?k = "(ja_workspace_id a, ja_user_id a)"
  have eq: "create_user_feed_refresh_if_absent x d = feed_create ?k x d"
    if "ja_workspace_id x = ja_workspace_id a" "ja_user_id x = ja_user_id a" for x d
  proof -
    have "x\<lparr>ja_workspace_id := ja_workspace_id a, ja_user_id := ja_user_id a\<rparr> = x"
      using that by (cases x) simp
    then show ?thesis by (simp add: feed_create_def)
  qed
  have ok: "jobs_ok (fetch_jobs (work c))" using assms(1) by (simp add: queue_inv_def)
  have "feed_dedup.single ?k c"
    unfolding feed_dedup.single_def
  proof (intro ballI impI)
    fix j j'
    assume j: "j \<in> set (fetch_jobs (work c))" "j' \<in> set (fetch_jobs (work c))"
      "active_feed_for ?k j" "active_feed_for ?k j'"
    have "j_id j = j_id j'" by (rule feed_uniqueD [OF jobs_ok_feed_unique [OF ok] j])
    with jobs_ok_distinct [OF ok] j(1,2) show "j = j'" by (rule lookup_row_unique)
  qed
  from feed_dedup.create_twice [OF assms(1) this, of a j b c' a'] assms(2-4) show ?thesis
    by (simp add: eq)
qed

lemma feed_refresh_creation_is_idempotent_witness:
  "\<exists>j c' c''. create_user_feed_refresh_if_absent (plain_args ''x'' 1) sample0 = (Inr (j, True), c')
     \<and> create_user_feed_refresh_if_absent (plain_args ''z'' 7) c' = (Inr (j, False), c'')"
proof -
  have "case fst (create_user_feed_refresh_if_absent (plain_args ''x'' 1) sample0) of
      Inl e \<Rightarrow> False | Inr (j, b) \<Rightarrow> b" by code_simp
  then obtain j c' where c: "create_user_feed_refresh_if_absent (plain_args ''x'' 1) sample0 = (Inr (j, True), c')"
    by (cases "create_user_feed_refresh_if_absent (plain_args ''x'' 1) sample0")
       (auto split: sum.splits)
  from feed_refresh_creation_is_idempotent [OF sample_inv(1) c, of "plain_args ''z'' 7"]
  show ?thesis using c by (auto simp: plain_args_def)
qed

text \<open>Creation of a source fetch keeps at most one active fetch per workspace, user, source
  and subscription.\<close>

theorem source_fetch_creation_keeps_one_active:
  assumes "queue_inv c" "create_source_fetch_if_absent src sub a c = (r, c')"
    and "\<And>j j'. j \<in> set (fetch_jobs (work c)) \<Longrightarrow> j' \<in> set (fetch_jobs (work c)) \<Longrightarrow>
      active_fetch_for (ja_workspace_id a, ja_user_id a, src, sub) j \<Longrightarrow>
      active_fetch_for (ja_workspace_id a, ja_user_id a, src, sub) j' \<Longrightarrow> j = j'"
    and "j \<in> set (fetch_jobs (work c'))" "j' \<in> set (fetch_jobs (work c'))"
    and "active_fetch_for (ja_workspace_id a, ja_user_id a, src, sub) j"
    and "active_fetch_for (ja_workspace_id a, ja_user_id a, src, sub) j'"
  shows "j = j'"
proof -
  let ?k = "(ja_workspace_id a, ja_user_id a, src, sub)"
  have "fetch_dedup.single ?k c" using assms(3) by (auto simp: fetch_dedup.single_def)
  from fetch_dedup.create_keeps_single [OF assms(1) this, of a] show ?thesis
    using assms(2,4-7) by (simp add: fetch_dedup.single_def fetch_create_def)
qed

lemma source_fetch_creation_keeps_one_active_witness:
  "hd (fetch_jobs (work (snd (create_source_fetch_if_absent ''s'' ''b'' (plain_args ''x'' 1) sample0)))) =
   last (fetch_jobs (work (snd (create_source_fetch_if_absent ''s'' ''b'' (plain_args ''x'' 1) sample0))))"
proof -
  obtain r c' where c: "create_source_fetch_if_absent ''s'' ''b'' (plain_args ''x'' 1) sample0 = (r, c')"
    by fastforce
  have "hd (fetch_jobs (work c')) = last (fetch_jobs (work c'))"
  proof (rule source_fetch_creation_keeps_one_active [OF sample_inv(1) c])
    let ?c = "snd (create_source_fetch_if_absent ''s'' ''b'' (plain_args ''x'' 1) sample0)"
    have "hd (fetch_jobs (work ?c)) \<in> set (fetch_jobs (work ?c)) \<and> last (fetch_jobs (work ?c)) \<in> set (fetch_jobs (work ?c))
      \<and> active_fetch_for (''w'', ''u'', ''s'', ''b'') (hd (fetch_jobs (work ?c)))
      \<and> active_fetch_for (''w'', ''u'', ''s'', ''b'') (last (fetch_jobs (work ?c)))" by code_simp
    then show "hd (fetch_jobs (work c')) \<in> set (fetch_jobs (work c'))"
      "last (fetch_jobs (work c')) \<in> set (fetch_jobs (work c'))"
      "active_fetch_for (ja_workspace_id (plain_args ''x'' 1), ja_user_id (plain_args ''x'' 1), ''s'', ''b'') (hd (fetch_jobs (work c')))"
      "active_fetch_for (ja_workspace_id (plain_args ''x'' 1), ja_user_id (plain_args ''x'' 1), ''s'', ''b'') (last (fetch_jobs (work c')))"
      using c by (simp_all add: plain_args_def)
  qed (simp add: sample0_def sample_db_def)
  with c show ?thesis by simp
qed

end
