(* ===== verification/QueueRefine.thy ===== *)
theory QueueRefine
  imports QueueReach
begin

section \<open>The queue refines the life cycle of a job\<close>

text \<open>
  The abstract specification of the queue: a job identifier is unknown or has a status, and the
  status moves along a small graph.  The abstraction of a database is the map from identifiers
  to statuses; every operation of the queue that starts outside a transaction moves every
  identifier of the committed database by at most one edge.
\<close>

inductive life_step :: "job_status option \<Rightarrow> job_status option \<Rightarrow> bool" where
  stay: "life_step s s"
| create: "life_step None (Some Queued)"
| claim: "life_step (Some Queued) (Some Running)"
| withdraw: "life_step (Some Queued) (Some Cancelled)"
| settle: "life_step (Some Running) (Some s)"
| reopen: "retryable_status s \<Longrightarrow> life_step (Some s) (Some Queued)"
| remove: "is_terminal s \<Longrightarrow> life_step (Some s) None"

inductive_cases life_step_fromE: "life_step (Some s) t"
inductive_simps life_step_from_None: "life_step None t"

definition status_in :: "job list \<Rightarrow> string \<Rightarrow> job_status option" where
  "status_in js i = map_option j_status (lookup_row j_id i js)"

definition job_statuses :: "db \<Rightarrow> string \<Rightarrow> job_status option" where
  "job_statuses d = status_in (fetch_jobs d)"

lemma lifecycle_life_step: "lifecycle s s' \<Longrightarrow> life_step (Some s) (Some s')"
  by (cases s) (auto intro: life_step.intros)

lemma status_in_update:
  assumes "\<And>j. j \<in> set js \<Longrightarrow> P j \<Longrightarrow> j_id (f j) = j_id j \<and> life_step (Some (j_status j)) (Some (j_status (f j)))"
  shows "life_step (status_in js i) (status_in (update_where P f js) i)"
proof -
  let ?Q = "\<lambda>j. P j \<and> j \<in> set js"
  let ?f = "\<lambda>j. if j \<in> set js \<and> P j then f j else j"
  have eq: "update_where P f js = update_where ?Q ?f js" by (simp add: update_where_def)
  have id: "\<And>r. ?Q r \<Longrightarrow> j_id (?f r) = j_id r" using assms by simp
  have "lookup_row j_id i (update_where ?Q ?f js) =
      map_option (\<lambda>r. if ?Q r then ?f r else r) (lookup_row j_id i js)"
    by (rule lookup_row_update_where [where key = j_id]) (rule id)
  then show ?thesis
    using assms by (cases "lookup_row j_id i js") (auto simp: status_in_def eq intro: stay)
qed

lemma lookup_filter:
  assumes "distinct (map key rows)"
  shows "lookup_row key k (filter P rows) =
    (case lookup_row key k rows of None \<Rightarrow> None | Some r \<Rightarrow> if P r then Some r else None)"
  using assms
proof (induction rows)
  case (Cons a rows)
  then show ?case
  proof (cases "key a = k")
    case True
    then have "k \<notin> key ` set (filter P rows)" using Cons.prems by auto
    then have "lookup_row key k (filter P rows) = None" by (simp add: lookup_row_None_iff)
    then show ?thesis using True by (simp add: lookup_row_def)
  next
    case False
    then show ?thesis using Cons by (simp add: lookup_row_def)
  qed
qed (simp add: lookup_row_def)

lemma table_step_refines:
  "table_step tok js js' \<Longrightarrow> jobs_ok js \<Longrightarrow> life_step (status_in js i) (status_in js' i)"
proof (induction rule: table_step.induct)
  case (stutter js)
  show ?case by (rule stay)
next
  case (rewrite P f js)
  have "j_id (f j) = j_id j \<and> lifecycle (j_status j) (j_status (f j))" if "j \<in> set js" "P j" for j
    using rewrite that jobs_ok_job_ok by (auto simp: moves_rows_def row_step_def same_identity_def)
  then show ?case by (intro status_in_update) (auto intro: lifecycle_life_step)
next
  case (append j js)
  show ?case
  proof (cases "i = j_id j")
    case True
    then have "lookup_row j_id i js = None" using append.hyps(2) by (simp add: lookup_row_None_iff)
    then show ?thesis
      using True append.hyps(2,4) by (simp add: status_in_def lookup_row_append_new create)
  next
    case False
    then show ?thesis by (simp add: status_in_def lookup_row_append_other stay)
  qed
next
  case (reopen cur js now)
  show ?case by (rule status_in_update) (auto simp: reset_for_retry_def intro: life_step.reopen)
next
  case (delete P js)
  have "distinct (map j_id js)" using delete.prems by (simp add: jobs_ok_def)
  then show ?case
    using delete.hyps unfolding status_in_def
    by (auto simp: lookup_filter split: option.split intro: stay remove)
qed

lemma conn_step_refines:
  assumes "conn_step tok c c'" "queue_inv c" "\<not> in_tx c"
  shows "life_step (job_statuses (durable c) i) (job_statuses (durable c') i)"
proof -
  have w: "work c = durable c" "jobs_ok (fetch_jobs (durable c))"
    using assms(2,3) by (auto simp: queue_inv_def conn_ok_def)
  consider "durable c' = durable c"
    | "table_step tok (fetch_jobs (durable c)) (fetch_jobs (durable c'))"
    using assms(1) w by (auto simp: conn_step_def)
  then show ?thesis
    by cases (auto simp: job_statuses_def intro: stay table_step_refines w)
qed

text \<open>C27: The queue refines the abstract life cycle: an operation that starts outside a transaction
  moves every job identifier of the committed database by at most one edge of the graph unknown,
  queued, running, finished.\<close>

theorem queue_refines_the_life_cycle:
  assumes "queue_inv c" "\<not> in_tx c"
  shows "life_step (job_statuses (durable c) i) (job_statuses (durable (exec_op x c)) i)"
proof (cases "\<exists>n. x = Tick n")
  case True
  then show ?thesis by (auto intro: stay)
next
  case False
  then have "op_step c (exec_op x c)" using exec_op_step [OF assms(1)] by simp
  then obtain tok where "conn_step tok c (exec_op x c)" by (auto simp: op_step_def)
  then show ?thesis by (rule conn_step_refines [OF _ assms])
qed

lemma queue_refines_the_life_cycle_witness:
  "life_step (job_statuses (durable sample1) ''job_a'')
     (job_statuses (durable (exec_op (CancelJob ''job_a'' None) sample1)) ''job_a'')
   \<and> job_statuses (durable (exec_op (CancelJob ''job_a'' None) sample1)) ''job_a'' = Some Cancelled"
proof -
  have "job_statuses (durable (exec_op (CancelJob ''job_a'' None) sample1)) ''job_a'' = Some Cancelled"
    by code_simp
  with queue_refines_the_life_cycle [OF sample_inv(2) sample_no_tx(2)] show ?thesis by blast
qed

end
