(* ===== verification/SystemSettings.thy ===== *)
theory SystemSettings
  imports Store PyText "HOL-Library.AList"
begin

section \<open>Workspace system settings\<close>

text \<open>
  \<open>src/src/services/system_settings_registry.py\<close> (the typed allowlist, validation, environment
  fallbacks) and \<open>system_settings.py\<close> (resolution, preview of a change).  A dict is an
  association list in insertion order, the process environment is the argument \<open>env\<close>, text is
  ASCII.  The descriptions of the settings, which only the web page shows, are left out.
\<close>

subsection \<open>The registry\<close>

datatype setting_value = SBool bool | SInt int

datatype setting_kind = BooleanKind | IntegerKind

record setting_definition =
  sd_key :: string
  sd_env_name :: string
  sd_kind :: setting_kind
  sd_default :: setting_value
  sd_category :: string
  sd_minimum :: "int option"
  sd_maximum :: "int option"
  sd_risk :: string
  sd_effect_timing :: string

definition integer_setting ::
  "string \<Rightarrow> string \<Rightarrow> int \<Rightarrow> string \<Rightarrow> int \<Rightarrow> int \<Rightarrow> string \<Rightarrow> setting_definition" where
  "integer_setting key env_name fallback category lo hi timing =
     \<lparr>sd_key = key, sd_env_name = env_name, sd_kind = IntegerKind, sd_default = SInt fallback,
      sd_category = category, sd_minimum = Some lo, sd_maximum = Some hi, sd_risk = ''medium'',
      sd_effect_timing = timing\<rparr>"

definition boolean_setting ::
  "string \<Rightarrow> string \<Rightarrow> bool \<Rightarrow> string \<Rightarrow> string \<Rightarrow> string \<Rightarrow> setting_definition" where
  "boolean_setting key env_name fallback category risk timing =
     \<lparr>sd_key = key, sd_env_name = env_name, sd_kind = BooleanKind, sd_default = SBool fallback,
      sd_category = category, sd_minimum = None, sd_maximum = None, sd_risk = risk,
      sd_effect_timing = timing\<rparr>"

definition setting_definitions :: "setting_definition list" where
  "setting_definitions = [
     integer_setting ''limits.max_fetch_jobs_per_day'' ''INFOHUB_MAX_FETCH_JOBS_PER_DAY'' 100
       ''capacity'' 0 10000 ''next_operation'',
     integer_setting ''limits.max_sources_per_user'' ''INFOHUB_MAX_SOURCES_PER_USER'' 100
       ''capacity'' 0 5000 ''next_operation'',
     integer_setting ''limits.max_ai_items_per_day'' ''INFOHUB_MAX_AI_ITEMS_PER_DAY'' 1000
       ''capacity'' 0 10000 ''next_operation'',
     integer_setting ''limits.max_workspace_ai_attempts_per_day''
       ''INFOHUB_MAX_WORKSPACE_AI_ATTEMPTS_PER_DAY'' 1000 ''capacity'' 0 10000 ''next_operation'',
     integer_setting ''limits.max_workspace_fetch_attempts_per_day''
       ''INFOHUB_MAX_WORKSPACE_FETCH_ATTEMPTS_PER_DAY'' 100 ''capacity'' 0 10000 ''next_operation'',
     integer_setting ''limits.max_provider_fetch_attempts_per_day''
       ''INFOHUB_MAX_PROVIDER_FETCH_ATTEMPTS_PER_DAY'' 100 ''capacity'' 0 10000 ''next_operation'',
     integer_setting ''jobs.max_attempts'' ''HORIZON_JOB_MAX_ATTEMPTS'' 3 ''jobs'' 1 10 ''new_jobs'',
     integer_setting ''jobs.retry_base_seconds'' ''HORIZON_WORKER_RETRY_BASE_SECONDS'' 30
       ''jobs'' 1 3600 ''next_failure'',
     integer_setting ''jobs.retention_days'' ''HORIZON_JOB_RETENTION_DAYS'' 14 ''jobs'' 1 365
       ''new_jobs'',
     boolean_setting ''scheduling.automatic_enqueue_enabled'' ''HORIZON_SCHEDULE_POLL_ENABLED''
       True ''jobs'' ''high'' ''next_operation'',
     integer_setting ''retention.feed_snapshot_days'' ''HORIZON_FEED_SNAPSHOT_RETENTION_DAYS''
       30 ''retention'' 1 3650 ''next_maintenance'',
     integer_setting ''retention.max_feed_snapshots_per_user'' ''HORIZON_MAX_FEED_SNAPSHOTS_PER_USER''
       20 ''retention'' 1 10000 ''next_maintenance'',
     integer_setting ''retention.source_content_days'' ''HORIZON_SOURCE_CONTENT_RETENTION_DAYS''
       7 ''retention'' 1 3650 ''next_maintenance'',
     integer_setting ''retention.analysis_cache_days'' ''HORIZON_ANALYSIS_CACHE_RETENTION_DAYS''
       30 ''retention'' 1 3650 ''next_maintenance'',
     integer_setting ''retention.usage_days'' ''HORIZON_USAGE_RETENTION_DAYS'' 90
       ''retention'' 1 3650 ''next_maintenance'',
     boolean_setting ''storage.compact_feed_snapshots_enabled''
       ''HORIZON_COMPACT_FEED_SNAPSHOTS_ENABLED'' True ''storage'' ''high'' ''next_snapshot'',
     boolean_setting ''acquisition.shared_enabled'' ''HORIZON_SHARED_ACQUISITION_ENABLED'' True
       ''acquisition'' ''high'' ''next_operation'',
     integer_setting ''acquisition.min_ttl_minutes'' ''HORIZON_SHARED_ACQUISITION_MIN_TTL_MINUTES''
       5 ''acquisition'' 1 1440 ''next_operation'',
     integer_setting ''acquisition.max_ttl_minutes'' ''HORIZON_SHARED_ACQUISITION_MAX_TTL_MINUTES''
       60 ''acquisition'' 1 1440 ''next_operation'',
     integer_setting ''acquisition.fallback_ttl_minutes''
       ''HORIZON_SHARED_ACQUISITION_FALLBACK_TTL_MINUTES'' 30 ''acquisition'' 1 1440
       ''next_operation'',
     integer_setting ''acquisition.failure_backoff_seconds''
       ''HORIZON_SHARED_ACQUISITION_FAILURE_BACKOFF_SECONDS'' 30 ''acquisition'' 1 300
       ''next_failure'']"

definition find_definition :: "string \<Rightarrow> setting_definition option" where
  "find_definition key = find (\<lambda>sd. sd_key sd = key) setting_definitions"

definition setting_aliases :: "(string \<times> string) list" where
  "setting_aliases = map (\<lambda>sd. (sd_env_name sd, sd_key sd)) setting_definitions"

definition canonical_setting_key :: "string \<Rightarrow> exn + string" where
  "canonical_setting_key key_or_alias =
     (let key = strip key_or_alias;
          canonical = (case map_of setting_aliases key of None \<Rightarrow> key | Some k \<Rightarrow> k)
      in if find_definition canonical = None
         then Inl (InvalidSystemSetting (''unsupported system setting: '' @ key))
         else Inr canonical)"

definition option_text :: "int option \<Rightarrow> string" where
  "option_text i = (case i of None \<Rightarrow> ''None'' | Some n \<Rightarrow> show_int n)"

definition check_value :: "setting_definition \<Rightarrow> json \<Rightarrow> exn + setting_value" where
  "check_value sd value =
     (case sd_kind sd of
        BooleanKind \<Rightarrow>
          (case value of
             JBool b \<Rightarrow> Inr (SBool b)
           | _ \<Rightarrow> Inl (InvalidSystemSetting (sd_key sd @ '' must be a boolean'')))
      | IntegerKind \<Rightarrow>
          (case value of
             JInt n \<Rightarrow>
               (if n < the (sd_minimum sd) \<or> n > the (sd_maximum sd)
                then Inl (InvalidSystemSetting (sd_key sd @ '' must be between '' @
                       option_text (sd_minimum sd) @ '' and '' @ option_text (sd_maximum sd)))
                else Inr (SInt n))
           | _ \<Rightarrow> Inl (InvalidSystemSetting (sd_key sd @ '' must be an integer''))))"

definition validate_setting_value :: "string \<Rightarrow> json \<Rightarrow> exn + setting_value" where
  "validate_setting_value key_or_alias value =
     (case canonical_setting_key key_or_alias of
        Inl e \<Rightarrow> Inl e
      | Inr key \<Rightarrow> check_value (the (find_definition key)) value)"

definition parse_environment_value ::
  "(string \<Rightarrow> string option) \<Rightarrow> setting_definition \<Rightarrow> exn + setting_value" where
  "parse_environment_value env sd =
     (case env (sd_env_name sd) of
        None \<Rightarrow> Inr (sd_default sd)
      | Some raw \<Rightarrow>
         (case sd_kind sd of
            BooleanKind \<Rightarrow>
              (let normalized = casefold (strip raw)
               in if normalized \<in> {''1'', ''true'', ''yes'', ''on''} then Inr (SBool True)
                  else if normalized \<in> {''0'', ''false'', ''no'', ''off''} then Inr (SBool False)
                  else Inl (InvalidSystemSetting (sd_env_name sd @ '' must be a boolean'')))
          | IntegerKind \<Rightarrow>
              (case parse_int (strip raw) of
                 None \<Rightarrow> Inl (InvalidSystemSetting (sd_env_name sd @ '' must be an integer''))
               | Some n \<Rightarrow> validate_setting_value (sd_key sd) (JInt n))))"

subsection \<open>Stored overrides\<close>

text \<open>Stored JSON is validated on every read.\<close>

fun read_overrides ::
  "dict \<Rightarrow> (string \<times> setting_value) list \<Rightarrow> exn + (string \<times> setting_value) list" where
  "read_overrides [] values = Inr values"
| "read_overrides ((raw_key, value) # kvs) values =
     (case canonical_setting_key raw_key of
        Inl e \<Rightarrow> Inl e
      | Inr key \<Rightarrow>
         (case validate_setting_value key value of
            Inl e \<Rightarrow> Inl e
          | Inr v \<Rightarrow> read_overrides kvs (AList.update key v values)))"

definition corrupt_settings :: exn where
  "corrupt_settings = SystemSettingsUnavailable ''system settings row is corrupt''"

definition find_settings :: "string \<Rightarrow> db \<Rightarrow> settings_row option" where
  "find_settings w d = lookup_row ws_workspace_id w (workspace_system_settings d)"

definition overrides ::
  "db \<Rightarrow> string \<Rightarrow> exn + ((string \<times> setting_value) list \<times> int) option" where
  "overrides d w =
     (if \<not> system_settings_migrated d then Inr None
      else (case find_settings w d of
              None \<Rightarrow> Inr None
            | Some row \<Rightarrow>
               (case ws_overrides row of
                  Some (JObj raw) \<Rightarrow>
                    (case read_overrides raw [] of
                       Inl e \<Rightarrow> Inl e
                     | Inr values \<Rightarrow> Inr (Some (values, ws_generation row)))
                | _ \<Rightarrow> Inl corrupt_settings)))"

definition resolve_system_setting ::
  "(string \<Rightarrow> string option) \<Rightarrow> db \<Rightarrow> string \<Rightarrow> string \<Rightarrow> exn + setting_value" where
  "resolve_system_setting env d w key_or_alias =
     (case canonical_setting_key key_or_alias of
        Inl e \<Rightarrow> Inl e
      | Inr key \<Rightarrow>
         (case overrides d w of
            Inl e \<Rightarrow> Inl e
          | Inr state \<Rightarrow>
             (case (case state of None \<Rightarrow> None | Some (values, _) \<Rightarrow> map_of values key) of
                Some v \<Rightarrow> Inr v
              | None \<Rightarrow> parse_environment_value env (the (find_definition key)))))"

text \<open>\<open>int(value)\<close> of a setting.\<close>

fun setting_int :: "setting_value \<Rightarrow> int" where
  "setting_int (SInt n) = n"
| "setting_int (SBool b) = (if b then 1 else 0)"

definition settings_state ::
  "db \<Rightarrow> string \<Rightarrow> exn + ((string \<times> setting_value) list \<times> int)" where
  "settings_state d w =
     (if \<not> system_settings_migrated d
      then Inl (SystemSettingsUnavailable ''global 32 system settings migration must be applied'')
      else (case overrides d w of
              Inl e \<Rightarrow> Inl e
            | Inr None \<Rightarrow> Inl (SystemSettingsUnavailable ''workspace system settings row is missing'')
            | Inr (Some state) \<Rightarrow> Inr state))"

subsection \<open>Preview of a change\<close>

fun normalize_entries ::
  "dict \<Rightarrow> (string \<times> setting_value option) list \<Rightarrow> exn + (string \<times> setting_value option) list" where
  "normalize_entries [] acc = Inr acc"
| "normalize_entries ((raw_key, value) # kvs) acc =
     (case canonical_setting_key raw_key of
        Inl e \<Rightarrow> Inl e
      | Inr key \<Rightarrow>
         (if key \<in> fst ` set acc
          then Inl (InvalidSystemSetting (''duplicate system setting: '' @ key))
          else if value = JNull then normalize_entries kvs (acc @ [(key, None)])
          else (case validate_setting_value key value of
                  Inl e \<Rightarrow> Inl e
                | Inr v \<Rightarrow> normalize_entries kvs (acc @ [(key, Some v)]))))"

definition normalize_changes :: "dict \<Rightarrow> exn + (string \<times> setting_value option) list" where
  "normalize_changes changes =
     (if changes = [] \<or> length changes > 20
      then Inl (InvalidSystemSetting ''changes must contain between 1 and 20 settings'')
      else normalize_entries changes [])"

fun apply_changes ::
  "(string \<times> setting_value option) list \<Rightarrow> (string \<times> setting_value) list
   \<Rightarrow> (string \<times> setting_value) list" where
  "apply_changes [] current = current"
| "apply_changes ((key, None) # kvs) current = apply_changes kvs (AList.delete key current)"
| "apply_changes ((key, Some v) # kvs) current = apply_changes kvs (AList.update key v current)"

text \<open>\<open>next_overrides.get(key, parse_environment_value(definition))\<close>: the fallback is an
  argument, evaluated for every setting.\<close>

fun effective_values ::
  "(string \<Rightarrow> string option) \<Rightarrow> setting_definition list \<Rightarrow> (string \<times> setting_value) list
   \<Rightarrow> exn + (string \<times> setting_value) list" where
  "effective_values env [] next = Inr []"
| "effective_values env (sd # sds) next =
     (case parse_environment_value env sd of
        Inl e \<Rightarrow> Inl e
      | Inr fallback \<Rightarrow>
         (case effective_values env sds next of
            Inl e \<Rightarrow> Inl e
          | Inr rest \<Rightarrow>
             Inr ((sd_key sd, case map_of next (sd_key sd) of None \<Rightarrow> fallback | Some v \<Rightarrow> v) # rest)))"

definition value_of :: "(string \<times> setting_value) list \<Rightarrow> string \<Rightarrow> setting_value" where
  "value_of values key = the (map_of values key)"

definition ttl_ordered :: "(string \<times> setting_value) list \<Rightarrow> bool" where
  "ttl_ordered values \<longleftrightarrow>
     setting_int (value_of values ''acquisition.min_ttl_minutes'')
       \<le> setting_int (value_of values ''acquisition.fallback_ttl_minutes'')
     \<and> setting_int (value_of values ''acquisition.fallback_ttl_minutes'')
       \<le> setting_int (value_of values ''acquisition.max_ttl_minutes'')"

definition validate_setting_dependencies :: "(string \<times> setting_value) list \<Rightarrow> exn + unit" where
  "validate_setting_dependencies values =
     (if ttl_ordered values then Inr ()
      else Inl (InvalidSystemSetting
             ''acquisition TTL values must satisfy min_ttl <= fallback_ttl <= max_ttl''))"

text \<open>\<open>value == 0\<close> holds for \<open>False\<close> as well.\<close>

definition zero_warnings :: "(string \<times> setting_value option) list \<Rightarrow> string list" where
  "zero_warnings normalized =
     map (\<lambda>(key, _). key @ ''=0 will block the next admission'')
       (filter (\<lambda>(_, v). v = Some (SInt 0) \<or> v = Some (SBool False)) normalized)"

definition capacity_warnings :: "(string \<times> setting_value) list \<Rightarrow> string list" where
  "capacity_warnings values =
     (if setting_int (value_of values ''limits.max_workspace_fetch_attempts_per_day'')
           > setting_int (value_of values ''limits.max_provider_fetch_attempts_per_day'')
      then [''workspace fetch capacity exceeds the per-provider capacity''] else [])"

record change_preview =
  cp_key :: string
  cp_env_name :: string
  cp_before :: setting_value
  cp_after :: setting_value
  cp_reset :: bool
  cp_risk :: string
  cp_effect_timing :: string

fun preview_rows ::
  "(string \<Rightarrow> string option) \<Rightarrow> db \<Rightarrow> string \<Rightarrow> (string \<times> setting_value) list
   \<Rightarrow> (string \<times> setting_value option) list \<Rightarrow> exn + change_preview list" where
  "preview_rows env d w effective [] = Inr []"
| "preview_rows env d w effective ((key, v) # kvs) =
     (case resolve_system_setting env d w key of
        Inl e \<Rightarrow> Inl e
      | Inr before \<Rightarrow>
         (case preview_rows env d w effective kvs of
            Inl e \<Rightarrow> Inl e
          | Inr rest \<Rightarrow>
             (let sd = the (find_definition key)
              in Inr (\<lparr>cp_key = key, cp_env_name = sd_env_name sd, cp_before = before,
                       cp_after = value_of effective key, cp_reset = (v = None),
                       cp_risk = sd_risk sd, cp_effect_timing = sd_effect_timing sd\<rparr> # rest))))"

record settings_preview =
  pv_base_generation :: int
  pv_changes :: "(string \<times> setting_value option) list"
  pv_next_overrides :: "(string \<times> setting_value) list"
  pv_preview_changes :: "change_preview list"
  pv_warnings :: "string list"

definition preview ::
  "(string \<Rightarrow> string option) \<Rightarrow> db \<Rightarrow> string \<Rightarrow> int \<Rightarrow> dict \<Rightarrow> exn + settings_preview" where
  "preview env d w expected changes =
     (case settings_state d w of
        Inl e \<Rightarrow> Inl e
      | Inr (current, generation) \<Rightarrow>
         if generation \<noteq> expected
         then Inl (SystemSettingsGenerationConflict ''system settings generation changed'')
         else
        (case normalize_changes changes of
           Inl e \<Rightarrow> Inl e
         | Inr normalized \<Rightarrow>
            (let next = apply_changes normalized current
             in case effective_values env setting_definitions next of
                  Inl e \<Rightarrow> Inl e
                | Inr effective \<Rightarrow>
                   (case validate_setting_dependencies effective of
                      Inl e \<Rightarrow> Inl e
                    | Inr _ \<Rightarrow>
                       if ''storage.compact_feed_snapshots_enabled'' \<in> fst ` set normalized
                          \<and> value_of effective ''storage.compact_feed_snapshots_enabled'' = SBool True
                          \<and> feed_storage_v3_pending d
                       then Inl (InvalidSystemSetting
                                  ''compact Feed snapshots require feed storage v3'')
                       else
                      (case preview_rows env d w effective normalized of
                         Inl e \<Rightarrow> Inl e
                       | Inr rows \<Rightarrow>
                          Inr \<lparr>pv_base_generation = generation, pv_changes = normalized,
                               pv_next_overrides = next, pv_preview_changes = rows,
                               pv_warnings = zero_warnings normalized @ capacity_warnings effective\<rparr>)))))"

subsection \<open>The registry is well formed\<close>

definition setting_ok :: "setting_definition \<Rightarrow> setting_value \<Rightarrow> bool" where
  "setting_ok sd v \<longleftrightarrow>
     (case v of
        SBool _ \<Rightarrow> sd_kind sd = BooleanKind
      | SInt n \<Rightarrow> sd_kind sd = IntegerKind \<and> the (sd_minimum sd) \<le> n \<and> n \<le> the (sd_maximum sd))"

lemma registry_checked:
  "list_all (\<lambda>sd. strip (sd_key sd) = sd_key sd \<and> sd_key sd \<notin> set (map fst setting_aliases)
     \<and> setting_ok sd (sd_default sd)) setting_definitions"
  by code_simp

lemma registry_distinct: "distinct (map sd_key setting_definitions)"
  by code_simp

lemma find_definition_SomeD:
  "find_definition k = Some sd \<Longrightarrow> sd \<in> set setting_definitions \<and> sd_key sd = k"
  by (auto simp: find_definition_def find_Some_iff)

lemma find_definition_member:
  assumes "sd \<in> set setting_definitions"
  shows "find_definition (sd_key sd) = Some sd"
proof -
  have "find_definition (sd_key sd) \<noteq> None" using assms by (auto simp: find_definition_def find_None_iff)
  then obtain sd' where sd': "find_definition (sd_key sd) = Some sd'" by blast
  from find_definition_SomeD [OF this] have "sd' = sd"
    using lookup_row_unique [OF registry_distinct] assms by blast
  with sd' show ?thesis by simp
qed

lemma canonical_known:
  assumes "find_definition k = Some sd"
  shows "canonical_setting_key k = Inr k"
proof -
  from find_definition_SomeD [OF assms] registry_checked
  have "strip k = k" "map_of setting_aliases k = None"
    by (auto simp: list_all_iff map_of_eq_None_iff)
  then show ?thesis using assms by (simp add: canonical_setting_key_def)
qed

lemma canonical_InrD:
  "canonical_setting_key k = Inr key \<Longrightarrow> \<exists>sd. find_definition key = Some sd"
  by (auto simp: canonical_setting_key_def Let_def split: if_splits)

subsection \<open>Stored values are valid values\<close>

definition values_ok :: "(string \<times> setting_value) list \<Rightarrow> bool" where
  "values_ok values \<longleftrightarrow>
     (\<forall>k v. map_of values k = Some v \<longrightarrow> (\<exists>sd. find_definition k = Some sd \<and> setting_ok sd v))"

lemma values_ok_Nil [simp]: "values_ok []"
  by (simp add: values_ok_def)

lemma values_ok_update:
  "values_ok values \<Longrightarrow> find_definition k = Some sd \<Longrightarrow> setting_ok sd v \<Longrightarrow>
   values_ok (AList.update k v values)"
  by (auto simp: values_ok_def update_conv)

lemma values_ok_delete: "values_ok values \<Longrightarrow> values_ok (AList.delete k values)"
  by (auto simp: values_ok_def delete_conv)

lemma check_value_ok: "check_value sd value = Inr v \<Longrightarrow> setting_ok sd v"
  by (auto simp: check_value_def setting_ok_def split: setting_kind.splits json.splits if_splits)

lemma validate_setting_value_ok:
  assumes "validate_setting_value k value = Inr v" "find_definition k = Some sd"
  shows "setting_ok sd v"
  using assms check_value_ok by (simp add: validate_setting_value_def canonical_known)

lemma read_overrides_ok:
  "values_ok acc \<Longrightarrow> read_overrides kvs acc = Inr values \<Longrightarrow> values_ok values"
proof (induction kvs acc rule: read_overrides.induct)
  case (2 raw_key val kvs acc)
  then show ?case
    by (auto split: sum.splits dest!: canonical_InrD
        intro: values_ok_update validate_setting_value_ok)
qed simp

lemma overrides_ok: "overrides d w = Inr (Some (values, g)) \<Longrightarrow> values_ok values"
  by (auto simp: overrides_def split: if_splits option.splits json.splits sum.splits
      intro: read_overrides_ok [of "[]"])

lemma parse_environment_value_ok:
  assumes "parse_environment_value env sd = Inr v" "sd \<in> set setting_definitions"
  shows "setting_ok sd v"
proof -
  have "setting_ok sd (sd_default sd)" using registry_checked assms(2) by (auto simp: list_all_iff)
  then show ?thesis
    using assms validate_setting_value_ok [OF _ find_definition_member [OF assms(2)]]
    by (auto simp: parse_environment_value_def Let_def setting_ok_def
        split: option.splits setting_kind.splits if_splits)
qed

text \<open>C35: A setting resolves to the stored override, else to the environment's value, else to its
  default, and whatever it resolves to has the registered kind and lies within the registered
  bounds.\<close>

theorem resolve_system_setting_is_valid:
  assumes "resolve_system_setting env d w k = Inr v"
  shows "\<exists>sd \<in> set setting_definitions. canonical_setting_key k = Inr (sd_key sd) \<and> setting_ok sd v
    \<and> (case overrides d w of
         Inr (Some (values, _)) \<Rightarrow>
           (case map_of values (sd_key sd) of
              Some x \<Rightarrow> v = x
            | None \<Rightarrow> parse_environment_value env sd = Inr v)
       | Inr None \<Rightarrow> parse_environment_value env sd = Inr v
       | Inl _ \<Rightarrow> False)"
proof -
  obtain key where key: "canonical_setting_key k = Inr key"
    using assms by (auto simp: resolve_system_setting_def split: sum.splits)
  then obtain sd where sd: "find_definition key = Some sd" using canonical_InrD by blast
  note mem = find_definition_SomeD [OF sd]
  obtain state where st: "overrides d w = Inr state"
    using assms key by (auto simp: resolve_system_setting_def split: sum.splits)
  show ?thesis
  proof (cases state)
    case None
    then have "parse_environment_value env sd = Inr v"
      using assms key sd st by (simp add: resolve_system_setting_def)
    then show ?thesis using None mem key st parse_environment_value_ok by (intro bexI [of _ sd]) auto
  next
    case (Some vg)
    obtain vs g where vg: "vg = (vs, g)" by fastforce
    have ok: "values_ok vs" using overrides_ok st Some vg by blast
    show ?thesis
    proof (cases "map_of vs key")
      case None
      then have "parse_environment_value env sd = Inr v"
        using assms key sd st Some vg by (simp add: resolve_system_setting_def)
      then show ?thesis
        using None Some vg mem key st parse_environment_value_ok by (intro bexI [of _ sd]) auto
    next
      case x: (Some x)
      then have "v = x" using assms key sd st Some vg by (simp add: resolve_system_setting_def)
      moreover have "setting_ok sd x" using ok x sd unfolding values_ok_def by fastforce
      ultimately show ?thesis using x Some vg mem key st by (intro bexI [of _ sd]) auto
    qed
  qed
qed

subsection \<open>Previews tell the truth\<close>

lemma normalize_entries_keys:
  "normalize_entries kvs acc = Inr changes \<Longrightarrow>
   (\<And>k v. (k, v) \<in> set acc \<Longrightarrow> \<exists>sd. find_definition k = Some sd \<and> (\<forall>x. v = Some x \<longrightarrow> setting_ok sd x)) \<Longrightarrow>
   distinct (map fst acc) \<Longrightarrow>
   distinct (map fst changes) \<and>
   (\<forall>(k, v) \<in> set changes. \<exists>sd. find_definition k = Some sd \<and> (\<forall>x. v = Some x \<longrightarrow> setting_ok sd x))"
proof (induction kvs acc rule: normalize_entries.induct)
  case (1 d)
  then show ?case by auto
next
  case (2 raw_key val kvs d)
  from "2.prems"(1) obtain key where key: "canonical_setting_key raw_key = Inr key" "key \<notin> fst ` set d"
    by (auto split: sum.splits if_splits)
  from canonical_InrD [OF key(1)] obtain sd where sd: "find_definition key = Some sd" ..
  show ?case
  proof (cases "val = JNull")
    case True
    show ?thesis
      by (rule "2.IH"(1) [OF key(1) key(2) True]) (use "2.prems" key True sd in \<open>auto split: sum.splits\<close>)
  next
    case False
    obtain v where v: "validate_setting_value key val = Inr v"
      using "2.prems"(1) key False by (auto split: sum.splits)
    note ok = validate_setting_value_ok [OF v sd]
    show ?thesis
      by (rule "2.IH"(2) [OF key(1) key(2) False v]) (use "2.prems" key False sd v ok in \<open>auto split: sum.splits\<close>)
  qed
qed

lemma apply_changes_ok:
  "values_ok current \<Longrightarrow>
   (\<forall>(k, v) \<in> set changes. \<exists>sd. find_definition k = Some sd \<and> (\<forall>x. v = Some x \<longrightarrow> setting_ok sd x)) \<Longrightarrow>
   values_ok (apply_changes changes current)"
  by (induction changes current rule: apply_changes.induct)
     (auto intro: values_ok_update values_ok_delete)

lemma apply_changes_lookup:
  "distinct (map fst changes) \<Longrightarrow>
   map_of (apply_changes changes current) k =
     (case map_of changes k of None \<Rightarrow> map_of current k | Some v \<Rightarrow> v)"
proof (induction changes current rule: apply_changes.induct)
  case (2 key kvs current)
  then have "map_of kvs key = None" by (simp add: map_of_eq_None_iff)
  with 2 show ?case by (auto simp: delete_conv split: option.split)
next
  case (3 key v kvs current)
  then have "map_of kvs key = None" by (simp add: map_of_eq_None_iff)
  with 3 show ?case by (auto simp: update_conv split: option.split)
qed simp

lemma effective_values_lookup:
  "effective_values env sds vals = Inr eff \<Longrightarrow> distinct (map sd_key sds) \<Longrightarrow> sd \<in> set sds \<Longrightarrow>
   \<exists>fallback. parse_environment_value env sd = Inr fallback
     \<and> map_of eff (sd_key sd) = Some (case map_of vals (sd_key sd) of None \<Rightarrow> fallback | Some v \<Rightarrow> v)"
proof (induction env sds vals arbitrary: eff rule: effective_values.induct)
  case (2 env sd' sds vals)
  obtain fb rest where fb: "parse_environment_value env sd' = Inr fb"
    "effective_values env sds vals = Inr rest"
    "eff = (sd_key sd', case map_of vals (sd_key sd') of None \<Rightarrow> fb | Some v \<Rightarrow> v) # rest"
    using 2(2) by (auto split: sum.splits)
  show ?case
  proof (cases "sd = sd'")
    case True
    with fb show ?thesis by simp
  next
    case False
    then have "sd \<in> set sds" "sd_key sd \<noteq> sd_key sd'" using 2(3,4) by (auto simp: rev_image_eqI)
    with 2(1) [OF fb(1) fb(2)] 2(3) fb(3) show ?thesis by simp
  qed
qed simp

text \<open>What a setting resolves to once the previewed overrides are stored.\<close>

lemma effective_is_resolved:
  assumes "effective_values env setting_definitions next = Inr eff"
    and "overrides d' w = Inr (Some (stored, g))" "map_of stored = map_of next"
    and "find_definition k = Some sd"
  shows "resolve_system_setting env d' w k = Inr (value_of eff k)"
proof -
  note sd = find_definition_SomeD [OF assms(4)]
  obtain fb where "parse_environment_value env sd = Inr fb"
    "map_of eff k = Some (case map_of next k of None \<Rightarrow> fb | Some v \<Rightarrow> v)"
    using effective_values_lookup [OF assms(1) registry_distinct] sd by blast
  then show ?thesis
    using assms(2-4) canonical_known [OF assms(4)]
    by (simp add: resolve_system_setting_def value_of_def split: option.splits)
qed

lemma preview_InrD:
  assumes "preview env d w expected changes = Inr pv"
  shows "\<exists>current normalized effective rows.
      settings_state d w = Inr (current, expected) \<and> normalize_changes changes = Inr normalized
      \<and> effective_values env setting_definitions (apply_changes normalized current) = Inr effective
      \<and> ttl_ordered effective \<and> preview_rows env d w effective normalized = Inr rows
      \<and> pv_base_generation pv = expected \<and> pv_changes pv = normalized
      \<and> pv_next_overrides pv = apply_changes normalized current \<and> pv_preview_changes pv = rows"
  using assms
  by (auto simp: preview_def Let_def validate_setting_dependencies_def
      split: sum.splits prod.splits if_splits)

lemma settings_state_overrides:
  "settings_state d w = Inr (current, g) \<longleftrightarrow>
     system_settings_migrated d \<and> overrides d w = Inr (Some (current, g))"
  by (auto simp: settings_state_def split: sum.splits option.splits)

lemma normalize_changes_ok:
  assumes "normalize_changes changes = Inr normalized"
  shows "distinct (map fst normalized)"
    and "\<And>k v. (k, v) \<in> set normalized \<Longrightarrow>
      \<exists>sd. find_definition k = Some sd \<and> (\<forall>x. v = Some x \<longrightarrow> setting_ok sd x)"
  using normalize_entries_keys [of changes "[]" normalized] assms
  by (auto simp: normalize_changes_def split: if_splits)

lemma preview_rows_before:
  "preview_rows env d w effective normalized = Inr rows \<Longrightarrow> row \<in> set rows \<Longrightarrow>
   resolve_system_setting env d w (cp_key row) = Inr (cp_before row)
   \<and> cp_after row = value_of effective (cp_key row) \<and> cp_key row \<in> fst ` set normalized"
proof (induction env d w effective normalized arbitrary: rows rule: preview_rows.induct)
  case (2 env d w effective key v kvs)
  obtain old rest where r: "resolve_system_setting env d w key = Inr old"
    "preview_rows env d w effective kvs = Inr rest"
    using "2.prems"(1) by (auto split: sum.splits)
  then have rows: "tl rows = rest" "rows \<noteq> []" "cp_key (hd rows) = key" "cp_before (hd rows) = old"
    "cp_after (hd rows) = value_of effective key"
    using "2.prems"(1) by (auto simp: Let_def)
  then have "row = hd rows \<or> row \<in> set rest"
    using "2.prems"(2) by (cases rows) auto
  then show ?case using rows r "2.IH" [OF r] by auto
qed simp

text \<open>What an accepted preview promises of any database that holds its overrides.\<close>

lemma preview_truth:
  assumes "preview env d w expected changes = Inr pv"
    and "overrides d' w = Inr (Some (stored, g))" "map_of stored = map_of (pv_next_overrides pv)"
  shows "values_ok (pv_next_overrides pv)
    \<and> (\<forall>row \<in> set (pv_preview_changes pv).
         resolve_system_setting env d w (cp_key row) = Inr (cp_before row)
         \<and> resolve_system_setting env d' w (cp_key row) = Inr (cp_after row))
    \<and> (\<exists>lo mid hi.
         resolve_system_setting env d' w ''acquisition.min_ttl_minutes'' = Inr lo
         \<and> resolve_system_setting env d' w ''acquisition.fallback_ttl_minutes'' = Inr mid
         \<and> resolve_system_setting env d' w ''acquisition.max_ttl_minutes'' = Inr hi
         \<and> setting_int lo \<le> setting_int mid \<and> setting_int mid \<le> setting_int hi)"
proof -
  obtain current normalized effective rows where p:
    "settings_state d w = Inr (current, expected)" "normalize_changes changes = Inr normalized"
    "effective_values env setting_definitions (apply_changes normalized current) = Inr effective"
    "ttl_ordered effective" "preview_rows env d w effective normalized = Inr rows"
    "pv_next_overrides pv = apply_changes normalized current" "pv_preview_changes pv = rows"
    using preview_InrD [OF assms(1)] by blast
  have stored: "map_of stored = map_of (apply_changes normalized current)" using assms(3) p(6) by simp
  have resolved: "resolve_system_setting env d' w k = Inr (value_of effective k)"
    if "find_definition k \<noteq> None" for k
    using effective_is_resolved [OF p(3) assms(2) stored] that by blast
  have "values_ok current" using p(1) unfolding settings_state_overrides by (blast intro: overrides_ok)
  then have "values_ok (pv_next_overrides pv)"
    unfolding p(6) using normalize_changes_ok(2) [OF p(2)] by (intro apply_changes_ok) auto
  moreover have "resolve_system_setting env d w (cp_key row) = Inr (cp_before row)
      \<and> resolve_system_setting env d' w (cp_key row) = Inr (cp_after row)"
    if "row \<in> set (pv_preview_changes pv)" for row
  proof -
    note row = preview_rows_before [OF p(5) that [unfolded p(7)]]
    then have "find_definition (cp_key row) \<noteq> None" using normalize_changes_ok(2) [OF p(2)] by fastforce
    from resolved [OF this] row show ?thesis by simp
  qed
  moreover have "find_definition ''acquisition.min_ttl_minutes'' \<noteq> None"
    "find_definition ''acquisition.fallback_ttl_minutes'' \<noteq> None"
    "find_definition ''acquisition.max_ttl_minutes'' \<noteq> None" by code_simp+
  note ttl = resolved [OF this(1)] resolved [OF this(2)] resolved [OF this(3)]
  ultimately show ?thesis using ttl p(4) by (auto simp: ttl_ordered_def)
qed

end
