(* ===== verification/SettingProposals.thy ===== *)
theory SettingProposals
  imports SystemSettings Samples
begin

section \<open>Confirmed changes of the system settings\<close>

text \<open>
  \<open>src/src/services/system_settings_proposals.py\<close>: a change is prepared (previewed, stored with
  the hash of a confirmation phrase), then applied once by the same actor who repeats the phrase,
  on the generation of the settings it was prepared for.  The scopes of a delegation are those of
  \<open>src/src/storage/agent_delegation_scopes.py\<close>.  SHA-256 is the parameter \<open>sha\<close>; nothing is
  assumed of it.
\<close>

subsection \<open>Delegation scopes\<close>

definition AGENT_DELEGATION_READ_SCOPE :: string where
  "AGENT_DELEGATION_READ_SCOPE = ''inteliscope:read''"

definition AGENT_DELEGATION_WRITE_SCOPE :: string where
  "AGENT_DELEGATION_WRITE_SCOPE = ''inteliscope:subscriptions:write''"

definition AGENT_DELEGATION_DIAGNOSTICS_READ_SCOPE :: string where
  "AGENT_DELEGATION_DIAGNOSTICS_READ_SCOPE = ''inteliscope:diagnostics:read''"

definition SYSTEM_SETTINGS_WRITE_SCOPE :: string where
  "SYSTEM_SETTINGS_WRITE_SCOPE = ''inteliscope:system-settings:write''"

definition INFORMATION_READ_SCOPE :: string where
  "INFORMATION_READ_SCOPE = ''inteliscope:information-automations:read''"

definition INFORMATION_DRAFT_SCOPE :: string where
  "INFORMATION_DRAFT_SCOPE = ''inteliscope:information-automations:draft''"

definition SCOPE_ORDER :: "string list" where
  "SCOPE_ORDER =
     [AGENT_DELEGATION_READ_SCOPE, AGENT_DELEGATION_WRITE_SCOPE,
      AGENT_DELEGATION_DIAGNOSTICS_READ_SCOPE, SYSTEM_SETTINGS_WRITE_SCOPE,
      INFORMATION_READ_SCOPE, INFORMATION_DRAFT_SCOPE]"

definition effective_scopes :: "string list \<Rightarrow> string \<Rightarrow> string list" where
  "effective_scopes scopes role =
     (if scopes = [] \<or> INFORMATION_READ_SCOPE \<in> set scopes \<or> INFORMATION_DRAFT_SCOPE \<in> set scopes
      then scopes
      else [AGENT_DELEGATION_READ_SCOPE]
        @ (if role \<in> {''owner'', ''admin'', ''member''} then [AGENT_DELEGATION_WRITE_SCOPE] else [])
        @ (if role \<in> {''owner'', ''admin''}
           then [AGENT_DELEGATION_DIAGNOSTICS_READ_SCOPE, SYSTEM_SETTINGS_WRITE_SCOPE] else []))"

fun json_strings :: "json list \<Rightarrow> string list option" where
  "json_strings [] = Some []"
| "json_strings (JStr s # vs) = map_option ((#) s) (json_strings vs)"
| "json_strings _ = None"

text \<open>The argument is what the bounded decoder makes of \<open>scopes_json\<close>.\<close>

definition safe_agent_delegation_scopes :: "json \<Rightarrow> string list" where
  "safe_agent_delegation_scopes raw =
     (case raw of
        JArr vs \<Rightarrow>
          (case json_strings vs of
             None \<Rightarrow> []
           | Some scopes \<Rightarrow>
              if \<not> distinct scopes \<or> AGENT_DELEGATION_READ_SCOPE \<notin> set scopes
                 \<or> \<not> set scopes \<subseteq> set SCOPE_ORDER
              then [] else filter (\<lambda>s. s \<in> set scopes) SCOPE_ORDER)
      | _ \<Rightarrow> [])"

subsection \<open>Actors\<close>

record settings_actor =
  sa_workspace_id :: string
  sa_user_id :: string
  sa_channel :: string
  sa_delegation_id :: "string option"

definition require_live_actor :: "db \<Rightarrow> time \<Rightarrow> settings_actor \<Rightarrow> exn + unit" where
  "require_live_actor d now actor =
     (case lookup_row u_id (sa_user_id actor) (users d) of
        None \<Rightarrow> Inl (SystemSettingProposalError ''system_settings_admin_required'')
      | Some user \<Rightarrow>
         if u_workspace_id user \<noteq> sa_workspace_id actor \<or> \<not> u_enabled user
            \<or> u_role user \<notin> {''owner'', ''admin''}
         then Inl (SystemSettingProposalError ''system_settings_admin_required'')
         else if sa_channel actor \<noteq> ''mcp'' then Inr ()
         else
        (case (case sa_delegation_id actor of
                 None \<Rightarrow> None | Some i \<Rightarrow> lookup_row ad_id i (agent_delegations d)) of
           None \<Rightarrow> Inl (SystemSettingProposalError ''system_settings_delegation_invalid'')
         | Some delegation \<Rightarrow>
            if ad_workspace_id delegation \<noteq> sa_workspace_id actor
               \<or> ad_user_id delegation \<noteq> sa_user_id actor
               \<or> ad_revoked_at delegation \<noteq> None \<or> ad_expires_at delegation \<le> now
            then Inl (SystemSettingProposalError ''system_settings_delegation_invalid'')
            else if SYSTEM_SETTINGS_WRITE_SCOPE
                \<notin> set (effective_scopes (safe_agent_delegation_scopes (ad_scopes delegation))
                         (u_role user))
            then Inl (SystemSettingProposalError ''system_settings_scope_required'')
            else Inr ()))"

subsection \<open>Preparation\<close>

definition PROPOSAL_TTL_MINUTES :: int where
  "PROPOSAL_TTL_MINUTES = 10"

definition MAX_PENDING_PROPOSALS :: nat where
  "MAX_PENDING_PROPOSALS = 10"

text \<open>\<open>proposal_id[-8:]\<close> after four Chinese characters (here as UTF-8 bytes) and a space.\<close>

definition confirmation_phrase :: "string \<Rightarrow> string" where
  "confirmation_phrase pid =
     [CHR 0xE7, CHR 0xA1, CHR 0xAE, CHR 0xE8, CHR 0xAE, CHR 0xA4, CHR 0xE6, CHR 0x89, CHR 0xA7,
      CHR 0xE8, CHR 0xA1, CHR 0x8C, CHR '' ''] @ drop (length pid - 8) pid"

definition of_actor :: "settings_actor \<Rightarrow> setting_proposal \<Rightarrow> bool" where
  "of_actor actor p \<longleftrightarrow>
     sp_workspace_id p = sa_workspace_id actor \<and> sp_actor_user_id p = sa_user_id actor
     \<and> sp_actor_channel p = sa_channel actor"

definition update_proposals ::
  "(setting_proposal \<Rightarrow> bool) \<Rightarrow> (setting_proposal \<Rightarrow> setting_proposal) \<Rightarrow> db \<Rightarrow> db" where
  "update_proposals P f d =
     d\<lparr>system_setting_change_proposals := update_where P f (system_setting_change_proposals d)\<rparr>"

definition expired_proposal :: "time \<Rightarrow> setting_proposal \<Rightarrow> setting_proposal" where
  "expired_proposal now p = p\<lparr>sp_status := Expired, sp_updated_at := now\<rparr>"

definition stale_proposal :: "settings_actor \<Rightarrow> time \<Rightarrow> setting_proposal \<Rightarrow> bool" where
  "stale_proposal actor now p \<longleftrightarrow>
     of_actor actor p \<and> sp_status p = Pending \<and> sp_expires_at p \<le> now"

fun value_json :: "setting_value \<Rightarrow> json" where
  "value_json (SBool b) = JBool b"
| "value_json (SInt n) = JInt n"

text \<open>\<open>json.dumps(..., sort_keys=True)\<close>\<close>

definition changes_json :: "(string \<times> setting_value option) list \<Rightarrow> dict" where
  "changes_json changes =
     sort_key fst (map (\<lambda>(k, v). (k, case v of None \<Rightarrow> JNull | Some x \<Rightarrow> value_json x)) changes)"

definition overrides_json :: "(string \<times> setting_value) list \<Rightarrow> dict" where
  "overrides_json values = sort_key fst (map (\<lambda>(k, v). (k, value_json v)) values)"

definition proposal_insert_ok :: "setting_proposal \<Rightarrow> db \<Rightarrow> bool" where
  "proposal_insert_ok p d \<longleftrightarrow>
     sp_id p \<notin> sp_id ` set (system_setting_change_proposals d)
     \<and> sp_workspace_id p \<in> set (workspaces d) \<and> sp_actor_user_id p \<in> u_id ` set (users d)
     \<and> (case sp_delegation_id p of None \<Rightarrow> True | Some i \<Rightarrow> i \<in> ad_id ` set (agent_delegations d))
     \<and> sp_actor_channel p \<in> {''web'', ''mcp''} \<and> 1 \<le> sp_base_generation p"

record prepared_change =
  pc_proposal_id :: string
  pc_base_generation :: int
  pc_changes :: "change_preview list"
  pc_warnings :: "string list"
  pc_confirmation :: string
  pc_expires_at :: time

definition new_proposal ::
  "(string \<Rightarrow> string) \<Rightarrow> settings_actor \<Rightarrow> settings_preview \<Rightarrow> string \<Rightarrow> time \<Rightarrow> setting_proposal" where
  "new_proposal sha actor pv pid now =
     \<lparr>sp_id = pid, sp_workspace_id = sa_workspace_id actor, sp_actor_user_id = sa_user_id actor,
      sp_delegation_id = sa_delegation_id actor, sp_actor_channel = sa_channel actor,
      sp_base_generation = pv_base_generation pv, sp_changes = changes_json (pv_changes pv),
      sp_confirmation_hash = sha (confirmation_phrase pid), sp_status = Pending,
      sp_created_at = now, sp_expires_at = now + minutes PROPOSAL_TTL_MINUTES,
      sp_applied_at = None, sp_updated_at = now\<rparr>"

definition prepare_body ::
  "(string \<Rightarrow> string) \<Rightarrow> settings_actor \<Rightarrow> settings_preview \<Rightarrow> time \<Rightarrow> time \<Rightarrow> string
   \<Rightarrow> db \<Rightarrow> exn + db" where
  "prepare_body sha actor pv now wall pid d =
     (case require_live_actor d wall actor of
        Inl e \<Rightarrow> Inl e
      | Inr _ \<Rightarrow>
         (let d1 = update_proposals (stale_proposal actor now) (expired_proposal now) d;
              pending = row_count (\<lambda>p. of_actor actor p \<and> sp_status p = Pending)
                          (system_setting_change_proposals d1);
              p = new_proposal sha actor pv pid now
          in if MAX_PENDING_PROPOSALS \<le> pending
             then Inl (SystemSettingProposalError ''system_settings_too_many_pending'')
             else if \<not> proposal_insert_ok p d1 then Inl IntegrityError
             else Inr (d1\<lparr>system_setting_change_proposals :=
                           system_setting_change_proposals d1 @ [p]\<rparr>)))"

text \<open>A transaction the caller has open is rolled back before the proposal's own one begins.\<close>

definition prepare ::
  "(string \<Rightarrow> string option) \<Rightarrow> (string \<Rightarrow> string) \<Rightarrow> settings_actor \<Rightarrow> int \<Rightarrow> dict \<Rightarrow> time option
   \<Rightarrow> conn \<Rightarrow> (conn, prepared_change) outcome" where
  "prepare env sha actor expected changes at c =
     (let now = (case at of None \<Rightarrow> clock c | Some t \<Rightarrow> t)
      in case preview env (work c) (sa_workspace_id actor) expected changes of
           Inl e \<Rightarrow> Raise e c
         | Inr pv \<Rightarrow>
            (let (hex, c1) = new_uuid (rollback_if_open c);
                 pid = ''ssp_'' @ hex;
                 c2 = c1\<lparr>in_tx := True\<rparr>
             in case prepare_body sha actor pv now (clock c) pid (work c2) of
                  Inl e \<Rightarrow> Raise e (rollback c2)
                | Inr d \<Rightarrow>
                   Return \<lparr>pc_proposal_id = pid, pc_base_generation = pv_base_generation pv,
                           pc_changes = pv_preview_changes pv, pc_warnings = pv_warnings pv,
                           pc_confirmation = confirmation_phrase pid,
                           pc_expires_at = now + minutes PROPOSAL_TTL_MINUTES\<rparr>
                     (commit (dml (\<lambda>_. d) c2))))"

subsection \<open>Application\<close>

definition or_none :: "string option \<Rightarrow> string option" where
  "or_none s = (case s of None \<Rightarrow> None | Some t \<Rightarrow> if truthy t then Some t else None)"

definition store_settings ::
  "settings_actor \<Rightarrow> (string \<times> setting_value) list \<Rightarrow> int \<Rightarrow> time \<Rightarrow> settings_row \<Rightarrow> settings_row" where
  "store_settings actor values generation now row =
     row\<lparr>ws_overrides := Some (JObj (overrides_json values)), ws_generation := generation,
         ws_updated_by := Some (sa_user_id actor), ws_updated_at := now\<rparr>"

record applied_change =
  ac_proposal_id :: string
  ac_generation :: int
  ac_changed_keys :: "string list"

definition applied_proposal :: "time \<Rightarrow> setting_proposal \<Rightarrow> setting_proposal" where
  "applied_proposal now p =
     p\<lparr>sp_status := Applied, sp_applied_at := Some now, sp_updated_at := now\<rparr>"

text \<open>The statements of a confirmed proposal, after every check on the proposal itself.\<close>

definition apply_body ::
  "(string \<Rightarrow> string option) \<Rightarrow> settings_actor \<Rightarrow> setting_proposal \<Rightarrow> time \<Rightarrow> time \<Rightarrow> db
   \<Rightarrow> exn + (applied_change \<times> db)" where
  "apply_body env actor row now wall d =
     (let w = sa_workspace_id actor in
      case require_live_actor d wall actor of
        Inl e \<Rightarrow> Inl e
      | Inr _ \<Rightarrow>
         (case settings_state d w of
            Inl e \<Rightarrow> Inl e
          | Inr (_, generation) \<Rightarrow>
             if generation \<noteq> sp_base_generation row
             then Inl (SystemSettingsGenerationConflict ''system settings generation changed'')
             else
            (case preview env d w generation (sp_changes row) of
               Inl e \<Rightarrow> Inl e
             | Inr pv \<Rightarrow>
                (let P = (\<lambda>s. ws_workspace_id s = w \<and> ws_generation s = generation);
                     d1 = d\<lparr>workspace_system_settings :=
                              update_where P (store_settings actor (pv_next_overrides pv)
                                (generation + 1) now) (workspace_system_settings d)\<rparr>
                 in if row_count P (workspace_system_settings d) \<noteq> 1
                    then Inl (SystemSettingsGenerationConflict ''system settings generation changed'')
                    else Inr (\<lparr>ac_proposal_id = sp_id row, ac_generation = generation + 1,
                               ac_changed_keys = sort (map fst (sp_changes row))\<rparr>,
                              update_proposals (\<lambda>p. sp_id p = sp_id row \<and> sp_status p = Pending)
                                (applied_proposal now) d1)))))"

definition apply_proposal ::
  "(string \<Rightarrow> string option) \<Rightarrow> (string \<Rightarrow> string) \<Rightarrow> settings_actor \<Rightarrow> string \<Rightarrow> string \<Rightarrow> time option
   \<Rightarrow> conn \<Rightarrow> (conn, applied_change) outcome" where
  "apply_proposal env sha actor pid confirmation at c =
     (let now = (case at of None \<Rightarrow> clock c | Some t \<Rightarrow> t);
          c1 = (rollback_if_open c)\<lparr>in_tx := True\<rparr>
      in case lookup_row sp_id pid (system_setting_change_proposals (work c1)) of
           None \<Rightarrow> Raise (SystemSettingProposalError ''system_settings_proposal_not_found'') (rollback c1)
         | Some row \<Rightarrow>
            if \<not> of_actor actor row \<or> or_none (sp_delegation_id row) \<noteq> sa_delegation_id actor
            then Raise (SystemSettingProposalError ''system_settings_proposal_not_found'') (rollback c1)
            else if sp_status row \<noteq> Pending
            then Raise (SystemSettingProposalError ''system_settings_proposal_not_pending'') (rollback c1)
            else if sp_expires_at row \<le> now
            then Raise (SystemSettingProposalError ''system_settings_proposal_expired'')
                   (commit (dml (update_proposals (\<lambda>p. sp_id p = pid) (expired_proposal now)) c1))
            else if sp_confirmation_hash row \<noteq> sha confirmation
            then Raise (SystemSettingProposalError ''system_settings_confirmation_mismatch'')
                   (rollback c1)
            else
           (case apply_body env actor row now (clock c) (work c1) of
              Inl e \<Rightarrow> Raise e (rollback c1)
            | Inr (result, d) \<Rightarrow> Return result (commit (dml (\<lambda>_. d) c1))))"

subsection \<open>What is stored is read back\<close>

lemma validate_value_json:
  "find_definition k = Some sd \<Longrightarrow> setting_ok sd v \<Longrightarrow> validate_setting_value k (value_json v) = Inr v"
  by (cases v) (auto simp: validate_setting_value_def canonical_known check_value_def setting_ok_def)

lemma read_overrides_back:
  "\<forall>(k, v) \<in> set kvs. \<exists>sd. find_definition k = Some sd \<and> setting_ok sd v \<Longrightarrow> distinct (map fst kvs) \<Longrightarrow>
   \<exists>r. read_overrides (map (\<lambda>(k, v). (k, value_json v)) kvs) acc = Inr r
     \<and> (\<forall>k. map_of r k = (case map_of kvs k of None \<Rightarrow> map_of acc k | Some v \<Rightarrow> Some v))"
proof (induction kvs arbitrary: acc)
  case (Cons kv kvs)
  obtain k v where kv: "kv = (k, v)" by fastforce
  then obtain sd where sd: "find_definition k = Some sd" "setting_ok sd v" using Cons.prems by auto
  have "map_of kvs k = None" using Cons.prems(2) kv by (simp add: map_of_eq_None_iff)
  moreover obtain r where "read_overrides (map (\<lambda>(k, v). (k, value_json v)) kvs) (AList.update k v acc) = Inr r"
    "\<forall>k'. map_of r k' = (case map_of kvs k' of None \<Rightarrow> map_of (AList.update k v acc) k' | Some v \<Rightarrow> Some v)"
    using Cons.IH [of "AList.update k v acc"] Cons.prems by auto
  ultimately show ?case
    using sd kv by (auto simp: canonical_known validate_value_json update_conv split: option.splits)
qed simp

lemma overrides_json_alt:
  "overrides_json values = map (\<lambda>(k, v). (k, value_json v)) (sort_key fst values)"
proof -
  have "sort_key fst (map f xs) = map f (sort_key (fst \<circ> f) xs)" for f :: "string \<times> setting_value \<Rightarrow> string \<times> json" and xs
  proof (induction xs)
    case (Cons x xs)
    have "insort_key fst (f x) (map f ys) = map f (insort_key (fst \<circ> f) x ys)" for ys
      by (induction ys) auto
    with Cons show ?case by (simp add: comp_def)
  qed simp
  moreover have "fst \<circ> (\<lambda>(k, v). (k, value_json v)) = (fst :: string \<times> setting_value \<Rightarrow> string)" by auto
  ultimately show ?thesis by (simp add: overrides_json_def)
qed

lemma stored_overrides_read_back:
  assumes "values_ok vs" "distinct (map fst vs)"
  shows "\<exists>stored. read_overrides (overrides_json vs) [] = Inr stored \<and> map_of stored = map_of vs"
proof -
  let ?s = "sort_key fst vs"
  have d: "distinct (map fst ?s)" using assms(2) by (simp add: distinct_map)
  have m: "map_of ?s = map_of vs" using map_of_inject_set [OF d assms(2)] by simp
  have "\<forall>(k, v) \<in> set ?s. \<exists>sd. find_definition k = Some sd \<and> setting_ok sd v"
    using assms by (auto simp: values_ok_def)
  from read_overrides_back [OF this d, of "[]"] obtain r where
    r: "read_overrides (overrides_json vs) [] = Inr r"
    "\<And>k. map_of r k = (case map_of vs k of None \<Rightarrow> map_of [] k | Some v \<Rightarrow> Some v)"
    unfolding overrides_json_alt m by blast
  have "map_of r = map_of vs" by (rule ext) (simp add: r(2) split: option.split)
  with r(1) show ?thesis by blast
qed

lemma read_overrides_distinct:
  "read_overrides kvs acc = Inr r \<Longrightarrow> distinct (map fst acc) \<Longrightarrow> distinct (map fst r)"
  by (induction kvs acc rule: read_overrides.induct) (auto split: sum.splits simp: distinct_update)

lemma apply_changes_distinct:
  "distinct (map fst current) \<Longrightarrow> distinct (map fst (apply_changes changes current))"
  by (induction changes current rule: apply_changes.induct) (auto simp: distinct_update distinct_delete)

lemma overrides_distinct: "overrides d w = Inr (Some (vs, g)) \<Longrightarrow> distinct (map fst vs)"
  by (auto simp: overrides_def split: if_splits option.splits json.splits sum.splits
      dest: read_overrides_distinct)

subsection \<open>Application takes effect\<close>

lemma committed_view: "conn_ok c \<Longrightarrow> work (rollback_if_open c) = durable c"
  by (rule work_rollback_if_open)

lemma apply_proposal_InrD:
  assumes "conn_ok c" "apply_proposal env sha actor pid conf at c = (Inr r, c')"
  shows "\<exists>row d. lookup_row sp_id pid (system_setting_change_proposals (durable c)) = Some row
    \<and> of_actor actor row \<and> or_none (sp_delegation_id row) = sa_delegation_id actor
    \<and> sp_status row = Pending \<and> (case at of None \<Rightarrow> clock c | Some t \<Rightarrow> t) < sp_expires_at row
    \<and> sp_confirmation_hash row = sha conf
    \<and> apply_body env actor row (case at of None \<Rightarrow> clock c | Some t \<Rightarrow> t) (clock c) (durable c) = Inr (r, d)
    \<and> durable c' = d \<and> work c' = d \<and> \<not> in_tx c'"
proof -
  have w: "work (rollback_if_open c) = durable c" by (rule committed_view [OF assms(1)])
  show ?thesis
    using assms(2) w unfolding apply_proposal_def Let_def
    by (auto split: option.splits if_splits sum.splits prod.splits simp: not_le)
qed

lemma apply_body_InrD:
  assumes "apply_body env actor row now wall d = Inr (r, d')"
  shows "\<exists>current generation pv.
      require_live_actor d wall actor = Inr ()
      \<and> settings_state d (sa_workspace_id actor) = Inr (current, generation)
      \<and> sp_base_generation row = generation
      \<and> preview env d (sa_workspace_id actor) generation (sp_changes row) = Inr pv
      \<and> ac_generation r = generation + 1
      \<and> workspace_system_settings d' =
          update_where (\<lambda>s. ws_workspace_id s = sa_workspace_id actor \<and> ws_generation s = generation)
            (store_settings actor (pv_next_overrides pv) (generation + 1) now)
            (workspace_system_settings d)
      \<and> system_setting_change_proposals d' =
          update_where (\<lambda>p. sp_id p = sp_id row \<and> sp_status p = Pending) (applied_proposal now)
            (system_setting_change_proposals d)
      \<and> system_settings_migrated d' = system_settings_migrated d"
  using assms
  by (auto simp: apply_body_def Let_def update_proposals_def split: sum.splits prod.splits if_splits)

lemma overrides_after_store:
  assumes "settings_state d w = Inr (current, g)" "values_ok vs" "distinct (map fst vs)"
    and "workspace_system_settings d' =
      update_where (\<lambda>s. ws_workspace_id s = w \<and> ws_generation s = g) (store_settings actor vs (g + 1) now)
        (workspace_system_settings d)"
    and "system_settings_migrated d' = system_settings_migrated d"
  shows "\<exists>stored. overrides d' w = Inr (Some (stored, g + 1)) \<and> map_of stored = map_of vs"
proof -
  obtain row where row: "find_settings w d = Some row" "ws_generation row = g" "system_settings_migrated d"
    using assms(1) unfolding settings_state_overrides
    by (auto simp: overrides_def split: option.splits json.splits sum.splits if_splits)
  have "find_settings w d' = map_option (\<lambda>s. if ws_workspace_id s = w \<and> ws_generation s = g
      then store_settings actor vs (g + 1) now s else s) (find_settings w d)"
    unfolding find_settings_def assms(4) by (rule lookup_row_update_where) (simp add: store_settings_def)
  moreover have "ws_workspace_id row = w"
    using row(1) lookup_row_SomeD unfolding find_settings_def by fastforce
  ultimately have "find_settings w d' = Some (store_settings actor vs (g + 1) now row)"
    using row by simp
  then show ?thesis
    using stored_overrides_read_back [OF assms(2,3)] row(3) assms(5)
    by (auto simp: overrides_def store_settings_def)
qed

text \<open>A confirmed change is applied only for a pending, unexpired proposal of the same actor,
  who repeats the confirmation phrase and is a live owner or admin, and it then takes effect:
  the generation grows by one, every changed setting resolves to the value its preview showed,
  and the cache lifetimes stay ordered.\<close>

theorem applied_change_takes_effect:
  assumes "conn_ok c" "apply_proposal env sha actor pid conf at c = (Inr r, c')"
  shows "\<exists>row pv stored.
      lookup_row sp_id pid (system_setting_change_proposals (durable c)) = Some row
      \<and> of_actor actor row \<and> sp_status row = Pending
      \<and> (case at of None \<Rightarrow> clock c | Some t \<Rightarrow> t) < sp_expires_at row
      \<and> sp_confirmation_hash row = sha conf
      \<and> require_live_actor (durable c) (clock c) actor = Inr ()
      \<and> preview env (durable c) (sa_workspace_id actor) (sp_base_generation row) (sp_changes row) = Inr pv
      \<and> overrides (durable c') (sa_workspace_id actor) = Inr (Some (stored, sp_base_generation row + 1))
      \<and> (\<forall>change \<in> set (pv_preview_changes pv).
           resolve_system_setting env (durable c) (sa_workspace_id actor) (cp_key change) = Inr (cp_before change)
           \<and> resolve_system_setting env (durable c') (sa_workspace_id actor) (cp_key change) = Inr (cp_after change))
      \<and> (\<exists>lo mid hi.
           resolve_system_setting env (durable c') (sa_workspace_id actor) ''acquisition.min_ttl_minutes'' = Inr lo
           \<and> resolve_system_setting env (durable c') (sa_workspace_id actor) ''acquisition.fallback_ttl_minutes'' = Inr mid
           \<and> resolve_system_setting env (durable c') (sa_workspace_id actor) ''acquisition.max_ttl_minutes'' = Inr hi
           \<and> setting_int lo \<le> setting_int mid \<and> setting_int mid \<le> setting_int hi)"
proof -
  let ?w = "sa_workspace_id actor"
  obtain row where row:
    "lookup_row sp_id pid (system_setting_change_proposals (durable c)) = Some row"
    "of_actor actor row" "sp_status row = Pending"
    "(case at of None \<Rightarrow> clock c | Some t \<Rightarrow> t) < sp_expires_at row" "sp_confirmation_hash row = sha conf"
    "apply_body env actor row (case at of None \<Rightarrow> clock c | Some t \<Rightarrow> t) (clock c) (durable c) = Inr (r, durable c')"
    using apply_proposal_InrD [OF assms] by blast
  obtain current pv where b: "require_live_actor (durable c) (clock c) actor = Inr ()"
    "settings_state (durable c) ?w = Inr (current, sp_base_generation row)"
    "preview env (durable c) ?w (sp_base_generation row) (sp_changes row) = Inr pv"
    "workspace_system_settings (durable c') =
       update_where (\<lambda>s. ws_workspace_id s = ?w \<and> ws_generation s = sp_base_generation row)
         (store_settings actor (pv_next_overrides pv) (sp_base_generation row + 1)
           (case at of None \<Rightarrow> clock c | Some t \<Rightarrow> t)) (workspace_system_settings (durable c))"
    "system_settings_migrated (durable c') = system_settings_migrated (durable c)"
    using apply_body_InrD [OF row(6)] by blast
  have ok: "values_ok current" "distinct (map fst current)"
    using b(2) overrides_ok overrides_distinct unfolding settings_state_overrides by blast+
  obtain cur' normalized where n: "settings_state (durable c) ?w = Inr (cur', sp_base_generation row)"
    "normalize_changes (sp_changes row) = Inr normalized"
    "pv_next_overrides pv = apply_changes normalized cur'"
    using preview_InrD [OF b(3)] by blast
  have "values_ok (pv_next_overrides pv)" "distinct (map fst (pv_next_overrides pv))"
    using n b(2) ok normalize_changes_ok(2) [OF n(2)]
    by (auto intro: apply_changes_ok apply_changes_distinct)
  from overrides_after_store [OF b(2) this b(4,5)] obtain stored where
    s: "overrides (durable c') ?w = Inr (Some (stored, sp_base_generation row + 1))"
    "map_of stored = map_of (pv_next_overrides pv)" by blast
  show ?thesis
    using row(1-5) b(1,3) s(1) preview_truth [OF b(3) s] by blast
qed


subsection \<open>Runs of proposals\<close>

datatype settings_op =
    Prepare settings_actor int dict "time option"
  | Apply settings_actor string string "time option"
  | Wait nat

fun exec_settings_op ::
  "(string \<Rightarrow> string option) \<Rightarrow> (string \<Rightarrow> string) \<Rightarrow> settings_op \<Rightarrow> conn \<Rightarrow> conn" where
  "exec_settings_op env sha (Prepare actor expected changes at) c =
     snd (prepare env sha actor expected changes at c)"
| "exec_settings_op env sha (Apply actor pid conf at) c = snd (apply_proposal env sha actor pid conf at c)"
| "exec_settings_op env sha (Wait n) c = c\<lparr>clock := clock c + int n\<rparr>"

fun exec_settings_ops ::
  "(string \<Rightarrow> string option) \<Rightarrow> (string \<Rightarrow> string) \<Rightarrow> settings_op list \<Rightarrow> conn \<Rightarrow> conn" where
  "exec_settings_ops env sha [] c = c"
| "exec_settings_ops env sha (x # xs) c = exec_settings_ops env sha xs (exec_settings_op env sha x c)"

text \<open>Generations grow, and a proposal that left the pending state keeps its status.\<close>

definition find_proposal :: "string \<Rightarrow> db \<Rightarrow> setting_proposal option" where
  "find_proposal pid d = lookup_row sp_id pid (system_setting_change_proposals d)"

definition advances :: "db \<Rightarrow> db \<Rightarrow> bool" where
  "advances d d' \<longleftrightarrow>
     (\<forall>pid p. find_proposal pid d = Some p \<longrightarrow>
        (\<exists>p'. find_proposal pid d' = Some p' \<and> sp_base_generation p' = sp_base_generation p
              \<and> sp_workspace_id p' = sp_workspace_id p
              \<and> (sp_status p \<noteq> Pending \<longrightarrow> sp_status p' = sp_status p)))
     \<and> (\<forall>w s. find_settings w d = Some s \<longrightarrow>
        (\<exists>s'. find_settings w d' = Some s' \<and> ws_generation s \<le> ws_generation s'))"

lemma advances_refl [simp]: "advances d d"
  by (auto simp: advances_def)

lemma advances_trans: "advances d1 d2 \<Longrightarrow> advances d2 d3 \<Longrightarrow> advances d1 d3"
  unfolding advances_def by (smt (verit) order_trans)

lemma advances_proposals:
  assumes "\<And>p. P p \<Longrightarrow> sp_id (f p) = sp_id p \<and> sp_base_generation (f p) = sp_base_generation p
      \<and> sp_workspace_id (f p) = sp_workspace_id p"
    and "\<And>p pid. find_proposal pid d = Some p \<Longrightarrow> P p \<Longrightarrow> sp_status p = Pending"
  shows "advances d (update_proposals P f d)"
proof -
  have "find_proposal pid (update_proposals P f d) =
      map_option (\<lambda>p. if P p then f p else p) (find_proposal pid d)" for pid
    unfolding find_proposal_def update_proposals_def
    by (simp, rule lookup_row_update_where) (use assms(1) in blast)
  then show ?thesis
    using assms by (auto simp: advances_def find_settings_def update_proposals_def)
qed

lemma advances_prepare_body:
  assumes "prepare_body sha actor pv now wall pid d = Inr d'"
  shows "advances d d'"
proof -
  let ?d1 = "update_proposals (stale_proposal actor now) (expired_proposal now) d"
  let ?p = "new_proposal sha actor pv pid now"
  have d': "proposal_insert_ok ?p ?d1"
    "d' = ?d1\<lparr>system_setting_change_proposals := system_setting_change_proposals ?d1 @ [?p]\<rparr>"
    using assms by (auto simp: prepare_body_def Let_def split: sum.splits if_splits)
  have "advances d ?d1"
    by (rule advances_proposals) (auto simp: expired_proposal_def stale_proposal_def)
  moreover have "find_proposal i d' = find_proposal i ?d1" if "find_proposal i ?d1 \<noteq> None" for i
  proof -
    have "i \<in> sp_id ` set (system_setting_change_proposals ?d1)"
      using that unfolding find_proposal_def by (metis lookup_row_None_iff)
    then have "sp_id ?p \<noteq> i" using d'(1) by (auto simp: proposal_insert_ok_def)
    then show ?thesis unfolding d'(2) find_proposal_def by (simp add: lookup_row_append_other)
  qed
  then have "advances ?d1 d'"
    unfolding advances_def by (force simp: d'(2) find_settings_def)
  ultimately show ?thesis by (rule advances_trans)
qed

lemma advances_apply_body:
  assumes "apply_body env actor row now wall d = Inr (r, d')"
  shows "advances d d'"
proof -
  obtain g and pv :: settings_preview where b:
    "workspace_system_settings d' =
       update_where (\<lambda>s. ws_workspace_id s = sa_workspace_id actor \<and> ws_generation s = g)
         (store_settings actor (pv_next_overrides pv) (g + 1) now) (workspace_system_settings d)"
    "system_setting_change_proposals d' =
       update_where (\<lambda>p. sp_id p = sp_id row \<and> sp_status p = Pending) (applied_proposal now)
         (system_setting_change_proposals d)"
    using apply_body_InrD [OF assms] by blast
  have p: "find_proposal pid d' = map_option
      (\<lambda>p. if sp_id p = sp_id row \<and> sp_status p = Pending then applied_proposal now p else p)
      (find_proposal pid d)" for pid
    unfolding find_proposal_def b(2)
    by (rule lookup_row_update_where) (simp add: applied_proposal_def)
  have s: "find_settings w d' = map_option
      (\<lambda>s. if ws_workspace_id s = sa_workspace_id actor \<and> ws_generation s = g
           then store_settings actor (pv_next_overrides pv) (g + 1) now s else s) (find_settings w d)" for w
    unfolding find_settings_def b(1)
    by (rule lookup_row_update_where) (simp add: store_settings_def)
  show ?thesis by (auto simp: advances_def p s applied_proposal_def store_settings_def)
qed


text \<open>One operation, on the committed database.\<close>

lemma prepare_advances:
  assumes "conn_ok c"
  shows "conn_ok (snd (prepare env sha actor expected changes at c))
    \<and> advances (durable c) (durable (snd (prepare env sha actor expected changes at c)))"
  using assms advances_prepare_body work_rollback_if_open [OF assms]
  by (auto simp: prepare_def Let_def new_uuid_def split: sum.splits)

lemma apply_proposal_advances:
  assumes "conn_ok c"
  shows "conn_ok (snd (apply_proposal env sha actor pid conf at c))
    \<and> advances (durable c) (durable (snd (apply_proposal env sha actor pid conf at c)))"
proof -
  have w: "work (rollback_if_open c) = durable c" by (rule work_rollback_if_open [OF assms])
  have expire: "advances (durable c) (update_proposals (\<lambda>p. sp_id p = pid) (expired_proposal now) (durable c))"
    if "lookup_row sp_id pid (system_setting_change_proposals (durable c)) = Some row" "sp_status row = Pending" for row now
  proof (rule advances_proposals)
    fix p i assume "find_proposal i (durable c) = Some p" "sp_id p = pid"
    then show "sp_status p = Pending"
      using that lookup_row_SomeD unfolding find_proposal_def by fastforce
  qed (simp add: expired_proposal_def)
  have applied: "apply_body env actor row now (clock c) (durable c) = Inr (r, d) \<Longrightarrow> advances (durable c) d" for row r d now
    by (rule advances_apply_body)
  show ?thesis
    unfolding apply_proposal_def Let_def
    by (auto simp: w split: option.splits sum.splits intro: expire applied)
qed

lemma exec_settings_ops_advances:
  "conn_ok c \<Longrightarrow> conn_ok (exec_settings_ops env sha xs c)
     \<and> advances (durable c) (durable (exec_settings_ops env sha xs c))"
proof (induction xs arbitrary: c)
  case (Cons x xs)
  have "conn_ok (exec_settings_op env sha x c) \<and> advances (durable c) (durable (exec_settings_op env sha x c))"
    using Cons.prems prepare_advances apply_proposal_advances
    by (cases x) (auto simp: conn_ok_def)
  with Cons.IH [of "exec_settings_op env sha x c"] show ?case by (auto intro: advances_trans)
qed simp

text \<open>A proposal is applied at most once: after it was applied, and after any later run of
  preparations and applications, applying it again raises, whoever asks.\<close>

theorem applied_proposal_is_spent:
  assumes "conn_ok c" "apply_proposal env sha actor pid conf at c = (Inr r, c')"
    and "c'' = exec_settings_ops env sha later c'"
  shows "\<exists>e. fst (apply_proposal env sha actor' pid conf' at' c'') = Inl e"
proof -
  obtain row d where row: "lookup_row sp_id pid (system_setting_change_proposals (durable c)) = Some row"
    "sp_status row = Pending"
    "apply_body env actor row (case at of None \<Rightarrow> clock c | Some t \<Rightarrow> t) (clock c) (durable c) = Inr (r, d)"
    "durable c' = d"
    using apply_proposal_InrD [OF assms(1,2)] by blast
  have id: "sp_id row = pid" using lookup_row_SomeD [OF row(1)] by simp
  have ok': "conn_ok c'" using apply_proposal_advances [OF assms(1)] assms(2) by (metis snd_conv)
  have "find_proposal pid (durable c') = map_option
      (\<lambda>p. if sp_id p = sp_id row \<and> sp_status p = Pending
           then applied_proposal (case at of None \<Rightarrow> clock c | Some t \<Rightarrow> t) p else p)
      (find_proposal pid (durable c))"
  proof -
    have e: "system_setting_change_proposals (durable c') =
        update_where (\<lambda>p. sp_id p = sp_id row \<and> sp_status p = Pending)
          (applied_proposal (case at of None \<Rightarrow> clock c | Some t \<Rightarrow> t))
          (system_setting_change_proposals (durable c))"
      using apply_body_InrD [OF row(3)] row(4) by (elim exE conjE) simp
    show ?thesis unfolding find_proposal_def e
      by (rule lookup_row_update_where) (simp add: applied_proposal_def)
  qed
  then obtain p where "find_proposal pid (durable c') = Some p" "sp_status p = Applied"
    using row(1,2) id by (auto simp: find_proposal_def applied_proposal_def)
  moreover have adv: "conn_ok c'' \<and> advances (durable c') (durable c'')"
    unfolding assms(3) by (rule exec_settings_ops_advances [OF ok'])
  ultimately obtain p'' where p'': "find_proposal pid (durable c'') = Some p''" "sp_status p'' = Applied"
    unfolding advances_def by (metis proposal_status.distinct(1))
  show ?thesis
  proof (cases "apply_proposal env sha actor' pid conf' at' c''")
    case (Pair res s)
    show ?thesis
    proof (cases res)
      case (Inr x)
      with Pair apply_proposal_InrD [of c'' env sha actor' pid conf' at' x s] adv p''
      show ?thesis by (auto simp: find_proposal_def)
    qed (use Pair in auto)
  qed
qed

text \<open>Optimistic concurrency: once a change was applied, every proposal of that workspace
  prepared on an earlier generation is refused for ever.\<close>

theorem stale_generation_is_refused:
  assumes "conn_ok c" "apply_proposal env sha actor pid conf at c = (Inr r, c')"
    and "find_proposal pid' (durable c) = Some p" "sp_workspace_id p = sa_workspace_id actor"
    and "sp_base_generation p < ac_generation r"
    and "c'' = exec_settings_ops env sha later c'"
  shows "\<exists>e. fst (apply_proposal env sha actor' pid' conf' at' c'') = Inl e"
proof -
  let ?w = "sa_workspace_id actor" and ?now = "case at of None \<Rightarrow> clock c | Some t \<Rightarrow> t"
  obtain row where row: "apply_body env actor row ?now (clock c) (durable c) = Inr (r, durable c')"
    using apply_proposal_InrD [OF assms(1,2)] by blast
  obtain s where s: "find_settings ?w (durable c') = Some s" "ws_generation s = ac_generation r"
  proof -
    obtain current g and pv :: settings_preview where b: "settings_state (durable c) ?w = Inr (current, g)" "ac_generation r = g + 1"
      "workspace_system_settings (durable c') =
         update_where (\<lambda>s. ws_workspace_id s = ?w \<and> ws_generation s = g)
           (store_settings actor (pv_next_overrides pv) (g + 1) ?now) (workspace_system_settings (durable c))"
      using apply_body_InrD [OF row] by blast
    obtain s0 where s0: "find_settings ?w (durable c) = Some s0" "ws_generation s0 = g"
      using b(1) unfolding settings_state_overrides
      by (auto simp: overrides_def split: option.splits json.splits sum.splits if_splits)
    have "ws_workspace_id s0 = ?w" using s0(1) lookup_row_SomeD unfolding find_settings_def by fastforce
    moreover have "find_settings ?w (durable c') = map_option (\<lambda>s. if ws_workspace_id s = ?w \<and> ws_generation s = g
        then store_settings actor (pv_next_overrides pv) (g + 1) ?now s else s) (find_settings ?w (durable c))"
      unfolding find_settings_def b(3) by (rule lookup_row_update_where) (simp add: store_settings_def)
    ultimately show ?thesis using s0 b(2) that by (simp add: store_settings_def)
  qed
  have ok': "conn_ok c'" and adv1: "advances (durable c) (durable c')"
    using apply_proposal_advances [OF assms(1)] assms(2) by (metis snd_conv)+
  have ok'': "conn_ok c''" and adv2: "advances (durable c') (durable c'')"
    using exec_settings_ops_advances [OF ok'] unfolding assms(6) by blast+
  have adv: "advances (durable c) (durable c'')" by (rule advances_trans [OF adv1 adv2])
  obtain p'' where p'': "find_proposal pid' (durable c'') = Some p''"
    "sp_base_generation p'' = sp_base_generation p" "sp_workspace_id p'' = ?w"
    using adv assms(3,4) unfolding advances_def by metis
  obtain s'' where s'': "find_settings ?w (durable c'') = Some s''" "ac_generation r \<le> ws_generation s''"
    using adv2 s unfolding advances_def by metis
  show ?thesis
  proof (cases "apply_proposal env sha actor' pid' conf' at' c''")
    case (Pair res t)
    show ?thesis
    proof (cases res)
      case (Inr x)
      then obtain row' d' where r': "find_proposal pid' (durable c'') = Some row'" "of_actor actor' row'"
        "apply_body env actor' row' (case at' of None \<Rightarrow> clock c'' | Some t \<Rightarrow> t) (clock c'') (durable c'') = Inr (x, d')"
        using apply_proposal_InrD [OF ok''] Pair unfolding find_proposal_def by blast
      obtain current g where "settings_state (durable c'') (sa_workspace_id actor') = Inr (current, g)"
        "sp_base_generation row' = g"
        using apply_body_InrD [OF r'(3)] by blast
      then have "ws_generation s'' = sp_base_generation row'"
        using r'(1,2) p'' s''(1) unfolding settings_state_overrides
        by (auto simp: overrides_def of_actor_def split: option.splits json.splits sum.splits if_splits)
      then show ?thesis using r'(1) p'' s''(2) assms(5) by simp
    qed (use Pair in auto)
  qed
qed

text \<open>A preparation leaves an actor with at most ten pending proposals, and the one it stored
  is pending, of this actor, for the generation the caller expected, and expires ten minutes
  later.\<close>

theorem pending_proposals_are_bounded:
  assumes "conn_ok c" "prepare env sha actor expected changes at c = (Inr r, c')"
  shows "row_count (\<lambda>p. of_actor actor p \<and> sp_status p = Pending)
      (system_setting_change_proposals (durable c')) \<le> MAX_PENDING_PROPOSALS
    \<and> (\<exists>p. find_proposal (pc_proposal_id r) (durable c') = Some p \<and> of_actor actor p
         \<and> sp_status p = Pending \<and> sp_base_generation p = expected
         \<and> sp_expires_at p = (case at of None \<Rightarrow> clock c | Some t \<Rightarrow> t) + minutes 10
         \<and> sp_confirmation_hash p = sha (pc_confirmation r))"
proof -
  let ?now = "case at of None \<Rightarrow> clock c | Some t \<Rightarrow> t"
  obtain pv d where p: "preview env (work c) (sa_workspace_id actor) expected changes = Inr pv"
    "prepare_body sha actor pv ?now (clock c) (pc_proposal_id r) (durable c) = Inr d"
    "durable c' = d" "pc_confirmation r = confirmation_phrase (pc_proposal_id r)"
    using assms work_rollback_if_open [OF assms(1)]
    by (auto simp: prepare_def Let_def new_uuid_def split: sum.splits option.splits)
  let ?d1 = "update_proposals (stale_proposal actor ?now) (expired_proposal ?now) (durable c)"
  let ?p = "new_proposal sha actor pv (pc_proposal_id r) ?now"
  have d: "\<not> MAX_PENDING_PROPOSALS \<le> row_count (\<lambda>p. of_actor actor p \<and> sp_status p = Pending)
        (system_setting_change_proposals ?d1)" "proposal_insert_ok ?p ?d1"
    "system_setting_change_proposals d = system_setting_change_proposals ?d1 @ [?p]"
    using p(2) by (auto simp: prepare_body_def Let_def split: sum.splits if_splits)
  have "pv_base_generation pv = expected" using preview_InrD [OF p(1)] by blast
  moreover have "sp_id ?p = pc_proposal_id r" by (simp add: new_proposal_def)
  moreover have "pc_proposal_id r \<notin> sp_id ` set (system_setting_change_proposals ?d1)"
    using d(2) by (auto simp: proposal_insert_ok_def new_proposal_def)
  ultimately have "find_proposal (pc_proposal_id r) (durable c') = Some ?p"
    unfolding find_proposal_def p(3) d(3) by (intro lookup_row_append_new)
  then show ?thesis
    using d(1,3) p(3,4) \<open>pv_base_generation pv = expected\<close>
    by (auto simp: row_count_def new_proposal_def of_actor_def PROPOSAL_TTL_MINUTES_def)
qed

subsection \<open>Witnesses\<close>

lemma resolve_system_setting_is_valid_witness:
  "\<exists>sd \<in> set setting_definitions. canonical_setting_key '' HORIZON_JOB_MAX_ATTEMPTS'' = Inr (sd_key sd)
     \<and> setting_ok sd (SInt 7)"
proof -
  have "resolve_system_setting (\<lambda>_. Some ''+7 '') sample_db ''w'' '' HORIZON_JOB_MAX_ATTEMPTS'' = Inr (SInt 7)"
    by code_simp
  from resolve_system_setting_is_valid [OF this] show ?thesis by blast
qed

definition sample_admin :: settings_actor where
  "sample_admin = \<lparr>sa_workspace_id = ''w'', sa_user_id = ''v'', sa_channel = ''web'',
     sa_delegation_id = None\<rparr>"

definition sample_prepare :: "string \<Rightarrow> int \<Rightarrow> settings_op" where
  "sample_prepare key n = Prepare sample_admin 1 [(key, JInt n)] None"

definition sample_proposals :: conn where
  "sample_proposals = exec_settings_ops (\<lambda>_. None) (\<lambda>s. s)
     [sample_prepare ''jobs.max_attempts'' 5, sample_prepare ''jobs.retention_days'' 9] sample0"

lemma sample_proposals_ok: "conn_ok sample_proposals"
proof -
  have "conn_ok sample0" by (simp add: conn_ok_def sample0_def)
  then show ?thesis unfolding sample_proposals_def using exec_settings_ops_advances by blast
qed

definition sample_apply :: "(conn, applied_change) outcome" where
  "sample_apply = apply_proposal (\<lambda>_. None) (\<lambda>s. s) sample_admin ''ssp_''
     (confirmation_phrase ''ssp_'') None sample_proposals"

lemma sample_applied: "\<exists>r c'. sample_apply = (Inr r, c') \<and> ac_generation r = 2"
proof -
  have "isl (fst sample_apply) = False \<and> ac_generation (projr (fst sample_apply)) = 2" by code_simp
  then obtain r c' where "sample_apply = (Inr r, c')" "ac_generation (projr (fst sample_apply)) = 2"
    using any_outcome [of sample_apply] by blast
  then show ?thesis by (metis fst_conv sum.sel(2))
qed
lemma applied_change_takes_effect_witness:
  "resolve_system_setting (\<lambda>_. None) (durable (snd sample_apply)) ''w'' ''jobs.max_attempts'' = Inr (SInt 5)"
proof -
  obtain r c' where a: "sample_apply = (Inr r, c')" using sample_applied by blast
  obtain row pv where e:
    "lookup_row sp_id ''ssp_'' (system_setting_change_proposals (durable sample_proposals)) = Some row"
    "preview (\<lambda>_. None) (durable sample_proposals) ''w'' (sp_base_generation row) (sp_changes row) = Inr pv"
    "\<forall>change \<in> set (pv_preview_changes pv).
       resolve_system_setting (\<lambda>_. None) (durable c') ''w'' (cp_key change) = Inr (cp_after change)"
    using applied_change_takes_effect [OF sample_proposals_ok a [unfolded sample_apply_def]]
    by (auto simp: sample_admin_def)
  have "map_option (\<lambda>row. case preview (\<lambda>_. None) (durable sample_proposals) ''w'' (sp_base_generation row) (sp_changes row) of
      Inl e \<Rightarrow> False | Inr pv \<Rightarrow> map (\<lambda>ch. (cp_key ch, cp_after ch)) (pv_preview_changes pv) = [(''jobs.max_attempts'', SInt 5)])
    (lookup_row sp_id ''ssp_'' (system_setting_change_proposals (durable sample_proposals))) = Some True"
    by code_simp
  then have m: "map (\<lambda>ch. (cp_key ch, cp_after ch)) (pv_preview_changes pv) = [(''jobs.max_attempts'', SInt 5)]"
    unfolding e(1) using e(2) by simp
  then obtain ch where "pv_preview_changes pv = [ch]" "cp_key ch = ''jobs.max_attempts''" "cp_after ch = SInt 5"
    by (cases "pv_preview_changes pv") auto
  then have "resolve_system_setting (\<lambda>_. None) (durable c') ''w'' ''jobs.max_attempts'' = Inr (SInt 5)"
    using e(3) by simp
  then show ?thesis unfolding a by simp
qed

lemma applied_proposal_is_spent_witness:
  "\<exists>e. fst (apply_proposal (\<lambda>_. None) (\<lambda>s. s) sample_admin ''ssp_'' (confirmation_phrase ''ssp_'') None
       (exec_settings_ops (\<lambda>_. None) (\<lambda>s. s) [Wait 5] (snd sample_apply))) = Inl e"
proof -
  obtain r c' where a: "sample_apply = (Inr r, c')" using sample_applied by blast
  show ?thesis
    unfolding a snd_conv
    by (rule applied_proposal_is_spent [OF sample_proposals_ok a [unfolded sample_apply_def] refl])
qed

lemma stale_generation_is_refused_witness:
  "\<exists>e. fst (apply_proposal (\<lambda>_. None) (\<lambda>s. s) sample_admin ''ssp_a'' (confirmation_phrase ''ssp_a'') None
       (exec_settings_ops (\<lambda>_. None) (\<lambda>s. s) [] (snd sample_apply))) = Inl e"
proof -
  obtain r c' where a: "sample_apply = (Inr r, c')" "ac_generation r = 2" using sample_applied by blast
  have "map_option (\<lambda>p. (sp_workspace_id p, sp_base_generation p)) (find_proposal ''ssp_a'' (durable sample_proposals))
      = Some (''w'', 1)" by code_simp
  then obtain p where p: "find_proposal ''ssp_a'' (durable sample_proposals) = Some p"
    "sp_workspace_id p = ''w''" "sp_base_generation p = 1" by auto
  show ?thesis
    unfolding a(1) snd_conv
    by (rule stale_generation_is_refused [OF sample_proposals_ok a(1) [unfolded sample_apply_def] p(1) _ _ refl])
       (use a(2) p(2,3) in \<open>simp_all add: sample_admin_def\<close>)
qed

lemma pending_proposals_are_bounded_witness:
  "\<exists>r c'. prepare (\<lambda>_. None) (\<lambda>s. s) sample_admin 1 [(''jobs.max_attempts'', JInt 5)] None sample0 = (Inr r, c')
     \<and> (\<exists>p. find_proposal (pc_proposal_id r) (durable c') = Some p \<and> sp_status p = Pending)"
proof -
  have "isl (fst (prepare (\<lambda>_. None) (\<lambda>s. s) sample_admin 1 [(''jobs.max_attempts'', JInt 5)] None sample0)) = False"
    by code_simp
  from any_outcome [OF this] obtain r c' where
    p: "prepare (\<lambda>_. None) (\<lambda>s. s) sample_admin 1 [(''jobs.max_attempts'', JInt 5)] None sample0 = (Inr r, c')" by blast
  have "conn_ok sample0" by (simp add: conn_ok_def sample0_def)
  from pending_proposals_are_bounded [OF this p] p show ?thesis by blast
qed

end
