(* ===== verification/JobEligibility.thy ===== *)
theory JobEligibility
  imports QueueReach
begin

section \<open>Eligibility of claimed jobs\<close>

text \<open>
  \<open>src/src/services/job_eligibility.py\<close>, with the lookups of
  \<open>src/src/storage/service_store.py\<close> and \<open>service_store_subscription_queries.py\<close> it reads: a
  job may go on only while its user, source and subscription are in a state that allows it.
\<close>

subsection \<open>Lookups\<close>

definition get_user :: "string \<Rightarrow> db \<Rightarrow> user option" where
  "get_user i d = lookup_row u_id i (users d)"

definition get_source :: "string \<Rightarrow> db \<Rightarrow> source option" where
  "get_source i d = lookup_row s_id i (source_catalog d)"

definition get_subscription :: "string \<Rightarrow> db \<Rightarrow> subscription option" where
  "get_subscription i d = lookup_row us_id i (user_subscriptions d)"

definition get_user_subscription_for_source :: "string \<Rightarrow> string \<Rightarrow> db \<Rightarrow> subscription option" where
  "get_user_subscription_for_source u s d =
     find (\<lambda>b. us_user_id b = u \<and> us_source_id b = s) (user_subscriptions d)"

definition get_source_schedule :: "string \<Rightarrow> db \<Rightarrow> source_schedule option" where
  "get_source_schedule b d = lookup_row ss_subscription_id b (user_source_schedules d)"

datatype source_scope = AllSources | PrivateSources

text \<open>The inner join with the catalogue, and the left join with the source schedules when only
  subscriptions without an enabled schedule of their own count.\<close>

definition subscription_counts ::
  "string \<Rightarrow> string \<Rightarrow> bool \<Rightarrow> source_scope \<Rightarrow> db \<Rightarrow> subscription \<Rightarrow> bool" where
  "subscription_counts w u global_schedule_only scope d b \<longleftrightarrow>
     us_user_id b = u \<and> us_enabled b
     \<and> (case get_source (us_source_id b) d of
          None \<Rightarrow> False
        | Some s \<Rightarrow>
            s_workspace_id s = w \<and> s_enabled s
            \<and> (scope = PrivateSources \<longrightarrow> s_scope s = ''private'' \<and> s_owner_user_id s = Some u))
     \<and> (global_schedule_only \<longrightarrow>
          (case get_source_schedule (us_id b) d of None \<Rightarrow> True | Some q \<Rightarrow> \<not> ss_enabled q))"

definition has_enabled_user_subscriptions ::
  "string \<Rightarrow> string \<Rightarrow> bool \<Rightarrow> source_scope \<Rightarrow> db \<Rightarrow> bool" where
  "has_enabled_user_subscriptions w u global_schedule_only scope d \<longleftrightarrow>
     list_ex (subscription_counts w u global_schedule_only scope d) (user_subscriptions d)"

subsection \<open>The decision\<close>

definition SCHEDULED_REFRESH_REASON :: string where
  "SCHEDULED_REFRESH_REASON = ''scheduled_service_refresh''"

fun json_falsy :: "json \<Rightarrow> bool" where
  "json_falsy JNull = True"
| "json_falsy (JBool b) = (\<not> b)"
| "json_falsy (JInt n) = (n = 0)"
| "json_falsy (JReal s) = (s \<in> {''0.0'', ''-0.0''})"
| "json_falsy (JStr s) = (s = [])"
| "json_falsy (JArr vs) = (vs = [])"
| "json_falsy (JObj kvs) = (kvs = [])"

text \<open>\<open>str(payload.get("refresh_scope") or "")\<close> is empty or \<open>"all"\<close>.\<close>

definition requests_all :: "dict \<Rightarrow> bool" where
  "requests_all payload \<longleftrightarrow>
     (case map_of payload ''refresh_scope'' of
        None \<Rightarrow> True | Some v \<Rightarrow> json_falsy v \<or> v = JStr ''all'')"

definition effective_manual_refresh_scope :: "job \<Rightarrow> user \<Rightarrow> source_scope" where
  "effective_manual_refresh_scope j u =
     (if requests_all (j_payload j) \<and> u_role u \<in> {''owner'', ''admin''} then AllSources
      else PrivateSources)"

datatype decision = Allowed | Rejected string

definition refresh_reason :: "job \<Rightarrow> json option" where
  "refresh_reason j = map_of (j_payload j) ''reason''"

definition evaluate_fetch :: "job \<Rightarrow> user \<Rightarrow> string \<Rightarrow> db \<Rightarrow> decision" where
  "evaluate_fetch j user source_id d =
     (let sub_id = or_empty (j_subscription_id j);
          subscription = (if truthy sub_id then get_subscription sub_id d
                          else get_user_subscription_for_source (u_id user) source_id d)
      in case subscription of
           None \<Rightarrow> Rejected ''subscription_deleted''
         | Some b \<Rightarrow>
            if us_user_id b \<noteq> u_id user \<or> us_source_id b \<noteq> source_id
            then Rejected ''subscription_deleted''
            else if \<not> us_enabled b then Rejected ''subscription_disabled''
            else Allowed)"

definition source_runnable :: "string \<Rightarrow> db \<Rightarrow> bool" where
  "source_runnable source_id d \<longleftrightarrow>
     \<not> truthy source_id
     \<or> (case get_source source_id d of None \<Rightarrow> False | Some s \<Rightarrow> s_enabled s)"

definition evaluate :: "job \<Rightarrow> db \<Rightarrow> decision" where
  "evaluate j d =
     (if j_status j = Running \<and> j_cancelled_at j \<noteq> None then Rejected ''user_cancelled''
      else
     (case get_user (j_user_id j) d of
        None \<Rightarrow> Rejected ''user_disabled''
      | Some user \<Rightarrow>
         if \<not> u_enabled user then Rejected ''user_disabled''
         else if u_role user = ''viewer'' then Rejected ''user_read_only''
         else
        (let source_id = or_empty (j_source_id j)
         in if \<not> source_runnable source_id d then Rejected ''source_disabled''
            else if j_job_type j = ''user_feed_refresh''
                 \<and> refresh_reason j = Some (JStr SCHEDULED_REFRESH_REASON)
                 \<and> \<not> has_enabled_user_subscriptions (j_workspace_id j) (u_id user) True AllSources d
            then Rejected ''no_global_subscriptions''
            else if j_job_type j = ''user_feed_refresh''
                 \<and> refresh_reason j = Some (JStr ''manual_service_refresh'')
                 \<and> \<not> has_enabled_user_subscriptions (j_workspace_id j) (u_id user) False
                       (effective_manual_refresh_scope j user) d
            then Rejected ''no_enabled_subscriptions''
            else if j_job_type j \<noteq> ''source_fetch'' \<or> \<not> truthy source_id then Allowed
            else evaluate_fetch j user source_id d)))"

definition evaluate_attempt :: "job \<Rightarrow> string option \<Rightarrow> db \<Rightarrow> decision" where
  "evaluate_attempt j source_id d =
     (let decision = evaluate j d
      in if decision \<noteq> Allowed \<or> \<not> truthy (or_empty source_id) then decision
         else if j_job_type j \<noteq> ''user_feed_refresh'' then decision
         else evaluate (j\<lparr>j_job_type := ''source_fetch'', j_source_id := source_id,
                          j_subscription_id := None\<rparr>) d)"

definition evaluate_current_attempt :: "string \<Rightarrow> string option \<Rightarrow> db \<Rightarrow> decision" where
  "evaluate_current_attempt jid source_id d =
     (case find_job jid d of
        None \<Rightarrow> Rejected ''job_missing''
      | Some j \<Rightarrow>
         if j_status j \<noteq> Running then Rejected ''job_not_running''
         else evaluate_attempt j source_id d)"

definition require_current_attempt :: "string \<Rightarrow> string option \<Rightarrow> db \<Rightarrow> exn + unit" where
  "require_current_attempt jid source_id d =
     (case evaluate_current_attempt jid source_id d of
        Allowed \<Rightarrow> Inr ()
      | Rejected reason \<Rightarrow> Inl (JobIneligible (''job is no longer eligible: '' @ reason)))"

subsection \<open>Who may fetch\<close>

text \<open>What an allowed upstream attempt guarantees of the database, stated without the order of
  the checks.\<close>

definition attempt_permitted :: "string \<Rightarrow> string \<Rightarrow> db \<Rightarrow> bool" where
  "attempt_permitted uid source_id d \<longleftrightarrow>
     (\<exists>user s b. get_user uid d = Some user \<and> u_enabled user \<and> u_role user \<noteq> ''viewer''
       \<and> get_source source_id d = Some s \<and> s_enabled s
       \<and> b \<in> set (user_subscriptions d) \<and> us_user_id b = uid \<and> us_source_id b = source_id
       \<and> us_enabled b)"

lemma get_user_id: "get_user i d = Some u \<Longrightarrow> u_id u = i"
  unfolding get_user_def using lookup_row_SomeD by fastforce

lemma evaluate_fetch_Allowed:
  "evaluate_fetch j user s d = Allowed \<Longrightarrow>
   \<exists>b \<in> set (user_subscriptions d). us_user_id b = u_id user \<and> us_source_id b = s \<and> us_enabled b"
  by (auto simp: evaluate_fetch_def Let_def get_subscription_def get_user_subscription_for_source_def
      split: option.splits if_splits dest: lookup_row_SomeD find_SomeD)

lemma evaluate_AllowedD:
  assumes "evaluate j d = Allowed"
  shows "\<exists>user. get_user (j_user_id j) d = Some user \<and> u_enabled user \<and> u_role user \<noteq> ''viewer''
    \<and> source_runnable (or_empty (j_source_id j)) d
    \<and> (j_job_type j = ''source_fetch'' \<and> truthy (or_empty (j_source_id j)) \<longrightarrow>
         evaluate_fetch j user (or_empty (j_source_id j)) d = Allowed)
    \<and> \<not> (j_status j = Running \<and> j_cancelled_at j \<noteq> None)"
  using assms by (auto simp: evaluate_def Let_def split: if_splits option.splits)

lemma evaluate_fetch_permitted:
  assumes "evaluate j d = Allowed" "j_job_type j = ''source_fetch''" "j_source_id j = Some s" "truthy s"
  shows "attempt_permitted (j_user_id j) s d"
proof -
  obtain user where u: "get_user (j_user_id j) d = Some user" "u_enabled user" "u_role user \<noteq> ''viewer''"
    "source_runnable s d" "evaluate_fetch j user s d = Allowed"
    using evaluate_AllowedD [OF assms(1)] assms(2-4) by auto
  then show ?thesis
    using evaluate_fetch_Allowed [OF u(5)] get_user_id [OF u(1)] assms(4)
    by (auto simp: attempt_permitted_def source_runnable_def split: option.splits)
qed

text \<open>An upstream attempt on a source is allowed only while the job runs, nobody cancelled it,
  its user is enabled and not a viewer, the source exists and is enabled, and the user has an
  enabled subscription to it.\<close>

theorem allowed_attempt_is_permitted:
  assumes "evaluate_current_attempt jid (Some s) d = Allowed" "truthy s"
    and "find_job jid d = Some j"
    and "j_job_type j = ''user_feed_refresh'' \<or> j_job_type j = ''source_fetch'' \<and> j_source_id j = Some s"
  shows "j_status j = Running \<and> j_cancelled_at j = None \<and> attempt_permitted (j_user_id j) s d"
proof -
  have run: "j_status j = Running" and att: "evaluate_attempt j (Some s) d = Allowed"
    using assms(1,3) by (auto simp: evaluate_current_attempt_def split: if_splits)
  then have ev: "evaluate j d = Allowed"
    by (auto simp: evaluate_attempt_def Let_def split: if_splits)
  then have "j_cancelled_at j = None" using evaluate_AllowedD run by fastforce
  moreover have "attempt_permitted (j_user_id j) s d"
  proof (cases "j_job_type j = ''user_feed_refresh''")
    case True
    let ?f = "j\<lparr>j_job_type := ''source_fetch'', j_source_id := Some s, j_subscription_id := None\<rparr>"
    have "evaluate ?f d = Allowed"
      using att True assms(2) ev by (auto simp: evaluate_attempt_def Let_def)
    from evaluate_fetch_permitted [OF this, of s] assms(2) show ?thesis by simp
  next
    case False
    then show ?thesis using evaluate_fetch_permitted [OF ev] assms(2,4) by simp
  qed
  ultimately show ?thesis using run by simp
qed

lemma allowed_attempt_is_permitted_witness:
  "attempt_permitted ''u'' ''s'' (work (exec_ops [CreateFetch ''s'' ''b'' (plain_args ''x'' 1),
     Claim ''w1'' 5 None] sample0))"
proof -
  let ?d = "work (exec_ops [CreateFetch ''s'' ''b'' (plain_args ''x'' 1), Claim ''w1'' 5 None] sample0)"
  have j: "find_job ''job_'' ?d \<noteq> None" by code_simp
  have f: "j_job_type (the (find_job ''job_'' ?d)) = ''source_fetch''"
    "j_source_id (the (find_job ''job_'' ?d)) = Some ''s''" "j_user_id (the (find_job ''job_'' ?d)) = ''u''"
    by code_simp+
  have "evaluate_current_attempt ''job_'' (Some ''s'') ?d = Allowed" by code_simp
  from allowed_attempt_is_permitted [OF this _ _ disjI2, of "the (find_job ''job_'' ?d)"] j f
  show ?thesis by simp
qed

lemma cancelled_row_is_rejected:
  "find_job jid d = Some j \<Longrightarrow> j_cancelled_at j \<noteq> None \<Longrightarrow>
   \<exists>reason. evaluate_current_attempt jid source_id d = Rejected reason"
  by (auto simp: evaluate_current_attempt_def evaluate_attempt_def evaluate_def Let_def)

text \<open>Once a user cancels a queued job or a running full refresh, every later upstream attempt
  of that job is rejected before the upstream is called.\<close>

theorem cancellation_stops_attempts:
  assumes "queue_inv c" "\<not> in_tx c" "find_job jid (work c) = Some row" "cancellable row"
    and "cancel_job jid uid c = (Inr j, c')"
  shows "\<exists>reason. require_current_attempt jid source_id (durable c') =
    Inl (JobIneligible (''job is no longer eligible: '' @ reason))"
proof -
  have own: "uid = None \<or> uid = Some (j_user_id row)"
  proof (rule ccontr)
    assume "\<not> ?thesis"
    then have "cancel_body (clock c) jid uid (work c) =
      (Inl (PermissionError ''cannot cancel another user's job''), work c)"
      using assms(3) by (auto simp: cancel_body_def)
    from cancel_job_refused [OF assms(2) this] assms(5) show False by simp
  qed
  have "j = after_cancel (clock c) row" and d: "durable c' = set_row row j (work c)"
    using cancel_job_accepted [OF assms(1-3) own assms(4)] assms(5) by (auto simp: Let_def)
  then have cancelled: "j_cancelled_at j \<noteq> None" and id: "j_id j = j_id row"
    by (auto simp: after_cancel_def cancelled_while_queued_def cancel_requested_def keep_or_def
        split: option.splits)
  have "jobs_ok (fetch_jobs (work c))" using assms(1) by (simp add: queue_inv_def)
  moreover have "row \<in> set (fetch_jobs (work c))" "j_id row = jid"
    using find_job_SomeD [OF assms(3)] by auto
  ultimately have "find_job jid (durable c') = Some j"
    using find_after_update_one [of "work c" row j] id d by simp
  from cancelled_row_is_rejected [OF this cancelled, of source_id] show ?thesis
    by (auto simp: require_current_attempt_def)
qed

lemma cancellation_stops_attempts_witness:
  "\<exists>j c' reason. cancel_job ''job_a'' (Some ''u'') sample1 = (Inr j, c')
     \<and> require_current_attempt ''job_a'' None (durable c') =
         Inl (JobIneligible (''job is no longer eligible: '' @ reason))"
proof -
  have "isl (fst (cancel_job ''job_a'' (Some ''u'') sample1)) = False" by code_simp
  from any_outcome [OF this] obtain j c' where c: "cancel_job ''job_a'' (Some ''u'') sample1 = (Inr j, c')"
    by blast
  have "find_job ''job_a'' (work sample1) \<noteq> None" by code_simp
  then have row: "find_job ''job_a'' (work sample1) = Some (the (find_job ''job_a'' (work sample1)))" by simp
  have "cancellable (the (find_job ''job_a'' (work sample1)))" by code_simp
  from cancellation_stops_attempts [OF sample_inv(2) sample_no_tx(2) row this c, of None] c
  show ?thesis by blast
qed

end
