(* ===== verification/Quota.thy ===== *)
theory Quota
  imports SettingProposals JobEligibility
begin

section \<open>Quotas and usage events\<close>

text \<open>
  \<open>src/src/services/quota.py\<close> on the usage events of \<open>src/src/storage/service_store.py\<close>.
  A limit is the one the service was built with or the workspace's system setting.  An
  admission checks the sum of today's events (UTC) and records one more in one transaction; the
  locale \<open>capped_admission\<close> is the promise of every such check.  Cost estimates, which nothing
  modelled reads, are left out of the events.
\<close>

subsection \<open>Usage events\<close>

definition sum_usage :: "(usage_event \<Rightarrow> bool) \<Rightarrow> db \<Rightarrow> int" where
  "sum_usage P d = sum_list (map ue_quantity (filter P (usage_events d)))"

definition counts_since :: "string \<Rightarrow> string \<Rightarrow> string list \<Rightarrow> time \<Rightarrow> usage_event \<Rightarrow> bool" where
  "counts_since w u types since e \<longleftrightarrow>
     ue_workspace_id e = w \<and> ue_user_id e = u \<and> ue_event_type e \<in> set types \<and> since \<le> ue_created_at e"

definition count_usage_since :: "string \<Rightarrow> string \<Rightarrow> string list \<Rightarrow> time \<Rightarrow> db \<Rightarrow> int" where
  "count_usage_since w u types since d = sum_usage (counts_since w u types since) d"

definition usage_row ::
  "string \<Rightarrow> time \<Rightarrow> string \<Rightarrow> string \<Rightarrow> string \<Rightarrow> int \<Rightarrow> string option \<Rightarrow> dict \<Rightarrow> usage_event" where
  "usage_row i now w u event_type quantity provider metadata =
     \<lparr>ue_id = i, ue_workspace_id = w, ue_user_id = u, ue_event_type = event_type,
      ue_quantity = quantity, ue_provider = provider, ue_metadata = metadata, ue_created_at = now\<rparr>"

definition insert_usage :: "usage_event \<Rightarrow> db \<Rightarrow> exn + db" where
  "insert_usage e d =
     (if ue_id e \<in> ue_id ` set (usage_events d) \<or> ue_workspace_id e \<notin> set (workspaces d)
         \<or> ue_user_id e \<notin> u_id ` set (users d)
      then Inl IntegrityError else Inr (d\<lparr>usage_events := usage_events d @ [e]\<rparr>))"

definition record_usage_event ::
  "string \<Rightarrow> string \<Rightarrow> string \<Rightarrow> int \<Rightarrow> string option \<Rightarrow> dict \<Rightarrow> bool \<Rightarrow> conn
   \<Rightarrow> (conn, usage_event) outcome" where
  "record_usage_event w u event_type quantity provider metadata do_commit c =
     (let (hex, c1) = new_uuid c;
          e = usage_row (''use_'' @ hex) (clock c) w u event_type quantity provider metadata
      in case insert_usage e (work c1) of
           Inl err \<Rightarrow> Raise err (c1\<lparr>in_tx := True\<rparr>)
         | Inr d \<Rightarrow>
            (let c2 = dml (\<lambda>_. d) c1 in Return e (if do_commit then commit c2 else c2)))"

subsection \<open>Limits\<close>

record quota_limits =
  max_fetch_jobs_per_day :: "int option"
  max_sources_per_user :: "int option"
  max_ai_items_per_day :: "int option"
  max_workspace_ai_attempts_per_day :: "int option"
  max_workspace_fetch_attempts_per_day :: "int option"
  max_provider_fetch_attempts_per_day :: "int option"

definition quota_limit ::
  "(string \<Rightarrow> string option) \<Rightarrow> int option \<Rightarrow> string \<Rightarrow> string \<Rightarrow> db \<Rightarrow> exn + int" where
  "quota_limit env explicit w key d =
     (case explicit of
        Some n \<Rightarrow> Inr n
      | None \<Rightarrow>
         (case resolve_system_setting env d w key of
            Inl e \<Rightarrow> Inl e | Inr v \<Rightarrow> Inr (setting_int v)))"

definition today_start :: "time \<Rightarrow> time" where
  "today_start now = now - now mod days 1"

definition quota_day :: "time option \<Rightarrow> conn \<Rightarrow> time" where
  "quota_day at c = today_start (case at of None \<Rightarrow> clock c | Some t \<Rightarrow> t)"

text \<open>\<open>used >= limit\<close> raises.\<close>

definition check_limit :: "exn + int \<Rightarrow> int \<Rightarrow> string \<Rightarrow> exn + unit" where
  "check_limit lim used message =
     (case lim of Inl e \<Rightarrow> Inl e | Inr n \<Rightarrow> if n \<le> used then Inl (QuotaExceeded message) else Inr ())"

subsection \<open>Checks without a record\<close>

definition job_event_types :: "string list" where
  "job_event_types = [''source_test'', ''source_fetch'', ''user_feed_refresh'']"

definition ensure_job_allowed ::
  "(string \<Rightarrow> string option) \<Rightarrow> quota_limits \<Rightarrow> string \<Rightarrow> string \<Rightarrow> time \<Rightarrow> db \<Rightarrow> exn + unit" where
  "ensure_job_allowed env q w u since d =
     check_limit (quota_limit env (max_fetch_jobs_per_day q) w ''limits.max_fetch_jobs_per_day'' d)
       (count_usage_since w u job_event_types since d) ''daily fetch job quota exceeded''"

definition active_source :: "string \<Rightarrow> string \<Rightarrow> db \<Rightarrow> subscription \<Rightarrow> bool" where
  "active_source w u d b \<longleftrightarrow>
     us_user_id b = u \<and> us_enabled b
     \<and> (case get_source (us_source_id b) d of
          None \<Rightarrow> False | Some s \<Rightarrow> s_workspace_id s = w \<and> s_enabled s)"

definition ensure_active_source_capacity ::
  "(string \<Rightarrow> string option) \<Rightarrow> quota_limits \<Rightarrow> string \<Rightarrow> string \<Rightarrow> db \<Rightarrow> exn + unit" where
  "ensure_active_source_capacity env q w u d =
     check_limit (quota_limit env (max_sources_per_user q) w ''limits.max_sources_per_user'' d)
       (int (row_count (active_source w u d) (user_subscriptions d)))
       ''enabled source quota exceeded''"

definition ensure_source_allowed ::
  "(string \<Rightarrow> string option) \<Rightarrow> quota_limits \<Rightarrow> string \<Rightarrow> string \<Rightarrow> string \<Rightarrow> db \<Rightarrow> exn + unit" where
  "ensure_source_allowed env q w u source_id d =
     (let subscribed = (case get_user_subscription_for_source u source_id d of
                          None \<Rightarrow> False | Some b \<Rightarrow> us_enabled b)
      in case get_source source_id d of
           None \<Rightarrow> ensure_active_source_capacity env q w u d
         | Some s \<Rightarrow>
            if s_workspace_id s = w \<and> (\<not> s_enabled s \<or> subscribed) then Inr ()
            else ensure_active_source_capacity env q w u d)"

definition ensure_source_reenable_allowed ::
  "(string \<Rightarrow> string option) \<Rightarrow> quota_limits \<Rightarrow> string \<Rightarrow> string \<Rightarrow> string \<Rightarrow> db \<Rightarrow> exn + unit" where
  "ensure_source_reenable_allowed env q w u source_id d = ensure_active_source_capacity env q w u d"

subsection \<open>Admissions\<close>

text \<open>Check, then record one event, in one transaction.\<close>

definition admit_body :: "(db \<Rightarrow> exn + unit) \<Rightarrow> usage_event \<Rightarrow> db \<Rightarrow> (db, unit) outcome" where
  "admit_body check e d =
     (case check d of
        Inl err \<Rightarrow> Raise err d
      | Inr _ \<Rightarrow> (case insert_usage e d of Inl err \<Rightarrow> Raise err d | Inr d' \<Rightarrow> Return () d'))"

definition admit_ai_item ::
  "(string \<Rightarrow> string option) \<Rightarrow> quota_limits \<Rightarrow> string \<Rightarrow> string \<Rightarrow> string \<Rightarrow> time option \<Rightarrow> conn
   \<Rightarrow> (conn, unit) outcome" where
  "admit_ai_item env q w u provider at c =
     (let (hex, c1) = new_uuid c;
          since = quota_day at c;
          check = (\<lambda>d. check_limit
            (quota_limit env (max_ai_items_per_day q) w ''limits.max_ai_items_per_day'' d)
            (count_usage_since w u [''ai_item''] since d) ''daily AI item quota exceeded'')
      in owned_transaction
           (admit_body check (usage_row (''use_'' @ hex) (clock c) w u ''ai_item'' 1 (Some provider) [])) c1)"

definition workspace_attempt :: "string \<Rightarrow> string \<Rightarrow> time \<Rightarrow> usage_event \<Rightarrow> bool" where
  "workspace_attempt event_type w since e \<longleftrightarrow>
     ue_workspace_id e = w \<and> ue_event_type e = event_type \<and> since \<le> ue_created_at e"

definition provider_attempt :: "string \<Rightarrow> string \<Rightarrow> time \<Rightarrow> usage_event \<Rightarrow> bool" where
  "provider_attempt w provider since e \<longleftrightarrow>
     workspace_attempt ''fetch_attempt'' w since e \<and> ue_provider e = Some provider"

definition fetch_attempt_check ::
  "(string \<Rightarrow> string option) \<Rightarrow> quota_limits \<Rightarrow> string \<Rightarrow> string \<Rightarrow> time \<Rightarrow> db \<Rightarrow> exn + unit" where
  "fetch_attempt_check env q w provider since d =
     (case check_limit
        (quota_limit env (max_workspace_fetch_attempts_per_day q) w
          ''limits.max_workspace_fetch_attempts_per_day'' d)
        (sum_usage (workspace_attempt ''fetch_attempt'' w since) d)
        ''workspace fetch attempt quota exceeded'' of
        Inl e \<Rightarrow> Inl e
      | Inr _ \<Rightarrow>
         check_limit
           (quota_limit env (max_provider_fetch_attempts_per_day q) w
             ''limits.max_provider_fetch_attempts_per_day'' d)
           (sum_usage (provider_attempt w provider since) d)
           ''provider fetch attempt quota exceeded'')"

definition admit_fetch_attempt ::
  "(string \<Rightarrow> string option) \<Rightarrow> quota_limits \<Rightarrow> string \<Rightarrow> string \<Rightarrow> string \<Rightarrow> string option \<Rightarrow> time option
   \<Rightarrow> conn \<Rightarrow> (conn, unit) outcome" where
  "admit_fetch_attempt env q w u provider source_id at c =
     (let (hex, c1) = new_uuid c;
          metadata = (if truthy (or_empty source_id)
                      then [(''source_id'', JStr (or_empty source_id))] else [])
      in owned_transaction
           (admit_body (fetch_attempt_check env q w provider (quota_day at c))
              (usage_row (''use_'' @ hex) (clock c) w u ''fetch_attempt'' 1 (Some provider) metadata)) c1)"

definition admit_ai_attempt ::
  "(string \<Rightarrow> string option) \<Rightarrow> quota_limits \<Rightarrow> string \<Rightarrow> string \<Rightarrow> string \<Rightarrow> time option \<Rightarrow> conn
   \<Rightarrow> (conn, unit) outcome" where
  "admit_ai_attempt env q w u provider at c =
     (let (hex, c1) = new_uuid c;
          since = quota_day at c;
          check = (\<lambda>d. check_limit
            (quota_limit env (max_workspace_ai_attempts_per_day q) w
              ''limits.max_workspace_ai_attempts_per_day'' d)
            (sum_usage (workspace_attempt ''ai_attempt'' w since) d)
            ''workspace AI attempt quota exceeded'')
      in owned_transaction
           (admit_body check (usage_row (''use_'' @ hex) (clock c) w u ''ai_attempt'' 1 (Some provider) [])) c1)"

definition record_job_usage :: "string \<Rightarrow> string \<Rightarrow> string \<Rightarrow> bool \<Rightarrow> conn \<Rightarrow> (conn, usage_event) outcome" where
  "record_job_usage w u event_type do_commit c =
     record_usage_event w u event_type 1 None [] do_commit c"

definition record_quota_reject ::
  "string \<Rightarrow> string \<Rightarrow> string \<Rightarrow> string option \<Rightarrow> bool \<Rightarrow> conn \<Rightarrow> (conn, usage_event) outcome" where
  "record_quota_reject w u quota provider do_commit c =
     record_usage_event w u ''quota_reject'' 1 provider [(''quota'', JStr (take 64 quota))] do_commit c"

subsection \<open>The promise of an admission\<close>

locale capped_admission =
  fixes ready :: "conn \<Rightarrow> bool" and used :: "db \<Rightarrow> int" and cap :: int
    and admit :: "'a \<Rightarrow> conn \<Rightarrow> (conn, 'b) outcome"
  assumes admitted: "ready c \<Longrightarrow> admit x c = (Inr y, c') \<Longrightarrow>
      ready c' \<and> (used (work c') = used (work c) \<or> used (work c) < cap \<and> used (work c') = used (work c) + 1)"
    and refused: "ready c \<Longrightarrow> admit x c = (Inl e, c') \<Longrightarrow> ready c' \<and> used (work c') = used (work c)"
begin

lemma admit_bounded:
  "ready c \<Longrightarrow> used (work c) \<le> cap \<Longrightarrow>
   ready (snd (admit x c)) \<and> used (work (snd (admit x c))) \<le> cap"
proof (cases "admit x c")
  case (Pair r c')
  assume "ready c" "used (work c) \<le> cap"
  with Pair show ?thesis
    using admitted [of c x _ c'] refused [of c x _ c'] by (cases r) fastforce+
qed

lemma run_bounded:
  "ready c \<Longrightarrow> used (work c) \<le> cap \<Longrightarrow>
   ready (fold (\<lambda>x c. snd (admit x c)) xs c)
   \<and> used (work (fold (\<lambda>x c. snd (admit x c)) xs c)) \<le> cap"
  by (induction xs arbitrary: c) (simp_all add: admit_bounded)

end

text \<open>An admission that counts every one of its own records.\<close>

locale metered_admission = capped_admission +
  assumes counted: "ready c \<Longrightarrow> admit x c = (Inr y, c') \<Longrightarrow> used (work c') = used (work c) + 1"
begin

lemma full_refuses: "ready c \<Longrightarrow> cap \<le> used (work c) \<Longrightarrow> \<exists>e. fst (admit x c) = Inl e"
proof (cases "admit x c")
  case (Pair r c')
  assume "ready c" "cap \<le> used (work c)"
  with Pair show ?thesis using admitted [of c x _ c'] counted [of c x _ c'] by (cases r) fastforce+
qed

end

subsection \<open>The admissions keep the promise\<close>

lemma sum_usage_append:
  "sum_usage P (d\<lparr>usage_events := es @ [e]\<rparr>) =
     sum_usage P (d\<lparr>usage_events := es\<rparr>) + (if P e then ue_quantity e else 0)"
  by (simp add: sum_usage_def)

lemma quota_limit_usage [simp]:
  "quota_limit env explicit w key (d\<lparr>usage_events := es\<rparr>) = quota_limit env explicit w key d"
proof -
  have "overrides (d\<lparr>usage_events := es\<rparr>) w = overrides d w" by (simp add: overrides_def find_settings_def)
  then have "resolve_system_setting env (d\<lparr>usage_events := es\<rparr>) w key = resolve_system_setting env d w key"
    by (simp add: resolve_system_setting_def cong: sum.case_cong)
  then show ?thesis unfolding quota_limit_def by (simp split: option.split)
qed

lemma admit_body_InrD:
  "admit_body check e d = (Inr y, d') \<Longrightarrow>
   check d = Inr () \<and> d' = d\<lparr>usage_events := usage_events d @ [e]\<rparr>"
  by (auto simp: admit_body_def insert_usage_def split: sum.splits if_splits)

lemma admit_body_InlD: "admit_body check e d = (Inl err, d') \<Longrightarrow> d' = d"
  by (auto simp: admit_body_def split: sum.splits)

lemma owned_admit_Inr:
  assumes "owned_transaction (admit_body check e) c = (Inr y, c')" "conn_ok c"
  shows "check (work c) = Inr () \<and> work c' = (work c)\<lparr>usage_events := usage_events (work c) @ [e]\<rparr>
    \<and> clock c' = clock c \<and> conn_ok c'"
  using assms admit_body_InrD [of check e "work c"]
  by (cases "admit_body check e (work c)"; cases "in_tx c")
     (auto simp: owned_transaction_new owned_transaction_nested conn_ok_def
       split: sum.splits prod.splits)

lemma owned_admit_Inl:
  assumes "owned_transaction (admit_body check e) c = (Inl err, c')" "conn_ok c"
  shows "work c' = work c \<and> clock c' = clock c \<and> conn_ok c'"
  using assms admit_body_InlD [of check e "work c"]
  by (cases "admit_body check e (work c)"; cases "in_tx c")
     (auto simp: owned_transaction_new owned_transaction_nested conn_ok_def
       split: sum.splits prod.splits)

text \<open>A connection on which today's limit is known.\<close>

definition day_ready ::
  "(string \<Rightarrow> string option) \<Rightarrow> int option \<Rightarrow> string \<Rightarrow> string \<Rightarrow> time \<Rightarrow> int \<Rightarrow> conn \<Rightarrow> bool" where
  "day_ready env explicit w key since cap c \<longleftrightarrow>
     conn_ok c \<and> today_start (clock c) = since \<and> quota_limit env explicit w key (work c) = Inr cap"

lemma today_start_le: "today_start t \<le> t"
  by (simp add: today_start_def days_def seconds_def)

lemma day_ready_step:
  assumes "day_ready env explicit w key since cap c" "clock c' = clock c" "conn_ok c'"
    and "work c' = work c \<or> (\<exists>es. work c' = (work c)\<lparr>usage_events := es\<rparr>)"
  shows "day_ready env explicit w key since cap c'"
  using assms by (auto simp: day_ready_def)

lemma check_limit_Inr: "check_limit lim n m = Inr () \<longleftrightarrow> (\<exists>cap. lim = Inr cap \<and> n < cap)"
  by (auto simp: check_limit_def split: sum.splits)

text \<open>Any admission of this shape whose check bounds the sum of the events it counts.\<close>

lemma capped_shape:
  assumes shape: "\<And>x c. admit x c =
      owned_transaction (admit_body (check x c) (row x c)) (c\<lparr>drawn := Suc (drawn c)\<rparr>)"
    and checked: "\<And>x c. day_ready env explicit w key since cap c \<Longrightarrow> check x c (work c) = Inr () \<Longrightarrow>
      P (row x c) \<Longrightarrow> sum_usage P (work c) < cap"
    and one: "\<And>x c. ue_quantity (row x c) = 1"
  shows "capped_admission (day_ready env explicit w key since cap) (sum_usage P) cap admit"
proof (rule capped_admission.intro)
  fix c :: conn and x y c'
  assume r: "day_ready env explicit w key since cap c" and a: "admit x c = (Inr y, c')"
  have ok: "conn_ok (c\<lparr>drawn := Suc (drawn c)\<rparr>)" using r by (simp add: day_ready_def)
  note f = owned_admit_Inr [OF a [unfolded shape] ok]
  have "day_ready env explicit w key since cap c'"
    by (rule day_ready_step [OF r]) (use f in auto)
  then show "day_ready env explicit w key since cap c' \<and>
     (sum_usage P (work c') = sum_usage P (work c) \<or>
      sum_usage P (work c) < cap \<and> sum_usage P (work c') = sum_usage P (work c) + 1)"
    using f checked [OF r, of x] one [of x c] by (auto simp: sum_usage_append)
next
  fix c :: conn and x e c'
  assume r: "day_ready env explicit w key since cap c" and a: "admit x c = (Inl e, c')"
  have ok: "conn_ok (c\<lparr>drawn := Suc (drawn c)\<rparr>)" using r by (simp add: day_ready_def)
  note f = owned_admit_Inl [OF a [unfolded shape] ok]
  have "day_ready env explicit w key since cap c'"
    by (rule day_ready_step [OF r]) (use f in auto)
  then show "day_ready env explicit w key since cap c' \<and> sum_usage P (work c') = sum_usage P (work c)"
    using f by simp
qed

lemma metered_shape:
  assumes shape: "\<And>x c. admit x c =
      owned_transaction (admit_body (check x c) (row x c)) (c\<lparr>drawn := Suc (drawn c)\<rparr>)"
    and checked: "\<And>x c. day_ready env explicit w key since cap c \<Longrightarrow> check x c (work c) = Inr () \<Longrightarrow>
      P (row x c) \<Longrightarrow> sum_usage P (work c) < cap"
    and one: "\<And>x c. ue_quantity (row x c) = 1"
    and hits: "\<And>x c. day_ready env explicit w key since cap c \<Longrightarrow> P (row x c)"
  shows "metered_admission (day_ready env explicit w key since cap) (sum_usage P) cap admit"
proof (rule metered_admission.intro [OF capped_shape [OF shape checked one]])
  show "metered_admission_axioms (day_ready env explicit w key since cap) (sum_usage P) admit"
  proof (rule metered_admission_axioms.intro)
    fix c :: conn and x y c'
    assume r: "day_ready env explicit w key since cap c" and a: "admit x c = (Inr y, c')"
    have ok: "conn_ok (c\<lparr>drawn := Suc (drawn c)\<rparr>)" using r by (simp add: day_ready_def)
    from owned_admit_Inr [OF a [unfolded shape] ok] hits [OF r, of x] one [of x c]
    show "sum_usage P (work c') = sum_usage P (work c) + 1" by (simp add: sum_usage_append)
  qed
qed

definition ai_item_row :: "string \<Rightarrow> string \<Rightarrow> string \<Rightarrow> conn \<Rightarrow> usage_event" where
  "ai_item_row w u provider c =
     usage_row (''use_'' @ uuid_hex c (drawn c)) (clock c) w u ''ai_item'' 1 (Some provider) []"

interpretation ai_items: metered_admission
  "day_ready env (max_ai_items_per_day q) w ''limits.max_ai_items_per_day'' since cap"
  "sum_usage (counts_since w u [''ai_item''] since)" cap
  "\<lambda>provider. admit_ai_item env q w u provider None"
  for env q w u since cap
  by (rule metered_shape [where row = "ai_item_row w u" and
        check = "\<lambda>provider c d. check_limit
          (quota_limit env (max_ai_items_per_day q) w ''limits.max_ai_items_per_day'' d)
          (count_usage_since w u [''ai_item''] (quota_day None c) d) ''daily AI item quota exceeded''"])
     (auto simp: admit_ai_item_def new_uuid_def Let_def ai_item_row_def usage_row_def counts_since_def
       quota_day_def today_start_le check_limit_Inr count_usage_since_def day_ready_def)

interpretation ai_attempts: metered_admission
  "day_ready env (max_workspace_ai_attempts_per_day q) w ''limits.max_workspace_ai_attempts_per_day'' since cap"
  "sum_usage (workspace_attempt ''ai_attempt'' w since)" cap
  "\<lambda>(u, provider). admit_ai_attempt env q w u provider None"
  for env q w since cap
  by (rule metered_shape [where row = "\<lambda>(u, provider) c. usage_row (''use_'' @ uuid_hex c (drawn c)) (clock c) w u
          ''ai_attempt'' 1 (Some provider) []" and
        check = "\<lambda>_ c d. check_limit
          (quota_limit env (max_workspace_ai_attempts_per_day q) w ''limits.max_workspace_ai_attempts_per_day'' d)
          (sum_usage (workspace_attempt ''ai_attempt'' w (quota_day None c)) d)
          ''workspace AI attempt quota exceeded''"])
     (auto simp: admit_ai_attempt_def new_uuid_def Let_def usage_row_def workspace_attempt_def
       quota_day_def today_start_le check_limit_Inr day_ready_def split: prod.splits)

definition fetch_row :: "string \<Rightarrow> string \<times> string \<times> string option \<Rightarrow> conn \<Rightarrow> usage_event" where
  "fetch_row w x c =
     (case x of (u, provider, source_id) \<Rightarrow>
        usage_row (''use_'' @ uuid_hex c (drawn c)) (clock c) w u ''fetch_attempt'' 1 (Some provider)
          (if truthy (or_empty source_id) then [(''source_id'', JStr (or_empty source_id))] else []))"

lemma admit_fetch_attempt_shape:
  "(\<lambda>(u, provider, source_id). admit_fetch_attempt env q w u provider source_id None) x c =
     owned_transaction (admit_body (fetch_attempt_check env q w (fst (snd x)) (quota_day None c)) (fetch_row w x c))
       (c\<lparr>drawn := Suc (drawn c)\<rparr>)"
  by (cases x) (simp add: admit_fetch_attempt_def new_uuid_def Let_def fetch_row_def)

lemma fetch_attempt_check_Inr:
  "fetch_attempt_check env q w provider since d = Inr () \<longleftrightarrow>
     (\<exists>cap. quota_limit env (max_workspace_fetch_attempts_per_day q) w
        ''limits.max_workspace_fetch_attempts_per_day'' d = Inr cap
        \<and> sum_usage (workspace_attempt ''fetch_attempt'' w since) d < cap)
     \<and> (\<exists>cap. quota_limit env (max_provider_fetch_attempts_per_day q) w
        ''limits.max_provider_fetch_attempts_per_day'' d = Inr cap
        \<and> sum_usage (provider_attempt w provider since) d < cap)"
  by (auto simp: fetch_attempt_check_def check_limit_def split: sum.splits)

interpretation fetch_attempts: metered_admission
  "day_ready env (max_workspace_fetch_attempts_per_day q) w
     ''limits.max_workspace_fetch_attempts_per_day'' since cap"
  "sum_usage (workspace_attempt ''fetch_attempt'' w since)" cap
  "\<lambda>(u, provider, source_id). admit_fetch_attempt env q w u provider source_id None"
  for env q w since cap
  by (rule metered_shape [OF admit_fetch_attempt_shape])
     (auto simp: fetch_attempt_check_Inr fetch_row_def usage_row_def workspace_attempt_def
       quota_day_def today_start_le day_ready_def split: prod.splits)

interpretation provider_attempts: capped_admission
  "day_ready env (max_provider_fetch_attempts_per_day q) w
     ''limits.max_provider_fetch_attempts_per_day'' since cap"
  "sum_usage (provider_attempt w p since)" cap
  "\<lambda>(u, provider, source_id). admit_fetch_attempt env q w u provider source_id None"
  for env q w p since cap
  by (rule capped_shape [OF admit_fetch_attempt_shape])
     (auto simp: fetch_attempt_check_Inr fetch_row_def usage_row_def provider_attempt_def
       workspace_attempt_def quota_day_def day_ready_def split: prod.splits)

text \<open>C34: However many AI items ask for admission in a day, a user's count for the day never
  exceeds the limit.\<close>

theorem ai_items_stay_within_the_daily_limit:
  assumes "conn_ok c"
    and "quota_limit env (max_ai_items_per_day q) w ''limits.max_ai_items_per_day'' (work c) = Inr cap"
    and "count_usage_since w u [''ai_item''] (today_start (clock c)) (work c) \<le> cap"
  shows "count_usage_since w u [''ai_item''] (today_start (clock c))
      (work (fold (\<lambda>provider c. snd (admit_ai_item env q w u provider None c)) providers c)) \<le> cap"
proof -
  have "day_ready env (max_ai_items_per_day q) w ''limits.max_ai_items_per_day'' (today_start (clock c)) cap c"
    using assms(1,2) by (simp add: day_ready_def)
  from ai_items.run_bounded [OF this] assms(3) show ?thesis by (simp add: count_usage_since_def)
qed

text \<open>Any run of fetch admissions of any users, providers and sources keeps both the
  workspace's count and each provider's count of the day within their limits.\<close>

theorem fetch_attempts_stay_within_both_limits:
  assumes "conn_ok c"
    and "quota_limit env (max_workspace_fetch_attempts_per_day q) w
      ''limits.max_workspace_fetch_attempts_per_day'' (work c) = Inr cap"
    and "quota_limit env (max_provider_fetch_attempts_per_day q) w
      ''limits.max_provider_fetch_attempts_per_day'' (work c) = Inr pcap"
    and "sum_usage (workspace_attempt ''fetch_attempt'' w (today_start (clock c))) (work c) \<le> cap"
    and "sum_usage (provider_attempt w p (today_start (clock c))) (work c) \<le> pcap"
    and "c' = fold (\<lambda>(u, provider, source_id) c.
           snd (admit_fetch_attempt env q w u provider source_id None c)) attempts c"
  shows "sum_usage (workspace_attempt ''fetch_attempt'' w (today_start (clock c))) (work c') \<le> cap
    \<and> sum_usage (provider_attempt w p (today_start (clock c))) (work c') \<le> pcap"
proof -
  have eq: "(\<lambda>(u, provider, source_id) c. snd (admit_fetch_attempt env q w u provider source_id None c)) =
      (\<lambda>x c. snd ((\<lambda>(u, provider, source_id). admit_fetch_attempt env q w u provider source_id None) x c))"
    by (rule ext) (simp add: split_beta)
  have "day_ready env (max_workspace_fetch_attempts_per_day q) w
      ''limits.max_workspace_fetch_attempts_per_day'' (today_start (clock c)) cap c"
    "day_ready env (max_provider_fetch_attempts_per_day q) w
      ''limits.max_provider_fetch_attempts_per_day'' (today_start (clock c)) pcap c"
    using assms(1-3) by (simp_all add: day_ready_def)
  from fetch_attempts.run_bounded [OF this(1) assms(4)] provider_attempts.run_bounded [OF this(2) assms(5)]
  show ?thesis unfolding assms(6) eq by blast
qed

text \<open>Once the workspace's fetch attempts of the day are used up, a further attempt raises the
  quota error and records nothing, inside a caller's transaction or outside one.\<close>

theorem exhausted_quota_refuses_fetches:
  assumes "conn_ok c"
    and "quota_limit env (max_workspace_fetch_attempts_per_day q) w
      ''limits.max_workspace_fetch_attempts_per_day'' (work c) = Inr cap"
    and "cap \<le> sum_usage (workspace_attempt ''fetch_attempt'' w (today_start (clock c))) (work c)"
  shows "fst (admit_fetch_attempt env q w u provider source_id None c) =
      Inl (QuotaExceeded ''workspace fetch attempt quota exceeded'')
    \<and> work (snd (admit_fetch_attempt env q w u provider source_id None c)) = work c
    \<and> durable (snd (admit_fetch_attempt env q w u provider source_id None c)) = durable c"
proof -
  have "fetch_attempt_check env q w provider (quota_day None c) (work c) =
      Inl (QuotaExceeded ''workspace fetch attempt quota exceeded'')"
    using assms(2,3) by (simp add: fetch_attempt_check_def check_limit_def quota_day_def)
  then show ?thesis
    using assms(1)
    by (cases "in_tx c")
       (auto simp: admit_fetch_attempt_def new_uuid_def Let_def owned_transaction_new
         owned_transaction_nested admit_body_def conn_ok_def)
qed

subsection \<open>Witnesses\<close>

definition sample_limits :: quota_limits where
  "sample_limits = \<lparr>max_fetch_jobs_per_day = Some 2, max_sources_per_user = None,
     max_ai_items_per_day = Some 2, max_workspace_ai_attempts_per_day = None,
     max_workspace_fetch_attempts_per_day = Some 2, max_provider_fetch_attempts_per_day = None\<rparr>"

lemma sample0_ok: "conn_ok sample0"
  by (simp add: conn_ok_def sample0_def)

lemma ai_items_stay_within_the_daily_limit_witness:
  "count_usage_since ''w'' ''u'' [''ai_item''] (today_start (clock sample0))
     (work (fold (\<lambda>p c. snd (admit_ai_item (\<lambda>_. None) sample_limits ''w'' ''u'' p None c))
       [''x'', ''y'', ''z''] sample0)) \<le> 2"
  by (rule ai_items_stay_within_the_daily_limit [OF sample0_ok]) code_simp+

lemma fetch_attempts_stay_within_both_limits_witness:
  "sum_usage (workspace_attempt ''fetch_attempt'' ''w'' (today_start (clock sample0)))
     (work (fold (\<lambda>(u, provider, source_id) c.
           snd (admit_fetch_attempt (\<lambda>_. None) sample_limits ''w'' u provider source_id None c))
        [(''u'', ''x'', None), (''v'', ''y'', Some ''s''), (''u'', ''x'', None)] sample0)) \<le> 2"
  by (rule conjunct1, rule fetch_attempts_stay_within_both_limits [OF sample0_ok _ _ _ _ refl, where pcap = 100 and p = "''x''"])
     code_simp+

lemma exhausted_quota_refuses_fetches_witness:
  "fst (admit_fetch_attempt (\<lambda>_. None) (sample_limits\<lparr>max_workspace_fetch_attempts_per_day := Some 0\<rparr>)
     ''w'' ''u'' ''x'' None None sample0) = Inl (QuotaExceeded ''workspace fetch attempt quota exceeded'')"
  by (rule conjunct1, rule exhausted_quota_refuses_fetches [OF sample0_ok, where cap = 0]) code_simp+

end
