(* ===== verification/Schedules.thy ===== *)
theory Schedules
  imports Quota
begin

section \<open>What the two schedulers share\<close>

text \<open>
  \<open>src/src/services/schedule_runtime.py\<close> and \<open>worker_schedule_gate.py\<close> (which schedules are
  due, in which order), the counters a scheduler reports, and the interface both schedulers
  provide: a step evaluates one due schedule inside the open transaction and postpones it.  The
  lemmas of the locale are about a whole run over the due schedules.
\<close>

subsection \<open>Due schedules\<close>

definition worker_schedule_polling_enabled ::
  "(string \<Rightarrow> string option) \<Rightarrow> db \<Rightarrow> string \<Rightarrow> exn + bool" where
  "worker_schedule_polling_enabled env d w =
     (case resolve_system_setting env d w ''scheduling.automatic_enqueue_enabled'' of
        Inl e \<Rightarrow> Inl e | Inr v \<Rightarrow> Inr (setting_int v \<noteq> 0))"

fun polling_workspaces :: "(string \<Rightarrow> string option) \<Rightarrow> db \<Rightarrow> string list \<Rightarrow> exn + string list" where
  "polling_workspaces env d [] = Inr []"
| "polling_workspaces env d (w # ws) =
     (case worker_schedule_polling_enabled env d w of
        Inl e \<Rightarrow> Inl e
      | Inr yes \<Rightarrow>
         (case polling_workspaces env d ws of
            Inl e \<Rightarrow> Inl e
          | Inr rest \<Rightarrow> Inr (if yes then w # rest else rest)))"

definition enabled_schedule_workspace_ids :: "(string \<Rightarrow> string option) \<Rightarrow> db \<Rightarrow> exn + string list" where
  "enabled_schedule_workspace_ids env d = polling_workspaces env d (workspaces d)"

definition is_due :: "bool \<Rightarrow> time option \<Rightarrow> time \<Rightarrow> bool" where
  "is_due enabled next_run now \<longleftrightarrow> enabled \<and> (case next_run of None \<Rightarrow> False | Some t \<Rightarrow> t \<le> now)"

definition feed_due :: "time \<Rightarrow> feed_schedule \<Rightarrow> bool" where
  "feed_due now f = is_due (fs_enabled f) (fs_next_run_at f) now"

definition source_due :: "time \<Rightarrow> source_schedule \<Rightarrow> bool" where
  "source_due now s = is_due (ss_enabled s) (ss_next_run_at s) now"

text \<open>\<open>limit\<close> is at least one here.\<close>

definition due_feed_schedule_rows ::
  "(string \<Rightarrow> string option) \<Rightarrow> time \<Rightarrow> nat \<Rightarrow> db \<Rightarrow> exn + feed_schedule list" where
  "due_feed_schedule_rows env now limit d =
     (case enabled_schedule_workspace_ids env d of
        Inl e \<Rightarrow> Inl e
      | Inr ids \<Rightarrow>
         Inr (take limit (sort_key (\<lambda>f. (the (fs_next_run_at f), fs_user_id f))
                (filter (\<lambda>f. feed_due now f \<and> fs_workspace_id f \<in> set ids) (user_feed_schedules d)))))"

definition due_source_schedule_rows ::
  "(string \<Rightarrow> string option) \<Rightarrow> time \<Rightarrow> nat \<Rightarrow> db \<Rightarrow> exn + source_schedule list" where
  "due_source_schedule_rows env now limit d =
     (case enabled_schedule_workspace_ids env d of
        Inl e \<Rightarrow> Inl e
      | Inr ids \<Rightarrow>
         Inr (take limit (sort_key (\<lambda>s. (the (ss_next_run_at s), ss_subscription_id s))
                (filter (\<lambda>s. source_due now s \<and> ss_workspace_id s \<in> set ids) (user_source_schedules d)))))"

subsection \<open>The report of a run\<close>

datatype schedule_action = Enqueued | Deduplicated | Skipped

record schedule_outcome =
  so_key :: string
  so_action :: schedule_action
  so_reason :: "string option"
  so_job_id :: "string option"

record schedule_report =
  sr_evaluated :: nat
  sr_enqueued :: nat
  sr_deduplicated :: nat
  sr_skipped :: nat
  sr_outcomes :: "schedule_outcome list"

definition empty_report :: schedule_report where
  "empty_report = \<lparr>sr_evaluated = 0, sr_enqueued = 0, sr_deduplicated = 0, sr_skipped = 0,
                   sr_outcomes = []\<rparr>"

definition count_action :: "schedule_action \<Rightarrow> schedule_report \<Rightarrow> schedule_report" where
  "count_action a r =
     (case a of
        Enqueued \<Rightarrow> r\<lparr>sr_evaluated := Suc (sr_evaluated r), sr_enqueued := Suc (sr_enqueued r)\<rparr>
      | Deduplicated \<Rightarrow>
          r\<lparr>sr_evaluated := Suc (sr_evaluated r), sr_deduplicated := Suc (sr_deduplicated r)\<rparr>
      | Skipped \<Rightarrow> r\<lparr>sr_evaluated := Suc (sr_evaluated r), sr_skipped := Suc (sr_skipped r)\<rparr>)"

definition add_outcome ::
  "string \<Rightarrow> schedule_action \<Rightarrow> string option \<Rightarrow> string option \<Rightarrow> schedule_report \<Rightarrow> schedule_report" where
  "add_outcome key a reason jid r =
     r\<lparr>sr_outcomes := sr_outcomes r
        @ [\<lparr>so_key = key, so_action = a, so_reason = reason, so_job_id = jid\<rparr>]\<rparr>"

definition counters_agree :: "schedule_report \<Rightarrow> bool" where
  "counters_agree r \<longleftrightarrow>
     sr_evaluated r = sr_enqueued r + sr_deduplicated r + sr_skipped r
     \<and> length (sr_outcomes r) \<le> sr_evaluated r"

record schedule_service =
  sv_quota :: quota_limits
  sv_max_attempts :: "int option"
  sv_retention_days :: "int option"

definition job_setting ::
  "(string \<Rightarrow> string option) \<Rightarrow> int option \<Rightarrow> string \<Rightarrow> string \<Rightarrow> db \<Rightarrow> exn + int" where
  "job_setting env explicit w key d = quota_limit env explicit w key d"

fun run_rows ::
  "('row \<Rightarrow> schedule_report \<Rightarrow> conn \<Rightarrow> (conn, schedule_report) outcome) \<Rightarrow> 'row list
   \<Rightarrow> schedule_report \<Rightarrow> conn \<Rightarrow> (conn, schedule_report) outcome" where
  "run_rows step [] r c = Return r c"
| "run_rows step (row # rows) r c =
     (case step row r c of
        (Inl e, c') \<Rightarrow> Raise e c'
      | (Inr r', c') \<Rightarrow> run_rows step rows r' c')"

lemma run_rows_invariant:
  "run_rows step rows r c = (Inr r', c') \<Longrightarrow> I c \<Longrightarrow>
   (\<And>row r c r' c'. row \<in> set rows \<Longrightarrow> I c \<Longrightarrow> step row r c = (Inr r', c') \<Longrightarrow> I c') \<Longrightarrow> I c'"
proof (induction rows arbitrary: r c)
  case (Cons row rows)
  obtain r1 c1 where s: "step row r c = (Inr r1, c1)" "run_rows step rows r1 c1 = (Inr r', c')"
    using Cons.prems(1) by (auto split: prod.splits sum.splits)
  have "I c1" using Cons.prems(3) [OF _ Cons.prems(2) s(1)] by simp
  then show ?case using Cons.IH [OF s(2)] Cons.prems(3) by (meson list.set_intros(2))
qed simp

lemma sort_take_rows:
  "x \<in> set (take n (sort_key k (filter P rows))) \<Longrightarrow> x \<in> set rows \<and> P x"
  by (auto dest: in_set_takeD)

text \<open>Queued jobs that a schedule created: the payload's reason tells.\<close>

definition has_reason :: "string \<Rightarrow> job \<Rightarrow> bool" where
  "has_reason reason j \<longleftrightarrow> map_of (j_payload j) ''reason'' = Some (JStr reason)"

subsection \<open>What the queue and the quota service leave to the scheduler\<close>

text \<open>Inside the scheduler's transaction these calls touch no schedule, no subscription and no source, and
  keep the queue sound.\<close>

definition keeps_schedules :: "conn \<Rightarrow> conn \<Rightarrow> bool" where
  "keeps_schedules c c' \<longleftrightarrow>
     in_tx c' \<and> durable c' = durable c \<and> user_feed_schedules (work c') = user_feed_schedules (work c)
     \<and> user_source_schedules (work c') = user_source_schedules (work c)
     \<and> user_subscriptions (work c') = user_subscriptions (work c) \<and> source_catalog (work c') = source_catalog (work c)
     \<and> (queue_inv c \<longrightarrow> queue_inv c')"

lemma keeps_schedulesD:
  assumes "keeps_schedules c c'"
  shows "in_tx c'" "user_feed_schedules (work c') = user_feed_schedules (work c)"
    "user_source_schedules (work c') = user_source_schedules (work c)" "queue_inv c \<Longrightarrow> queue_inv c'"
    "durable c' = durable c"
  using assms by (simp_all add: keeps_schedules_def)

lemma keeps_schedules_refl: "in_tx c \<Longrightarrow> keeps_schedules c c"
  by (simp add: keeps_schedules_def)

lemma keeps_schedules_trans: "keeps_schedules a b \<Longrightarrow> keeps_schedules b c \<Longrightarrow> keeps_schedules a c"
  by (simp add: keeps_schedules_def)

lemma record_usage_keeps:
  "record_usage_event w u t q p m False c = (r, c') \<Longrightarrow> keeps_schedules c c'"
  by (auto simp: record_usage_event_def keeps_schedules_def insert_usage_def new_uuid_def Let_def
      queue_inv_def conn_ok_def split: sum.splits if_splits)

lemma record_reject_keeps:
  "record_quota_reject w u q p False c = (r, c') \<Longrightarrow> keeps_schedules c c'"
  unfolding record_quota_reject_def by (rule record_usage_keeps)

lemma record_job_keeps: "record_job_usage w u t False c = (r, c') \<Longrightarrow> keeps_schedules c c'"
  unfolding record_job_usage_def by (rule record_usage_keeps)

lemma queue_body_schedules:
  "user_feed_schedules (snd (feed_refresh_body jid now a d)) = user_feed_schedules d"
  "user_source_schedules (snd (feed_refresh_body jid now a d)) = user_source_schedules d"
  "user_feed_schedules (snd (source_fetch_body jid now s b a d)) = user_feed_schedules d"
  "user_source_schedules (snd (source_fetch_body jid now s b a d)) = user_source_schedules d"
  "user_subscriptions (snd (feed_refresh_body jid now a d)) = user_subscriptions d"
  "source_catalog (snd (feed_refresh_body jid now a d)) = source_catalog d"
  "user_subscriptions (snd (source_fetch_body jid now s b a d)) = user_subscriptions d"
  "source_catalog (snd (source_fetch_body jid now s b a d)) = source_catalog d"
  by (auto simp: feed_refresh_body_def source_fetch_body_def insert_job_Inr Let_def
      split: option.split sum.split)

lemma create_feed_keeps:
  assumes "in_tx c" "create_user_feed_refresh_if_absent a c = (r, c')"
  shows "keeps_schedules c c'"
proof -
  have "queue_inv c \<Longrightarrow> queue_inv c'"
    using op_step_keeps op_step_create_feed assms(2) by (metis queue_inv_def snd_conv)
  then show ?thesis
    using assms by (auto simp: keeps_schedules_def create_user_feed_refresh_if_absent_def new_uuid_def
        owned_transaction_nested queue_body_schedules)
qed

lemma create_fetch_keeps:
  assumes "in_tx c" "create_source_fetch_if_absent s b a c = (r, c')"
  shows "keeps_schedules c c'"
proof -
  have "queue_inv c \<Longrightarrow> queue_inv c'"
    using op_step_keeps op_step_create_fetch assms(2) by (metis queue_inv_def snd_conv)
  then show ?thesis
    using assms by (auto simp: keeps_schedules_def create_source_fetch_if_absent_def new_uuid_def
        owned_transaction_nested queue_body_schedules)
qed

text \<open>Disabling a schedule cancels the queued jobs it created.\<close>

definition cancel_queued :: "time \<Rightarrow> (job \<Rightarrow> bool) \<Rightarrow> db \<Rightarrow> db" where
  "cancel_queued now P d = update_jobs (\<lambda>j. P j \<and> j_status j = Queued) (cancelled_while_queued now) d"

lemma cancel_queued_keeps: "jobs_ok (fetch_jobs d) \<Longrightarrow> jobs_ok (fetch_jobs (cancel_queued now P d))"
  unfolding cancel_queued_def fetch_jobs_update_jobs
  by (erule jobs_ok_rewrite [OF _ moves_cancelled_while_queued]) simp

lemma cancel_queued_none_left:
  "j \<in> set (fetch_jobs (cancel_queued now P d)) \<Longrightarrow> j_status j = Queued \<Longrightarrow> \<not> P j"
  by (auto simp: cancel_queued_def table_simps cancelled_while_queued_def)

lemma cancel_queued_tables [simp]:
  "user_feed_schedules (cancel_queued now P d) = user_feed_schedules d"
  "user_source_schedules (cancel_queued now P d) = user_source_schedules d"
  "user_subscriptions (cancel_queued now P d) = user_subscriptions d" "source_catalog (cancel_queued now P d) = source_catalog d"
  by (simp_all add: cancel_queued_def update_jobs_def)

lemma queue_inv_dml:
  "queue_inv c \<Longrightarrow> (jobs_ok (fetch_jobs (work c)) \<Longrightarrow> jobs_ok (fetch_jobs (f (work c)))) \<Longrightarrow>
   queue_inv (dml f c)"
  by (simp add: queue_inv_def)

lemma owning_new_Inr:
  "\<not> in_tx c \<Longrightarrow> owning body c = (Inr x, c') \<Longrightarrow>
   \<exists>c1. body (c\<lparr>in_tx := True\<rparr>) = (Inr x, c1) \<and> c' = commit c1"
  by (auto simp: owning_def split: prod.splits sum.splits)

lemma owning_new_Inl:
  assumes "\<not> in_tx c" "owning body c = (Inl e, c')"
    and "\<And>c. in_tx c \<Longrightarrow> in_tx (snd (body c)) \<and> durable (snd (body c)) = durable c"
  shows "durable c' = durable c \<and> work c' = durable c \<and> \<not> in_tx c'"
  using assms(1,2) assms(3) [of "c\<lparr>in_tx := True\<rparr>"]
  by (auto simp: owning_def rollback_if_open_def split: prod.splits sum.splits)

lemma owning_queue_inv:
  assumes "queue_inv c" "\<And>c. in_tx c \<Longrightarrow> queue_inv c \<Longrightarrow> queue_inv (snd (body c))"
  shows "queue_inv (snd (owning body c))"
proof (cases "in_tx c")
  case True
  then show ?thesis using assms by (simp add: owning_def)
next
  case False
  have "queue_inv (c\<lparr>in_tx := True\<rparr>)" using assms(1) by (simp add: queue_inv_def conn_ok_def)
  with assms(2) [of "c\<lparr>in_tx := True\<rparr>"] have "queue_inv (snd (body (c\<lparr>in_tx := True\<rparr>)))" by simp
  then show ?thesis using False
    by (auto simp: owning_def queue_inv_def rollback_if_open_def conn_ok_def split: sum.splits prod.splits)
qed

definition reported :: "schedule_report \<Rightarrow> schedule_report \<Rightarrow> bool" where
  "reported r r' \<longleftrightarrow>
     (counters_agree r \<longrightarrow> counters_agree r' \<and> sr_evaluated r' = Suc (sr_evaluated r))"

lemma reported_outcome: "reported r (add_outcome k a reason jid (count_action a r))"
  by (cases a) (auto simp: reported_def counters_agree_def add_outcome_def count_action_def)

subsection \<open>The interface of a scheduler\<close>

locale due_scheduler =
  fixes table :: "db \<Rightarrow> 'row list" and key :: "'row \<Rightarrow> string" and due :: "time \<Rightarrow> 'row \<Rightarrow> bool"
    and intervals_ok :: "'row \<Rightarrow> bool"
    and step :: "time \<Rightarrow> 'row \<Rightarrow> schedule_report \<Rightarrow> conn \<Rightarrow> (conn, schedule_report) outcome"
  assumes counted: "in_tx c \<Longrightarrow> step now row r c = (Inr r', c') \<Longrightarrow> counters_agree r \<Longrightarrow>
      counters_agree r' \<and> sr_evaluated r' = Suc (sr_evaluated r)"
    and postponed: "in_tx c \<Longrightarrow> intervals_ok row \<Longrightarrow> step now row r c = (Inr r', c') \<Longrightarrow>
      x \<in> set (table (work c')) \<Longrightarrow> key x = key row \<Longrightarrow> \<not> due now x"
    and only_this: "in_tx c \<Longrightarrow> step now row r c = (Inr r', c') \<Longrightarrow> x \<in> set (table (work c')) \<Longrightarrow>
      key x \<noteq> key row \<Longrightarrow> x \<in> set (table (work c))"
    and keeps_tx: "in_tx c \<Longrightarrow> in_tx (snd (step now row r c)) \<and> durable (snd (step now row r c)) = durable c"
    and keeps_queue: "in_tx c \<Longrightarrow> queue_inv c \<Longrightarrow> queue_inv (snd (step now row r c))"
begin

lemma run_counts:
  "run_rows (step now) rows r c = (Inr r', c') \<Longrightarrow> in_tx c \<Longrightarrow> counters_agree r \<Longrightarrow>
   counters_agree r' \<and> sr_evaluated r' = sr_evaluated r + length rows"
proof (induction rows arbitrary: r c)
  case (Cons row rows)
  obtain r1 c1 where s: "step now row r c = (Inr r1, c1)" "run_rows (step now) rows r1 c1 = (Inr r', c')"
    using Cons.prems(1) by (auto split: prod.splits sum.splits)
  have "in_tx c1" using keeps_tx [OF Cons.prems(2), of now row r] s(1) by simp
  then show ?case using Cons.IH [OF s(2)] counted [OF Cons.prems(2) s(1) Cons.prems(3)] by simp
qed simp

lemma run_only_these:
  "run_rows (step now) rows r c = (Inr r', c') \<Longrightarrow> in_tx c \<Longrightarrow> x \<in> set (table (work c')) \<Longrightarrow>
   key x \<notin> key ` set rows \<Longrightarrow> x \<in> set (table (work c))"
proof (induction rows arbitrary: r c)
  case (Cons row rows)
  obtain r1 c1 where s: "step now row r c = (Inr r1, c1)" "run_rows (step now) rows r1 c1 = (Inr r', c')"
    using Cons.prems(1) by (auto split: prod.splits sum.splits)
  have "in_tx c1" using keeps_tx [OF Cons.prems(2), of now row r] s(1) by simp
  with Cons.IH [OF s(2)] Cons.prems(3,4) have "x \<in> set (table (work c1))" by simp
  with only_this [OF Cons.prems(2) s(1)] Cons.prems(4) show ?case by simp
qed simp

lemma run_postpones:
  "run_rows (step now) rows r c = (Inr r', c') \<Longrightarrow> in_tx c \<Longrightarrow> \<forall>row \<in> set rows. intervals_ok row \<Longrightarrow>
   x \<in> set (table (work c')) \<Longrightarrow> key x \<in> key ` set rows \<Longrightarrow> \<not> due now x"
proof (induction rows arbitrary: r c)
  case (Cons row rows)
  obtain r1 c1 where s: "step now row r c = (Inr r1, c1)" "run_rows (step now) rows r1 c1 = (Inr r', c')"
    using Cons.prems(1) by (auto split: prod.splits sum.splits)
  have tx: "in_tx c1" using keeps_tx [OF Cons.prems(2), of now row r] s(1) by simp
  show ?case
  proof (cases "key x \<in> key ` set rows")
    case True
    then show ?thesis using Cons.IH [OF s(2) tx] Cons.prems(3,4) by simp
  next
    case False
    then have "x \<in> set (table (work c1))" using run_only_these [OF s(2) tx Cons.prems(4)] by simp
    moreover have "key x = key row" using False Cons.prems(5) by simp
    ultimately show ?thesis using postponed [OF Cons.prems(2) _ s(1)] Cons.prems(3) by simp
  qed
qed simp

lemma run_keeps_durable:
  "in_tx c \<Longrightarrow> in_tx (snd (run_rows (step now) rows r c))
   \<and> durable (snd (run_rows (step now) rows r c)) = durable c"
proof (induction rows arbitrary: r c)
  case (Cons row rows)
  then show ?case using keeps_tx [of c now row r] by (auto split: prod.splits sum.splits)
qed simp

lemma run_keeps_queue:
  "in_tx c \<Longrightarrow> queue_inv c \<Longrightarrow> queue_inv (snd (run_rows (step now) rows r c))"
proof (induction rows arbitrary: r c)
  case (Cons row rows)
  then show ?case
    using keeps_tx [of c now row r] keeps_queue [of c now row r]
    by (auto split: prod.splits sum.splits)
qed simp

end

end
