(* ===== verification/FeedSchedule.thy ===== *)
theory FeedSchedule
  imports Schedules
begin

section \<open>Automatic full refreshes of a user's feed\<close>

text \<open>
  \<open>src/src/services/feed_schedule.py\<close>: one schedule per user, its update rules, and the
  scheduler that turns due schedules into \<open>user_feed_refresh\<close> jobs, each evaluated inside one
  transaction.  Whether a storage migration is still required, which the code asks of other
  parts of the store, is the argument \<open>migration\<close>.
\<close>

subsection \<open>Reading a schedule\<close>

definition ALLOWED_INTERVALS :: "int list" where
  "ALLOWED_INTERVALS = [60, 180, 360, 720, 1440]"

definition DEFAULT_INTERVAL_MINUTES :: int where
  "DEFAULT_INTERVAL_MINUTES = 360"

definition feed_schedule_view :: "feed_schedule \<Rightarrow> feed_schedule" where
  "feed_schedule_view f =
     f\<lparr>fs_interval_minutes :=
         (if fs_interval_minutes f = 0 then DEFAULT_INTERVAL_MINUTES else fs_interval_minutes f)\<rparr>"

definition user_in_workspace :: "string option \<Rightarrow> string \<Rightarrow> db \<Rightarrow> exn + user" where
  "user_in_workspace w u d =
     (case get_user u d of
        None \<Rightarrow> Inl (LookupError ''user not found'')
      | Some user \<Rightarrow>
         if w \<noteq> None \<and> w \<noteq> Some (u_workspace_id user)
         then Inl (LookupError ''user not found in workspace'') else Inr user)"

definition default_feed_schedule :: "string \<Rightarrow> string \<Rightarrow> feed_schedule" where
  "default_feed_schedule u w =
     \<lparr>fs_user_id = u, fs_workspace_id = w, fs_enabled = False,
      fs_interval_minutes = DEFAULT_INTERVAL_MINUTES, fs_next_run_at = None,
      fs_last_evaluated_at = None, fs_last_enqueued_at = None, fs_last_job_id = None,
      fs_last_skip_reason = None, fs_created_at = None, fs_updated_at = None\<rparr>"

definition get_user_schedule :: "string option \<Rightarrow> string \<Rightarrow> db \<Rightarrow> exn + feed_schedule" where
  "get_user_schedule w u d =
     (case user_in_workspace w u d of
        Inl e \<Rightarrow> Inl e
      | Inr user \<Rightarrow>
         (case find (\<lambda>f. fs_user_id f = u \<and> fs_workspace_id f = u_workspace_id user)
                 (user_feed_schedules d) of
            Some f \<Rightarrow> Inr (feed_schedule_view f)
          | None \<Rightarrow> Inr (default_feed_schedule u (u_workspace_id user))))"

definition has_enabled_subscriptions :: "string \<Rightarrow> string \<Rightarrow> db \<Rightarrow> bool" where
  "has_enabled_subscriptions w u d = has_enabled_user_subscriptions w u False AllSources d"

definition has_global_subscriptions :: "string \<Rightarrow> string \<Rightarrow> db \<Rightarrow> bool" where
  "has_global_subscriptions w u d = has_enabled_user_subscriptions w u True AllSources d"

subsection \<open>Updating a schedule\<close>

definition scheduled_refresh_of :: "string \<Rightarrow> string \<Rightarrow> job \<Rightarrow> bool" where
  "scheduled_refresh_of w u j \<longleftrightarrow>
     j_workspace_id j = w \<and> j_user_id j = u \<and> j_job_type j = ''user_feed_refresh''
     \<and> has_reason SCHEDULED_REFRESH_REASON j"

definition next_run_after_update ::
  "time \<Rightarrow> bool \<Rightarrow> int \<Rightarrow> (bool \<times> int \<times> time option) option \<Rightarrow> time option" where
  "next_run_after_update now target_enabled target_interval current =
     (if \<not> target_enabled then None
      else (case current of
              None \<Rightarrow> Some now
            | Some (current_enabled, current_interval, next_run) \<Rightarrow>
               if \<not> current_enabled then Some now
               else if target_interval \<noteq> current_interval then Some (now + minutes target_interval)
               else (case next_run of None \<Rightarrow> Some now | Some t \<Rightarrow> Some t)))"

definition insert_feed_schedule :: "feed_schedule \<Rightarrow> db \<Rightarrow> exn + db" where
  "insert_feed_schedule f d =
     (if fs_user_id f \<in> fs_user_id ` set (user_feed_schedules d)
         \<or> fs_user_id f \<notin> u_id ` set (users d) \<or> fs_workspace_id f \<notin> set (workspaces d)
      then Inl IntegrityError else Inr (d\<lparr>user_feed_schedules := user_feed_schedules d @ [f]\<rparr>))"

definition write_feed_schedule ::
  "string \<Rightarrow> string \<Rightarrow> bool \<Rightarrow> int \<Rightarrow> time option \<Rightarrow> time \<Rightarrow> bool \<Rightarrow> db \<Rightarrow> exn + db" where
  "write_feed_schedule w u target_enabled target_interval next_run now exists d =
     (if exists
      then Inr (d\<lparr>user_feed_schedules := update_where (\<lambda>f. fs_user_id f = u \<and> fs_workspace_id f = w)
             (\<lambda>f. f\<lparr>fs_enabled := target_enabled, fs_interval_minutes := target_interval,
                    fs_next_run_at := next_run, fs_updated_at := Some now\<rparr>)
             (user_feed_schedules d)\<rparr>)
      else insert_feed_schedule
             ((default_feed_schedule u w)\<lparr>fs_enabled := target_enabled,
                fs_interval_minutes := target_interval, fs_next_run_at := next_run,
                fs_created_at := Some now, fs_updated_at := Some now\<rparr>) d)"

definition update_feed_body ::
  "string \<Rightarrow> string \<Rightarrow> bool option \<Rightarrow> int option \<Rightarrow> time \<Rightarrow> db \<Rightarrow> (db, unit) outcome" where
  "update_feed_body w u enabled interval_minutes now d =
     (let current = map_option feed_schedule_view (lookup_row fs_user_id u (user_feed_schedules d));
          current_enabled = (case current of None \<Rightarrow> False | Some f \<Rightarrow> fs_enabled f);
          target_enabled = (case enabled of None \<Rightarrow> current_enabled | Some b \<Rightarrow> b);
          target_interval = (case interval_minutes of Some n \<Rightarrow> n
            | None \<Rightarrow> (case current of None \<Rightarrow> DEFAULT_INTERVAL_MINUTES | Some f \<Rightarrow> fs_interval_minutes f));
          next_run = next_run_after_update now target_enabled target_interval
            (map_option (\<lambda>f. (fs_enabled f, fs_interval_minutes f, fs_next_run_at f)) current)
      in if target_enabled \<and> \<not> current_enabled \<and> \<not> has_enabled_subscriptions w u d
         then Raise (NoEnabledSubscriptions
                ''automatic feed refresh requires an enabled subscription'') d
         else (case write_feed_schedule w u target_enabled target_interval next_run now
                      (current \<noteq> None) d of
                 Inl e \<Rightarrow> Raise e d
               | Inr d' \<Rightarrow>
                  Return () (if target_enabled then d'
                             else cancel_queued now (scheduled_refresh_of w u) d')))"

definition update_user_schedule ::
  "string \<Rightarrow> string option \<Rightarrow> bool option \<Rightarrow> int option \<Rightarrow> time option \<Rightarrow> conn
   \<Rightarrow> (conn, feed_schedule) outcome" where
  "update_user_schedule u w enabled interval_minutes at c =
     (if (case interval_minutes of None \<Rightarrow> False | Some n \<Rightarrow> n \<notin> set ALLOWED_INTERVALS)
      then Raise (ValueError ''interval_minutes must be one of 60, 180, 360, 720, 1440'') c
      else (case user_in_workspace w u (work c) of
              Inl e \<Rightarrow> Raise e c
            | Inr user \<Rightarrow>
               (let now = (case at of None \<Rightarrow> clock c | Some t \<Rightarrow> t)
                in case owned_transaction
                          (update_feed_body (u_workspace_id user) u enabled interval_minutes now) c of
                     (Inl e, c') \<Rightarrow> Raise e c'
                   | (Inr _, c') \<Rightarrow>
                      (get_user_schedule (Some (u_workspace_id user)) u (work c'), c'))))"

subsection \<open>Evaluating due schedules\<close>

definition feed_skipped ::
  "time \<Rightarrow> time \<Rightarrow> string \<Rightarrow> string option \<Rightarrow> feed_schedule \<Rightarrow> feed_schedule" where
  "feed_skipped now next_run reason jid f =
     f\<lparr>fs_next_run_at := Some next_run, fs_last_evaluated_at := Some now,
       fs_last_job_id := keep_or jid (fs_last_job_id f), fs_last_skip_reason := Some reason,
       fs_updated_at := Some now\<rparr>"

definition update_enabled_feed ::
  "string \<Rightarrow> (feed_schedule \<Rightarrow> feed_schedule) \<Rightarrow> db \<Rightarrow> db" where
  "update_enabled_feed u f d =
     d\<lparr>user_feed_schedules :=
         update_where (\<lambda>x. fs_user_id x = u \<and> fs_enabled x) f (user_feed_schedules d)\<rparr>"

definition record_feed_skip ::
  "feed_schedule \<Rightarrow> time \<Rightarrow> time \<Rightarrow> string \<Rightarrow> string option \<Rightarrow> conn \<Rightarrow> conn" where
  "record_feed_skip s now next_run reason jid =
     dml (update_enabled_feed (fs_user_id s) (feed_skipped now next_run reason jid))"

definition append_feed_skip :: "schedule_report \<Rightarrow> feed_schedule \<Rightarrow> string \<Rightarrow> schedule_report" where
  "append_feed_skip r s reason =
     add_outcome (fs_user_id s) Skipped (Some reason) None (count_action Skipped r)"

definition skip_feed ::
  "feed_schedule \<Rightarrow> time \<Rightarrow> time \<Rightarrow> string \<Rightarrow> schedule_report \<Rightarrow> conn \<Rightarrow> (conn, schedule_report) outcome" where
  "skip_feed s now next_run reason r c =
     Return (append_feed_skip r s reason) (record_feed_skip s now next_run reason None c)"

definition feed_disabled :: "time \<Rightarrow> feed_schedule \<Rightarrow> feed_schedule" where
  "feed_disabled now f =
     f\<lparr>fs_enabled := False, fs_next_run_at := None, fs_last_evaluated_at := Some now,
       fs_last_skip_reason := Some ''user_read_only'', fs_updated_at := Some now\<rparr>"

definition disable_read_only_schedule :: "feed_schedule \<Rightarrow> time \<Rightarrow> conn \<Rightarrow> conn" where
  "disable_read_only_schedule s now c =
     dml (cancel_queued now (scheduled_refresh_of (fs_workspace_id s) (fs_user_id s)))
       (dml (update_enabled_feed (fs_user_id s) (feed_disabled now)) c)"

definition deduplicate_feed ::
  "feed_schedule \<Rightarrow> time \<Rightarrow> time \<Rightarrow> job \<Rightarrow> schedule_report \<Rightarrow> conn \<Rightarrow> (conn, schedule_report) outcome" where
  "deduplicate_feed s now next_run j r c =
     Return (add_outcome (fs_user_id s) Deduplicated (Some ''active_user_feed_refresh'')
               (Some (j_id j)) (count_action Deduplicated r))
       (record_feed_skip s now next_run ''active_user_feed_refresh'' (Some (j_id j)) c)"

definition feed_enqueued :: "time \<Rightarrow> time \<Rightarrow> string \<Rightarrow> feed_schedule \<Rightarrow> feed_schedule" where
  "feed_enqueued now next_run jid f =
     f\<lparr>fs_next_run_at := Some next_run, fs_last_evaluated_at := Some now,
       fs_last_enqueued_at := Some now, fs_last_job_id := Some jid, fs_last_skip_reason := None,
       fs_updated_at := Some now\<rparr>"

definition scheduled_refresh_args :: "feed_schedule \<Rightarrow> int \<Rightarrow> int \<Rightarrow> job_args" where
  "scheduled_refresh_args s max_attempts retention =
     \<lparr>ja_workspace_id = fs_workspace_id s, ja_user_id = fs_user_id s,
      ja_job_type = ''user_feed_refresh'',
      ja_payload = Some [(''reason'', JStr SCHEDULED_REFRESH_REASON)],
      ja_source_id = None, ja_subscription_id = None, ja_priority = -10,
      ja_max_attempts = max_attempts, ja_delay = 0, ja_retention_days = Some retention\<rparr>"

definition enqueue_feed ::
  "(string \<Rightarrow> string option) \<Rightarrow> schedule_service \<Rightarrow> time \<Rightarrow> time \<Rightarrow> feed_schedule
   \<Rightarrow> schedule_report \<Rightarrow> conn \<Rightarrow> (conn, schedule_report) outcome" where
  "enqueue_feed env sv now next_run s r c =
     (let w = fs_workspace_id s; u = fs_user_id s
      in case job_setting env (sv_max_attempts sv) w ''jobs.max_attempts'' (work c) of
           Inl e \<Rightarrow> Raise e c
         | Inr max_attempts \<Rightarrow>
        (case job_setting env (sv_retention_days sv) w ''jobs.retention_days'' (work c) of
           Inl e \<Rightarrow> Raise e c
         | Inr retention \<Rightarrow>
        (case create_user_feed_refresh_if_absent (scheduled_refresh_args s max_attempts retention) c of
           (Inl e, c') \<Rightarrow> Raise e c'
         | (Inr (j, created), c') \<Rightarrow>
            if \<not> created then deduplicate_feed s now next_run j r c'
            else (case record_job_usage w u ''user_feed_refresh'' False c' of
                    (Inl e, c'') \<Rightarrow> Raise e c''
                  | (Inr _, c'') \<Rightarrow>
                     Return (add_outcome u Enqueued (Some SCHEDULED_REFRESH_REASON) (Some (j_id j))
                               (count_action Enqueued r))
                       (dml (update_enabled_feed u (feed_enqueued now next_run (j_id j))) c'')))))"

definition admit_feed ::
  "(string \<Rightarrow> string option) \<Rightarrow> schedule_service \<Rightarrow> time \<Rightarrow> time \<Rightarrow> feed_schedule
   \<Rightarrow> schedule_report \<Rightarrow> conn \<Rightarrow> (conn, schedule_report) outcome" where
  "admit_feed env sv now next_run s r c =
     (let w = fs_workspace_id s; u = fs_user_id s
      in case ensure_job_allowed env (sv_quota sv) w u (today_start now) (work c) of
           Inr _ \<Rightarrow> enqueue_feed env sv now next_run s r c
         | Inl (QuotaExceeded _) \<Rightarrow>
            (case record_quota_reject w u ''fetch_job'' None False c of
               (Inl e, c') \<Rightarrow> Raise e c'
             | (Inr _, c') \<Rightarrow> skip_feed s now next_run ''quota_exceeded'' r c')
         | Inl e \<Rightarrow> Raise e c)"

definition active_source_fetch_of :: "string \<Rightarrow> string \<Rightarrow> job \<Rightarrow> bool" where
  "active_source_fetch_of w u j \<longleftrightarrow>
     j_workspace_id j = w \<and> j_user_id j = u \<and> j_job_type j = ''source_fetch'' \<and> is_active j"

definition feed_step ::
  "(string \<Rightarrow> string option) \<Rightarrow> schedule_service \<Rightarrow> bool \<Rightarrow> time \<Rightarrow> feed_schedule
   \<Rightarrow> schedule_report \<Rightarrow> conn \<Rightarrow> (conn, schedule_report) outcome" where
  "feed_step env sv migration now raw r c =
     (let s = feed_schedule_view raw; w = fs_workspace_id s; u = fs_user_id s; d = work c;
          interval_next = now + minutes (fs_interval_minutes s);
          soon = now + minutes 5
      in if migration then skip_feed s now soon ''migration_required'' r c
         else
        (case get_user u d of
           None \<Rightarrow> skip_feed s now interval_next ''user_disabled'' r c
         | Some user \<Rightarrow>
            if \<not> u_enabled user then skip_feed s now interval_next ''user_disabled'' r c
            else if u_role user = ''viewer'' then
              Return (append_feed_skip r s ''user_read_only'') (disable_read_only_schedule s now c)
            else if \<not> has_enabled_subscriptions w u d then
              skip_feed s now interval_next ''no_enabled_subscriptions'' r c
            else if \<not> has_global_subscriptions w u d then
              skip_feed s now interval_next ''no_global_subscriptions'' r c
            else
           (case first_by active_order (active_feed_for (w, u)) (fetch_jobs d) of
              Some j \<Rightarrow> deduplicate_feed s now interval_next j r c
            | None \<Rightarrow>
               if list_ex (active_source_fetch_of w u) (fetch_jobs d)
               then skip_feed s now soon ''active_source_fetch'' r c
               else admit_feed env sv now interval_next s r c)))"

definition enqueue_due_feeds ::
  "(string \<Rightarrow> string option) \<Rightarrow> schedule_service \<Rightarrow> bool \<Rightarrow> time option \<Rightarrow> int \<Rightarrow> conn
   \<Rightarrow> (conn, schedule_report) outcome" where
  "enqueue_due_feeds env sv migration at limit c =
     (let now = (case at of None \<Rightarrow> clock c | Some t \<Rightarrow> t)
      in if limit \<le> 0 then Return empty_report c
         else owning (\<lambda>c.
           case due_feed_schedule_rows env now (nat limit) (work c) of
             Inl e \<Rightarrow> Raise e c
           | Inr rows \<Rightarrow> run_rows (feed_step env sv migration now) rows empty_report c) c)"

subsection \<open>The promise of one step\<close>

definition feed_interval_ok :: "feed_schedule \<Rightarrow> bool" where
  "feed_interval_ok f \<longleftrightarrow> fs_interval_minutes f \<in> set ALLOWED_INTERVALS"

text \<open>What a step does to the table: the enabled rows of one user are rewritten by \<open>f\<close>.\<close>

definition feed_write :: "time \<Rightarrow> feed_schedule \<Rightarrow> (feed_schedule \<Rightarrow> feed_schedule) \<Rightarrow> bool" where
  "feed_write now s f \<longleftrightarrow>
     (\<forall>x. fs_user_id (f x) = fs_user_id x \<and> fs_workspace_id (f x) = fs_workspace_id x
        \<and> fs_interval_minutes (f x) = fs_interval_minutes x
        \<and> (fs_enabled x \<longrightarrow> (fs_enabled (f x) \<longleftrightarrow> fs_next_run_at (f x) \<noteq> None))
        \<and> (feed_interval_ok s \<longrightarrow> \<not> feed_due now (f x)))"

definition feed_effect :: "time \<Rightarrow> feed_schedule \<Rightarrow> conn \<Rightarrow> conn \<Rightarrow> bool" where
  "feed_effect now s c c' \<longleftrightarrow>
     (\<exists>f. feed_write now s f \<and>
        user_feed_schedules (work c') =
          update_where (\<lambda>x. fs_user_id x = fs_user_id s \<and> fs_enabled x) f (user_feed_schedules (work c)))"

lemma later_minutes: "feed_interval_ok s \<Longrightarrow> now < now + minutes (fs_interval_minutes (feed_schedule_view s))"
  by (auto simp: feed_interval_ok_def ALLOWED_INTERVALS_def feed_schedule_view_def minutes_def seconds_def)

lemma feed_write_skipped: "(feed_interval_ok s \<Longrightarrow> now < t) \<Longrightarrow> feed_write now s (feed_skipped now t reason jid)"
  by (auto simp: feed_write_def feed_skipped_def feed_due_def is_due_def)

lemma feed_write_enqueued: "(feed_interval_ok s \<Longrightarrow> now < t) \<Longrightarrow> feed_write now s (feed_enqueued now t jid)"
  by (auto simp: feed_write_def feed_enqueued_def feed_due_def is_due_def)

lemma feed_write_disabled: "feed_write now s (feed_disabled now)"
  by (auto simp: feed_write_def feed_disabled_def feed_due_def is_due_def)

lemma feed_view_key [simp]:
  "fs_user_id (feed_schedule_view s) = fs_user_id s"
  "fs_workspace_id (feed_schedule_view s) = fs_workspace_id s"
  by (simp_all add: feed_schedule_view_def)

definition feed_post ::
  "time \<Rightarrow> feed_schedule \<Rightarrow> schedule_report \<Rightarrow> conn \<Rightarrow> (conn, schedule_report) outcome \<Rightarrow> bool" where
  "feed_post now s r c out \<longleftrightarrow>
     in_tx (snd out) \<and> durable (snd out) = durable c \<and> (queue_inv c \<longrightarrow> queue_inv (snd out))
     \<and> (case fst out of Inl _ \<Rightarrow> True | Inr r' \<Rightarrow> reported r r' \<and> feed_effect now s c (snd out))"

lemma feed_post_raise: "keeps_schedules c c' \<Longrightarrow> feed_post now s r c (Inl e, c')"
  by (simp add: feed_post_def keeps_schedules_def)

lemma feed_post_write:
  assumes "keeps_schedules c c'" "feed_write now s f" "reported r r'"
  shows "feed_post now s r c (Inr r', dml (update_enabled_feed (fs_user_id s) f) c')"
  using assms
  by (auto simp: feed_post_def feed_effect_def update_enabled_feed_def keeps_schedules_def
      queue_inv_dml)

lemma feed_post_skip:
  "keeps_schedules c c' \<Longrightarrow> (feed_interval_ok s \<Longrightarrow> now < t) \<Longrightarrow>
   feed_post now s r c (skip_feed (feed_schedule_view s) now t reason r c')"
  unfolding skip_feed_def record_feed_skip_def append_feed_skip_def feed_view_key
  by (intro feed_post_write feed_write_skipped reported_outcome) auto

lemma feed_post_dedup:
  "keeps_schedules c c' \<Longrightarrow> (feed_interval_ok s \<Longrightarrow> now < t) \<Longrightarrow>
   feed_post now s r c (deduplicate_feed (feed_schedule_view s) now t j r c')"
  unfolding deduplicate_feed_def record_feed_skip_def feed_view_key
  by (intro feed_post_write feed_write_skipped reported_outcome) auto

lemma feed_post_disable:
  assumes "in_tx c"
  shows "feed_post now s r c
    (Inr (append_feed_skip r (feed_schedule_view s) ''user_read_only''),
     disable_read_only_schedule (feed_schedule_view s) now c)"
proof -
  let ?c = "dml (update_enabled_feed (fs_user_id s) (feed_disabled now)) c"
  have "feed_post now s r c (Inr (append_feed_skip r (feed_schedule_view s) ''user_read_only''), ?c)"
    unfolding append_feed_skip_def
    by (intro feed_post_write feed_write_disabled reported_outcome keeps_schedules_refl assms)
  then show ?thesis
    by (auto simp: feed_post_def disable_read_only_schedule_def feed_effect_def cancel_queued_keeps
        intro: queue_inv_dml)
qed

lemma feed_post_enqueue:
  assumes "keeps_schedules c c'" "feed_interval_ok s \<Longrightarrow> now < t"
  shows "feed_post now s r c (enqueue_feed env sv now t (feed_schedule_view s) r c')"
proof -
  note tx = keeps_schedulesD(1) [OF assms(1)]
  note keep = keeps_schedules_trans [OF assms(1)]
  show ?thesis
    unfolding enqueue_feed_def Let_def
    by (auto split: sum.split prod.split
        intro!: feed_post_raise feed_post_dedup feed_post_write feed_write_enqueued reported_outcome
        intro: assms keep create_feed_keeps [OF tx] keeps_schedules_trans [OF create_feed_keeps [OF tx]]
          record_job_keeps)
qed

lemma feed_post_admit:
  assumes "in_tx c" "feed_interval_ok s \<Longrightarrow> now < t"
  shows "feed_post now s r c (admit_feed env sv now t (feed_schedule_view s) r c)"
  unfolding admit_feed_def Let_def
  by (auto split: sum.split prod.split exn.split
      intro!: feed_post_raise feed_post_skip feed_post_enqueue
      intro: assms keeps_schedules_refl record_reject_keeps)

lemma feed_step_post:
  assumes "in_tx c"
  shows "feed_post now s r c (feed_step env sv migration now s r c)"
  unfolding feed_step_def Let_def
  using feed_post_disable [OF assms] feed_post_admit [OF assms later_minutes]
  by (auto split: option.split simp: minutes_pos
      intro!: feed_post_skip feed_post_dedup keeps_schedules_refl assms later_minutes)

text \<open>The scheduler provides the interface.\<close>

lemma feed_step_Inr:
  assumes "in_tx c" "feed_step env sv migration now s r c = (Inr r', c')"
  shows "reported r r' \<and> feed_effect now s c c'"
  using feed_step_post [OF assms(1), of now s r env sv migration] assms(2) by (simp add: feed_post_def)

interpretation feed_runs: due_scheduler user_feed_schedules fs_user_id feed_due feed_interval_ok
  "feed_step env sv migration" for env sv migration
proof
  fix now s r c r' c' x
  show "in_tx c \<Longrightarrow> in_tx (snd (feed_step env sv migration now s r c))
      \<and> durable (snd (feed_step env sv migration now s r c)) = durable c"
    using feed_step_post by (simp add: feed_post_def)
  show "in_tx c \<Longrightarrow> queue_inv c \<Longrightarrow> queue_inv (snd (feed_step env sv migration now s r c))"
    using feed_step_post by (simp add: feed_post_def)
  show "in_tx c \<Longrightarrow> feed_step env sv migration now s r c = (Inr r', c') \<Longrightarrow> counters_agree r \<Longrightarrow>
      counters_agree r' \<and> sr_evaluated r' = Suc (sr_evaluated r)"
    using feed_step_Inr by (fastforce simp: reported_def)
  show "in_tx c \<Longrightarrow> feed_interval_ok s \<Longrightarrow> feed_step env sv migration now s r c = (Inr r', c') \<Longrightarrow>
      x \<in> set (user_feed_schedules (work c')) \<Longrightarrow> fs_user_id x = fs_user_id s \<Longrightarrow> \<not> feed_due now x"
    using feed_step_Inr
    by (fastforce simp: feed_effect_def feed_write_def table_simps feed_due_def is_due_def)
  show "in_tx c \<Longrightarrow> feed_step env sv migration now s r c = (Inr r', c') \<Longrightarrow>
      x \<in> set (user_feed_schedules (work c')) \<Longrightarrow> fs_user_id x \<noteq> fs_user_id s \<Longrightarrow>
      x \<in> set (user_feed_schedules (work c))"
    using feed_step_Inr by (fastforce simp: feed_effect_def feed_write_def table_simps)
qed


subsection \<open>Runs of the scheduler\<close>

lemma enqueue_due_feeds_Inr:
  assumes "\<not> in_tx c" "0 < limit" "enqueue_due_feeds env sv migration at limit c = (Inr r, c')"
  obtains rows c1 where
    "due_feed_schedule_rows env (case at of None \<Rightarrow> clock c | Some t \<Rightarrow> t) (nat limit) (work c) = Inr rows"
    "run_rows (feed_step env sv migration (case at of None \<Rightarrow> clock c | Some t \<Rightarrow> t)) rows empty_report
       (c\<lparr>in_tx := True\<rparr>) = (Inr r, c1)"
    "c' = commit c1"
  using assms(2,3) that
  by (auto simp: enqueue_due_feeds_def Let_def dest!: owning_new_Inr [OF assms(1)] split: sum.splits)

lemma enqueue_due_feeds_Inl:
  assumes "\<not> in_tx c" "enqueue_due_feeds env sv migration at limit c = (Inl e, c')"
  shows "durable c' = durable c \<and> work c' = durable c \<and> \<not> in_tx c'"
  using assms(2) unfolding enqueue_due_feeds_def Let_def
  by (auto split: if_splits sum.splits dest!: owning_new_Inl [OF assms(1)]
      simp: feed_runs.run_keeps_durable)

lemma due_feed_rows:
  "due_feed_schedule_rows env now n d = Inr rows \<Longrightarrow> x \<in> set rows \<Longrightarrow>
   x \<in> set (user_feed_schedules d) \<and> feed_due now x"
  by (auto simp: due_feed_schedule_rows_def split: sum.splits dest!: sort_take_rows)

lemma due_feed_rows_length:
  "due_feed_schedule_rows env now n d = Inr rows \<Longrightarrow> length rows \<le> n"
  by (auto simp: due_feed_schedule_rows_def split: sum.splits)

text \<open>Well-formed schedules: one per user, with an allowed interval, and an instant of the next run
  exactly when enabled.\<close>

definition feed_schedule_ok :: "feed_schedule \<Rightarrow> bool" where
  "feed_schedule_ok f \<longleftrightarrow> feed_interval_ok f \<and> (fs_enabled f \<longleftrightarrow> fs_next_run_at f \<noteq> None)"

definition feeds_ok :: "db \<Rightarrow> bool" where
  "feeds_ok d \<longleftrightarrow>
     distinct (map fs_user_id (user_feed_schedules d)) \<and> list_all feed_schedule_ok (user_feed_schedules d)"

lemma feeds_ok_write:
  assumes "feeds_ok d" "feed_effect now s c c'" "work c = d"
  shows "feeds_ok (work c')"
proof -
  obtain f where f: "feed_write now s f" and
    t: "user_feed_schedules (work c') =
      update_where (\<lambda>x. fs_user_id x = fs_user_id s \<and> fs_enabled x) f (user_feed_schedules d)"
    using assms(2,3) by (auto simp: feed_effect_def)
  have "map fs_user_id (user_feed_schedules (work c')) = map fs_user_id (user_feed_schedules d)"
    unfolding t by (rule map_update_where_keep) (use f in \<open>simp add: feed_write_def\<close>)
  moreover have "feed_schedule_ok x \<Longrightarrow> fs_enabled x \<Longrightarrow> feed_schedule_ok (f x)" for x
    using f by (simp add: feed_write_def feed_schedule_ok_def feed_interval_ok_def)
  ultimately show ?thesis
    using assms(1) by (auto simp: feeds_ok_def t list_all_iff table_simps)
qed

lemma feeds_ok_run:
  assumes "run_rows (feed_step env sv migration now) rows r c = (Inr r', c')" "in_tx c" "feeds_ok (work c)"
  shows "feeds_ok (work c')"
proof -
  have "in_tx c' \<and> feeds_ok (work c')"
  proof (rule run_rows_invariant [OF assms(1), where I = "\<lambda>c. in_tx c \<and> feeds_ok (work c)"])
    fix s r c r' c'
    assume c: "in_tx c \<and> feeds_ok (work c)" "feed_step env sv migration now s r c = (Inr r', c')"
    then have "in_tx c'" using feed_runs.keeps_tx [of c env sv migration now s r] by simp
    then show "in_tx c' \<and> feeds_ok (work c')"
      using feeds_ok_write [OF _ _ refl] feed_step_Inr [OF _ c(2)] c(1) by blast
  qed (use assms in simp)
  then show ?thesis ..
qed

lemma interval_of_view: "feed_schedule_ok f \<Longrightarrow> fs_interval_minutes (feed_schedule_view f) \<in> set ALLOWED_INTERVALS"
  by (auto simp: feed_schedule_ok_def feed_interval_ok_def feed_schedule_view_def ALLOWED_INTERVALS_def)

lemma next_run_iff: "next_run_after_update now b n cur \<noteq> None \<longleftrightarrow> b"
  by (auto simp: next_run_after_update_def split: option.split)

lemma write_feed_ok:
  assumes "feeds_ok d" "n \<in> set ALLOWED_INTERVALS" "nxt \<noteq> None \<longleftrightarrow> b"
    "write_feed_schedule w u b n nxt now ex d = Inr d'"
  shows "feeds_ok d'"
proof (cases ex)
  case True
  let ?f = "\<lambda>f :: feed_schedule. f\<lparr>fs_enabled := b, fs_interval_minutes := n, fs_next_run_at := nxt, fs_updated_at := Some now\<rparr>"
  have "feed_schedule_ok (?f x)" for x
    using assms(2,3) by (auto simp: feed_schedule_ok_def feed_interval_ok_def)
  moreover have "map fs_user_id (update_where P ?f rows) = map fs_user_id rows" for P rows
    by (rule map_update_where_keep) simp
  ultimately show ?thesis
    using assms(1,4) True by (auto simp: write_feed_schedule_def feeds_ok_def list_all_iff table_simps)
next
  case False
  then show ?thesis
    using assms by (auto simp: write_feed_schedule_def insert_feed_schedule_def feeds_ok_def
        feed_schedule_ok_def feed_interval_ok_def default_feed_schedule_def split: if_splits)
qed

lemma update_feed_body_ok:
  assumes "feeds_ok d" "case interval_minutes of None \<Rightarrow> True | Some n \<Rightarrow> n \<in> set ALLOWED_INTERVALS"
    "update_feed_body w u enabled interval_minutes now d = (Inr x, d')"
  shows "feeds_ok d'"
proof -
  let ?cur = "map_option feed_schedule_view (lookup_row fs_user_id u (user_feed_schedules d))"
  have "fs_interval_minutes f \<in> set ALLOWED_INTERVALS" if "?cur = Some f" for f
    using that assms(1) interval_of_view
    by (auto simp: feeds_ok_def list_all_iff dest!: lookup_row_SomeD)
  moreover have "DEFAULT_INTERVAL_MINUTES \<in> set ALLOWED_INTERVALS"
    by (simp add: DEFAULT_INTERVAL_MINUTES_def ALLOWED_INTERVALS_def)
  ultimately have n: "(case interval_minutes of Some n \<Rightarrow> n
      | None \<Rightarrow> (case ?cur of None \<Rightarrow> DEFAULT_INTERVAL_MINUTES | Some f \<Rightarrow> fs_interval_minutes f))
      \<in> set ALLOWED_INTERVALS"
    using assms(2) by (simp split: option.splits)
  have cancel: "feeds_ok (cancel_queued t P e) = feeds_ok e" for t P e by (simp add: feeds_ok_def)
  show ?thesis
    using assms(3) write_feed_ok [OF assms(1) n next_run_iff]
    unfolding update_feed_body_def Let_def
    by (auto split: if_splits sum.splits simp: cancel)
qed


lemma find_update_where_same:
  "(\<And>x. P x \<Longrightarrow> P (f x)) \<Longrightarrow> find P (update_where P f rows) = map_option f (find P rows)"
  by (induction rows) auto

lemma find_append_none: "find P rows = None \<Longrightarrow> P r \<Longrightarrow> find P (rows @ [r]) = Some r"
  by (induction rows) (auto split: if_splits)

lemma write_feed_row:
  assumes "write_feed_schedule w u b n nxt now ex d = Inr d'"
    and "ex \<longleftrightarrow> lookup_row fs_user_id u (user_feed_schedules d) \<noteq> None"
    and "\<forall>f \<in> set (user_feed_schedules d). fs_user_id f = u \<longrightarrow> fs_workspace_id f = w"
  shows "\<exists>f. find (\<lambda>f. fs_user_id f = u \<and> fs_workspace_id f = w) (user_feed_schedules d') = Some f
    \<and> fs_enabled f = b \<and> fs_interval_minutes f = n \<and> fs_next_run_at f = nxt \<and> users d' = users d"
proof (cases ex)
  case True
  let ?P = "\<lambda>f. fs_user_id f = u \<and> fs_workspace_id f = w"
  let ?f = "\<lambda>f :: feed_schedule. f\<lparr>fs_enabled := b, fs_interval_minutes := n, fs_next_run_at := nxt,
    fs_updated_at := Some now\<rparr>"
  obtain f where "f \<in> set (user_feed_schedules d)" "fs_user_id f = u"
    using True assms(2) by (auto dest!: lookup_row_SomeD)
  with assms(3) have "find ?P (user_feed_schedules d) \<noteq> None" by (auto simp: find_None_iff)
  then obtain g where "find ?P (user_feed_schedules d) = Some g" by blast
  then have "find ?P (update_where ?P ?f (user_feed_schedules d)) = Some (?f g)"
    by (subst find_update_where_same) auto
  then show ?thesis using assms(1) True by (auto simp: write_feed_schedule_def)
next
  case False
  then have "\<forall>f \<in> set (user_feed_schedules d). fs_user_id f \<noteq> u"
    using assms(2) by (auto simp: lookup_row_None_iff)
  then have "find (\<lambda>f. fs_user_id f = u \<and> fs_workspace_id f = w) (user_feed_schedules d) = None"
    by (auto simp: find_None_iff)
  then show ?thesis using assms(1) False
    by (auto simp: write_feed_schedule_def insert_feed_schedule_def default_feed_schedule_def
        find_append_none split: if_splits)
qed

lemma feed_body_effect:
  assumes "update_feed_body w u enabled interval_minutes now d = (Inr x, d')"
    and "\<forall>f \<in> set (user_feed_schedules d). fs_user_id f = u \<longrightarrow> fs_workspace_id f = w"
  shows "\<exists>f. find (\<lambda>f. fs_user_id f = u \<and> fs_workspace_id f = w) (user_feed_schedules d') = Some f
    \<and> users d' = users d \<and> (fs_enabled f \<longleftrightarrow> fs_next_run_at f \<noteq> None)
    \<and> (\<forall>b. enabled = Some b \<longrightarrow> fs_enabled f = b)
    \<and> (\<forall>n. interval_minutes = Some n \<longrightarrow> fs_interval_minutes f = n)
    \<and> (fs_enabled f \<or> (\<forall>j \<in> set (fetch_jobs d'). scheduled_refresh_of w u j \<longrightarrow> j_status j \<noteq> Queued))"
proof -
  let ?cur = "map_option feed_schedule_view (lookup_row fs_user_id u (user_feed_schedules d))"
  define b where "b = (case enabled of None \<Rightarrow> (case ?cur of None \<Rightarrow> False | Some f \<Rightarrow> fs_enabled f) | Some b \<Rightarrow> b)"
  define n where "n = (case interval_minutes of Some n \<Rightarrow> n
    | None \<Rightarrow> (case ?cur of None \<Rightarrow> DEFAULT_INTERVAL_MINUTES | Some f \<Rightarrow> fs_interval_minutes f))"
  define nxt where "nxt = next_run_after_update now b n
    (map_option (\<lambda>f. (fs_enabled f, fs_interval_minutes f, fs_next_run_at f)) ?cur)"
  obtain e where e: "write_feed_schedule w u b n nxt now (?cur \<noteq> None) d = Inr e"
    and d': "d' = (if b then e else cancel_queued now (scheduled_refresh_of w u) e)"
    using assms(1) unfolding update_feed_body_def Let_def b_def [symmetric] n_def [symmetric] nxt_def [symmetric]
    by (auto split: if_splits sum.splits)
  have ex: "(?cur \<noteq> None) = (lookup_row fs_user_id u (user_feed_schedules d) \<noteq> None)" by simp
  obtain f where f: "find (\<lambda>f. fs_user_id f = u \<and> fs_workspace_id f = w) (user_feed_schedules e) = Some f"
    "fs_enabled f = b" "fs_interval_minutes f = n" "fs_next_run_at f = nxt" "users e = users d"
    using write_feed_row [OF e ex assms(2)] by blast
  have u: "users (cancel_queued t P z) = users z" for t P z by (simp add: cancel_queued_def update_jobs_def)
  have "nxt \<noteq> None \<longleftrightarrow> b" unfolding nxt_def by (rule next_run_iff)
  moreover have "enabled = Some b' \<Longrightarrow> b = b'" "interval_minutes = Some n' \<Longrightarrow> n = n'" for b' n'
    by (simp_all add: b_def n_def)
  moreover have "\<not> b \<Longrightarrow> \<forall>j \<in> set (fetch_jobs d'). scheduled_refresh_of w u j \<longrightarrow> j_status j \<noteq> Queued"
    using cancel_queued_none_left [of _ now "scheduled_refresh_of w u" e] d' by auto
  ultimately show ?thesis using f d' u by (intro exI [of _ f]) auto
qed

lemma update_user_schedule_Inr:
  assumes "\<not> in_tx c" "update_user_schedule u w enabled interval_minutes at c = (r, c')"
  obtains (refused) e where "r = Inl e" "durable c' = durable c"
  | (written) user now d' where "get_user u (work c) = Some user"
      "case interval_minutes of None \<Rightarrow> True | Some n \<Rightarrow> n \<in> set ALLOWED_INTERVALS"
      "update_feed_body (u_workspace_id user) u enabled interval_minutes now (work c) = (Inr (), d')"
      "c' = c\<lparr>work := d', durable := d', in_tx := False\<rparr>"
      "r = get_user_schedule (Some (u_workspace_id user)) u d'"
proof (cases "(case interval_minutes of None \<Rightarrow> False | Some n \<Rightarrow> n \<notin> set ALLOWED_INTERVALS)
    \<or> isl (user_in_workspace w u (work c))")
  case True
  then show ?thesis
    using assms(2) refused by (auto simp: update_user_schedule_def split: if_splits sum.splits)
next
  case False
  then obtain user where user: "user_in_workspace w u (work c) = Inr user"
    by (cases "user_in_workspace w u (work c)") auto
  then have u: "get_user u (work c) = Some user"
    by (auto simp: user_in_workspace_def split: option.splits if_splits)
  have n: "case interval_minutes of None \<Rightarrow> True | Some n \<Rightarrow> n \<in> set ALLOWED_INTERVALS"
    using False by (auto split: option.splits)
  let ?now = "case at of None \<Rightarrow> clock c | Some t \<Rightarrow> t"
  let ?body = "update_feed_body (u_workspace_id user) u enabled interval_minutes ?now"
  have op: "update_user_schedule u w enabled interval_minutes at c =
      (case owned_transaction ?body c of
         (Inl e, c') \<Rightarrow> (Inl e, c')
       | (Inr _, c') \<Rightarrow> (get_user_schedule (Some (u_workspace_id user)) u (work c'), c'))"
    using False user by (auto simp: update_user_schedule_def)
  obtain o' d' where body: "?body (work c) = (o', d')" by (cases "?body (work c)")
  show ?thesis
  proof (cases o')
    case (Inl e)
    then show ?thesis
      using assms refused [of e] op body by (auto simp: owned_transaction_new)
  next
    case (Inr x)
    then show ?thesis
      using assms written [OF u n, of ?now d'] op body by (simp add: owned_transaction_new)
  qed
qed

text \<open>An accepted update of a user's automatic refresh takes effect: the schedule has the
  requested state and interval, a next run exactly when it is enabled, and once it is disabled no
  queued refresh that the schedule created is left.\<close>

theorem feed_schedule_update_takes_effect:
  assumes "\<not> in_tx c" "update_user_schedule u w enabled interval_minutes at c = (Inr s, c')"
    and "\<And>f user. f \<in> set (user_feed_schedules (work c)) \<Longrightarrow> fs_user_id f = u \<Longrightarrow>
      get_user u (work c) = Some user \<Longrightarrow> fs_workspace_id f = u_workspace_id user"
    and "feeds_ok (work c)"
  shows "(fs_enabled s \<longleftrightarrow> fs_next_run_at s \<noteq> None)
    \<and> (\<forall>b. enabled = Some b \<longrightarrow> fs_enabled s = b)
    \<and> (\<forall>n. interval_minutes = Some n \<longrightarrow> fs_interval_minutes s = n)
    \<and> (fs_enabled s \<or> (\<forall>j \<in> set (fetch_jobs (durable c')).
         scheduled_refresh_of (fs_workspace_id s) u j \<longrightarrow> j_status j \<noteq> Queued))"
  using assms(1,2)
proof (cases rule: update_user_schedule_Inr)
  case (written user now d')
  let ?w = "u_workspace_id user"
  have own: "\<forall>f \<in> set (user_feed_schedules (work c)). fs_user_id f = u \<longrightarrow> fs_workspace_id f = ?w"
    using assms(3) written(1) by blast
  obtain f where f: "find (\<lambda>f. fs_user_id f = u \<and> fs_workspace_id f = ?w) (user_feed_schedules d') = Some f"
    "users d' = users (work c)" "fs_enabled f \<longleftrightarrow> fs_next_run_at f \<noteq> None"
    "\<forall>b. enabled = Some b \<longrightarrow> fs_enabled f = b"
    "\<forall>n. interval_minutes = Some n \<longrightarrow> fs_interval_minutes f = n"
    "fs_enabled f \<or> (\<forall>j \<in> set (fetch_jobs d'). scheduled_refresh_of ?w u j \<longrightarrow> j_status j \<noteq> Queued)"
    using feed_body_effect [OF written(3) own] by blast
  have "get_user u d' = Some user" using f(2) written(1) by (simp add: get_user_def)
  then have s: "s = feed_schedule_view f"
    using written(5) f(1) by (simp add: get_user_schedule_def user_in_workspace_def)
  have "f \<in> set (user_feed_schedules d')" "fs_workspace_id f = ?w" using find_SomeD [OF f(1)] by auto
  then have "fs_interval_minutes f \<noteq> 0"
    using update_feed_body_ok [OF assms(4) written(2,3)]
    by (auto simp: feeds_ok_def list_all_iff feed_schedule_ok_def feed_interval_ok_def ALLOWED_INTERVALS_def)
  then have "s = f" using s by (simp add: feed_schedule_view_def)
  then show ?thesis using f written(4) find_SomeD [OF f(1)] by simp
qed simp

text \<open>One schedule per user, an allowed interval, and a next run exactly when enabled: an update
  of a schedule and a run of the scheduler keep this, whether they succeed or not.\<close>

theorem feed_schedules_stay_well_formed:
  assumes "conn_ok c" "\<not> in_tx c" "feeds_ok (durable c)"
    and "c' = snd (update_user_schedule u w enabled interval_minutes at c)
       \<or> c' = snd (enqueue_due_feeds env sv migration at limit c)"
  shows "feeds_ok (durable c')"
proof -
  have d: "work c = durable c" using assms(1,2) by (simp add: conn_ok_def)
  show ?thesis
    using assms(4)
  proof
    assume "c' = snd (update_user_schedule u w enabled interval_minutes at c)"
    then obtain r where "update_user_schedule u w enabled interval_minutes at c = (r, c')"
      by (metis prod.collapse)
    with assms(2) show ?thesis
      by (cases rule: update_user_schedule_Inr) (use update_feed_body_ok assms(3) d in auto)
  next
    assume "c' = snd (enqueue_due_feeds env sv migration at limit c)"
    then obtain r where run: "enqueue_due_feeds env sv migration at limit c = (r, c')"
      by (metis prod.collapse)
    show ?thesis
    proof (cases "0 < limit \<and> isl r")
      case False
      then consider "limit \<le> 0" | x where "0 < limit" "r = Inr x" by (cases r) force+
      then show ?thesis
      proof cases
        case 1
        then show ?thesis using run assms(3) by (simp add: enqueue_due_feeds_def)
      next
        case 2
        then have "enqueue_due_feeds env sv migration at limit c = (Inr x, c')" using run by simp
        then show ?thesis
          by (rule enqueue_due_feeds_Inr [OF assms(2) 2(1)]) (use feeds_ok_run assms(3) d in auto)
      qed
    next
      case True
      then show ?thesis using run assms(2,3) enqueue_due_feeds_Inl by (cases r) auto
    qed
  qed
qed


text \<open>A run of the feed scheduler evaluates due schedules only, at most \<open>limit\<close> of them; none of
  them is due afterwards, the schedules it did not select are untouched, and every one is counted
  once as enqueued, deduplicated or skipped.\<close>

theorem due_feeds_are_postponed:
  assumes "\<not> in_tx c" "conn_ok c" "feeds_ok (work c)" "0 < limit"
    and "enqueue_due_feeds env sv migration (Some now) limit c = (Inr r, c')"
  shows "\<exists>rows. length rows = sr_evaluated r \<and> length rows \<le> nat limit
    \<and> (\<forall>s \<in> set rows. s \<in> set (user_feed_schedules (work c)) \<and> feed_due now s)
    \<and> sr_evaluated r = sr_enqueued r + sr_deduplicated r + sr_skipped r
    \<and> (\<forall>x \<in> set (user_feed_schedules (durable c')).
         if fs_user_id x \<in> fs_user_id ` set rows then \<not> feed_due now x
         else x \<in> set (user_feed_schedules (work c)))"
proof -
  obtain rows c1 where due: "due_feed_schedule_rows env now (nat limit) (work c) = Inr rows"
    and run: "run_rows (feed_step env sv migration now) rows empty_report (c\<lparr>in_tx := True\<rparr>) = (Inr r, c1)"
    and c': "c' = commit c1"
    using assms(1,4,5) by (elim enqueue_due_feeds_Inr) auto
  have rows: "\<forall>s \<in> set rows. s \<in> set (user_feed_schedules (work c)) \<and> feed_due now s"
    using due_feed_rows [OF due] by blast
  then have "\<forall>s \<in> set rows. feed_interval_ok s"
    using assms(3) by (auto simp: feeds_ok_def list_all_iff feed_schedule_ok_def)
  then have "fs_user_id x \<in> fs_user_id ` set rows \<longrightarrow> \<not> feed_due now x"
    "fs_user_id x \<notin> fs_user_id ` set rows \<longrightarrow> x \<in> set (user_feed_schedules (work c))"
    if "x \<in> set (user_feed_schedules (work c1))" for x
    using feed_runs.run_postpones [OF run, of x] feed_runs.run_only_these [OF run, of x] that by auto
  moreover have "counters_agree r \<and> sr_evaluated r = length rows"
    using feed_runs.run_counts [OF run] by (simp add: counters_agree_def empty_report_def)
  ultimately show ?thesis
    using rows due_feed_rows_length [OF due] c'
    by (intro exI [of _ rows]) (auto simp: counters_agree_def)
qed

text \<open>A run of the feed scheduler keeps the queue sound (in particular at most one active full
  refresh per user), and a run that raises leaves the database as it was.\<close>

theorem feed_scheduler_is_atomic:
  assumes "queue_inv c" "\<not> in_tx c"
    and "enqueue_due_feeds env sv migration at limit c = (r, c')"
  shows "queue_inv c' \<and> (isl r \<longrightarrow> durable c' = durable c \<and> work c' = durable c \<and> \<not> in_tx c')"
proof
  show "queue_inv c'"
  proof (cases "limit \<le> 0")
    case True
    then show ?thesis using assms by (simp add: enqueue_due_feeds_def)
  next
    case False
    have "queue_inv (snd (enqueue_due_feeds env sv migration at limit c))"
      unfolding enqueue_due_feeds_def Let_def if_not_P [OF False]
      by (rule owning_queue_inv [OF assms(1)])
         (auto split: sum.split simp: feed_runs.run_keeps_queue)
    then show ?thesis using assms(3) by simp
  qed
  show "isl r \<longrightarrow> durable c' = durable c \<and> work c' = durable c \<and> \<not> in_tx c'"
    using enqueue_due_feeds_Inl [OF assms(2)] assms(3) by (cases r) auto
qed


subsection \<open>Witnesses\<close>

definition sample_feed_schedule :: feed_schedule where
  "sample_feed_schedule = (default_feed_schedule ''u'' ''w'')\<lparr>fs_enabled := True, fs_next_run_at := Some 5\<rparr>"

definition sample_scheduled :: conn where
  "sample_scheduled = open_conn (sample_db\<lparr>user_feed_schedules := [sample_feed_schedule]\<rparr>) 1000 unary"

definition sample_service :: schedule_service where
  "sample_service = \<lparr>sv_quota = sample_limits, sv_max_attempts = Some 3, sv_retention_days = Some 7\<rparr>"

lemma queue_inv_fresh: "fetch_jobs d = [] \<Longrightarrow> queue_inv (open_conn d t h)"
  by (simp add: queue_inv_def conn_ok_def jobs_ok_def feed_unique_def)

lemma sample_scheduled_facts:
  "\<not> in_tx sample_scheduled" "conn_ok sample_scheduled" "queue_inv sample_scheduled"
  "feeds_ok (work sample_scheduled)" "feeds_ok (durable sample_scheduled)"
proof -
  show "\<not> in_tx sample_scheduled" "conn_ok sample_scheduled" "queue_inv sample_scheduled"
    by (simp_all add: sample_scheduled_def queue_inv_fresh conn_ok_def sample_db_def)
  show "feeds_ok (work sample_scheduled)" "feeds_ok (durable sample_scheduled)" by code_simp+
qed

lemma feed_schedule_update_takes_effect_witness:
  "\<exists>s c'. update_user_schedule ''u'' None (Some False) (Some 60) None sample_scheduled = (Inr s, c')
     \<and> fs_enabled s = False \<and> fs_interval_minutes s = 60"
proof -
  have "isl (fst (update_user_schedule ''u'' None (Some False) (Some 60) None sample_scheduled)) = False"
    by code_simp
  from any_outcome [OF this] obtain s c' where
    c: "update_user_schedule ''u'' None (Some False) (Some 60) None sample_scheduled = (Inr s, c')" by blast
  have "fs_workspace_id f = u_workspace_id user"
    if "f \<in> set (user_feed_schedules (work sample_scheduled))" "get_user ''u'' (work sample_scheduled) = Some user"
    for f user
    using that by (auto simp: sample_scheduled_def sample_feed_schedule_def default_feed_schedule_def
        sample_db_def get_user_def lookup_row_def)
  from feed_schedule_update_takes_effect [OF sample_scheduled_facts(1) c this sample_scheduled_facts(4)]
  have "fs_enabled s = False \<and> fs_interval_minutes s = 60" by blast
  with c show ?thesis by blast
qed

lemma feed_schedules_stay_well_formed_witness:
  "feeds_ok (durable (snd (enqueue_due_feeds (\<lambda>_. None) sample_service False None 10 sample_scheduled)))"
  by (rule feed_schedules_stay_well_formed
      [OF sample_scheduled_facts(2,1,5) disjI2 [OF refl]])

lemma due_feeds_are_postponed_witness:
  "\<exists>r c'. enqueue_due_feeds (\<lambda>_. None) sample_service False (Some 1000) 10 sample_scheduled = (Inr r, c')
     \<and> sr_evaluated r = sr_enqueued r + sr_deduplicated r + sr_skipped r \<and> sr_enqueued r = 1"
proof -
  let ?run = "enqueue_due_feeds (\<lambda>_. None) sample_service False (Some 1000) 10 sample_scheduled"
  have ev: "case fst ?run of Inl _ \<Rightarrow> False | Inr r \<Rightarrow> sr_enqueued r = 1" by code_simp
  then obtain r c' where c: "?run = (Inr r, c')" "sr_enqueued r = 1"
    by (cases ?run) (auto split: sum.splits)
  from due_feeds_are_postponed [OF sample_scheduled_facts(1,2,4) _ c(1)] c show ?thesis by auto
qed

lemma feed_scheduler_is_atomic_witness:
  "queue_inv (snd (enqueue_due_feeds (\<lambda>_. None) sample_service False None 10 sample_scheduled))"
  using feed_scheduler_is_atomic [OF sample_scheduled_facts(3,1) surjective_pairing] by blast

end
