(* ===== verification/SourceSchedule.thy ===== *)
theory SourceSchedule
  imports FeedSchedule
begin

section \<open>Automatic fetches of a subscription\<close>

text \<open>
  \<open>src/src/services/source_schedule.py\<close>: one schedule per subscription, its update rules, the
  scheduler that turns due schedules into \<open>source_fetch\<close> jobs, and the reset of the schedules
  that a full refresh served.  What the code asks of the actor platform and of the key pool (the
  execution state of a source's binding, the pool's gate, whether a URL is a channel feed) is
  the argument \<open>ag\<close>.
\<close>

subsection \<open>Reading a schedule\<close>

definition SOURCE_ALLOWED_INTERVALS :: "int list" where
  "SOURCE_ALLOWED_INTERVALS = [30, 60, 180, 360, 720, 1440]"

definition DEFAULT_SOURCE_INTERVAL_MINUTES :: int where
  "DEFAULT_SOURCE_INTERVAL_MINUTES = 60"

definition SCHEDULED_SOURCE_FETCH_REASON :: string where
  "SCHEDULED_SOURCE_FETCH_REASON = ''scheduled_source_fetch''"

definition source_schedule_view :: "source_schedule \<Rightarrow> source_schedule" where
  "source_schedule_view s =
     s\<lparr>ss_interval_minutes :=
         (if ss_interval_minutes s = 0 then DEFAULT_SOURCE_INTERVAL_MINUTES else ss_interval_minutes s)\<rparr>"

text \<open>The subscription joined with its source and its user.\<close>

definition subscription_row ::
  "string \<Rightarrow> string \<Rightarrow> string \<Rightarrow> db \<Rightarrow> exn + (subscription \<times> source \<times> user)" where
  "subscription_row w u b d =
     (case get_subscription b d of
        None \<Rightarrow> Inl (LookupError ''subscription not found'')
      | Some sub \<Rightarrow>
         (case (get_source (us_source_id sub) d, get_user (us_user_id sub) d) of
            (Some src, Some user) \<Rightarrow>
              if us_user_id sub = u \<and> s_workspace_id src = w then Inr (sub, src, user)
              else Inl (LookupError ''subscription not found'')
          | _ \<Rightarrow> Inl (LookupError ''subscription not found'')))"

definition default_source_schedule ::
  "string \<Rightarrow> string \<Rightarrow> string \<Rightarrow> string \<Rightarrow> source_schedule" where
  "default_source_schedule b w u s =
     \<lparr>ss_subscription_id = b, ss_workspace_id = w, ss_user_id = u, ss_source_id = s,
      ss_enabled = False, ss_interval_minutes = DEFAULT_SOURCE_INTERVAL_MINUTES,
      ss_next_run_at = None, ss_last_evaluated_at = None, ss_last_enqueued_at = None,
      ss_last_job_id = None, ss_last_skip_reason = None, ss_created_at = None,
      ss_updated_at = None\<rparr>"

definition get_subscription_schedule ::
  "string \<Rightarrow> string \<Rightarrow> string \<Rightarrow> db \<Rightarrow> exn + source_schedule" where
  "get_subscription_schedule w u b d =
     (case subscription_row w u b d of
        Inl e \<Rightarrow> Inl e
      | Inr (sub, _, _) \<Rightarrow>
         (case get_source_schedule b d of
            Some s \<Rightarrow> Inr (source_schedule_view s)
          | None \<Rightarrow> Inr (default_source_schedule b w u (us_source_id sub))))"

text \<open>The dictionary from subscriptions to schedules, as a map.\<close>

definition list_user_subscription_schedules ::
  "string \<Rightarrow> string \<Rightarrow> subscription list \<Rightarrow> db \<Rightarrow> string \<Rightarrow> source_schedule option" where
  "list_user_subscription_schedules w u subs d =
     foldl (\<lambda>m sub.
       (let b = us_id sub; s = us_source_id sub
        in m(b \<mapsto>
             (case find (\<lambda>q. ss_workspace_id q = w \<and> ss_user_id q = u \<and> ss_subscription_id q = b)
                     (user_source_schedules d) of
                Some q \<Rightarrow> if ss_source_id q = s then source_schedule_view q
                          else default_source_schedule b w u s
              | None \<Rightarrow> default_source_schedule b w u s))))
       Map.empty subs"

subsection \<open>Updating a schedule\<close>

definition scheduled_fetch_of :: "string \<Rightarrow> string \<Rightarrow> string \<Rightarrow> job \<Rightarrow> bool" where
  "scheduled_fetch_of w u b j \<longleftrightarrow>
     j_workspace_id j = w \<and> j_user_id j = u \<and> j_subscription_id j = Some b
     \<and> j_job_type j = ''source_fetch'' \<and> has_reason SCHEDULED_SOURCE_FETCH_REASON j"

text \<open>INSERT with ON CONFLICT(subscription_id) DO UPDATE.\<close>

definition upsert_source_schedule :: "source_schedule \<Rightarrow> db \<Rightarrow> exn + db" where
  "upsert_source_schedule s d =
     (if ss_subscription_id s \<in> ss_subscription_id ` set (user_source_schedules d)
      then Inr (d\<lparr>user_source_schedules :=
             update_where (\<lambda>x. ss_subscription_id x = ss_subscription_id s)
               (\<lambda>x. x\<lparr>ss_enabled := ss_enabled s, ss_interval_minutes := ss_interval_minutes s,
                      ss_next_run_at := ss_next_run_at s, ss_updated_at := ss_updated_at s\<rparr>)
               (user_source_schedules d)\<rparr>)
      else if ss_workspace_id s \<notin> set (workspaces d) then Inl IntegrityError
      else Inr (d\<lparr>user_source_schedules := user_source_schedules d @ [s]\<rparr>))"

definition update_source_body ::
  "string \<Rightarrow> string \<Rightarrow> string \<Rightarrow> bool option \<Rightarrow> int option \<Rightarrow> time \<Rightarrow> db \<Rightarrow> (db, unit) outcome" where
  "update_source_body w u b enabled interval_minutes now d =
     (case subscription_row w u b d of
        Inl e \<Rightarrow> Raise e d
      | Inr (sub, src, user) \<Rightarrow>
     (let current = map_option source_schedule_view (get_source_schedule b d);
          current_enabled = (case current of None \<Rightarrow> False | Some s \<Rightarrow> ss_enabled s);
          target_enabled = (case enabled of None \<Rightarrow> current_enabled | Some x \<Rightarrow> x);
          target_interval = (case interval_minutes of Some n \<Rightarrow> n
            | None \<Rightarrow> (case current of None \<Rightarrow> DEFAULT_SOURCE_INTERVAL_MINUTES
                       | Some s \<Rightarrow> ss_interval_minutes s));
          next_run = next_run_after_update now target_enabled target_interval
            (map_option (\<lambda>s. (ss_enabled s, ss_interval_minutes s, ss_next_run_at s)) current)
      in if target_enabled \<and> \<not> (us_enabled sub \<and> s_enabled src \<and> u_enabled user)
         then Raise (SourceScheduleUnavailable
                ''automatic source fetch requires an enabled subscription'') d
         else (case upsert_source_schedule
                 ((default_source_schedule b w u (us_source_id sub))\<lparr>ss_enabled := target_enabled,
                    ss_interval_minutes := target_interval, ss_next_run_at := next_run,
                    ss_created_at := Some now, ss_updated_at := Some now\<rparr>) d of
                 Inl e \<Rightarrow> Raise e d
               | Inr d' \<Rightarrow>
                  Return () (if target_enabled then d'
                             else cancel_queued now (scheduled_fetch_of w u b) d'))))"

definition update_subscription_schedule ::
  "string \<Rightarrow> string \<Rightarrow> string \<Rightarrow> bool option \<Rightarrow> int option \<Rightarrow> time option \<Rightarrow> conn
   \<Rightarrow> (conn, source_schedule) outcome" where
  "update_subscription_schedule w u b enabled interval_minutes at c =
     (if (case interval_minutes of None \<Rightarrow> False | Some n \<Rightarrow> n \<notin> set SOURCE_ALLOWED_INTERVALS)
      then Raise (ValueError ''interval_minutes must be one of 30, 60, 180, 360, 720, 1440'') c
      else
     (let now = (case at of None \<Rightarrow> clock c | Some t \<Rightarrow> t)
      in case owned_transaction (update_source_body w u b enabled interval_minutes now) c of
           (Inl e, c') \<Rightarrow> Raise e c'
         | (Inr _, c') \<Rightarrow> (get_subscription_schedule w u b (work c'), c')))"

subsection \<open>The gate of managed sources\<close>

record binding_execution_state =
  be_source_id :: string
  be_route_id :: string
  be_binding_version :: int
  be_binding_status :: string
  be_route_mode :: string
  be_allowed :: bool
  be_execution_mode :: string
  be_reason :: "string option"
  be_retryable :: bool

text \<open>
  \<open>ag_execution\<close> is None when the binding service raises one of the three exceptions the caller
  catches; \<open>ag_pool\<close> is the code and the retry instant of a blocked pool.
\<close>

record actor_gates =
  ag_youtube :: "dict \<Rightarrow> bool"
  ag_execution :: "string \<Rightarrow> string \<Rightarrow> db \<Rightarrow> binding_execution_state option"
  ag_pool :: "string \<Rightarrow> time \<Rightarrow> db \<Rightarrow> (string \<times> time option) option"

definition apify_key_pool_enabled :: "(string \<Rightarrow> string option) \<Rightarrow> bool" where
  "apify_key_pool_enabled env \<longleftrightarrow>
     casefold (strip (case env ''HORIZON_APIFY_KEY_POOL_ENABLED'' of None \<Rightarrow> ''false'' | Some v \<Rightarrow> v))
     \<in> {''1'', ''true'', ''yes'', ''on''}"

text \<open>\<open>str(config.get(key) or "")\<close>, and its case-folded text; a value that is not text never has
  one of the texts it is compared with.\<close>

definition config_present :: "dict \<Rightarrow> string \<Rightarrow> bool" where
  "config_present config key \<longleftrightarrow>
     (case map_of config key of
        None \<Rightarrow> False | Some (JStr t) \<Rightarrow> strip t \<noteq> [] | Some v \<Rightarrow> \<not> json_falsy v)"

definition config_folded :: "dict \<Rightarrow> string \<Rightarrow> string" where
  "config_folded config key =
     (case map_of config key of Some (JStr t) \<Rightarrow> casefold t | _ \<Rightarrow> [])"

definition managed_source :: "(dict \<Rightarrow> bool) \<Rightarrow> source \<Rightarrow> bool" where
  "managed_source youtube src \<longleftrightarrow>
     s_type src = ''apify_social''
       \<and> (config_present (s_config src) ''profile_id''
          \<or> (config_folded (s_config src) ''platform'', config_folded (s_config src) ''kind'')
              \<in> {(''x'', ''profile''), (''instagram'', ''profile'')})
     \<or> s_type src = ''rss'' \<and> youtube (s_config src)"

definition binding_not_ready :: "string \<Rightarrow> binding_execution_state" where
  "binding_not_ready s =
     \<lparr>be_source_id = s, be_route_id = [], be_binding_version = 0, be_binding_status = ''missing'',
      be_route_mode = ''disabled'', be_allowed = False, be_execution_mode = ''blocked'',
      be_reason = Some ''actorops_v2_binding_not_ready'', be_retryable = False\<rparr>"

definition actorops_execution_state ::
  "actor_gates \<Rightarrow> source \<Rightarrow> db \<Rightarrow> binding_execution_state option" where
  "actorops_execution_state ag src d =
     (if \<not> managed_source (ag_youtube ag) src then None
      else Some (case ag_execution ag (s_workspace_id src) (s_id src) d of
                   Some st \<Rightarrow> st | None \<Rightarrow> binding_not_ready (s_id src)))"

text \<open>Why a managed source may not run now, and when to look again.\<close>

definition actor_gate ::
  "(string \<Rightarrow> string option) \<Rightarrow> actor_gates \<Rightarrow> string \<Rightarrow> source \<Rightarrow> time \<Rightarrow> time \<Rightarrow> db
   \<Rightarrow> string option \<times> time" where
  "actor_gate env ag w src now interval_next d =
     (case actorops_execution_state ag src d of
        None \<Rightarrow> (None, interval_next)
      | Some st \<Rightarrow>
         if \<not> be_allowed st
         then (Some (case be_reason st of None \<Rightarrow> ''None'' | Some t \<Rightarrow> t), interval_next)
         else if be_execution_mode st = ''actor'' \<and> \<not> apify_key_pool_enabled env
         then (Some ''apify_key_pool_disabled'', interval_next)
         else if be_execution_mode st = ''actor''
         then (case ag_pool ag w now d of
                 None \<Rightarrow> (None, interval_next)
               | Some (code, retry_at) \<Rightarrow>
                  (Some code,
                   case retry_at of None \<Rightarrow> interval_next
                   | Some t \<Rightarrow> if now < t then t else interval_next))
         else (None, interval_next))"

definition skip_reason ::
  "(string \<Rightarrow> string option) \<Rightarrow> actor_gates \<Rightarrow> bool \<Rightarrow> source_schedule \<Rightarrow> time \<Rightarrow> time \<Rightarrow> db
   \<Rightarrow> string option \<times> time" where
  "skip_reason env ag migration s now interval_next d =
     (if migration then (Some ''migration_required'', interval_next)
      else
     (case subscription_row (ss_workspace_id s) (ss_user_id s) (ss_subscription_id s) d of
        Inl _ \<Rightarrow> (Some ''subscription_missing'', interval_next)
      | Inr (sub, src, user) \<Rightarrow>
         if \<not> u_enabled user then (Some ''user_disabled'', interval_next)
         else if u_role user = ''viewer'' then (Some ''user_read_only'', interval_next)
         else if \<not> (us_enabled sub \<and> s_enabled src) then (Some ''subscription_disabled'', interval_next)
         else actor_gate env ag (ss_workspace_id s) src now interval_next d))"

subsection \<open>Evaluating due schedules\<close>

definition source_skipped ::
  "time \<Rightarrow> time \<Rightarrow> string \<Rightarrow> string option \<Rightarrow> source_schedule \<Rightarrow> source_schedule" where
  "source_skipped now next_run reason jid s =
     s\<lparr>ss_next_run_at := Some next_run, ss_last_evaluated_at := Some now,
       ss_last_skip_reason := Some reason, ss_last_job_id := keep_or jid (ss_last_job_id s),
       ss_updated_at := Some now\<rparr>"

definition source_served :: "time \<Rightarrow> time \<Rightarrow> bool \<Rightarrow> string \<Rightarrow> source_schedule \<Rightarrow> source_schedule" where
  "source_served now next_run created jid s =
     s\<lparr>ss_next_run_at := Some next_run, ss_last_evaluated_at := Some now,
       ss_last_enqueued_at := (if created then Some now else ss_last_enqueued_at s),
       ss_last_job_id := Some jid, ss_last_skip_reason := None, ss_updated_at := Some now\<rparr>"

definition update_source ::
  "string \<Rightarrow> (source_schedule \<Rightarrow> source_schedule) \<Rightarrow> db \<Rightarrow> db" where
  "update_source b f d =
     d\<lparr>user_source_schedules :=
         update_where (\<lambda>x. ss_subscription_id x = b) f (user_source_schedules d)\<rparr>"

definition record_source_skip ::
  "source_schedule \<Rightarrow> time \<Rightarrow> time \<Rightarrow> string \<Rightarrow> string option \<Rightarrow> conn \<Rightarrow> conn" where
  "record_source_skip s now next_run reason jid =
     dml (update_source (ss_subscription_id s) (source_skipped now next_run reason jid))"

definition scheduled_fetch_args :: "source_schedule \<Rightarrow> int \<Rightarrow> int \<Rightarrow> job_args" where
  "scheduled_fetch_args s max_attempts retention =
     \<lparr>ja_workspace_id = ss_workspace_id s, ja_user_id = ss_user_id s, ja_job_type = ''source_fetch'',
      ja_payload = Some [(''reason'', JStr SCHEDULED_SOURCE_FETCH_REASON),
        (''source_id'', JStr (ss_source_id s)), (''subscription_id'', JStr (ss_subscription_id s))],
      ja_source_id = Some (ss_source_id s), ja_subscription_id = Some (ss_subscription_id s),
      ja_priority = -10, ja_max_attempts = max_attempts, ja_delay = 0,
      ja_retention_days = Some retention\<rparr>"

definition enqueue_source ::
  "(string \<Rightarrow> string option) \<Rightarrow> schedule_service \<Rightarrow> time \<Rightarrow> time \<Rightarrow> source_schedule
   \<Rightarrow> schedule_report \<Rightarrow> conn \<Rightarrow> (conn, schedule_report) outcome" where
  "enqueue_source env sv now next_run s r c =
     (let w = ss_workspace_id s; u = ss_user_id s; b = ss_subscription_id s
      in case job_setting env (sv_max_attempts sv) w ''jobs.max_attempts'' (work c) of
           Inl e \<Rightarrow> Raise e c
         | Inr max_attempts \<Rightarrow>
        (case job_setting env (sv_retention_days sv) w ''jobs.retention_days'' (work c) of
           Inl e \<Rightarrow> Raise e c
         | Inr retention \<Rightarrow>
        (case create_source_fetch_if_absent (ss_source_id s) b
                (scheduled_fetch_args s max_attempts retention) c of
           (Inl e, c') \<Rightarrow> Raise e c'
         | (Inr (j, created), c') \<Rightarrow>
            if \<not> created
            then Return (add_outcome b Deduplicated None (Some (j_id j)) (count_action Deduplicated r))
                   (dml (update_source b (source_served now next_run False (j_id j))) c')
            else (case record_job_usage w u ''source_fetch'' False c' of
                    (Inl e, c'') \<Rightarrow> Raise e c''
                  | (Inr _, c'') \<Rightarrow>
                     Return (add_outcome b Enqueued None (Some (j_id j)) (count_action Enqueued r))
                       (dml (update_source b (source_served now next_run True (j_id j))) c'')))))"

text \<open>A schedule skipped for its quota is counted, but no outcome is appended.\<close>

definition admit_source ::
  "(string \<Rightarrow> string option) \<Rightarrow> schedule_service \<Rightarrow> time \<Rightarrow> time \<Rightarrow> source_schedule
   \<Rightarrow> schedule_report \<Rightarrow> conn \<Rightarrow> (conn, schedule_report) outcome" where
  "admit_source env sv now next_run s r c =
     (let w = ss_workspace_id s; u = ss_user_id s
      in case ensure_job_allowed env (sv_quota sv) w u (today_start now) (work c) of
           Inr _ \<Rightarrow> enqueue_source env sv now next_run s r c
         | Inl (QuotaExceeded _) \<Rightarrow>
            (case record_quota_reject w u ''fetch_job'' None False c of
               (Inl e, c') \<Rightarrow> Raise e c'
             | (Inr _, c') \<Rightarrow>
                Return (count_action Skipped r)
                  (record_source_skip s now next_run ''quota_exceeded'' None c'))
         | Inl e \<Rightarrow> Raise e c)"

definition source_step ::
  "(string \<Rightarrow> string option) \<Rightarrow> actor_gates \<Rightarrow> schedule_service \<Rightarrow> bool \<Rightarrow> time \<Rightarrow> source_schedule
   \<Rightarrow> schedule_report \<Rightarrow> conn \<Rightarrow> (conn, schedule_report) outcome" where
  "source_step env ag sv migration now raw r c =
     (let s = source_schedule_view raw; w = ss_workspace_id s; u = ss_user_id s;
          b = ss_subscription_id s; d = work c
      in case skip_reason env ag migration s now (now + minutes (ss_interval_minutes s)) d of
           (Some reason, next_run) \<Rightarrow>
             Return (add_outcome b Skipped (Some reason) None (count_action Skipped r))
               (record_source_skip s now next_run reason None c)
         | (None, next_run) \<Rightarrow>
        (case first_by active_order (active_feed_for (w, u)) (fetch_jobs d) of
           Some j \<Rightarrow>
             Return (add_outcome b Deduplicated (Some ''active_user_feed_refresh'') (Some (j_id j))
                       (count_action Deduplicated r))
               (record_source_skip s now (now + minutes 5) ''active_user_feed_refresh''
                  (Some (j_id j)) c)
         | None \<Rightarrow>
        (case first_by active_order (active_fetch_for (w, u, ss_source_id s, b)) (fetch_jobs d) of
           Some j \<Rightarrow>
             Return (add_outcome b Deduplicated None (Some (j_id j)) (count_action Deduplicated r))
               (dml (update_source b (source_served now next_run False (j_id j))) c)
         | None \<Rightarrow> admit_source env sv now next_run s r c)))"

definition enqueue_due_sources ::
  "(string \<Rightarrow> string option) \<Rightarrow> actor_gates \<Rightarrow> schedule_service \<Rightarrow> bool \<Rightarrow> time option \<Rightarrow> int \<Rightarrow> conn
   \<Rightarrow> (conn, schedule_report) outcome" where
  "enqueue_due_sources env ag sv migration at limit c =
     (let now = (case at of None \<Rightarrow> clock c | Some t \<Rightarrow> t)
      in if limit \<le> 0 then Return empty_report c
         else owning (\<lambda>c.
           case due_source_schedule_rows env now (nat limit) (work c) of
             Inl e \<Rightarrow> Raise e c
           | Inr rows \<Rightarrow> run_rows (source_step env ag sv migration now) rows empty_report c) c)"

subsection \<open>After a full refresh\<close>

definition advanced :: "time \<Rightarrow> string \<Rightarrow> source_schedule \<Rightarrow> source_schedule" where
  "advanced finished jid s =
     s\<lparr>ss_next_run_at := Some (finished + minutes (ss_interval_minutes (source_schedule_view s))),
       ss_last_evaluated_at := Some finished, ss_last_enqueued_at := Some finished,
       ss_last_job_id := Some jid, ss_last_skip_reason := None, ss_updated_at := Some finished\<rparr>"

definition participates :: "string \<Rightarrow> string \<Rightarrow> string \<Rightarrow> source_schedule \<Rightarrow> bool" where
  "participates w u b s \<longleftrightarrow>
     ss_subscription_id s = b \<and> ss_workspace_id s = w \<and> ss_user_id s = u \<and> ss_enabled s"

definition advance_one ::
  "string \<Rightarrow> string \<Rightarrow> time \<Rightarrow> string \<Rightarrow> string \<Rightarrow> nat \<times> conn \<Rightarrow> nat \<times> conn" where
  "advance_one w u finished jid b st =
     (case st of (n, c) \<Rightarrow>
        if row_count (participates w u b) (user_source_schedules (work c)) = 0 then (n, c)
        else
       (let c1 = dml (cancel_queued finished (scheduled_fetch_of w u b)) c
        in (n + row_count (participates w u b) (user_source_schedules (work c1)),
            dml (\<lambda>d. d\<lparr>user_source_schedules :=
              update_where (participates w u b) (advanced finished jid) (user_source_schedules d)\<rparr>) c1)))"

text \<open>\<open>subs\<close> holds the subscription identifiers of the outcomes, absent ones as None.\<close>

definition advance_after_full_refresh ::
  "string \<Rightarrow> string \<Rightarrow> string option list \<Rightarrow> time \<Rightarrow> string \<Rightarrow> conn \<Rightarrow> nat \<times> conn" where
  "advance_after_full_refresh w u subs finished jid c =
     (let ids = sort (remdups (map the (filter (\<lambda>b. b \<noteq> None \<and> b \<noteq> Some []) subs)))
      in fold (advance_one w u finished jid) ids (0, c))"

subsection \<open>The promise of one step\<close>

definition source_interval_ok :: "source_schedule \<Rightarrow> bool" where
  "source_interval_ok s \<longleftrightarrow> ss_interval_minutes s \<in> set SOURCE_ALLOWED_INTERVALS"

definition source_write :: "time \<Rightarrow> source_schedule \<Rightarrow> (source_schedule \<Rightarrow> source_schedule) \<Rightarrow> bool" where
  "source_write now s f \<longleftrightarrow>
     (\<forall>x. ss_subscription_id (f x) = ss_subscription_id x \<and> ss_enabled (f x) = ss_enabled x
        \<and> ss_workspace_id (f x) = ss_workspace_id x \<and> ss_user_id (f x) = ss_user_id x \<and> ss_source_id (f x) = ss_source_id x
        \<and> ss_interval_minutes (f x) = ss_interval_minutes x \<and> ss_next_run_at (f x) \<noteq> None
        \<and> (source_interval_ok s \<longrightarrow> \<not> source_due now (f x)))"

definition source_effect :: "time \<Rightarrow> source_schedule \<Rightarrow> conn \<Rightarrow> conn \<Rightarrow> bool" where
  "source_effect now s c c' \<longleftrightarrow>
     user_subscriptions (work c') = user_subscriptions (work c) \<and> source_catalog (work c') = source_catalog (work c)
     \<and> (\<exists>f. source_write now s f \<and>
        user_source_schedules (work c') =
          update_where (\<lambda>x. ss_subscription_id x = ss_subscription_id s) f (user_source_schedules (work c)))"

lemma source_later_minutes:
  "source_interval_ok s \<Longrightarrow> now < now + minutes (ss_interval_minutes (source_schedule_view s))"
  by (auto simp: source_interval_ok_def SOURCE_ALLOWED_INTERVALS_def source_schedule_view_def
      minutes_def seconds_def)

lemma source_write_skipped:
  "(source_interval_ok s \<Longrightarrow> now < t) \<Longrightarrow> source_write now s (source_skipped now t reason jid)"
  by (auto simp: source_write_def source_skipped_def source_due_def is_due_def)

lemma source_write_served:
  "(source_interval_ok s \<Longrightarrow> now < t) \<Longrightarrow> source_write now s (source_served now t created jid)"
  by (auto simp: source_write_def source_served_def source_due_def is_due_def)

lemma source_view_key [simp]:
  "ss_subscription_id (source_schedule_view s) = ss_subscription_id s"
  "ss_workspace_id (source_schedule_view s) = ss_workspace_id s"
  "ss_user_id (source_schedule_view s) = ss_user_id s"
  "ss_source_id (source_schedule_view s) = ss_source_id s"
  by (simp_all add: source_schedule_view_def)

definition source_post ::
  "time \<Rightarrow> source_schedule \<Rightarrow> schedule_report \<Rightarrow> conn \<Rightarrow> (conn, schedule_report) outcome \<Rightarrow> bool" where
  "source_post now s r c out \<longleftrightarrow>
     in_tx (snd out) \<and> durable (snd out) = durable c \<and> (queue_inv c \<longrightarrow> queue_inv (snd out))
     \<and> (case fst out of Inl _ \<Rightarrow> True | Inr r' \<Rightarrow> reported r r' \<and> source_effect now s c (snd out))"

lemma source_post_raise: "keeps_schedules c c' \<Longrightarrow> source_post now s r c (Inl e, c')"
  by (simp add: source_post_def keeps_schedules_def)

lemma source_post_write:
  assumes "keeps_schedules c c'" "source_write now s f" "reported r r'"
  shows "source_post now s r c (Inr r', dml (update_source (ss_subscription_id s) f) c')"
  using assms
  by (auto simp: source_post_def source_effect_def update_source_def keeps_schedules_def
      queue_inv_dml)

lemma source_post_skip:
  "keeps_schedules c c' \<Longrightarrow> (source_interval_ok s \<Longrightarrow> now < t) \<Longrightarrow> reported r r' \<Longrightarrow>
   source_post now s r c (Inr r', record_source_skip (source_schedule_view s) now t reason jid c')"
  unfolding record_source_skip_def source_view_key
  by (intro source_post_write source_write_skipped) auto

lemma reported_count: "reported r (count_action a r)"
  by (cases a) (auto simp: reported_def counters_agree_def count_action_def)

lemma source_post_enqueue:
  assumes "in_tx c" "source_interval_ok s \<Longrightarrow> now < t"
  shows "source_post now s r c (enqueue_source env sv now t (source_schedule_view s) r c)"
  unfolding enqueue_source_def Let_def source_view_key
  by (auto split: sum.split prod.split
      intro!: source_post_raise source_post_write source_write_served reported_outcome
      intro: assms keeps_schedules_refl create_fetch_keeps
        keeps_schedules_trans [OF create_fetch_keeps] record_job_keeps)

lemma source_post_admit:
  assumes "in_tx c" "source_interval_ok s \<Longrightarrow> now < t"
  shows "source_post now s r c (admit_source env sv now t (source_schedule_view s) r c)"
  unfolding admit_source_def Let_def
  by (auto split: sum.split prod.split exn.split
      intro!: source_post_raise source_post_skip source_post_enqueue reported_count
      intro: assms keeps_schedules_refl record_reject_keeps)

lemma skip_reason_later:
  "skip_reason env ag migration s now t d = (reason, t') \<Longrightarrow> now < t \<Longrightarrow> now < t'"
  by (auto simp: skip_reason_def actor_gate_def split: if_splits sum.splits option.splits prod.splits)

lemma source_step_post:
  assumes "in_tx c"
  shows "source_post now s r c (source_step env ag sv migration now s r c)"
proof -
  let ?v = "source_schedule_view s"
  obtain reason t where g: "skip_reason env ag migration ?v now
      (now + minutes (ss_interval_minutes ?v)) (work c) = (reason, t)" by fastforce
  have later: "source_interval_ok s \<Longrightarrow> now < t"
    using skip_reason_later [OF g] source_later_minutes by blast
  note keep = keeps_schedules_refl [OF assms]
  show ?thesis
    unfolding source_step_def Let_def g source_view_key
    by (auto split: option.split simp: minutes_pos later
        intro!: source_post_skip source_post_write source_write_served source_post_admit
          reported_outcome keep assms)
qed

lemma source_step_Inr:
  assumes "in_tx c" "source_step env ag sv migration now s r c = (Inr r', c')"
  shows "reported r r' \<and> source_effect now s c c'"
  using source_step_post [OF assms(1), of now s r env ag sv migration] assms(2)
  by (simp add: source_post_def)

interpretation source_runs: due_scheduler user_source_schedules ss_subscription_id source_due
  source_interval_ok "source_step env ag sv migration" for env ag sv migration
proof
  fix now s r c r' c' x
  show "in_tx c \<Longrightarrow> in_tx (snd (source_step env ag sv migration now s r c))
      \<and> durable (snd (source_step env ag sv migration now s r c)) = durable c"
    using source_step_post by (simp add: source_post_def)
  show "in_tx c \<Longrightarrow> queue_inv c \<Longrightarrow> queue_inv (snd (source_step env ag sv migration now s r c))"
    using source_step_post by (simp add: source_post_def)
  show "in_tx c \<Longrightarrow> source_step env ag sv migration now s r c = (Inr r', c') \<Longrightarrow> counters_agree r \<Longrightarrow>
      counters_agree r' \<and> sr_evaluated r' = Suc (sr_evaluated r)"
    using source_step_Inr by (fastforce simp: reported_def)
  show "in_tx c \<Longrightarrow> source_interval_ok s \<Longrightarrow> source_step env ag sv migration now s r c = (Inr r', c') \<Longrightarrow>
      x \<in> set (user_source_schedules (work c')) \<Longrightarrow> ss_subscription_id x = ss_subscription_id s \<Longrightarrow>
      \<not> source_due now x"
    using source_step_Inr by (fastforce simp: source_effect_def source_write_def table_simps)
  show "in_tx c \<Longrightarrow> source_step env ag sv migration now s r c = (Inr r', c') \<Longrightarrow>
      x \<in> set (user_source_schedules (work c')) \<Longrightarrow> ss_subscription_id x \<noteq> ss_subscription_id s \<Longrightarrow>
      x \<in> set (user_source_schedules (work c))"
    using source_step_Inr by (fastforce simp: source_effect_def source_write_def table_simps)
qed

subsection \<open>Runs of the scheduler\<close>

lemma enqueue_due_sources_Inr:
  assumes "\<not> in_tx c" "0 < limit" "enqueue_due_sources env ag sv migration at limit c = (Inr r, c')"
  obtains rows c1 where
    "due_source_schedule_rows env (case at of None \<Rightarrow> clock c | Some t \<Rightarrow> t) (nat limit) (work c) = Inr rows"
    "run_rows (source_step env ag sv migration (case at of None \<Rightarrow> clock c | Some t \<Rightarrow> t)) rows empty_report
       (c\<lparr>in_tx := True\<rparr>) = (Inr r, c1)"
    "c' = commit c1"
  using assms(2,3) that
  by (auto simp: enqueue_due_sources_def Let_def dest!: owning_new_Inr [OF assms(1)] split: sum.splits)

lemma enqueue_due_sources_Inl:
  assumes "\<not> in_tx c" "enqueue_due_sources env ag sv migration at limit c = (Inl e, c')"
  shows "durable c' = durable c \<and> work c' = durable c \<and> \<not> in_tx c'"
  using assms(2) unfolding enqueue_due_sources_def Let_def
  by (auto split: if_splits sum.splits dest!: owning_new_Inl [OF assms(1)]
      simp: source_runs.run_keeps_durable)

lemma due_source_rows:
  "due_source_schedule_rows env now n d = Inr rows \<Longrightarrow> x \<in> set rows \<Longrightarrow>
   x \<in> set (user_source_schedules d) \<and> source_due now x"
  by (auto simp: due_source_schedule_rows_def split: sum.splits dest!: sort_take_rows)

lemma due_source_rows_length:
  "due_source_schedule_rows env now n d = Inr rows \<Longrightarrow> length rows \<le> n"
  by (auto simp: due_source_schedule_rows_def split: sum.splits)

definition source_schedule_ok :: "source_schedule \<Rightarrow> bool" where
  "source_schedule_ok s \<longleftrightarrow> source_interval_ok s \<and> (ss_enabled s \<longleftrightarrow> ss_next_run_at s \<noteq> None)"

definition sources_ok :: "db \<Rightarrow> bool" where
  "sources_ok d \<longleftrightarrow>
     distinct (map ss_subscription_id (user_source_schedules d))
     \<and> list_all source_schedule_ok (user_source_schedules d)"

text \<open>A step leaves alone which schedules exist and which of them are enabled.\<close>

definition switches :: "db \<Rightarrow> (string \<times> bool) list" where
  "switches d = map (\<lambda>s. (ss_subscription_id s, ss_enabled s)) (user_source_schedules d)"

lemma sources_ok_write:
  assumes "sources_ok (work c)" "source_effect now s c c'"
    and "(ss_subscription_id s, True) \<in> set (switches (work c))"
  shows "sources_ok (work c') \<and> switches (work c') = switches (work c)"
proof -
  obtain f where f: "source_write now s f" and
    t: "user_source_schedules (work c') =
      update_where (\<lambda>x. ss_subscription_id x = ss_subscription_id s) f (user_source_schedules (work c))"
    using assms(2) by (auto simp: source_effect_def)
  have key: "map ss_subscription_id (user_source_schedules (work c')) =
      map ss_subscription_id (user_source_schedules (work c))"
    unfolding t by (rule map_update_where_keep) (use f in \<open>simp add: source_write_def\<close>)
  have sw: "switches (work c') = switches (work c)"
    unfolding t switches_def by (rule map_update_where_keep) (use f in \<open>simp add: source_write_def\<close>)
  obtain y where y: "y \<in> set (user_source_schedules (work c))" "ss_enabled y"
    "ss_subscription_id y = ss_subscription_id s"
    using assms(3) by (auto simp: switches_def)
  have "source_schedule_ok (f x)"
    if "x \<in> set (user_source_schedules (work c))" "ss_subscription_id x = ss_subscription_id s" for x
  proof -
    have "x = y"
      using lookup_row_unique [where key = ss_subscription_id, OF _ that(1) y(1)] that(2) y(3) assms(1) by (simp add: sources_ok_def)
    then show ?thesis using f y assms(1)
      by (auto simp: source_write_def source_schedule_ok_def source_interval_ok_def sources_ok_def list_all_iff)
  qed
  then have "list_all source_schedule_ok (user_source_schedules (work c'))"
    using assms(1) by (auto simp: sources_ok_def t list_all_iff table_simps)
  then show ?thesis using key sw assms(1) by (simp add: sources_ok_def)
qed

lemma sources_ok_run:
  assumes "run_rows (source_step env ag sv migration now) rows r c = (Inr r', c')" "in_tx c"
    "sources_ok (work c)" "\<forall>s \<in> set rows. s \<in> set (user_source_schedules (work c)) \<and> ss_enabled s"
  shows "sources_ok (work c')"
proof -
  let ?I = "\<lambda>d. in_tx d \<and> sources_ok (work d) \<and> switches (work d) = switches (work c)"
  have "?I c'"
  proof (rule run_rows_invariant [OF assms(1), where I = ?I])
    fix s r d r' d'
    assume s: "s \<in> set rows" and d: "?I d" "source_step env ag sv migration now s r d = (Inr r', d')"
    have "in_tx d'" using source_runs.keeps_tx [of d env ag sv migration now s r] d by simp
    moreover have "(ss_subscription_id s, True) \<in> set (switches (work d))"
      using s assms(4) d(1) by (force simp: switches_def)
    ultimately show "?I d'"
      using sources_ok_write [of d now s d'] source_step_Inr [OF _ d(2)] d(1) by simp
  qed (use assms in simp)
  then show ?thesis by blast
qed

lemma upsert_source_ok:
  assumes "sources_ok d" "source_schedule_ok s" "upsert_source_schedule s d = Inr d'"
  shows "sources_ok d'"
proof -
  let ?f = "\<lambda>x :: source_schedule. x\<lparr>ss_enabled := ss_enabled s, ss_interval_minutes := ss_interval_minutes s,
    ss_next_run_at := ss_next_run_at s, ss_updated_at := ss_updated_at s\<rparr>"
  have "source_schedule_ok (?f x)" for x
    using assms(2) by (auto simp: source_schedule_ok_def source_interval_ok_def)
  moreover have "map ss_subscription_id (update_where P ?f rows) = map ss_subscription_id rows" for P rows
    by (rule map_update_where_keep) simp
  ultimately show ?thesis
    using assms by (auto simp: upsert_source_schedule_def sources_ok_def list_all_iff table_simps
        split: if_splits)
qed

text \<open>What an accepted update writes.\<close>

lemma update_source_body_Inr:
  assumes "update_source_body w u b enabled interval_minutes now d = (Inr x, d')" "sources_ok d"
    and "case interval_minutes of None \<Rightarrow> True | Some n \<Rightarrow> n \<in> set SOURCE_ALLOWED_INTERVALS"
  shows "\<exists>sub src user s d1. subscription_row w u b d = Inr (sub, src, user) \<and> source_schedule_ok s
    \<and> ss_subscription_id s = b \<and> upsert_source_schedule s d = Inr d1
    \<and> (\<forall>v. enabled = Some v \<longrightarrow> ss_enabled s = v)
    \<and> (\<forall>n. interval_minutes = Some n \<longrightarrow> ss_interval_minutes s = n)
    \<and> d' = (if ss_enabled s then d1 else cancel_queued now (scheduled_fetch_of w u b) d1)"
proof -
  obtain sub src user where row: "subscription_row w u b d = Inr (sub, src, user)"
    using assms(1) by (auto simp: update_source_body_def split: sum.splits)
  let ?cur = "map_option source_schedule_view (get_source_schedule b d)"
  define v where "v = (case enabled of None \<Rightarrow> (case ?cur of None \<Rightarrow> False | Some s \<Rightarrow> ss_enabled s) | Some v \<Rightarrow> v)"
  define n where "n = (case interval_minutes of Some n \<Rightarrow> n
    | None \<Rightarrow> (case ?cur of None \<Rightarrow> DEFAULT_SOURCE_INTERVAL_MINUTES | Some s \<Rightarrow> ss_interval_minutes s))"
  define nxt where "nxt = next_run_after_update now v n
    (map_option (\<lambda>s. (ss_enabled s, ss_interval_minutes s, ss_next_run_at s)) ?cur)"
  let ?s = "(default_source_schedule b w u (us_source_id sub))\<lparr>ss_enabled := v, ss_interval_minutes := n,
    ss_next_run_at := nxt, ss_created_at := Some now, ss_updated_at := Some now\<rparr>"
  obtain d1 where d1: "upsert_source_schedule ?s d = Inr d1"
    "d' = (if v then d1 else cancel_queued now (scheduled_fetch_of w u b) d1)"
    using assms(1) row
    unfolding update_source_body_def Let_def v_def [symmetric] n_def [symmetric] nxt_def [symmetric]
    by (auto split: if_splits sum.splits)
  have "ss_interval_minutes s \<in> set SOURCE_ALLOWED_INTERVALS" if "?cur = Some s" for s
    using that assms(2) unfolding get_source_schedule_def
    by (auto simp: sources_ok_def list_all_iff source_schedule_ok_def source_interval_ok_def
        source_schedule_view_def SOURCE_ALLOWED_INTERVALS_def dest!: lookup_row_SomeD)
  then have "n \<in> set SOURCE_ALLOWED_INTERVALS"
    using assms(3) unfolding n_def
    by (auto split: option.splits simp: DEFAULT_SOURCE_INTERVAL_MINUTES_def SOURCE_ALLOWED_INTERVALS_def)
  moreover have "nxt \<noteq> None \<longleftrightarrow> v" unfolding nxt_def by (rule next_run_iff)
  ultimately have "source_schedule_ok ?s"
    by (auto simp: source_schedule_ok_def source_interval_ok_def)
  moreover have "ss_subscription_id ?s = b" by (simp add: default_source_schedule_def)
  moreover have "\<forall>v'. enabled = Some v' \<longrightarrow> v = v'" "\<forall>n'. interval_minutes = Some n' \<longrightarrow> n = n'"
    by (simp_all add: v_def n_def)
  ultimately show ?thesis using row d1 by (intro exI [of _ sub] exI [of _ src] exI [of _ user] exI [of _ ?s] exI [of _ d1]) simp
qed

lemma upsert_lookup:
  assumes "upsert_source_schedule s d = Inr d'"
  shows "\<exists>x. get_source_schedule (ss_subscription_id s) d' = Some x \<and> ss_enabled x = ss_enabled s
    \<and> ss_interval_minutes x = ss_interval_minutes s \<and> ss_next_run_at x = ss_next_run_at s"
proof (cases "ss_subscription_id s \<in> ss_subscription_id ` set (user_source_schedules d)")
  case True
  then obtain y where "lookup_row ss_subscription_id (ss_subscription_id s) (user_source_schedules d) = Some y"
    using lookup_row_None_iff by (metis option.exhaust)
  moreover from this have "ss_subscription_id y = ss_subscription_id s"
    using lookup_row_SomeD by fastforce
  ultimately show ?thesis
    using assms True by (auto simp: upsert_source_schedule_def get_source_schedule_def lookup_row_update_where)
next
  case False
  then show ?thesis
    using assms by (auto simp: upsert_source_schedule_def get_source_schedule_def lookup_row_append_new
        split: if_splits)
qed

lemma subscription_row_tables:
  assumes "users d' = users d" "source_catalog d' = source_catalog d" "user_subscriptions d' = user_subscriptions d"
  shows "subscription_row w u b d' = subscription_row w u b d"
proof -
  have "get_user i d' = get_user i d" "get_source i d' = get_source i d"
    "get_subscription i d' = get_subscription i d" for i
    using assms by (simp_all add: get_user_def get_source_def get_subscription_def)
  then show ?thesis unfolding subscription_row_def by presburger
qed

lemma subscription_row_frame:
  "upsert_source_schedule s d = Inr d' \<Longrightarrow> subscription_row w u b d' = subscription_row w u b d"
  "subscription_row w u b (cancel_queued now P d) = subscription_row w u b d"
  by (rule subscription_row_tables;
      auto simp: upsert_source_schedule_def cancel_queued_def update_jobs_def split: if_splits)+

lemma source_view_id: "source_interval_ok s \<Longrightarrow> source_schedule_view s = s"
  by (auto simp: source_schedule_view_def source_interval_ok_def SOURCE_ALLOWED_INTERVALS_def)

lemma update_subscription_schedule_Inr:
  assumes "\<not> in_tx c" "update_subscription_schedule w u b enabled interval_minutes at c = (r, c')"
  obtains (refused) e where "r = Inl e" "durable c' = durable c"
  | (written) now d' where
      "case interval_minutes of None \<Rightarrow> True | Some n \<Rightarrow> n \<in> set SOURCE_ALLOWED_INTERVALS"
      "update_source_body w u b enabled interval_minutes now (work c) = (Inr (), d')"
      "durable c' = d'" "r = get_subscription_schedule w u b d'"
proof (cases "case interval_minutes of None \<Rightarrow> False | Some n \<Rightarrow> n \<notin> set SOURCE_ALLOWED_INTERVALS")
  case True
  then show ?thesis using assms(2) refused by (auto simp: update_subscription_schedule_def)
next
  case False
  then have n: "case interval_minutes of None \<Rightarrow> True | Some n \<Rightarrow> n \<in> set SOURCE_ALLOWED_INTERVALS"
    by (auto split: option.splits)
  let ?now = "case at of None \<Rightarrow> clock c | Some t \<Rightarrow> t"
  obtain o' d' where body: "update_source_body w u b enabled interval_minutes ?now (work c) = (o', d')"
    by fastforce
  show ?thesis
  proof (cases o')
    case (Inl e)
    then show ?thesis using assms refused False body
      by (auto simp: owned_transaction_new update_subscription_schedule_def Let_def)
  next
    case (Inr x)
    then show ?thesis using assms written [OF n, of ?now d'] False body
      by (auto simp: owned_transaction_new update_subscription_schedule_def Let_def)
  qed
qed

text \<open>An accepted update of a subscription's automatic fetch takes effect: the schedule has the
  requested state and interval, a next run exactly when it is enabled, and once it is disabled no
  queued fetch that the schedule created is left.\<close>

theorem source_schedule_update_takes_effect:
  assumes "\<not> in_tx c" "sources_ok (work c)"
    and "update_subscription_schedule w u b enabled interval_minutes at c = (Inr s, c')"
  shows "(ss_enabled s \<longleftrightarrow> ss_next_run_at s \<noteq> None)
    \<and> (\<forall>v. enabled = Some v \<longrightarrow> ss_enabled s = v)
    \<and> (\<forall>n. interval_minutes = Some n \<longrightarrow> ss_interval_minutes s = n)
    \<and> (ss_enabled s \<or> (\<forall>j \<in> set (fetch_jobs (durable c')).
         scheduled_fetch_of w u b j \<longrightarrow> j_status j \<noteq> Queued))"
  using assms(1,3)
proof (cases rule: update_subscription_schedule_Inr)
  case (written now d')
  obtain sub src user q d1 where q: "subscription_row w u b (work c) = Inr (sub, src, user)"
    "source_schedule_ok q" "ss_subscription_id q = b" "upsert_source_schedule q (work c) = Inr d1"
    "\<forall>v. enabled = Some v \<longrightarrow> ss_enabled q = v"
    "\<forall>n. interval_minutes = Some n \<longrightarrow> ss_interval_minutes q = n"
    "d' = (if ss_enabled q then d1 else cancel_queued now (scheduled_fetch_of w u b) d1)"
    using update_source_body_Inr [OF written(2) assms(2) written(1)] by blast
  obtain x where x: "get_source_schedule b d1 = Some x" "ss_enabled x = ss_enabled q"
    "ss_interval_minutes x = ss_interval_minutes q" "ss_next_run_at x = ss_next_run_at q"
    using upsert_lookup [OF q(4)] q(3) by blast
  have "get_source_schedule b d' = Some x" using x(1) q(7) by (simp add: get_source_schedule_def)
  moreover have "source_interval_ok x"
    using q(2) x(3) by (simp add: source_schedule_ok_def source_interval_ok_def)
  ultimately have "s = x"
    using written(4) q(1,7) subscription_row_frame(1) [OF q(4)]
    by (auto simp: get_subscription_schedule_def subscription_row_frame(2) source_view_id split: if_splits)
  moreover have "\<forall>j \<in> set (fetch_jobs d'). scheduled_fetch_of w u b j \<longrightarrow> j_status j \<noteq> Queued"
    if "\<not> ss_enabled q"
    using that cancel_queued_none_left [of _ now "scheduled_fetch_of w u b" d1] q(7) by auto
  ultimately show ?thesis using q(2,5,6) x written(3) by (auto simp: source_schedule_ok_def)
qed simp

text \<open>One schedule per subscription, an allowed interval, and a next run exactly when enabled: an
  update of a schedule and a run of the scheduler keep this, whether they succeed or not.\<close>

theorem source_schedules_stay_well_formed:
  assumes "conn_ok c" "\<not> in_tx c" "sources_ok (durable c)"
    and "c' = snd (update_subscription_schedule w u b enabled interval_minutes at c)
       \<or> c' = snd (enqueue_due_sources env ag sv migration at limit c)"
  shows "sources_ok (durable c')"
proof -
  have d: "sources_ok (work c)" using assms(1-3) by (simp add: conn_ok_def)
  have cancel: "sources_ok (cancel_queued t P e) = sources_ok e" for t P e by (simp add: sources_ok_def)
  show ?thesis
    using assms(4)
  proof
    assume "c' = snd (update_subscription_schedule w u b enabled interval_minutes at c)"
    then obtain r where "update_subscription_schedule w u b enabled interval_minutes at c = (r, c')"
      by (metis prod.collapse)
    with assms(2) show ?thesis
    proof (cases rule: update_subscription_schedule_Inr)
      case (written now d')
      show ?thesis
        using update_source_body_Inr [OF written(2) d written(1)] upsert_source_ok [OF d] written(3)
        by (auto simp: cancel split: if_splits)
    qed (use assms(3) in simp)
  next
    assume "c' = snd (enqueue_due_sources env ag sv migration at limit c)"
    then obtain r where run: "enqueue_due_sources env ag sv migration at limit c = (r, c')"
      by (metis prod.collapse)
    consider "limit \<le> 0" | e where "r = Inl e" | x where "0 < limit" "r = Inr x" by (cases r) force+
    then show ?thesis
    proof cases
      case 1
      then show ?thesis using run assms(3) by (simp add: enqueue_due_sources_def)
    next
      case 2
      then show ?thesis using run enqueue_due_sources_Inl [OF assms(2)] assms(3) by auto
    next
      case 3
      then have "enqueue_due_sources env ag sv migration at limit c = (Inr x, c')" using run by simp
      then show ?thesis
        by (rule enqueue_due_sources_Inr [OF assms(2) 3(1)])
           (use sources_ok_run d due_source_rows in \<open>auto simp: source_due_def is_due_def\<close>)
    qed
  qed
qed

text \<open>A run of the source scheduler evaluates due schedules only, at most \<open>limit\<close> of them; none
  of them is due afterwards, the schedules it did not select are untouched, and every one is
  counted once as enqueued, deduplicated or skipped.\<close>

theorem due_source_schedules_are_postponed:
  assumes "\<not> in_tx c" "sources_ok (work c)" "0 < limit"
    and "enqueue_due_sources env ag sv migration (Some now) limit c = (Inr r, c')"
  shows "\<exists>rows. length rows = sr_evaluated r \<and> length rows \<le> nat limit
    \<and> (\<forall>s \<in> set rows. s \<in> set (user_source_schedules (work c)) \<and> source_due now s)
    \<and> sr_evaluated r = sr_enqueued r + sr_deduplicated r + sr_skipped r
    \<and> (\<forall>x \<in> set (user_source_schedules (durable c')).
         if ss_subscription_id x \<in> ss_subscription_id ` set rows then \<not> source_due now x
         else x \<in> set (user_source_schedules (work c)))"
proof -
  obtain rows c1 where due: "due_source_schedule_rows env now (nat limit) (work c) = Inr rows"
    and run: "run_rows (source_step env ag sv migration now) rows empty_report (c\<lparr>in_tx := True\<rparr>) = (Inr r, c1)"
    and c': "c' = commit c1"
    using assms(1,3,4) by (elim enqueue_due_sources_Inr) auto
  have rows: "\<forall>s \<in> set rows. s \<in> set (user_source_schedules (work c)) \<and> source_due now s"
    using due_source_rows [OF due] by blast
  then have "\<forall>s \<in> set rows. source_interval_ok s"
    using assms(2) by (auto simp: sources_ok_def list_all_iff source_schedule_ok_def)
  then have "ss_subscription_id x \<in> ss_subscription_id ` set rows \<longrightarrow> \<not> source_due now x"
    "ss_subscription_id x \<notin> ss_subscription_id ` set rows \<longrightarrow> x \<in> set (user_source_schedules (work c))"
    if "x \<in> set (user_source_schedules (work c1))" for x
    using source_runs.run_postpones [OF run, of x] source_runs.run_only_these [OF run, of x] that by auto
  moreover have "counters_agree r \<and> sr_evaluated r = length rows"
    using source_runs.run_counts [OF run] by (simp add: counters_agree_def empty_report_def)
  ultimately show ?thesis
    using rows due_source_rows_length [OF due] c'
    by (intro exI [of _ rows]) (auto simp: counters_agree_def)
qed

text \<open>A run of the source scheduler keeps the queue sound, and a run that raises leaves the
  database as it was.\<close>

theorem source_scheduler_is_atomic:
  assumes "queue_inv c" "\<not> in_tx c"
    and "enqueue_due_sources env ag sv migration at limit c = (r, c')"
  shows "queue_inv c' \<and> (isl r \<longrightarrow> durable c' = durable c \<and> work c' = durable c \<and> \<not> in_tx c')"
proof
  show "queue_inv c'"
  proof (cases "limit \<le> 0")
    case True
    then show ?thesis using assms by (simp add: enqueue_due_sources_def)
  next
    case False
    have "queue_inv (snd (enqueue_due_sources env ag sv migration at limit c))"
      unfolding enqueue_due_sources_def Let_def if_not_P [OF False]
      by (rule owning_queue_inv [OF assms(1)])
         (auto split: sum.split simp: source_runs.run_keeps_queue)
    then show ?thesis using assms(3) by simp
  qed
  show "isl r \<longrightarrow> durable c' = durable c \<and> work c' = durable c \<and> \<not> in_tx c'"
    using enqueue_due_sources_Inl [OF assms(2)] assms(3) by (cases r) auto
qed

subsection \<open>Schedules served by a full refresh\<close>

lemma advance_one_cases:
  "advance_one w u fin jid b (n, c) =
     (if \<forall>s \<in> set (user_source_schedules (work c)). \<not> participates w u b s then (n, c)
      else (n + row_count (participates w u b) (user_source_schedules (work c)),
        dml (\<lambda>d. d\<lparr>user_source_schedules :=
              update_where (participates w u b) (advanced fin jid) (user_source_schedules d)\<rparr>)
          (dml (cancel_queued fin (scheduled_fetch_of w u b)) c)))"
  by (simp add: advance_one_def row_count_0_iff Let_def)

text \<open>What is settled about one subscription after it was served.\<close>

definition served :: "string \<Rightarrow> string \<Rightarrow> time \<Rightarrow> string \<Rightarrow> db \<Rightarrow> bool" where
  "served w u fin b d \<longleftrightarrow>
     (\<forall>s \<in> set (user_source_schedules d). participates w u b s \<longrightarrow>
        ss_next_run_at s = Some (fin + minutes (ss_interval_minutes (source_schedule_view s))))
     \<and> ((\<exists>s \<in> set (user_source_schedules d). participates w u b s) \<longrightarrow>
        (\<forall>j \<in> set (fetch_jobs d). scheduled_fetch_of w u b j \<longrightarrow> j_status j \<noteq> Queued))"

lemma advanced_fields [simp]:
  "participates w u b (advanced fin jid s) = participates w u b s"
  "ss_next_run_at (advanced fin jid s) = Some (fin + minutes (ss_interval_minutes (source_schedule_view s)))"
  "ss_interval_minutes (source_schedule_view (advanced fin jid s)) = ss_interval_minutes (source_schedule_view s)"
  by (simp_all add: participates_def advanced_def source_schedule_view_def)

lemma queued_after_cancel:
  "j \<in> set (fetch_jobs (cancel_queued now P d)) \<Longrightarrow> j_status j = Queued \<Longrightarrow> j \<in> set (fetch_jobs d)"
  by (auto simp: cancel_queued_def table_simps cancelled_while_queued_def)

lemma advance_one_serves: "served w u fin b (work (snd (advance_one w u fin jid b (n, c))))"
proof (cases "\<forall>s \<in> set (user_source_schedules (work c)). \<not> participates w u b s")
  case True
  then show ?thesis by (auto simp: advance_one_cases served_def)
next
  case False
  let ?d = "work (snd (advance_one w u fin jid b (n, c)))"
  have j: "fetch_jobs ?d = fetch_jobs (cancel_queued fin (scheduled_fetch_of w u b) (work c))"
    and t: "user_source_schedules ?d =
      update_where (participates w u b) (advanced fin jid) (user_source_schedules (work c))"
    unfolding advance_one_cases if_not_P [OF False] by simp_all
  show ?thesis
    unfolding served_def j
    using cancel_queued_none_left [of _ fin "scheduled_fetch_of w u b" "work c"]
    by (auto simp: t table_simps)
qed

lemma advance_one_keeps_served:
  assumes "served w u fin b' (work c)"
  shows "served w u fin b' (work (snd (advance_one w u fin jid b (n, c))))"
proof (cases "\<forall>s \<in> set (user_source_schedules (work c)). \<not> participates w u b s")
  case True
  then show ?thesis using assms by (simp add: advance_one_cases)
next
  case False
  let ?d = "work (snd (advance_one w u fin jid b (n, c)))"
  have j: "fetch_jobs ?d = fetch_jobs (cancel_queued fin (scheduled_fetch_of w u b) (work c))"
    and t: "user_source_schedules ?d =
      update_where (participates w u b) (advanced fin jid) (user_source_schedules (work c))"
    unfolding advance_one_cases if_not_P [OF False] by simp_all
  have p: "(\<exists>s \<in> set (user_source_schedules ?d). participates w u b' s) \<longrightarrow>
      (\<exists>s \<in> set (user_source_schedules (work c)). participates w u b' s)"
    unfolding t by (auto simp: table_simps)
  have n: "\<forall>s \<in> set (user_source_schedules ?d). participates w u b' s \<longrightarrow>
      ss_next_run_at s = Some (fin + minutes (ss_interval_minutes (source_schedule_view s)))"
    using assms unfolding t served_def by (auto simp: table_simps)
  show ?thesis
    unfolding served_def j using n p assms queued_after_cancel
    by (fastforce simp: served_def)
qed

lemma advance_all_serves:
  "b \<in> set bs \<or> served w u fin b (work (snd st)) \<Longrightarrow>
   served w u fin b (work (snd (fold (advance_one w u fin jid) bs st)))"
proof (induction bs arbitrary: st)
  case (Cons a bs)
  obtain n c where st: "st = (n, c)" by fastforce
  have "b \<in> set bs \<or> served w u fin b (work (snd (advance_one w u fin jid a st)))"
    using Cons.prems advance_one_serves [of w u fin b jid n c]
      advance_one_keeps_served [of w u fin b c jid a n] st by auto
  from Cons.IH [OF this] show ?case by simp
qed simp

text \<open>When a full refresh finishes, every enabled schedule of a participating subscription runs
  next one interval after the finish, and the fetches it had already queued are cancelled.\<close>

theorem full_refresh_serves_participants:
  assumes "Some b \<in> set subs" "b \<noteq> []"
    and "advance_after_full_refresh w u subs fin jid c = (n, c')"
    and "s \<in> set (user_source_schedules (work c'))" "participates w u b s"
  shows "ss_next_run_at s = Some (fin + minutes (ss_interval_minutes (source_schedule_view s)))
    \<and> (\<forall>j \<in> set (fetch_jobs (work c')). scheduled_fetch_of w u b j \<longrightarrow> j_status j \<noteq> Queued)"
proof -
  let ?ids = "sort (remdups (map the (filter (\<lambda>b. b \<noteq> None \<and> b \<noteq> Some []) subs)))"
  have "b \<in> set ?ids" using assms(1,2) by force
  then have "served w u fin b (work (snd (fold (advance_one w u fin jid) ?ids (0, c))))"
    by (intro advance_all_serves) simp
  then have "served w u fin b (work c')"
    using assms(3) by (simp add: advance_after_full_refresh_def)
  then show ?thesis using assms(4,5) by (auto simp: served_def)
qed

subsection \<open>Reading many schedules at once\<close>

lemma foldl_map_upds:
  assumes "\<And>x y. x \<in> set xs \<Longrightarrow> y \<in> set xs \<Longrightarrow> k x = k y \<Longrightarrow> v x = v y" "x \<in> set xs"
  shows "foldl (\<lambda>m x. m(k x \<mapsto> v x)) m xs (k x) = Some (v x)"
  using assms
proof (induction xs rule: rev_induct)
  case (snoc z xs)
  let ?m = "foldl (\<lambda>m x. m(k x \<mapsto> v x)) m xs"
  have last: "foldl (\<lambda>m x. m(k x \<mapsto> v x)) m (xs @ [z]) = ?m(k z \<mapsto> v z)"
    by (simp only: foldl_append foldl.simps)
  show ?case
  proof (cases "k x = k z")
    case True
    moreover have "v x = v z" by (rule snoc.prems(1) [OF snoc.prems(2) _ True]) simp
    ultimately show ?thesis unfolding last by (simp only: fun_upd_same)
  next
    case False
    then have x: "x \<in> set xs" using snoc.prems(2) by auto
    have "?m (k x) = Some (v x)"
    proof (rule snoc.IH [OF _ x])
      fix a b assume ab: "a \<in> set xs" "b \<in> set xs" "k a = k b"
      have "a \<in> set (xs @ [z])" "b \<in> set (xs @ [z])" using ab(1,2) by auto
      from snoc.prems(1) [OF this ab(3)] show "v a = v b" .
    qed
    then show ?thesis unfolding last fun_upd_other [OF False] .
  qed
qed simp

text \<open>A schedule belongs to its subscription: it names the subscription's user and source and the source's
  workspace.\<close>

definition owned_schedule :: "db \<Rightarrow> source_schedule \<Rightarrow> bool" where
  "owned_schedule d q \<longleftrightarrow>
     (case get_subscription (ss_subscription_id q) d of
        None \<Rightarrow> False
      | Some sub \<Rightarrow> ss_user_id q = us_user_id sub \<and> ss_source_id q = us_source_id sub
          \<and> map_option s_workspace_id (get_source (us_source_id sub) d) = Some (ss_workspace_id q))"

definition schedules_owned :: "db \<Rightarrow> bool" where
  "schedules_owned d \<longleftrightarrow> list_all (owned_schedule d) (user_source_schedules d)"

text \<open>
  The writers of the schedules, each on a connection of its own, and what others do: they create, change
  and delete users, sources and subscriptions (a deleted subscription or source takes its schedules with
  it) and rewrite what a schedule says, but never whom a subscription, a source or a schedule belongs to.
\<close>

datatype schedule_op =
    UpdateScheduleOp string string string "bool option" "int option" "time option" time "nat \<Rightarrow> string"
  | DueSchedulesOp "string \<Rightarrow> string option" actor_gates schedule_service bool "time option" int time "nat \<Rightarrow> string"
  | FullRefreshOp string string "string option list" time string time "nat \<Rightarrow> string"
  | OwnersOp "user list" "source list" "subscription list" "source_schedule \<Rightarrow> source_schedule"

definition owners_kept :: "source list \<Rightarrow> subscription list \<Rightarrow> db \<Rightarrow> bool" where
  "owners_kept srcs subs d \<longleftrightarrow>
     list_all (\<lambda>x. list_all (\<lambda>y. us_id x = us_id y \<longrightarrow> us_user_id x = us_user_id y \<and> us_source_id x = us_source_id y)
       (user_subscriptions d)) subs
     \<and> list_all (\<lambda>x. list_all (\<lambda>y. s_id x = s_id y \<longrightarrow> s_workspace_id x = s_workspace_id y) (source_catalog d)) srcs"

definition rewrite_schedule :: "(source_schedule \<Rightarrow> source_schedule) \<Rightarrow> source_schedule \<Rightarrow> source_schedule" where
  "rewrite_schedule f q = (f q)\<lparr>ss_subscription_id := ss_subscription_id q, ss_workspace_id := ss_workspace_id q,
     ss_user_id := ss_user_id q, ss_source_id := ss_source_id q\<rparr>"

fun schedule_step :: "schedule_op \<Rightarrow> db \<Rightarrow> db" where
  "schedule_step (UpdateScheduleOp w u b enabled interval_minutes at t hex) d =
     durable (snd (update_subscription_schedule w u b enabled interval_minutes at (open_conn d t hex)))"
| "schedule_step (DueSchedulesOp env ag sv migration at limit t hex) d =
     durable (snd (enqueue_due_sources env ag sv migration at limit (open_conn d t hex)))"
| "schedule_step (FullRefreshOp w u subs finished jid t hex) d =
     durable (commit (snd (advance_after_full_refresh w u subs finished jid (open_conn d t hex))))"
| "schedule_step (OwnersOp us srcs subs f) d =
     (if owners_kept srcs subs d
      then d\<lparr>users := us, source_catalog := srcs, user_subscriptions := subs,
             user_source_schedules := map (rewrite_schedule f)
               (filter (\<lambda>q. ss_subscription_id q \<in> us_id ` set subs \<and> ss_source_id q \<in> s_id ` set srcs)
                 (user_source_schedules d))\<rparr>
      else d)"

text \<open>Writes that keep whom the rows belong to.\<close>

definition keeps_owners :: "db \<Rightarrow> db \<Rightarrow> bool" where
  "keeps_owners d d' \<longleftrightarrow> user_subscriptions d' = user_subscriptions d \<and> source_catalog d' = source_catalog d
     \<and> (\<forall>q' \<in> set (user_source_schedules d'). \<exists>q \<in> set (user_source_schedules d).
          ss_subscription_id q' = ss_subscription_id q \<and> ss_workspace_id q' = ss_workspace_id q
          \<and> ss_user_id q' = ss_user_id q \<and> ss_source_id q' = ss_source_id q)"

lemma keeps_owners_refl: "keeps_owners d d"
  by (auto simp: keeps_owners_def)

lemma keeps_owners_trans: "keeps_owners d d1 \<Longrightarrow> keeps_owners d1 d2 \<Longrightarrow> keeps_owners d d2"
  unfolding keeps_owners_def by (metis (no_types, opaque_lifting))

lemma keeps_owners_update:
  assumes "user_source_schedules d' = update_where P f (user_source_schedules d)"
    "user_subscriptions d' = user_subscriptions d" "source_catalog d' = source_catalog d"
    "\<And>q. ss_subscription_id (f q) = ss_subscription_id q \<and> ss_workspace_id (f q) = ss_workspace_id q
       \<and> ss_user_id (f q) = ss_user_id q \<and> ss_source_id (f q) = ss_source_id q"
  shows "keeps_owners d d'"
  using assms by (fastforce simp: keeps_owners_def table_simps)

lemma owned_schedule_tables:
  assumes "user_subscriptions d' = user_subscriptions d" "source_catalog d' = source_catalog d"
  shows "owned_schedule d' q = owned_schedule d q"
proof -
  have "get_source i d' = get_source i d" "get_subscription i d' = get_subscription i d" for i
    using assms by (simp_all add: get_source_def get_subscription_def)
  then show ?thesis unfolding owned_schedule_def by presburger
qed

lemma schedules_owned_keeps: "keeps_owners d d' \<Longrightarrow> schedules_owned d \<Longrightarrow> schedules_owned d'"
  unfolding schedules_owned_def list_all_iff
proof
  fix q' assume k: "keeps_owners d d'" and o: "\<forall>q \<in> set (user_source_schedules d). owned_schedule d q"
    and q': "q' \<in> set (user_source_schedules d')"
  obtain q where q: "q \<in> set (user_source_schedules d)" "ss_subscription_id q' = ss_subscription_id q"
      "ss_workspace_id q' = ss_workspace_id q" "ss_user_id q' = ss_user_id q" "ss_source_id q' = ss_source_id q"
    using k q' unfolding keeps_owners_def by blast
  have "owned_schedule d q'" using bspec [OF o q(1)] q(2-5) by (auto simp: owned_schedule_def split: option.splits)
  then show "owned_schedule d' q'" using owned_schedule_tables [of d' d q'] k by (simp add: keeps_owners_def)
qed

lemma source_step_owners:
  assumes "run_rows (source_step env ag sv migration now) rows r c = (Inr r', c')" "in_tx c"
  shows "keeps_owners (work c) (work c')"
proof -
  let ?I = "\<lambda>d. in_tx d \<and> keeps_owners (work c) (work d)"
  have "?I c'"
  proof (rule run_rows_invariant [OF assms(1), where I = ?I])
    fix s r d r' d'
    assume d: "?I d" "source_step env ag sv migration now s r d = (Inr r', d')"
    have "in_tx d'" using source_runs.keeps_tx [of d env ag sv migration now s r] d by simp
    moreover have "keeps_owners (work d) (work d')"
      using source_step_Inr [OF conjunct1 [OF d(1)] d(2)]
      by (auto simp: source_effect_def source_write_def intro: keeps_owners_update)
    ultimately show "?I d'" using d(1) keeps_owners_trans by blast
  qed (use assms keeps_owners_refl in simp)
  then show ?thesis by blast
qed

lemma due_schedules_owners:
  "keeps_owners d (durable (snd (enqueue_due_sources env ag sv migration at limit (open_conn d t hex))))"
proof -
  let ?c = "open_conn d t hex"
  obtain r c' where run: "enqueue_due_sources env ag sv migration at limit ?c = (r, c')" by fastforce
  have tx: "\<not> in_tx ?c" and d: "durable ?c = d" "work ?c = d" by (simp_all add: open_conn_def)
  consider "limit \<le> 0" | e where "r = Inl e" | x where "0 < limit" "r = Inr x" by (cases r) force+
  then have "keeps_owners d (durable c')"
  proof cases
    case 1
    then show ?thesis using run d keeps_owners_refl by (simp add: enqueue_due_sources_def)
  next
    case 2
    then show ?thesis using run enqueue_due_sources_Inl [OF tx, of env ag sv migration at limit e c'] d keeps_owners_refl by simp
  next
    case 3
    then have "enqueue_due_sources env ag sv migration at limit ?c = (Inr x, c')" using run by simp
    then show ?thesis
      by (rule enqueue_due_sources_Inr [OF tx 3(1)]) (use source_step_owners d in \<open>fastforce simp: commit_def\<close>)
  qed
  then show ?thesis by (simp add: run)
qed

lemma full_refresh_owners: "keeps_owners (work c) (work (snd (advance_after_full_refresh w u subs fin jid c)))"
proof -
  have one: "keeps_owners (work c) (work (snd (advance_one w u fin jid b (n, c))))" for b n c
  proof (cases "\<forall>s \<in> set (user_source_schedules (work c)). \<not> participates w u b s")
    case True
    then show ?thesis by (simp add: advance_one_cases keeps_owners_refl)
  next
    case False
    show ?thesis unfolding advance_one_cases if_not_P [OF False]
      by (rule keeps_owners_update [where P = "participates w u b" and f = "advanced fin jid"]) (simp_all add: advanced_def)
  qed
  have "keeps_owners (work (snd st)) (work (snd (fold (advance_one w u fin jid) bs st)))" for bs st
  proof (induction bs arbitrary: st)
    case (Cons b bs)
    show ?case using one [of "snd st" b "fst st"] Cons.IH keeps_owners_trans by fastforce
  qed (simp add: keeps_owners_refl)
  from this [of "(0, c)"] show ?thesis by (simp add: advance_after_full_refresh_def)
qed

lemma subscription_row_Inr:
  "subscription_row w u b d = Inr (sub, src, user) \<Longrightarrow>
   get_subscription b d = Some sub \<and> get_source (us_source_id sub) d = Some src
   \<and> us_user_id sub = u \<and> s_workspace_id src = w"
  by (auto simp: subscription_row_def split: option.splits if_splits)

lemma update_schedule_owned:
  assumes "schedules_owned d" "update_source_body w u b enabled interval_minutes now d = (Inr x, d')"
  shows "schedules_owned d'"
proof -
  obtain sub src user where row: "subscription_row w u b d = Inr (sub, src, user)"
    using assms(2) by (auto simp: update_source_body_def split: sum.splits)
  obtain q d1 where q: "upsert_source_schedule q d = Inr d1" "ss_subscription_id q = b" "ss_workspace_id q = w"
      "ss_user_id q = u" "ss_source_id q = us_source_id sub" and d': "d' = d1 \<or> d' = cancel_queued now (scheduled_fetch_of w u b) d1"
    using assms(2) row unfolding update_source_body_def Let_def
    by (auto simp: default_source_schedule_def split: if_splits sum.splits)
  have new: "owned_schedule d q" using subscription_row_Inr [OF row] q by (simp add: owned_schedule_def)
  have "schedules_owned d1"
  proof (cases "ss_subscription_id q \<in> ss_subscription_id ` set (user_source_schedules d)")
    case True
    then have "keeps_owners d d1" using q(1)
      by (intro keeps_owners_update [where P = "\<lambda>x. ss_subscription_id x = ss_subscription_id q"
            and f = "\<lambda>x. x\<lparr>ss_enabled := ss_enabled q, ss_interval_minutes := ss_interval_minutes q,
                      ss_next_run_at := ss_next_run_at q, ss_updated_at := ss_updated_at q\<rparr>"])
         (auto simp: upsert_source_schedule_def split: if_splits)
    then show ?thesis using assms(1) by (rule schedules_owned_keeps)
  next
    case False
    then have d1: "d1 = d\<lparr>user_source_schedules := user_source_schedules d @ [q]\<rparr>"
      using q(1) by (auto simp: upsert_source_schedule_def split: if_splits)
    have "owned_schedule d1 y = owned_schedule d y" for y by (rule owned_schedule_tables) (simp_all add: d1)
    then show ?thesis using assms(1) new by (simp add: schedules_owned_def d1 list_all_iff)
  qed
  moreover have "keeps_owners d1 (cancel_queued now P d1)" for P by (auto simp: keeps_owners_def)
  ultimately show ?thesis using d' schedules_owned_keeps by blast
qed

lemma owners_step_owned:
  assumes "schedules_owned d" "owners_kept srcs subs d"
  shows "schedules_owned (schedule_step (OwnersOp us srcs subs f) d)"
  unfolding schedules_owned_def list_all_iff
proof
  let ?d' = "schedule_step (OwnersOp us srcs subs f) d"
  fix q' assume "q' \<in> set (user_source_schedules ?d')"
  then obtain q where q: "q \<in> set (user_source_schedules d)" "q' = rewrite_schedule f q"
      "ss_subscription_id q \<in> us_id ` set subs" "ss_source_id q \<in> s_id ` set srcs"
    using assms(2) by auto
  obtain sub src where own: "get_subscription (ss_subscription_id q) d = Some sub" "get_source (us_source_id sub) d = Some src"
      "ss_user_id q = us_user_id sub" "ss_source_id q = us_source_id sub" "ss_workspace_id q = s_workspace_id src"
  proof -
    have "owned_schedule d q" using assms(1) q(1) by (simp add: schedules_owned_def list_all_iff)
    then show thesis using that by (auto simp: owned_schedule_def split: option.splits)
  qed
  have sub: "sub \<in> set (user_subscriptions d)" "us_id sub = ss_subscription_id q"
    using own(1) unfolding get_subscription_def by (auto dest: lookup_row_SomeD)
  have src: "src \<in> set (source_catalog d)" "s_id src = ss_source_id q"
    using own(2,4) unfolding get_source_def by (auto dest: lookup_row_SomeD)
  obtain sub' where sub': "get_subscription (ss_subscription_id q) ?d' = Some sub'"
    using q(3) assms(2) lookup_row_None_iff [of us_id "ss_subscription_id q" subs]
    by (auto simp: get_subscription_def)
  then have "sub' \<in> set subs" "us_id sub' = us_id sub"
    using assms(2) sub(2) by (auto simp: get_subscription_def dest: lookup_row_SomeD)
  then have same: "us_user_id sub' = us_user_id sub" "us_source_id sub' = us_source_id sub"
    using assms(2) sub(1) by (auto simp: owners_kept_def list_all_iff)
  obtain src' where src': "get_source (ss_source_id q) ?d' = Some src'"
    using q(4) assms(2) lookup_row_None_iff [of s_id "ss_source_id q" srcs]
    by (auto simp: get_source_def)
  then have "src' \<in> set srcs" "s_id src' = s_id src"
    using assms(2) src(2) by (auto simp: get_source_def dest: lookup_row_SomeD)
  then have "s_workspace_id src' = s_workspace_id src" using assms(2) src(1) by (auto simp: owners_kept_def list_all_iff)
  then show "owned_schedule ?d' q'" unfolding owned_schedule_def
    using q(2) sub' src' same own by (simp add: rewrite_schedule_def del: schedule_step.simps)
qed

lemma schedule_step_owned: "schedules_owned d \<Longrightarrow> schedules_owned (schedule_step op d)"
proof (cases op)
  case (UpdateScheduleOp w u b enabled interval_minutes at t hex)
  assume d: "schedules_owned d"
  obtain r c' where run: "update_subscription_schedule w u b enabled interval_minutes at (open_conn d t hex) = (r, c')" by fastforce
  have "\<not> in_tx (open_conn d t hex)" by (simp add: open_conn_def)
  from this run have "schedules_owned (durable c')"
  proof (cases rule: update_subscription_schedule_Inr)
    case (written now d')
    then show ?thesis using update_schedule_owned [OF d] by (simp add: open_conn_def)
  qed (use d in \<open>simp add: open_conn_def\<close>)
  then show ?thesis by (simp add: UpdateScheduleOp run)
next
  case (FullRefreshOp w u subs fin jid t hex)
  assume "schedules_owned d"
  moreover have "keeps_owners d (work (snd (advance_after_full_refresh w u subs fin jid (open_conn d t hex))))"
    using full_refresh_owners [of "open_conn d t hex" w u subs fin jid] by (simp add: open_conn_def)
  ultimately have "schedules_owned (work (snd (advance_after_full_refresh w u subs fin jid (open_conn d t hex))))"
    by (simp only: schedules_owned_keeps)
  then show ?thesis by (simp add: FullRefreshOp commit_def)
next
  case (OwnersOp us srcs subs f)
  assume "schedules_owned d"
  then show ?thesis using owners_step_owned [of d srcs subs us f] by (cases "owners_kept srcs subs d") (simp_all add: OwnersOp)
next
  case (DueSchedulesOp env ag sv migration at limit t hex)
  assume "schedules_owned d"
  then show ?thesis using schedules_owned_keeps [OF due_schedules_owners] by (simp add: DueSchedulesOp)
qed

lemma schedules_stay_owned: "schedules_owned d \<Longrightarrow> schedules_owned (fold schedule_step ops d)"
  by (induction ops arbitrary: d) (simp_all add: schedule_step_owned)

text \<open>C36: Loading the schedules of a user's subscriptions in one query gives, for each of them that can be
  read alone, what reading that one schedule gives: from a database without schedules on, after any
  sequence of updates, scheduler runs, full refreshes and changes of users, sources and subscriptions
  that do not rewrite whom a row belongs to.\<close>

theorem bulk_schedules_equal_single_reads:
  assumes "user_source_schedules d0 = []" "d = fold schedule_step ops d0"
    and "\<And>b. b \<in> set subs \<Longrightarrow> get_subscription (us_id b) d = Some b"
    and "b \<in> set subs" "get_subscription_schedule w u (us_id b) d = Inr s"
  shows "list_user_subscription_schedules w u subs d (us_id b) = Some s"
proof -
  let ?load = "\<lambda>sub. case find (\<lambda>q. ss_workspace_id q = w \<and> ss_user_id q = u \<and> ss_subscription_id q = us_id sub)
        (user_source_schedules d) of
      Some q \<Rightarrow> if ss_source_id q = us_source_id sub then source_schedule_view q
                else default_source_schedule (us_id sub) w u (us_source_id sub)
    | None \<Rightarrow> default_source_schedule (us_id sub) w u (us_source_id sub)"
  have "list_user_subscription_schedules w u subs d (us_id b) = Some (?load b)"
    unfolding list_user_subscription_schedules_def Let_def
  proof (rule foldl_map_upds [where k = us_id])
    fix x y assume xy: "x \<in> set subs" "y \<in> set subs" "us_id x = us_id y"
    have "Some x = Some y"
      using assms(3) [OF xy(1)] assms(3) [OF xy(2)] unfolding xy(3) by simp
    then have "x = y" by simp
    show "?load x = ?load y" unfolding \<open>x = y\<close> by (rule refl)
  qed (rule assms(4))
  moreover obtain sub src user where row: "subscription_row w u (us_id b) d = Inr (sub, src, user)"
    using assms(5) by (auto simp: get_subscription_schedule_def split: sum.splits)
  have sub: "get_subscription (us_id b) d = Some b" "sub = b" "get_source (us_source_id b) d = Some src"
    "us_user_id b = u" "s_workspace_id src = w"
    using subscription_row_Inr [OF row] assms(3) [OF assms(4)] by auto
  have "schedules_owned d0" using assms(1) by (simp add: schedules_owned_def)
  then have owned: "schedules_owned d" unfolding assms(2) by (rule schedules_stay_owned)
  have own: "ss_workspace_id q = w \<and> ss_user_id q = u \<and> ss_source_id q = us_source_id b"
    if "q \<in> set (user_source_schedules d)" "ss_subscription_id q = us_id b" for q
    using owned that sub by (auto simp: schedules_owned_def list_all_iff owned_schedule_def split: option.splits)
  have "(ss_workspace_id q = w \<and> ss_user_id q = u \<and> ss_subscription_id q = us_id b) = (ss_subscription_id q = us_id b)"
    if "q \<in> set (user_source_schedules d)" for q
    using own [OF that] by blast
  then have look: "find (\<lambda>q. ss_workspace_id q = w \<and> ss_user_id q = u \<and> ss_subscription_id q = us_id b)
      (user_source_schedules d) = get_source_schedule (us_id b) d"
    unfolding get_source_schedule_def lookup_row_def by (rule find_cong [OF refl])
  have "get_subscription_schedule w u (us_id b) d = Inr (?load b)"
  proof (cases "get_source_schedule (us_id b) d")
    case None
    then show ?thesis
      unfolding look by (simp add: get_subscription_schedule_def row sub(2))
  next
    case (Some q)
    then have "q \<in> set (user_source_schedules d)" "ss_subscription_id q = us_id b"
      unfolding get_source_schedule_def using lookup_row_SomeD by fastforce+
    then have "ss_source_id q = us_source_id b" using own by blast
    then show ?thesis
      unfolding look Some by (simp add: get_subscription_schedule_def row sub(2) Some)
  qed
  ultimately show ?thesis using assms(5) by simp
qed

subsection \<open>Witnesses\<close>

definition sample_source_schedule :: source_schedule where
  "sample_source_schedule =
     (default_source_schedule ''b'' ''w'' ''u'' ''s'')\<lparr>ss_enabled := True, ss_next_run_at := Some 5\<rparr>"

definition sample_sources :: conn where
  "sample_sources = open_conn (sample_db\<lparr>user_source_schedules := [sample_source_schedule]\<rparr>) 1000 unary"

definition open_gates :: actor_gates where
  "open_gates = \<lparr>ag_youtube = (\<lambda>_. False), ag_execution = (\<lambda>_ _ _. None), ag_pool = (\<lambda>_ _ _. None)\<rparr>"

lemma sample_sources_facts:
  "\<not> in_tx sample_sources" "conn_ok sample_sources" "queue_inv sample_sources"
  "sources_ok (work sample_sources)" "sources_ok (durable sample_sources)"
proof -
  show "\<not> in_tx sample_sources" "conn_ok sample_sources" "queue_inv sample_sources"
    by (simp_all add: sample_sources_def queue_inv_fresh conn_ok_def sample_db_def)
  show "sources_ok (work sample_sources)" "sources_ok (durable sample_sources)" by code_simp+
qed

lemma source_schedule_update_takes_effect_witness:
  "\<exists>s c'. update_subscription_schedule ''w'' ''u'' ''b'' (Some False) (Some 30) None sample_sources = (Inr s, c')
     \<and> ss_enabled s = False \<and> ss_interval_minutes s = 30"
proof -
  have "isl (fst (update_subscription_schedule ''w'' ''u'' ''b'' (Some False) (Some 30) None sample_sources)) = False"
    by code_simp
  from any_outcome [OF this] obtain s c' where
    c: "update_subscription_schedule ''w'' ''u'' ''b'' (Some False) (Some 30) None sample_sources = (Inr s, c')"
    by blast
  from source_schedule_update_takes_effect [OF sample_sources_facts(1,4) c] c show ?thesis by blast
qed

lemma source_schedules_stay_well_formed_witness:
  "sources_ok (durable (snd (enqueue_due_sources (\<lambda>_. None) open_gates sample_service False None 10 sample_sources)))"
  by (rule source_schedules_stay_well_formed [OF sample_sources_facts(2,1,5) disjI2 [OF refl]])

lemma due_source_schedules_are_postponed_witness:
  "\<exists>r c'. enqueue_due_sources (\<lambda>_. None) open_gates sample_service False (Some 1000) 10 sample_sources = (Inr r, c')
     \<and> sr_evaluated r = sr_enqueued r + sr_deduplicated r + sr_skipped r \<and> sr_enqueued r = 1"
proof -
  let ?run = "enqueue_due_sources (\<lambda>_. None) open_gates sample_service False (Some 1000) 10 sample_sources"
  have ev: "case fst ?run of Inl _ \<Rightarrow> False | Inr r \<Rightarrow> sr_enqueued r = 1" by code_simp
  then obtain r c' where c: "?run = (Inr r, c')" "sr_enqueued r = 1"
    by (cases ?run) (auto split: sum.splits)
  from due_source_schedules_are_postponed [OF sample_sources_facts(1,4) _ c(1)] c show ?thesis by auto
qed

lemma source_scheduler_is_atomic_witness:
  "queue_inv (snd (enqueue_due_sources (\<lambda>_. None) open_gates sample_service False None 10 sample_sources))"
  using source_scheduler_is_atomic [OF sample_sources_facts(3,1) surjective_pairing] by blast

lemma full_refresh_serves_participants_witness:
  "\<exists>s \<in> set (user_source_schedules (work (snd
      (advance_after_full_refresh ''w'' ''u'' [Some ''b'', None] 9000 ''job_x'' sample_sources)))).
     ss_next_run_at s = Some (9000 + minutes 60)"
proof -
  let ?a = "advance_after_full_refresh ''w'' ''u'' [Some ''b'', None] 9000 ''job_x'' sample_sources"
  obtain n c' where c: "?a = (n, c')" by fastforce
  have e: "list_ex (\<lambda>s. participates ''w'' ''u'' ''b'' s \<and> ss_interval_minutes (source_schedule_view s) = 60)
      (user_source_schedules (work (snd ?a)))" by code_simp
  then obtain s where s: "s \<in> set (user_source_schedules (work c'))" "participates ''w'' ''u'' ''b'' s"
    "ss_interval_minutes (source_schedule_view s) = 60" unfolding c by (auto simp: list_ex_iff)
  from full_refresh_serves_participants [OF _ _ c s(1,2)] s c show ?thesis by auto
qed

definition sample_schedule_ops :: "schedule_op list" where
  "sample_schedule_ops = [UpdateScheduleOp ''w'' ''u'' ''b'' (Some True) (Some 30) None 1000 unary,
     DueSchedulesOp (\<lambda>_. None) open_gates sample_service False None 10 9000 unary]"

lemma bulk_schedules_equal_single_reads_witness:
  fixes d :: db
  defines "d \<equiv> fold schedule_step sample_schedule_ops sample_db"
  shows "\<exists>s. get_subscription_schedule ''w'' ''u'' ''b'' d = Inr s \<and> ss_interval_minutes s = 30
     \<and> list_user_subscription_schedules ''w'' ''u'' (user_subscriptions d) d ''b'' = Some s"
proof -
  have ev: "case get_subscription_schedule ''w'' ''u'' ''b'' d of Inl _ \<Rightarrow> False | Inr s \<Rightarrow> ss_interval_minutes s = 30"
    unfolding d_def by code_simp
  then obtain s where s: "get_subscription_schedule ''w'' ''u'' ''b'' d = Inr s" "ss_interval_minutes s = 30"
    by (auto split: sum.splits)
  have dd: "d = fold schedule_step sample_schedule_ops sample_db" by (simp add: d_def)
  have none: "user_source_schedules sample_db = []" by (simp add: sample_db_def)
  have "map us_id (user_subscriptions d) = [''b'']" unfolding d_def by code_simp
  then obtain b where b: "user_subscriptions d = [b]" "us_id b = ''b''" by auto
  have "get_subscription (us_id x) d = Some x" if "x \<in> set (user_subscriptions d)" for x
    using that b(1) by (simp add: get_subscription_def lookup_row_def)
  from bulk_schedules_equal_single_reads [OF none dd this, of "user_subscriptions d" b "''w''" "''u''" s] s b show ?thesis by simp
qed

end
