(* ===== verification/SourceHealth.thy ===== *)
theory SourceHealth
  imports SourceSchedule
begin

section \<open>The health of a user's sources\<close>

text \<open>
  \<open>src/src/services/source_health.py\<close>: what the fetches of a job say about a subscription's
  source, applied once per subscription and job inside the transaction that finishes the job.
  The redaction of a diagnostic message, a series of regular expressions, is the argument
  \<open>sanitize\<close>; the projection shown to the user, which only reads, is left out.
\<close>

subsection \<open>Outcomes of a run\<close>

record run_issue =
  ri_stage :: string
  ri_code :: string
  ri_message :: string
  ri_retryable :: bool

record source_outcome =
  oc_source_id :: string
  oc_subscription_id :: "string option"
  oc_status :: string
  oc_fetched_count :: int
  oc_issue :: "run_issue option"

subsection \<open>Reading and resetting\<close>

definition get_health :: "string \<Rightarrow> db \<Rightarrow> source_health option" where
  "get_health b d = lookup_row h_subscription_id b (user_source_health d)"

definition reset_source :: "string \<Rightarrow> string \<Rightarrow> bool \<Rightarrow> conn \<Rightarrow> (conn, nat) outcome" where
  "reset_source w s do_commit c =
     (let P = (\<lambda>h. h_workspace_id h = w \<and> h_source_id h = s);
          c1 = dml (\<lambda>d. d\<lparr>user_source_health := filter (\<lambda>h. \<not> P h) (user_source_health d)\<rparr>) c
      in Return (row_count P (user_source_health (work c))) (if do_commit then commit c1 else c1))"

subsection \<open>Applying outcomes\<close>

definition health_scope_error :: exn where
  "health_scope_error = PermissionError ''source health job scope or ownership mismatch''"

definition health_owner_error :: exn where
  "health_owner_error = PermissionError ''source outcome ownership mismatch''"

definition health_job :: "string \<Rightarrow> string \<Rightarrow> string \<Rightarrow> db \<Rightarrow> exn + job" where
  "health_job w u jid d =
     (case find_job jid d of
        None \<Rightarrow> Inl health_scope_error
      | Some j \<Rightarrow>
         if j_workspace_id j \<noteq> w \<or> j_user_id j \<noteq> u
            \<or> j_job_type j \<notin> {''user_feed_refresh'', ''source_fetch''}
         then Inl health_scope_error else Inr j)"

definition in_job_scope :: "job \<Rightarrow> string \<Rightarrow> source_outcome \<Rightarrow> bool" where
  "in_job_scope j b oc \<longleftrightarrow>
     j_job_type j \<noteq> ''source_fetch''
     \<or> truthy (or_empty (j_source_id j)) \<and> j_source_id j = Some (oc_source_id oc)
       \<and> (truthy (or_empty (j_subscription_id j)) \<longrightarrow> j_subscription_id j = Some b)"

definition owns_outcome :: "string \<Rightarrow> string \<Rightarrow> string \<Rightarrow> source_outcome \<Rightarrow> db \<Rightarrow> bool" where
  "owns_outcome w u b oc d \<longleftrightarrow>
     (case get_subscription b d of
        None \<Rightarrow> False
      | Some sub \<Rightarrow>
         (case (get_user (us_user_id sub) d, get_source (us_source_id sub) d) of
            (Some user, Some src) \<Rightarrow>
              us_user_id sub = u \<and> us_source_id sub = oc_source_id oc
              \<and> u_workspace_id user = w \<and> s_workspace_id src = w
          | _ \<Rightarrow> False))"

text \<open>The row after an outcome, from the row before it.\<close>

definition next_health ::
  "(string \<Rightarrow> string) \<Rightarrow> string \<Rightarrow> string \<Rightarrow> string \<Rightarrow> string \<Rightarrow> time \<Rightarrow> time \<Rightarrow> source_outcome
   \<Rightarrow> source_health option \<Rightarrow> exn + source_health" where
  "next_health sanitize w u b jid attempted now oc cur =
     (let row = \<lparr>h_subscription_id = b, h_workspace_id = w, h_user_id = u,
            h_source_id = oc_source_id oc, h_status = Healthy, h_last_attempt_at = attempted,
            h_last_success_at = None, h_last_failure_at = None, h_consecutive_failures = 0,
            h_last_fetched_count = max (oc_fetched_count oc) 0,
            h_last_issue_stage = None, h_last_issue_code = None, h_last_issue_message = None,
            h_last_issue_retryable = None, h_last_job_id = Some jid,
            h_created_at = (case cur of None \<Rightarrow> now | Some h \<Rightarrow> h_created_at h),
            h_updated_at = now\<rparr>;
          failures = (case cur of None \<Rightarrow> 1 | Some h \<Rightarrow> h_consecutive_failures h + 1)
      in if oc_status oc = ''succeeded'' then
           Inr (row\<lparr>h_last_success_at := Some attempted,
                   h_last_failure_at := Option.bind cur h_last_failure_at\<rparr>)
         else if oc_status oc = ''failed'' then
           Inr (row\<lparr>h_status := (if failures = 1 then Degraded else Failing),
                   h_consecutive_failures := failures,
                   h_last_success_at := Option.bind cur h_last_success_at,
                   h_last_failure_at := Some attempted,
                   h_last_issue_stage := map_option ri_stage (oc_issue oc),
                   h_last_issue_code := map_option ri_code (oc_issue oc),
                   h_last_issue_message := map_option (sanitize \<circ> ri_message) (oc_issue oc),
                   h_last_issue_retryable := map_option ri_retryable (oc_issue oc)\<rparr>)
         else Inl (ValueError (''unsupported source outcome status: '' @ oc_status oc)))"

text \<open>INSERT with ON CONFLICT DO UPDATE of every column but \<open>created_at\<close>.\<close>

definition upsert_health :: "source_health \<Rightarrow> db \<Rightarrow> db" where
  "upsert_health h d =
     (if h_subscription_id h \<in> h_subscription_id ` set (user_source_health d)
      then d\<lparr>user_source_health := update_where (\<lambda>x. h_subscription_id x = h_subscription_id h)
               (\<lambda>x. h\<lparr>h_created_at := h_created_at x\<rparr>) (user_source_health d)\<rparr>
      else d\<lparr>user_source_health := user_source_health d @ [h]\<rparr>)"

definition applied_pairs :: "db \<Rightarrow> (string \<times> string) set" where
  "applied_pairs d = (\<lambda>a. (ha_subscription_id a, ha_job_id a)) ` set (user_source_health_applications d)"

definition apply_outcome ::
  "(string \<Rightarrow> string) \<Rightarrow> string \<Rightarrow> string \<Rightarrow> job \<Rightarrow> time \<Rightarrow> time \<Rightarrow> source_outcome \<Rightarrow> db
   \<Rightarrow> exn + (string list \<times> db)" where
  "apply_outcome sanitize w u j attempted now oc d =
     (let b = or_empty (oc_subscription_id oc); jid = j_id j
      in if \<not> truthy b then Inr ([], d)
         else if \<not> in_job_scope j b oc then Inl health_scope_error
         else if \<not> owns_outcome w u b oc d then Inl health_owner_error
         else if (b, jid) \<in> applied_pairs d then Inr ([b], d)
         else
        (let d1 = d\<lparr>user_source_health_applications := user_source_health_applications d
               @ [\<lparr>ha_subscription_id = b, ha_job_id = jid, ha_applied_at = now\<rparr>]\<rparr>;
             cur = get_health b d1
         in if Option.bind cur h_last_job_id = Some jid then Inr ([b], d1)
            else (case next_health sanitize w u b jid attempted now oc cur of
                    Inl e \<Rightarrow> Inl e
                  | Inr h \<Rightarrow> Inr ([b], upsert_health h d1))))"

fun apply_all ::
  "(string \<Rightarrow> string) \<Rightarrow> string \<Rightarrow> string \<Rightarrow> job \<Rightarrow> time \<Rightarrow> time \<Rightarrow> source_outcome list \<Rightarrow> db
   \<Rightarrow> exn + (string list \<times> db)" where
  "apply_all sanitize w u j attempted now [] d = Inr ([], d)"
| "apply_all sanitize w u j attempted now (oc # ocs) d =
     (case apply_outcome sanitize w u j attempted now oc d of
        Inl e \<Rightarrow> Inl e
      | Inr (ids, d1) \<Rightarrow>
         (case apply_all sanitize w u j attempted now ocs d1 of
            Inl e \<Rightarrow> Inl e | Inr (ids', d2) \<Rightarrow> Inr (ids @ ids', d2)))"

text \<open>\<open>dict.fromkeys\<close> keeps the first occurrences.\<close>

definition first_occurrences :: "'a list \<Rightarrow> 'a list" where
  "first_occurrences xs = rev (remdups (rev xs))"

definition apply_outcomes ::
  "(string \<Rightarrow> string) \<Rightarrow> string \<Rightarrow> string \<Rightarrow> string \<Rightarrow> time \<Rightarrow> source_outcome list \<Rightarrow> bool \<Rightarrow> conn
   \<Rightarrow> (conn, source_health list) outcome" where
  "apply_outcomes sanitize w u jid attempted ocs do_commit c =
     (let c1 = c\<lparr>in_tx := True\<rparr>
      in case (case health_job w u jid (work c) of
                 Inl e \<Rightarrow> Inl e
               | Inr j \<Rightarrow> apply_all sanitize w u j attempted (clock c) ocs (work c)) of
           Inl e \<Rightarrow> Raise e (rollback c1)
         | Inr (ids, d) \<Rightarrow>
            (let c2 = c1\<lparr>work := d\<rparr>; c3 = (if do_commit then commit c2 else c2)
             in Return (List.map_filter (\<lambda>b. get_health b d) (first_occurrences ids)) c3))"

subsection \<open>Once per subscription and job\<close>

lemma applied_pairs_simps [simp]:
  "applied_pairs (d\<lparr>user_source_health := hs\<rparr>) = applied_pairs d"
  "applied_pairs (d\<lparr>user_source_health_applications := as @ [a]\<rparr>) =
     insert (ha_subscription_id a, ha_job_id a) (applied_pairs (d\<lparr>user_source_health_applications := as\<rparr>))"
  "applied_pairs (upsert_health h d) = applied_pairs d"
  by (simp_all add: applied_pairs_def upsert_health_def)

lemma apply_outcome_pairs:
  assumes "apply_outcome sanitize w u j attempted now oc d = Inr (ids, d')"
  shows "applied_pairs d \<subseteq> applied_pairs d'"
    "truthy (or_empty (oc_subscription_id oc)) \<Longrightarrow> (or_empty (oc_subscription_id oc), j_id j) \<in> applied_pairs d'"
  using assms by (auto simp: apply_outcome_def Let_def split: if_splits sum.splits)

lemma apply_all_pairs:
  "apply_all sanitize w u j attempted now ocs d = Inr (ids, d') \<Longrightarrow>
   applied_pairs d \<subseteq> applied_pairs d'
   \<and> (\<forall>oc \<in> set ocs. truthy (or_empty (oc_subscription_id oc)) \<longrightarrow>
        (or_empty (oc_subscription_id oc), j_id j) \<in> applied_pairs d')"
proof (induction ocs arbitrary: d ids)
  case (Cons oc ocs)
  then obtain ids1 d1 ids2 where s: "apply_outcome sanitize w u j attempted now oc d = Inr (ids1, d1)"
    "apply_all sanitize w u j attempted now ocs d1 = Inr (ids2, d')"
    by (auto split: sum.splits)
  show ?case using Cons.IH [OF s(2)] apply_outcome_pairs [OF s(1)] by auto
qed simp

lemma apply_outcome_again:
  "apply_outcome sanitize w u j attempted now oc d = Inr (ids, d') \<Longrightarrow>
   truthy (or_empty (oc_subscription_id oc)) \<longrightarrow> (or_empty (oc_subscription_id oc), j_id j) \<in> applied_pairs d \<Longrightarrow>
   d' = d"
  by (auto simp: apply_outcome_def Let_def split: if_splits)

lemma apply_all_Cons:
  assumes "apply_all sanitize w u j attempted now (oc # ocs) d = Inr (ids, d')"
  obtains ids1 d1 ids2 where "apply_outcome sanitize w u j attempted now oc d = Inr (ids1, d1)"
    "apply_all sanitize w u j attempted now ocs d1 = Inr (ids2, d')"
  using assms by (auto split: sum.splits)

lemma apply_all_again:
  "apply_all sanitize w u j attempted now ocs d = Inr (ids, d') \<Longrightarrow>
   (\<forall>oc \<in> set ocs. truthy (or_empty (oc_subscription_id oc)) \<longrightarrow>
      (or_empty (oc_subscription_id oc), j_id j) \<in> applied_pairs d) \<Longrightarrow> d' = d"
proof (induction ocs arbitrary: d ids)
  case (Cons oc ocs)
  obtain ids1 d1 ids2 where s: "apply_outcome sanitize w u j attempted now oc d = Inr (ids1, d1)"
    "apply_all sanitize w u j attempted now ocs d1 = Inr (ids2, d')"
    by (rule apply_all_Cons [OF Cons.prems(1)])
  have "d1 = d" using apply_outcome_again [OF s(1)] Cons.prems(2) by simp
  then show ?case using Cons.IH [OF s(2)] Cons.prems(2) by simp
qed simp

lemma apply_outcomes_Inr:
  assumes "apply_outcomes sanitize w u jid attempted ocs do_commit c = (Inr rows, c')"
  obtains j ids where "health_job w u jid (work c) = Inr j" "j_id j = jid"
    "apply_all sanitize w u j attempted (clock c) ocs (work c) = Inr (ids, work c')"
proof -
  obtain j where j: "health_job w u jid (work c) = Inr j"
    using assms by (auto simp: apply_outcomes_def Let_def split: sum.splits)
  then have "j_id j = jid"
    using find_job_SomeD by (fastforce simp: health_job_def split: option.splits if_splits)
  moreover obtain ids where "apply_all sanitize w u j attempted (clock c) ocs (work c) = Inr (ids, work c')"
    using assms j by (auto simp: apply_outcomes_def Let_def split: sum.splits prod.splits if_splits)
  ultimately show ?thesis using that j by blast
qed

text \<open>The outcomes of a job are applied once: applying them, or any part of them, again for the
  same job changes no health row.\<close>

theorem health_is_applied_once:
  assumes "apply_outcomes sanitize w u jid attempted ocs do_commit c = (Inr rows, c')"
    and "apply_outcomes sanitize w u jid attempted' ocs' do_commit' (c'\<lparr>clock := now\<rparr>) = (Inr rows', c'')"
    and "oc_subscription_id ` set ocs' \<subseteq> oc_subscription_id ` set ocs"
  shows "user_source_health (work c'') = user_source_health (work c')"
proof -
  obtain j ids where j: "j_id j = jid"
    "apply_all sanitize w u j attempted (clock c) ocs (work c) = Inr (ids, work c')"
    by (rule apply_outcomes_Inr [OF assms(1)])
  obtain j' ids' where j': "j_id j' = jid"
    "apply_all sanitize w u j' attempted' now ocs' (work c') = Inr (ids', work c'')"
    by (rule apply_outcomes_Inr [OF assms(2)]) simp
  have "(or_empty (oc_subscription_id oc), jid) \<in> applied_pairs (work c')"
    if oc: "oc \<in> set ocs'" "truthy (or_empty (oc_subscription_id oc))" for oc
  proof -
    obtain o1 where "o1 \<in> set ocs" "oc_subscription_id o1 = oc_subscription_id oc"
      using assms(3) oc(1) by force
    then show ?thesis using apply_all_pairs [OF j(2)] j(1) oc(2) by auto
  qed
  then show ?thesis using apply_all_again [OF j'(2)] j'(1) by simp
qed

subsection \<open>The row is the history\<close>

text \<open>The specification: how many runs in a row failed, most recent last.\<close>

definition streak :: "string list \<Rightarrow> int" where
  "streak hs = int (length (takeWhile (\<lambda>s. s = ''failed'') (rev hs)))"

definition status_of :: "int \<Rightarrow> health_status" where
  "status_of n = (if n = 0 then Healthy else if n = 1 then Degraded else Failing)"

lemma streak_simps [simp]:
  "streak [] = 0" "streak (hs @ [''failed'']) = streak hs + 1" "streak (hs @ [''succeeded'']) = 0"
  by (simp_all add: streak_def)

lemma streak_nonneg: "0 \<le> streak hs"
  by (simp add: streak_def)

definition tracks :: "string \<Rightarrow> string list \<Rightarrow> db \<Rightarrow> bool" where
  "tracks b hs d \<longleftrightarrow>
     (case get_health b d of
        None \<Rightarrow> hs = []
      | Some h \<Rightarrow> h_consecutive_failures h = streak hs \<and> h_status h = status_of (streak hs)
          \<and> (\<exists>jid. h_last_job_id h = Some jid \<and> (b, jid) \<in> applied_pairs d))"

lemma get_upserted:
  assumes "h_subscription_id h = b" "case get_health b d of None \<Rightarrow> True | Some x \<Rightarrow> h_created_at x = h_created_at h"
  shows "get_health b (upsert_health h d) = Some h"
proof (cases "b \<in> h_subscription_id ` set (user_source_health d)")
  case True
  then obtain x where x: "get_health b d = Some x"
    unfolding get_health_def by (metis lookup_row_None_iff option.exhaust)
  then have "h_subscription_id x = b" using lookup_row_SomeD unfolding get_health_def by fastforce
  then show ?thesis
    using True x assms
    by (simp add: upsert_health_def get_health_def lookup_row_update_where)
next
  case False
  then show ?thesis using assms(1)
    by (simp add: upsert_health_def get_health_def lookup_row_append_new)
qed

lemma next_health_tracks:
  assumes "next_health sanitize w u b jid attempted now oc cur = Inr h"
    and "case cur of None \<Rightarrow> hs = [] | Some x \<Rightarrow> h_consecutive_failures x = streak hs"
  shows "h_consecutive_failures h = streak (hs @ [oc_status oc])
    \<and> h_status h = status_of (streak (hs @ [oc_status oc])) \<and> h_last_job_id h = Some jid
    \<and> h_subscription_id h = b
    \<and> (case cur of None \<Rightarrow> True | Some x \<Rightarrow> h_created_at x = h_created_at h)"
  using assms streak_nonneg [of hs]
  by (auto simp: next_health_def Let_def status_of_def split: if_splits option.splits)

lemma apply_outcome_tracks:
  assumes "apply_outcome sanitize w u j attempted now oc d = Inr (ids, d')"
    and "oc_subscription_id oc = Some b" "b \<noteq> []" "(b, j_id j) \<notin> applied_pairs d" "tracks b hs d"
  shows "tracks b (hs @ [oc_status oc]) d' \<and> applied_pairs d' = insert (b, j_id j) (applied_pairs d)"
proof -
  let ?d = "d\<lparr>user_source_health_applications := user_source_health_applications d
    @ [\<lparr>ha_subscription_id = b, ha_job_id = j_id j, ha_applied_at = now\<rparr>]\<rparr>"
  have cur: "get_health b ?d = get_health b d" by (simp add: get_health_def)
  have last: "Option.bind (get_health b d) h_last_job_id \<noteq> Some (j_id j)"
    using assms(4,5) by (auto simp: tracks_def split: option.splits)
  obtain h where h: "next_health sanitize w u b (j_id j) attempted now oc (get_health b d) = Inr h"
    "d' = upsert_health h ?d"
    using assms(1-4) last unfolding apply_outcome_def Let_def
    by (auto simp: cur split: if_splits sum.splits)
  have "case get_health b d of None \<Rightarrow> hs = [] | Some x \<Rightarrow> h_consecutive_failures x = streak hs"
    using assms(5) by (auto simp: tracks_def split: option.splits)
  note t = next_health_tracks [OF h(1) this]
  then have "get_health b d' = Some h" unfolding h(2) by (intro get_upserted) (auto simp: cur)
  moreover have "applied_pairs d' = insert (b, j_id j) (applied_pairs d)" unfolding h(2) by simp
  ultimately show ?thesis using t by (simp add: tracks_def)
qed

text \<open>A series of jobs, each with one outcome for the subscription.\<close>

fun run_outcomes ::
  "(string \<Rightarrow> string) \<Rightarrow> string \<Rightarrow> string \<Rightarrow> (string \<times> time \<times> source_outcome) list \<Rightarrow> conn \<Rightarrow> conn option" where
  "run_outcomes sanitize w u [] c = Some c"
| "run_outcomes sanitize w u ((jid, attempted, oc) # rs) c =
     (case apply_outcomes sanitize w u jid attempted [oc] True c of
        (Inl _, _) \<Rightarrow> None | (Inr _, c') \<Rightarrow> run_outcomes sanitize w u rs c')"

lemma run_outcomes_tracks:
  "run_outcomes sanitize w u rs c = Some c' \<Longrightarrow> distinct (map fst rs) \<Longrightarrow> b \<noteq> [] \<Longrightarrow>
   \<forall>(jid, t, oc) \<in> set rs. oc_subscription_id oc = Some b \<and> (b, jid) \<notin> applied_pairs (work c) \<Longrightarrow>
   tracks b hs (work c) \<Longrightarrow> tracks b (hs @ map (\<lambda>(_, _, oc). oc_status oc) rs) (work c')"
proof (induction rs arbitrary: c hs)
  case (Cons r rs)
  obtain jid t oc where r: "r = (jid, t, oc)" by (cases r)
  obtain rows c1 where a: "apply_outcomes sanitize w u jid t [oc] True c = (Inr rows, c1)"
    and rest: "run_outcomes sanitize w u rs c1 = Some c'"
    using Cons.prems(1) unfolding r by (simp split: prod.splits sum.splits)
  obtain j ids where j: "j_id j = jid" "apply_all sanitize w u j t (clock c) [oc] (work c) = Inr (ids, work c1)"
    by (rule apply_outcomes_Inr [OF a])
  then obtain ids' where one: "apply_outcome sanitize w u j t (clock c) oc (work c) = Inr (ids', work c1)"
    by (auto split: sum.splits)
  have step: "tracks b (hs @ [oc_status oc]) (work c1)"
    "applied_pairs (work c1) = insert (b, jid) (applied_pairs (work c))"
    using apply_outcome_tracks [OF one _ Cons.prems(3) _ Cons.prems(5)]
      bspec [OF Cons.prems(4), of r] r j(1) by simp_all
  have "oc_subscription_id oc' = Some b \<and> (b, jid') \<notin> applied_pairs (work c1)"
    if x: "(jid', t', oc') \<in> set rs" for jid' t' oc'
  proof -
    have "jid' \<in> fst ` set rs" by (rule image_eqI [OF _ x]) simp
    then have "jid' \<noteq> jid" using Cons.prems(2) r by auto
    moreover have "oc_subscription_id oc' = Some b \<and> (b, jid') \<notin> applied_pairs (work c)"
      using bspec [OF Cons.prems(4), of "(jid', t', oc')"] x by simp
    ultimately show ?thesis by (simp add: step(2))
  qed
  then have new: "\<forall>(jid', t', oc') \<in> set rs. oc_subscription_id oc' = Some b \<and> (b, jid') \<notin> applied_pairs (work c1)"
    by blast
  have "distinct (map fst rs)" using Cons.prems(2) by simp
  from Cons.IH [OF rest this Cons.prems(3) new step(1)] show ?case by (simp add: r)
qed simp

text \<open>C32: The health row of a subscription is the abstraction of its history: after any series of
  jobs, \<open>consecutive_failures\<close> is the number of failed runs since the last success, and the status is
  healthy, degraded or failing as that number is zero, one or more.\<close>

theorem health_counts_the_failures:
  assumes "run_outcomes sanitize w u rs c = Some c'" "rs \<noteq> []" "distinct (map fst rs)" "b \<noteq> []"
    and "\<forall>(jid, t, oc) \<in> set rs. oc_subscription_id oc = Some b \<and> (b, jid) \<notin> applied_pairs (work c)"
    and "get_health b (work c) = None"
  shows "\<exists>h. get_health b (work c') = Some h
    \<and> h_consecutive_failures h = streak (map (\<lambda>(_, _, oc). oc_status oc) rs)
    \<and> h_status h = status_of (h_consecutive_failures h)"
proof -
  have "tracks b (map (\<lambda>(_, _, oc). oc_status oc) rs) (work c')"
    using run_outcomes_tracks [OF assms(1,3-5), of "[]"] assms(6) by (simp add: tracks_def)
  then show ?thesis using assms(2) by (auto simp: tracks_def split: option.splits)
qed

subsection \<open>Whose rows change\<close>

lemma apply_outcome_frame:
  assumes "apply_outcome sanitize w u j attempted now oc d = Inr (ids, d')"
  shows "user_subscriptions d' = user_subscriptions d"
    "\<And>h. \<forall>sub. get_subscription (h_subscription_id h) d = Some sub \<longrightarrow> us_user_id sub \<noteq> u \<Longrightarrow>
       h \<in> set (user_source_health d') \<longleftrightarrow> h \<in> set (user_source_health d)"
proof -
  let ?b = "or_empty (oc_subscription_id oc)"
  show "user_subscriptions d' = user_subscriptions d"
    using assms by (auto simp: apply_outcome_def Let_def upsert_health_def split: if_splits sum.splits)
  fix h :: source_health
  assume other: "\<forall>sub. get_subscription (h_subscription_id h) d = Some sub \<longrightarrow> us_user_id sub \<noteq> u"
  have own: "h_subscription_id h \<noteq> ?b" if "owns_outcome w u ?b oc d"
    using that other by (auto simp: owns_outcome_def split: option.splits)
  have "h \<in> set (user_source_health (upsert_health x e)) \<longleftrightarrow> h \<in> set (user_source_health e)"
    if "h_subscription_id x = ?b" "owns_outcome w u ?b oc d" for x e
    using own that by (auto simp: upsert_health_def table_simps)
  moreover have "h_subscription_id x = ?b" if "next_health sanitize w u ?b jid attempted now oc cur = Inr x" for x cur jid
    using that by (auto simp: next_health_def Let_def split: if_splits)
  ultimately show "h \<in> set (user_source_health d') \<longleftrightarrow> h \<in> set (user_source_health d)"
    using assms by (auto simp: apply_outcome_def Let_def split: if_splits sum.splits)
qed

lemma apply_all_frame:
  "apply_all sanitize w u j attempted now ocs d = Inr (ids, d') \<Longrightarrow>
   \<forall>sub. get_subscription (h_subscription_id h) d = Some sub \<longrightarrow> us_user_id sub \<noteq> u \<Longrightarrow>
   h \<in> set (user_source_health d') \<longleftrightarrow> h \<in> set (user_source_health d)"
proof (induction ocs arbitrary: d ids)
  case (Cons oc ocs)
  obtain ids1 d1 ids2 where s: "apply_outcome sanitize w u j attempted now oc d = Inr (ids1, d1)"
    "apply_all sanitize w u j attempted now ocs d1 = Inr (ids2, d')"
    by (rule apply_all_Cons [OF Cons.prems(1)])
  have "get_subscription i d1 = get_subscription i d" for i
    using apply_outcome_frame(1) [OF s(1)] by (simp add: get_subscription_def)
  then show ?case using Cons.IH [OF s(2)] apply_outcome_frame(2) [OF s(1) Cons.prems(2)] Cons.prems(2) by simp
qed simp

text \<open>A job changes the health of its own user's subscriptions only, and a refused application
  leaves the database as it was.\<close>

theorem health_changes_stay_with_the_user:
  assumes "apply_outcomes sanitize w u jid attempted ocs do_commit c = (r, c')"
    and "\<And>sub. get_subscription (h_subscription_id h) (work c) = Some sub \<Longrightarrow> us_user_id sub \<noteq> u"
  shows "case r of Inl _ \<Rightarrow> work c' = durable c \<and> durable c' = durable c \<and> \<not> in_tx c'
    | Inr _ \<Rightarrow> h \<in> set (user_source_health (work c')) \<longleftrightarrow> h \<in> set (user_source_health (work c))"
proof (cases r)
  case (Inl e)
  then show ?thesis
    using assms(1) by (auto simp: apply_outcomes_def Let_def split: sum.splits prod.splits)
next
  case (Inr rows)
  obtain j ids where "apply_all sanitize w u j attempted (clock c) ocs (work c) = Inr (ids, work c')"
    by (rule apply_outcomes_Inr [OF assms(1) [unfolded Inr]])
  from apply_all_frame [OF this] assms(2) Inr show ?thesis by simp
qed

subsection \<open>Witnesses\<close>

definition sample_outcome :: "string \<Rightarrow> source_outcome" where
  "sample_outcome st = \<lparr>oc_source_id = ''s'', oc_subscription_id = Some ''b'', oc_status = st,
     oc_fetched_count = 4, oc_issue = None\<rparr>"

definition sample_runs :: conn where
  "sample_runs = exec_ops [CreateFeed (plain_args ''x'' 1), CreateFetch ''s'' ''b'' (plain_args ''x'' 1)] sample0"

lemma health_is_applied_once_witness:
  "\<exists>rows c' rows' c''. apply_outcomes id ''w'' ''u'' ''job_'' 9 [sample_outcome ''failed''] True sample_runs = (Inr rows, c')
     \<and> apply_outcomes id ''w'' ''u'' ''job_'' 9 [sample_outcome ''succeeded''] True (c'\<lparr>clock := 2000\<rparr>) = (Inr rows', c'')
     \<and> user_source_health (work c'') = user_source_health (work c')"
proof -
  let ?a = "apply_outcomes id ''w'' ''u'' ''job_'' 9 [sample_outcome ''failed''] True sample_runs"
  let ?b = "apply_outcomes id ''w'' ''u'' ''job_'' 9 [sample_outcome ''succeeded''] True ((snd ?a)\<lparr>clock := 2000\<rparr>)"
  have "isl (fst ?a) = False" by code_simp
  from any_outcome [OF this] obtain rows c' where a: "?a = (Inr rows, c')" by blast
  have "isl (fst ?b) = False" by code_simp
  from any_outcome [OF this] obtain rows' c'' where b: "?b = (Inr rows', c'')" by blast
  from health_is_applied_once [OF a b [unfolded a snd_conv]] a b show ?thesis
    by (auto simp: sample_outcome_def)
qed

lemma health_counts_the_failures_witness:
  "\<exists>c' h. run_outcomes id ''w'' ''u'' [(''job_'', 9, sample_outcome ''failed''),
       (''job_a'', 10, sample_outcome ''failed'')] sample_runs = Some c'
     \<and> get_health ''b'' (work c') = Some h \<and> h_consecutive_failures h = 2 \<and> h_status h = Failing"
proof -
  let ?rs = "[(''job_'', 9, sample_outcome ''failed''), (''job_a'', 10, sample_outcome ''failed'')]"
  have "Option.is_none (run_outcomes id ''w'' ''u'' ?rs sample_runs) = False" by code_simp
  then obtain c' where c: "run_outcomes id ''w'' ''u'' ?rs sample_runs = Some c'"
    by (auto simp: Option.is_none_def)
  have "user_source_health_applications (work sample_runs) = []" "get_health ''b'' (work sample_runs) = None"
    by code_simp+
  then obtain h where h: "get_health ''b'' (work c') = Some h"
    "h_consecutive_failures h = streak [''failed'', ''failed'']" "h_status h = status_of (h_consecutive_failures h)"
    using health_counts_the_failures [OF c, of "''b''"] by (auto simp: sample_outcome_def applied_pairs_def)
  have "streak [''failed'', ''failed''] = 2" by code_simp
  with h c show ?thesis by (simp add: status_of_def)
qed

definition sample_health_row :: source_health where
  "sample_health_row = \<lparr>h_subscription_id = ''other'', h_workspace_id = ''w'', h_user_id = ''v'',
     h_source_id = ''s'', h_status = Healthy, h_last_attempt_at = 0, h_last_success_at = None,
     h_last_failure_at = None, h_consecutive_failures = 0, h_last_fetched_count = 0,
     h_last_issue_stage = None, h_last_issue_code = None, h_last_issue_message = None,
     h_last_issue_retryable = None, h_last_job_id = None, h_created_at = 0, h_updated_at = 0\<rparr>"

lemma health_changes_stay_with_the_user_witness:
  "\<exists>rows c'. apply_outcomes id ''w'' ''u'' ''job_'' 9 [sample_outcome ''failed''] True sample_runs = (Inr rows, c')
     \<and> (sample_health_row \<in> set (user_source_health (work c'))
        \<longleftrightarrow> sample_health_row \<in> set (user_source_health (work sample_runs)))"
proof -
  let ?a = "apply_outcomes id ''w'' ''u'' ''job_'' 9 [sample_outcome ''failed''] True sample_runs"
  have "isl (fst ?a) = False" by code_simp
  from any_outcome [OF this] obtain rows c' where a: "?a = (Inr rows, c')" by blast
  have "get_subscription (h_subscription_id sample_health_row) (work sample_runs) = None" by code_simp
  with health_changes_stay_with_the_user [OF a, of sample_health_row] a show ?thesis by simp
qed

end
