(* ===== verification/ActorDomain.thy ===== *)
theory ActorDomain
  imports Prelude PyText
begin

section \<open>ActorOps: states, transitions, records\<close>

text \<open>
  \<open>src/src/services/actorops/domain.py\<close>: the states a candidate, a paid attempt and a discovery
  job go through, the transitions the code accepts, and the records of the repository; and the
  pure policy of \<open>policy.py\<close> (which candidates run, in which order).  A manifest is decoded by
  other code: the argument \<open>parse\<close> gives its actor, its build and its digest, or None when it is
  refused.
\<close>

subsection \<open>States\<close>

datatype route_health = Unavailable | DegradedRoute | HealthyRoute

datatype runtime_mode = DisabledMode | ActiveMode

datatype candidate_lifecycle =
  Discovered | MappingPending | StaticValid | Probationary | Certified
  | Rejected | Quarantined | DisabledCandidate | Superseded

datatype assignment_role = ActiveRole | StandbyRole | InactiveRole

datatype attempt_kind = FetchAttempt | ProbeAttempt

datatype attempt_status =
  Created | Starting | Registered | RunningAttempt | StartUnknown
  | SucceededAttempt | FailedAttempt | CancelledAttempt

datatype discovery_stage = StoreSearch | Metadata | Validation | Mapping | Ranking | Persist

datatype discovery_status =
  QueuedDiscovery | RunningDiscovery | RetryWait | Completed | FailedDiscovery | CancelledDiscovery

datatype failure_class =
  ConfigurationFailure | TargetFailure | CredentialFailure | CandidateFailure | RemoteUnknown
  | InternalFailure

definition RUNNABLE_LIFECYCLES :: "candidate_lifecycle list" where
  "RUNNABLE_LIFECYCLES = [Probationary, Certified]"

definition TERMINAL_CANDIDATE_LIFECYCLES :: "candidate_lifecycle list" where
  "TERMINAL_CANDIDATE_LIFECYCLES = [Rejected, Quarantined, DisabledCandidate, Superseded]"

definition TERMINAL_ATTEMPT_STATUSES :: "attempt_status list" where
  "TERMINAL_ATTEMPT_STATUSES = [SucceededAttempt, FailedAttempt, CancelledAttempt]"

definition TERMINAL_DISCOVERY_STATUSES :: "discovery_status list" where
  "TERMINAL_DISCOVERY_STATUSES = [Completed, FailedDiscovery, CancelledDiscovery]"

subsection \<open>Transitions\<close>

fun candidate_transitions :: "candidate_lifecycle \<Rightarrow> candidate_lifecycle list" where
  "candidate_transitions Discovered = [MappingPending, StaticValid, Rejected]"
| "candidate_transitions MappingPending = [StaticValid, Rejected]"
| "candidate_transitions StaticValid = [Probationary, Rejected, DisabledCandidate]"
| "candidate_transitions Probationary = [Certified, Quarantined, DisabledCandidate, Superseded]"
| "candidate_transitions Certified = [Quarantined, DisabledCandidate, Superseded]"
| "candidate_transitions _ = []"

fun attempt_transitions :: "attempt_status \<Rightarrow> attempt_status list" where
  "attempt_transitions Created = [Starting, CancelledAttempt]"
| "attempt_transitions Starting = [Registered, StartUnknown, FailedAttempt, CancelledAttempt]"
| "attempt_transitions StartUnknown = [Registered, FailedAttempt, CancelledAttempt]"
| "attempt_transitions Registered =
     [RunningAttempt, SucceededAttempt, FailedAttempt, CancelledAttempt]"
| "attempt_transitions RunningAttempt = [SucceededAttempt, FailedAttempt, CancelledAttempt]"
| "attempt_transitions _ = []"

fun discovery_status_transitions :: "discovery_status \<Rightarrow> discovery_status list" where
  "discovery_status_transitions QueuedDiscovery = [RunningDiscovery, CancelledDiscovery]"
| "discovery_status_transitions RunningDiscovery =
     [RunningDiscovery, RetryWait, Completed, FailedDiscovery, CancelledDiscovery]"
| "discovery_status_transitions RetryWait = [RunningDiscovery, FailedDiscovery, CancelledDiscovery]"
| "discovery_status_transitions _ = []"

fun stage_order :: "discovery_stage \<Rightarrow> nat" where
  "stage_order StoreSearch = 0"
| "stage_order Metadata = 1"
| "stage_order Validation = 2"
| "stage_order Mapping = 3"
| "stage_order Ranking = 4"
| "stage_order Persist = 5"

definition ensure_candidate_transition ::
  "candidate_lifecycle \<Rightarrow> candidate_lifecycle \<Rightarrow> exn + unit" where
  "ensure_candidate_transition current target =
     (if target \<in> set (candidate_transitions current) then Inr ()
      else Inl (InvalidTransition ''candidate transition is invalid''))"

definition ensure_attempt_transition :: "attempt_status \<Rightarrow> attempt_status \<Rightarrow> exn + unit" where
  "ensure_attempt_transition current target =
     (if target \<in> set (attempt_transitions current) then Inr ()
      else Inl (InvalidTransition ''attempt transition is invalid''))"

definition ensure_discovery_transition ::
  "discovery_status \<Rightarrow> discovery_stage \<Rightarrow> discovery_status \<Rightarrow> discovery_stage \<Rightarrow> exn + unit" where
  "ensure_discovery_transition current_status current_stage target_status target_stage =
     (if target_status \<notin> set (discovery_status_transitions current_status)
      then Inl (InvalidTransition ''discovery status is invalid'')
      else if stage_order target_stage < stage_order current_stage
      then Inl (InvalidTransition ''discovery stage is invalid'')
      else if target_status = Completed \<and> target_stage \<noteq> Persist
      then Inl (InvalidTransition ''discovery may complete only after persist'')
      else Inr ())"

subsection \<open>Records\<close>

text \<open>Amounts of money are only compared by the modelled code: any unit of an integer will do.\<close>

type_synonym usd = int

record route_key =
  rk_platform :: string
  rk_target_type :: string
  rk_capability :: string

definition route_part_ok :: "string \<Rightarrow> bool" where
  "route_part_ok s \<longleftrightarrow>
     (case s of [] \<Rightarrow> False
      | c # cs \<Rightarrow> c \<in> set ''abcdefghijklmnopqrstuvwxyz''
          \<and> list_all (\<lambda>x. x \<in> set ''abcdefghijklmnopqrstuvwxyz0123456789_-'') cs)"

definition normal_part :: "string \<Rightarrow> string" where
  "normal_part s = casefold (strip s)"

text \<open>The constructor normalises its three fields and refuses the first malformed one.\<close>

definition make_route_key :: "string \<Rightarrow> string \<Rightarrow> string \<Rightarrow> exn + route_key" where
  "make_route_key platform target_type capability =
     (if \<not> route_part_ok (normal_part platform)
      then Inl (ValueError ''invalid ActorOps RouteKey platform'')
      else if \<not> route_part_ok (normal_part target_type)
      then Inl (ValueError ''invalid ActorOps RouteKey target_type'')
      else if \<not> route_part_ok (normal_part capability)
      then Inl (ValueError ''invalid ActorOps RouteKey capability'')
      else Inr \<lparr>rk_platform = normal_part platform, rk_target_type = normal_part target_type,
                rk_capability = normal_part capability\<rparr>)"

definition route_key_text :: "route_key \<Rightarrow> string" where
  "route_key_text k = rk_platform k @ ''/'' @ rk_target_type k @ ''/'' @ rk_capability k"

record route =
  r_id :: string
  r_workspace_id :: string
  r_key :: route_key
  r_mode :: runtime_mode
  r_cap_usd :: usd
  r_generation :: int

record candidate =
  ca_id :: string
  ca_workspace_id :: string
  ca_route_id :: string
  ca_actor_id :: string
  ca_publisher :: string
  ca_build_id :: "string option"
  ca_build_number :: "string option"
  ca_manifest_json :: "string option"
  ca_manifest_hash :: "string option"
  ca_input_schema_hash :: "string option"
  ca_output_schema_hash :: "string option"
  ca_lifecycle :: candidate_lifecycle
  ca_role :: assignment_role
  ca_priority :: "int option"
  ca_generation :: int
  ca_last_success_at :: "time option"
  ca_last_failure_at :: "time option"
  ca_last_error_class :: "failure_class option"
  ca_last_error_code :: "string option"
  ca_updated_at :: time

record binding =
  b_id :: string
  b_workspace_id :: string
  b_source_id :: string
  b_route_id :: string
  b_target_fingerprint :: string
  b_status :: string
  b_version :: int
  b_preferred_candidate_id :: "string option"
  b_last_known_good :: "string option"
  b_last_success_at :: "time option"
  b_watermark_at :: "string option"
  b_watermark_hash :: "string option"

subsection \<open>Policy\<close>

definition derive_route_health :: "int \<Rightarrow> exn + route_health" where
  "derive_route_health n =
     (if n < 0 then Inl (ValueError ''runnable assignment count cannot be negative'')
      else Inr (if n = 0 then Unavailable else if n = 1 then DegradedRoute else HealthyRoute))"

definition is_sha256 :: "string \<Rightarrow> bool" where
  "is_sha256 s \<longleftrightarrow> length s = 64 \<and> list_all (\<lambda>c. c \<in> set ''0123456789abcdef'') s"

definition stripped :: "string option \<Rightarrow> string" where
  "stripped v = strip (or_empty v)"

definition candidate_has_exact_execution_contract ::
  "(string \<Rightarrow> (string \<times> string \<times> string) option) \<Rightarrow> candidate \<Rightarrow> bool" where
  "candidate_has_exact_execution_contract parse c =
     (let actor = strip (ca_actor_id c); number = stripped (ca_build_number c);
          manifest = stripped (ca_manifest_json c); digest = stripped (ca_manifest_hash c)
      in truthy actor \<and> truthy (stripped (ca_build_id c)) \<and> truthy number \<and> truthy manifest
         \<and> is_sha256 digest \<and> is_sha256 (stripped (ca_input_schema_hash c))
         \<and> is_sha256 (stripped (ca_output_schema_hash c))
         \<and> parse manifest = Some (actor, number, digest))"

definition candidate_is_runnable ::
  "(string \<Rightarrow> (string \<times> string \<times> string) option) \<Rightarrow> candidate \<Rightarrow> bool" where
  "candidate_is_runnable parse c \<longleftrightarrow>
     ca_lifecycle c \<in> set RUNNABLE_LIFECYCLES \<and> candidate_has_exact_execution_contract parse c"

definition selection_order :: "string option \<Rightarrow> candidate \<Rightarrow> nat \<times> nat \<times> int \<times> string" where
  "selection_order preferred c =
     ((if Some (ca_id c) = preferred then 0 else 1), (if ca_role c = ActiveRole then 0 else 1),
      (case ca_priority c of None \<Rightarrow> 1000000 | Some n \<Rightarrow> n), ca_id c)"

definition ordered_candidates ::
  "(string \<Rightarrow> (string \<times> string \<times> string) option) \<Rightarrow> candidate list \<Rightarrow> string option \<Rightarrow> string option
   \<Rightarrow> candidate list" where
  "ordered_candidates parse candidates preferred last_known_good =
     (let runnable = filter (candidate_is_runnable parse) candidates;
          assigned = sort_key (selection_order preferred)
            (filter (\<lambda>c. ca_role c \<in> {ActiveRole, StandbyRole}) runnable)
      in case lookup_row ca_id (or_empty last_known_good) runnable of
           None \<Rightarrow> assigned
         | Some lkg \<Rightarrow> if list_all (\<lambda>c. ca_id c \<noteq> ca_id lkg) assigned then assigned @ [lkg]
                      else assigned)"

subsection \<open>What the transitions guarantee\<close>

text \<open>Each graph strictly climbs a rank, so every life ends; terminal states have no way out.\<close>

fun candidate_rank :: "candidate_lifecycle \<Rightarrow> nat" where
  "candidate_rank Discovered = 0"
| "candidate_rank MappingPending = 1"
| "candidate_rank StaticValid = 2"
| "candidate_rank Probationary = 3"
| "candidate_rank Certified = 4"
| "candidate_rank _ = 5"

fun attempt_rank :: "attempt_status \<Rightarrow> nat" where
  "attempt_rank Created = 0"
| "attempt_rank Starting = 1"
| "attempt_rank StartUnknown = 2"
| "attempt_rank Registered = 3"
| "attempt_rank RunningAttempt = 4"
| "attempt_rank _ = 5"

lemma candidate_transition_climbs:
  "t \<in> set (candidate_transitions s) \<Longrightarrow> candidate_rank s < candidate_rank t"
  by (cases s) auto

lemma attempt_transition_climbs:
  "t \<in> set (attempt_transitions s) \<Longrightarrow> attempt_rank s < attempt_rank t"
  by (cases s) auto

lemma terminal_attempt_iff: "s \<in> set TERMINAL_ATTEMPT_STATUSES \<longleftrightarrow> attempt_transitions s = []"
  by (cases s) (auto simp: TERMINAL_ATTEMPT_STATUSES_def)

lemma terminal_candidate_iff: "s \<in> set TERMINAL_CANDIDATE_LIFECYCLES \<longleftrightarrow> candidate_transitions s = []"
  by (cases s) (auto simp: TERMINAL_CANDIDATE_LIFECYCLES_def)

lemma terminal_discovery_iff:
  "s \<in> set TERMINAL_DISCOVERY_STATUSES \<longleftrightarrow> discovery_status_transitions s = []"
  by (cases s) (auto simp: TERMINAL_DISCOVERY_STATUSES_def)

lemma selection_order_inj: "selection_order p c = selection_order p c' \<Longrightarrow> ca_id c = ca_id c'"
  by (simp add: selection_order_def)

end
