(* ===== verification/ActorStore.thy ===== *)
theory ActorStore
  imports ActorDomain
begin

section \<open>ActorOps: the tables, their constraints and the repository transaction\<close>

text \<open>
  The tables of \<open>src/src/storage/actorops_v2_schema_sql.py\<close> with the columns later migrations add,
  the statements the repository issues on them, and the constraints SQLite enforces: unique
  indexes, CHECKs, foreign keys and the triggers of \<open>actorops_v2_trigger_sql.py\<close> and
  \<open>actorops_v2_attempt_recovery_schema_sql.py\<close>.  A violated constraint aborts the statement with
  \<open>IntegrityError\<close>.  \<open>transaction\<close> is the context manager of \<open>repository.py\<close>: nested or not, a
  body that raises leaves the tables as they were.  Waiting for the write lock is not modelled.
\<close>

subsection \<open>Rows\<close>

datatype result_state = PendingResult | ObservedResult | ValidatedResult

record attempt =
  at_id :: string
  at_workspace_id :: string
  at_idempotency_key :: string
  at_route_id :: string
  at_source_id :: "string option"
  at_candidate_id :: string
  at_kind :: attempt_kind
  at_group_id :: string
  at_index :: int
  at_route_generation :: int
  at_binding_version :: "int option"
  at_target_fingerprint :: string
  at_status :: attempt_status
  at_semantic_outcome :: "string option"
  at_failure_class :: "failure_class option"
  at_error_code :: "string option"
  at_secret_ref_id :: "string option"
  at_secret_version :: "int option"
  at_pool_generation :: "int option"
  at_remote_run_id :: "string option"
  at_dataset_id :: "string option"
  at_reserved_usd :: usd
  at_actual_cost_usd :: "usd option"
  at_cost_final :: bool
  at_generation :: int
  at_created_at :: time
  at_started_at :: "time option"
  at_terminal_at :: "time option"
  at_updated_at :: time
  at_logical_job_id :: "string option"
  at_schema_version :: int
  at_request_fingerprint :: "string option"
  at_window_since :: "time option"
  at_window_until :: "time option"
  at_max_items :: "int option"
  at_result_state :: result_state
  at_result_observed_at :: "time option"

datatype freshness_state = Neutral | SuspectedStale | SourceStale | ConfirmedNoChange

record freshness =
  fr_workspace_id :: string
  fr_source_id :: string
  fr_candidate_id :: string
  fr_binding_version :: int
  fr_no_advance :: int
  fr_state :: freshness_state
  fr_cooldown_until :: "time option"
  fr_last_outcome :: "string option"
  fr_last_job_id :: "string option"
  fr_last_checked_at :: "time option"
  fr_last_confirmed_at :: "time option"
  fr_failure_streak :: int
  fr_cooldown_reason :: "string option"
  fr_half_open_until :: "time option"
  fr_half_open_token :: "string option"
  fr_created_at :: time
  fr_updated_at :: time

record discovery =
  dj_id :: string
  dj_workspace_id :: string
  dj_idempotency_key :: string
  dj_route_id :: string
  dj_trigger_reason :: string
  dj_status :: discovery_status
  dj_stage :: discovery_stage
  dj_stage_attempt :: int
  dj_retry_after :: "time option"
  dj_input_fingerprint :: string
  dj_checkpoint_hash :: "string option"
  dj_search_cursor :: "string option"
  dj_query_count :: int
  dj_candidate_count :: int
  dj_rejection_count :: int
  dj_failure_class :: "failure_class option"
  dj_error_code :: "string option"
  dj_generation :: int
  dj_created_at :: time
  dj_terminal_at :: "time option"
  dj_updated_at :: time

datatype link_status = PendingLink | AcceptedLink | RejectedLink

record discovery_link =
  dl_workspace_id :: string
  dl_discovery_id :: string
  dl_candidate_id :: string
  dl_rank :: int
  dl_status :: link_status
  dl_rejection_code :: "string option"

record actor_db =
  ad_sources :: "string list"
  ad_routes :: "route list"
  ad_candidates :: "candidate list"
  ad_bindings :: "binding list"
  ad_attempts :: "attempt list"
  ad_freshness :: "freshness list"
  ad_discoveries :: "discovery list"
  ad_discovery_links :: "discovery_link list"

subsection \<open>The repository and its transactions\<close>

record repository =
  rp_workspace_id :: string
  rp_in_tx :: bool
  rp_db :: actor_db

definition require_transaction ::
  "repository \<Rightarrow> (repository, 'a) outcome \<Rightarrow> (repository, 'a) outcome" where
  "require_transaction r k =
     (if rp_in_tx r then k
      else Raise (ActorOpsRepositoryError ''ActorOps mutation requires a repository transaction'') r)"

definition transaction ::
  "(repository \<Rightarrow> (repository, 'a) outcome) \<Rightarrow> repository \<Rightarrow> (repository, 'a) outcome" where
  "transaction body r =
     (case body (r\<lparr>rp_in_tx := True\<rparr>) of
        (Inl e, _) \<Rightarrow> Raise e r
      | (Inr x, r') \<Rightarrow> Return x (r'\<lparr>rp_in_tx := rp_in_tx r\<rparr>))"

lemma transaction_raises [simp]: "transaction body r = (Inl e, r') \<Longrightarrow> r' = r"
  by (auto simp: transaction_def split: prod.splits sum.splits)

lemma transaction_Inr:
  assumes "transaction body r = (Inr x, r')"
  obtains r1 where "body (r\<lparr>rp_in_tx := True\<rparr>) = (Inr x, r1)" "r' = r1\<lparr>rp_in_tx := rp_in_tx r\<rparr>"
proof -
  obtain v r1 where b: "body (r\<lparr>rp_in_tx := True\<rparr>) = (v, r1)" by fastforce
  with assms have "(case v of Inl e \<Rightarrow> (Inl e, r) | Inr y \<Rightarrow> (Inr y, r1\<lparr>rp_in_tx := rp_in_tx r\<rparr>))
    = (Inr x, r')"
    by (simp add: transaction_def)
  then have "v = Inr x" "r' = r1\<lparr>rp_in_tx := rp_in_tx r\<rparr>" by (cases v; simp)+
  with b show thesis by (intro that) simp_all
qed

subsection \<open>Reads\<close>

definition get_route :: "string \<Rightarrow> repository \<Rightarrow> exn + route" where
  "get_route rid r =
     (case find (\<lambda>x. r_workspace_id x = rp_workspace_id r \<and> r_id x = rid) (ad_routes (rp_db r)) of
        None \<Rightarrow> Inl (ActorOpsNotFound (''route not found: '' @ rid)) | Some x \<Rightarrow> Inr x)"

definition get_candidate :: "string \<Rightarrow> repository \<Rightarrow> exn + candidate" where
  "get_candidate cid r =
     (case find (\<lambda>x. ca_workspace_id x = rp_workspace_id r \<and> ca_id x = cid) (ad_candidates (rp_db r)) of
        None \<Rightarrow> Inl (ActorOpsNotFound (''candidate not found: '' @ cid)) | Some x \<Rightarrow> Inr x)"

definition get_binding :: "string \<Rightarrow> repository \<Rightarrow> exn + binding" where
  "get_binding sid r =
     (case find (\<lambda>x. b_workspace_id x = rp_workspace_id r \<and> b_source_id x = sid) (ad_bindings (rp_db r)) of
        None \<Rightarrow> Inl (ActorOpsNotFound (''binding not found: '' @ sid)) | Some x \<Rightarrow> Inr x)"

definition list_route_bindings :: "string \<Rightarrow> repository \<Rightarrow> binding list" where
  "list_route_bindings rid r =
     sort_key b_source_id
       (filter (\<lambda>x. b_workspace_id x = rp_workspace_id r \<and> b_route_id x = rid) (ad_bindings (rp_db r)))"

definition get_attempt :: "string \<Rightarrow> repository \<Rightarrow> exn + attempt" where
  "get_attempt aid r =
     (case find (\<lambda>x. at_workspace_id x = rp_workspace_id r \<and> at_id x = aid) (ad_attempts (rp_db r)) of
        None \<Rightarrow> Inl (ActorOpsNotFound (''attempt not found: '' @ aid)) | Some x \<Rightarrow> Inr x)"

definition get_by_idempotency :: "string \<Rightarrow> repository \<Rightarrow> attempt option" where
  "get_by_idempotency key r =
     find (\<lambda>x. at_workspace_id x = rp_workspace_id r \<and> at_idempotency_key x = key) (ad_attempts (rp_db r))"

subsection \<open>The attempts table\<close>

fun result_rank :: "result_state \<Rightarrow> nat" where
  "result_rank PendingResult = 0"
| "result_rank ObservedResult = 1"
| "result_rank ValidatedResult = 2"

definition positive_or_null :: "int option \<Rightarrow> bool" where
  "positive_or_null v \<longleftrightarrow> (case v of None \<Rightarrow> True | Some n \<Rightarrow> 1 \<le> n)"

definition attempt_columns_ok :: "attempt \<Rightarrow> bool" where
  "attempt_columns_ok a \<longleftrightarrow>
     0 \<le> at_index a \<and> 1 \<le> at_route_generation a \<and> positive_or_null (at_binding_version a)
     \<and> positive_or_null (at_secret_version a) \<and> positive_or_null (at_pool_generation a)
     \<and> 0 \<le> at_reserved_usd a \<and> (case at_actual_cost_usd a of None \<Rightarrow> True | Some x \<Rightarrow> 0 \<le> x)
     \<and> 1 \<le> at_generation a \<and> at_schema_version a \<in> {1, 2} \<and> positive_or_null (at_max_items a)"

text \<open>The index \<open>idx_actor_attempts_v2_logical_candidate\<close>: what a logical job pays for once.\<close>

definition paid_key ::
  "attempt \<Rightarrow> string \<times> string option \<times> string \<times> int \<times> string \<times> attempt_kind" where
  "paid_key a =
     (at_workspace_id a, at_logical_job_id a, or_empty (at_source_id a),
      (case at_binding_version a of None \<Rightarrow> 0 | Some n \<Rightarrow> n), at_candidate_id a, at_kind a)"

definition attempts_unique :: "attempt list \<Rightarrow> bool" where
  "attempts_unique rows \<longleftrightarrow>
     distinct (map at_id rows)
     \<and> distinct (map (\<lambda>a. (at_workspace_id a, at_idempotency_key a)) rows)
     \<and> distinct (map (\<lambda>a. (at_workspace_id a, at_remote_run_id a))
         (filter (\<lambda>a. at_remote_run_id a \<noteq> None) rows))
     \<and> distinct (map paid_key
         (filter (\<lambda>a. at_schema_version a = 2 \<and> at_logical_job_id a \<noteq> None) rows))"

text \<open>What the request of an attempt asked for; the trigger \<open>request_immutable\<close> protects it.\<close>

definition request_identity ::
  "attempt \<Rightarrow> (string option \<times> int \<times> string option \<times> time option \<times> time option \<times> int option)
     \<times> (string \<times> string option \<times> int option \<times> string \<times> attempt_kind)" where
  "request_identity a =
     ((at_logical_job_id a, at_schema_version a, at_request_fingerprint a, at_window_since a,
       at_window_until a, at_max_items a),
      (at_group_id a, at_source_id a, at_binding_version a, at_candidate_id a, at_kind a))"

definition observation_kept :: "attempt \<Rightarrow> attempt \<Rightarrow> bool" where
  "observation_kept a b \<longleftrightarrow>
     (case at_actual_cost_usd a of
        None \<Rightarrow> True
      | Some x \<Rightarrow> (case at_actual_cost_usd b of None \<Rightarrow> False | Some y \<Rightarrow> x \<le> y))
     \<and> (at_cost_final a \<longrightarrow> at_cost_final b)
     \<and> (at_dataset_id a \<noteq> None \<longrightarrow> at_dataset_id b = at_dataset_id a)
     \<and> result_rank (at_result_state a) \<le> result_rank (at_result_state b)"

text \<open>The four UPDATE triggers: transition, generation, request identity, observation.\<close>

definition attempt_update_ok :: "attempt \<Rightarrow> attempt \<Rightarrow> bool" where
  "attempt_update_ok a b \<longleftrightarrow>
     (at_status b = at_status a \<or> at_status b \<in> set (attempt_transitions (at_status a)))
     \<and> at_generation a \<le> at_generation b
     \<and> request_identity b = request_identity a
     \<and> observation_kept a b"

definition update_attempts ::
  "(attempt \<Rightarrow> bool) \<Rightarrow> (attempt \<Rightarrow> attempt) \<Rightarrow> actor_db \<Rightarrow> exn + (nat \<times> actor_db)" where
  "update_attempts P f d =
     (let rows = update_where P f (ad_attempts d)
      in if (\<forall>a \<in> set (ad_attempts d). P a \<longrightarrow> attempt_update_ok a (f a) \<and> attempt_columns_ok (f a))
            \<and> attempts_unique rows
         then Inr (row_count P (ad_attempts d), d\<lparr>ad_attempts := rows\<rparr>)
         else Inl IntegrityError)"

definition attempt_request_complete :: "attempt \<Rightarrow> bool" where
  "attempt_request_complete a \<longleftrightarrow>
     at_schema_version a = 2 \<longrightarrow>
       truthy (or_empty (at_logical_job_id a)) \<and> truthy (or_empty (at_request_fingerprint a))
       \<and> at_window_since a \<noteq> None \<and> at_max_items a \<noteq> None"

definition insert_attempt :: "attempt \<Rightarrow> actor_db \<Rightarrow> exn + actor_db" where
  "insert_attempt a d =
     (if attempt_columns_ok a \<and> attempt_request_complete a \<and> attempts_unique (ad_attempts d @ [a])
         \<and> (\<exists>x \<in> set (ad_routes d). r_workspace_id x = at_workspace_id a \<and> r_id x = at_route_id a)
         \<and> (\<exists>x \<in> set (ad_candidates d). ca_workspace_id x = at_workspace_id a
              \<and> ca_route_id x = at_route_id a \<and> ca_id x = at_candidate_id a)
         \<and> (case at_source_id a of None \<Rightarrow> True | Some s \<Rightarrow> s \<in> set (ad_sources d))
      then Inr (d\<lparr>ad_attempts := ad_attempts d @ [a]\<rparr>)
      else Inl IntegrityError)"

subsection \<open>The candidates table\<close>

text \<open>A CHECK that evaluates to NULL passes: it does not refuse a missing priority of an assigned
  candidate.\<close>

definition assignment_ok :: "candidate \<Rightarrow> bool" where
  "assignment_ok c \<longleftrightarrow>
     (case ca_role c of
        ActiveRole \<Rightarrow> ca_priority c \<in> {None, Some 0}
      | StandbyRole \<Rightarrow> positive_or_null (ca_priority c)
      | InactiveRole \<Rightarrow> ca_priority c = None)"

definition candidates_unique :: "candidate list \<Rightarrow> bool" where
  "candidates_unique rows \<longleftrightarrow>
     distinct (map ca_id rows)
     \<and> distinct (map (\<lambda>c. (ca_workspace_id c, ca_route_id c, ca_actor_id c, ca_build_id c, ca_manifest_hash c))
         (filter (\<lambda>c. ca_build_id c \<noteq> None \<and> ca_manifest_hash c \<noteq> None) rows))
     \<and> distinct (map (\<lambda>c. (ca_workspace_id c, ca_route_id c)) (filter (\<lambda>c. ca_role c = ActiveRole) rows))
     \<and> distinct (map (\<lambda>c. (ca_workspace_id c, ca_route_id c, ca_priority c))
         (filter (\<lambda>c. ca_role c = StandbyRole \<and> ca_priority c \<noteq> None) rows))"

text \<open>Only a runnable revision is assigned (triggers \<open>assignment_insert\<close>, \<open>assignment_update\<close>).\<close>

definition assignable :: "candidate \<Rightarrow> bool" where
  "assignable c \<longleftrightarrow>
     ca_role c \<in> {ActiveRole, StandbyRole} \<longrightarrow>
       ca_lifecycle c \<in> {Probationary, Certified} \<and> ca_build_id c \<noteq> None \<and> ca_manifest_hash c \<noteq> None"

definition revision ::
  "candidate \<Rightarrow> (string \<times> string \<times> string) \<times> (string \<times> string)
     \<times> (string \<times> string \<times> string \<times> string \<times> string \<times> string)" where
  "revision c =
     ((ca_id c, ca_workspace_id c, ca_route_id c), (ca_actor_id c, ca_publisher c),
      (or_empty (ca_build_id c), or_empty (ca_build_number c), or_empty (ca_manifest_json c),
       or_empty (ca_manifest_hash c), or_empty (ca_input_schema_hash c), or_empty (ca_output_schema_hash c)))"

text \<open>The way back from a rejection (\<open>actorops_v2_revalidation_schema.py\<close>): a free probe of this
  candidate has shown that the rejection no longer holds.\<close>

definition REVALIDATED_CODES :: "string list" where
  "REVALIDATED_CODES =
     [''actorops_replacement_contract_mismatch'', ''actorops_replacement_published_at_invalid'',
      ''actorops_replacement_target_identity_mismatch'', ''actorops_replacement_output_url_invalid'',
      ''actorops_replacement_output_outside_window'']"

definition revalidation_proof :: "candidate \<Rightarrow> attempt \<Rightarrow> bool" where
  "revalidation_proof c a \<longleftrightarrow>
     at_workspace_id a = ca_workspace_id c \<and> at_candidate_id a = ca_id c
     \<and> at_kind a = ProbeAttempt \<and> at_status a = SucceededAttempt \<and> at_cost_final a
     \<and> at_actual_cost_usd a = Some 0 \<and> at_remote_run_id a = None \<and> at_dataset_id a \<noteq> None
     \<and> take 11 (casefold (or_empty (at_logical_job_id a))) = ''revalidate:''
     \<and> at_semantic_outcome a =
         (if ca_lifecycle c = Probationary then Some ''valid_nonempty'' else Some ''no_evidence'')"

definition revalidated :: "actor_db \<Rightarrow> candidate \<Rightarrow> candidate \<Rightarrow> bool" where
  "revalidated d old new \<longleftrightarrow>
     ca_lifecycle old = Rejected \<and> ca_lifecycle new \<in> {StaticValid, Probationary}
     \<and> ca_role old = InactiveRole \<and> ca_role new = InactiveRole
     \<and> or_empty (ca_last_error_code old) \<in> set REVALIDATED_CODES
     \<and> ca_last_error_class new = None \<and> ca_last_error_code new = None
     \<and> list_ex (revalidation_proof new) (ad_attempts d)
     \<and> (if ca_lifecycle new = Probationary
        then (case ca_last_success_at new of
                None \<Rightarrow> False
              | Some t \<Rightarrow> (case ca_last_failure_at old of None \<Rightarrow> True | Some f \<Rightarrow> f < t))
        else ca_last_success_at new = ca_last_success_at old)"

definition candidate_update_ok :: "actor_db \<Rightarrow> candidate \<Rightarrow> candidate \<Rightarrow> bool" where
  "candidate_update_ok d old new \<longleftrightarrow>
     revision new = revision old \<and> assignable new \<and> ca_generation old \<le> ca_generation new
     \<and> (ca_lifecycle new = ca_lifecycle old
        \<or> ca_lifecycle new \<in> set (candidate_transitions (ca_lifecycle old))
        \<or> revalidated d old new)"

definition update_candidates ::
  "(candidate \<Rightarrow> bool) \<Rightarrow> (candidate \<Rightarrow> candidate) \<Rightarrow> actor_db \<Rightarrow> exn + (nat \<times> actor_db)" where
  "update_candidates P f d =
     (let rows = update_where P f (ad_candidates d)
      in if (\<forall>c \<in> set (ad_candidates d). P c \<longrightarrow>
               candidate_update_ok d c (f c) \<and> assignment_ok (f c) \<and> 1 \<le> ca_generation (f c))
            \<and> candidates_unique rows
         then Inr (row_count P (ad_candidates d), d\<lparr>ad_candidates := rows\<rparr>)
         else Inl IntegrityError)"

definition insert_candidate :: "candidate \<Rightarrow> actor_db \<Rightarrow> exn + actor_db" where
  "insert_candidate c d =
     (if assignment_ok c \<and> assignable c \<and> 1 \<le> ca_generation c
         \<and> candidates_unique (ad_candidates d @ [c])
         \<and> (\<exists>x \<in> set (ad_routes d). r_workspace_id x = ca_workspace_id c \<and> r_id x = ca_route_id c)
      then Inr (d\<lparr>ad_candidates := ad_candidates d @ [c]\<rparr>)
      else Inl IntegrityError)"

subsection \<open>Routes and bindings\<close>

text \<open>The only column of a route the modelled statements change is its generation, which they
  raise; a binding keeps its candidates on its own route.\<close>

definition bump_route :: "string \<Rightarrow> string \<Rightarrow> int \<Rightarrow> actor_db \<Rightarrow> nat \<times> actor_db" where
  "bump_route w rid expected d =
     (let P = (\<lambda>x. r_workspace_id x = w \<and> r_id x = rid \<and> r_generation x = expected)
      in (row_count P (ad_routes d),
          d\<lparr>ad_routes := update_where P (\<lambda>x. x\<lparr>r_generation := r_generation x + 1\<rparr>) (ad_routes d)\<rparr>))"

definition on_route :: "actor_db \<Rightarrow> binding \<Rightarrow> string option \<Rightarrow> bool" where
  "on_route d b cid \<longleftrightarrow>
     (case cid of
        None \<Rightarrow> True
      | Some i \<Rightarrow> (\<exists>c \<in> set (ad_candidates d). ca_workspace_id c = b_workspace_id b
                    \<and> ca_route_id c = b_route_id b \<and> ca_id c = i))"

definition update_bindings ::
  "(binding \<Rightarrow> bool) \<Rightarrow> (binding \<Rightarrow> binding) \<Rightarrow> actor_db \<Rightarrow> exn + (nat \<times> actor_db)" where
  "update_bindings P f d =
     (if (\<forall>b \<in> set (ad_bindings d). P b \<longrightarrow>
            on_route d (f b) (b_preferred_candidate_id (f b)) \<and> on_route d (f b) (b_last_known_good (f b))
            \<and> b_version b \<le> b_version (f b))
      then Inr (row_count P (ad_bindings d), d\<lparr>ad_bindings := update_where P f (ad_bindings d)\<rparr>)
      else Inl IntegrityError)"

end
