(* ===== verification/ActorAttempts.thy ===== *)
theory ActorAttempts
  imports ActorStore
begin

section \<open>ActorOps: the ledger of paid attempts\<close>

text \<open>
  \<open>src/src/services/actorops/repository_attempts.py\<close>: every statement that creates or changes an
  attempt, with the defaults \<open>repository.py\<close> fills in, and the admission barrier of
  \<open>repository_execution.py\<close> that reads the ledger.  Every function is called inside a repository
  transaction, which undoes it when it raises.  An operation with an expected generation is a
  compare-and-set: it succeeds for the writer that read the row last.
\<close>

subsection \<open>Creating an attempt\<close>

record attempt_request =
  aq_attempt_id :: string
  aq_idempotency_key :: string
  aq_route_id :: string
  aq_candidate_id :: string
  aq_kind :: attempt_kind
  aq_group_id :: string
  aq_index :: int
  aq_route_generation :: int
  aq_binding_version :: "int option"
  aq_target_fingerprint :: string
  aq_reserved_usd :: usd
  aq_source_id :: "string option"
  aq_created_at :: "time option"
  aq_logical_job_id :: "string option"
  aq_request_fingerprint :: "string option"
  aq_window_since :: "time option"
  aq_window_until :: "time option"
  aq_max_items :: "int option"
  aq_schema_version :: int

text \<open>\<open>x or y\<close> for a text that may be None.\<close>

definition py_or :: "string option \<Rightarrow> string \<Rightarrow> string" where
  "py_or x y = (if truthy (or_empty x) then or_empty x else y)"

definition or_else :: "'a option \<Rightarrow> 'a option \<Rightarrow> 'a option" where
  "or_else x y = (case x of None \<Rightarrow> y | Some v \<Rightarrow> Some v)"

lemma or_else_simps [simp]: "or_else None y = y" "or_else (Some v) y = Some v"
  by (simp_all add: or_else_def)

definition new_attempt :: "string \<Rightarrow> time \<Rightarrow> attempt_request \<Rightarrow> attempt" where
  "new_attempt w now q =
     (let stamp = (case aq_created_at q of None \<Rightarrow> now | Some t \<Rightarrow> t)
      in \<lparr>at_id = aq_attempt_id q, at_workspace_id = w, at_idempotency_key = aq_idempotency_key q,
          at_route_id = aq_route_id q, at_source_id = aq_source_id q,
          at_candidate_id = aq_candidate_id q, at_kind = aq_kind q, at_group_id = aq_group_id q,
          at_index = aq_index q, at_route_generation = aq_route_generation q,
          at_binding_version = aq_binding_version q,
          at_target_fingerprint = aq_target_fingerprint q, at_status = Created,
          at_semantic_outcome = None, at_failure_class = None, at_error_code = None,
          at_secret_ref_id = None, at_secret_version = None, at_pool_generation = None,
          at_remote_run_id = None, at_dataset_id = None, at_reserved_usd = aq_reserved_usd q,
          at_actual_cost_usd = None, at_cost_final = False, at_generation = 1,
          at_created_at = stamp, at_started_at = None, at_terminal_at = None, at_updated_at = stamp,
          at_logical_job_id = Some (py_or (aq_logical_job_id q) (aq_attempt_id q)),
          at_schema_version = aq_schema_version q,
          at_request_fingerprint = Some (py_or (aq_request_fingerprint q) (aq_idempotency_key q)),
          at_window_since = or_else (or_else (aq_window_since q) (aq_created_at q)) (Some stamp),
          at_window_until = aq_window_until q,
          at_max_items = Some (case aq_max_items q of None \<Rightarrow> 1 | Some n \<Rightarrow> if n = 0 then 1 else n),
          at_result_state = PendingResult, at_result_observed_at = None\<rparr>)"

definition create_attempt ::
  "time \<Rightarrow> attempt_request \<Rightarrow> repository \<Rightarrow> (repository, unit) outcome" where
  "create_attempt now q r =
     require_transaction r
       (case insert_attempt (new_attempt (rp_workspace_id r) now q) (rp_db r) of
          Inl e \<Rightarrow> Raise e r
        | Inr d \<Rightarrow> Return () (r\<lparr>rp_db := d\<rparr>))"

subsection \<open>Changing an attempt\<close>

text \<open>An UPDATE of one attempt, and \<open>_changed\<close>.\<close>

definition is_attempt :: "string \<Rightarrow> string \<Rightarrow> attempt \<Rightarrow> bool" where
  "is_attempt w aid a \<longleftrightarrow> at_workspace_id a = w \<and> at_id a = aid"

definition cas_attempt ::
  "string \<Rightarrow> (attempt \<Rightarrow> bool) \<Rightarrow> (attempt \<Rightarrow> attempt) \<Rightarrow> string \<Rightarrow> repository
   \<Rightarrow> (repository, unit) outcome" where
  "cas_attempt aid P f msg r =
     (case update_attempts (\<lambda>a. is_attempt (rp_workspace_id r) aid a \<and> P a) f (rp_db r) of
        Inl e \<Rightarrow> Raise e r
      | Inr (n, d) \<Rightarrow> if n = 1 then Return () (r\<lparr>rp_db := d\<rparr>)
                    else Raise (ActorOpsConflict msg) (r\<lparr>rp_db := d\<rparr>))"

text \<open>What every change does to the row besides its own columns.\<close>

definition touched :: "time \<Rightarrow> attempt \<Rightarrow> attempt" where
  "touched now a = a\<lparr>at_generation := at_generation a + 1, at_updated_at := now\<rparr>"

definition merge_cost :: "usd option \<Rightarrow> usd option \<Rightarrow> usd option" where
  "merge_cost old new =
     (case new of None \<Rightarrow> old | Some x \<Rightarrow> (case old of None \<Rightarrow> Some x | Some y \<Rightarrow> Some (max y x)))"

definition observe_result ::
  "time \<Rightarrow> string \<Rightarrow> string \<Rightarrow> string option \<Rightarrow> usd option \<Rightarrow> bool \<Rightarrow> repository
   \<Rightarrow> (repository, unit) outcome" where
  "observe_result now aid remote dataset cost final r =
     require_transaction r
       (case get_attempt aid r of
          Inl e \<Rightarrow> Raise e r
        | Inr row \<Rightarrow>
            cas_attempt aid
              (\<lambda>a. at_generation a = at_generation row
                 \<and> (at_remote_run_id a = None \<or> at_remote_run_id a = Some remote)
                 \<and> (at_dataset_id a = None \<or> dataset = None \<or> at_dataset_id a = dataset))
              (\<lambda>a. touched now (a\<lparr>at_remote_run_id := or_else (at_remote_run_id a) (Some remote),
                 at_dataset_id := or_else (at_dataset_id a) dataset,
                 at_actual_cost_usd := merge_cost (at_actual_cost_usd a) cost,
                 at_cost_final := (final \<or> at_cost_final a),
                 at_result_state := (if at_result_state a = PendingResult then ObservedResult
                                     else at_result_state a),
                 at_result_observed_at := or_else (at_result_observed_at a) (Some now)\<rparr>))
              ''attempt changed before result observation'' r)"

definition update_start ::
  "time \<Rightarrow> string \<Rightarrow> int \<Rightarrow> string option \<Rightarrow> int option \<Rightarrow> int option \<Rightarrow> repository
   \<Rightarrow> (repository, unit) outcome" where
  "update_start now aid expected secret version pool r =
     require_transaction r
       (cas_attempt aid (\<lambda>a. at_status a = Created \<and> at_generation a = expected)
          (\<lambda>a. touched now (a\<lparr>at_status := Starting, at_secret_ref_id := secret,
             at_secret_version := version, at_pool_generation := pool, at_started_at := Some now\<rparr>))
          ''attempt changed before start'' r)"

definition register_run ::
  "time \<Rightarrow> string \<Rightarrow> int \<Rightarrow> string \<Rightarrow> string option \<Rightarrow> repository \<Rightarrow> (repository, unit) outcome" where
  "register_run now aid expected remote dataset r =
     require_transaction r
       (cas_attempt aid
          (\<lambda>a. at_status a \<in> {Starting, StartUnknown} \<and> at_generation a = expected)
          (\<lambda>a. touched now (a\<lparr>at_status := Registered, at_remote_run_id := Some remote,
             at_dataset_id := dataset\<rparr>))
          ''attempt changed before Run registration'' r)"

definition replace_credential ::
  "time \<Rightarrow> string \<Rightarrow> int \<Rightarrow> string option \<Rightarrow> int option \<Rightarrow> int option \<Rightarrow> repository
   \<Rightarrow> (repository, unit) outcome" where
  "replace_credential now aid expected secret version pool r =
     require_transaction r
       (cas_attempt aid
          (\<lambda>a. at_status a = Starting \<and> at_remote_run_id a = None \<and> at_generation a = expected)
          (\<lambda>a. touched now (a\<lparr>at_secret_ref_id := secret, at_secret_version := version,
             at_pool_generation := pool\<rparr>))
          ''attempt changed before credential replacement'' r)"

definition annotate ::
  "time \<Rightarrow> string \<Rightarrow> failure_class \<Rightarrow> string \<Rightarrow> repository \<Rightarrow> (repository, unit) outcome" where
  "annotate now aid failure code r =
     require_transaction r
       (case get_attempt aid r of
          Inl e \<Rightarrow> Raise e r
        | Inr row \<Rightarrow>
            cas_attempt aid (\<lambda>a. at_generation a = at_generation row)
              (\<lambda>a. touched now (a\<lparr>at_failure_class := Some failure, at_error_code := Some code\<rparr>))
              ''attempt changed before annotation'' r)"

definition complete_attempt ::
  "time \<Rightarrow> string \<Rightarrow> attempt_status \<Rightarrow> string option \<Rightarrow> usd option \<Rightarrow> bool \<Rightarrow> failure_class option
   \<Rightarrow> string option \<Rightarrow> repository \<Rightarrow> (repository, unit) outcome" where
  "complete_attempt now aid target semantic cost final failure code r =
     require_transaction r
       (case get_attempt aid r of
          Inl e \<Rightarrow> Raise e r
        | Inr row \<Rightarrow>
           (case ensure_attempt_transition (at_status row) target of
              Inl e \<Rightarrow> Raise e r
            | Inr _ \<Rightarrow>
                cas_attempt aid
                  (\<lambda>a. at_status a = at_status row \<and> at_generation a = at_generation row)
                  (\<lambda>a. touched now (a\<lparr>at_status := target, at_semantic_outcome := semantic,
                     at_failure_class := failure, at_error_code := code,
                     at_actual_cost_usd := merge_cost (at_actual_cost_usd a) cost,
                     at_cost_final := (final \<or> at_cost_final a),
                     at_result_state := (if target = SucceededAttempt then ValidatedResult
                                         else at_result_state a),
                     at_terminal_at := Some now\<rparr>))
                  ''attempt changed before completion'' r))"

definition transition_attempt ::
  "time \<Rightarrow> string \<Rightarrow> attempt_status \<Rightarrow> attempt_status \<Rightarrow> failure_class option \<Rightarrow> string option
   \<Rightarrow> int option \<Rightarrow> repository \<Rightarrow> (repository, unit) outcome" where
  "transition_attempt now aid current target failure code expected r =
     require_transaction r
       (case ensure_attempt_transition current target of
          Inl e \<Rightarrow> Raise e r
        | Inr _ \<Rightarrow>
            cas_attempt aid
              (\<lambda>a. at_status a = current \<and> (expected = None \<or> expected = Some (at_generation a)))
              (\<lambda>a. touched now (a\<lparr>at_status := target, at_failure_class := failure,
                 at_error_code := code,
                 at_terminal_at := (if target \<in> set TERMINAL_ATTEMPT_STATUSES then Some now
                                    else at_terminal_at a)\<rparr>))
              ''attempt changed before transition'' r)"

record reconciliation =
  rc_status :: attempt_status
  rc_generation :: int
  rc_target :: "attempt_status option"
  rc_remote_run_id :: "string option"
  rc_dataset_id :: "string option"
  rc_semantic_outcome :: "string option"
  rc_actual_cost_usd :: "usd option"
  rc_cost_final :: bool
  rc_failure_class :: "failure_class option"
  rc_error_code :: "string option"

definition reconciled :: "time \<Rightarrow> reconciliation \<Rightarrow> attempt \<Rightarrow> attempt" where
  "reconciled now v a =
     (let target = (case rc_target v of None \<Rightarrow> rc_status v | Some s \<Rightarrow> s)
      in touched now (a\<lparr>at_status := target,
           at_remote_run_id := or_else (rc_remote_run_id v) (at_remote_run_id a),
           at_dataset_id := or_else (rc_dataset_id v) (at_dataset_id a),
           at_semantic_outcome := or_else (rc_semantic_outcome v) (at_semantic_outcome a),
           at_failure_class := or_else (rc_failure_class v) (at_failure_class a),
           at_error_code := or_else (rc_error_code v) (at_error_code a),
           at_actual_cost_usd := merge_cost (at_actual_cost_usd a) (rc_actual_cost_usd v),
           at_cost_final := (rc_cost_final v \<or> at_cost_final a),
           at_result_state := (if rc_dataset_id v \<noteq> None \<and> at_result_state a = PendingResult
                               then ObservedResult else at_result_state a),
           at_result_observed_at := (if rc_dataset_id v \<noteq> None
                               then or_else (at_result_observed_at a) (Some now)
                               else at_result_observed_at a),
           at_terminal_at := (if target \<in> set TERMINAL_ATTEMPT_STATUSES then Some now
                              else at_terminal_at a)\<rparr>))"

definition reconcile ::
  "time \<Rightarrow> string \<Rightarrow> reconciliation \<Rightarrow> repository \<Rightarrow> (repository, unit) outcome" where
  "reconcile now aid v r =
     require_transaction r
       (let current = rc_status v; target = (case rc_target v of None \<Rightarrow> current | Some s \<Rightarrow> s)
        in if current \<in> set TERMINAL_ATTEMPT_STATUSES \<and> target \<noteq> current
           then Raise (ActorOpsConflict ''terminal Attempt cannot be reopened'') r
           else case (if target \<noteq> current then ensure_attempt_transition current target else Inr ()) of
             Inl e \<Rightarrow> Raise e r
           | Inr _ \<Rightarrow>
               cas_attempt aid
                 (\<lambda>a. at_status a = current \<and> at_generation a = rc_generation v
                    \<and> (rc_remote_run_id v = None \<or> at_remote_run_id a = None
                       \<or> at_remote_run_id a = rc_remote_run_id v))
                 (reconciled now v) ''attempt changed before reconciliation'' r)"

definition mark_reconciliation_error ::
  "time \<Rightarrow> string \<Rightarrow> attempt_status \<Rightarrow> int \<Rightarrow> failure_class option \<Rightarrow> string \<Rightarrow> repository
   \<Rightarrow> (repository, unit) outcome" where
  "mark_reconciliation_error now aid status expected failure code =
     reconcile now aid
       \<lparr>rc_status = status, rc_generation = expected, rc_target = None, rc_remote_run_id = None,
        rc_dataset_id = None, rc_semantic_outcome = None, rc_actual_cost_usd = None,
        rc_cost_final = False, rc_failure_class = Some (case failure of None \<Rightarrow> RemoteUnknown | Some f \<Rightarrow> f),
        rc_error_code = Some code\<rparr>"

subsection \<open>The admission barrier\<close>

definition unsettled_fetch :: "string \<Rightarrow> string \<Rightarrow> string \<Rightarrow> attempt \<Rightarrow> bool" where
  "unsettled_fetch w rid sid a \<longleftrightarrow>
     at_workspace_id a = w \<and> at_route_id a = rid \<and> at_source_id a = Some sid
     \<and> at_kind a = FetchAttempt
     \<and> (at_status a \<notin> set TERMINAL_ATTEMPT_STATUSES \<or> \<not> at_cost_final a)"

definition settlement_order :: "attempt \<Rightarrow> nat \<times> time \<times> string" where
  "settlement_order a = ((if at_cost_final a then 1 else 0), at_updated_at a, at_id a)"

definition blocking_code_of :: "attempt option \<Rightarrow> string option" where
  "blocking_code_of row =
     (case row of
        None \<Rightarrow> None
      | Some a \<Rightarrow> Some (if \<not> at_cost_final a then ''actorops_cost_settlement_required''
                      else ''actorops_result_recovery_required''))"

definition fetch_blocking_code ::
  "string \<Rightarrow> string \<Rightarrow> repository \<Rightarrow> (repository, string option) outcome" where
  "fetch_blocking_code rid sid r =
     require_transaction r
       (Return (blocking_code_of
          (first_by settlement_order (unsettled_fetch (rp_workspace_id r) rid sid) (ad_attempts (rp_db r)))) r)"


subsection \<open>Sequences of operations\<close>

datatype ledger_op =
    CreateAttempt attempt_request
  | ObserveResult string string "string option" "usd option" bool
  | UpdateStart string int "string option" "int option" "int option"
  | RegisterRun string int string "string option"
  | ReplaceCredential string int "string option" "int option" "int option"
  | Annotate string failure_class string
  | CompleteAttempt string attempt_status "string option" "usd option" bool
      "failure_class option" "string option"
  | TransitionAttempt string attempt_status attempt_status "failure_class option" "string option"
      "int option"
  | Reconcile string reconciliation
  | MarkReconciliationError string attempt_status int "failure_class option" string

fun ledger_body :: "time \<Rightarrow> ledger_op \<Rightarrow> repository \<Rightarrow> (repository, unit) outcome" where
  "ledger_body t (CreateAttempt q) = create_attempt t q"
| "ledger_body t (ObserveResult i run ds cost final) = observe_result t i run ds cost final"
| "ledger_body t (UpdateStart i g s v p) = update_start t i g s v p"
| "ledger_body t (RegisterRun i g run ds) = register_run t i g run ds"
| "ledger_body t (ReplaceCredential i g s v p) = replace_credential t i g s v p"
| "ledger_body t (Annotate i f code) = annotate t i f code"
| "ledger_body t (CompleteAttempt i s sem cost final f code) =
     complete_attempt t i s sem cost final f code"
| "ledger_body t (TransitionAttempt i s s' f code g) = transition_attempt t i s s' f code g"
| "ledger_body t (Reconcile i v) = reconcile t i v"
| "ledger_body t (MarkReconciliationError i s g f code) = mark_reconciliation_error t i s g f code"

definition ledger :: "time \<Rightarrow> ledger_op \<Rightarrow> repository \<Rightarrow> (repository, unit) outcome" where
  "ledger t p = transaction (ledger_body t p)"

definition run_ledger :: "(time \<times> ledger_op) list \<Rightarrow> repository \<Rightarrow> repository" where
  "run_ledger ops r = foldl (\<lambda>r (t, p). snd (ledger t p r)) r ops"

text \<open>The attempt an operation changes, and the generation its caller has read.\<close>

fun written_attempt :: "ledger_op \<Rightarrow> string option" where
  "written_attempt (CreateAttempt q) = None"
| "written_attempt (ObserveResult i run ds cost final) = Some i"
| "written_attempt (UpdateStart i g s v p) = Some i"
| "written_attempt (RegisterRun i g run ds) = Some i"
| "written_attempt (ReplaceCredential i g s v p) = Some i"
| "written_attempt (Annotate i f code) = Some i"
| "written_attempt (CompleteAttempt i s sem cost final f code) = Some i"
| "written_attempt (TransitionAttempt i s s' f code g) = Some i"
| "written_attempt (Reconcile i v) = Some i"
| "written_attempt (MarkReconciliationError i s g f code) = Some i"

fun expected_generation :: "ledger_op \<Rightarrow> int option" where
  "expected_generation (UpdateStart i g s v p) = Some g"
| "expected_generation (RegisterRun i g run ds) = Some g"
| "expected_generation (ReplaceCredential i g s v p) = Some g"
| "expected_generation (TransitionAttempt i s s' f code g) = g"
| "expected_generation (Reconcile i v) = Some (rc_generation v)"
| "expected_generation (MarkReconciliationError i s g f code) = Some g"
| "expected_generation _ = None"

subsection \<open>One statement\<close>

lemma update_attempts_Inr:
  assumes "update_attempts P f d = Inr (n, d')"
  shows "n = row_count P (ad_attempts d)" "d' = d\<lparr>ad_attempts := update_where P f (ad_attempts d)\<rparr>"
    "attempts_unique (update_where P f (ad_attempts d))"
    "\<And>a. a \<in> set (ad_attempts d) \<Longrightarrow> P a \<Longrightarrow> attempt_update_ok a (f a)"
  using assms by (auto simp: update_attempts_def Let_def split: if_splits)

lemma update_attempts_ok:
  assumes "attempts_unique (update_where P f (ad_attempts d))"
    and "\<forall>a \<in> set (ad_attempts d). P a \<longrightarrow> attempt_update_ok a (f a) \<and> attempt_columns_ok (f a)"
    and "row_count P (ad_attempts d) = n" "update_where P f (ad_attempts d) = rows"
  shows "update_attempts P f d = Inr (n, d\<lparr>ad_attempts := rows\<rparr>)"
  using assms by (simp add: update_attempts_def)

lemma update_attempts_cong:
  assumes "\<And>a. a \<in> set (ad_attempts d) \<Longrightarrow> P a \<Longrightarrow> f a = g a"
  shows "update_attempts P f d = update_attempts P g d"
proof -
  have "update_where P f (ad_attempts d) = update_where P g (ad_attempts d)"
    unfolding update_where_def using assms by (intro map_cong) auto
  moreover have "(\<forall>a \<in> set (ad_attempts d). P a \<longrightarrow> attempt_update_ok a (f a) \<and> attempt_columns_ok (f a))
    \<longleftrightarrow> (\<forall>a \<in> set (ad_attempts d). P a \<longrightarrow> attempt_update_ok a (g a) \<and> attempt_columns_ok (g a))"
    using assms by auto
  ultimately show ?thesis by (simp add: update_attempts_def)
qed

lemma cas_attempt_Inr:
  assumes "cas_attempt aid P f msg r = (Inr x, r')"
  shows "r' = r\<lparr>rp_db := (rp_db r)\<lparr>ad_attempts :=
      update_where (\<lambda>a. is_attempt (rp_workspace_id r) aid a \<and> P a) f (ad_attempts (rp_db r))\<rparr>\<rparr>"
    "attempts_unique (ad_attempts (rp_db r'))"
    "row_count (\<lambda>a. is_attempt (rp_workspace_id r) aid a \<and> P a) (ad_attempts (rp_db r)) = 1"
    "\<And>a. a \<in> set (ad_attempts (rp_db r)) \<Longrightarrow> is_attempt (rp_workspace_id r) aid a \<Longrightarrow> P a
      \<Longrightarrow> attempt_update_ok a (f a)"
proof -
  from assms obtain d where
    u: "update_attempts (\<lambda>a. is_attempt (rp_workspace_id r) aid a \<and> P a) f (rp_db r) = Inr (1, d)"
    and r': "r' = r\<lparr>rp_db := d\<rparr>"
    by (auto simp: cas_attempt_def split: sum.splits prod.splits if_splits)
  note s = update_attempts_Inr [OF u]
  show "r' = r\<lparr>rp_db := (rp_db r)\<lparr>ad_attempts :=
      update_where (\<lambda>a. is_attempt (rp_workspace_id r) aid a \<and> P a) f (ad_attempts (rp_db r))\<rparr>\<rparr>"
    using r' s(2) by simp
  show "attempts_unique (ad_attempts (rp_db r'))" using r' s(2,3) by simp
  show "row_count (\<lambda>a. is_attempt (rp_workspace_id r) aid a \<and> P a) (ad_attempts (rp_db r)) = 1"
    using s(1) by simp
  show "\<And>a. a \<in> set (ad_attempts (rp_db r)) \<Longrightarrow> is_attempt (rp_workspace_id r) aid a \<Longrightarrow> P a
      \<Longrightarrow> attempt_update_ok a (f a)" using s(4) by simp
qed

text \<open>Every operation that changes an attempt is one such statement on the attempt it names; its
  new row keeps the identity and takes the next generation.\<close>

definition row_step :: "(attempt \<Rightarrow> attempt) \<Rightarrow> bool" where
  "row_step f \<longleftrightarrow> (\<forall>a. at_id (f a) = at_id a \<and> at_workspace_id (f a) = at_workspace_id a
     \<and> at_generation (f a) = at_generation a + 1)"

lemma touched_simps [simp]:
  "at_generation (touched now a) = at_generation a + 1"
  "at_id (touched now a) = at_id a" "at_workspace_id (touched now a) = at_workspace_id a"
  "at_status (touched now a) = at_status a" "at_cost_final (touched now a) = at_cost_final a"
  "at_route_id (touched now a) = at_route_id a" "at_source_id (touched now a) = at_source_id a"
  "at_kind (touched now a) = at_kind a" "at_actual_cost_usd (touched now a) = at_actual_cost_usd a"
  by (simp_all add: touched_def)

lemma require_transaction_Inr:
  "require_transaction r k = (Inr x, r') \<Longrightarrow> k = (Inr x, r') \<and> rp_in_tx r"
  by (simp add: require_transaction_def split: if_splits)

lemma mark_error_body:
  "mark_reconciliation_error now aid status g f code =
     reconcile now aid \<lparr>rc_status = status, rc_generation = g, rc_target = None,
       rc_remote_run_id = None, rc_dataset_id = None, rc_semantic_outcome = None,
       rc_actual_cost_usd = None, rc_cost_final = False,
       rc_failure_class = Some (case f of None \<Rightarrow> RemoteUnknown | Some x \<Rightarrow> x),
       rc_error_code = Some code\<rparr>"
  by (rule ext) (simp add: mark_reconciliation_error_def)

lemma reconcile_step:
  assumes "reconcile t i v r = (Inr x, r')"
  shows "\<exists>P f msg. cas_attempt i P f msg r = (Inr x, r') \<and> row_step f
    \<and> (\<forall>a. P a \<longrightarrow> at_generation a = rc_generation v)"
proof -
  from assms obtain P f msg where k: "cas_attempt i P f msg r = (Inr x, r')"
    and f: "row_step f" and P: "\<forall>a. P a \<longrightarrow> at_generation a = rc_generation v"
    by (auto simp: reconcile_def Let_def row_step_def reconciled_def dest!: require_transaction_Inr
        split: if_splits sum.splits)
  then show ?thesis by blast
qed

lemma cas_step:
  assumes "cas_attempt i P f msg r = res" "row_step f"
    and "\<And>g a. e = Some g \<Longrightarrow> P a \<Longrightarrow> at_generation a = g"
  shows "\<exists>P f msg. cas_attempt i P f msg r = res \<and> row_step f
    \<and> (\<forall>g a. e = Some g \<longrightarrow> P a \<longrightarrow> at_generation a = g)"
  using assms by blast

lemma row_stepI: "(\<And>a. at_id (f a) = at_id a \<and> at_workspace_id (f a) = at_workspace_id a
    \<and> at_generation (f a) = at_generation a + 1) \<Longrightarrow> row_step f"
  by (simp add: row_step_def)

lemma ledger_body_step:
  assumes "ledger_body t p r = (Inr x, r')" "written_attempt p = Some i"
  shows "\<exists>P f msg. cas_attempt i P f msg r = (Inr x, r') \<and> row_step f
    \<and> (\<forall>g a. expected_generation p = Some g \<longrightarrow> P a \<longrightarrow> at_generation a = g)"
proof (cases p)
  case (CreateAttempt q)
  with assms show ?thesis by simp
next
  case (Reconcile j v)
  with assms reconcile_step [of t j v r x r'] show ?thesis by auto
next
  case (MarkReconciliationError j s g f c)
  with assms reconcile_step [OF assms(1) [unfolded MarkReconciliationError ledger_body.simps mark_error_body]]
  show ?thesis by auto
next
  case (ObserveResult j run ds cost final)
  with assms have b: "ledger_body t (ObserveResult i run ds cost final) r = (Inr x, r')" and j: "j = i" by simp_all
  then have "\<not> isl (get_attempt i r)"
    by (auto simp: observe_result_def require_transaction_def isl_def split: if_splits)
  then obtain y where y: "get_attempt i r = Inr y" by (cases "get_attempt i r") auto
  from require_transaction_Inr [OF b [unfolded ledger_body.simps observe_result_def y sum.case]]
  show ?thesis unfolding ObserveResult expected_generation.simps
    by (elim conjE) (rule cas_step, assumption, rule row_stepI, simp, simp)
next
  case (UpdateStart j g s v q)
  with assms have b: "ledger_body t (UpdateStart i g s v q) r = (Inr x, r')" and j: "j = i" by simp_all
  from require_transaction_Inr [OF b [unfolded ledger_body.simps update_start_def]]
  show ?thesis unfolding UpdateStart expected_generation.simps
    by (elim conjE) (rule cas_step, assumption, rule row_stepI, simp, simp)
next
  case (RegisterRun j g run ds)
  with assms have b: "ledger_body t (RegisterRun i g run ds) r = (Inr x, r')" and j: "j = i" by simp_all
  from require_transaction_Inr [OF b [unfolded ledger_body.simps register_run_def]]
  show ?thesis unfolding RegisterRun expected_generation.simps
    by (elim conjE) (rule cas_step, assumption, rule row_stepI, simp, simp)
next
  case (ReplaceCredential j g s v q)
  with assms have b: "ledger_body t (ReplaceCredential i g s v q) r = (Inr x, r')" and j: "j = i" by simp_all
  from require_transaction_Inr [OF b [unfolded ledger_body.simps replace_credential_def]]
  show ?thesis unfolding ReplaceCredential expected_generation.simps
    by (elim conjE) (rule cas_step, assumption, rule row_stepI, simp, simp)
next
  case (Annotate j f code)
  with assms have b: "ledger_body t (Annotate i f code) r = (Inr x, r')" and j: "j = i" by simp_all
  then have "\<not> isl (get_attempt i r)"
    by (auto simp: annotate_def require_transaction_def isl_def split: if_splits)
  then obtain y where y: "get_attempt i r = Inr y" by (cases "get_attempt i r") auto
  from require_transaction_Inr [OF b [unfolded ledger_body.simps annotate_def y sum.case]]
  show ?thesis unfolding Annotate expected_generation.simps
    by (elim conjE) (rule cas_step, assumption, rule row_stepI, simp, simp)
next
  case (TransitionAttempt j s s' f code g)
  with assms have b: "ledger_body t (TransitionAttempt i s s' f code g) r = (Inr x, r')" and j: "j = i" by simp_all
  then have "\<not> isl (ensure_attempt_transition s s')"
    by (auto simp: transition_attempt_def require_transaction_def isl_def split: if_splits)
  then obtain y where y: "ensure_attempt_transition s s' = Inr y" by (cases "ensure_attempt_transition s s'") auto
  from require_transaction_Inr [OF b [unfolded ledger_body.simps transition_attempt_def y sum.case]]
  show ?thesis unfolding TransitionAttempt expected_generation.simps
    by (elim conjE) (rule cas_step, assumption, rule row_stepI, simp, simp)
next
  case (CompleteAttempt j s sem cost final f code)
  with assms have b: "complete_attempt t i s sem cost final f code r = (Inr x, r')" and j: "j = i"
    by simp_all
  then have "\<not> isl (get_attempt i r)"
    by (auto simp: complete_attempt_def require_transaction_def isl_def split: if_splits)
  then obtain y where y: "get_attempt i r = Inr y" by (cases "get_attempt i r") auto
  with b have "\<not> isl (ensure_attempt_transition (at_status y) s)"
    by (auto simp: complete_attempt_def require_transaction_def isl_def split: if_splits)
  then obtain z where z: "ensure_attempt_transition (at_status y) s = Inr z"
    by (cases "ensure_attempt_transition (at_status y) s") auto
  from require_transaction_Inr [OF b [unfolded complete_attempt_def y z sum.case]]
  show ?thesis unfolding CompleteAttempt expected_generation.simps
    by (elim conjE) (rule cas_step, assumption, rule row_stepI, simp, simp)
qed

subsection \<open>Attempts only move forward\<close>

inductive attempt_leads :: "attempt_status \<Rightarrow> attempt_status \<Rightarrow> bool" where
  stay: "attempt_leads s s"
| move: "attempt_leads s t \<Longrightarrow> u \<in> set (attempt_transitions t) \<Longrightarrow> attempt_leads s u"

lemma attempt_leads_trans: "attempt_leads t u \<Longrightarrow> attempt_leads s t \<Longrightarrow> attempt_leads s u"
  by (induction rule: attempt_leads.induct) (auto intro: attempt_leads.intros)

lemma attempt_leads_climbs: "attempt_leads s t \<Longrightarrow> t = s \<or> attempt_rank s < attempt_rank t"
  by (induction rule: attempt_leads.induct) (auto dest!: attempt_transition_climbs)

lemma terminal_attempt_leads:
  "attempt_leads s t \<Longrightarrow> s \<in> set TERMINAL_ATTEMPT_STATUSES \<Longrightarrow> t = s"
  by (induction rule: attempt_leads.induct) (auto simp: terminal_attempt_iff)

definition attempt_follows :: "attempt \<Rightarrow> attempt \<Rightarrow> bool" where
  "attempt_follows a b \<longleftrightarrow>
     at_id b = at_id a \<and> at_workspace_id b = at_workspace_id a
     \<and> attempt_leads (at_status a) (at_status b) \<and> at_generation a \<le> at_generation b
     \<and> request_identity b = request_identity a \<and> observation_kept a b"

lemma observation_kept_refl [simp]: "observation_kept a a"
  by (simp add: observation_kept_def split: option.splits)

lemma observation_kept_trans: "observation_kept a b \<Longrightarrow> observation_kept b c \<Longrightarrow> observation_kept a c"
  by (cases "at_actual_cost_usd a"; cases "at_actual_cost_usd b"; cases "at_actual_cost_usd c")
    (simp_all add: observation_kept_def)

lemma attempt_follows_refl [simp]: "attempt_follows a a"
  by (simp add: attempt_follows_def attempt_leads.stay)

lemma attempt_follows_trans: "attempt_follows a b \<Longrightarrow> attempt_follows b c \<Longrightarrow> attempt_follows a c"
  by (auto simp: attempt_follows_def intro: attempt_leads_trans observation_kept_trans)

lemma attempt_follows_step:
  assumes "attempt_update_ok a (f a)" "row_step f"
  shows "attempt_follows a (f a)"
proof -
  have "attempt_leads (at_status a) (at_status (f a))"
    using assms(1) attempt_leads.stay [of "at_status a"]
      attempt_leads.move [OF attempt_leads.stay, of "at_status (f a)" "at_status a"]
    by (auto simp: attempt_update_ok_def)
  then show ?thesis using assms by (simp add: attempt_follows_def attempt_update_ok_def row_step_def)
qed

lemma create_attempt_Inr:
  assumes "create_attempt t q r = (Inr x, r')"
  shows "r' = r\<lparr>rp_db := (rp_db r)\<lparr>ad_attempts := ad_attempts (rp_db r)
      @ [new_attempt (rp_workspace_id r) t q]\<rparr>\<rparr>"
    and "attempts_unique (ad_attempts (rp_db r'))"
proof -
  note b = require_transaction_Inr [OF assms [unfolded create_attempt_def]]
  then obtain d where d: "insert_attempt (new_attempt (rp_workspace_id r) t q) (rp_db r) = Inr d"
    and r': "r' = r\<lparr>rp_db := d\<rparr>"
    by (cases "insert_attempt (new_attempt (rp_workspace_id r) t q) (rp_db r)") auto
  then have d': "d = (rp_db r)\<lparr>ad_attempts := ad_attempts (rp_db r) @ [new_attempt (rp_workspace_id r) t q]\<rparr>"
    and u: "attempts_unique (ad_attempts (rp_db r) @ [new_attempt (rp_workspace_id r) t q])"
    unfolding insert_attempt_def by (metis sum.distinct(1) sum.inject(2))+
  show "r' = r\<lparr>rp_db := (rp_db r)\<lparr>ad_attempts := ad_attempts (rp_db r)
      @ [new_attempt (rp_workspace_id r) t q]\<rparr>\<rparr>" using r' d' by simp
  show "attempts_unique (ad_attempts (rp_db r'))" using r' d' u by simp
qed

lemma ledger_Inr:
  assumes "ledger t p r = (Inr x, r')"
  obtains r1 where "ledger_body t p (r\<lparr>rp_in_tx := True\<rparr>) = (Inr x, r1)"
    "r' = r1\<lparr>rp_in_tx := rp_in_tx r\<rparr>"
  using assms unfolding ledger_def by (rule transaction_Inr)

lemma ledger_Inl: "ledger t p r = (Inl e, r') \<Longrightarrow> r' = r"
  by (simp add: ledger_def)

lemma ledger_writes:
  assumes "ledger t p r = (Inr x, r')" "written_attempt p = Some i"
  obtains P f where "r' = r\<lparr>rp_db := (rp_db r)\<lparr>ad_attempts :=
      update_where (\<lambda>a. is_attempt (rp_workspace_id r) i a \<and> P a) f (ad_attempts (rp_db r))\<rparr>\<rparr>"
    and "attempts_unique (ad_attempts (rp_db r'))" "row_step f"
    and "row_count (\<lambda>a. is_attempt (rp_workspace_id r) i a \<and> P a) (ad_attempts (rp_db r)) = 1"
    and "\<And>a. a \<in> set (ad_attempts (rp_db r)) \<Longrightarrow> is_attempt (rp_workspace_id r) i a \<Longrightarrow> P a
      \<Longrightarrow> attempt_update_ok a (f a)"
    and "\<And>g a. expected_generation p = Some g \<Longrightarrow> P a \<Longrightarrow> at_generation a = g"
proof -
  obtain r1 where b: "ledger_body t p (r\<lparr>rp_in_tx := True\<rparr>) = (Inr x, r1)"
    and r': "r' = r1\<lparr>rp_in_tx := rp_in_tx r\<rparr>" by (rule ledger_Inr [OF assms(1)])
  obtain P f msg where c: "cas_attempt i P f msg (r\<lparr>rp_in_tx := True\<rparr>) = (Inr x, r1)"
    and f: "row_step f" and g: "\<forall>g a. expected_generation p = Some g \<longrightarrow> P a \<longrightarrow> at_generation a = g"
    using ledger_body_step [OF b assms(2)] by blast
  note s = cas_attempt_Inr [OF c]
  show thesis
  proof (rule that [OF _ _ f])
    show "r' = r\<lparr>rp_db := (rp_db r)\<lparr>ad_attempts :=
      update_where (\<lambda>a. is_attempt (rp_workspace_id r) i a \<and> P a) f (ad_attempts (rp_db r))\<rparr>\<rparr>"
      using r' s(1) by simp
    show "attempts_unique (ad_attempts (rp_db r'))" using r' s(2) by simp
    show "row_count (\<lambda>a. is_attempt (rp_workspace_id r) i a \<and> P a) (ad_attempts (rp_db r)) = 1"
      using s(3) by simp
    show "\<And>a. a \<in> set (ad_attempts (rp_db r)) \<Longrightarrow> is_attempt (rp_workspace_id r) i a \<Longrightarrow> P a
      \<Longrightarrow> attempt_update_ok a (f a)" using s(4) by simp
    show "\<And>g a. expected_generation p = Some g \<Longrightarrow> P a \<Longrightarrow> at_generation a = g" using g by blast
  qed
qed

lemma created_only_iff: "written_attempt p = None \<longleftrightarrow> (\<exists>q. p = CreateAttempt q)"
  by (cases p) auto

lemma ledger_creates:
  assumes "ledger t (CreateAttempt q) r = (Inr x, r')"
  shows "r' = r\<lparr>rp_db := (rp_db r)\<lparr>ad_attempts := ad_attempts (rp_db r)
      @ [new_attempt (rp_workspace_id r) t q]\<rparr>\<rparr>"
    and "attempts_unique (ad_attempts (rp_db r'))"
proof -
  obtain r1 where b: "create_attempt t q (r\<lparr>rp_in_tx := True\<rparr>) = (Inr x, r1)"
    and r': "r' = r1\<lparr>rp_in_tx := rp_in_tx r\<rparr>" by (rule ledger_Inr [OF assms]) simp
  note s = create_attempt_Inr [OF b]
  show "r' = r\<lparr>rp_db := (rp_db r)\<lparr>ad_attempts := ad_attempts (rp_db r)
      @ [new_attempt (rp_workspace_id r) t q]\<rparr>\<rparr>" using r' s(1) by simp
  show "attempts_unique (ad_attempts (rp_db r'))" using r' s(2) by simp
qed

lemma ledger_follows:
  assumes "a \<in> set (ad_attempts (rp_db r))"
  shows "\<exists>b \<in> set (ad_attempts (rp_db (snd (ledger t p r)))). attempt_follows a b"
proof (cases "ledger t p r")
  case (Pair res r')
  show ?thesis
  proof (cases res)
    case (Inl e)
    with Pair ledger_Inl have "r' = r" by blast
    then have "a \<in> set (ad_attempts (rp_db (snd (ledger t p r))))" using Pair assms by simp
    then show ?thesis using attempt_follows_refl by blast
  next
    case (Inr x)
    with Pair have ok: "ledger t p r = (Inr x, r')" by simp
    show ?thesis
    proof (cases "written_attempt p")
      case None
      then obtain q where "p = CreateAttempt q" by (auto simp: created_only_iff)
      with ok have "r' = r\<lparr>rp_db := (rp_db r)\<lparr>ad_attempts := ad_attempts (rp_db r)
          @ [new_attempt (rp_workspace_id r) t q]\<rparr>\<rparr>" using ledger_creates(1) by blast
      then have "a \<in> set (ad_attempts (rp_db (snd (ledger t p r))))" using Pair assms by simp
      then show ?thesis using attempt_follows_refl by blast
    next
      case (Some i)
      obtain P f where r': "r' = r\<lparr>rp_db := (rp_db r)\<lparr>ad_attempts :=
          update_where (\<lambda>a. is_attempt (rp_workspace_id r) i a \<and> P a) f (ad_attempts (rp_db r))\<rparr>\<rparr>"
        and f: "row_step f"
        and u: "\<And>a. a \<in> set (ad_attempts (rp_db r)) \<Longrightarrow> is_attempt (rp_workspace_id r) i a \<Longrightarrow> P a
          \<Longrightarrow> attempt_update_ok a (f a)"
        by (rule ledger_writes [OF ok Some]) blast
      show ?thesis
      proof (cases "is_attempt (rp_workspace_id r) i a \<and> P a")
        case True
        then have "attempt_follows a (f a)" using attempt_follows_step f u assms by blast
        moreover have "f a \<in> set (ad_attempts (rp_db r'))"
          using True assms by (auto simp: r' table_simps)
        ultimately show ?thesis using Pair by auto
      next
        case False
        then have "a \<in> set (ad_attempts (rp_db (snd (ledger t p r))))"
          using assms Pair by (auto simp: r' table_simps)
        then show ?thesis using attempt_follows_refl by blast
      qed
    qed
  qed
qed

lemma run_ledger_simps [simp]:
  "run_ledger [] r = r"
  "run_ledger ((t, p) # ops) r = run_ledger ops (snd (ledger t p r))"
  by (simp_all add: run_ledger_def)

lemma run_ledger_follows:
  "a \<in> set (ad_attempts (rp_db r)) \<Longrightarrow>
     \<exists>b \<in> set (ad_attempts (rp_db (run_ledger ops r))). attempt_follows a b"
proof (induction ops arbitrary: r a)
  case (Cons entry ops)
  obtain t p where entry: "entry = (t, p)" by fastforce
  obtain b where "b \<in> set (ad_attempts (rp_db (snd (ledger t p r))))" "attempt_follows a b"
    using ledger_follows [OF Cons.prems] by blast
  with Cons.IH entry show ?case by simp (blast intro: attempt_follows_trans)
qed (auto intro: attempt_follows_refl)

text \<open>C16: Whatever operations run on the ledger, an attempt only moves along the accepted
  transitions, a terminal attempt never reopens, its request never changes, its recorded cost never
  falls, a final cost stays final and a known dataset stays the same.\<close>

theorem attempts_only_move_forward:
  assumes "a \<in> set (ad_attempts (rp_db r))"
  shows "\<exists>b \<in> set (ad_attempts (rp_db (run_ledger ops r))).
    at_id b = at_id a \<and> attempt_leads (at_status a) (at_status b)
    \<and> (at_status a \<in> set TERMINAL_ATTEMPT_STATUSES \<longrightarrow> at_status b = at_status a)
    \<and> request_identity b = request_identity a
    \<and> (\<forall>x. at_actual_cost_usd a = Some x \<longrightarrow> (\<exists>y. at_actual_cost_usd b = Some y \<and> x \<le> y))
    \<and> (at_cost_final a \<longrightarrow> at_cost_final b)
    \<and> (\<forall>s. at_dataset_id a = Some s \<longrightarrow> at_dataset_id b = Some s)"
proof -
  from run_ledger_follows [OF assms] obtain b where
    b: "b \<in> set (ad_attempts (rp_db (run_ledger ops r)))" and f: "attempt_follows a b" by blast
  from f have "at_status a \<in> set TERMINAL_ATTEMPT_STATUSES \<longrightarrow> at_status b = at_status a"
    by (auto simp: attempt_follows_def dest: terminal_attempt_leads)
  with b f show ?thesis
    by (intro bexI [OF _ b]) (auto simp: attempt_follows_def observation_kept_def split: option.splits)
qed


subsection \<open>Compare and set\<close>

lemma ledger_keeps_workspace [simp]: "rp_workspace_id (snd (ledger t p r)) = rp_workspace_id r"
proof (cases "ledger t p r")
  case (Pair res r')
  show ?thesis
  proof (cases res)
    case (Inl e)
    with Pair ledger_Inl show ?thesis by fastforce
  next
    case (Inr x)
    with Pair have ok: "ledger t p r = (Inr x, r')" by simp
    have "rp_workspace_id r' = rp_workspace_id r"
    proof (cases "written_attempt p")
      case None
      then obtain q where "p = CreateAttempt q" by (auto simp: created_only_iff)
      with ok ledger_creates(1) have "r' = r\<lparr>rp_db := (rp_db r)\<lparr>ad_attempts := ad_attempts (rp_db r)
          @ [new_attempt (rp_workspace_id r) t q]\<rparr>\<rparr>" by blast
      then show ?thesis by simp
    next
      case (Some i)
      show ?thesis by (rule ledger_writes [OF ok Some]) simp
    qed
    with Pair show ?thesis by simp
  qed
qed

lemma run_ledger_keeps_workspace [simp]: "rp_workspace_id (run_ledger ops r) = rp_workspace_id r"
  by (induction ops arbitrary: r) (auto simp: run_ledger_def split: prod.splits)

lemma ledger_keeps_unique:
  assumes "attempts_unique (ad_attempts (rp_db r))"
  shows "attempts_unique (ad_attempts (rp_db (snd (ledger t p r))))"
proof (cases "ledger t p r")
  case (Pair res r')
  show ?thesis
  proof (cases res)
    case (Inl e)
    with Pair ledger_Inl have "r' = r" by blast
    with Pair assms show ?thesis by simp
  next
    case (Inr x)
    with Pair have ok: "ledger t p r = (Inr x, r')" by simp
    have "attempts_unique (ad_attempts (rp_db r'))"
    proof (cases "written_attempt p")
      case None
      then obtain q where "p = CreateAttempt q" by (auto simp: created_only_iff)
      with ok ledger_creates(2) show ?thesis by blast
    next
      case (Some i)
      show ?thesis by (rule ledger_writes [OF ok Some])
    qed
    with Pair show ?thesis by simp
  qed
qed

lemma run_ledger_keeps_unique:
  "attempts_unique (ad_attempts (rp_db r)) \<Longrightarrow> attempts_unique (ad_attempts (rp_db (run_ledger ops r)))"
proof (induction ops arbitrary: r)
  case (Cons entry ops)
  obtain t p where "entry = (t, p)" by fastforce
  with Cons show ?case by (simp add: ledger_keeps_unique)
qed simp

lemma unique_attempt:
  "attempts_unique rows \<Longrightarrow> a \<in> set rows \<Longrightarrow> b \<in> set rows \<Longrightarrow> at_id a = at_id b \<Longrightarrow> a = b"
  by (auto simp: attempts_unique_def distinct_map inj_on_def)

lemma successful_write_bumps:
  assumes "attempts_unique (ad_attempts (rp_db r))" "a \<in> set (ad_attempts (rp_db r))"
    and "ledger t p r = (Inr x, r')" "written_attempt p = Some (at_id a)"
  shows "\<exists>b \<in> set (ad_attempts (rp_db r')). at_id b = at_id a \<and> at_generation b = at_generation a + 1
    \<and> attempt_follows a b"
proof -
  obtain P f where r': "r' = r\<lparr>rp_db := (rp_db r)\<lparr>ad_attempts :=
      update_where (\<lambda>x. is_attempt (rp_workspace_id r) (at_id a) x \<and> P x) f (ad_attempts (rp_db r))\<rparr>\<rparr>"
    and f: "row_step f"
    and n: "row_count (\<lambda>x. is_attempt (rp_workspace_id r) (at_id a) x \<and> P x) (ad_attempts (rp_db r)) = 1"
    and u: "\<And>x. x \<in> set (ad_attempts (rp_db r)) \<Longrightarrow> is_attempt (rp_workspace_id r) (at_id a) x \<Longrightarrow> P x
      \<Longrightarrow> attempt_update_ok x (f x)"
    by (rule ledger_writes [OF assms(3,4)]) blast
  have "0 < row_count (\<lambda>x. is_attempt (rp_workspace_id r) (at_id a) x \<and> P x) (ad_attempts (rp_db r))"
    using n by simp
  then obtain y where y: "y \<in> set (ad_attempts (rp_db r))" "is_attempt (rp_workspace_id r) (at_id a) y" "P y"
    unfolding row_count_pos_iff by blast
  then have "y = a" using assms(1,2) unique_attempt by (auto simp: is_attempt_def)
  with y have ya: "is_attempt (rp_workspace_id r) (at_id a) a" "P a" by simp_all
  then have "f a \<in> set (ad_attempts (rp_db r'))" using assms(2) by (auto simp: r' table_simps)
  moreover have "attempt_follows a (f a)" using attempt_follows_step f u ya assms(2) by blast
  ultimately show ?thesis using f by (auto simp: row_step_def)
qed

text \<open>C5: Two writers that read the same generation of an attempt cannot both win: once one of them
  has changed it, the other's operation is refused and changes nothing, whatever ran in between.\<close>

theorem stale_attempt_writer_is_refused:
  assumes "attempts_unique (ad_attempts (rp_db r))" "a \<in> set (ad_attempts (rp_db r))"
    and "ledger t p r = (Inr x, r1)" "written_attempt p = Some (at_id a)"
    and "written_attempt p' = Some (at_id a)" "expected_generation p' = Some (at_generation a)"
  shows "\<exists>e. ledger t' p' (run_ledger ops r1) = (Inl e, run_ledger ops r1)"
proof -
  let ?r = "run_ledger ops r1"
  obtain b where b: "b \<in> set (ad_attempts (rp_db r1))" "at_id b = at_id a"
    "at_generation b = at_generation a + 1" using successful_write_bumps [OF assms(1-4)] by blast
  obtain c where c: "c \<in> set (ad_attempts (rp_db ?r))" "attempt_follows b c"
    using run_ledger_follows [OF b(1)] by blast
  have u: "attempts_unique (ad_attempts (rp_db ?r))"
    using run_ledger_keeps_unique ledger_keeps_unique [OF assms(1), of t p] assms(3) by simp
  obtain res r2 where r2: "ledger t' p' ?r = (res, r2)" by fastforce
  show ?thesis
  proof (cases res)
    case (Inl e)
    with r2 ledger_Inl [of t' p' ?r e r2] show ?thesis by auto
  next
    case (Inr y)
    with r2 have ok: "ledger t' p' ?r = (Inr y, r2)" by simp
    obtain P f where
      n: "row_count (\<lambda>x. is_attempt (rp_workspace_id ?r) (at_id a) x \<and> P x) (ad_attempts (rp_db ?r)) = 1"
      and g: "\<And>g x. expected_generation p' = Some g \<Longrightarrow> P x \<Longrightarrow> at_generation x = g"
      by (rule ledger_writes [OF ok assms(5)]) blast
    have "0 < row_count (\<lambda>x. is_attempt (rp_workspace_id ?r) (at_id a) x \<and> P x) (ad_attempts (rp_db ?r))"
      using n by simp
    then obtain z where z: "z \<in> set (ad_attempts (rp_db ?r))" "at_id z = at_id a" "P z"
      unfolding row_count_pos_iff is_attempt_def by blast
    then have "z = c" using unique_attempt [OF u z(1) c(1)] c(2) b(2) by (simp add: attempt_follows_def)
    with z g [OF assms(6)] have "at_generation c = at_generation a" by simp
    with c(2) b(3) show ?thesis by (simp add: attempt_follows_def)
  qed
qed

subsection \<open>Pay once\<close>

lemma paid_key_of_follower: "attempt_follows a b \<Longrightarrow> paid_key b = paid_key a"
  by (simp add: attempt_follows_def request_identity_def paid_key_def)

text \<open>C28: A logical job pays once for each candidate and kind of attempt: while the ledger holds an attempt of
  schema version 2 with the logical job, source, binding version, candidate and kind of a request of that
  version, whatever became of it, the request creates no second one.\<close>

theorem logical_job_pays_a_candidate_once:
  assumes "ledger t (CreateAttempt q) r = (Inr x, r1)" "aq_schema_version q = 2"
    and "aq_schema_version q' = 2"
    and "paid_key (new_attempt (rp_workspace_id r) t' q') = paid_key (new_attempt (rp_workspace_id r) t q)"
  shows "ledger t' (CreateAttempt q') (run_ledger ops r1) = (Inl IntegrityError, run_ledger ops r1)"
proof -
  let ?a = "new_attempt (rp_workspace_id r) t q" and ?b = "new_attempt (rp_workspace_id r) t' q'"
  let ?r = "run_ledger ops r1"
  let ?paid = "\<lambda>a. at_schema_version a = 2 \<and> at_logical_job_id a \<noteq> None"
  note c = ledger_creates(1) [OF assms(1)]
  have w: "rp_workspace_id r1 = rp_workspace_id r" using c by simp
  have "?a \<in> set (ad_attempts (rp_db r1))" using c by simp
  then obtain b where b: "b \<in> set (ad_attempts (rp_db ?r))" "attempt_follows ?a b"
    using run_ledger_follows by blast
  have "?paid ?a" "?paid ?b" using assms(2,3) by (simp_all add: new_attempt_def Let_def)
  moreover from b(2) have "request_identity b = request_identity ?a" by (simp add: attempt_follows_def)
  ultimately have p: "?paid b" "?paid ?b" by (auto simp: request_identity_def)
  have "paid_key b = paid_key ?b" using paid_key_of_follower [OF b(2)] assms(4) by simp
  then have "paid_key ?b \<in> paid_key ` set (filter ?paid (ad_attempts (rp_db ?r)))"
    using b(1) p(1) by (metis (mono_tags, lifting) image_eqI mem_Collect_eq set_filter)
  then have "\<not> distinct (map paid_key (filter ?paid (ad_attempts (rp_db ?r) @ [?b])))"
    using p(2) by simp
  then have "\<not> attempts_unique (ad_attempts (rp_db ?r) @ [?b])"
    unfolding attempts_unique_def by blast
  then show ?thesis
    by (simp add: ledger_def transaction_def create_attempt_def require_transaction_def
        insert_attempt_def w)
qed

subsection \<open>The barrier, and how it lifts\<close>

text \<open>A new paid fetch of a source is admitted exactly when every earlier fetch attempt of its
  route is terminal with a final cost; otherwise the code says whether a cost or a result is missing.\<close>

theorem fetch_is_blocked_while_unsettled:
  assumes "rp_in_tx r"
  shows "fetch_blocking_code rid sid r = (Inr
    (if \<forall>a \<in> set (ad_attempts (rp_db r)). \<not> unsettled_fetch (rp_workspace_id r) rid sid a then None
     else if \<exists>a \<in> set (ad_attempts (rp_db r)).
               unsettled_fetch (rp_workspace_id r) rid sid a \<and> \<not> at_cost_final a
     then Some ''actorops_cost_settlement_required''
     else Some ''actorops_result_recovery_required''), r)"
proof (cases "first_by settlement_order (unsettled_fetch (rp_workspace_id r) rid sid) (ad_attempts (rp_db r))")
  case None
  then have "\<forall>a \<in> set (ad_attempts (rp_db r)). \<not> unsettled_fetch (rp_workspace_id r) rid sid a"
    by (simp add: first_by_None_iff)
  with None assms show ?thesis
    by (simp add: fetch_blocking_code_def require_transaction_def blocking_code_of_def)
next
  case (Some a)
  note s = first_by_SomeD [OF Some]
  have "at_cost_final a \<Longrightarrow> b \<in> set (ad_attempts (rp_db r)) \<Longrightarrow>
      unsettled_fetch (rp_workspace_id r) rid sid b \<Longrightarrow> at_cost_final b" for b
    using s(3) [of b] by (auto simp: settlement_order_def less_eq_prod_def split: if_splits)
  with s(1,2) Some assms show ?thesis
    by (auto simp: fetch_blocking_code_def require_transaction_def blocking_code_of_def)
qed

definition settlement :: "attempt \<Rightarrow> reconciliation" where
  "settlement a =
     \<lparr>rc_status = at_status a, rc_generation = at_generation a,
      rc_target = (if at_status a \<in> set TERMINAL_ATTEMPT_STATUSES then None else Some CancelledAttempt),
      rc_remote_run_id = None, rc_dataset_id = None, rc_semantic_outcome = None,
      rc_actual_cost_usd = None, rc_cost_final = True, rc_failure_class = None, rc_error_code = None\<rparr>"

definition settled :: "time \<Rightarrow> attempt \<Rightarrow> attempt" where
  "settled now a =
     touched now (a\<lparr>at_status := (if at_status a \<in> set TERMINAL_ATTEMPT_STATUSES then at_status a
                                else CancelledAttempt),
       at_cost_final := True, at_terminal_at := Some now\<rparr>)"

lemma cancel_transition:
  "s \<notin> set TERMINAL_ATTEMPT_STATUSES \<Longrightarrow> CancelledAttempt \<in> set (attempt_transitions s)"
  by (cases s) (simp_all add: TERMINAL_ATTEMPT_STATUSES_def)

lemma settled_ok: "attempt_columns_ok a \<Longrightarrow> attempt_update_ok a (settled now a) \<and> attempt_columns_ok (settled now a)"
  using cancel_transition [of "at_status a"]
  by (auto simp: attempt_update_ok_def attempt_columns_ok_def settled_def touched_def
      request_identity_def observation_kept_def split: option.splits)


lemma settled_keeps_unique:
  assumes "attempts_unique rows" "P a" "\<And>x. x \<in> set rows \<Longrightarrow> P x \<Longrightarrow> x = a"
  shows "attempts_unique (update_where P (\<lambda>_. settled now a) rows)"
proof -
  have s: "update_where P (\<lambda>_. settled now a) rows = update_where P (settled now) rows"
    using assms(3) by (auto simp: update_where_def)
  have k: "at_id (settled now x) = at_id x" "at_workspace_id (settled now x) = at_workspace_id x"
    "at_idempotency_key (settled now x) = at_idempotency_key x"
    "at_remote_run_id (settled now x) = at_remote_run_id x" "paid_key (settled now x) = paid_key x"
    "at_schema_version (settled now x) = at_schema_version x"
    "at_logical_job_id (settled now x) = at_logical_job_id x" for x
    by (simp_all add: settled_def touched_def paid_key_def)
  have "map g (filter Q (update_where P (settled now) rows)) = map g (filter Q rows)"
    if "\<And>x. g (settled now x) = g x" "\<And>x. Q (settled now x) = Q x" for g :: "attempt \<Rightarrow> 'k" and Q
    using that by (induction rows) auto
  note m = this
  show ?thesis
    using assms(1) m [of at_id "\<lambda>_. True"] m [of "\<lambda>a. (at_workspace_id a, at_idempotency_key a)" "\<lambda>_. True"]
      m [of "\<lambda>a. (at_workspace_id a, at_remote_run_id a)" "\<lambda>a. at_remote_run_id a \<noteq> None"]
      m [of paid_key "\<lambda>a. at_schema_version a = 2 \<and> at_logical_job_id a \<noteq> None"]
    by (simp add: s k attempts_unique_def)
qed

text \<open>No attempt stays in the way for ever: whatever its state, one reconciliation that knows
  its status and generation succeeds, changes this attempt only, and leaves it terminal with a final
  cost, so that it no longer blocks the fetches of its source.\<close>

theorem every_attempt_can_be_settled:
  assumes "attempts_unique (ad_attempts (rp_db r))" "a \<in> set (ad_attempts (rp_db r))"
    and "at_workspace_id a = rp_workspace_id r" "attempt_columns_ok a"
  shows "\<exists>r'. ledger now (Reconcile (at_id a) (settlement a)) r = (Inr (), r')
    \<and> ad_attempts (rp_db r') = map (\<lambda>x. if x = a then settled now a else x) (ad_attempts (rp_db r))
    \<and> \<not> unsettled_fetch w rid sid (settled now a)"
proof -
  let ?P = "\<lambda>x. is_attempt (rp_workspace_id r) (at_id a) x \<and> at_status x = at_status a
      \<and> at_generation x = at_generation a"
  let ?rows = "ad_attempts (rp_db r)"
  have P: "x \<in> set ?rows \<Longrightarrow> ?P x \<longleftrightarrow> x = a" for x
    using unique_attempt [OF assms(1) _ assms(2)] assms(3) by (auto simp: is_attempt_def)
  have rows: "update_where ?P (\<lambda>_. settled now a) ?rows = map (\<lambda>x. if x = a then settled now a else x) ?rows"
    using P unfolding update_where_def by (intro map_cong) auto
  have "distinct ?rows" using assms(1) by (auto simp: attempts_unique_def distinct_map)
  moreover have "row_count ?P ?rows = row_count (\<lambda>x. x = a) ?rows"
    unfolding row_count_def by (intro arg_cong [where f = length] filter_cong refl P)
  ultimately have n: "row_count ?P ?rows = 1"
    using assms(2) by (simp add: row_count_def distinct_length_filter Collect_conv_if)
  have u: "update_attempts ?P (\<lambda>_. settled now a) (rp_db r) = Inr (1, (rp_db r)\<lparr>ad_attempts :=
      map (\<lambda>x. if x = a then settled now a else x) ?rows\<rparr>)"
  proof -
    have "?P a" using assms(2) P by blast
    then have "attempts_unique (update_where ?P (\<lambda>_. settled now a) ?rows)"
      using settled_keeps_unique [OF assms(1), of ?P a] P by blast
    moreover have "\<forall>x \<in> set ?rows. ?P x \<longrightarrow> attempt_update_ok x (settled now a) \<and> attempt_columns_ok (settled now a)"
      using settled_ok [OF assms(4)] P by blast
    ultimately show ?thesis using update_attempts_ok [OF _ _ n rows] by blast
  qed
  have r: "reconcile now (at_id a) (settlement a) (r\<lparr>rp_in_tx := True\<rparr>) =
      cas_attempt (at_id a) (\<lambda>x. at_status x = at_status a \<and> at_generation x = at_generation a)
        (reconciled now (settlement a)) ''attempt changed before reconciliation'' (r\<lparr>rp_in_tx := True\<rparr>)"
    using cancel_transition [of "at_status a"]
    by (auto simp: reconcile_def require_transaction_def settlement_def Let_def
        ensure_attempt_transition_def)
  have c: "CancelledAttempt \<in> set TERMINAL_ATTEMPT_STATUSES"
    by (simp add: TERMINAL_ATTEMPT_STATUSES_def)
  have f: "x \<in> set ?rows \<Longrightarrow> ?P x \<Longrightarrow> reconciled now (settlement a) x = settled now a" for x
    using P [of x] by (simp add: c reconciled_def settlement_def settled_def merge_cost_def or_else_def)
  have "update_attempts ?P (reconciled now (settlement a)) (rp_db r) = update_attempts ?P (\<lambda>_. settled now a) (rp_db r)"
    by (rule update_attempts_cong) (use f in blast)
  then have "ledger now (Reconcile (at_id a) (settlement a)) r = (Inr (), r\<lparr>rp_db := (rp_db r)\<lparr>ad_attempts :=
      map (\<lambda>x. if x = a then settled now a else x) ?rows\<rparr>\<rparr>)"
    using u by (simp add: ledger_def transaction_def r cas_attempt_def)
  moreover have "\<not> unsettled_fetch w rid sid (settled now a)"
    by (auto simp: unsettled_fetch_def settled_def TERMINAL_ATTEMPT_STATUSES_def)
  ultimately show ?thesis by simp
qed


subsection \<open>At concrete values\<close>

definition sample_candidate :: "string \<Rightarrow> assignment_role \<Rightarrow> int option \<Rightarrow> candidate" where
  "sample_candidate i role priority =
     \<lparr>ca_id = i, ca_workspace_id = ''w'', ca_route_id = ''r'', ca_actor_id = i, ca_publisher = ''p'',
      ca_build_id = Some ''b'', ca_build_number = Some ''1'', ca_manifest_json = Some i,
      ca_manifest_hash = Some (replicate 64 (CHR ''a'')),
      ca_input_schema_hash = Some (replicate 64 (CHR ''b'')),
      ca_output_schema_hash = Some (replicate 64 (CHR ''c'')), ca_lifecycle = Probationary,
      ca_role = role, ca_priority = priority, ca_generation = 1, ca_last_success_at = None,
      ca_last_failure_at = None, ca_last_error_class = None, ca_last_error_code = None,
      ca_updated_at = 0\<rparr>"

definition sample_binding :: binding where
  "sample_binding =
     \<lparr>b_id = ''bd'', b_workspace_id = ''w'', b_source_id = ''s'', b_route_id = ''r'',
      b_target_fingerprint = ''fp'', b_status = ''ready'', b_version = 1,
      b_preferred_candidate_id = None, b_last_known_good = None, b_last_success_at = None,
      b_watermark_at = None, b_watermark_hash = None\<rparr>"

definition sample_actors :: repository where
  "sample_actors =
     \<lparr>rp_workspace_id = ''w'', rp_in_tx = False,
      rp_db = \<lparr>ad_sources = [''s''],
        ad_routes = [\<lparr>r_id = ''r'', r_workspace_id = ''w'',
          r_key = \<lparr>rk_platform = ''x'', rk_target_type = ''profile'', rk_capability = ''posts''\<rparr>,
          r_mode = ActiveMode, r_cap_usd = 5, r_generation = 1\<rparr>],
        ad_candidates = [sample_candidate ''a'' ActiveRole (Some 0),
          sample_candidate ''b'' StandbyRole (Some 1), sample_candidate ''c'' StandbyRole (Some 2)],
        ad_bindings = [sample_binding], ad_attempts = [], ad_freshness = [], ad_discoveries = [],
        ad_discovery_links = []\<rparr>\<rparr>"

definition sample_request :: "string \<Rightarrow> attempt_request" where
  "sample_request i =
     \<lparr>aq_attempt_id = i, aq_idempotency_key = i, aq_route_id = ''r'', aq_candidate_id = ''a'',
      aq_kind = FetchAttempt, aq_group_id = ''g'', aq_index = 0, aq_route_generation = 1,
      aq_binding_version = Some 1, aq_target_fingerprint = ''fp'', aq_reserved_usd = 5,
      aq_source_id = Some ''s'', aq_created_at = None, aq_logical_job_id = Some ''job'',
      aq_request_fingerprint = None, aq_window_since = None, aq_window_until = None,
      aq_max_items = None, aq_schema_version = 2\<rparr>"

definition sample_ledger :: repository where
  "sample_ledger = snd (ledger 1 (CreateAttempt (sample_request ''i'')) sample_actors)"

definition sample_attempt :: attempt where
  "sample_attempt = new_attempt ''w'' 1 (sample_request ''i'')"

lemma sample_ledger_attempts: "ad_attempts (rp_db sample_ledger) = [sample_attempt]"
  by code_simp

lemma attempts_only_move_forward_witness:
  "\<exists>b \<in> set (ad_attempts (rp_db (run_ledger [(2, Annotate ''i'' TargetFailure ''x'')] sample_ledger))).
    at_id b = at_id sample_attempt \<and> attempt_leads (at_status sample_attempt) (at_status b)"
proof -
  have "sample_attempt \<in> set (ad_attempts (rp_db sample_ledger))" by (simp add: sample_ledger_attempts)
  from attempts_only_move_forward [OF this] show ?thesis by blast
qed

lemma any_unit: "isl (fst x) = False \<Longrightarrow> \<exists>r. x = (Inr (), r)"
  by (cases x; cases "fst x") auto

lemma stale_attempt_writer_is_refused_witness:
  "\<exists>r1 e. ledger 2 (UpdateStart ''i'' 1 None None None) sample_ledger = (Inr (), r1)
     \<and> ledger 3 (RegisterRun ''i'' 1 ''run'' None) (run_ledger [] r1) = (Inl e, run_ledger [] r1)"
proof -
  have "isl (fst (ledger 2 (UpdateStart ''i'' 1 None None None) sample_ledger)) = False" by code_simp
  then obtain r1 where l: "ledger 2 (UpdateStart ''i'' 1 None None None) sample_ledger = (Inr (), r1)"
    using any_unit by blast
  have u: "attempts_unique (ad_attempts (rp_db sample_ledger))"
    "sample_attempt \<in> set (ad_attempts (rp_db sample_ledger))"
    unfolding sample_ledger_attempts by (code_simp, simp)
  have i: "at_id sample_attempt = ''i''" "at_generation sample_attempt = 1" by code_simp+
  from stale_attempt_writer_is_refused [OF u l, of "RegisterRun ''i'' 1 ''run'' None" 3 "[]"] i l
  show ?thesis by auto
qed

lemma logical_job_pays_a_candidate_once_witness:
  "\<exists>r1. ledger 1 (CreateAttempt (sample_request ''i'')) sample_actors = (Inr (), r1)
     \<and> ledger 9 (CreateAttempt (sample_request ''k'')) (run_ledger [] r1) = (Inl IntegrityError, run_ledger [] r1)"
proof -
  have "isl (fst (ledger 1 (CreateAttempt (sample_request ''i'')) sample_actors)) = False" by code_simp
  then obtain r1 where l: "ledger 1 (CreateAttempt (sample_request ''i'')) sample_actors = (Inr (), r1)"
    using any_unit by blast
  have "paid_key (new_attempt (rp_workspace_id sample_actors) 9 (sample_request ''k''))
      = paid_key (new_attempt (rp_workspace_id sample_actors) 1 (sample_request ''i''))" by code_simp
  from logical_job_pays_a_candidate_once [OF l _ _ this, of "[]"] l show ?thesis
    by (simp add: sample_request_def)
qed

lemma fetch_is_blocked_while_unsettled_witness:
  "fst (fetch_blocking_code ''r'' ''s'' (sample_ledger\<lparr>rp_in_tx := True\<rparr>))
     = Inr (Some ''actorops_cost_settlement_required'')"
  using fetch_is_blocked_while_unsettled [of "sample_ledger\<lparr>rp_in_tx := True\<rparr>" "''r''" "''s''"]
  by (simp add: sample_ledger_attempts) code_simp

lemma every_attempt_can_be_settled_witness:
  "\<exists>r'. ledger 7 (Reconcile ''i'' (settlement sample_attempt)) sample_ledger = (Inr (), r')
    \<and> \<not> unsettled_fetch ''w'' ''r'' ''s'' (settled 7 sample_attempt)"
proof -
  have "attempts_unique (ad_attempts (rp_db sample_ledger))"
    "sample_attempt \<in> set (ad_attempts (rp_db sample_ledger))"
    unfolding sample_ledger_attempts by (code_simp, simp)
  moreover have "at_workspace_id sample_attempt = rp_workspace_id sample_ledger"
    "attempt_columns_ok sample_attempt" by code_simp+
  moreover have i: "at_id sample_attempt = ''i''" by code_simp
  ultimately show ?thesis using every_attempt_can_be_settled [of sample_ledger sample_attempt 7] by metis
qed

end
