(* ===== verification/ActorRoutes.thy ===== *)
theory ActorRoutes
  imports ActorAttempts
begin

section \<open>ActorOps: candidates of a route, promotion, execution snapshots and publication\<close>

text \<open>
  \<open>repository_candidates.py\<close>, \<open>route_controls.py\<close>, \<open>repository_execution.py\<close>,
  \<open>repository_bindings.py\<close> and \<open>repository_cutover.py\<close> under \<open>src/src/services/actorops\<close>.  The
  argument \<open>parse\<close> decodes a manifest, as in \<open>ActorDomain\<close>.
\<close>

type_synonym manifest_parser = "string \<Rightarrow> (string \<times> string \<times> string) option"

subsection \<open>Reading the candidates of a route\<close>

text \<open>\<open>NOT (lifecycle='rejected' AND last_error_code=...)\<close>: a missing code makes the test of a
  rejected row NULL, so that the row is left out.\<close>

definition visible_candidate :: "candidate \<Rightarrow> bool" where
  "visible_candidate c \<longleftrightarrow>
     ca_lifecycle c \<noteq> Rejected
     \<or> (case ca_last_error_code c of
          None \<Rightarrow> False | Some code \<Rightarrow> code \<noteq> ''actorops_discovery_mapping_superseded'')"

definition list_route_candidates :: "string \<Rightarrow> repository \<Rightarrow> candidate list" where
  "list_route_candidates rid r =
     sort_key ca_id (filter (\<lambda>c. ca_workspace_id c = rp_workspace_id r \<and> ca_route_id c = rid
       \<and> visible_candidate c) (ad_candidates (rp_db r)))"

subsection \<open>Creating, moving and assigning a candidate\<close>

record candidate_request =
  cq_id :: string
  cq_route_id :: string
  cq_actor_id :: string
  cq_publisher :: string
  cq_build_id :: "string option"
  cq_build_number :: "string option"
  cq_manifest_json :: "string option"
  cq_manifest_hash :: "string option"
  cq_input_schema_hash :: "string option"
  cq_output_schema_hash :: "string option"
  cq_lifecycle :: candidate_lifecycle

definition create_candidate ::
  "time \<Rightarrow> candidate_request \<Rightarrow> repository \<Rightarrow> (repository, candidate) outcome" where
  "create_candidate now q r =
     require_transaction r
       (let c = \<lparr>ca_id = cq_id q, ca_workspace_id = rp_workspace_id r, ca_route_id = cq_route_id q,
              ca_actor_id = cq_actor_id q, ca_publisher = cq_publisher q, ca_build_id = cq_build_id q,
              ca_build_number = cq_build_number q, ca_manifest_json = cq_manifest_json q,
              ca_manifest_hash = cq_manifest_hash q, ca_input_schema_hash = cq_input_schema_hash q,
              ca_output_schema_hash = cq_output_schema_hash q, ca_lifecycle = cq_lifecycle q,
              ca_role = InactiveRole, ca_priority = None, ca_generation = 1,
              ca_last_success_at = None, ca_last_failure_at = None, ca_last_error_class = None,
              ca_last_error_code = None, ca_updated_at = now\<rparr>
        in case insert_candidate c (rp_db r) of
             Inl e \<Rightarrow> Raise e r
           | Inr d \<Rightarrow> (let r' = r\<lparr>rp_db := d\<rparr> in (get_candidate (cq_id q) r', r')))"

definition is_candidate :: "string \<Rightarrow> string \<Rightarrow> candidate \<Rightarrow> bool" where
  "is_candidate w cid c \<longleftrightarrow> ca_workspace_id c = w \<and> ca_id c = cid"

definition bumped :: "time \<Rightarrow> candidate \<Rightarrow> candidate" where
  "bumped now c = c\<lparr>ca_generation := ca_generation c + 1, ca_updated_at := now\<rparr>"

text \<open>An UPDATE of one candidate that must change exactly one row.\<close>

definition cas_candidate ::
  "string \<Rightarrow> (candidate \<Rightarrow> bool) \<Rightarrow> (candidate \<Rightarrow> candidate) \<Rightarrow> string \<Rightarrow> repository
   \<Rightarrow> (repository, unit) outcome" where
  "cas_candidate cid P f msg r =
     (case update_candidates (\<lambda>c. is_candidate (rp_workspace_id r) cid c \<and> P c) f (rp_db r) of
        Inl e \<Rightarrow> Raise e r
      | Inr (n, d) \<Rightarrow> if n = 1 then Return () (r\<lparr>rp_db := d\<rparr>)
                    else Raise (ActorOpsConflict msg) (r\<lparr>rp_db := d\<rparr>))"

definition then_read ::
  "string \<Rightarrow> (repository, unit) outcome \<Rightarrow> (repository, candidate) outcome" where
  "then_read cid res =
     (case res of (Inl e, r) \<Rightarrow> Raise e r | (Inr _, r) \<Rightarrow> (get_candidate cid r, r))"

definition transition_candidate ::
  "time \<Rightarrow> string \<Rightarrow> candidate_lifecycle \<Rightarrow> candidate_lifecycle \<Rightarrow> int \<Rightarrow> failure_class option
   \<Rightarrow> string option \<Rightarrow> repository \<Rightarrow> (repository, candidate) outcome" where
  "transition_candidate now cid current target expected failure code r =
     require_transaction r
       (case ensure_candidate_transition current target of
          Inl e \<Rightarrow> Raise e r
        | Inr _ \<Rightarrow>
            then_read cid (cas_candidate cid
              (\<lambda>c. ca_lifecycle c = current \<and> ca_generation c = expected)
              (\<lambda>c. bumped now (c\<lparr>ca_lifecycle := target,
                 ca_role := (if target \<in> set TERMINAL_CANDIDATE_LIFECYCLES then InactiveRole
                             else ca_role c),
                 ca_priority := (if target \<in> set TERMINAL_CANDIDATE_LIFECYCLES then None
                                 else ca_priority c),
                 ca_last_error_class := failure, ca_last_error_code := code\<rparr>))
              ''candidate changed before transition'' r))"

definition assignment_priority ::
  "assignment_role \<Rightarrow> int option \<Rightarrow> exn + int option" where
  "assignment_priority role priority =
     (if role = ActiveRole \<and> priority \<noteq> Some 0
      then Inl (ValueError ''active candidate priority must be zero'')
      else if role = StandbyRole \<and> (case priority of None \<Rightarrow> True | Some n \<Rightarrow> n < 1)
      then Inl (ValueError ''standby priority must be positive'')
      else Inr (if role = InactiveRole then None else priority))"

definition assign_candidate ::
  "manifest_parser \<Rightarrow> time \<Rightarrow> string \<Rightarrow> string \<Rightarrow> assignment_role \<Rightarrow> int option \<Rightarrow> int \<Rightarrow> int
   \<Rightarrow> repository \<Rightarrow> (repository, unit) outcome" where
  "assign_candidate parse now rid cid role priority route_generation candidate_generation r =
     require_transaction r
       (case get_candidate cid r of
          Inl e \<Rightarrow> Raise e r
        | Inr c \<Rightarrow>
           if ca_route_id c \<noteq> rid \<or> \<not> candidate_is_runnable parse c
           then Raise (ActorOpsConflict ''candidate is not runnable for this route'') r
           else (case assignment_priority role priority of
              Inl e \<Rightarrow> Raise e r
            | Inr p \<Rightarrow>
               (case update_candidates
                   (\<lambda>c. is_candidate (rp_workspace_id r) cid c \<and> ca_route_id c = rid
                      \<and> ca_generation c = candidate_generation)
                   (\<lambda>c. bumped now (c\<lparr>ca_role := role, ca_priority := p\<rparr>)) (rp_db r) of
                  Inl e \<Rightarrow> Raise e r
                | Inr (n, d1) \<Rightarrow>
                   (let (m, d2) = bump_route (rp_workspace_id r) rid route_generation d1;
                        r2 = r\<lparr>rp_db := d2\<rparr>
                    in if n \<noteq> 1 \<or> m \<noteq> 1
                       then Raise (ActorOpsConflict ''route or candidate changed before assignment'') r2
                       else Return () r2))))"

subsection \<open>Promoting a standby candidate\<close>

definition set_assignment ::
  "time \<Rightarrow> string \<Rightarrow> assignment_role \<Rightarrow> int option \<Rightarrow> int \<Rightarrow> repository
   \<Rightarrow> (repository, unit) outcome" where
  "set_assignment now cid role priority expected r =
     cas_candidate cid (\<lambda>c. ca_generation c = expected)
       (\<lambda>c. bumped now (c\<lparr>ca_role := role, ca_priority := priority\<rparr>))
       ''Candidate changed before selection'' r"

fun and_then ::
  "(repository, unit) outcome \<Rightarrow> (repository \<Rightarrow> (repository, 'a) outcome) \<Rightarrow> (repository, 'a) outcome"
  where
  "and_then (Inl e, r) k = Raise e r"
| "and_then (Inr _, r) k = k r"

definition active_of :: "candidate list \<Rightarrow> candidate option" where
  "active_of cs = find (\<lambda>c. ca_role c = ActiveRole) cs"

definition eligible_standby ::
  "manifest_parser \<Rightarrow> string \<Rightarrow> int \<Rightarrow> candidate \<Rightarrow> bool" where
  "eligible_standby parse rid expected c \<longleftrightarrow>
     ca_route_id c = rid \<and> ca_role c \<in> {StandbyRole, InactiveRole} \<and> ca_generation c = expected
     \<and> \<not> (ca_role c = StandbyRole \<and> ca_priority c = None) \<and> candidate_is_runnable parse c"

definition promote_standby_candidate ::
  "manifest_parser \<Rightarrow> time \<Rightarrow> string \<Rightarrow> string \<Rightarrow> int \<Rightarrow> int \<Rightarrow> repository
   \<Rightarrow> (repository, unit) outcome" where
  "promote_standby_candidate parse now rid cid route_generation candidate_generation r =
     require_transaction r
       (case get_route rid r of
          Inl e \<Rightarrow> Raise e r
        | Inr route \<Rightarrow>
       (case get_candidate cid r of
          Inl e \<Rightarrow> Raise e r
        | Inr target \<Rightarrow>
           if r_generation route \<noteq> route_generation
           then Raise (ActorOpsConflict ''route changed before Candidate selection'') r
           else if \<not> eligible_standby parse rid candidate_generation target
           then Raise (ActorOpsConflict ''Candidate is not an eligible standby'') r
           else (case active_of (list_route_candidates rid r) of
              None \<Rightarrow> Raise (ActorOpsConflict ''route has no runnable active Candidate'') r
            | Some active \<Rightarrow>
               if \<not> candidate_is_runnable parse active
               then Raise (ActorOpsConflict ''route has no runnable active Candidate'') r
               else
                 and_then (set_assignment now (ca_id target) InactiveRole None (ca_generation target) r) (\<lambda>r.
                 and_then (set_assignment now (ca_id active) InactiveRole None (ca_generation active) r) (\<lambda>r.
                 and_then (set_assignment now (ca_id target) ActiveRole (Some 0) (ca_generation target + 1) r) (\<lambda>r.
                 and_then (case ca_priority target of
                             None \<Rightarrow> Return () r
                           | Some p \<Rightarrow> set_assignment now (ca_id active) StandbyRole (Some p)
                                       (ca_generation active + 1) r) (\<lambda>r.
                   let (m, d) = bump_route (rp_workspace_id r) rid route_generation (rp_db r);
                       r' = r\<lparr>rp_db := d\<rparr>
                   in if m \<noteq> 1
                      then Raise (ActorOpsConflict ''route changed before Candidate selection'') r'
                      else Return () r')))))))"

subsection \<open>Execution snapshots and publication\<close>

record execution_snapshot =
  es_workspace_id :: string
  es_route :: route
  es_binding :: binding
  es_candidates :: "candidate list"
  es_target_fingerprint :: string

record publication_proof =
  pp_workspace_id :: string
  pp_route_id :: string
  pp_source_id :: string
  pp_target_fingerprint :: string
  pp_binding_version :: int
  pp_candidate_id :: "string option"
  pp_candidate_generation :: "int option"

definition freeze_execution ::
  "manifest_parser \<Rightarrow> string \<Rightarrow> string \<Rightarrow> string \<Rightarrow> repository \<Rightarrow> exn + execution_snapshot" where
  "freeze_execution parse rid sid fingerprint r =
     (case get_route rid r of
        Inl e \<Rightarrow> Inl e
      | Inr route \<Rightarrow>
     (case get_binding sid r of
        Inl e \<Rightarrow> Inl e
      | Inr b \<Rightarrow>
         if b_route_id b \<noteq> rid \<or> b_status b \<noteq> ''ready''
         then Inl (ActorOpsConflict ''source binding is not ready for this route'')
         else if b_target_fingerprint b \<noteq> fingerprint
         then Inl (ActorOpsConflict ''source target changed before execution'')
         else Inr \<lparr>es_workspace_id = rp_workspace_id r, es_route = route, es_binding = b,
                   es_candidates = ordered_candidates parse (list_route_candidates rid r)
                     (b_preferred_candidate_id b) (b_last_known_good b),
                   es_target_fingerprint = fingerprint\<rparr>))"

definition make_proof ::
  "execution_snapshot \<Rightarrow> string option \<Rightarrow> repository \<Rightarrow> exn + publication_proof" where
  "make_proof es cid r =
     (let candidate = (case cid of None \<Rightarrow> None | Some i \<Rightarrow> find (\<lambda>c. ca_id c = i) (es_candidates es))
      in if cid \<noteq> None \<and> candidate = None
         then Inl (ActorOpsConflict ''publication candidate was not frozen'')
         else Inr \<lparr>pp_workspace_id = rp_workspace_id r, pp_route_id = r_id (es_route es),
                   pp_source_id = b_source_id (es_binding es),
                   pp_target_fingerprint = es_target_fingerprint es,
                   pp_binding_version = b_version (es_binding es), pp_candidate_id = cid,
                   pp_candidate_generation = map_option ca_generation candidate\<rparr>)"

definition assert_publishable ::
  "manifest_parser \<Rightarrow> publication_proof \<Rightarrow> repository \<Rightarrow> exn + unit" where
  "assert_publishable parse p r =
     (if pp_workspace_id p \<noteq> rp_workspace_id r
      then Inl (ActorOpsConflict ''publication workspace changed'')
      else case get_binding (pp_source_id p) r of
        Inl e \<Rightarrow> Inl e
      | Inr b \<Rightarrow>
         if b_route_id b \<noteq> pp_route_id p \<or> b_version b \<noteq> pp_binding_version p
            \<or> b_target_fingerprint b \<noteq> pp_target_fingerprint p
         then Inl (ActorOpsConflict ''source binding changed before publication'')
         else case pp_candidate_id p of
           None \<Rightarrow> Inr ()
         | Some i \<Rightarrow>
            (case get_candidate i r of
               Inl e \<Rightarrow> Inl e
             | Inr c \<Rightarrow>
                if ca_route_id c \<noteq> pp_route_id p \<or> \<not> candidate_is_runnable parse c
                then Inl (ActorOpsConflict ''candidate is no longer publishable'')
                else Inr ()))"

definition published :: "time \<Rightarrow> publication_proof \<Rightarrow> string \<Rightarrow> string \<Rightarrow> binding \<Rightarrow> binding" where
  "published now p latest hash b =
     b\<lparr>b_last_known_good := or_else (pp_candidate_id p) (b_last_known_good b),
       b_last_success_at := Some now, b_watermark_at := Some latest, b_watermark_hash := Some hash\<rparr>"

definition publish_success ::
  "manifest_parser \<Rightarrow> time \<Rightarrow> publication_proof \<Rightarrow> string \<Rightarrow> string \<Rightarrow> repository
   \<Rightarrow> (repository, unit) outcome" where
  "publish_success parse now p latest hash r =
     require_transaction r
       (case assert_publishable parse p r of
          Inl e \<Rightarrow> Raise e r
        | Inr _ \<Rightarrow>
           (case update_bindings
               (\<lambda>b. b_workspace_id b = rp_workspace_id r \<and> b_source_id b = pp_source_id p
                  \<and> b_version b = pp_binding_version p
                  \<and> b_target_fingerprint b = pp_target_fingerprint p)
               (published now p latest hash) (rp_db r) of
              Inl e \<Rightarrow> Raise e r
            | Inr (n, d) \<Rightarrow>
                if n \<noteq> 1 then Raise (ActorOpsConflict ''binding changed during publication'') (r\<lparr>rp_db := d\<rparr>)
                else Return () (r\<lparr>rp_db := d\<rparr>)))"

definition outcome_recorded ::
  "time \<Rightarrow> bool \<Rightarrow> failure_class option \<Rightarrow> string option \<Rightarrow> candidate \<Rightarrow> candidate" where
  "outcome_recorded now ok failure code c =
     bumped now (c\<lparr>ca_last_success_at := (if ok then Some now else ca_last_success_at c),
       ca_last_failure_at := (if ok then ca_last_failure_at c else Some now),
       ca_last_error_class := (if ok then None else failure),
       ca_last_error_code := (if ok then None else code)\<rparr>)"

definition record_candidate_outcome ::
  "time \<Rightarrow> string \<Rightarrow> int \<Rightarrow> bool \<Rightarrow> failure_class option \<Rightarrow> string option \<Rightarrow> repository
   \<Rightarrow> (repository, candidate) outcome" where
  "record_candidate_outcome now cid expected ok failure code r =
     require_transaction r
       (then_read cid (cas_candidate cid (\<lambda>c. ca_generation c = expected)
          (outcome_recorded now ok failure code) ''candidate changed before outcome summary'' r))"

definition record_runtime_candidate_outcome ::
  "time \<Rightarrow> string \<Rightarrow> bool \<Rightarrow> failure_class option \<Rightarrow> string option \<Rightarrow> repository
   \<Rightarrow> (repository, candidate) outcome" where
  "record_runtime_candidate_outcome now cid ok failure code r =
     require_transaction r
       (then_read cid (cas_candidate cid (\<lambda>c. True) (outcome_recorded now ok failure code)
          ''candidate disappeared before runtime outcome summary'' r))"

definition mark_ready ::
  "string \<Rightarrow> int \<Rightarrow> string \<Rightarrow> repository \<Rightarrow> (repository, binding) outcome" where
  "mark_ready sid version fingerprint r =
     require_transaction r
       (case update_bindings
           (\<lambda>b. b_workspace_id b = rp_workspace_id r \<and> b_source_id b = sid \<and> b_status b = ''pending''
              \<and> b_version b = version \<and> b_target_fingerprint b = fingerprint)
           (\<lambda>b. b\<lparr>b_status := ''ready''\<rparr>) (rp_db r) of
          Inl e \<Rightarrow> Raise e r
        | Inr (n, d) \<Rightarrow>
            (let r' = r\<lparr>rp_db := d\<rparr>
             in if n \<noteq> 1
                then Raise (ActorOpsConflict ''source binding changed before readiness promotion'') r'
                else (get_binding sid r', r')))"

subsection \<open>Route modes\<close>

definition route_mode_transition_allowed :: "runtime_mode \<Rightarrow> runtime_mode \<Rightarrow> bool" where
  "route_mode_transition_allowed current target \<longleftrightarrow>
     (current, target) \<in> {(DisabledMode, ActiveMode), (ActiveMode, DisabledMode)}"

definition cutover_blockers :: "string \<Rightarrow> repository \<Rightarrow> exn + (nat \<times> nat)" where
  "cutover_blockers rid r =
     (case get_route rid r of
        Inl e \<Rightarrow> Inl e
      | Inr _ \<Rightarrow>
         (let on = (\<lambda>a. at_workspace_id a = rp_workspace_id r \<and> at_route_id a = rid)
          in Inr (row_count (\<lambda>a. on a \<and> at_status a \<notin> set TERMINAL_ATTEMPT_STATUSES) (ad_attempts (rp_db r)),
                  row_count (\<lambda>a. on a \<and> \<not> at_cost_final a
                      \<and> (0 < at_reserved_usd a \<or> at_actual_cost_usd a \<noteq> None \<or> at_remote_run_id a \<noteq> None))
                    (ad_attempts (rp_db r)))))"

definition change_mode ::
  "string \<Rightarrow> runtime_mode \<Rightarrow> runtime_mode \<Rightarrow> int \<Rightarrow> repository \<Rightarrow> (repository, route) outcome" where
  "change_mode rid current target expected r =
     (let P = (\<lambda>x. r_workspace_id x = rp_workspace_id r \<and> r_id x = rid \<and> r_mode x = current
                 \<and> r_generation x = expected);
          d = (rp_db r)\<lparr>ad_routes := update_where P
                (\<lambda>x. x\<lparr>r_mode := target, r_generation := r_generation x + 1\<rparr>) (ad_routes (rp_db r))\<rparr>;
          r' = r\<lparr>rp_db := d\<rparr>
      in if row_count P (ad_routes (rp_db r)) \<noteq> 1
         then Raise (ActorOpsConflict ''ActorOps route changed before mode transition'') r'
         else (get_route rid r', r'))"

definition transition_route_mode ::
  "string \<Rightarrow> runtime_mode \<Rightarrow> runtime_mode \<Rightarrow> int \<Rightarrow> repository \<Rightarrow> (repository, route) outcome" where
  "transition_route_mode rid current target expected r =
     require_transaction r
       (if \<not> route_mode_transition_allowed current target
        then Raise (ActorOpsConflict ''ActorOps route mode transition is invalid'') r
        else if current = DisabledMode
        then (case cutover_blockers rid r of
                Inl e \<Rightarrow> Raise e r
              | Inr (active, unsettled) \<Rightarrow>
                  if 0 < active \<or> 0 < unsettled
                  then Raise (ActorOpsConflict ''ActorOps route has unsettled cutover facts'') r
                  else change_mode rid current target expected r)
        else change_mode rid current target expected r)"

end
