(* ===== verification/RoutePromotion.thy ===== *)
theory RoutePromotion
  imports ActorRoutes
begin

section \<open>Promotion of a standby candidate, and its way back\<close>

text \<open>
  The four updates of \<open>promote_standby_candidate\<close> go through: their order keeps every unique index
  and CHECK of the candidates table at every statement.  What a promotion leaves is stated as one
  table, from which the way back follows.
\<close>

subsection \<open>Replacing the row of a candidate\<close>

definition put_candidate :: "candidate \<Rightarrow> candidate list \<Rightarrow> candidate list" where
  "put_candidate c rows = map (\<lambda>x. if ca_id x = ca_id c then c else x) rows"

lemma ids_put [simp]: "map ca_id (put_candidate c rows) = map ca_id rows"
  by (induction rows) (auto simp: put_candidate_def)

lemma put_put: "ca_id c = ca_id c' \<Longrightarrow> put_candidate c (put_candidate c' rows) = put_candidate c rows"
  by (induction rows) (auto simp: put_candidate_def)

lemma put_commute:
  "ca_id c \<noteq> ca_id c' \<Longrightarrow>
   put_candidate c (put_candidate c' rows) = put_candidate c' (put_candidate c rows)"
  by (induction rows) (auto simp: put_candidate_def)

lemma put_same:
  "c \<in> set rows \<Longrightarrow> distinct (map ca_id rows) \<Longrightarrow> put_candidate c rows = rows"
  unfolding put_candidate_def by (rule map_idI) (auto simp: distinct_map inj_on_def)

lemma in_put:
  "x \<in> set (put_candidate c rows) \<longleftrightarrow>
     x \<in> set rows \<and> ca_id x \<noteq> ca_id c \<or> x = c \<and> ca_id c \<in> ca_id ` set rows"
proof
  assume "x \<in> set (put_candidate c rows)"
  then obtain y where y: "y \<in> set rows" "x = (if ca_id y = ca_id c then c else y)"
    unfolding put_candidate_def by auto
  show "x \<in> set rows \<and> ca_id x \<noteq> ca_id c \<or> x = c \<and> ca_id c \<in> ca_id ` set rows"
  proof (cases "ca_id y = ca_id c")
    case True
    then have "ca_id c \<in> ca_id ` set rows" using y(1) by (metis imageI)
    with True y show ?thesis by simp
  qed (use y in simp)
next
  assume "x \<in> set rows \<and> ca_id x \<noteq> ca_id c \<or> x = c \<and> ca_id c \<in> ca_id ` set rows"
  then show "x \<in> set (put_candidate c rows)" unfolding put_candidate_def by force
qed

subsection \<open>The unique indexes of the table\<close>

lemma distinct_keys:
  "distinct rows \<Longrightarrow> distinct (map k (filter Q rows)) \<longleftrightarrow> inj_on k {x \<in> set rows. Q x}"
  by (simp add: distinct_map)

lemma inj_on_key:
  "(\<And>x y. R x y \<longleftrightarrow> (Q x \<and> Q y \<and> k x = k y)) \<Longrightarrow>
   inj_on k {x \<in> S. Q x} \<longleftrightarrow> (\<forall>x \<in> S. \<forall>y \<in> S. R x y \<longrightarrow> x = y)"
  by (auto simp: inj_on_def)

definition same_route :: "candidate \<Rightarrow> candidate \<Rightarrow> bool" where
  "same_route x y \<longleftrightarrow> ca_workspace_id x = ca_workspace_id y \<and> ca_route_id x = ca_route_id y"

definition same_revision :: "candidate \<Rightarrow> candidate \<Rightarrow> bool" where
  "same_revision x y \<longleftrightarrow> same_route x y \<and> ca_actor_id x = ca_actor_id y
     \<and> ca_build_id x = ca_build_id y \<and> ca_manifest_hash x = ca_manifest_hash y
     \<and> ca_build_id x \<noteq> None \<and> ca_manifest_hash x \<noteq> None"

definition same_slot :: "candidate \<Rightarrow> candidate \<Rightarrow> bool" where
  "same_slot x y \<longleftrightarrow> same_route x y \<and> ca_role x = ca_role y
     \<and> (ca_role x = ActiveRole
        \<or> ca_role x = StandbyRole \<and> ca_priority x = ca_priority y \<and> ca_priority x \<noteq> None)"

lemma candidates_unique_iff:
  "candidates_unique rows \<longleftrightarrow> distinct (map ca_id rows)
     \<and> (\<forall>x \<in> set rows. \<forall>y \<in> set rows. same_revision x y \<or> same_slot x y \<longrightarrow> x = y)"
proof (cases "distinct (map ca_id rows)")
  case True
  then have d: "distinct rows" by (simp add: distinct_map)
  have r: "inj_on (\<lambda>c. (ca_workspace_id c, ca_route_id c, ca_actor_id c, ca_build_id c, ca_manifest_hash c))
        {x \<in> set rows. ca_build_id x \<noteq> None \<and> ca_manifest_hash x \<noteq> None}
      \<longleftrightarrow> (\<forall>x \<in> set rows. \<forall>y \<in> set rows. same_revision x y \<longrightarrow> x = y)"
    by (rule inj_on_key) (unfold same_revision_def same_route_def prod.inject, metis)
  have a: "inj_on (\<lambda>c. (ca_workspace_id c, ca_route_id c)) {x \<in> set rows. ca_role x = ActiveRole}
      \<longleftrightarrow> (\<forall>x \<in> set rows. \<forall>y \<in> set rows. same_slot x y \<and> ca_role x = ActiveRole \<longrightarrow> x = y)"
    by (rule inj_on_key) (unfold same_slot_def same_route_def prod.inject, metis)
  have s: "inj_on (\<lambda>c. (ca_workspace_id c, ca_route_id c, ca_priority c))
        {x \<in> set rows. ca_role x = StandbyRole \<and> ca_priority x \<noteq> None}
      \<longleftrightarrow> (\<forall>x \<in> set rows. \<forall>y \<in> set rows. same_slot x y \<and> ca_role x = StandbyRole \<longrightarrow> x = y)"
    by (rule inj_on_key) (unfold same_slot_def same_route_def prod.inject, metis assignment_role.distinct(1))
  have "same_slot x y \<Longrightarrow> ca_role x = ActiveRole \<or> ca_role x = StandbyRole" for x y
    by (auto simp: same_slot_def)
  then show ?thesis unfolding candidates_unique_def distinct_keys [OF d] r a s using True by blast
qed (simp add: candidates_unique_def)

lemma put_keeps_unique:
  assumes "candidates_unique rows" "c0 \<in> set rows" "ca_id c = ca_id c0"
    and "\<And>y. same_revision c y \<Longrightarrow> same_revision c0 y"
    and "\<And>y. y \<in> set rows \<Longrightarrow> ca_id y \<noteq> ca_id c \<Longrightarrow> \<not> same_slot c y"
  shows "candidates_unique (put_candidate c rows)"
proof -
  have s: "same_revision x y \<longleftrightarrow> same_revision y x" "same_slot x y \<longleftrightarrow> same_slot y x" for x y
    unfolding same_revision_def same_slot_def same_route_def by metis+
  have u: "x \<in> set rows \<Longrightarrow> y \<in> set rows \<Longrightarrow> same_revision x y \<or> same_slot x y \<Longrightarrow> x = y" for x y
    using assms(1) unfolding candidates_unique_iff by blast
  have r: "y \<in> set rows \<Longrightarrow> ca_id y \<noteq> ca_id c \<Longrightarrow> \<not> same_revision c y" for y
    using u [OF assms(2), of y] assms(3,4) by metis
  have "x = y" if "x \<in> set (put_candidate c rows)" "y \<in> set (put_candidate c rows)"
    "same_revision x y \<or> same_slot x y" for x y
    using that u r assms(5) s unfolding in_put by metis
  moreover have "distinct (map ca_id (put_candidate c rows))"
    using assms(1) by (simp add: candidates_unique_iff)
  ultimately show ?thesis unfolding candidates_unique_iff by blast
qed

subsection \<open>One assignment\<close>

definition reassigned :: "time \<Rightarrow> assignment_role \<Rightarrow> int option \<Rightarrow> candidate \<Rightarrow> candidate" where
  "reassigned now role priority c = bumped now (c\<lparr>ca_role := role, ca_priority := priority\<rparr>)"

lemma reassigned_simps [simp]:
  "ca_id (reassigned now p q c) = ca_id c" "ca_role (reassigned now p q c) = p"
  "ca_priority (reassigned now p q c) = q"
  "ca_generation (reassigned now p q c) = ca_generation c + 1"
  "ca_workspace_id (reassigned now p q c) = ca_workspace_id c"
  "ca_route_id (reassigned now p q c) = ca_route_id c"
  "ca_lifecycle (reassigned now p q c) = ca_lifecycle c"
  "ca_build_id (reassigned now p q c) = ca_build_id c"
  "ca_manifest_hash (reassigned now p q c) = ca_manifest_hash c"
  "revision (reassigned now p q c) = revision c"
  "same_revision (reassigned now p q c) y = same_revision c y"
  by (simp_all add: reassigned_def bumped_def revision_def same_revision_def same_route_def)

lemma runnable_reassigned [simp]:
  "candidate_is_runnable parse (reassigned now p q c) = candidate_is_runnable parse c"
  by (simp add: candidate_is_runnable_def candidate_has_exact_execution_contract_def reassigned_def
      bumped_def Let_def)

lemma runnable_assignable:
  assumes "candidate_is_runnable parse c"
  shows "ca_lifecycle c \<in> {Probationary, Certified} \<and> ca_build_id c \<noteq> None \<and> ca_manifest_hash c \<noteq> None"
proof -
  have "truthy (stripped (ca_build_id c))" "is_sha256 (stripped (ca_manifest_hash c))"
    using assms by (simp_all add: candidate_is_runnable_def candidate_has_exact_execution_contract_def Let_def)
  moreover have "stripped None = []" by (simp add: stripped_def strip_def)
  moreover have "\<not> is_sha256 []" by (simp add: is_sha256_def)
  ultimately have "ca_build_id c \<noteq> None" "ca_manifest_hash c \<noteq> None" by metis+
  then show ?thesis using assms by (simp add: candidate_is_runnable_def RUNNABLE_LIFECYCLES_def)
qed

definition table_ok :: "candidate list \<Rightarrow> bool" where
  "table_ok rows \<longleftrightarrow>
     candidates_unique rows \<and> (\<forall>c \<in> set rows. assignment_ok c \<and> assignable c \<and> 1 \<le> ca_generation c)"

lemma set_assignment_ok:
  assumes "candidates_unique (ad_candidates (rp_db r))" "c \<in> set (ad_candidates (rp_db r))"
    and "ca_workspace_id c = rp_workspace_id r" "1 \<le> ca_generation c"
    and "assignment_ok (reassigned now role priority c)"
    and "role = InactiveRole \<or> candidate_is_runnable parse c"
    and "\<And>y. y \<in> set (ad_candidates (rp_db r)) \<Longrightarrow> ca_id y \<noteq> ca_id c
      \<Longrightarrow> \<not> same_slot (reassigned now role priority c) y"
  shows "set_assignment now (ca_id c) role priority (ca_generation c) r =
    (Inr (), r\<lparr>rp_db := (rp_db r)\<lparr>ad_candidates :=
      put_candidate (reassigned now role priority c) (ad_candidates (rp_db r))\<rparr>\<rparr>)"
proof -
  let ?rows = "ad_candidates (rp_db r)" and ?c = "reassigned now role priority c"
  let ?P = "\<lambda>x. is_candidate (rp_workspace_id r) (ca_id c) x \<and> ca_generation x = ca_generation c"
  let ?f = "\<lambda>x. bumped now (x\<lparr>ca_role := role, ca_priority := priority\<rparr>)"
  have d: "distinct (map ca_id ?rows)" using assms(1) by (simp add: candidates_unique_iff)
  have P: "x \<in> set ?rows \<Longrightarrow> ?P x \<longleftrightarrow> ca_id x = ca_id c" for x
    using d assms(2,3) by (auto simp: is_candidate_def distinct_map inj_on_def)
  have Pc: "x \<in> set ?rows \<Longrightarrow> ?P x \<Longrightarrow> x = c" for x
    using d assms(2) by (auto simp: is_candidate_def distinct_map inj_on_def)
  have rows: "update_where ?P ?f ?rows = put_candidate ?c ?rows"
    unfolding update_where_def put_candidate_def
    by (rule map_cong [OF refl]) (use P Pc in \<open>auto simp: reassigned_def bumped_def\<close>)
  have "filter ?P ?rows = filter (\<lambda>x. x = c) ?rows"
    by (rule filter_cong [OF refl]) (use P Pc assms(2) in blast)
  moreover have "distinct ?rows" using d by (simp add: distinct_map)
  ultimately have n: "row_count ?P ?rows = 1"
    using assms(2) by (simp add: row_count_def distinct_length_filter Collect_conv_if)
  have "assignable ?c"
    using assms(6) runnable_assignable [of parse c] by (auto simp: assignable_def)
  then have "candidate_update_ok (rp_db r) c ?c" by (simp add: candidate_update_ok_def)
  moreover have "candidates_unique (put_candidate ?c ?rows)"
    by (rule put_keeps_unique [OF assms(1,2)]) (use assms(7) in simp_all)
  ultimately have "update_candidates ?P ?f (rp_db r)
      = Inr (1, (rp_db r)\<lparr>ad_candidates := put_candidate ?c ?rows\<rparr>)"
    unfolding update_candidates_def Let_def rows n using Pc assms(4,5)
    by (simp add: reassigned_def [symmetric]) blast
  then show ?thesis by (simp add: set_assignment_def cas_candidate_def)
qed


subsection \<open>The four updates\<close>

definition put_repo :: "candidate \<Rightarrow> repository \<Rightarrow> repository" where
  "put_repo c r = r\<lparr>rp_db := (rp_db r)\<lparr>ad_candidates := put_candidate c (ad_candidates (rp_db r))\<rparr>\<rparr>"

lemma put_repo_simps [simp]:
  "ad_candidates (rp_db (put_repo c r)) = put_candidate c (ad_candidates (rp_db r))"
  "ad_routes (rp_db (put_repo c r)) = ad_routes (rp_db r)"
  "ad_attempts (rp_db (put_repo c r)) = ad_attempts (rp_db r)"
  "ad_bindings (rp_db (put_repo c r)) = ad_bindings (rp_db r)"
  "rp_workspace_id (put_repo c r) = rp_workspace_id r" "rp_in_tx (put_repo c r) = rp_in_tx r"
  by (simp_all add: put_repo_def)

lemma put_repo_put: "ca_id c = ca_id c' \<Longrightarrow> put_repo c (put_repo c' r) = put_repo c r"
  by (simp add: put_repo_def put_put)

lemma put_repo_commute: "ca_id c \<noteq> ca_id c' \<Longrightarrow> put_repo c (put_repo c' r) = put_repo c' (put_repo c r)"
  by (simp add: put_repo_def put_commute)

lemma find_candidate:
  assumes "get_candidate cid r = Inr c"
  shows "c \<in> set (ad_candidates (rp_db r))" "ca_workspace_id c = rp_workspace_id r" "ca_id c = cid"
  using assms by (auto simp: get_candidate_def find_Some_iff split: option.splits)

lemma find_active:
  assumes "active_of (list_route_candidates rid r) = Some a"
  shows "a \<in> set (ad_candidates (rp_db r))" "ca_workspace_id a = rp_workspace_id r"
    "ca_route_id a = rid" "ca_role a = ActiveRole"
proof -
  have "a \<in> set (list_route_candidates rid r)" and role: "ca_role a = ActiveRole"
    using assms by (auto simp: active_of_def find_Some_iff)
  then show "a \<in> set (ad_candidates (rp_db r))" "ca_workspace_id a = rp_workspace_id r"
    "ca_route_id a = rid" by (auto simp: list_route_candidates_def)
  show "ca_role a = ActiveRole" by (rule role)
qed

lemma bump_route_ok:
  assumes "distinct (map r_id (ad_routes d))" "x \<in> set (ad_routes d)" "r_workspace_id x = w"
  shows "bump_route w (r_id x) (r_generation x) d =
    (1, d\<lparr>ad_routes := map (\<lambda>y. if y = x then x\<lparr>r_generation := r_generation x + 1\<rparr> else y) (ad_routes d)\<rparr>)"
proof -
  let ?P = "\<lambda>y. r_workspace_id y = w \<and> r_id y = r_id x \<and> r_generation y = r_generation x"
  have P: "y \<in> set (ad_routes d) \<Longrightarrow> ?P y \<longleftrightarrow> y = x" for y
    using assms by (auto simp: distinct_map inj_on_def)
  have "filter ?P (ad_routes d) = filter (\<lambda>y. y = x) (ad_routes d)"
    by (rule filter_cong [OF refl]) (use P in blast)
  moreover have "distinct (ad_routes d)" using assms(1) by (simp add: distinct_map)
  ultimately have n: "row_count ?P (ad_routes d) = 1"
    using assms(2) by (simp add: row_count_def distinct_length_filter Collect_conv_if)
  have "update_where ?P (\<lambda>y. y\<lparr>r_generation := r_generation y + 1\<rparr>) (ad_routes d)
      = map (\<lambda>y. if y = x then x\<lparr>r_generation := r_generation x + 1\<rparr> else y) (ad_routes d)"
    unfolding update_where_def by (rule map_cong [OF refl]) (use P in auto)
  with n show ?thesis by (simp add: bump_route_def Let_def)
qed

definition stood_down :: "time \<Rightarrow> int option \<Rightarrow> candidate \<Rightarrow> candidate" where
  "stood_down now priority c =
     (case priority of
        None \<Rightarrow> reassigned now InactiveRole None c
      | Some p \<Rightarrow> reassigned now StandbyRole (Some p) (reassigned now InactiveRole None c))"

definition stood_up :: "time \<Rightarrow> candidate \<Rightarrow> candidate" where
  "stood_up now c = reassigned now ActiveRole (Some 0) (reassigned now InactiveRole None c)"

lemma stood_down_simps [simp]:
  "ca_id (stood_down now p c) = ca_id c" "revision (stood_down now p c) = revision c"
  "ca_role (stood_down now p c) = (if p = None then InactiveRole else StandbyRole)"
  "ca_priority (stood_down now p c) = p" "ca_workspace_id (stood_down now p c) = ca_workspace_id c"
  "ca_route_id (stood_down now p c) = ca_route_id c"
  "candidate_is_runnable parse (stood_down now p c) = candidate_is_runnable parse c"
  by (auto simp: stood_down_def split: option.splits)

lemma stood_up_simps [simp]:
  "ca_id (stood_up now c) = ca_id c" "revision (stood_up now c) = revision c"
  "ca_role (stood_up now c) = ActiveRole" "ca_priority (stood_up now c) = Some 0"
  "ca_workspace_id (stood_up now c) = ca_workspace_id c" "ca_route_id (stood_up now c) = ca_route_id c"
  "ca_generation (stood_up now c) = ca_generation c + 2"
  "candidate_is_runnable parse (stood_up now c) = candidate_is_runnable parse c"
  by (auto simp: stood_up_def)

lemma inactive_slot: "ca_role c = InactiveRole \<Longrightarrow> \<not> same_slot c y"
  by (simp add: same_slot_def)

lemma four_updates:
  assumes tab: "table_ok (ad_candidates (rp_db r))"
    and t: "t \<in> set (ad_candidates (rp_db r))" "ca_workspace_id t = rp_workspace_id r"
      "ca_role t \<in> {StandbyRole, InactiveRole}" "candidate_is_runnable parse t"
    and a: "a \<in> set (ad_candidates (rp_db r))" "ca_workspace_id a = rp_workspace_id r"
      "ca_role a = ActiveRole" "candidate_is_runnable parse a" "same_route t a"
    and p: "ca_role t = StandbyRole \<longrightarrow> ca_priority t \<noteq> None"
  shows "and_then (set_assignment now (ca_id t) InactiveRole None (ca_generation t) r) (\<lambda>r.
    and_then (set_assignment now (ca_id a) InactiveRole None (ca_generation a) r) (\<lambda>r.
    and_then (set_assignment now (ca_id t) ActiveRole (Some 0) (ca_generation t + 1) r) (\<lambda>r.
    and_then (case ca_priority t of None \<Rightarrow> Return () r
       | Some q \<Rightarrow> set_assignment now (ca_id a) StandbyRole (Some q) (ca_generation a + 1) r) k)))
    = k (put_repo (stood_down now (ca_priority t) a) (put_repo (stood_up now t) r))"
    and "table_ok (put_candidate (stood_down now (ca_priority t) a)
      (put_candidate (stood_up now t) (ad_candidates (rp_db r))))"
proof -
  let ?rows = "ad_candidates (rp_db r)"
  let ?t1 = "reassigned now InactiveRole None t" and ?a1 = "reassigned now InactiveRole None a"
  let ?r1 = "put_repo ?t1 r" let ?r2 = "put_repo ?a1 ?r1" let ?r3 = "put_repo (stood_up now t) ?r2"
  have u: "candidates_unique ?rows" using tab by (simp add: table_ok_def)
  have uniq: "x \<in> set ?rows \<Longrightarrow> y \<in> set ?rows \<Longrightarrow> same_slot x y \<Longrightarrow> x = y" for x y
    using u unfolding candidates_unique_iff by blast
  have g: "1 \<le> ca_generation t" "1 \<le> ca_generation a" using tab t(1) a(1) by (simp_all add: table_ok_def)
  have ne: "ca_id t \<noteq> ca_id a"
  proof
    assume "ca_id t = ca_id a"
    then have "t = a" using u t(1) a(1) by (auto simp: candidates_unique_iff distinct_map inj_on_def)
    with t(3) a(3) show False by simp
  qed
  have in1: "?t1 \<in> set (put_candidate ?t1 ?rows)" using t(1) by (simp add: in_put)
  have u1: "candidates_unique (put_candidate ?t1 ?rows)"
    by (rule put_keeps_unique [OF u t(1)]) (simp_all add: inactive_slot)
  have ina: "a \<in> set (put_candidate ?t1 ?rows)" using a(1) ne by (simp add: in_put)
  have u2: "candidates_unique (put_candidate ?a1 (put_candidate ?t1 ?rows))"
    by (rule put_keeps_unique [OF u1 ina]) (simp_all add: inactive_slot)
  have in2: "?t1 \<in> set (put_candidate ?a1 (put_candidate ?t1 ?rows))" using in1 ne by (simp add: in_put)
  have s1: "set_assignment now (ca_id t) InactiveRole None (ca_generation t) r = (Inr (), ?r1)"
    unfolding put_repo_def by (rule set_assignment_ok [OF u t(1,2) g(1), of _ _ _ parse])
      (simp_all add: assignment_ok_def inactive_slot)
  have s2: "set_assignment now (ca_id a) InactiveRole None (ca_generation a) ?r1 = (Inr (), ?r2)"
    unfolding put_repo_def [of ?a1 ?r1] by (rule set_assignment_ok [of ?r1 a _ _ _ parse])
      (use u1 ina a(2) g(2) in \<open>simp_all add: assignment_ok_def inactive_slot\<close>)
  have slot3: "\<not> same_slot (reassigned now ActiveRole (Some 0) ?t1) y"
    if y: "y \<in> set (put_candidate ?a1 (put_candidate ?t1 ?rows))" "ca_id y \<noteq> ca_id t" for y
  proof
    assume "same_slot (reassigned now ActiveRole (Some 0) ?t1) y"
    then have act: "ca_role y = ActiveRole" "same_route t y" by (auto simp: same_slot_def same_route_def)
    with y have "y \<in> set ?rows" "ca_id y \<noteq> ca_id a" by (auto simp: in_put)
    moreover have "same_slot y a" using act a(3,5) by (auto simp: same_slot_def same_route_def)
    ultimately show False using uniq a(1) by blast
  qed
  have s3: "set_assignment now (ca_id t) ActiveRole (Some 0) (ca_generation t + 1) ?r2 = (Inr (), ?r3)"
  proof -
    have "set_assignment now (ca_id ?t1) ActiveRole (Some 0) (ca_generation ?t1) ?r2
        = (Inr (), ?r2\<lparr>rp_db := (rp_db ?r2)\<lparr>ad_candidates := put_candidate (stood_up now t) (ad_candidates (rp_db ?r2))\<rparr>\<rparr>)"
      unfolding stood_up_def by (rule set_assignment_ok [of ?r2 ?t1 _ _ _ parse])
        (use u2 in2 t(2,4) g(1) slot3 in \<open>simp_all add: assignment_ok_def\<close>)
    then show ?thesis by (simp add: put_repo_def)
  qed
  let ?rows3 = "put_candidate (stood_up now t) (put_candidate ?a1 (put_candidate ?t1 ?rows))"
  have u3: "candidates_unique ?rows3"
    by (rule put_keeps_unique [OF u2 in2]) (use slot3 in \<open>simp_all add: stood_up_def\<close>)
  have in3: "?a1 \<in> set ?rows3" using ina ne by (auto simp: in_put)
  have r3: "?r3 = put_repo ?a1 (put_repo (stood_up now t) r)"
    using ne put_repo_commute [of "stood_up now t" ?a1 ?r1] put_repo_put [of "stood_up now t" ?t1 r]
    by simp
  have rows3: "?rows3 = put_candidate ?a1 (put_candidate (stood_up now t) ?rows)"
    using r3 by (metis put_repo_simps(1))
  have s4: "(case ca_priority t of None \<Rightarrow> Return () ?r3
       | Some q \<Rightarrow> set_assignment now (ca_id a) StandbyRole (Some q) (ca_generation a + 1) ?r3)
       = (Inr (), put_repo (stood_down now (ca_priority t) a) (put_repo (stood_up now t) r))
     \<and> candidates_unique (put_candidate (stood_down now (ca_priority t) a)
          (put_candidate (stood_up now t) ?rows))"
  proof (cases "ca_priority t")
    case None
    then show ?thesis using u3 by (simp add: r3 rows3 stood_down_def)
  next
    case (Some q)
    have role: "ca_role t = StandbyRole" and ok: "1 \<le> q"
      using tab t(1,3) Some by (auto simp: table_ok_def assignment_ok_def positive_or_null_def)
    have slot4: "\<not> same_slot (reassigned now StandbyRole (Some q) ?a1) y"
      if y: "y \<in> set ?rows3" "ca_id y \<noteq> ca_id a" for y
    proof
      assume "same_slot (reassigned now StandbyRole (Some q) ?a1) y"
      then have st: "ca_role y = StandbyRole" "ca_priority y = Some q" "same_route a y"
        by (auto simp: same_slot_def same_route_def)
      with y have "y \<in> set ?rows" "ca_id y \<noteq> ca_id t" by (auto simp: in_put)
      moreover have "same_slot y t" using st a(5) role Some by (auto simp: same_slot_def same_route_def)
      ultimately show False using uniq t(1) by blast
    qed
    have "set_assignment now (ca_id ?a1) StandbyRole (Some q) (ca_generation ?a1) ?r3
        = (Inr (), put_repo (reassigned now StandbyRole (Some q) ?a1) ?r3)"
      unfolding put_repo_def [of "reassigned now StandbyRole (Some q) ?a1" ?r3]
      by (rule set_assignment_ok [of ?r3 ?a1 _ _ _ parse])
        (use u3 in3 a(2,4) g(2) slot4 ok in \<open>simp_all add: assignment_ok_def positive_or_null_def\<close>)
    moreover have "candidates_unique (put_candidate (reassigned now StandbyRole (Some q) ?a1) ?rows3)"
      by (rule put_keeps_unique [OF u3 in3]) (use slot4 in simp_all)
    ultimately show ?thesis
      using Some by (simp add: r3 rows3 stood_down_def put_repo_put put_put)
  qed
  show "and_then (set_assignment now (ca_id t) InactiveRole None (ca_generation t) r) (\<lambda>r.
    and_then (set_assignment now (ca_id a) InactiveRole None (ca_generation a) r) (\<lambda>r.
    and_then (set_assignment now (ca_id t) ActiveRole (Some 0) (ca_generation t + 1) r) (\<lambda>r.
    and_then (case ca_priority t of None \<Rightarrow> Return () r
       | Some q \<Rightarrow> set_assignment now (ca_id a) StandbyRole (Some q) (ca_generation a + 1) r) k)))
    = k (put_repo (stood_down now (ca_priority t) a) (put_repo (stood_up now t) r))"
    by (simp add: s1 s2 s3 s4)
  have "assignment_ok c \<and> assignable c \<and> 1 \<le> ca_generation c"
    if "c = stood_up now t \<or> c = stood_down now (ca_priority t) a" for c
  proof -
    have "ca_priority t = Some q \<Longrightarrow> 1 \<le> q" for q
      using tab t(1,3) by (auto simp: table_ok_def assignment_ok_def positive_or_null_def)
    then have "assignment_ok c"
      using that by (auto simp: assignment_ok_def positive_or_null_def split: option.splits)
    moreover have "candidate_is_runnable parse c" using that t(4) a(4) by auto
    then have "assignable c" using runnable_assignable by (auto simp: assignable_def)
    moreover have "1 \<le> ca_generation c"
      using that g by (auto simp: stood_up_def stood_down_def split: option.splits)
    ultimately show ?thesis by blast
  qed
  note new = this
  have "c = stood_up now t \<or> c = stood_down now (ca_priority t) a \<or> c \<in> set ?rows"
    if "c \<in> set (put_candidate (stood_down now (ca_priority t) a) (put_candidate (stood_up now t) ?rows))" for c
    using that by (simp only: in_put) blast
  then show "table_ok (put_candidate (stood_down now (ca_priority t) a)
      (put_candidate (stood_up now t) (ad_candidates (rp_db r))))"
    using s4 tab new unfolding table_ok_def by blast
qed


definition route_bumped :: "route \<Rightarrow> route list \<Rightarrow> route list" where
  "route_bumped route rows =
     map (\<lambda>x. if x = route then route\<lparr>r_generation := r_generation route + 1\<rparr> else x) rows"

definition promoted :: "time \<Rightarrow> route \<Rightarrow> candidate \<Rightarrow> candidate \<Rightarrow> repository \<Rightarrow> repository" where
  "promoted now route target active r =
     r\<lparr>rp_db := (rp_db r)\<lparr>
        ad_candidates := put_candidate (stood_down now (ca_priority target) active)
          (put_candidate (stood_up now target) (ad_candidates (rp_db r))),
        ad_routes := route_bumped route (ad_routes (rp_db r))\<rparr>\<rparr>"

lemma promote_ok:
  assumes "table_ok (ad_candidates (rp_db r))" "distinct (map r_id (ad_routes (rp_db r)))"
    and "get_route rid r = Inr route" "get_candidate cid r = Inr target"
    and "active_of (list_route_candidates rid r) = Some active"
    and "eligible_standby parse rid (ca_generation target) target" "candidate_is_runnable parse active"
  shows "transaction (promote_standby_candidate parse now rid cid (r_generation route)
      (ca_generation target)) r = (Inr (), promoted now route target active r)"
    and "table_ok (ad_candidates (rp_db (promoted now route target active r)))"
proof -
  let ?r = "r\<lparr>rp_in_tx := True\<rparr>"
  let ?r4 = "put_repo (stood_down now (ca_priority target) active) (put_repo (stood_up now target) ?r)"
  let ?routes = "route_bumped route (ad_routes (rp_db r))"
  note t = find_candidate [OF assms(4)] and a = find_active [OF assms(5)]
  from assms(3) have route: "route \<in> set (ad_routes (rp_db r))" "r_workspace_id route = rp_workspace_id r"
    "r_id route = rid" by (auto simp: get_route_def find_Some_iff split: option.splits)
  have same: "same_route target active" using assms(6) t(2) a(2,3) by (simp add: same_route_def eligible_standby_def)
  have reads: "get_route rid ?r = Inr route" "get_candidate cid ?r = Inr target"
    "active_of (list_route_candidates rid ?r) = Some active"
    using assms(3-5) by (simp_all add: get_route_def get_candidate_def list_route_candidates_def)
  note four = four_updates [of ?r target parse active]
  have upd: "and_then (set_assignment now (ca_id target) InactiveRole None (ca_generation target) ?r) (\<lambda>r.
    and_then (set_assignment now (ca_id active) InactiveRole None (ca_generation active) r) (\<lambda>r.
    and_then (set_assignment now (ca_id target) ActiveRole (Some 0) (ca_generation target + 1) r) (\<lambda>r.
    and_then (case ca_priority target of None \<Rightarrow> Return () r
       | Some q \<Rightarrow> set_assignment now (ca_id active) StandbyRole (Some q) (ca_generation active + 1) r) k)))
    = k ?r4" for k :: "repository \<Rightarrow> (repository, unit) outcome"
    by (rule four(1))
      (use assms(1,6,7) t a same in \<open>auto simp: eligible_standby_def\<close>)
  have bump: "bump_route (rp_workspace_id ?r4) rid (r_generation route) (rp_db ?r4)
      = (1, (rp_db ?r4)\<lparr>ad_routes := ?routes\<rparr>)"
    using bump_route_ok [of "rp_db ?r4" route "rp_workspace_id r"] assms(2) route
    by (simp add: route_bumped_def)
  have body: "promote_standby_candidate parse now rid cid (r_generation route) (ca_generation target) ?r
      = (Inr (), ?r4\<lparr>rp_db := (rp_db ?r4)\<lparr>ad_routes := ?routes\<rparr>\<rparr>)"
    unfolding promote_standby_candidate_def reads sum.case option.case upd
    using assms(6,7) bump by (simp add: require_transaction_def)
  show "transaction (promote_standby_candidate parse now rid cid (r_generation route)
      (ca_generation target)) r = (Inr (), promoted now route target active r)"
    unfolding transaction_def body by (simp add: promoted_def put_repo_def)
  show "table_ok (ad_candidates (rp_db (promoted now route target active r)))"
    using four(2) assms(1,6,7) t a same by (simp add: promoted_def eligible_standby_def)
qed

lemma promoted_rows:
  assumes "table_ok (ad_candidates (rp_db r))" "get_candidate cid r = Inr target"
    and "active_of (list_route_candidates rid r) = Some active"
    and "eligible_standby parse rid (ca_generation target) target"
  shows "ad_candidates (rp_db (promoted now route target active r)) =
    map (\<lambda>c. if ca_id c = cid then stood_up now target
        else if ca_id c = ca_id active then stood_down now (ca_priority target) active else c)
      (ad_candidates (rp_db r))" and "cid \<noteq> ca_id active"
proof -
  note t = find_candidate [OF assms(2)] and a = find_active [OF assms(3)]
  show ne: "cid \<noteq> ca_id active"
    using assms(1,4) t a by (auto simp: table_ok_def candidates_unique_iff distinct_map inj_on_def
        eligible_standby_def)
  show "ad_candidates (rp_db (promoted now route target active r)) =
    map (\<lambda>c. if ca_id c = cid then stood_up now target
        else if ca_id c = ca_id active then stood_down now (ca_priority target) active else c)
      (ad_candidates (rp_db r))"
    using t(3) ne by (simp add: promoted_def put_candidate_def)
qed

text \<open>C10: When the guards of a promotion hold, it succeeds: the chosen candidate becomes the active
  one of its route with priority 0, the former active candidate takes over its standby priority (or
  is stood down when there was none), no other candidate and no revision changes, and the route's
  generation is raised by one.\<close>

theorem promotion_switches_the_active_candidate:
  assumes "table_ok (ad_candidates (rp_db r))" "distinct (map r_id (ad_routes (rp_db r)))"
    and "get_route rid r = Inr route" "get_candidate cid r = Inr target"
    and "active_of (list_route_candidates rid r) = Some active"
    and "eligible_standby parse rid (ca_generation target) target" "candidate_is_runnable parse active"
  shows "\<exists>r'. transaction (promote_standby_candidate parse now rid cid (r_generation route)
        (ca_generation target)) r = (Inr (), r')
    \<and> ad_candidates (rp_db r') = map (\<lambda>c. if ca_id c = cid then stood_up now target
        else if ca_id c = ca_id active then stood_down now (ca_priority target) active else c)
        (ad_candidates (rp_db r))
    \<and> ad_routes (rp_db r') = map (\<lambda>x. if x = route then route\<lparr>r_generation := r_generation route + 1\<rparr> else x)
        (ad_routes (rp_db r))
    \<and> ca_role (stood_up now target) = ActiveRole \<and> ca_priority (stood_up now target) = Some 0
    \<and> revision (stood_up now target) = revision target
    \<and> ca_role (stood_down now (ca_priority target) active)
        = (if ca_priority target = None then InactiveRole else StandbyRole)
    \<and> ca_priority (stood_down now (ca_priority target) active) = ca_priority target
    \<and> revision (stood_down now (ca_priority target) active) = revision active"
  using promote_ok(1) [OF assms] promoted_rows [OF assms(1,4,5,6)]
  by (simp add: promoted_def route_bumped_def)

subsection \<open>The way back\<close>

lemma get_candidate_eqI:
  "distinct (map ca_id (ad_candidates (rp_db r))) \<Longrightarrow> c \<in> set (ad_candidates (rp_db r)) \<Longrightarrow>
   ca_workspace_id c = rp_workspace_id r \<Longrightarrow> get_candidate (ca_id c) r = Inr c"
  by (auto simp: get_candidate_def find_Some_iff find_None_iff distinct_map inj_on_def
      split: option.splits)

lemma get_route_eqI:
  "distinct (map r_id (ad_routes (rp_db r))) \<Longrightarrow> x \<in> set (ad_routes (rp_db r)) \<Longrightarrow>
   r_workspace_id x = rp_workspace_id r \<Longrightarrow> get_route (r_id x) r = Inr x"
  by (auto simp: get_route_def find_Some_iff find_None_iff distinct_map inj_on_def
      split: option.splits)

lemma active_of_eqI:
  assumes "candidates_unique (ad_candidates (rp_db r))" "c \<in> set (ad_candidates (rp_db r))"
    and "ca_workspace_id c = rp_workspace_id r" "ca_route_id c = rid" "ca_role c = ActiveRole"
    and "ca_lifecycle c \<noteq> Rejected"
  shows "active_of (list_route_candidates rid r) = Some c"
proof -
  have c: "c \<in> set (list_route_candidates rid r)"
    using assms by (simp add: list_route_candidates_def visible_candidate_def)
  then obtain d where d: "active_of (list_route_candidates rid r) = Some d"
    using assms(5) by (cases "active_of (list_route_candidates rid r)") (auto simp: active_of_def find_None_iff)
  have "same_slot c d" using find_active [OF d] assms(3-5) by (simp add: same_slot_def same_route_def)
  then have "c = d" using assms(1,2) find_active(1) [OF d] unfolding candidates_unique_iff by blast
  with d show ?thesis by simp
qed

lemma promoted_reads:
  fixes now :: time
  assumes "table_ok (ad_candidates (rp_db r))" "distinct (map r_id (ad_routes (rp_db r)))"
    and "get_route rid r = Inr route" "get_candidate cid r = Inr target"
    and "active_of (list_route_candidates rid r) = Some active"
    and "eligible_standby parse rid (ca_generation target) target" "candidate_is_runnable parse active"
  defines "r1 \<equiv> promoted now route target active r"
  shows "get_route rid r1 = Inr (route\<lparr>r_generation := r_generation route + 1\<rparr>)"
    and "get_candidate (ca_id active) r1 = Inr (stood_down now (ca_priority target) active)"
    and "active_of (list_route_candidates rid r1) = Some (stood_up now target)"
    and "distinct (map r_id (ad_routes (rp_db r1)))"
proof -
  note ok = promote_ok(2) [OF assms(1-7), of now, folded r1_def]
  note rows = promoted_rows(1) [OF assms(1,4,5,6), of now route, folded r1_def]
    promoted_rows(2) [OF assms(1,4,5,6)]
  note t = find_candidate [OF assms(4)] and a = find_active [OF assms(5)]
  have u: "candidates_unique (ad_candidates (rp_db r1))" using ok by (simp add: table_ok_def)
  then have d: "distinct (map ca_id (ad_candidates (rp_db r1)))" by (simp add: candidates_unique_iff)
  have w: "rp_workspace_id r1 = rp_workspace_id r" by (simp add: r1_def promoted_def)
  have ina: "stood_down now (ca_priority target) active \<in> set (ad_candidates (rp_db r1))"
    using a(1) rows(2) t(3) unfolding rows(1) by force
  from get_candidate_eqI [OF d ina] a(2) w
  show "get_candidate (ca_id active) r1 = Inr (stood_down now (ca_priority target) active)" by simp
  have int: "stood_up now target \<in> set (ad_candidates (rp_db r1))"
    using t(1,3) unfolding rows(1) by force
  have "candidate_is_runnable parse (stood_up now target)"
    using assms(6) by (simp add: eligible_standby_def)
  then have "ca_lifecycle (stood_up now target) \<noteq> Rejected" using runnable_assignable by fastforce
  then show "active_of (list_route_candidates rid r1) = Some (stood_up now target)"
    using active_of_eqI [OF u int] t(2) w assms(6) by (simp add: eligible_standby_def)
  have rd: "map r_id (ad_routes (rp_db r1)) = map r_id (ad_routes (rp_db r))"
    by (simp add: r1_def promoted_def route_bumped_def)
  with assms(2) show "distinct (map r_id (ad_routes (rp_db r1)))" by simp
  from assms(3) have route: "route \<in> set (ad_routes (rp_db r))" "r_workspace_id route = rp_workspace_id r"
    "r_id route = rid" by (auto simp: get_route_def find_Some_iff split: option.splits)
  have "route\<lparr>r_generation := r_generation route + 1\<rparr> \<in> set (ad_routes (rp_db r1))"
    using route(1) by (auto simp: r1_def promoted_def route_bumped_def)
  with assms(2) rd show "get_route rid r1 = Inr (route\<lparr>r_generation := r_generation route + 1\<rparr>)"
    using get_route_eqI [of r1 "route\<lparr>r_generation := r_generation route + 1\<rparr>"] route(2,3) w by simp
qed

text \<open>C30: A promotion can be undone: promoting the candidate that was stood down restores the role
  and the priority of every candidate of the table, and only generations and times tell the
  difference.\<close>

theorem promotion_can_be_undone:
  assumes "table_ok (ad_candidates (rp_db r))" "distinct (map r_id (ad_routes (rp_db r)))"
    and "get_route rid r = Inr route" "get_candidate cid r = Inr target"
    and "active_of (list_route_candidates rid r) = Some active"
    and "eligible_standby parse rid (ca_generation target) target" "candidate_is_runnable parse active"
    and "ca_role target = StandbyRole" "ca_priority active = Some 0"
    and "transaction (promote_standby_candidate parse now rid cid (r_generation route)
        (ca_generation target)) r = (Inr (), r1)"
  shows "\<exists>r2 down. get_candidate (ca_id active) r1 = Inr down
    \<and> transaction (promote_standby_candidate parse later rid (ca_id active) (r_generation route + 1)
        (ca_generation down)) r1 = (Inr (), r2)
    \<and> map (\<lambda>c. (ca_id c, ca_role c, ca_priority c, revision c)) (ad_candidates (rp_db r2))
      = map (\<lambda>c. (ca_id c, ca_role c, ca_priority c, revision c)) (ad_candidates (rp_db r))"
proof -
  note one = promote_ok [OF assms(1-7), of now]
  have r1: "r1 = promoted now route target active r" using one(1) assms(10) by simp
  let ?down = "stood_down now (ca_priority target) active" and ?up = "stood_up now target"
  let ?route = "route\<lparr>r_generation := r_generation route + 1\<rparr>"
  note reads = promoted_reads [OF assms(1-7), of now, folded r1]
  note rows = promoted_rows(1) [OF assms(1,4,5,6), of now route, folded r1]
    promoted_rows(2) [OF assms(1,4,5,6)]
  note a = find_active [OF assms(5)] and t = find_candidate [OF assms(4)]
  have p: "ca_priority target \<noteq> None" using assms(6,8) by (simp add: eligible_standby_def)
  have tab1: "table_ok (ad_candidates (rp_db r1))" using one(2) r1 by simp
  have el: "eligible_standby parse rid (ca_generation ?down) ?down"
    using a(3) assms(7) p by (simp add: eligible_standby_def)
  have run: "candidate_is_runnable parse ?up" using assms(6) by (simp add: eligible_standby_def)
  note two = promote_ok [OF tab1 reads(4,1,2,3) el run, of later]
  let ?r2 = "promoted later ?route ?down ?up r1"
  note rows2 = promoted_rows(1) [OF tab1 reads(2,3) el, of later ?route]
  have u: "x \<in> set (ad_candidates (rp_db r)) \<Longrightarrow> y \<in> set (ad_candidates (rp_db r)) \<Longrightarrow> ca_id x = ca_id y
      \<Longrightarrow> x = y" for x y
    using assms(1) by (auto simp: table_ok_def candidates_unique_iff distinct_map inj_on_def)
  have "map (\<lambda>c. (ca_id c, ca_role c, ca_priority c, revision c)) (ad_candidates (rp_db ?r2))
      = map (\<lambda>c. (ca_id c, ca_role c, ca_priority c, revision c)) (ad_candidates (rp_db r))"
    unfolding rows2 rows(1) map_map
  proof (rule map_cong [OF refl])
    fix c assume c: "c \<in> set (ad_candidates (rp_db r))"
    consider "c = target" | "c = active" | "ca_id c \<noteq> cid" "ca_id c \<noteq> ca_id active"
      using u [OF c t(1)] u [OF c a(1)] t(3) by metis
    then show "((\<lambda>c. (ca_id c, ca_role c, ca_priority c, revision c)) \<circ>
        ((\<lambda>c. if ca_id c = ca_id active then stood_up later ?down
          else if ca_id c = ca_id ?up then stood_down later (ca_priority ?down) ?up else c) \<circ>
        (\<lambda>c. if ca_id c = cid then ?up else if ca_id c = ca_id active then ?down else c))) c
      = (ca_id c, ca_role c, ca_priority c, revision c)"
    proof cases
      case 1
      then show ?thesis using rows(2) t(3) assms(8) p by simp
    next
      case 2
      then show ?thesis using rows(2) t(3) assms(9) a(4) by simp
    next
      case 3
      then show ?thesis using t(3) by simp
    qed
  qed
  with two(1) reads(2) show ?thesis by auto
qed

end
