(* ===== verification/RouteExecution.thy ===== *)
theory RouteExecution
  imports RoutePromotion
begin

section \<open>The order a run tries its candidates in, and what it may publish\<close>

text \<open>
  \<open>freeze_execution\<close> fixes the candidates of a run and their order; \<open>publish_success\<close> writes the
  result back only while the binding is the one that was frozen.
\<close>

subsection \<open>The frozen order\<close>

lemma hd_sort_key_le:
  assumes "x \<in> set xs"
  shows "hd (sort_key f xs) \<in> set xs \<and> f (hd (sort_key f xs)) \<le> f x"
proof -
  have ne: "sort_key f xs \<noteq> []" using assms by (metis empty_iff empty_set set_sort)
  then obtain y ys where s: "sort_key f xs = y # ys" by (cases "sort_key f xs") auto
  have "sorted (map f (y # ys))" using sorted_sort_key [of f xs] s by simp
  moreover have "x \<in> set (y # ys)" "y \<in> set xs" using assms s by (metis set_sort list.set_intros(1))+
  ultimately show ?thesis using s by auto
qed

lemma sort_key_inj_in: "set (sort_key f xs) = set xs" by simp

definition assigned_of :: "manifest_parser \<Rightarrow> candidate list \<Rightarrow> candidate list" where
  "assigned_of parse cs =
     filter (\<lambda>c. ca_role c \<in> {ActiveRole, StandbyRole}) (filter (candidate_is_runnable parse) cs)"

lemma ordered_candidates_shape:
  "ordered_candidates parse cs preferred lkg = sort_key (selection_order preferred) (assigned_of parse cs)
   \<or> (\<exists>c \<in> set cs. candidate_is_runnable parse c \<and> ca_id c = or_empty lkg
        \<and> ca_id c \<notin> ca_id ` set (assigned_of parse cs)
        \<and> ordered_candidates parse cs preferred lkg
            = sort_key (selection_order preferred) (assigned_of parse cs) @ [c])"
proof (cases "lookup_row ca_id (or_empty lkg) (filter (candidate_is_runnable parse) cs)")
  case None
  then show ?thesis by (simp add: ordered_candidates_def assigned_of_def)
next
  case (Some c)
  then have c: "c \<in> set cs" "candidate_is_runnable parse c" "ca_id c = or_empty lkg"
    using lookup_row_SomeD [OF Some] by simp_all
  have all: "list_all (\<lambda>x. ca_id x \<noteq> ca_id c) (sort_key (selection_order preferred) (assigned_of parse cs))
      \<longleftrightarrow> ca_id c \<notin> ca_id ` set (assigned_of parse cs)"
    by (simp add: list_all_iff) (metis (no_types, lifting) imageE imageI)
  show ?thesis
  proof (cases "ca_id c \<in> ca_id ` set (assigned_of parse cs)")
    case True
    then show ?thesis using Some all by (simp add: ordered_candidates_def assigned_of_def Let_def)
  next
    case False
    then have "ordered_candidates parse cs preferred lkg
            = sort_key (selection_order preferred) (assigned_of parse cs) @ [c]"
      using Some all by (simp add: ordered_candidates_def assigned_of_def Let_def)
    with c False show ?thesis by blast
  qed
qed

lemma assigned_of_iff:
  "c \<in> set (assigned_of parse cs) \<longleftrightarrow>
     c \<in> set cs \<and> candidate_is_runnable parse c \<and> ca_role c \<noteq> InactiveRole"
  by (cases "ca_role c") (auto simp: assigned_of_def)

lemma ordered_candidates_members:
  assumes "distinct (map ca_id cs)"
  shows "distinct (map ca_id (ordered_candidates parse cs preferred lkg))"
    and "\<And>c. c \<in> set (ordered_candidates parse cs preferred lkg) \<Longrightarrow> c \<in> set cs
      \<and> candidate_is_runnable parse c \<and> (ca_role c \<noteq> InactiveRole \<or> ca_id c = or_empty lkg)"
    and "\<And>c. c \<in> set (assigned_of parse cs) \<Longrightarrow> c \<in> set (ordered_candidates parse cs preferred lkg)"
proof -
  have d: "distinct (map ca_id (sort_key (selection_order preferred) (assigned_of parse cs)))"
    using assms by (simp add: assigned_of_def distinct_map distinct_filter inj_on_def)
  consider "ordered_candidates parse cs preferred lkg = sort_key (selection_order preferred) (assigned_of parse cs)"
    | c where "c \<in> set cs" "candidate_is_runnable parse c" "ca_id c = or_empty lkg"
        "ca_id c \<notin> ca_id ` set (assigned_of parse cs)"
        "ordered_candidates parse cs preferred lkg
            = sort_key (selection_order preferred) (assigned_of parse cs) @ [c]"
    using ordered_candidates_shape by blast
  note shape = this
  show "distinct (map ca_id (ordered_candidates parse cs preferred lkg))"
    by (rule shape) (use d in auto)
  show "c \<in> set cs \<and> candidate_is_runnable parse c \<and> (ca_role c \<noteq> InactiveRole \<or> ca_id c = or_empty lkg)"
    if "c \<in> set (ordered_candidates parse cs preferred lkg)" for c
    by (rule shape) (use that assigned_of_iff [of c parse cs] in auto)
  show "c \<in> set (ordered_candidates parse cs preferred lkg)" if "c \<in> set (assigned_of parse cs)" for c
    by (rule shape) (use that in auto)
qed

lemma ordered_candidates_hd:
  assumes "c \<in> set (assigned_of parse cs)"
  shows "hd (ordered_candidates parse cs preferred lkg) \<in> set (assigned_of parse cs)
    \<and> selection_order preferred (hd (ordered_candidates parse cs preferred lkg)) \<le> selection_order preferred c"
proof -
  have ne: "sort_key (selection_order preferred) (assigned_of parse cs) \<noteq> []"
    using assms by (metis empty_iff empty_set set_sort)
  then have "hd (ordered_candidates parse cs preferred lkg)
      = hd (sort_key (selection_order preferred) (assigned_of parse cs))"
    using ordered_candidates_shape [of parse cs preferred lkg] by (auto simp: hd_append)
  with hd_sort_key_le [OF assms] show ?thesis by simp
qed

lemma freeze_Inr:
  assumes "freeze_execution parse rid sid fp r = Inr es"
  shows "\<exists>b. get_binding sid r = Inr b \<and> es_binding es = b \<and> b_route_id b = rid \<and> b_target_fingerprint b = fp
    \<and> es_target_fingerprint es = fp \<and> get_route rid r = Inr (es_route es)
    \<and> es_candidates es = ordered_candidates parse (list_route_candidates rid r)
        (b_preferred_candidate_id b) (b_last_known_good b)"
  using assms by (auto simp: freeze_execution_def split: sum.splits if_splits)

lemma route_candidates:
  "c \<in> set (list_route_candidates rid r) \<longleftrightarrow> c \<in> set (ad_candidates (rp_db r))
     \<and> ca_workspace_id c = rp_workspace_id r \<and> ca_route_id c = rid \<and> visible_candidate c"
  by (auto simp: list_route_candidates_def)

text \<open>A run tries each candidate at most once and only runnable candidates of its route: every
  assigned one, and besides them only the last known good one.  The preferred candidate comes first
  when it is among the assigned ones, otherwise the active one does.\<close>

theorem frozen_order_is_sound:
  assumes "freeze_execution parse rid sid fp r = Inr es"
    and "distinct (map ca_id (ad_candidates (rp_db r)))"
  shows "distinct (map ca_id (es_candidates es))
    \<and> (\<forall>c \<in> set (es_candidates es). candidate_is_runnable parse c \<and> ca_route_id c = rid
        \<and> ca_workspace_id c = rp_workspace_id r
        \<and> (ca_role c \<noteq> InactiveRole \<or> ca_id c = or_empty (b_last_known_good (es_binding es))))
    \<and> (\<forall>c \<in> set (ad_candidates (rp_db r)).
        ca_workspace_id c = rp_workspace_id r \<and> ca_route_id c = rid \<and> candidate_is_runnable parse c
        \<and> ca_role c \<noteq> InactiveRole \<longrightarrow> c \<in> set (es_candidates es)
          \<and> (Some (ca_id c) = b_preferred_candidate_id (es_binding es) \<longrightarrow> hd (es_candidates es) = c)
          \<and> (ca_role c = ActiveRole \<longrightarrow>
               Some (ca_id (hd (es_candidates es))) = b_preferred_candidate_id (es_binding es)
               \<or> ca_role (hd (es_candidates es)) = ActiveRole))"
proof -
  obtain b where b: "es_binding es = b" and cs: "es_candidates es = ordered_candidates parse
      (list_route_candidates rid r) (b_preferred_candidate_id b) (b_last_known_good b)"
    using freeze_Inr [OF assms(1)] by blast
  let ?cs = "list_route_candidates rid r"
  have d: "distinct (map ca_id ?cs)"
    using assms(2) by (simp add: list_route_candidates_def distinct_map distinct_filter inj_on_def)
  note m = ordered_candidates_members [OF d]
  have dist: "distinct (map ca_id (es_candidates es))" unfolding cs by (rule m(1))
  have mem: "candidate_is_runnable parse c \<and> ca_route_id c = rid \<and> ca_workspace_id c = rp_workspace_id r
      \<and> (ca_role c \<noteq> InactiveRole \<or> ca_id c = or_empty (b_last_known_good (es_binding es)))"
    if "c \<in> set (es_candidates es)" for c
    using m(2) [OF that [unfolded cs]] b by (auto simp: route_candidates)
  have first: "c \<in> set (es_candidates es)
      \<and> (Some (ca_id c) = b_preferred_candidate_id (es_binding es) \<longrightarrow> hd (es_candidates es) = c)
      \<and> (ca_role c = ActiveRole \<longrightarrow>
           Some (ca_id (hd (es_candidates es))) = b_preferred_candidate_id (es_binding es)
           \<or> ca_role (hd (es_candidates es)) = ActiveRole)"
    if c: "c \<in> set (ad_candidates (rp_db r))" "ca_workspace_id c = rp_workspace_id r"
    "ca_route_id c = rid" "candidate_is_runnable parse c" "ca_role c \<noteq> InactiveRole" for c
  proof -
  have "visible_candidate c" using runnable_assignable [OF c(4)] by (auto simp: visible_candidate_def)
  with c have a: "c \<in> set (assigned_of parse ?cs)" by (simp add: assigned_of_iff route_candidates)
  let ?hd = "hd (es_candidates es)"
  have h: "?hd \<in> set (assigned_of parse ?cs)"
    "selection_order (b_preferred_candidate_id b) ?hd \<le> selection_order (b_preferred_candidate_id b) c"
    using ordered_candidates_hd [OF a, of "b_preferred_candidate_id b" "b_last_known_good b"]
    unfolding cs by blast+
  have same: "ca_id ?hd = ca_id c \<Longrightarrow> ?hd = c"
    using d h(1) a by (auto simp: assigned_of_def distinct_map inj_on_def)
  have "Some (ca_id c) = b_preferred_candidate_id b \<longrightarrow> Some (ca_id ?hd) = b_preferred_candidate_id b"
    using h(2) by (auto simp: selection_order_def less_eq_prod_def split: if_splits)
  then have "Some (ca_id c) = b_preferred_candidate_id b \<longrightarrow> ?hd = c" using same by (metis option.inject)
  moreover have "ca_role c = ActiveRole \<longrightarrow> Some (ca_id ?hd) = b_preferred_candidate_id b \<or> ca_role ?hd = ActiveRole"
    using h(2) by (auto simp: selection_order_def less_eq_prod_def split: if_splits)
  ultimately show ?thesis using m(3) [OF a] b cs by simp
  qed
  show ?thesis using dist mem first by blast
qed

subsection \<open>Publication\<close>

definition bindings_ok :: "actor_db \<Rightarrow> bool" where
  "bindings_ok d \<longleftrightarrow>
     distinct (map (\<lambda>b. (b_workspace_id b, b_source_id b)) (ad_bindings d))
     \<and> (\<forall>b \<in> set (ad_bindings d). on_route d b (b_preferred_candidate_id b) \<and> on_route d b (b_last_known_good b))"

definition still_frozen :: "manifest_parser \<Rightarrow> publication_proof \<Rightarrow> repository \<Rightarrow> binding \<Rightarrow> bool" where
  "still_frozen parse p r b \<longleftrightarrow>
     b_route_id b = pp_route_id p \<and> b_version b = pp_binding_version p
     \<and> b_target_fingerprint b = pp_target_fingerprint p
     \<and> (case pp_candidate_id p of
          None \<Rightarrow> True
        | Some i \<Rightarrow> (case get_candidate i r of
             Inl e \<Rightarrow> False | Inr c \<Rightarrow> ca_route_id c = pp_route_id p \<and> candidate_is_runnable parse c))"

lemma assert_publishable_iff:
  "(\<exists>u. assert_publishable parse p r = Inr u) \<longleftrightarrow>
     pp_workspace_id p = rp_workspace_id r
     \<and> (\<exists>b. get_binding (pp_source_id p) r = Inr b \<and> still_frozen parse p r b)"
  by (auto simp: assert_publishable_def still_frozen_def split: sum.splits option.splits)

text \<open>C31: The result of a run is published exactly while the binding has the frozen route, version
  and target and the candidate is still a runnable one of that route; then this binding alone changes,
  and the candidate becomes the last known good one.  Otherwise nothing changes.\<close>

theorem publication_needs_the_frozen_binding:
  assumes "bindings_ok (rp_db r)" "pp_workspace_id p = rp_workspace_id r"
  shows "(case get_binding (pp_source_id p) r of
      Inl e \<Rightarrow> transaction (publish_success parse now p latest hash) r = (Inl e, r)
    | Inr b \<Rightarrow>
        if still_frozen parse p r b
        then transaction (publish_success parse now p latest hash) r
            = (Inr (), r\<lparr>rp_db := (rp_db r)\<lparr>ad_bindings :=
                 map (\<lambda>x. if x = b then published now p latest hash b else x) (ad_bindings (rp_db r))\<rparr>\<rparr>)
        else (\<exists>e. transaction (publish_success parse now p latest hash) r = (Inl e, r)))"
proof (cases "get_binding (pp_source_id p) r")
  case (Inl e)
  then have "assert_publishable parse p (r\<lparr>rp_in_tx := True\<rparr>) = Inl e"
    using assms(2) by (simp add: assert_publishable_def get_binding_def)
  then show ?thesis using Inl by (simp add: transaction_def publish_success_def require_transaction_def)
next
  case (Inr b)
  let ?r = "r\<lparr>rp_in_tx := True\<rparr>"
  have g: "get_candidate i ?r = get_candidate i r" for i by (simp add: get_candidate_def)
  have "still_frozen parse p ?r = still_frozen parse p r"
    by (rule ext) (unfold still_frozen_def g, rule refl)
  moreover have "get_binding (pp_source_id p) ?r = Inr b" using Inr by (simp add: get_binding_def)
  ultimately have reads: "get_binding (pp_source_id p) ?r = Inr b"
    "still_frozen parse p ?r = still_frozen parse p r" by simp_all
  show ?thesis
  proof (cases "still_frozen parse p r b")
    case False
    then obtain e where e: "assert_publishable parse p ?r = Inl e"
      using assert_publishable_iff [of parse p ?r] reads by (cases "assert_publishable parse p ?r") auto
    then show ?thesis
      using Inr False by (simp add: transaction_def publish_success_def require_transaction_def)
  next
    case True
    obtain u where u: "assert_publishable parse p ?r = Inr u"
      using assert_publishable_iff [of parse p ?r] reads True assms(2) by auto
    let ?P = "\<lambda>x. b_workspace_id x = rp_workspace_id r \<and> b_source_id x = pp_source_id p
        \<and> b_version x = pp_binding_version p \<and> b_target_fingerprint x = pp_target_fingerprint p"
    from Inr have b: "b \<in> set (ad_bindings (rp_db r))" "b_workspace_id b = rp_workspace_id r"
      "b_source_id b = pp_source_id p" by (auto simp: get_binding_def find_Some_iff split: option.splits)
    have P: "x \<in> set (ad_bindings (rp_db r)) \<Longrightarrow> ?P x \<longleftrightarrow> x = b" for x
      using assms(1) b True by (auto simp: bindings_ok_def distinct_map inj_on_def still_frozen_def)
    have "filter ?P (ad_bindings (rp_db r)) = filter (\<lambda>x. x = b) (ad_bindings (rp_db r))"
      by (rule filter_cong [OF refl]) (use P in blast)
    moreover have "distinct (ad_bindings (rp_db r))" using assms(1) by (simp add: bindings_ok_def distinct_map)
    ultimately have n: "row_count ?P (ad_bindings (rp_db r)) = 1"
      using b(1) by (simp add: row_count_def distinct_length_filter Collect_conv_if)
    have rows: "update_where ?P (published now p latest hash) (ad_bindings (rp_db r))
        = map (\<lambda>x. if x = b then published now p latest hash b else x) (ad_bindings (rp_db r))"
      unfolding update_where_def by (rule map_cong [OF refl]) (use P in auto)
    have lkg: "on_route (rp_db r) b (b_last_known_good (published now p latest hash b))"
    proof (cases "pp_candidate_id p")
      case None
      then show ?thesis using assms(1) b(1) by (simp add: bindings_ok_def published_def)
    next
      case (Some i)
      then obtain c where c: "get_candidate i r = Inr c" "ca_route_id c = pp_route_id p"
        using True by (auto simp: still_frozen_def split: sum.splits)
      then show ?thesis using find_candidate [OF c(1)] Some b(2) True
        by (auto simp: on_route_def published_def still_frozen_def intro!: bexI [of _ c])
    qed
    have same: "on_route d (published now p latest hash b) = on_route d b"
      "b_preferred_candidate_id (published now p latest hash b) = b_preferred_candidate_id b"
      "b_version (published now p latest hash b) = b_version b" for d
      by (rule ext, simp add: on_route_def published_def split: option.split)
        (simp_all add: published_def)
    have "\<forall>x \<in> set (ad_bindings (rp_db r)). ?P x \<longrightarrow>
        on_route (rp_db r) (published now p latest hash x) (b_preferred_candidate_id (published now p latest hash x))
        \<and> on_route (rp_db r) (published now p latest hash x) (b_last_known_good (published now p latest hash x))
        \<and> b_version x \<le> b_version (published now p latest hash x)"
      using P lkg same assms(1) b(1) unfolding bindings_ok_def by (metis order_refl)
    then have "update_bindings ?P (published now p latest hash) (rp_db r)
        = Inr (1, (rp_db r)\<lparr>ad_bindings :=
            map (\<lambda>x. if x = b then published now p latest hash b else x) (ad_bindings (rp_db r))\<rparr>)"
      unfolding update_bindings_def n rows by (rule if_P)
    then show ?thesis
      using Inr True u by (simp add: transaction_def publish_success_def require_transaction_def)
  qed
qed


subsection \<open>At concrete values\<close>

definition sample_parse :: manifest_parser where
  "sample_parse m = Some (m, ''1'', replicate 64 (CHR ''a''))"

definition standby_b :: candidate where "standby_b = sample_candidate ''b'' StandbyRole (Some 1)"
definition active_a :: candidate where "active_a = sample_candidate ''a'' ActiveRole (Some 0)"
definition sample_route :: route where "sample_route = hd (ad_routes (rp_db sample_actors))"

lemma inr_of: "isl x = False \<Longrightarrow> \<exists>v. x = Inr v"
  by (cases x) auto

lemma sample_promotion_ok:
  "table_ok (ad_candidates (rp_db sample_actors))" "distinct (map r_id (ad_routes (rp_db sample_actors)))"
  "get_route ''r'' sample_actors = Inr sample_route" "get_candidate ''b'' sample_actors = Inr standby_b"
  "active_of (list_route_candidates ''r'' sample_actors) = Some active_a"
  "eligible_standby sample_parse ''r'' (ca_generation standby_b) standby_b"
  "candidate_is_runnable sample_parse active_a"
  "ca_role standby_b = StandbyRole" "ca_priority active_a = Some 0"
  by code_simp+

lemma promotion_switches_the_active_candidate_witness:
  "\<exists>r'. transaction (promote_standby_candidate sample_parse 5 ''r'' ''b'' (r_generation sample_route)
      (ca_generation standby_b)) sample_actors = (Inr (), r')"
  using promotion_switches_the_active_candidate [OF sample_promotion_ok(1-7), of 5] by blast

lemma promotion_can_be_undone_witness:
  "\<exists>r1 r2 down. get_candidate ''a'' r1 = Inr down
    \<and> transaction (promote_standby_candidate sample_parse 9 ''r'' ''a'' (r_generation sample_route + 1)
        (ca_generation down)) r1 = (Inr (), r2)"
proof -
  have "isl (fst (transaction (promote_standby_candidate sample_parse 5 ''r'' ''b'' (r_generation sample_route)
      (ca_generation standby_b)) sample_actors)) = False" by code_simp
  then obtain r1 where r1: "transaction (promote_standby_candidate sample_parse 5 ''r'' ''b''
      (r_generation sample_route) (ca_generation standby_b)) sample_actors = (Inr (), r1)"
    using any_unit by blast
  have "ca_id active_a = ''a''" by code_simp
  with promotion_can_be_undone [OF sample_promotion_ok r1, of 9] show ?thesis by auto
qed

lemma frozen_order_is_sound_witness:
  "\<exists>es. freeze_execution sample_parse ''r'' ''s'' ''fp'' sample_actors = Inr es
    \<and> distinct (map ca_id (es_candidates es))"
proof -
  have "isl (freeze_execution sample_parse ''r'' ''s'' ''fp'' sample_actors) = False" by code_simp
  then obtain es where es: "freeze_execution sample_parse ''r'' ''s'' ''fp'' sample_actors = Inr es"
    using inr_of by blast
  have "distinct (map ca_id (ad_candidates (rp_db sample_actors)))" by code_simp
  from frozen_order_is_sound [OF es this] es show ?thesis by blast
qed

definition sample_proof :: publication_proof where
  "sample_proof =
     \<lparr>pp_workspace_id = ''w'', pp_route_id = ''r'', pp_source_id = ''s'', pp_target_fingerprint = ''fp'',
      pp_binding_version = 1, pp_candidate_id = Some ''a'', pp_candidate_generation = Some 1\<rparr>"

lemma publication_needs_the_frozen_binding_witness:
  "\<exists>r'. transaction (publish_success sample_parse 5 sample_proof ''t'' ''h'') sample_actors = (Inr (), r')"
proof -
  have b: "get_binding (pp_source_id sample_proof) sample_actors = Inr sample_binding"
    "still_frozen sample_parse sample_proof sample_actors sample_binding" by code_simp+
  have "bindings_ok (rp_db sample_actors)" by code_simp
  moreover have "pp_workspace_id sample_proof = rp_workspace_id sample_actors" by code_simp
  ultimately show ?thesis
    using publication_needs_the_frozen_binding [of sample_actors sample_proof sample_parse 5 "''t''" "''h''"]
    by (simp add: b)
qed

end
