(* ===== verification/SourceCircuit.thy ===== *)
theory SourceCircuit
  imports ActorRoutes
begin

section \<open>ActorOps: the circuit that keeps a failing candidate away from a source\<close>

text \<open>
  \<open>source_candidate_circuit.py\<close> and the writing half of \<open>repository_freshness.py\<close> under
  \<open>src/src/services/actorops\<close>.  A paid failure opens the circuit of a source, candidate and binding
  version for 6, 12, then 24 hours; when the pause is over one job at a time may try (half open),
  under a lease of 15 minutes; a success closes it.  The SHA-256 of the joined token text is the
  argument \<open>digest\<close>; the clock is read once per operation.  The planner, which also ranks
  candidates by evidence of other tables, is not modelled.
\<close>

definition HALF_OPEN_LEASE_MINUTES :: int where
  "HALF_OPEN_LEASE_MINUTES = 15"

definition BACKOFF_HOURS :: "int list" where
  "BACKOFF_HOURS = [6, 12, 24]"

definition hours :: "int \<Rightarrow> time" where
  "hours n = seconds (3600 * n)"

subsection \<open>Rows\<close>

definition circuit_of :: "string \<Rightarrow> binding \<Rightarrow> string \<Rightarrow> freshness \<Rightarrow> bool" where
  "circuit_of w b cid f \<longleftrightarrow>
     fr_workspace_id f = w \<and> fr_source_id f = b_source_id b \<and> fr_candidate_id f = cid
     \<and> fr_binding_version f = b_version b"

definition circuit_row :: "binding \<Rightarrow> string \<Rightarrow> repository \<Rightarrow> freshness option" where
  "circuit_row b cid r = find (circuit_of (rp_workspace_id r) b cid) (ad_freshness (rp_db r))"

definition update_freshness ::
  "(freshness \<Rightarrow> bool) \<Rightarrow> (freshness \<Rightarrow> freshness) \<Rightarrow> repository \<Rightarrow> repository" where
  "update_freshness P f r =
     r\<lparr>rp_db := (rp_db r)\<lparr>ad_freshness := update_where P f (ad_freshness (rp_db r))\<rparr>\<rparr>"

text \<open>INSERT with ON CONFLICT DO UPDATE: a new row refers to a binding and a candidate.\<close>

definition freshness_row_ok :: "freshness \<Rightarrow> actor_db \<Rightarrow> bool" where
  "freshness_row_ok f d \<longleftrightarrow>
     1 \<le> fr_binding_version f \<and> 0 \<le> fr_no_advance f \<and> 0 \<le> fr_failure_streak f
     \<and> list_ex (\<lambda>b. b_workspace_id b = fr_workspace_id f \<and> b_source_id b = fr_source_id f) (ad_bindings d)
     \<and> list_ex (\<lambda>c. ca_workspace_id c = fr_workspace_id f \<and> ca_id c = fr_candidate_id f) (ad_candidates d)"

definition upsert_freshness ::
  "freshness \<Rightarrow> (freshness \<Rightarrow> freshness) \<Rightarrow> binding \<Rightarrow> string \<Rightarrow> repository \<Rightarrow> (repository, unit) outcome" where
  "upsert_freshness new change b cid r =
     (if \<not> freshness_row_ok new (rp_db r) then Raise IntegrityError r
      else case circuit_row b cid r of
        None \<Rightarrow> Return () (r\<lparr>rp_db := (rp_db r)\<lparr>ad_freshness := ad_freshness (rp_db r) @ [new]\<rparr>\<rparr>)
      | Some _ \<Rightarrow> Return () (update_freshness (circuit_of (rp_workspace_id r) b cid) change r))"

subsection \<open>May a job try the candidate?\<close>

definition separator :: string where
  "separator = [char_of (31 :: nat)]"

definition lease_token ::
  "(string \<Rightarrow> string) \<Rightarrow> string \<Rightarrow> binding \<Rightarrow> string \<Rightarrow> string \<Rightarrow> string" where
  "lease_token digest w b cid job =
     digest (w @ separator @ b_source_id b @ separator @ cid @ separator @ show_int (b_version b)
             @ separator @ job)"

definition lease_free :: "time \<Rightarrow> string \<Rightarrow> freshness \<Rightarrow> bool" where
  "lease_free now token f \<longleftrightarrow>
     (case fr_cooldown_until f of None \<Rightarrow> False | Some t \<Rightarrow> t \<le> now)
     \<and> (fr_half_open_until f = None
        \<or> (case fr_half_open_until f of None \<Rightarrow> False | Some t \<Rightarrow> t \<le> now)
        \<or> fr_half_open_token f = Some token)"

definition leased :: "time \<Rightarrow> string \<Rightarrow> freshness \<Rightarrow> freshness" where
  "leased now token f =
     f\<lparr>fr_half_open_until := Some (now + minutes HALF_OPEN_LEASE_MINUTES),
       fr_half_open_token := Some token, fr_updated_at := now\<rparr>"

definition available ::
  "(string \<Rightarrow> string) \<Rightarrow> time \<Rightarrow> binding \<Rightarrow> string \<Rightarrow> string \<Rightarrow> repository \<Rightarrow> bool \<times> repository" where
  "available digest now b cid job r =
     (case circuit_row b cid r of
        None \<Rightarrow> (True, r)
      | Some f \<Rightarrow>
         if fr_state f \<noteq> SourceStale then (True, r)
         else case fr_cooldown_until f of
           None \<Rightarrow> (True, r)
         | Some t \<Rightarrow>
            if now < t then (False, r)
            else (let token = lease_token digest (rp_workspace_id r) b cid job;
                      P = (\<lambda>f. circuit_of (rp_workspace_id r) b cid f \<and> lease_free now token f)
                  in (row_count P (ad_freshness (rp_db r)) = 1, update_freshness P (leased now token) r)))"

text \<open>Paid work of another job that is not settled.\<close>

definition circuit_blocking_code :: "binding \<Rightarrow> string \<Rightarrow> repository \<Rightarrow> string option" where
  "circuit_blocking_code b job r =
     blocking_code_of (first_by settlement_order
       (\<lambda>a. unsettled_fetch (rp_workspace_id r) (b_route_id b) (b_source_id b) a
          \<and> at_logical_job_id a \<noteq> None \<and> at_logical_job_id a \<noteq> Some job) (ad_attempts (rp_db r)))"

subsection \<open>Recording failures and successes\<close>

definition is_alnum :: "char \<Rightarrow> bool" where
  "is_alnum c \<longleftrightarrow> (let n = (of_char c :: nat) in
     48 \<le> n \<and> n \<le> 57 \<or> 65 \<le> n \<and> n \<le> 90 \<or> 97 \<le> n \<and> n \<le> 122)"

definition safe_job_id :: "string \<Rightarrow> string option" where
  "safe_job_id v =
     (if 1 \<le> length v \<and> length v \<le> 128 \<and> list_all (\<lambda>c. is_alnum c \<or> c \<in> set ''_.:-'') v
      then Some v else None)"

definition new_freshness :: "string \<Rightarrow> binding \<Rightarrow> string \<Rightarrow> time \<Rightarrow> freshness" where
  "new_freshness w b cid now =
     \<lparr>fr_workspace_id = w, fr_source_id = b_source_id b, fr_candidate_id = cid,
      fr_binding_version = b_version b, fr_no_advance = 0, fr_state = Neutral,
      fr_cooldown_until = None, fr_last_outcome = None, fr_last_job_id = None,
      fr_last_checked_at = None, fr_last_confirmed_at = None, fr_failure_streak = 0,
      fr_cooldown_reason = None, fr_half_open_until = None, fr_half_open_token = None,
      fr_created_at = now, fr_updated_at = now\<rparr>"

definition backoff :: "int \<Rightarrow> time" where
  "backoff streak = hours (BACKOFF_HOURS ! nat (min (streak - 1) (int (length BACKOFF_HOURS) - 1)))"

definition opened :: "time \<Rightarrow> int \<Rightarrow> string \<Rightarrow> string option \<Rightarrow> freshness \<Rightarrow> freshness" where
  "opened now streak outcome job f =
     f\<lparr>fr_no_advance := 0, fr_state := SourceStale, fr_cooldown_until := Some (now + backoff streak),
       fr_last_outcome := Some outcome, fr_last_job_id := job, fr_last_checked_at := Some now,
       fr_last_confirmed_at := Some now, fr_failure_streak := streak,
       fr_cooldown_reason := Some outcome, fr_half_open_until := None, fr_half_open_token := None,
       fr_updated_at := now\<rparr>"

definition next_streak :: "freshness option \<Rightarrow> int" where
  "next_streak row = (case row of None \<Rightarrow> 1 | Some f \<Rightarrow> fr_failure_streak f + 1)"

definition record_failure_in_transaction ::
  "time \<Rightarrow> binding \<Rightarrow> string \<Rightarrow> string \<Rightarrow> string \<Rightarrow> repository \<Rightarrow> (repository, unit) outcome" where
  "record_failure_in_transaction now b cid outcome job r =
     require_transaction r
       (let job_id = safe_job_id job; row = circuit_row b cid r
        in if job_id \<noteq> None \<and> row \<noteq> None \<and> or_empty (Option.bind row fr_last_job_id) = or_empty job_id
           then Return () r
           else (let change = opened now (next_streak row) outcome job_id
                 in upsert_freshness (change (new_freshness (rp_workspace_id r) b cid now)) change b cid r))"

definition record_failure ::
  "time \<Rightarrow> binding \<Rightarrow> string \<Rightarrow> string \<Rightarrow> string \<Rightarrow> repository \<Rightarrow> (repository, unit) outcome" where
  "record_failure now b cid outcome job = transaction (record_failure_in_transaction now b cid outcome job)"

definition closed :: "time \<Rightarrow> string option \<Rightarrow> freshness \<Rightarrow> freshness" where
  "closed now job f =
     f\<lparr>fr_state := Neutral, fr_cooldown_until := None, fr_failure_streak := 0,
       fr_cooldown_reason := None, fr_half_open_until := None, fr_half_open_token := None,
       fr_last_outcome := Some ''execution_success'', fr_last_job_id := job,
       fr_last_checked_at := Some now, fr_updated_at := now\<rparr>"

definition record_success ::
  "time \<Rightarrow> binding \<Rightarrow> string \<Rightarrow> string \<Rightarrow> repository \<Rightarrow> repository" where
  "record_success now b cid job r =
     update_freshness (circuit_of (rp_workspace_id r) b cid) (closed now (safe_job_id job)) r"

subsection \<open>What a settled attempt says about its circuit\<close>

text \<open>\<open>candidate_failure_settlement.py\<close>.\<close>

definition counts_against_candidate :: "attempt \<Rightarrow> bool" where
  "counts_against_candidate a \<longleftrightarrow>
     at_kind a = FetchAttempt \<and> at_status a = FailedAttempt \<and> at_failure_class a = Some CandidateFailure
     \<and> at_cost_final a \<and> (case at_actual_cost_usd a of None \<Rightarrow> False | Some x \<Rightarrow> 0 < x)
     \<and> truthy (or_empty (at_source_id a)) \<and> at_binding_version a \<noteq> None"

definition record_settled_candidate_failure ::
  "time \<Rightarrow> string \<Rightarrow> string \<Rightarrow> repository \<Rightarrow> (repository, bool) outcome" where
  "record_settled_candidate_failure now aid outcome r =
     require_transaction r
       (if outcome \<notin> {''paid_candidate_failure'', ''stale_regression''}
        then Raise (ValueError ''unsupported candidate failure circuit outcome'') r
        else case get_attempt aid r of
          Inl e \<Rightarrow> Raise e r
        | Inr a \<Rightarrow>
           if \<not> counts_against_candidate a then Return False r
           else (case get_binding (or_empty (at_source_id a)) r of
              Inl _ \<Rightarrow> Return False r
            | Inr b \<Rightarrow>
               if Some (b_version b) \<noteq> at_binding_version a \<or> b_route_id b \<noteq> at_route_id a
               then Return False r
               else (case record_failure_in_transaction now b (at_candidate_id a) outcome
                            (or_empty (at_logical_job_id a)) r of
                       (Inl e, r') \<Rightarrow> Raise e r'
                     | (Inr _, r') \<Rightarrow> Return True r')))"

subsection \<open>Freshness of regular results and cross checks\<close>

definition safe_id :: "string \<Rightarrow> string option" where
  "safe_id v =
     (if 1 \<le> length v \<and> length v \<le> 128 \<and> list_all (\<lambda>c. is_alnum c \<or> c \<in> set ''_.:-'') v
      then Some v else None)"

definition observed ::
  "time \<Rightarrow> int \<Rightarrow> freshness_state \<Rightarrow> string \<Rightarrow> string \<Rightarrow> bool \<Rightarrow> freshness \<Rightarrow> freshness" where
  "observed now count state outcome job confirmed f =
     f\<lparr>fr_no_advance := count, fr_state := state, fr_cooldown_until := None,
       fr_last_outcome := Some outcome, fr_last_job_id := safe_id job, fr_last_checked_at := Some now,
       fr_last_confirmed_at := (if confirmed then Some now else fr_last_confirmed_at f),
       fr_updated_at := now\<rparr>"

definition record_freshness ::
  "time \<Rightarrow> binding \<Rightarrow> string \<Rightarrow> int \<Rightarrow> freshness_state \<Rightarrow> string \<Rightarrow> string \<Rightarrow> bool \<Rightarrow> repository
   \<Rightarrow> (repository, unit) outcome" where
  "record_freshness now b cid count state outcome job confirmed =
     transaction (\<lambda>r. let change = observed now count state outcome job confirmed
       in upsert_freshness (change (new_freshness (rp_workspace_id r) b cid now)) change b cid r)"

definition record_regular_result ::
  "time \<Rightarrow> binding \<Rightarrow> string \<Rightarrow> string \<Rightarrow> string \<Rightarrow> bool \<Rightarrow> repository \<Rightarrow> (repository, unit) outcome" where
  "record_regular_result now b cid outcome job natural r =
     (let r1 = record_success now b cid job r
      in if \<not> natural then Return () r1
         else if outcome = ''no_advance'' then
           (let n = (case circuit_row b cid r1 of None \<Rightarrow> 1 | Some f \<Rightarrow> fr_no_advance f + 1)
            in record_freshness now b cid n (if 3 \<le> n then SuspectedStale else Neutral) outcome job False r1)
         else if outcome = ''advanced'' then record_freshness now b cid 0 Neutral outcome job False r1
         else Return () r1)"

definition stale_sources :: "time \<Rightarrow> string \<Rightarrow> repository \<Rightarrow> string list" where
  "stale_sources now cid r =
     remdups (map fr_source_id (filter (\<lambda>f. fr_workspace_id f = rp_workspace_id r
       \<and> fr_candidate_id f = cid \<and> fr_state f = SourceStale
       \<and> or_empty (fr_last_outcome f) \<in> {''stale_regression'', ''cross_check_advanced''}
       \<and> (case fr_last_confirmed_at f of None \<Rightarrow> False | Some t \<Rightarrow> now - hours 24 \<le> t))
       (ad_freshness (rp_db r))))"

definition maybe_globally_demote :: "time \<Rightarrow> string \<Rightarrow> repository \<Rightarrow> (repository, unit) outcome" where
  "maybe_globally_demote now cid r =
     (case get_candidate cid r of
        Inl e \<Rightarrow> Raise e r
      | Inr c \<Rightarrow>
         if length (stale_sources now cid r) < 2
            \<or> length (filter (\<lambda>x. ca_role x \<noteq> InactiveRole) (list_route_candidates (ca_route_id c) r)) < 2
            \<or> ca_lifecycle c \<notin> {Probationary, Certified}
         then Return () r
         else (case transaction (transition_candidate now cid (ca_lifecycle c) Quarantined (ca_generation c)
                    (Some CandidateFailure) (Some ''actorops_v2_stale_global_threshold'')) r of
                 (Inl (ActorOpsConflict m), r') \<Rightarrow> Return () r'
               | (Inl e, r') \<Rightarrow> Raise e r'
               | (Inr _, r') \<Rightarrow> Return () r'))"

definition record_stale_regression ::
  "time \<Rightarrow> binding \<Rightarrow> string \<Rightarrow> string \<Rightarrow> repository \<Rightarrow> (repository, unit) outcome" where
  "record_stale_regression now b cid job r =
     and_then (record_failure now b cid ''stale_regression'' job r) (maybe_globally_demote now cid)"

definition prefer_candidate ::
  "time \<Rightarrow> binding \<Rightarrow> string \<Rightarrow> repository \<Rightarrow> (repository, unit) outcome" where
  "prefer_candidate now b cid =
     transaction (\<lambda>r. case update_bindings
         (\<lambda>x. b_workspace_id x = rp_workspace_id r \<and> b_source_id x = b_source_id b \<and> b_version x = b_version b)
         (\<lambda>x. x\<lparr>b_preferred_candidate_id := Some cid\<rparr>) (rp_db r) of
        Inl e \<Rightarrow> Raise e r
      | Inr (n, d) \<Rightarrow>
          if n \<noteq> 1 then Raise (ActorOpsConflict ''binding changed before freshness preference'') (r\<lparr>rp_db := d\<rparr>)
          else Return () (r\<lparr>rp_db := d\<rparr>))"

fun then_value :: "(repository, unit) outcome \<Rightarrow> 'a \<Rightarrow> (repository, 'a) outcome" where
  "then_value (Inl e, r) v = Raise e r"
| "then_value (Inr _, r) v = Return v r"

definition record_cross_check ::
  "time \<Rightarrow> binding \<Rightarrow> string \<Rightarrow> string \<Rightarrow> string \<Rightarrow> string \<Rightarrow> repository \<Rightarrow> (repository, string) outcome" where
  "record_cross_check now b primary cid outcome job r =
     (let r1 = (if outcome \<in> {''no_advance'', ''advanced''} then record_success now b cid job r else r)
      in if outcome = ''no_advance'' then
           then_value
             (and_then (record_freshness now b primary 0 ConfirmedNoChange outcome job True r1)
                (record_freshness now b cid 0 ConfirmedNoChange outcome job True))
             ''confirmed_no_change''
         else if outcome \<noteq> ''advanced'' then Return ''unverified'' r1
         else then_value
             (and_then (record_failure now b primary ''cross_check_advanced'' job r1) (\<lambda>r.
              and_then (record_freshness now b cid 0 Neutral outcome job False r) (\<lambda>r.
              and_then (prefer_candidate now b cid r) (maybe_globally_demote now primary))))
             ''source_stale'')"


subsection \<open>The row of a circuit\<close>

lemma find_update_where:
  "(\<And>x. Q (g x) = Q x) \<Longrightarrow>
   find Q (update_where P g rows) = map_option (\<lambda>x. if P x then g x else x) (find Q rows)"
  by (induction rows) auto

lemma find_append_new: "find Q rows = None \<Longrightarrow> Q x \<Longrightarrow> find Q (rows @ [x]) = Some x"
  by (induction rows) (auto split: if_splits)

lemma circuit_of_simps [simp]:
  "circuit_of w b cid (leased now token f) = circuit_of w b cid f"
  "circuit_of w b cid (opened now n outcome job f) = circuit_of w b cid f"
  "circuit_of w b cid (closed now job f) = circuit_of w b cid f"
  "circuit_of w b cid (new_freshness w b cid now)"
  by (simp_all add: circuit_of_def leased_def opened_def closed_def new_freshness_def)

lemma circuit_row_update:
  assumes "\<And>f. circuit_of (rp_workspace_id r) b cid (g f) = circuit_of (rp_workspace_id r) b cid f"
  shows "circuit_row b cid (update_freshness P g r)
    = map_option (\<lambda>f. if P f then g f else f) (circuit_row b cid r)"
  using find_update_where [of "circuit_of (rp_workspace_id r) b cid" g, OF assms]
  by (simp add: circuit_row_def update_freshness_def)

lemma circuit_row_SomeD:
  "circuit_row b cid r = Some f \<Longrightarrow>
   f \<in> set (ad_freshness (rp_db r)) \<and> circuit_of (rp_workspace_id r) b cid f"
  by (auto simp: circuit_row_def find_Some_iff)

definition circuits_unique :: "repository \<Rightarrow> bool" where
  "circuits_unique r \<longleftrightarrow>
     distinct (map (\<lambda>f. (fr_workspace_id f, fr_source_id f, fr_candidate_id f, fr_binding_version f))
       (ad_freshness (rp_db r)))"

lemma circuit_unique:
  assumes "circuits_unique r" "circuit_row b cid r = Some f" "g \<in> set (ad_freshness (rp_db r))"
    and "circuit_of (rp_workspace_id r) b cid g"
  shows "g = f"
  using assms circuit_row_SomeD [OF assms(2)]
  by (auto simp: circuits_unique_def distinct_map inj_on_def circuit_of_def)

lemma update_freshness_none:
  "(\<And>f. f \<in> set (ad_freshness (rp_db r)) \<Longrightarrow> \<not> P f) \<Longrightarrow> update_freshness P g r = r"
  by (simp add: update_freshness_def update_where_none)

subsection \<open>One job at a time\<close>

text \<open>C26: While a circuit is half open at most one job tries the candidate: after a job got the
  lease, every job with another token is turned away, and changes nothing, until the lease is over.\<close>

theorem half_open_admits_one_job:
  assumes "circuits_unique r" "circuit_row b cid r = Some f"
    and "fr_state f = SourceStale" "fr_cooldown_until f = Some t"
    and "available digest now b cid job r = (True, r1)"
    and "lease_token digest (rp_workspace_id r) b cid job' \<noteq> lease_token digest (rp_workspace_id r) b cid job"
    and "now \<le> later" "later < now + minutes HALF_OPEN_LEASE_MINUTES"
  shows "available digest later b cid job' r1 = (False, r1)"
proof -
  let ?tok = "\<lambda>j. lease_token digest (rp_workspace_id r) b cid j"
  let ?P = "\<lambda>j t f. circuit_of (rp_workspace_id r) b cid f \<and> lease_free t (?tok j) f"
  have open': "t \<le> now" using assms(2-5) by (auto simp: available_def split: if_splits)
  then have n: "row_count (?P job now) (ad_freshness (rp_db r)) = 1"
    and r1: "r1 = update_freshness (?P job now) (leased now (?tok job)) r"
    using assms(2-5) by (simp_all add: available_def Let_def)
  have "0 < row_count (?P job now) (ad_freshness (rp_db r))" using n by simp
  then obtain g where g: "g \<in> set (ad_freshness (rp_db r))" "?P job now g"
    unfolding row_count_pos_iff by blast
  then have "g = f" using circuit_unique [OF assms(1,2)] by blast
  with g have Pf: "?P job now f" by simp
  have row1: "circuit_row b cid r1 = Some (leased now (?tok job) f)"
    using circuit_row_update [of r b cid "leased now (?tok job)" "?P job now"] assms(2) Pf by (simp add: r1)
  have w: "rp_workspace_id r1 = rp_workspace_id r" by (simp add: r1 update_freshness_def)
  have none: "\<not> ?P job' later h" if h: "h \<in> set (ad_freshness (rp_db r1))" for h
  proof
    assume P: "?P job' later h"
    from h have "h \<in> leased now (?tok job) ` {x \<in> set (ad_freshness (rp_db r)). ?P job now x}
        \<union> {x \<in> set (ad_freshness (rp_db r)). \<not> ?P job now x}"
      by (simp add: r1 update_freshness_def set_update_where)
    moreover have "x = f" if "x \<in> set (ad_freshness (rp_db r))" "circuit_of (rp_workspace_id r) b cid x" for x
      using circuit_unique [OF assms(1,2)] that by blast
    ultimately have "h = leased now (?tok job) f" using P Pf by auto
    with P show False using assms(6,8) by (simp add: lease_free_def leased_def split: option.splits)
  qed
  have s: "fr_state (leased now (?tok job) f) = SourceStale"
    "fr_cooldown_until (leased now (?tok job) f) = Some t" using assms(3,4) by (simp_all add: leased_def)
  have "row_count (?P job' later) (ad_freshness (rp_db r1)) = 0" using none by (simp add: row_count_0_iff)
  moreover have "update_freshness (?P job' later) (leased later (?tok job')) r1 = r1"
    by (rule update_freshness_none) (use none in blast)
  ultimately show ?thesis
    using open' assms(7) by (simp add: available_def row1 s w)
qed

subsection \<open>Pauses\<close>

lemma backoff_bounds: "1 \<le> n \<Longrightarrow> backoff n = hours (if n = 1 then 6 else if n = 2 then 12 else 24)"
proof -
  assume "1 \<le> n"
  then consider "n = 1" | "n = 2" | "3 \<le> n" by linarith
  then show ?thesis by cases (simp_all add: backoff_def BACKOFF_HOURS_def min_def)
qed

lemma record_failure_Inr:
  assumes "record_failure now b cid outcome job r = (Inr u, r1)"
    and "safe_job_id job = None \<or> Option.bind (circuit_row b cid r) fr_last_job_id \<noteq> Some job"
  shows "\<exists>f. circuit_row b cid r1 = Some (opened now (next_streak (circuit_row b cid r)) outcome (safe_job_id job) f)"
proof -
  let ?r = "r\<lparr>rp_in_tx := True\<rparr>"
  let ?n = "next_streak (circuit_row b cid r)"
  let ?c = "opened now ?n outcome (safe_job_id job)"
  have row: "circuit_row b cid ?r = circuit_row b cid r" by (simp add: circuit_row_def)
  have fresh: "\<not> (safe_job_id job \<noteq> None \<and> circuit_row b cid r \<noteq> None
      \<and> or_empty (Option.bind (circuit_row b cid r) fr_last_job_id) = or_empty (safe_job_id job))"
    using assms(2) by (cases "Option.bind (circuit_row b cid r) fr_last_job_id")
      (auto simp: safe_job_id_def split: if_splits)
  have "record_failure_in_transaction now b cid outcome job ?r
      = upsert_freshness (?c (new_freshness (rp_workspace_id r) b cid now)) ?c b cid ?r"
    using fresh by (auto simp: record_failure_in_transaction_def require_transaction_def row Let_def)
  moreover obtain r2 where "record_failure_in_transaction now b cid outcome job ?r = (Inr u, r2)"
    and r1: "r1 = r2\<lparr>rp_in_tx := rp_in_tx r\<rparr>"
    by (rule transaction_Inr [OF assms(1) [unfolded record_failure_def]])
  ultimately have r2: "upsert_freshness (?c (new_freshness (rp_workspace_id r) b cid now)) ?c b cid ?r = (Inr u, r2)"
    by simp
  show ?thesis
  proof (cases "circuit_row b cid r")
    case None
    then have "r2 = ?r\<lparr>rp_db := (rp_db r)\<lparr>ad_freshness := ad_freshness (rp_db r)
        @ [?c (new_freshness (rp_workspace_id r) b cid now)]\<rparr>\<rparr>"
      using r2 row by (auto simp: upsert_freshness_def split: if_splits)
    then have "circuit_row b cid r1 = Some (?c (new_freshness (rp_workspace_id r) b cid now))"
      using None find_append_new [of "circuit_of (rp_workspace_id r) b cid"] by (simp add: circuit_row_def r1)
    then show ?thesis by blast
  next
    case (Some f)
    then have "r2 = update_freshness (circuit_of (rp_workspace_id r) b cid) ?c ?r"
      using r2 row by (auto simp: upsert_freshness_def split: if_splits)
    then have "circuit_row b cid r2 = Some (?c f)"
      using circuit_row_update [of ?r b cid ?c "circuit_of (rp_workspace_id r) b cid"] row Some
        circuit_row_SomeD [OF Some] by simp
    then show ?thesis by (auto simp: r1 circuit_row_def)
  qed
qed

text \<open>A binding and a candidate that exist: then a failure of another job than the last one is recorded.\<close>

definition circuit_refs :: "binding \<Rightarrow> string \<Rightarrow> repository \<Rightarrow> bool" where
  "circuit_refs b cid r \<longleftrightarrow> freshness_row_ok (new_freshness (rp_workspace_id r) b cid 0) (rp_db r)"

lemma opened_row_ok:
  "freshness_row_ok (opened now n outcome job (new_freshness (rp_workspace_id r) b cid t)) (rp_db r)
    \<longleftrightarrow> circuit_refs b cid r \<and> 0 \<le> n"
  by (auto simp: circuit_refs_def freshness_row_ok_def opened_def new_freshness_def)

lemma record_failure_writes:
  assumes "safe_job_id job = None \<or> Option.bind (circuit_row b cid r) fr_last_job_id \<noteq> Some job"
  shows "isl (fst (record_failure now b cid outcome job r)) \<longleftrightarrow>
      \<not> (circuit_refs b cid r \<and> 0 \<le> next_streak (circuit_row b cid r))"
    and "circuit_refs b cid (snd (record_failure now b cid outcome job r)) \<longleftrightarrow> circuit_refs b cid r"
proof -
  let ?r = "r\<lparr>rp_in_tx := True\<rparr>"
  let ?n = "next_streak (circuit_row b cid r)"
  let ?c = "opened now ?n outcome (safe_job_id job)"
  have row: "circuit_row b cid ?r = circuit_row b cid r" by (simp add: circuit_row_def)
  have refs: "circuit_refs b cid ?r = circuit_refs b cid r" by (simp add: circuit_refs_def)
  have fresh: "\<not> (safe_job_id job \<noteq> None \<and> circuit_row b cid r \<noteq> None
      \<and> or_empty (Option.bind (circuit_row b cid r) fr_last_job_id) = or_empty (safe_job_id job))"
    using assms by (cases "Option.bind (circuit_row b cid r) fr_last_job_id")
      (auto simp: safe_job_id_def split: if_splits)
  have body: "record_failure_in_transaction now b cid outcome job ?r
      = upsert_freshness (?c (new_freshness (rp_workspace_id ?r) b cid now)) ?c b cid ?r"
    using fresh by (auto simp: record_failure_in_transaction_def require_transaction_def row Let_def)
  show "isl (fst (record_failure now b cid outcome job r)) \<longleftrightarrow> \<not> (circuit_refs b cid r \<and> 0 \<le> ?n)"
    unfolding record_failure_def transaction_def body upsert_freshness_def opened_row_ok refs
    by (simp split: option.split)
  show "circuit_refs b cid (snd (record_failure now b cid outcome job r)) \<longleftrightarrow> circuit_refs b cid r"
    unfolding record_failure_def transaction_def body upsert_freshness_def
    by (auto simp: circuit_refs_def update_freshness_def freshness_row_ok_def split: option.split)
qed

lemma record_failure_again:
  assumes "circuit_refs b cid r" "circuit_row b cid r = Some f" "0 \<le> fr_failure_streak f" "fr_last_job_id f \<noteq> Some job"
  shows "\<exists>r1 g. record_failure now b cid outcome job r = (Inr (), r1) \<and> circuit_refs b cid r1
    \<and> circuit_row b cid r1 = Some (opened now (fr_failure_streak f + 1) outcome (safe_job_id job) g)"
proof -
  obtain x r1 where x: "record_failure now b cid outcome job r = (x, r1)" by fastforce
  have fresh: "safe_job_id job = None \<or> Option.bind (circuit_row b cid r) fr_last_job_id \<noteq> Some job" using assms(2,4) by simp
  have streak: "next_streak (circuit_row b cid r) = fr_failure_streak f + 1" using assms(2) by (simp add: next_streak_def)
  have "\<not> isl x" using record_failure_writes(1) [OF fresh, of now outcome] assms(1,3) x streak by simp
  then have r1: "record_failure now b cid outcome job r = (Inr (), r1)" using x by (cases x) simp_all
  moreover have "circuit_refs b cid r1" using record_failure_writes(2) [OF fresh, of now outcome] assms(1) r1 by simp
  ultimately show ?thesis using record_failure_Inr [OF r1 fresh] streak by auto
qed

text \<open>C37: A failure of another job than the last recorded one opens the circuit for 6, 12, then 24 hours:
  until the pause is over no job may try the candidate for the source, and recording the failure of that
  job again changes nothing.  Only the last job is remembered: the failure of a second job counts again,
  and after it that of the first job counts once more.\<close>

theorem failure_opens_the_circuit:
  assumes "record_failure now b cid outcome job r = (Inr u, r1)"
    and "safe_job_id job \<noteq> None" "Option.bind (circuit_row b cid r) fr_last_job_id \<noteq> Some job"
    and "\<And>f. circuit_row b cid r = Some f \<Longrightarrow> 0 \<le> fr_failure_streak f"
    and "n = next_streak (circuit_row b cid r)"
    and "later < now + hours (if n = 1 then 6 else if n = 2 then 12 else 24)" "job2 \<noteq> job"
  shows "available digest later b cid job' r1 = (False, r1)
    \<and> record_failure later b cid outcome' job r1 = (Inr (), r1)
    \<and> next_streak (circuit_row b cid r1) = n + 1
    \<and> (\<exists>r2 r3. record_failure later b cid outcome' job2 r1 = (Inr (), r2) \<and> next_streak (circuit_row b cid r2) = n + 2
         \<and> record_failure later b cid outcome' job r2 = (Inr (), r3) \<and> next_streak (circuit_row b cid r3) = n + 3)"
proof -
  obtain f where f: "circuit_row b cid r1 = Some (opened now n outcome (safe_job_id job) f)"
    using record_failure_Inr [OF assms(1)] assms(2,3,5) by auto
  have n: "1 \<le> n" using assms(4,5) by (auto simp: next_streak_def split: option.splits)
  then have cool: "later < now + backoff n" using backoff_bounds assms(6) by simp
  obtain j where j: "safe_job_id job = Some j" "j = job"
    using assms(2) by (auto simp: safe_job_id_def split: if_splits)
  have "circuit_row b cid (r1\<lparr>rp_in_tx := True\<rparr>) = circuit_row b cid r1" by (simp add: circuit_row_def)
  then have "record_failure later b cid outcome' job r1 = (Inr (), r1)"
    using f j by (simp add: record_failure_def transaction_def record_failure_in_transaction_def
        require_transaction_def opened_def)
  moreover have "available digest later b cid job' r1 = (False, r1)"
    using f cool by (simp add: available_def opened_def)
  moreover have "next_streak (circuit_row b cid r1) = n + 1"
    using f by (simp add: next_streak_def opened_def)
  moreover have "\<exists>r2 r3. record_failure later b cid outcome' job2 r1 = (Inr (), r2) \<and> next_streak (circuit_row b cid r2) = n + 2
         \<and> record_failure later b cid outcome' job r2 = (Inr (), r3) \<and> next_streak (circuit_row b cid r3) = n + 3"
  proof -
    have "circuit_refs b cid r1"
      using record_failure_writes [of job b cid r now outcome] assms(1,3) by simp
    from record_failure_again [OF this f, of job2 later outcome'] n j assms(7) obtain r2 g where
      r2: "record_failure later b cid outcome' job2 r1 = (Inr (), r2)" "circuit_refs b cid r2"
        "circuit_row b cid r2 = Some (opened later (n + 1) outcome' (safe_job_id job2) g)"
      by (auto simp: opened_def)
    have "safe_job_id job2 \<noteq> Some job" using assms(7) by (auto simp: safe_job_id_def)
    with record_failure_again [OF r2(2,3), of job later outcome'] n obtain r3 g' where
      "record_failure later b cid outcome' job r2 = (Inr (), r3)"
        "circuit_row b cid r3 = Some (opened later (2 + n) outcome' (safe_job_id job) g')"
      by (auto simp: opened_def)
    with r2 show ?thesis by (simp add: next_streak_def opened_def)
  qed
  ultimately show ?thesis by blast
qed

text \<open>A success closes the circuit of the source, candidate and binding version: every job may
  try the candidate again at once, and the next failure starts with the shortest pause.\<close>

theorem success_closes_the_circuit:
  "available digest later b cid job' (record_success now b cid job r) = (True, record_success now b cid job r)
   \<and> next_streak (circuit_row b cid (record_success now b cid job r)) = 1"
proof (cases "circuit_row b cid r")
  case None
  then have "circuit_row b cid (record_success now b cid job r) = None"
    using circuit_row_update [of r b cid "closed now (safe_job_id job)"] by (simp add: record_success_def)
  then show ?thesis by (simp add: available_def next_streak_def)
next
  case (Some f)
  then have "circuit_row b cid (record_success now b cid job r) = Some (closed now (safe_job_id job) f)"
    using circuit_row_update [of r b cid "closed now (safe_job_id job)"] circuit_row_SomeD [OF Some]
    by (simp add: record_success_def)
  then show ?thesis by (simp add: available_def next_streak_def closed_def)
qed


subsection \<open>At concrete values\<close>

definition sample_failed :: repository where
  "sample_failed = snd (record_failure 1000 sample_binding ''a'' ''paid_candidate_failure'' ''job'' sample_actors)"

lemma failure_opens_the_circuit_witness:
  "\<exists>r1. record_failure 1000 sample_binding ''a'' ''paid_candidate_failure'' ''job'' sample_actors = (Inr (), r1)
     \<and> available (\<lambda>x. x) 2000 sample_binding ''a'' ''other'' r1 = (False, r1)
     \<and> record_failure 2000 sample_binding ''a'' ''stale_regression'' ''job'' r1 = (Inr (), r1)
     \<and> (\<exists>r2. record_failure 2000 sample_binding ''a'' ''stale_regression'' ''other'' r1 = (Inr (), r2)
          \<and> next_streak (circuit_row sample_binding ''a'' r2) = 3)"
proof -
  let ?x = "record_failure 1000 sample_binding ''a'' ''paid_candidate_failure'' ''job'' sample_actors"
  have "isl (fst ?x) = False" by code_simp
  then obtain r1 where r1: "?x = (Inr (), r1)" using any_unit by blast
  have row: "circuit_row sample_binding ''a'' sample_actors = None" by code_simp
  have job: "safe_job_id ''job'' \<noteq> None" by code_simp
  have "available (\<lambda>x. x) 2000 sample_binding ''a'' ''other'' r1 = (False, r1)
    \<and> record_failure 2000 sample_binding ''a'' ''stale_regression'' ''job'' r1 = (Inr (), r1)
    \<and> next_streak (circuit_row sample_binding ''a'' r1) = 1 + 1
    \<and> (\<exists>r2 r3. record_failure 2000 sample_binding ''a'' ''stale_regression'' ''other'' r1 = (Inr (), r2)
         \<and> next_streak (circuit_row sample_binding ''a'' r2) = 1 + 2
         \<and> record_failure 2000 sample_binding ''a'' ''stale_regression'' ''job'' r2 = (Inr (), r3)
         \<and> next_streak (circuit_row sample_binding ''a'' r3) = 1 + 3)"
    by (rule failure_opens_the_circuit [OF r1 job]) (simp_all add: row next_streak_def hours_def seconds_def)
  then show ?thesis using r1 by auto
qed

lemma half_open_admits_one_job_witness:
  "\<exists>r1. available (\<lambda>x. x) 21600001000 sample_binding ''a'' ''one'' sample_failed = (True, r1)
     \<and> available (\<lambda>x. x) 21600002000 sample_binding ''a'' ''two'' r1 = (False, r1)"
proof -
  let ?x = "available (\<lambda>x. x) 21600001000 sample_binding ''a'' ''one'' sample_failed"
  have "fst ?x = True" by code_simp
  then obtain r1 where r1: "?x = (True, r1)" by (cases ?x) simp
  have "case circuit_row sample_binding ''a'' sample_failed of None \<Rightarrow> False
      | Some f \<Rightarrow> fr_state f = SourceStale \<and> fr_cooldown_until f = Some 21600001000" by code_simp
  then obtain f where f: "circuit_row sample_binding ''a'' sample_failed = Some f" "fr_state f = SourceStale"
    "fr_cooldown_until f = Some 21600001000" by (auto split: option.splits)
  have u: "circuits_unique sample_failed" by code_simp
  have tok: "lease_token (\<lambda>x. x) (rp_workspace_id sample_failed) sample_binding ''a'' ''two''
      \<noteq> lease_token (\<lambda>x. x) (rp_workspace_id sample_failed) sample_binding ''a'' ''one''" by code_simp
  have "21600002000 < 21600001000 + minutes HALF_OPEN_LEASE_MINUTES"
    by (simp add: minutes_def seconds_def HALF_OPEN_LEASE_MINUTES_def)
  from half_open_admits_one_job [OF u f r1 tok _ this] r1 show ?thesis by simp
qed

lemma success_closes_the_circuit_witness:
  "available (\<lambda>x. x) 2000 sample_binding ''a'' ''two'' (record_success 1500 sample_binding ''a'' ''one'' sample_failed)
    = (True, record_success 1500 sample_binding ''a'' ''one'' sample_failed)"
  using success_closes_the_circuit by blast

end
