(* ===== verification/CandidateHealth.thy ===== *)
theory CandidateHealth
  imports SourceCircuit
begin

section \<open>ActorOps: is a candidate failing, and is a route served?\<close>

text \<open>
  \<open>runtime_candidate_health.py\<close> with the reads of \<open>runtime_health_evidence.py\<close>, and
  \<open>route_health\<close> of \<open>repository_candidates.py\<close>: the settled attempts of the last 48 hours and the
  circuits of a candidate classify it; the paths of every ready source classify its route.  The
  tables of execution events and of route repairs are not modelled: what is read from them, the
  sources served by a fallback and the time of the next repair, are arguments.
\<close>

datatype operational_status = NormalState | RecentFailure | ConfirmedFailure

record operational_state =
  os_status :: operational_status
  os_issue :: "string option"
  os_last_success :: "time option"
  os_last_failure :: "time option"
  os_retry_at :: "time option"
  os_stable :: bool
  os_deprioritized :: bool

definition PUBLIC_HARD_FAILURE_CODES :: "string \<Rightarrow> string option" where
  "PUBLIC_HARD_FAILURE_CODES code =
     (if code = ''apify_actor_deleted'' then Some ''actor_deleted''
      else if code = ''apify_actor_build_unavailable'' then Some ''build_unavailable''
      else if code = ''actorops_v2_candidate_contract_invalid'' then Some ''contract_invalid''
      else None)"

definition REPEATED_START_REJECTION_LIMIT :: nat where "REPEATED_START_REJECTION_LIMIT = 2"
definition FLAPPING_MIN_ATTEMPTS :: nat where "FLAPPING_MIN_ATTEMPTS = 5"

subsection \<open>Evidence\<close>

definition attempt_evidence :: "time \<Rightarrow> string \<Rightarrow> repository \<Rightarrow> attempt list" where
  "attempt_evidence now cid r =
     sort_key at_updated_at (filter (\<lambda>a. at_workspace_id a = rp_workspace_id r \<and> at_candidate_id a = cid
       \<and> at_kind a = FetchAttempt \<and> now - hours 48 \<le> at_updated_at a) (ad_attempts (rp_db r)))"

definition candidate_retry_at :: "time \<Rightarrow> string \<Rightarrow> repository \<Rightarrow> time option" where
  "candidate_retry_at now cid r =
     (let ts = List.map_filter fr_cooldown_until
            (filter (\<lambda>f. fr_workspace_id f = rp_workspace_id r \<and> fr_candidate_id f = cid
               \<and> (case fr_cooldown_until f of None \<Rightarrow> False | Some t \<Rightarrow> now < t)) (ad_freshness (rp_db r)))
      in if ts = [] then None else Some (Min (set ts)))"

definition recent :: "time \<Rightarrow> int \<Rightarrow> time \<Rightarrow> bool" where
  "recent now n t \<longleftrightarrow> now - hours n \<le> t \<and> t \<le> now"

definition since_success :: "time option \<Rightarrow> attempt list \<Rightarrow> attempt list" where
  "since_success success as =
     (case success of None \<Rightarrow> as | Some s \<Rightarrow> filter (\<lambda>a. s < at_updated_at a) as)"

definition failure_is_current :: "candidate \<Rightarrow> bool" where
  "failure_is_current c \<longleftrightarrow>
     (case ca_last_failure_at c of
        None \<Rightarrow> False
      | Some f \<Rightarrow> (case ca_last_success_at c of None \<Rightarrow> True | Some s \<Rightarrow> s < f))"

definition hard_issue :: "candidate \<Rightarrow> attempt list \<Rightarrow> string option" where
  "hard_issue c as =
     (let own = PUBLIC_HARD_FAILURE_CODES (or_empty (ca_last_error_code c))
      in if failure_is_current c \<and> own \<noteq> None then own
         else (case find (\<lambda>a. PUBLIC_HARD_FAILURE_CODES (or_empty (at_error_code a)) \<noteq> None
                   \<and> (case ca_last_success_at c of None \<Rightarrow> True | Some s \<Rightarrow> s < at_updated_at a)) (rev as) of
                 None \<Rightarrow> None | Some a \<Rightarrow> PUBLIC_HARD_FAILURE_CODES (or_empty (at_error_code a))))"

text \<open>Failures at least five hours apart, picked greedily from the earliest.\<close>

fun separated :: "time \<Rightarrow> time list \<Rightarrow> nat" where
  "separated prev [] = 0"
| "separated prev (t # ts) =
     (if hours 5 \<le> t - prev then Suc (separated t ts) else separated prev ts)"

definition three_separated_failures :: "attempt list \<Rightarrow> bool" where
  "three_separated_failures as =
     (let stamps = sort (map at_updated_at as)
      in if length stamps < 3 then False
         else (case stamps of [] \<Rightarrow> False | t # ts \<Rightarrow> 3 \<le> Suc (separated t ts)))"

subsection \<open>Classifying a candidate\<close>

definition candidate_failed :: "attempt \<Rightarrow> bool" where
  "candidate_failed a \<longleftrightarrow> at_status a = FailedAttempt \<and> at_failure_class a = Some CandidateFailure"

definition cost_of :: "attempt \<Rightarrow> usd" where
  "cost_of a = (case at_actual_cost_usd a of None \<Rightarrow> 0 | Some x \<Rightarrow> x)"

definition settled_rejection :: "time \<Rightarrow> attempt \<Rightarrow> bool" where
  "settled_rejection now a \<longleftrightarrow>
     candidate_failed a \<and> at_error_code a = Some ''apify_actor_start_rejected'' \<and> at_cost_final a
     \<and> cost_of a = 0 \<and> recent now 24 (at_updated_at a)"

definition paid_failure :: "time \<Rightarrow> int \<Rightarrow> attempt \<Rightarrow> bool" where
  "paid_failure now n a \<longleftrightarrow>
     candidate_failed a \<and> at_cost_final a \<and> 0 < cost_of a \<and> recent now n (at_updated_at a)"

definition binding_keys :: "attempt list \<Rightarrow> (string \<times> int) list" where
  "binding_keys as =
     remdups (map (\<lambda>a. (or_empty (at_source_id a), case at_binding_version a of None \<Rightarrow> 0 | Some n \<Rightarrow> n)) as)"

definition stale_now :: "candidate \<Rightarrow> attempt list \<Rightarrow> string list \<Rightarrow> string list" where
  "stale_now c current stale =
     (if ca_last_success_at c = None then stale
      else remdups (map (\<lambda>a. case at_source_id a of None \<Rightarrow> ''None'' | Some s \<Rightarrow> s)
             (filter (\<lambda>a. at_error_code a = Some ''actorops_stale_regression'') current)))"

definition flapping :: "time \<Rightarrow> attempt list \<Rightarrow> bool" where
  "flapping now as \<longleftrightarrow>
     (let total = filter (\<lambda>a. recent now 24 (at_updated_at a)) as;
          failed = filter (\<lambda>a. at_status a = FailedAttempt) total
      in FLAPPING_MIN_ATTEMPTS \<le> length total \<and> length total < 5 * length failed)"

definition classify_candidate ::
  "time \<Rightarrow> candidate \<Rightarrow> attempt list \<Rightarrow> string list \<Rightarrow> time option \<Rightarrow> operational_state" where
  "classify_candidate now c as stale retry =
     (let current = since_success (ca_last_success_at c) as;
          stale' = stale_now c current stale;
          hard = hard_issue c current;
          rejections = filter (settled_rejection now) current;
          paid48 = filter (paid_failure now 48) current;
          paid24 = filter (\<lambda>a. recent now 24 (at_updated_at a)) paid48;
          confirmed = hard \<noteq> None \<or> REPEATED_START_REJECTION_LIMIT \<le> length rejections
            \<or> 2 \<le> length (binding_keys paid24)
            \<or> length (binding_keys paid48) = 1 \<and> three_separated_failures paid48
            \<or> 2 \<le> length stale';
          failing = failure_is_current c \<or> list_ex candidate_failed current \<or> stale' \<noteq> [];
          base = \<lparr>os_status = NormalState, os_issue = None, os_last_success = ca_last_success_at c,
                  os_last_failure = ca_last_failure_at c, os_retry_at = retry,
                  os_stable = (\<not> flapping now as), os_deprioritized = flapping now as\<rparr>
      in if confirmed then
           base\<lparr>os_status := ConfirmedFailure,
             os_issue := Some (case hard of Some i \<Rightarrow> i
               | None \<Rightarrow> if REPEATED_START_REJECTION_LIMIT \<le> length rejections then ''repeated_start_rejection''
                        else if 2 \<le> length stale' then ''stale_regression'' else ''candidate_failure''),
             os_stable := False, os_deprioritized := True\<rparr>
         else if failing then
           base\<lparr>os_status := RecentFailure,
             os_issue := Some (if ca_last_error_code c = Some ''actorops_stale_regression'' \<or> stale' \<noteq> []
                               then ''stale_regression'' else ''candidate_failure''),
             os_stable := False\<rparr>
         else base)"

definition normal_state :: operational_state where
  "normal_state = \<lparr>os_status = NormalState, os_issue = None, os_last_success = None,
     os_last_failure = None, os_retry_at = None, os_stable = True, os_deprioritized = False\<rparr>"

definition operational_state_of :: "time \<Rightarrow> repository \<Rightarrow> string \<Rightarrow> operational_state" where
  "operational_state_of now r cid =
     (case get_candidate cid r of
        Inl e \<Rightarrow> normal_state
      | Inr c \<Rightarrow> classify_candidate now c (attempt_evidence now cid r) (stale_sources now cid r)
                 (candidate_retry_at now cid r))"

definition eligible_runtime_candidates :: "time \<Rightarrow> repository \<Rightarrow> candidate list \<Rightarrow> candidate list" where
  "eligible_runtime_candidates now r cs =
     filter (\<lambda>c. os_status (operational_state_of now r (ca_id c)) \<noteq> ConfirmedFailure) cs"

subsection \<open>Classifying a route\<close>

definition route_health_of :: "manifest_parser \<Rightarrow> time \<Rightarrow> string \<Rightarrow> repository \<Rightarrow> exn + route_health" where
  "route_health_of parse now rid r =
     (case get_route rid r of
        Inl e \<Rightarrow> Inl e
      | Inr _ \<Rightarrow> derive_route_health (int (length
          (filter (\<lambda>c. ca_role c \<in> {ActiveRole, StandbyRole} \<and> candidate_is_runnable parse c
               \<and> os_status (operational_state_of now r (ca_id c)) \<noteq> ConfirmedFailure)
             (list_route_candidates rid r)))))"

definition ready_bindings :: "string \<Rightarrow> string option \<Rightarrow> repository \<Rightarrow> binding list" where
  "ready_bindings rid sid r =
     (if \<not> truthy rid then []
      else filter (\<lambda>b. b_workspace_id b = rp_workspace_id r \<and> b_route_id b = rid \<and> b_status b = ''ready''
             \<and> (truthy (or_empty sid) \<longrightarrow> Some (b_source_id b) = sid)) (ad_bindings (rp_db r)))"

definition cooling :: "time \<Rightarrow> string \<Rightarrow> string option \<Rightarrow> repository \<Rightarrow> (string \<times> string \<times> int) list" where
  "cooling now rid sid r =
     (if \<not> truthy rid then []
      else remdups (map (\<lambda>f. (fr_source_id f, fr_candidate_id f, fr_binding_version f))
        (filter (\<lambda>f. fr_workspace_id f = rp_workspace_id r
           \<and> list_ex (\<lambda>c. ca_workspace_id c = fr_workspace_id f \<and> ca_id c = fr_candidate_id f
                \<and> ca_route_id c = rid) (ad_candidates (rp_db r))
           \<and> (case fr_cooldown_until f of None \<Rightarrow> False | Some t \<Rightarrow> now < t)
           \<and> (truthy (or_empty sid) \<longrightarrow> Some (fr_source_id f) = sid)) (ad_freshness (rp_db r)))))"

datatype source_risk = Served | AtRisk | NoPath

record route_summary =
  rs_health :: route_health
  rs_reason :: string
  rs_stable :: nat
  rs_cooling :: nat
  rs_at_risk :: nat
  rs_unavailable :: nat
  rs_fallbacks :: nat
  rs_next_repair :: "time option"

text \<open>The paths of a ready source: the assigned candidates and its last known good one, if runnable
  and not failing.\<close>

definition path_ids :: "string list \<Rightarrow> string list \<Rightarrow> binding \<Rightarrow> string list" where
  "path_ids runnable assigned b =
     (let lkg = or_empty (b_last_known_good b)
      in assigned @ (if lkg \<in> set runnable \<and> lkg \<notin> set assigned then [lkg] else []))"

definition source_risk_of ::
  "string list \<Rightarrow> (string \<times> string \<times> int) list \<Rightarrow> string list \<Rightarrow> string list \<Rightarrow> binding \<Rightarrow> source_risk" where
  "source_risk_of stable_ids cooldowns fallbacks paths b =
     (let eligible = filter (\<lambda>i. (b_source_id b, i, b_version b) \<notin> set cooldowns) paths
      in if eligible = [] then (if b_source_id b \<in> set fallbacks then AtRisk else NoPath)
         else if length (filter (\<lambda>i. i \<in> set stable_ids) eligible) < 2 then AtRisk else Served)"

definition operational_route_summary ::
  "manifest_parser \<Rightarrow> time \<Rightarrow> string list \<Rightarrow> time option \<Rightarrow> candidate list \<Rightarrow> string \<Rightarrow> string option
   \<Rightarrow> repository \<Rightarrow> route_summary" where
  "operational_route_summary parse now fallbacks next_repair cs rid sid r =
     (let state = (\<lambda>c. operational_state_of now r (ca_id c));
          runnable = filter (\<lambda>c. candidate_is_runnable parse c \<and> os_status (state c) \<noteq> ConfirmedFailure) cs;
          ids = map ca_id runnable;
          assigned = map ca_id (filter (\<lambda>c. ca_role c \<noteq> InactiveRole) runnable);
          stable_ids = map ca_id (filter (\<lambda>c. os_stable (state c) \<and> os_status (state c) = NormalState) runnable);
          bindings = ready_bindings rid sid r;
          cooldowns = cooling now rid sid r;
          risks = map (\<lambda>b. source_risk_of stable_ids cooldowns fallbacks (path_ids ids assigned b) b) bindings;
          at_risk = (if bindings \<noteq> [] then length (filter (\<lambda>x. x = AtRisk) risks)
                     else if assigned = [] then 0
                     else if length (filter (\<lambda>i. i \<in> set stable_ids) assigned) < 2 then 1 else 0);
          unavailable = (if bindings \<noteq> [] then length (filter (\<lambda>x. x = NoPath) risks)
                         else if assigned = [] then 1 else 0);
          paths = (if bindings \<noteq> [] then remdups (concat (map (path_ids ids assigned) bindings)) else assigned);
          (health, reason) =
            (if 0 < unavailable then (Unavailable, ''source_unavailable'')
             else if 0 < at_risk then (DegradedRoute,
               if fallbacks \<noteq> [] \<and> stable_ids = [] then ''source_fallback_only'' else ''insufficient_stable_paths'')
             else (HealthyRoute, ''all_sources_redundant''))
      in \<lparr>rs_health = health, rs_reason = reason,
          rs_stable = length (filter (\<lambda>i. i \<in> set stable_ids) paths),
          rs_cooling = length (remdups (map (\<lambda>(s, i, v). i) cooldowns)),
          rs_at_risk = at_risk, rs_unavailable = unavailable, rs_fallbacks = length fallbacks,
          rs_next_repair = next_repair\<rparr>)"


subsection \<open>The greedy count is exact\<close>

lemma hours_pos: "0 < n \<Longrightarrow> 0 < hours n"
  by (simp add: hours_def seconds_def)

lemma separated_1: "sorted ts \<Longrightarrow> Suc 0 \<le> separated p ts \<longleftrightarrow> (\<exists>b \<in> set ts. p + hours 5 \<le> b)"
  by (induction ts) auto

lemma separated_2:
  "sorted ts \<Longrightarrow> 2 \<le> separated p ts \<longleftrightarrow>
     (\<exists>b \<in> set ts. \<exists>c \<in> set ts. p + hours 5 \<le> b \<and> b + hours 5 \<le> c)"
proof (induction ts)
  case (Cons t ts)
  have pos: "0 < hours 5" by (rule hours_pos) simp
  have le: "b \<in> set (t # ts) \<Longrightarrow> t \<le> b" for b using Cons.prems by auto
  show ?case
  proof (cases "hours 5 \<le> t - p")
    case True
    have "2 \<le> separated p (t # ts) \<longleftrightarrow> (\<exists>c \<in> set ts. t + hours 5 \<le> c)"
      using True separated_1 [of ts t] Cons.prems by auto
    also have "\<dots> \<longleftrightarrow> (\<exists>b \<in> set (t # ts). \<exists>c \<in> set (t # ts). p + hours 5 \<le> b \<and> b + hours 5 \<le> c)"
    proof
      assume "\<exists>c \<in> set ts. t + hours 5 \<le> c"
      then show "\<exists>b \<in> set (t # ts). \<exists>c \<in> set (t # ts). p + hours 5 \<le> b \<and> b + hours 5 \<le> c"
        using True by (metis add.commute le_diff_eq list.set_intros(1,2))
    next
      assume "\<exists>b \<in> set (t # ts). \<exists>c \<in> set (t # ts). p + hours 5 \<le> b \<and> b + hours 5 \<le> c"
      then obtain b c where "b \<in> set (t # ts)" "c \<in> set (t # ts)" "b + hours 5 \<le> c" by blast
      moreover from this le have "t + hours 5 \<le> c" by fastforce
      ultimately show "\<exists>c \<in> set ts. t + hours 5 \<le> c" using pos by auto
    qed
    finally show ?thesis .
  next
    case False
    then have "b \<noteq> t" if "p + hours 5 \<le> b" for b using that by auto
    moreover have "c \<noteq> t" if "p + hours 5 \<le> b" "b + hours 5 \<le> c" for b c using that False pos by auto
    moreover have "2 \<le> separated p (t # ts) \<longleftrightarrow> 2 \<le> separated p ts" using False by simp
    ultimately show ?thesis using Cons by (simp del: separated.simps) blast
  qed
qed simp

text \<open>Picking failures greedily from the earliest finds three failures at least five hours apart
  exactly when there are three such failures.\<close>

theorem three_separated_failures_iff:
  "three_separated_failures as \<longleftrightarrow>
     (\<exists>x \<in> set as. \<exists>y \<in> set as. \<exists>z \<in> set as.
        at_updated_at x + hours 5 \<le> at_updated_at y \<and> at_updated_at y + hours 5 \<le> at_updated_at z)"
proof -
  let ?s = "sort (map at_updated_at as)"
  let ?three = "\<exists>a \<in> set ?s. \<exists>b \<in> set ?s. \<exists>c \<in> set ?s. a + hours 5 \<le> b \<and> b + hours 5 \<le> c"
  have pos: "0 < hours 5" by (rule hours_pos) simp
  have long: "3 \<le> length ?s" if ?three
  proof -
    from that obtain a b c where abc: "a \<in> set ?s" "b \<in> set ?s" "c \<in> set ?s"
      "a + hours 5 \<le> b" "b + hours 5 \<le> c" by blast
    then have "card {a, b, c} = 3" using pos by simp
    moreover have "{a, b, c} \<subseteq> set ?s" using abc by blast
    ultimately have "3 \<le> card (set ?s)" by (metis card_mono List.finite_set)
    then show ?thesis using card_length le_trans by blast
  qed
  have "three_separated_failures as \<longleftrightarrow> ?three"
  proof (cases ?s)
    case Nil
    then show ?thesis by (simp add: three_separated_failures_def)
  next
    case (Cons t ts)
    have s: "sorted ts" "\<forall>x \<in> set ts. t \<le> x" using sorted_sort [of "map at_updated_at as"] Cons by simp_all
    have "2 \<le> separated t ts \<longleftrightarrow> ?three"
      unfolding separated_2 [OF s(1)] Cons
    proof
      assume "\<exists>b \<in> set ts. \<exists>c \<in> set ts. t + hours 5 \<le> b \<and> b + hours 5 \<le> c"
      then show "\<exists>a \<in> set (t # ts). \<exists>b \<in> set (t # ts). \<exists>c \<in> set (t # ts). a + hours 5 \<le> b \<and> b + hours 5 \<le> c"
        by (metis list.set_intros(1,2))
    next
      assume "\<exists>a \<in> set (t # ts). \<exists>b \<in> set (t # ts). \<exists>c \<in> set (t # ts). a + hours 5 \<le> b \<and> b + hours 5 \<le> c"
      then obtain a b c where abc: "a \<in> set (t # ts)" "b \<in> set (t # ts)" "c \<in> set (t # ts)"
        "a + hours 5 \<le> b" "b + hours 5 \<le> c" by blast
      then have "t \<le> a" using s(2) by auto
      then have tb: "t + hours 5 \<le> b" using abc(4) by linarith
      then have "b \<noteq> t" "c \<noteq> t" using abc(5) pos by linarith+
      then have "b \<in> set ts" "c \<in> set ts" using abc(2,3) by simp_all
      with tb abc(5) show "\<exists>b \<in> set ts. \<exists>c \<in> set ts. t + hours 5 \<le> b \<and> b + hours 5 \<le> c" by blast
    qed
    moreover have "three_separated_failures as \<longleftrightarrow> 3 \<le> length ?s \<and> 2 \<le> separated t ts"
      unfolding three_separated_failures_def Let_def Cons list.case by (simp add: not_less)
    ultimately show ?thesis using long by blast
  qed
  then show ?thesis by simp
qed

subsection \<open>Who stays eligible\<close>

text \<open>A success rehabilitates: a candidate none of whose failures and fetch attempts is later
  than its last success is classified as normal, whatever its circuits and earlier failures say, so
  it stays in the list of candidates a run may use.\<close>

theorem success_rehabilitates_a_candidate:
  assumes "get_candidate cid r = Inr c" "ca_last_success_at c = Some s"
    and "\<And>f. ca_last_failure_at c = Some f \<Longrightarrow> f \<le> s"
    and "\<And>a. a \<in> set (ad_attempts (rp_db r)) \<Longrightarrow> at_workspace_id a = rp_workspace_id r
      \<Longrightarrow> at_candidate_id a = cid \<Longrightarrow> at_updated_at a \<le> s"
    and "c \<in> set cs" "ca_id c = cid"
  shows "os_status (operational_state_of now r cid) = NormalState
    \<and> c \<in> set (eligible_runtime_candidates now r cs)"
proof -
  have e: "a \<in> set (attempt_evidence now cid r) \<Longrightarrow> at_updated_at a \<le> s" for a
    using assms(4) [of a] by (auto simp: attempt_evidence_def)
  then have cur: "since_success (ca_last_success_at c) (attempt_evidence now cid r) = []"
    using assms(2) by (fastforce simp: since_success_def filter_empty_conv not_less)
  have f: "\<not> failure_is_current c"
    using assms(2,3) by (auto simp: failure_is_current_def split: option.splits)
  have st: "stale_now c [] stale = []" for stale using assms(2) by (simp add: stale_now_def)
  have h: "hard_issue c [] = None" using f by (simp add: hard_issue_def)
  have "os_status (operational_state_of now r cid) = NormalState"
    by (simp add: operational_state_of_def assms(1) classify_candidate_def cur f st h Let_def
        REPEATED_START_REJECTION_LIMIT_def binding_keys_def)
  with assms(5,6) show ?thesis by (simp add: eligible_runtime_candidates_def)
qed

text \<open>One failed attempt alone never excludes a candidate: without an error code that proves it
  unusable and with at most one stale source, a single fetch attempt since the last success leaves
  it eligible.\<close>

theorem one_failure_excludes_nobody:
  assumes "get_candidate cid r = Inr c"
    and "length (since_success (ca_last_success_at c) (attempt_evidence now cid r)) \<le> 1"
    and "PUBLIC_HARD_FAILURE_CODES (or_empty (ca_last_error_code c)) = None"
    and "\<And>a. a \<in> set (attempt_evidence now cid r) \<Longrightarrow> PUBLIC_HARD_FAILURE_CODES (or_empty (at_error_code a)) = None"
    and "length (stale_sources now cid r) \<le> 1"
  shows "os_status (operational_state_of now r cid) \<noteq> ConfirmedFailure"
proof -
  let ?cur = "since_success (ca_last_success_at c) (attempt_evidence now cid r)"
  have sub: "set ?cur \<subseteq> set (attempt_evidence now cid r)" by (auto simp: since_success_def split: option.splits)
  have few: "length (filter P ?cur) \<le> 1" for P using assms(2) length_filter_le [of P ?cur] by linarith
  have keys: "length (binding_keys as) \<le> length as" for as
    unfolding binding_keys_def by (metis length_map length_remdups_leq)
  have "find (\<lambda>a. PUBLIC_HARD_FAILURE_CODES (or_empty (at_error_code a)) \<noteq> None
      \<and> (case ca_last_success_at c of None \<Rightarrow> True | Some s \<Rightarrow> s < at_updated_at a)) (rev ?cur) = None"
    using sub assms(4) by (auto simp: find_None_iff)
  then have h: "hard_issue c ?cur = None" using assms(3) by (simp add: hard_issue_def Let_def)
  have r: "\<not> REPEATED_START_REJECTION_LIMIT \<le> length (filter (settled_rejection now) ?cur)"
    using few [of "settled_rejection now"] by (simp add: REPEATED_START_REJECTION_LIMIT_def)
  have p: "\<not> 2 \<le> length (binding_keys (filter (\<lambda>a. recent now 24 (at_updated_at a)) (filter (paid_failure now 48) ?cur)))"
    using keys [of "filter (\<lambda>a. recent now 24 (at_updated_at a)) (filter (paid_failure now 48) ?cur)"]
      few [of "\<lambda>a. paid_failure now 48 a \<and> recent now 24 (at_updated_at a)"] by simp
  have t: "\<not> three_separated_failures (filter (paid_failure now 48) ?cur)"
    using few [of "paid_failure now 48"] by (simp add: three_separated_failures_def)
  have "length (stale_now c ?cur (stale_sources now cid r)) \<le> 1"
  proof (cases "ca_last_success_at c")
    case None
    with assms(5) show ?thesis by (simp add: stale_now_def)
  next
    case (Some s)
    have "length (remdups (map g (filter P ?cur))) \<le> 1" for P and g :: "attempt \<Rightarrow> string"
      using few [of P] length_remdups_leq [of "map g (filter P ?cur)"] by simp
    with Some show ?thesis by (simp add: stale_now_def)
  qed
  then have "\<not> 2 \<le> length (stale_now c ?cur (stale_sources now cid r))" by simp
  with h r p t show ?thesis
    by (simp add: operational_state_of_def assms(1) classify_candidate_def Let_def)
qed

subsection \<open>At concrete values\<close>

definition sample_succeeded :: repository where
  "sample_succeeded = sample_ledger\<lparr>rp_db := (rp_db sample_ledger)\<lparr>ad_candidates :=
     [(sample_candidate ''a'' ActiveRole (Some 0))\<lparr>ca_last_success_at := Some 5\<rparr>]\<rparr>\<rparr>"

lemma success_rehabilitates_a_candidate_witness:
  "os_status (operational_state_of 10 sample_succeeded ''a'') = NormalState"
proof -
  let ?c = "(sample_candidate ''a'' ActiveRole (Some 0))\<lparr>ca_last_success_at := Some 5\<rparr>"
  have c: "get_candidate ''a'' sample_succeeded = Inr ?c" by code_simp
  have "list_all (\<lambda>a. at_updated_at a \<le> 5) (ad_attempts (rp_db sample_succeeded))" by code_simp
  then have l: "a \<in> set (ad_attempts (rp_db sample_succeeded)) \<Longrightarrow> at_updated_at a \<le> 5" for a
    by (auto simp: list_all_iff)
  have "ca_last_failure_at ?c = None" "ca_id ?c = ''a''" by (simp_all add: sample_candidate_def)
  then show ?thesis
    using success_rehabilitates_a_candidate [OF c, of 5 "[?c]" 10] l by simp
qed

lemma one_failure_excludes_nobody_witness:
  "os_status (operational_state_of 10 (snd (ledger 8 (Annotate ''i'' CandidateFailure ''boom'') sample_ledger)) ''a'')
     \<noteq> ConfirmedFailure"
proof -
  let ?r = "snd (ledger 8 (Annotate ''i'' CandidateFailure ''boom'') sample_ledger)"
  let ?c = "sample_candidate ''a'' ActiveRole (Some 0)"
  have c: "get_candidate ''a'' ?r = Inr ?c" by code_simp
  have "length (since_success (ca_last_success_at ?c) (attempt_evidence 10 ''a'' ?r)) \<le> 1" by code_simp
  moreover have "list_all (\<lambda>a. PUBLIC_HARD_FAILURE_CODES (or_empty (at_error_code a)) = None)
      (attempt_evidence 10 ''a'' ?r)" by code_simp
  moreover have "length (stale_sources 10 ''a'' ?r) \<le> 1" by code_simp
  moreover have "PUBLIC_HARD_FAILURE_CODES (or_empty (ca_last_error_code ?c)) = None" by code_simp
  ultimately show ?thesis using one_failure_excludes_nobody [OF c, of 10] by (auto simp: list_all_iff)
qed

end
