(* ===== verification/ActorDiscovery.thy ===== *)
theory ActorDiscovery
  imports ActorRoutes
begin

section \<open>ActorOps: recoverable discovery jobs\<close>

text \<open>
  \<open>src/src/services/actorops/repository_discovery.py\<close>: a discovery job is created once per
  idempotency key and moves by checkpoints, each a compare-and-set on status, stage and generation.
  The token counts of the language model calls, which the code only stores, are left out.
\<close>

subsection \<open>Statements\<close>

definition discovery_update_ok :: "discovery \<Rightarrow> discovery \<Rightarrow> bool" where
  "discovery_update_ok a b \<longleftrightarrow>
     (dj_status b = dj_status a \<or> dj_status b \<in> set (discovery_status_transitions (dj_status a)))
     \<and> stage_order (dj_stage a) \<le> stage_order (dj_stage b) \<and> dj_generation a \<le> dj_generation b
     \<and> 0 \<le> dj_stage_attempt b \<and> 0 \<le> dj_query_count b \<and> 0 \<le> dj_candidate_count b
     \<and> 0 \<le> dj_rejection_count b"

definition update_discoveries ::
  "(discovery \<Rightarrow> bool) \<Rightarrow> (discovery \<Rightarrow> discovery) \<Rightarrow> actor_db \<Rightarrow> exn + (nat \<times> actor_db)" where
  "update_discoveries P f d =
     (if \<forall>j \<in> set (ad_discoveries d). P j \<longrightarrow> discovery_update_ok j (f j)
      then Inr (row_count P (ad_discoveries d), d\<lparr>ad_discoveries := update_where P f (ad_discoveries d)\<rparr>)
      else Inl IntegrityError)"

definition insert_discovery :: "discovery \<Rightarrow> actor_db \<Rightarrow> exn + actor_db" where
  "insert_discovery j d =
     (if distinct (map dj_id (ad_discoveries d @ [j]))
         \<and> distinct (map (\<lambda>x. (dj_workspace_id x, dj_idempotency_key x)) (ad_discoveries d @ [j]))
         \<and> list_ex (\<lambda>x. r_workspace_id x = dj_workspace_id j \<and> r_id x = dj_route_id j) (ad_routes d)
      then Inr (d\<lparr>ad_discoveries := ad_discoveries d @ [j]\<rparr>) else Inl IntegrityError)"

subsection \<open>Creating and reading\<close>

record discovery_request =
  dq_id :: string
  dq_idempotency_key :: string
  dq_route_id :: string
  dq_trigger_reason :: string
  dq_input_fingerprint :: string

definition new_discovery :: "string \<Rightarrow> time \<Rightarrow> discovery_request \<Rightarrow> discovery" where
  "new_discovery w now q =
     \<lparr>dj_id = dq_id q, dj_workspace_id = w, dj_idempotency_key = dq_idempotency_key q,
      dj_route_id = dq_route_id q, dj_trigger_reason = dq_trigger_reason q,
      dj_status = QueuedDiscovery, dj_stage = StoreSearch, dj_stage_attempt = 0, dj_retry_after = None,
      dj_input_fingerprint = dq_input_fingerprint q, dj_checkpoint_hash = None, dj_search_cursor = None,
      dj_query_count = 0, dj_candidate_count = 0, dj_rejection_count = 0, dj_failure_class = None,
      dj_error_code = None, dj_generation = 1, dj_created_at = now, dj_terminal_at = None,
      dj_updated_at = now\<rparr>"

definition create_discovery ::
  "time \<Rightarrow> discovery_request \<Rightarrow> repository \<Rightarrow> (repository, unit) outcome" where
  "create_discovery now q r =
     require_transaction r
       (case insert_discovery (new_discovery (rp_workspace_id r) now q) (rp_db r) of
          Inl e \<Rightarrow> Raise e r | Inr d \<Rightarrow> Return () (r\<lparr>rp_db := d\<rparr>))"

definition get_discovery :: "string \<Rightarrow> repository \<Rightarrow> exn + discovery" where
  "get_discovery i r =
     (case find (\<lambda>j. dj_workspace_id j = rp_workspace_id r \<and> dj_id j = i) (ad_discoveries (rp_db r)) of
        None \<Rightarrow> Inl (ActorOpsNotFound (''discovery not found: '' @ i)) | Some j \<Rightarrow> Inr j)"

definition ensure_discovery ::
  "time \<Rightarrow> discovery_request \<Rightarrow> repository \<Rightarrow> (repository, discovery \<times> bool) outcome" where
  "ensure_discovery now q r =
     require_transaction r
       (case find (\<lambda>j. dj_workspace_id j = rp_workspace_id r \<and> dj_idempotency_key j = dq_idempotency_key q)
               (ad_discoveries (rp_db r)) of
          Some j \<Rightarrow>
            if dj_route_id j \<noteq> dq_route_id q \<or> dj_trigger_reason j \<noteq> dq_trigger_reason q
               \<or> dj_input_fingerprint j \<noteq> dq_input_fingerprint q
            then Raise (ActorOpsConflict ''discovery idempotency key conflicts'') r
            else Return (j, False) r
        | None \<Rightarrow>
           (case create_discovery now q r of
              (Inl e, r') \<Rightarrow> Raise e r'
            | (Inr _, r') \<Rightarrow> (case get_discovery (dq_id q) r' of
                 Inl e \<Rightarrow> Raise e r' | Inr j \<Rightarrow> Return (j, True) r')))"

definition due_discovery :: "string \<Rightarrow> time \<Rightarrow> discovery \<Rightarrow> bool" where
  "due_discovery w now j \<longleftrightarrow>
     dj_workspace_id j = w
     \<and> (dj_status j = QueuedDiscovery \<or> dj_status j = RunningDiscovery
        \<or> dj_status j = RetryWait \<and> (case dj_retry_after j of None \<Rightarrow> True | Some t \<Rightarrow> t \<le> now))"

definition list_due_discoveries :: "time \<Rightarrow> int \<Rightarrow> repository \<Rightarrow> discovery list" where
  "list_due_discoveries now limit r =
     take (nat (min (max limit 1) 100))
       (sort_key (\<lambda>j. (dj_created_at j, dj_id j))
          (filter (due_discovery (rp_workspace_id r) now) (ad_discoveries (rp_db r))))"

subsection \<open>Checkpoints\<close>

record checkpoint =
  ck_from_status :: discovery_status
  ck_from_stage :: discovery_stage
  ck_generation :: int
  ck_status :: discovery_status
  ck_stage :: discovery_stage
  ck_hash :: "string option"
  ck_cursor :: "string option"
  ck_query_count :: int
  ck_candidate_count :: int
  ck_rejection_count :: int
  ck_retry_after :: "time option"
  ck_failure_class :: "failure_class option"
  ck_error_code :: "string option"

definition checkpointed :: "time \<Rightarrow> checkpoint \<Rightarrow> discovery \<Rightarrow> discovery" where
  "checkpointed now v j =
     j\<lparr>dj_status := ck_status v, dj_stage := ck_stage v,
       dj_stage_attempt := (if ck_status v = RetryWait \<and> ck_stage v = dj_stage j then dj_stage_attempt j + 1
                            else if ck_stage v \<noteq> dj_stage j then 0 else dj_stage_attempt j),
       dj_retry_after := ck_retry_after v, dj_checkpoint_hash := or_else (ck_hash v) (dj_checkpoint_hash j),
       dj_search_cursor := or_else (ck_cursor v) (dj_search_cursor j),
       dj_query_count := ck_query_count v, dj_candidate_count := ck_candidate_count v,
       dj_rejection_count := ck_rejection_count v,
       dj_failure_class := or_else (ck_failure_class v) (dj_failure_class j),
       dj_error_code := or_else (ck_error_code v) (dj_error_code j),
       dj_terminal_at := (if ck_status v \<in> set TERMINAL_DISCOVERY_STATUSES then Some now else dj_terminal_at j),
       dj_generation := dj_generation j + 1, dj_updated_at := now\<rparr>"

definition checkpoint_discovery ::
  "time \<Rightarrow> string \<Rightarrow> checkpoint \<Rightarrow> repository \<Rightarrow> (repository, unit) outcome" where
  "checkpoint_discovery now i v r =
     require_transaction r
       (case ensure_discovery_transition (ck_from_status v) (ck_from_stage v) (ck_status v) (ck_stage v) of
          Inl e \<Rightarrow> Raise e r
        | Inr _ \<Rightarrow>
           (case update_discoveries
               (\<lambda>j. dj_workspace_id j = rp_workspace_id r \<and> dj_id j = i \<and> dj_status j = ck_from_status v
                  \<and> dj_stage j = ck_from_stage v \<and> dj_generation j = ck_generation v)
               (checkpointed now v) (rp_db r) of
              Inl e \<Rightarrow> Raise e r
            | Inr (n, d) \<Rightarrow> if n = 1 then Return () (r\<lparr>rp_db := d\<rparr>)
                          else Raise (ActorOpsConflict ''discovery changed before checkpoint'') (r\<lparr>rp_db := d\<rparr>)))"

definition transition_discovery ::
  "time \<Rightarrow> string \<Rightarrow> discovery_status \<Rightarrow> discovery_stage \<Rightarrow> discovery_status \<Rightarrow> discovery_stage
   \<Rightarrow> repository \<Rightarrow> (repository, unit) outcome" where
  "transition_discovery now i current_status current_stage target_status target_stage r =
     (case get_discovery i r of
        Inl e \<Rightarrow> Raise e r
      | Inr j \<Rightarrow> checkpoint_discovery now i
          \<lparr>ck_from_status = current_status, ck_from_stage = current_stage, ck_generation = dj_generation j,
           ck_status = target_status, ck_stage = target_stage, ck_hash = None, ck_cursor = None,
           ck_query_count = dj_query_count j, ck_candidate_count = dj_candidate_count j,
           ck_rejection_count = dj_rejection_count j, ck_retry_after = None, ck_failure_class = None,
           ck_error_code = None\<rparr> r)"

subsection \<open>Candidates of a discovery\<close>

definition insert_link :: "discovery_link \<Rightarrow> actor_db \<Rightarrow> exn + actor_db" where
  "insert_link l d =
     (if 0 \<le> dl_rank l
         \<and> distinct (map (\<lambda>x. (dl_workspace_id x, dl_discovery_id x, dl_candidate_id x)) (ad_discovery_links d @ [l]))
         \<and> distinct (map (\<lambda>x. (dl_workspace_id x, dl_discovery_id x, dl_rank x)) (ad_discovery_links d @ [l]))
         \<and> list_ex (\<lambda>j. dj_workspace_id j = dl_workspace_id l \<and> dj_id j = dl_discovery_id l
              \<and> list_ex (\<lambda>c. ca_workspace_id c = dj_workspace_id j \<and> ca_route_id c = dj_route_id j
                   \<and> ca_id c = dl_candidate_id l) (ad_candidates d)) (ad_discoveries d)
      then Inr (d\<lparr>ad_discovery_links := ad_discovery_links d @ [l]\<rparr>) else Inl IntegrityError)"

definition link_candidate ::
  "string \<Rightarrow> string \<Rightarrow> int \<Rightarrow> link_status \<Rightarrow> string option \<Rightarrow> repository \<Rightarrow> (repository, unit) outcome" where
  "link_candidate i cid rank status code r =
     require_transaction r
       (case find (\<lambda>l. dl_workspace_id l = rp_workspace_id r \<and> dl_discovery_id l = i \<and> dl_candidate_id l = cid)
               (ad_discovery_links (rp_db r)) of
          Some l \<Rightarrow>
            if dl_rank l \<noteq> rank \<or> dl_status l \<noteq> status \<or> dl_rejection_code l \<noteq> code
            then Raise (ActorOpsConflict ''discovery candidate changed before persist'') r
            else Return () r
        | None \<Rightarrow>
           (case insert_link \<lparr>dl_workspace_id = rp_workspace_id r, dl_discovery_id = i, dl_candidate_id = cid,
                     dl_rank = rank, dl_status = status, dl_rejection_code = code\<rparr> (rp_db r) of
              Inl e \<Rightarrow> Raise e r | Inr d \<Rightarrow> Return () (r\<lparr>rp_db := d\<rparr>)))"

definition list_discovery_links :: "string \<Rightarrow> repository \<Rightarrow> discovery_link list" where
  "list_discovery_links i r =
     sort_key (\<lambda>l. (dl_rank l, dl_candidate_id l))
       (filter (\<lambda>l. dl_workspace_id l = rp_workspace_id r \<and> dl_discovery_id l = i) (ad_discovery_links (rp_db r)))"

definition list_accepted_candidate_ids :: "string \<Rightarrow> repository \<Rightarrow> string list" where
  "list_accepted_candidate_ids i r =
     map dl_candidate_id (filter (\<lambda>l. dl_status l = AcceptedLink) (list_discovery_links i r))"

definition list_metadata_candidate_ids :: "string \<Rightarrow> repository \<Rightarrow> string list" where
  "list_metadata_candidate_ids i r = map dl_candidate_id (list_discovery_links i r)"

subsection \<open>Mappings of an exact revision\<close>

record exact_revision =
  xr_route_id :: string
  xr_actor_id :: string
  xr_build_id :: string
  xr_build_number :: string
  xr_input_hash :: string
  xr_output_hash :: string

definition of_revision :: "string \<Rightarrow> exact_revision \<Rightarrow> candidate \<Rightarrow> bool" where
  "of_revision w x c \<longleftrightarrow>
     ca_workspace_id c = w \<and> ca_route_id c = xr_route_id x \<and> ca_actor_id c = xr_actor_id x
     \<and> ca_build_id c = Some (xr_build_id x) \<and> ca_build_number c = Some (xr_build_number x)
     \<and> ca_input_schema_hash c = Some (xr_input_hash x) \<and> ca_output_schema_hash c = Some (xr_output_hash x)"

fun mapping_rank :: "candidate_lifecycle \<Rightarrow> nat" where
  "mapping_rank Certified = 0"
| "mapping_rank Probationary = 1"
| "mapping_rank _ = 2"

definition cached_manifest :: "exact_revision \<Rightarrow> repository \<Rightarrow> string option" where
  "cached_manifest x r =
     Option.bind (first_by (\<lambda>c. (mapping_rank (ca_lifecycle c), - ca_updated_at c, ca_id c))
         (\<lambda>c. of_revision (rp_workspace_id r) x c \<and> ca_manifest_json c \<noteq> None
            \<and> ca_lifecycle c \<in> {StaticValid, Probationary, Certified}) (ad_candidates (rp_db r)))
       ca_manifest_json"

definition change_candidates ::
  "(candidate \<Rightarrow> bool) \<Rightarrow> (candidate \<Rightarrow> candidate) \<Rightarrow> repository \<Rightarrow> (repository, nat) outcome" where
  "change_candidates P f r =
     require_transaction r
       (case update_candidates P f (rp_db r) of
          Inl e \<Rightarrow> Raise e r | Inr (n, d) \<Rightarrow> Return n (r\<lparr>rp_db := d\<rparr>))"

definition reject_invalid_static_mapping ::
  "time \<Rightarrow> exact_revision \<Rightarrow> string \<Rightarrow> repository \<Rightarrow> (repository, nat) outcome" where
  "reject_invalid_static_mapping now x code r =
     change_candidates (\<lambda>c. of_revision (rp_workspace_id r) x c \<and> ca_lifecycle c = StaticValid)
       (\<lambda>c. bumped now (c\<lparr>ca_lifecycle := Rejected, ca_role := InactiveRole, ca_priority := None,
          ca_last_error_class := Some CandidateFailure, ca_last_error_code := Some code\<rparr>)) r"

definition refresh_pending_mapping_issue ::
  "time \<Rightarrow> string \<Rightarrow> string \<Rightarrow> repository \<Rightarrow> (repository, nat) outcome" where
  "refresh_pending_mapping_issue now cid code r =
     change_candidates (\<lambda>c. is_candidate (rp_workspace_id r) cid c \<and> ca_lifecycle c = MappingPending
         \<and> or_empty (ca_last_error_code c) \<noteq> code)
       (\<lambda>c. bumped now (c\<lparr>ca_last_error_code := Some code\<rparr>)) r"

definition supersede_pending_mapping ::
  "time \<Rightarrow> exact_revision \<Rightarrow> string \<Rightarrow> repository \<Rightarrow> (repository, nat) outcome" where
  "supersede_pending_mapping now x keep r =
     change_candidates (\<lambda>c. of_revision (rp_workspace_id r) x c \<and> ca_id c \<noteq> keep
         \<and> ca_lifecycle c = MappingPending)
       (\<lambda>c. bumped now (c\<lparr>ca_lifecycle := Rejected, ca_last_error_class := Some CandidateFailure,
          ca_last_error_code := Some ''actorops_discovery_mapping_superseded''\<rparr>)) r"

subsection \<open>Sequences of operations\<close>

datatype discovery_op =
    EnsureDiscovery discovery_request
  | Checkpoint string checkpoint

fun discovery_step :: "time \<Rightarrow> discovery_op \<Rightarrow> repository \<Rightarrow> repository" where
  "discovery_step t (EnsureDiscovery q) r = snd (transaction (ensure_discovery t q) r)"
| "discovery_step t (Checkpoint i v) r = snd (transaction (checkpoint_discovery t i v) r)"

definition run_discoveries :: "(time \<times> discovery_op) list \<Rightarrow> repository \<Rightarrow> repository" where
  "run_discoveries ops r = foldl (\<lambda>r (t, p). discovery_step t p r) r ops"


lemma run_discoveries_simps [simp]:
  "run_discoveries [] r = r"
  "run_discoveries ((t, p) # ops) r = run_discoveries ops (discovery_step t p r)"
  by (simp_all add: run_discoveries_def)

subsection \<open>One step\<close>

lemma transaction_cases:
  obtains e where "transaction body r = (Inl e, r)"
  | x r1 where "body (r\<lparr>rp_in_tx := True\<rparr>) = (Inr x, r1)"
      "transaction body r = (Inr x, r1\<lparr>rp_in_tx := rp_in_tx r\<rparr>)"
  by (cases "body (r\<lparr>rp_in_tx := True\<rparr>)"; cases "fst (body (r\<lparr>rp_in_tx := True\<rparr>))")
    (auto simp: transaction_def)

lemma checkpoint_Inr:
  assumes "checkpoint_discovery now i v r = (Inr u, r1)"
  shows "ensure_discovery_transition (ck_from_status v) (ck_from_stage v) (ck_status v) (ck_stage v) = Inr ()"
    and "r1 = r\<lparr>rp_db := (rp_db r)\<lparr>ad_discoveries := update_where
      (\<lambda>j. dj_workspace_id j = rp_workspace_id r \<and> dj_id j = i \<and> dj_status j = ck_from_status v
         \<and> dj_stage j = ck_from_stage v \<and> dj_generation j = ck_generation v)
      (checkpointed now v) (ad_discoveries (rp_db r))\<rparr>\<rparr>"
proof -
  note k = require_transaction_Inr [OF assms [unfolded checkpoint_discovery_def]]
  then show "ensure_discovery_transition (ck_from_status v) (ck_from_stage v) (ck_status v) (ck_stage v) = Inr ()"
    by (auto split: sum.splits)
  with k show "r1 = r\<lparr>rp_db := (rp_db r)\<lparr>ad_discoveries := update_where
      (\<lambda>j. dj_workspace_id j = rp_workspace_id r \<and> dj_id j = i \<and> dj_status j = ck_from_status v
         \<and> dj_stage j = ck_from_stage v \<and> dj_generation j = ck_generation v)
      (checkpointed now v) (ad_discoveries (rp_db r))\<rparr>\<rparr>"
    by (simp add: update_discoveries_def split: if_splits)
qed

lemma ensure_discovery_Inr:
  assumes "ensure_discovery now q r = (Inr y, r1)"
  shows "(r1 = r \<and> \<not> snd y \<and> fst y \<in> set (ad_discoveries (rp_db r))
        \<and> dj_idempotency_key (fst y) = dq_idempotency_key q
        \<and> dj_workspace_id (fst y) = rp_workspace_id r)
    \<or> (r1 = r\<lparr>rp_db := (rp_db r)\<lparr>ad_discoveries := ad_discoveries (rp_db r)
          @ [new_discovery (rp_workspace_id r) now q]\<rparr>\<rparr>
        \<and> dj_id (fst y) = dq_id q)"
proof -
  note k = require_transaction_Inr [OF assms [unfolded ensure_discovery_def]]
  show ?thesis
  proof (cases "find (\<lambda>j. dj_workspace_id j = rp_workspace_id r \<and> dj_idempotency_key j = dq_idempotency_key q)
               (ad_discoveries (rp_db r))")
    case (Some j)
    then have "j \<in> set (ad_discoveries (rp_db r))" "dj_idempotency_key j = dq_idempotency_key q"
      "dj_workspace_id j = rp_workspace_id r" by (auto simp: find_Some_iff)
    with Some k show ?thesis by (auto split: if_splits)
  next
    case None
    obtain res r2 where c: "create_discovery now q r = (res, r2)" by fastforce
    with None k obtain u j where res: "res = Inr u" "get_discovery (dq_id q) r2 = Inr j" "y = (j, True)" "r1 = r2"
      by (auto split: sum.splits)
    then have "insert_discovery (new_discovery (rp_workspace_id r) now q) (rp_db r) \<noteq> Inl IntegrityError"
      using c by (auto simp: create_discovery_def require_transaction_def split: sum.splits if_splits)
    then have "r2 = r\<lparr>rp_db := (rp_db r)\<lparr>ad_discoveries := ad_discoveries (rp_db r)
          @ [new_discovery (rp_workspace_id r) now q]\<rparr>\<rparr>"
      using c res(1) by (simp add: create_discovery_def require_transaction_def insert_discovery_def split: if_splits)
    moreover have "dj_id j = dq_id q" using res(2) by (auto simp: get_discovery_def find_Some_iff split: option.splits)
    ultimately show ?thesis using res by simp
  qed
qed

definition discovery_follows :: "discovery \<Rightarrow> discovery \<Rightarrow> bool" where
  "discovery_follows a b \<longleftrightarrow>
     dj_id b = dj_id a \<and> dj_workspace_id b = dj_workspace_id a
     \<and> dj_idempotency_key b = dj_idempotency_key a \<and> dj_route_id b = dj_route_id a
     \<and> dj_trigger_reason b = dj_trigger_reason a \<and> dj_input_fingerprint b = dj_input_fingerprint a
     \<and> stage_order (dj_stage a) \<le> stage_order (dj_stage b)
     \<and> (dj_status a \<in> set TERMINAL_DISCOVERY_STATUSES \<longrightarrow> b = a)"

lemma discovery_follows_refl [simp]: "discovery_follows a a"
  by (simp add: discovery_follows_def)

lemma discovery_follows_trans: "discovery_follows a b \<Longrightarrow> discovery_follows b c \<Longrightarrow> discovery_follows a c"
  by (auto simp: discovery_follows_def)

lemma checkpointed_follows:
  assumes "ensure_discovery_transition (dj_status j) (dj_stage j) (ck_status v) (ck_stage v) = Inr ()"
  shows "discovery_follows j (checkpointed now v j)"
    and "dj_status (checkpointed now v j) = Completed \<Longrightarrow> dj_stage (checkpointed now v j) = Persist"
  using assms by (auto simp: ensure_discovery_transition_def discovery_follows_def checkpointed_def
      terminal_discovery_iff split: if_splits)

lemma discovery_step_rows:
  assumes "j \<in> set (ad_discoveries (rp_db (discovery_step t p r)))"
  obtains "j \<in> set (ad_discoveries (rp_db r))"
    | "dj_status j = QueuedDiscovery"
    | i where "i \<in> set (ad_discoveries (rp_db r))" "discovery_follows i j"
        "dj_status j = Completed \<longrightarrow> dj_stage j = Persist"
proof (cases p)
  case (EnsureDiscovery q)
  show thesis
  proof (cases rule: transaction_cases [of "ensure_discovery t q" r])
    case (1 e)
    with assms EnsureDiscovery that(1) show thesis by simp
  next
    case (2 y r1)
    note ok = ensure_discovery_Inr [OF 2(1)]
    have "ad_discoveries (rp_db (discovery_step t p r)) = ad_discoveries (rp_db r1)" using 2 EnsureDiscovery by simp
    with ok assms have "j \<in> set (ad_discoveries (rp_db r)) \<or> j = new_discovery (rp_workspace_id r) t q" by auto
    with that(1,2) show thesis by (auto simp: new_discovery_def)
  qed
next
  case (Checkpoint i v)
  show thesis
  proof (cases rule: transaction_cases [of "checkpoint_discovery t i v" r])
    case (1 e)
    with assms Checkpoint that(1) show thesis by simp
  next
    case (2 y r1)
    note ok = checkpoint_Inr [OF 2(1)]
    let ?P = "\<lambda>j. dj_workspace_id j = rp_workspace_id r \<and> dj_id j = i \<and> dj_status j = ck_from_status v
         \<and> dj_stage j = ck_from_stage v \<and> dj_generation j = ck_generation v"
    have "ad_discoveries (rp_db (discovery_step t p r))
        = update_where ?P (checkpointed t v) (ad_discoveries (rp_db r))"
      using 2 Checkpoint ok(2) by simp
    with assms have "j \<in> set (update_where ?P (checkpointed t v) (ad_discoveries (rp_db r)))" by simp
    then show thesis
    proof (cases rule: in_update_whereE)
      case 1
      with that(1) show thesis by blast
    next
      case (2 k)
      then show thesis using that(3) [of k] checkpointed_follows [of k v t] ok(1) by simp
    qed
  qed
qed

lemma discovery_step_follows:
  assumes "j \<in> set (ad_discoveries (rp_db r))"
  shows "\<exists>k \<in> set (ad_discoveries (rp_db (discovery_step t p r))). discovery_follows j k"
proof (cases p)
  case (EnsureDiscovery q)
  show ?thesis
  proof (cases rule: transaction_cases [of "ensure_discovery t q" r])
    case (1 e)
    then have "discovery_step t p r = r" using EnsureDiscovery by simp
    with assms show ?thesis using discovery_follows_refl by metis
  next
    case (2 y r1)
    have "ad_discoveries (rp_db (discovery_step t p r)) = ad_discoveries (rp_db r1)" using 2 EnsureDiscovery by simp
    with ensure_discovery_Inr [OF 2(1)] assms have "j \<in> set (ad_discoveries (rp_db (discovery_step t p r)))" by auto
    then show ?thesis using discovery_follows_refl by blast
  qed
next
  case (Checkpoint i v)
  show ?thesis
  proof (cases rule: transaction_cases [of "checkpoint_discovery t i v" r])
    case (1 e)
    then have "discovery_step t p r = r" using Checkpoint by simp
    with assms show ?thesis using discovery_follows_refl by metis
  next
    case (2 y r1)
    note ok = checkpoint_Inr [OF 2(1)]
    let ?P = "\<lambda>j. dj_workspace_id j = rp_workspace_id r \<and> dj_id j = i \<and> dj_status j = ck_from_status v
         \<and> dj_stage j = ck_from_stage v \<and> dj_generation j = ck_generation v"
    have rows: "ad_discoveries (rp_db (discovery_step t p r))
        = update_where ?P (checkpointed t v) (ad_discoveries (rp_db r))"
      using 2 Checkpoint ok(2) by simp
    show ?thesis
    proof (cases "?P j")
      case True
      then have "checkpointed t v j \<in> set (ad_discoveries (rp_db (discovery_step t p r)))"
        unfolding rows set_update_where using assms by blast
      moreover have "discovery_follows j (checkpointed t v j)"
        using checkpointed_follows(1) [of j v t] ok(1) True by simp
      ultimately show ?thesis by blast
    next
      case False
      then have "j \<in> set (ad_discoveries (rp_db (discovery_step t p r)))"
        unfolding rows set_update_where using assms by blast
      then show ?thesis using discovery_follows_refl by blast
    qed
  qed
qed

lemma run_discoveries_follows:
  "j \<in> set (ad_discoveries (rp_db r)) \<Longrightarrow>
     \<exists>k \<in> set (ad_discoveries (rp_db (run_discoveries ops r))). discovery_follows j k"
proof (induction ops arbitrary: r j)
  case (Cons entry ops)
  obtain t p where entry: "entry = (t, p)" by fastforce
  obtain k where "k \<in> set (ad_discoveries (rp_db (discovery_step t p r)))" "discovery_follows j k"
    using discovery_step_follows [OF Cons.prems] by blast
  with Cons.IH entry show ?case by simp (blast intro: discovery_follows_trans)
qed (auto intro: discovery_follows_refl)

definition completed_at_persist :: "repository \<Rightarrow> bool" where
  "completed_at_persist r \<longleftrightarrow>
     (\<forall>j \<in> set (ad_discoveries (rp_db r)). dj_status j = Completed \<longrightarrow> dj_stage j = Persist)"

lemma step_completed_at_persist: "completed_at_persist r \<Longrightarrow> completed_at_persist (discovery_step t p r)"
  unfolding completed_at_persist_def
proof
  fix j
  assume inv: "\<forall>j \<in> set (ad_discoveries (rp_db r)). dj_status j = Completed \<longrightarrow> dj_stage j = Persist"
    and "j \<in> set (ad_discoveries (rp_db (discovery_step t p r)))"
  then show "dj_status j = Completed \<longrightarrow> dj_stage j = Persist"
    by (cases rule: discovery_step_rows [OF \<open>j \<in> set (ad_discoveries (rp_db (discovery_step t p r)))\<close>]) auto
qed

lemma run_completed_at_persist: "completed_at_persist r \<Longrightarrow> completed_at_persist (run_discoveries ops r)"
proof (induction ops arbitrary: r)
  case (Cons entry ops)
  obtain t p where "entry = (t, p)" by fastforce
  with Cons step_completed_at_persist show ?case by simp
qed simp

text \<open>C38: Whatever checkpoints and creations run, a discovery job never goes back to an earlier stage,
  a finished one never changes again, and a job is completed only after its last stage.\<close>

theorem discoveries_only_move_forward:
  assumes "completed_at_persist r" "j \<in> set (ad_discoveries (rp_db r))"
  shows "completed_at_persist (run_discoveries ops r)
    \<and> (\<exists>k \<in> set (ad_discoveries (rp_db (run_discoveries ops r))).
         dj_id k = dj_id j \<and> dj_input_fingerprint k = dj_input_fingerprint j
         \<and> stage_order (dj_stage j) \<le> stage_order (dj_stage k)
         \<and> (dj_status j \<in> set TERMINAL_DISCOVERY_STATUSES \<longrightarrow> k = j))"
  using run_completed_at_persist [OF assms(1)] run_discoveries_follows [OF assms(2), of ops]
  by (auto simp: discovery_follows_def)

definition sample_query :: "string \<Rightarrow> discovery_request" where
  "sample_query i = \<lparr>dq_id = i, dq_idempotency_key = i, dq_route_id = ''r'', dq_trigger_reason = ''x'',
     dq_input_fingerprint = ''f''\<rparr>"

definition sample_discoveries :: repository where
  "sample_discoveries = discovery_step 1 (EnsureDiscovery (sample_query ''d'')) sample_actors"

lemma discoveries_only_move_forward_witness:
  "completed_at_persist (run_discoveries [(2, EnsureDiscovery (sample_query ''e''))] sample_discoveries)"
proof -
  have s: "ad_discoveries (rp_db sample_discoveries) = [new_discovery ''w'' 1 (sample_query ''d'')]"
    by code_simp
  then have "completed_at_persist sample_discoveries"
    by (simp add: completed_at_persist_def new_discovery_def)
  moreover have "new_discovery ''w'' 1 (sample_query ''d'') \<in> set (ad_discoveries (rp_db sample_discoveries))"
    by (simp add: s)
  ultimately show ?thesis using discoveries_only_move_forward by blast
qed

end
