(* ===== verification/KeyPool.thy ===== *)
theory KeyPool
  imports ActorStore Store PyText
begin

section \<open>The pool of Apify keys: tables, membership, drain and failover\<close>

text \<open>
  \<open>apify_key_pool.py\<close> and \<open>apify_pool_drain.py\<close>.  A workspace has one active key and ordered
  standbys; one further key may serve validation only.  Each change of the pool bumps its generation,
  which leases carry.  A failing key is drained: when the runs that were started with it have ended,
  the first standby takes its place.  The unique indexes of the tables are tests of each statement.
  A method runs in its own transaction; a method that raises after its commit keeps the changes.
\<close>

subsection \<open>Tables\<close>

datatype pool_status = EmptyPool | ReadyPool | DrainingPool | BlockedPool | ExhaustedPool

datatype key_role = AcquisitionKey | ValidationKey

datatype key_status = ActiveKey | StandbyKey | DrainingKey | DepletedKey | InvalidKey

datatype run_purpose = AcquisitionRun | ValidationRun

datatype run_status =
    ReservedRun | StartingRun | RunningRun | AbortingRun | UnknownStart
  | SucceededRun | FailedRun | AbortedRun | TimedOutRun | StartRejectedRun | CancelledRun

record pool_state =
  ps_workspace_id :: string
  ps_generation :: int
  ps_status :: pool_status
  ps_active :: "string option"
  ps_draining :: "string option"
  ps_drain_generation :: "int option"
  ps_drain_target :: "key_status option"
  ps_drain_reason :: "string option"
  ps_drain_started_at :: "time option"
  ps_blocked_reason :: "string option"
  ps_updated_at :: time

record key_quota =
  kq_cycle_start_at :: "time option"
  kq_cycle_end_at :: "time option"
  kq_last_checked_at :: "time option"
  kq_monthly_included :: "usd option"
  kq_monthly_usage :: "usd option"
  kq_remaining :: "usd option"
  kq_max_monthly_usage :: "usd option"
  kq_remaining_hard_limit :: "usd option"

record pool_member =
  pm_workspace_id :: string
  pm_secret_id :: string
  pm_role :: key_role
  pm_position :: int
  pm_status :: key_status
  pm_blocked_until :: "time option"
  pm_last_error_code :: "string option"
  pm_quota :: key_quota

record actor_run =
  ar_id :: string
  ar_workspace_id :: string
  ar_logical_run_id :: "string option"
  ar_purpose :: run_purpose
  ar_secret_id :: string
  ar_secret_version :: int
  ar_pool_generation :: int
  ar_remote_run_id :: "string option"
  ar_dataset_id :: "string option"
  ar_status :: run_status
  ar_last_error_code :: "string option"
  ar_charge_reserved :: usd
  ar_charge_actual :: "usd option"
  ar_charge_final :: bool
  ar_created_at :: time
  ar_started_at :: "time option"
  ar_terminal_at :: "time option"
  ar_updated_at :: time

record secret_ref =
  sr_id :: string
  sr_workspace_id :: string
  sr_env_name :: string
  sr_kind :: string
  sr_provider :: string
  sr_version :: int

text \<open>The pool lives beside the attempts of ActorOps and the jobs, which the fence before a start
  reads.\<close>

record pool_db =
  pd_states :: "pool_state list"
  pd_members :: "pool_member list"
  pd_runs :: "actor_run list"
  pd_secrets :: "secret_ref list"
  pd_attempts :: "attempt list"
  pd_jobs :: "job list"
  pd_id_source :: "nat \<Rightarrow> string"
  pd_drawn :: nat

definition terminal_run :: "run_status \<Rightarrow> bool" where
  "terminal_run s \<longleftrightarrow> s \<in> {SucceededRun, FailedRun, AbortedRun, TimedOutRun, StartRejectedRun, CancelledRun}"

definition open_run :: "run_status \<Rightarrow> bool" where
  "open_run s \<longleftrightarrow> s \<in> {ReservedRun, StartingRun, RunningRun, AbortingRun, UnknownStart}"

subsection \<open>Errors and transactions\<close>

datatype pool_error =
    PoolConflict | KeyBusy | DrainPending nat | PoolExhausted | PoolIsBlocked | ValidationKeyRequired
  | RunLeaseError | PoolLookupError | PoolValueError | PoolIntegrityError

type_synonym 'a attempted = "pool_error + 'a"
type_synonym 'a pool_result = "(pool_error + 'a) \<times> pool_db"

definition try_then :: "'a attempted \<Rightarrow> ('a \<Rightarrow> 'b attempted) \<Rightarrow> 'b attempted" where
  "try_then m k = (case m of Inl e \<Rightarrow> Inl e | Inr x \<Rightarrow> k x)"

text \<open>A body that raises is rolled back; one that commits gives what follows the commit, a result
  or an exception, and the new tables.\<close>

definition pool_txn :: "(pool_db \<Rightarrow> ('a attempted \<times> pool_db) attempted) \<Rightarrow> pool_db \<Rightarrow> 'a pool_result" where
  "pool_txn body d = (case body d of Inl e \<Rightarrow> (Inl e, d) | Inr (r, d') \<Rightarrow> (r, d'))"

subsection \<open>Statements\<close>

definition members_ok :: "pool_member list \<Rightarrow> bool" where
  "members_ok ms \<longleftrightarrow>
     distinct (map (\<lambda>m. (pm_workspace_id m, pm_secret_id m)) ms)
     \<and> distinct (map (\<lambda>m. (pm_workspace_id m, pm_position m)) ms)
     \<and> distinct (map pm_workspace_id (filter (\<lambda>m. pm_status m = ActiveKey \<and> pm_role m = AcquisitionKey) ms))
     \<and> distinct (map pm_workspace_id (filter (\<lambda>m. pm_role m = ValidationKey) ms))
     \<and> list_all (\<lambda>m. 0 \<le> pm_position m) ms"

definition runs_unique :: "actor_run list \<Rightarrow> bool" where
  "runs_unique rs \<longleftrightarrow>
     distinct (map ar_id rs)
     \<and> distinct (map (\<lambda>r. (ar_workspace_id r, ar_remote_run_id r)) (filter (\<lambda>r. ar_remote_run_id r \<noteq> None) rs))"

definition write_members :: "pool_member list \<Rightarrow> pool_db \<Rightarrow> pool_db attempted" where
  "write_members ms d = (if members_ok ms then Inr (d\<lparr>pd_members := ms\<rparr>) else Inl PoolIntegrityError)"

definition write_runs :: "actor_run list \<Rightarrow> pool_db \<Rightarrow> pool_db attempted" where
  "write_runs rs d = (if runs_unique rs then Inr (d\<lparr>pd_runs := rs\<rparr>) else Inl PoolIntegrityError)"

definition is_member :: "string \<Rightarrow> string \<Rightarrow> pool_member \<Rightarrow> bool" where
  "is_member w s m \<longleftrightarrow> pm_workspace_id m = w \<and> pm_secret_id m = s"

definition update_member :: "string \<Rightarrow> string \<Rightarrow> (pool_member \<Rightarrow> pool_member) \<Rightarrow> pool_db \<Rightarrow> pool_db attempted" where
  "update_member w s f d = write_members (update_where (is_member w s) f (pd_members d)) d"

definition update_run :: "string \<Rightarrow> (actor_run \<Rightarrow> actor_run) \<Rightarrow> pool_db \<Rightarrow> pool_db attempted" where
  "update_run i f d = write_runs (update_where (\<lambda>r. ar_id r = i) f (pd_runs d)) d"

definition update_state :: "string \<Rightarrow> (pool_state \<Rightarrow> pool_state) \<Rightarrow> pool_db \<Rightarrow> pool_db" where
  "update_state w f d = d\<lparr>pd_states := update_where (\<lambda>st. ps_workspace_id st = w) f (pd_states d)\<rparr>"

definition state_row :: "string \<Rightarrow> pool_db \<Rightarrow> pool_state attempted" where
  "state_row w d = (case lookup_row ps_workspace_id w (pd_states d) of None \<Rightarrow> Inl PoolLookupError | Some st \<Rightarrow> Inr st)"

definition find_member :: "string \<Rightarrow> string \<Rightarrow> pool_db \<Rightarrow> pool_member option" where
  "find_member w s d = find (is_member w s) (pd_members d)"

definition member_rows :: "string \<Rightarrow> pool_db \<Rightarrow> pool_member list" where
  "member_rows w d = sort_key (\<lambda>m. (pm_position m, pm_secret_id m)) (filter (\<lambda>m. pm_workspace_id m = w) (pd_members d))"

definition member_ids :: "string \<Rightarrow> pool_db \<Rightarrow> string list" where
  "member_ids w d = map pm_secret_id (member_rows w d)"

definition max_position :: "string \<Rightarrow> pool_db \<Rightarrow> int" where
  "max_position w d = fold max (map pm_position (filter (\<lambda>m. pm_workspace_id m = w) (pd_members d))) (- 1)"

text \<open>\<open>_compact_positions\<close>: every row is first moved above all positions in use, so that no two rows
  meet on the way.\<close>

fun place :: "string \<Rightarrow> int \<Rightarrow> string list \<Rightarrow> pool_db \<Rightarrow> pool_db attempted" where
  "place w k [] d = Inr d"
| "place w k (s # ss) d = try_then (update_member w s (\<lambda>m. m\<lparr>pm_position := k\<rparr>) d) (place w (k + 1) ss)"

definition compact_positions :: "string \<Rightarrow> string list \<Rightarrow> pool_db \<Rightarrow> pool_db attempted" where
  "compact_positions w ids d =
     try_then (place w (max_position w d + int (length ids) + 1) ids d) (place w 0 ids)"

definition open_runs_of :: "string \<Rightarrow> string \<Rightarrow> pool_db \<Rightarrow> nat" where
  "open_runs_of w s d =
     length (filter (\<lambda>r. ar_workspace_id r = w \<and> ar_secret_id r = s \<and> open_run (ar_status r)) (pd_runs d))"

definition no_active :: "pool_state \<Rightarrow> bool" where
  "no_active st \<longleftrightarrow> \<not> truthy (or_empty (ps_active st))"

definition error_code_char :: "char \<Rightarrow> bool" where
  "error_code_char c \<longleftrightarrow> is_digit c \<or> c = CHR ''_'' \<or> (let n = (of_char c :: nat) in 97 \<le> n \<and> n \<le> 122)"

definition safe_error_code :: "string \<Rightarrow> string \<Rightarrow> string" where
  "safe_error_code v fallback =
     (let c = casefold (strip v) in if c \<noteq> [] \<and> length c \<le> 96 \<and> list_all error_code_char c then c else fallback)"

subsection \<open>What is shown of a pool\<close>

record member_view =
  mv_secret_id :: string
  mv_role :: key_role
  mv_position :: int
  mv_status :: key_status
  mv_blocked_until :: "time option"
  mv_cycle_end_at :: "time option"
  mv_last_checked_at :: "time option"
  mv_last_error_code :: "string option"
  mv_open_runs :: nat

record pool_view =
  vw_generation :: int
  vw_status :: pool_status
  vw_active :: "string option"
  vw_draining :: "string option"
  vw_blocked_reason :: "string option"
  vw_retry_at :: "time option"
  vw_validation_key :: "(string \<times> key_status) option"
  vw_members :: "member_view list"

definition view_member :: "pool_db \<Rightarrow> pool_member \<Rightarrow> member_view" where
  "view_member d m = \<lparr>mv_secret_id = pm_secret_id m, mv_role = pm_role m, mv_position = pm_position m,
     mv_status = pm_status m, mv_blocked_until = pm_blocked_until m, mv_cycle_end_at = kq_cycle_end_at (pm_quota m),
     mv_last_checked_at = kq_last_checked_at (pm_quota m), mv_last_error_code = pm_last_error_code m,
     mv_open_runs = open_runs_of (pm_workspace_id m) (pm_secret_id m) d\<rparr>"

fun option_list :: "'a option \<Rightarrow> 'a list" where
  "option_list None = []"
| "option_list (Some x) = [x]"

definition retry_times :: "pool_member list \<Rightarrow> time list" where
  "retry_times ms = concat (map (\<lambda>m. option_list (pm_blocked_until m) @ option_list (kq_cycle_end_at (pm_quota m)))
     (filter (\<lambda>m. pm_role m = AcquisitionKey \<and> pm_status m = DepletedKey) ms))"

definition public_state :: "string \<Rightarrow> pool_db \<Rightarrow> pool_view attempted" where
  "public_state w d = try_then (state_row w d) (\<lambda>st.
     let ms = member_rows w d; ts = retry_times ms in
     Inr \<lparr>vw_generation = ps_generation st, vw_status = ps_status st, vw_active = ps_active st,
       vw_draining = ps_draining st, vw_blocked_reason = ps_blocked_reason st,
       vw_retry_at = (case ts of [] \<Rightarrow> None | t # rest \<Rightarrow> Some (fold min rest t)),
       vw_validation_key = map_option (\<lambda>m. (pm_secret_id m, pm_status m)) (find (\<lambda>m. pm_role m = ValidationKey) ms),
       vw_members = map (view_member d) ms\<rparr>)"

definition current_generation :: "string \<Rightarrow> pool_db \<Rightarrow> int attempted" where
  "current_generation w d = try_then (state_row w d) (\<lambda>st. Inr (ps_generation st))"

definition apify_pool_generation :: "string \<Rightarrow> pool_db \<Rightarrow> int option" where
  "apify_pool_generation w d = map_option ps_generation (lookup_row ps_workspace_id w (pd_states d))"

datatype gate = GateOpen | GateClosed pool_error "string option" "time option"

definition schedule_gate :: "string \<Rightarrow> time \<Rightarrow> pool_db \<Rightarrow> gate attempted" where
  "schedule_gate w now d = try_then (public_state w d) (\<lambda>v. Inr
     (case vw_status v of
        ReadyPool \<Rightarrow> GateOpen
      | DrainingPool \<Rightarrow> GateClosed (DrainPending 0) None (Some (now + seconds 30))
      | EmptyPool \<Rightarrow> GateClosed PoolExhausted None (vw_retry_at v)
      | ExhaustedPool \<Rightarrow> GateClosed PoolExhausted None (vw_retry_at v)
      | BlockedPool \<Rightarrow> GateClosed PoolIsBlocked (vw_blocked_reason v) None))"

text \<open>The end of most methods: the changes are committed and the pool is shown.\<close>

definition committed :: "string \<Rightarrow> pool_db \<Rightarrow> (pool_view attempted \<times> pool_db) attempted" where
  "committed w d = Inr (public_state w d, d)"

definition bump :: "string \<Rightarrow> time \<Rightarrow> (pool_state \<Rightarrow> pool_state) \<Rightarrow> pool_db \<Rightarrow> pool_db" where
  "bump w now f = update_state w (\<lambda>st. (f st)\<lparr>ps_generation := ps_generation st + 1, ps_updated_at := now\<rparr>)"

subsection \<open>The validation key\<close>

definition normal_id :: "string option \<Rightarrow> string option" where
  "normal_id s = (let t = strip (or_empty s) in if t = [] then None else Some t)"

definition demote_validation :: "string \<Rightarrow> pool_member option \<Rightarrow> pool_db \<Rightarrow> pool_db attempted" where
  "demote_validation w current d =
     (case current of None \<Rightarrow> Inr d
      | Some c \<Rightarrow> update_member w (pm_secret_id c) (\<lambda>m. m\<lparr>pm_role := AcquisitionKey\<rparr>) d)"

definition promote_validation :: "string \<Rightarrow> string option \<Rightarrow> pool_db \<Rightarrow> pool_db attempted" where
  "promote_validation w selected d =
     (case selected of None \<Rightarrow> Inr d
      | Some s \<Rightarrow> update_member w s (\<lambda>m. m\<lparr>pm_role := ValidationKey, pm_status := StandbyKey, pm_blocked_until := None,
                    pm_last_error_code := None\<rparr>) d)"

definition assign_validation ::
  "string \<Rightarrow> pool_member option \<Rightarrow> string option \<Rightarrow> time \<Rightarrow> pool_db \<Rightarrow> (pool_view attempted \<times> pool_db) attempted" where
  "assign_validation w current selected now d =
     try_then (demote_validation w current d) (\<lambda>d1.
     try_then (promote_validation w selected d1) (\<lambda>d2.
     committed w (bump w now id d2)))"

definition validation_body ::
  "string \<Rightarrow> string option \<Rightarrow> int \<Rightarrow> time \<Rightarrow> pool_db \<Rightarrow> (pool_view attempted \<times> pool_db) attempted" where
  "validation_body w selected expected now d = try_then (state_row w d) (\<lambda>st.
     if ps_generation st \<noteq> expected then Inl PoolConflict
     else
       let current = find (\<lambda>m. pm_workspace_id m = w \<and> pm_role m = ValidationKey) (pd_members d) in
       if (case current of None \<Rightarrow> False | Some c \<Rightarrow> open_runs_of w (pm_secret_id c) d \<noteq> 0) then Inl KeyBusy
       else case selected of
         None \<Rightarrow> assign_validation w current None now d
       | Some s \<Rightarrow>
          (case find_member w s d of
             None \<Rightarrow> Inl PoolLookupError
           | Some t \<Rightarrow>
               if pm_role t = ValidationKey then committed w d
               else if pm_status t \<in> {ActiveKey, DrainingKey} \<or> ps_active st = Some s then Inl KeyBusy
               else if pm_status t \<noteq> StandbyKey then Inl KeyBusy
               else if open_runs_of w s d \<noteq> 0 then Inl KeyBusy
               else assign_validation w current (Some s) now d))"

definition set_validation_key :: "string \<Rightarrow> string option \<Rightarrow> int \<Rightarrow> time \<Rightarrow> pool_db \<Rightarrow> pool_view pool_result" where
  "set_validation_key w secret_id expected now = pool_txn (validation_body w (normal_id secret_id) expected now)"

subsection \<open>Membership\<close>

definition others :: "string \<Rightarrow> string \<Rightarrow> pool_db \<Rightarrow> string list" where
  "others w s d = filter (\<lambda>x. x \<noteq> s) (member_ids w d)"

definition fresh_quota :: key_quota where
  "fresh_quota = \<lparr>kq_cycle_start_at = None, kq_cycle_end_at = None, kq_last_checked_at = None, kq_monthly_included = None,
     kq_monthly_usage = None, kq_remaining = None, kq_max_monthly_usage = None, kq_remaining_hard_limit = None\<rparr>"

definition activate_key :: "string \<Rightarrow> pool_state \<Rightarrow> pool_state" where
  "activate_key s x = x\<lparr>ps_status := ReadyPool, ps_active := Some s, ps_blocked_reason := None\<rparr>"

definition append_body :: "string \<Rightarrow> time \<Rightarrow> pool_db \<Rightarrow> (pool_view attempted \<times> pool_db) attempted" where
  "append_body s now d =
     (case lookup_row sr_id s (pd_secrets d) of
        None \<Rightarrow> Inl PoolLookupError
      | Some sr \<Rightarrow>
         if casefold (sr_provider sr) \<noteq> ''apify'' \<and> casefold (sr_kind sr) \<noteq> ''apify'' then Inl PoolValueError
         else let w = sr_workspace_id sr in try_then (state_row w d) (\<lambda>st.
           if find_member w s d \<noteq> None then committed w d
           else
             let activate = (ps_status st \<in> {EmptyPool, ExhaustedPool} \<and> no_active st);
                 m = \<lparr>pm_workspace_id = w, pm_secret_id = s, pm_role = AcquisitionKey, pm_position = max_position w d + 1,
                      pm_status = (if activate then ActiveKey else StandbyKey), pm_blocked_until = None,
                      pm_last_error_code = None, pm_quota = fresh_quota\<rparr>
             in try_then (write_members (pd_members d @ [m]) d) (\<lambda>d1.
                if activate
                then try_then (compact_positions w (s # others w s d1) d1) (\<lambda>d2.
                       committed w (bump w now (activate_key s) d2))
                else committed w (bump w now id d1))))"

definition append_secret :: "string \<Rightarrow> time \<Rightarrow> pool_db \<Rightarrow> pool_view pool_result" where
  "append_secret s now = pool_txn (append_body s now)"

definition replace_active ::
  "string \<Rightarrow> string \<Rightarrow> string \<Rightarrow> bool \<Rightarrow> time \<Rightarrow> pool_db \<Rightarrow> pool_db attempted" where
  "replace_active w old new enabled now d =
     (if (case find_member w new d of None \<Rightarrow> True | Some m \<Rightarrow> pm_role m \<noteq> AcquisitionKey) then Inl PoolValueError
      else if enabled \<or> open_runs_of w old d \<noteq> 0 then Inl KeyBusy
      else
        try_then (update_member w old (\<lambda>m. m\<lparr>pm_status := StandbyKey\<rparr>) d) (\<lambda>d1.
        try_then (update_member w new (\<lambda>m. m\<lparr>pm_status := ActiveKey\<rparr>) d1) (\<lambda>d2.
        Inr (update_state w (\<lambda>st. st\<lparr>ps_active := Some new, ps_updated_at := now\<rparr>) d2))))"

definition reorder_body ::
  "string \<Rightarrow> int \<Rightarrow> string list \<Rightarrow> bool \<Rightarrow> time \<Rightarrow> pool_db \<Rightarrow> (pool_view attempted \<times> pool_db) attempted" where
  "reorder_body w expected ids enabled now d = try_then (state_row w d) (\<lambda>st.
     if ps_generation st \<noteq> expected then Inl PoolConflict
     else if ps_status st \<in> {DrainingPool, BlockedPool} then Inl KeyBusy
     else if length ids \<noteq> length (member_ids w d) \<or> set ids \<noteq> set (member_ids w d) then Inl PoolValueError
     else
       let active = or_empty (ps_active st) in
       try_then (if truthy active \<and> ids \<noteq> [] \<and> hd ids \<noteq> active
                 then replace_active w active (hd ids) enabled now d else Inr d) (\<lambda>d1.
       try_then (compact_positions w ids d1) (\<lambda>d2.
       committed w (bump w now id d2))))"

definition reorder ::
  "string \<Rightarrow> int \<Rightarrow> string list \<Rightarrow> bool \<Rightarrow> time \<Rightarrow> pool_db \<Rightarrow> pool_view pool_result" where
  "reorder w expected ids enabled now d =
     (if \<not> distinct ids then (Inl PoolValueError, d) else pool_txn (reorder_body w expected ids enabled now) d)"

subsection \<open>Drain and failover\<close>

definition start_drain :: "string \<Rightarrow> key_status \<Rightarrow> string \<Rightarrow> time \<Rightarrow> pool_state \<Rightarrow> pool_state" where
  "start_drain s target why now x = x\<lparr>ps_status := DrainingPool, ps_draining := Some s,
     ps_drain_generation := Some (ps_generation x), ps_drain_target := Some target, ps_drain_reason := Some why,
     ps_drain_started_at := Some now, ps_blocked_reason := None, ps_updated_at := now\<rparr>"

text \<open>\<open>_begin_drain_in_transaction\<close> answers whether the pool drains now.\<close>

definition begin_drain_in ::
  "string \<Rightarrow> string \<Rightarrow> key_status \<Rightarrow> string \<Rightarrow> time \<Rightarrow> pool_db \<Rightarrow> (bool \<times> pool_db) attempted" where
  "begin_drain_in w s target reason now d =
     (if target \<notin> {StandbyKey, DepletedKey, InvalidKey} then Inl PoolValueError
      else try_then (state_row w d) (\<lambda>st.
        case find_member w s d of
          None \<Rightarrow> Inl PoolLookupError
        | Some m \<Rightarrow>
           let why = safe_error_code reason ''apify_key_drain'' in
           if ps_status st = DrainingPool then (if ps_draining st \<noteq> Some s then Inl KeyBusy else Inr (True, d))
           else if ps_status st = BlockedPool then Inl PoolIsBlocked
           else if ps_active st \<noteq> Some s then
             (if pm_status m \<notin> {DrainingKey, ActiveKey}
              then try_then (update_member w s (\<lambda>x. x\<lparr>pm_status := target, pm_last_error_code := Some why\<rparr>) d)
                     (\<lambda>d1. Inr (False, d1))
              else Inr (False, d))
           else
             try_then (update_member w s (\<lambda>x. x\<lparr>pm_status := DrainingKey, pm_last_error_code := Some why\<rparr>) d) (\<lambda>d1.
             Inr (True, update_state w (start_drain s target why now) d1))))"

definition owner_of :: "string \<Rightarrow> pool_db \<Rightarrow> pool_member option" where
  "owner_of s d = lookup_row pm_secret_id s (pd_members d)"

definition begin_drain :: "string \<Rightarrow> key_status \<Rightarrow> string \<Rightarrow> time \<Rightarrow> pool_db \<Rightarrow> pool_view pool_result" where
  "begin_drain s target reason now = pool_txn (\<lambda>d.
     case owner_of s d of
       None \<Rightarrow> Inl PoolLookupError
     | Some m \<Rightarrow> try_then (begin_drain_in (pm_workspace_id m) s target reason now d)
                   (\<lambda>x. committed (pm_workspace_id m) (snd x)))"

definition role_of :: "string \<Rightarrow> string \<Rightarrow> pool_db \<Rightarrow> key_role option" where
  "role_of w s d = map_option pm_role (find_member w s d)"

definition acquisition_open_runs :: "string \<Rightarrow> int \<Rightarrow> pool_db \<Rightarrow> actor_run list" where
  "acquisition_open_runs w g d =
     sort_key (\<lambda>r. (ar_pool_generation r, ar_created_at r, ar_id r))
       (filter (\<lambda>r. ar_workspace_id r = w \<and> role_of w (ar_secret_id r) d = Some AcquisitionKey
          \<and> ar_pool_generation r \<le> g \<and> open_run (ar_status r)) (pd_runs d))"

definition drain_generation :: "pool_state \<Rightarrow> int" where
  "drain_generation st =
     (case ps_drain_generation st of None \<Rightarrow> ps_generation st | Some g \<Rightarrow> if g = 0 then ps_generation st else g)"

definition first_standby :: "string \<Rightarrow> string \<Rightarrow> pool_db \<Rightarrow> string option" where
  "first_standby w except d = map_option pm_secret_id
     (find (\<lambda>m. pm_status m = StandbyKey \<and> pm_role m = AcquisitionKey \<and> pm_secret_id m \<noteq> except) (member_rows w d))"

definition failover_order :: "string \<Rightarrow> string \<Rightarrow> string option \<Rightarrow> pool_db \<Rightarrow> string list" where
  "failover_order w old candidate d =
     (let rest = filter (\<lambda>m. Some (pm_secret_id m) \<noteq> candidate \<and> pm_secret_id m \<noteq> old) (member_rows w d)
      in option_list candidate
         @ map pm_secret_id (filter (\<lambda>m. pm_status m = StandbyKey) rest)
         @ map pm_secret_id (filter (\<lambda>m. pm_status m \<noteq> StandbyKey) rest)
         @ [old])"

definition retire :: "key_status \<Rightarrow> pool_member \<Rightarrow> pool_member" where
  "retire target m = m\<lparr>pm_status := target,
     pm_blocked_until := (if target = DepletedKey
        then (case kq_cycle_end_at (pm_quota m) of None \<Rightarrow> pm_blocked_until m | Some t \<Rightarrow> Some t)
        else pm_blocked_until m)\<rparr>"

definition switch_to :: "string option \<Rightarrow> pool_state \<Rightarrow> pool_state" where
  "switch_to candidate x = x\<lparr>ps_status := (if candidate = None then ExhaustedPool else ReadyPool), ps_active := candidate,
     ps_draining := None, ps_drain_generation := None, ps_drain_target := None, ps_drain_reason := None,
     ps_drain_started_at := None, ps_blocked_reason := None\<rparr>"

definition make_active :: "pool_member \<Rightarrow> pool_member" where
  "make_active m = m\<lparr>pm_status := ActiveKey, pm_blocked_until := None\<rparr>"

definition failover_body :: "string \<Rightarrow> time \<Rightarrow> pool_db \<Rightarrow> (pool_view attempted \<times> pool_db) attempted" where
  "failover_body w now d = try_then (state_row w d) (\<lambda>st.
     if ps_status st = BlockedPool then Inl PoolIsBlocked
     else if ps_status st \<noteq> DrainingPool then committed w d
     else
       let waiting = acquisition_open_runs w (drain_generation st) d in
       if waiting \<noteq> [] then Inl (DrainPending (length waiting))
       else
         let old = or_empty (ps_draining st);
             target = (case ps_drain_target st of None \<Rightarrow> StandbyKey | Some t \<Rightarrow> t)
         in try_then (update_member w old (retire target) d) (\<lambda>d1.
            let candidate = first_standby w old d1 in
            try_then (compact_positions w (failover_order w old candidate d1) d1) (\<lambda>d2.
            try_then (case candidate of None \<Rightarrow> Inr d2
                      | Some c \<Rightarrow> update_member w c make_active d2) (\<lambda>d3.
            committed w (bump w now (switch_to candidate) d3)))))"

definition complete_drain_and_failover :: "string \<Rightarrow> time \<Rightarrow> pool_db \<Rightarrow> pool_view pool_result" where
  "complete_drain_and_failover w now = pool_txn (failover_body w now)"

subsection \<open>Rotation and removal\<close>

definition restart_key :: "bool \<Rightarrow> pool_member \<Rightarrow> pool_member" where
  "restart_key active m = m\<lparr>pm_status := (if active then ActiveKey else StandbyKey), pm_blocked_until := None,
     pm_last_error_code := None, pm_quota := fresh_quota\<rparr>"

definition rotate_member ::
  "string \<Rightarrow> string \<Rightarrow> bool \<Rightarrow> bool \<Rightarrow> time \<Rightarrow> pool_db \<Rightarrow> (pool_view option attempted \<times> pool_db) attempted" where
  "rotate_member w s remains activate now d =
     try_then (update_member w s (restart_key (remains \<or> activate)) d) (\<lambda>d1.
     try_then (if remains then Inr d1
               else compact_positions w (if activate then s # others w s d1 else others w s d1 @ [s]) d1) (\<lambda>d2.
     let d3 = bump w now (if activate then activate_key s else id) d2
     in Inr (try_then (public_state w d3) (\<lambda>v. Inr (Some v)), d3)))"

definition rotated_body :: "string \<Rightarrow> time \<Rightarrow> pool_db \<Rightarrow> (pool_view option attempted \<times> pool_db) attempted" where
  "rotated_body s now d =
     (case owner_of s d of
        None \<Rightarrow> Inr (Inr None, d)
      | Some m \<Rightarrow>
         let w = pm_workspace_id m in try_then (state_row w d) (\<lambda>st.
         if open_runs_of w s d \<noteq> 0 \<or> pm_status m = DrainingKey \<or> ps_status st \<in> {DrainingPool, BlockedPool}
         then Inl KeyBusy
         else
           let production = (pm_role m \<noteq> ValidationKey);
               remains = (production \<and> ps_active st = Some s);
               activate = (production \<and> \<not> remains \<and> no_active st \<and> ps_status st \<in> {EmptyPool, ReadyPool, ExhaustedPool})
           in rotate_member w s remains activate now d))"

definition mark_secret_rotated :: "string \<Rightarrow> time \<Rightarrow> pool_db \<Rightarrow> pool_view option pool_result" where
  "mark_secret_rotated s now = pool_txn (rotated_body s now)"

record key_lifecycle =
  kl_member :: "(string \<times> key_status) option"
  kl_busy :: bool
  kl_open_runs :: nat

definition secret_lifecycle :: "string \<Rightarrow> pool_db \<Rightarrow> key_lifecycle" where
  "secret_lifecycle s d =
     (case owner_of s d of
        None \<Rightarrow> \<lparr>kl_member = None, kl_busy = False, kl_open_runs = 0\<rparr>
      | Some m \<Rightarrow>
         let n = open_runs_of (pm_workspace_id m) s d
         in \<lparr>kl_member = Some (pm_workspace_id m, pm_status m), kl_busy = (pm_status m \<in> {ActiveKey, DrainingKey} \<or> 0 < n),
             kl_open_runs = n\<rparr>)"

definition ensure_secret_mutable :: "string \<Rightarrow> pool_db \<Rightarrow> key_lifecycle attempted" where
  "ensure_secret_mutable s d =
     (let l = secret_lifecycle s d in
      try_then (case kl_member l of
                  None \<Rightarrow> Inr False
                | Some (w, _) \<Rightarrow> try_then (state_row w d) (\<lambda>st. Inr (ps_status st \<in> {DrainingPool, BlockedPool}))) (\<lambda>pool_busy.
      if kl_busy l \<or> pool_busy then Inl KeyBusy else Inr l))"

definition promote_key :: "pool_member \<Rightarrow> pool_member" where
  "promote_key m = m\<lparr>pm_status := ActiveKey\<rparr>"

definition after_removal :: "pool_member list \<Rightarrow> string option \<Rightarrow> pool_state \<Rightarrow> pool_state" where
  "after_removal rows candidate x = x\<lparr>
     ps_status := (if ps_active x \<noteq> None \<or> candidate \<noteq> None then ReadyPool
                   else if list_ex (\<lambda>r. pm_role r = AcquisitionKey) rows then ExhaustedPool else EmptyPool),
     ps_active := (case ps_active x of None \<Rightarrow> candidate | Some a \<Rightarrow> Some a)\<rparr>"

definition remove_body :: "string \<Rightarrow> time \<Rightarrow> pool_db \<Rightarrow> (pool_view option attempted \<times> pool_db) attempted" where
  "remove_body s now d =
     (case owner_of s d of
        None \<Rightarrow> Inr (Inr None, d)
      | Some m \<Rightarrow>
         let w = pm_workspace_id m in
         if pm_status m \<in> {ActiveKey, DrainingKey} \<or> open_runs_of w s d \<noteq> 0 then Inl KeyBusy
         else
           try_then (write_members (filter (\<lambda>x. \<not> is_member w s x) (pd_members d)) d) (\<lambda>d1.
           let rows = member_rows w d1 in
           try_then (compact_positions w (map pm_secret_id rows) d1) (\<lambda>d2.
           try_then (state_row w d2) (\<lambda>st.
           let candidate = (if no_active st \<and> ps_status st \<notin> {DrainingPool, BlockedPool}
                            then map_option pm_secret_id (find (\<lambda>x. pm_status x = StandbyKey \<and> pm_role x = AcquisitionKey)
                                   (member_rows w d2))
                            else None)
           in try_then (case candidate of None \<Rightarrow> Inr d2
                        | Some c \<Rightarrow> update_member w c promote_key d2) (\<lambda>d3.
              let d4 = bump w now (after_removal rows candidate) d3
              in Inr (try_then (public_state w d4) (\<lambda>v. Inr (Some v)), d4))))))"

definition remove_secret :: "string \<Rightarrow> time \<Rightarrow> pool_db \<Rightarrow> pool_view option pool_result" where
  "remove_secret s now = pool_txn (remove_body s now)"

end
