(* ===== verification/KeyRuns.thy ===== *)
theory KeyRuns
  imports KeyPool
begin

section \<open>Leases of keys, actor runs, quotas\<close>

text \<open>
  The rest of \<open>apify_key_pool.py\<close>: a lease pins the active key for one run and reserves the run before
  the request is sent; the run is registered, aborted and ended under its lease.
  \<open>actorops_start_fence.py\<close> is asked before a reservation and again before the request.  An unknown
  outcome blocks the pool until it is proved that no run was created
  (\<open>apify_key_pool_unknown_start.py\<close>, \<open>apify_settled_start_recovery.py\<close>).  The secret store is the
  argument \<open>kc_tokens\<close>; amounts and instants are given as numbers.
\<close>

subsection \<open>The fence before a start\<close>

definition claimed_job :: "string \<Rightarrow> string \<Rightarrow> time \<Rightarrow> pool_db \<Rightarrow> bool" where
  "claimed_job w i now d \<longleftrightarrow>
     (case find (\<lambda>j. j_workspace_id j = w \<and> j_id j = i) (pd_jobs d) of
        None \<Rightarrow> False
      | Some j \<Rightarrow> j_status j = Running \<and> truthy (or_empty (j_worker_id j)) \<and> truthy (or_empty (j_claim_token j))
                 \<and> (case j_locked_until j of None \<Rightarrow> False | Some t \<Rightarrow> now \<le> t))"

definition reserves :: "string \<Rightarrow> string \<Rightarrow> actor_run \<Rightarrow> bool" where
  "reserves w l r \<longleftrightarrow> ar_workspace_id r = w \<and> ar_purpose r = AcquisitionRun \<and> ar_logical_run_id r = Some l \<and> open_run (ar_status r)"

definition attempt_of :: "string \<Rightarrow> string \<Rightarrow> pool_db \<Rightarrow> attempt option" where
  "attempt_of w l d = find (\<lambda>a. at_workspace_id a = w \<and> at_id a = l) (pd_attempts d)"

definition acquisition_startable :: "string \<Rightarrow> string option \<Rightarrow> time \<Rightarrow> string option \<Rightarrow> pool_db \<Rightarrow> bool" where
  "acquisition_startable w logical now current d \<longleftrightarrow>
     (let l = or_empty logical in
      if \<not> truthy l then True
      else case attempt_of w l d of
        None \<Rightarrow> True
      | Some a \<Rightarrow>
          at_status a \<in> {Created, Starting} \<and> \<not> at_cost_final a \<and> at_remote_run_id a = None
          \<and> at_result_state a = PendingResult
          \<and> (at_kind a = FetchAttempt \<longrightarrow> claimed_job w (or_empty (at_logical_job_id a)) now d)
          \<and> \<not> (\<exists>r \<in> set (pd_runs d). reserves w l r \<and> Some (ar_id r) \<noteq> current))"

subsection \<open>Leases\<close>

record key_lease =
  ls_reservation_id :: string
  ls_secret_id :: string
  ls_secret_version :: int
  ls_pool_generation :: int
  ls_env_name :: string
  ls_token :: string
  ls_quota_check :: bool

record acquire_call =
  kc_workspace_id :: string
  kc_logical_run_id :: "string option"
  kc_expected_generation :: "int option"
  kc_purpose :: run_purpose
  kc_require_validation :: bool
  kc_tokens :: "string \<Rightarrow> string option"
  kc_quota_max_age :: int
  kc_now :: time

definition token_for_env :: "acquire_call \<Rightarrow> string \<Rightarrow> string option" where
  "token_for_env c env = normal_id (kc_tokens c env)"

definition quota_snapshot_stale :: "pool_member \<Rightarrow> time \<Rightarrow> int \<Rightarrow> bool" where
  "quota_snapshot_stale m now max_age \<longleftrightarrow>
     (case kq_last_checked_at (pm_quota m) of
        None \<Rightarrow> True
      | Some t \<Rightarrow> kq_remaining (pm_quota m) = None \<or> seconds max_age < abs (now - t))"

definition logical_id :: "string option \<Rightarrow> string option" where
  "logical_id l = (if truthy (or_empty l) then l else None)"

definition new_run :: "acquire_call \<Rightarrow> run_purpose \<Rightarrow> string \<Rightarrow> secret_ref \<Rightarrow> pool_state \<Rightarrow> actor_run" where
  "new_run c p i sr st =
     \<lparr>ar_id = i, ar_workspace_id = kc_workspace_id c, ar_logical_run_id = logical_id (kc_logical_run_id c), ar_purpose = p,
      ar_secret_id = sr_id sr, ar_secret_version = sr_version sr, ar_pool_generation = ps_generation st,
      ar_remote_run_id = None, ar_dataset_id = None, ar_status = ReservedRun, ar_last_error_code = None,
      ar_charge_reserved = 0, ar_charge_actual = None, ar_charge_final = False, ar_created_at = kc_now c,
      ar_started_at = None, ar_terminal_at = None, ar_updated_at = kc_now c\<rparr>"

definition lease_of :: "actor_run \<Rightarrow> string \<Rightarrow> string \<Rightarrow> bool \<Rightarrow> key_lease" where
  "lease_of r env token check =
     \<lparr>ls_reservation_id = ar_id r, ls_secret_id = ar_secret_id r, ls_secret_version = ar_secret_version r,
      ls_pool_generation = ar_pool_generation r, ls_env_name = env, ls_token = token, ls_quota_check = check\<rparr>"

datatype acquired = Leased key_lease | Drained string

definition reserve ::
  "acquire_call \<Rightarrow> run_purpose \<Rightarrow> secret_ref \<Rightarrow> pool_state \<Rightarrow> string \<Rightarrow> bool \<Rightarrow> pool_db
   \<Rightarrow> (acquired attempted \<times> pool_db) attempted" where
  "reserve c p sr st token check d =
     (let r = new_run c p (''apifyrun_'' @ pd_id_source d (pd_drawn d)) sr st in
      try_then (write_runs (pd_runs d @ [r]) (d\<lparr>pd_drawn := Suc (pd_drawn d)\<rparr>)) (\<lambda>d1.
      Inr (Inr (Leased (lease_of r (sr_env_name sr) token check)), d1)))"

text \<open>The dedicated key; \<open>None\<close> when there is none and the active key may be borrowed.\<close>

definition acquire_validation ::
  "acquire_call \<Rightarrow> string list \<Rightarrow> pool_state \<Rightarrow> pool_db \<Rightarrow> (acquired attempted \<times> pool_db) attempted option" where
  "acquire_validation c attempted st d =
     (let w = kc_workspace_id c in
      case find (\<lambda>m. pm_workspace_id m = w \<and> pm_role m = ValidationKey
                   \<and> lookup_row sr_id (pm_secret_id m) (pd_secrets d) \<noteq> None) (pd_members d) of
        None \<Rightarrow> if kc_require_validation c then Some (Inl ValidationKeyRequired) else None
      | Some m \<Rightarrow>
         (case lookup_row sr_id (pm_secret_id m) (pd_secrets d) of
            None \<Rightarrow> None
          | Some sr \<Rightarrow>
             let s = pm_secret_id m in Some (
             if s \<in> set attempted then Inl PoolExhausted
             else if pm_status m \<noteq> StandbyKey then Inl PoolIsBlocked
             else if open_runs_of w s d \<noteq> 0 then Inl KeyBusy
             else case token_for_env c (sr_env_name sr) of
               None \<Rightarrow> try_then (update_member w s (\<lambda>x. x\<lparr>pm_status := InvalidKey,
                          pm_last_error_code := Some ''apify_secret_not_configured''\<rparr>) d)
                        (\<lambda>d1. Inr (Inl PoolIsBlocked, d1))
             | Some token \<Rightarrow> reserve c ValidationRun sr st token False d)))"

definition acquire_active ::
  "acquire_call \<Rightarrow> string list \<Rightarrow> pool_state \<Rightarrow> pool_db \<Rightarrow> (acquired attempted \<times> pool_db) attempted" where
  "acquire_active c attempted st d =
     (let w = kc_workspace_id c; now = kc_now c; s = or_empty (ps_active st) in
      if ps_status st = DrainingPool then Inl (DrainPending 0)
      else if ps_status st = BlockedPool then Inl PoolIsBlocked
      else if ps_status st \<noteq> ReadyPool \<or> no_active st then Inl PoolExhausted
      else if s \<in> set attempted then Inl PoolExhausted
      else case (find_member w s d, find (\<lambda>x. sr_id x = s \<and> sr_workspace_id x = w) (pd_secrets d)) of
        (Some m, Some sr) \<Rightarrow>
          if pm_status m \<noteq> ActiveKey \<or> pm_role m \<noteq> AcquisitionKey then Inl PoolIsBlocked
          else
            let stale = quota_snapshot_stale m now (kc_quota_max_age c) in
            if \<not> stale \<and> (case kq_remaining (pm_quota m) of None \<Rightarrow> False | Some x \<Rightarrow> x \<le> 0)
            then try_then (begin_drain_in w s DepletedKey ''apify_credits_depleted'' now d) (\<lambda>x. Inr (Inr (Drained s), snd x))
            else (case token_for_env c (sr_env_name sr) of
                    None \<Rightarrow> try_then (begin_drain_in w s InvalidKey ''apify_secret_not_configured'' now d)
                             (\<lambda>x. Inr (Inr (Drained s), snd x))
                  | Some token \<Rightarrow> reserve c (kc_purpose c) sr st token stale d)
      | _ \<Rightarrow> Inl PoolIsBlocked)"

definition acquire_body :: "acquire_call \<Rightarrow> string list \<Rightarrow> pool_db \<Rightarrow> (acquired attempted \<times> pool_db) attempted" where
  "acquire_body c attempted d = try_then (state_row (kc_workspace_id c) d) (\<lambda>st.
     if kc_expected_generation c \<notin> {None, Some (ps_generation st)} then Inl PoolConflict
     else if kc_purpose c = AcquisitionRun
             \<and> \<not> acquisition_startable (kc_workspace_id c) (kc_logical_run_id c) (kc_now c) None d
     then Inl (DrainPending 0)
     else case (if kc_purpose c = ValidationRun then acquire_validation c attempted st d else None) of
            Some answer \<Rightarrow> answer
          | None \<Rightarrow> acquire_active c attempted st d)"

text \<open>One round: a lease, or the active key was drained and another one may be tried.\<close>

definition acquire_round :: "acquire_call \<Rightarrow> string list \<Rightarrow> pool_db \<Rightarrow> acquired pool_result" where
  "acquire_round c attempted d =
     (case pool_txn (acquire_body c attempted) d of
        (Inr (Drained s), d1) \<Rightarrow>
          (case complete_drain_and_failover (kc_workspace_id c) (kc_now c) d1 of
             (Inl e, d2) \<Rightarrow> (Inl e, d2)
           | (Inr v, d2) \<Rightarrow> if vw_status v = ExhaustedPool then (Inl PoolExhausted, d2) else (Inr (Drained s), d2))
      | other \<Rightarrow> other)"

text \<open>\<open>acquire_credential\<close> calls itself with one more attempted key; the fuel is the number of rounds.\<close>

fun acquire_rounds :: "nat \<Rightarrow> acquire_call \<Rightarrow> string list \<Rightarrow> pool_db \<Rightarrow> key_lease pool_result option" where
  "acquire_rounds 0 c attempted d = None"
| "acquire_rounds (Suc n) c attempted d =
     (case acquire_round c attempted d of
        (Inl e, d1) \<Rightarrow> Some (Inl e, d1)
      | (Inr (Leased l), d1) \<Rightarrow> Some (Inr l, d1)
      | (Inr (Drained s), d1) \<Rightarrow> acquire_rounds n c (attempted @ [s]) d1)"

definition acquire_credential :: "acquire_call \<Rightarrow> string list \<Rightarrow> pool_db \<Rightarrow> key_lease pool_result" where
  "acquire_credential c attempted d =
     (case acquire_rounds (Suc (length (pd_members d))) c attempted d of None \<Rightarrow> (Inl PoolExhausted, d) | Some r \<Rightarrow> r)"

subsection \<open>Runs under a lease\<close>

definition run_for_lease :: "key_lease \<Rightarrow> pool_db \<Rightarrow> actor_run attempted" where
  "run_for_lease l d =
     (case find (\<lambda>r. ar_id r = ls_reservation_id l \<and> ar_secret_id r = ls_secret_id l
                  \<and> ar_pool_generation r = ls_pool_generation l \<and> ar_secret_version r = ls_secret_version l) (pd_runs d) of
        None \<Rightarrow> Inl RunLeaseError
      | Some r \<Rightarrow> Inr r)"

definition get_run :: "string \<Rightarrow> pool_db \<Rightarrow> actor_run option" where
  "get_run i d = lookup_row ar_id i (pd_runs d)"

text \<open>The end of the methods that show the run after the commit.\<close>

definition shown :: "string \<Rightarrow> pool_db \<Rightarrow> actor_run attempted" where
  "shown i d = (case get_run i d of None \<Rightarrow> Inl PoolLookupError | Some r \<Rightarrow> Inr r)"

definition key_usable :: "pool_member option \<Rightarrow> pool_state attempted \<Rightarrow> string \<Rightarrow> bool" where
  "key_usable m st s \<longleftrightarrow>
     (case m of
        None \<Rightarrow> False
      | Some x \<Rightarrow>
          if pm_role x = ValidationKey then pm_status x = StandbyKey
          else pm_status x = ActiveKey
               \<and> (case st of Inl _ \<Rightarrow> False | Inr y \<Rightarrow> ps_status y = ReadyPool \<and> ps_active y = Some s))"

definition assert_lease_startable :: "key_lease \<Rightarrow> time \<Rightarrow> pool_db \<Rightarrow> unit attempted" where
  "assert_lease_startable l now d = try_then (run_for_lease l d) (\<lambda>r.
     let w = ar_workspace_id r in
     if ar_purpose r = ValidationRun
     then (case find_member w (ar_secret_id r) d of
             None \<Rightarrow> Inl (DrainPending 0)
           | Some m \<Rightarrow>
              try_then (if pm_role m = ValidationKey then Inr () else try_then (state_row w d) (\<lambda>_. Inr ())) (\<lambda>_.
              if ar_status r \<noteq> ReservedRun \<or> \<not> key_usable (Some m) (state_row w d) (ar_secret_id r)
              then Inl (DrainPending 0) else Inr ()))
     else if \<not> acquisition_startable w (ar_logical_run_id r) now (Some (ar_id r)) d then Inl (DrainPending 0)
     else try_then (state_row w d) (\<lambda>st.
       if ar_status r \<noteq> ReservedRun \<or> ps_status st \<noteq> ReadyPool \<or> ps_active st \<noteq> Some (ar_secret_id r)
       then Inl (DrainPending 0) else Inr ()))"

definition register_run_row :: "string \<Rightarrow> string option \<Rightarrow> string option \<Rightarrow> time \<Rightarrow> actor_run \<Rightarrow> actor_run" where
  "register_run_row remote dataset logical now r = r\<lparr>ar_remote_run_id := Some remote, ar_dataset_id := dataset,
     ar_logical_run_id := (case ar_logical_run_id r of None \<Rightarrow> logical_id logical | Some x \<Rightarrow> Some x),
     ar_status := RunningRun, ar_started_at := (case ar_started_at r of None \<Rightarrow> Some now | Some t \<Rightarrow> Some t),
     ar_updated_at := now\<rparr>"

definition registered :: "actor_run \<Rightarrow> pool_state \<Rightarrow> pool_db \<Rightarrow> actor_run attempted" where
  "registered r st d = try_then (shown (ar_id r) d) (\<lambda>x.
     if (if ar_purpose r = ValidationRun
         then key_usable (find_member (ar_workspace_id r) (ar_secret_id r) d) (Inr st) (ar_secret_id r)
         else ps_status st = ReadyPool \<and> ps_active st = Some (ar_secret_id r))
     then Inr x else Inl (DrainPending 1))"

definition register_body ::
  "key_lease \<Rightarrow> string \<Rightarrow> string option \<Rightarrow> string option \<Rightarrow> time \<Rightarrow> pool_db \<Rightarrow> (actor_run attempted \<times> pool_db) attempted" where
  "register_body l remote dataset logical now d = try_then (run_for_lease l d) (\<lambda>r.
     try_then (if truthy (or_empty (ar_remote_run_id r))
               then (if ar_remote_run_id r \<noteq> Some remote \<or> ar_dataset_id r \<noteq> dataset then Inl RunLeaseError else Inr d)
               else if ar_status r \<notin> {ReservedRun, StartingRun} then Inl RunLeaseError
               else update_run (ar_id r) (register_run_row remote dataset logical now) d) (\<lambda>d1.
     try_then (state_row (ar_workspace_id r) d1) (\<lambda>st. Inr (registered r st d1, d1))))"

definition register_actor_run ::
  "key_lease \<Rightarrow> string \<Rightarrow> string option \<Rightarrow> string option \<Rightarrow> time \<Rightarrow> pool_db \<Rightarrow> actor_run pool_result" where
  "register_actor_run l run_id dataset logical now d =
     (let remote = strip run_id in
      if remote = [] then (Inl PoolValueError, d)
      else pool_txn (register_body l remote (normal_id dataset) logical now) d)"

definition reject_run :: "string \<Rightarrow> time \<Rightarrow> actor_run \<Rightarrow> actor_run" where
  "reject_run code now r = r\<lparr>ar_status := StartRejectedRun, ar_last_error_code := Some code, ar_charge_reserved := 0,
     ar_charge_actual := Some 0, ar_charge_final := True, ar_terminal_at := Some now, ar_updated_at := now\<rparr>"

definition unsent :: "actor_run \<Rightarrow> bool" where
  "unsent r \<longleftrightarrow> ar_status r = ReservedRun \<and> \<not> truthy (or_empty (ar_remote_run_id r))"

definition release_reservation :: "key_lease \<Rightarrow> string \<Rightarrow> time \<Rightarrow> pool_db \<Rightarrow> actor_run pool_result" where
  "release_reservation l code now = pool_txn (\<lambda>d. try_then (run_for_lease l d) (\<lambda>r.
     try_then (if unsent r
               then update_run (ar_id r) (reject_run (safe_error_code code ''apify_start_rejected'') now) d
               else if terminal_run (ar_status r) then Inr d else Inl RunLeaseError) (\<lambda>d1.
     Inr (shown (ar_id r) d1, d1))))"

subsection \<open>Unknown outcomes block the pool\<close>

definition block_pool :: "string \<Rightarrow> string \<Rightarrow> time \<Rightarrow> pool_db \<Rightarrow> pool_db" where
  "block_pool w code now = update_state w (\<lambda>st. st\<lparr>ps_status := BlockedPool, ps_blocked_reason := Some code, ps_updated_at := now\<rparr>)"

definition block_unless_validation :: "actor_run \<Rightarrow> string \<Rightarrow> time \<Rightarrow> pool_db \<Rightarrow> pool_db" where
  "block_unless_validation r code now d =
     (if role_of (ar_workspace_id r) (ar_secret_id r) d = Some ValidationKey then d
      else block_pool (ar_workspace_id r) code now d)"

definition mark_unknown :: "string \<Rightarrow> time \<Rightarrow> actor_run \<Rightarrow> actor_run" where
  "mark_unknown code now r = r\<lparr>ar_status := UnknownStart, ar_last_error_code := Some code, ar_updated_at := now\<rparr>"

definition report_start_outcome_unknown :: "key_lease \<Rightarrow> string \<Rightarrow> time \<Rightarrow> pool_db \<Rightarrow> unit pool_result" where
  "report_start_outcome_unknown l error_code now = pool_txn (\<lambda>d. try_then (run_for_lease l d) (\<lambda>r.
     let code = safe_error_code error_code ''apify_start_outcome_unknown'' in
     if terminal_run (ar_status r) then Inl RunLeaseError
     else try_then (update_run (ar_id r) (mark_unknown code now) d) (\<lambda>d1.
       Inr (Inr (), block_unless_validation r code now d1))))"

definition note_reconcile :: "string \<Rightarrow> time \<Rightarrow> actor_run \<Rightarrow> actor_run" where
  "note_reconcile code now r = r\<lparr>ar_status := (if terminal_run (ar_status r) then ar_status r else UnknownStart),
     ar_last_error_code := Some code, ar_updated_at := now\<rparr>"

definition block_run_reconciliation :: "key_lease \<Rightarrow> string \<Rightarrow> time \<Rightarrow> pool_db \<Rightarrow> unit pool_result" where
  "block_run_reconciliation l error_code now = pool_txn (\<lambda>d. try_then (run_for_lease l d) (\<lambda>r.
     let code = safe_error_code error_code ''apify_run_reconcile_required'' in
     try_then (update_run (ar_id r) (note_reconcile code now) d) (\<lambda>d1.
       Inr (Inr (), block_unless_validation r code now d1))))"

definition acquisition_pending :: "string \<Rightarrow> (actor_run \<Rightarrow> bool) \<Rightarrow> pool_db \<Rightarrow> bool" where
  "acquisition_pending w P d \<longleftrightarrow>
     (\<exists>r \<in> set (pd_runs d). ar_workspace_id r = w \<and> role_of w (ar_secret_id r) d = Some AcquisitionKey \<and> P r)"

definition unblock :: "string \<Rightarrow> time \<Rightarrow> pool_db \<Rightarrow> pool_db" where
  "unblock w now = bump w now (\<lambda>st. st\<lparr>ps_status := (if no_active st then ExhaustedPool else ReadyPool), ps_blocked_reason := None\<rparr>)"

definition complete_run_reconciliation :: "key_lease \<Rightarrow> time \<Rightarrow> pool_db \<Rightarrow> unit pool_result" where
  "complete_run_reconciliation l now = pool_txn (\<lambda>d. try_then (run_for_lease l d) (\<lambda>r.
     let w = ar_workspace_id r in
     try_then (update_run (ar_id r) (\<lambda>x. x\<lparr>ar_last_error_code := None, ar_updated_at := now\<rparr>) d) (\<lambda>d1.
     try_then (state_row w d1) (\<lambda>st.
     Inr (Inr (),
       if \<not> acquisition_pending w (\<lambda>x. ar_status x = UnknownStart
              \<or> ar_last_error_code x = Some ''apify_run_reconcile_required'') d1
          \<and> ps_status st = BlockedPool \<and> ps_blocked_reason st = Some ''apify_run_reconcile_required''
       then unblock w now d1 else d1)))))"

definition unregistered :: "string \<Rightarrow> pool_db \<Rightarrow> actor_run \<Rightarrow> bool" where
  "unregistered w d r \<longleftrightarrow> ar_workspace_id r = w \<and> ar_status r \<in> {ReservedRun, StartingRun} \<and> ar_remote_run_id r = None
     \<and> find_member w (ar_secret_id r) d \<noteq> None"

definition block_unregistered_reservations :: "string \<Rightarrow> string \<Rightarrow> time \<Rightarrow> pool_db \<Rightarrow> nat pool_result" where
  "block_unregistered_reservations w error_code now = pool_txn (\<lambda>d.
     let code = safe_error_code error_code ''apify_start_outcome_unknown'' in
     try_then (write_runs (update_where (unregistered w d) (mark_unknown code now) (pd_runs d)) d) (\<lambda>d1.
     Inr (Inr (length (filter (unregistered w d) (pd_runs d))),
       if acquisition_pending w (\<lambda>x. ar_status x = UnknownStart) d1 then block_pool w code now d1 else d1)))"

end
