(* ===== verification/KeyQuota.thy ===== *)
theory KeyQuota
  imports KeyRuns
begin

section \<open>The end of runs, failing credentials, quotas, recovery of unknown starts\<close>

text \<open>
  The remaining methods of \<open>apify_key_pool.py\<close>: a run is aborted, ended and accounted for; a rejected
  credential starts a drain (\<open>report_acquisition_credential_failure\<close> of \<open>apify_pool_drain.py\<close>, whose
  abort callback is an argument); quota readings deplete and restore keys; and the evidence that an
  unknown start created no run lifts the block of the pool.
\<close>

subsection \<open>The end of a run\<close>

definition mark_run_aborting :: "key_lease \<Rightarrow> string option \<Rightarrow> time \<Rightarrow> pool_db \<Rightarrow> actor_run pool_result" where
  "mark_run_aborting l run_id now = pool_txn (\<lambda>d. try_then (run_for_lease l d) (\<lambda>r.
     if truthy (or_empty run_id) \<and> ar_remote_run_id r \<noteq> run_id then Inl RunLeaseError
     else try_then (if terminal_run (ar_status r) then Inr d
                    else update_run (ar_id r) (\<lambda>x. x\<lparr>ar_status := AbortingRun, ar_updated_at := now\<rparr>) d) (\<lambda>d1.
       Inr (shown (ar_id r) d1, d1))))"

definition normal_status :: "string \<Rightarrow> string" where
  "normal_status v =
     (let s = map (\<lambda>c. if c = CHR ''-'' then CHR ''_'' else c) (casefold (strip v))
      in if s = ''timedout'' then ''timed_out'' else s)"

definition terminal_status :: "string \<Rightarrow> run_status option" where
  "terminal_status v =
     map_of [(''succeeded'', SucceededRun), (''failed'', FailedRun), (''aborted'', AbortedRun),
             (''timed_out'', TimedOutRun), (''start_rejected'', StartRejectedRun), (''cancelled'', CancelledRun)]
       (normal_status v)"

definition mark_run_terminal :: "key_lease \<Rightarrow> string \<Rightarrow> string \<Rightarrow> time \<Rightarrow> pool_db \<Rightarrow> unit pool_result" where
  "mark_run_terminal l run_id status now d =
     (case terminal_status status of
        None \<Rightarrow> (Inl PoolValueError, d)
      | Some t \<Rightarrow> pool_txn (\<lambda>d. try_then (run_for_lease l d) (\<lambda>r.
          if truthy (or_empty (ar_remote_run_id r)) \<and> ar_remote_run_id r \<noteq> Some run_id then Inl RunLeaseError
          else try_then (if terminal_run (ar_status r) then Inr d
                         else update_run (ar_id r) (\<lambda>x. x\<lparr>ar_status := t, ar_terminal_at := Some now,
                                ar_updated_at := now\<rparr>) d) (\<lambda>d1.
            Inr (try_then (shown (ar_id r) d1) (\<lambda>_. Inr ()), d1)))) d)"

fun amount_ok :: "usd option \<Rightarrow> bool" where
  "amount_ok None = True"
| "amount_ok (Some x) = (0 \<le> x)"

definition record_run_accounting ::
  "key_lease \<Rightarrow> usd option \<Rightarrow> bool \<Rightarrow> usd option \<Rightarrow> time \<Rightarrow> pool_db \<Rightarrow> unit pool_result" where
  "record_run_accounting l actual cost_final reserved now d =
     (if \<not> amount_ok actual \<or> \<not> amount_ok reserved then (Inl PoolValueError, d)
      else pool_txn (\<lambda>d. try_then (run_for_lease l d) (\<lambda>r.
        try_then (update_run (ar_id r) (\<lambda>x. x\<lparr>
            ar_charge_reserved := (case reserved of None \<Rightarrow> ar_charge_reserved x | Some v \<Rightarrow> v),
            ar_charge_actual := actual, ar_charge_final := cost_final, ar_updated_at := now\<rparr>) d) (\<lambda>d1.
        Inr (Inr (), d1)))) d)"

text \<open>Reads used by the abort and accounting sweeps; within \<open>SETTLE_MARGIN\<close>, 9.5 seconds after its end, the
  charge of a run is not yet stable.\<close>

definition up_to :: "int option \<Rightarrow> int \<Rightarrow> bool" where
  "up_to g x \<longleftrightarrow> (case g of None \<Rightarrow> True | Some v \<Rightarrow> x \<le> v)"

definition list_nonterminal_runs :: "string \<Rightarrow> int option \<Rightarrow> pool_db \<Rightarrow> actor_run list" where
  "list_nonterminal_runs w g d =
     sort_key (\<lambda>r. (ar_pool_generation r, ar_created_at r, ar_id r))
       (filter (\<lambda>r. ar_workspace_id r = w \<and> open_run (ar_status r) \<and> up_to g (ar_pool_generation r)) (pd_runs d))"

definition ended_at :: "actor_run \<Rightarrow> time" where
  "ended_at r = (case ar_terminal_at r of None \<Rightarrow> 0 | Some t \<Rightarrow> t)"

definition SETTLE_MARGIN :: time where
  "SETTLE_MARGIN = 9500000"

definition runs_to_settle :: "string \<Rightarrow> int \<Rightarrow> pool_db \<Rightarrow> actor_run list" where
  "runs_to_settle w limit d =
     take (nat (min (max limit 1) 100)) (sort_key (\<lambda>r. (ended_at r, ar_id r))
       (filter (\<lambda>r. ar_workspace_id r = w \<and> ar_remote_run_id r \<noteq> None \<and> ar_terminal_at r \<noteq> None
          \<and> ar_status r \<in> {SucceededRun, FailedRun, AbortedRun, TimedOutRun}
          \<and> (\<not> ar_charge_final r \<or> ar_charge_actual r = None
             \<or> ar_updated_at r - ended_at r < SETTLE_MARGIN)) (pd_runs d)))"

definition lease_for_run :: "string \<Rightarrow> (string \<Rightarrow> string option) \<Rightarrow> pool_db \<Rightarrow> key_lease attempted" where
  "lease_for_run i tokens d =
     (case get_run i d of
        None \<Rightarrow> Inl RunLeaseError
      | Some r \<Rightarrow>
         (case lookup_row sr_id (ar_secret_id r) (pd_secrets d) of
            None \<Rightarrow> Inl RunLeaseError
          | Some sr \<Rightarrow>
             if sr_env_name sr = [] then Inl RunLeaseError
             else if sr_version sr \<noteq> ar_secret_version r then Inl KeyBusy
             else (case normal_id (tokens (sr_env_name sr)) of
                     None \<Rightarrow> Inl KeyBusy
                   | Some t \<Rightarrow> Inr (lease_of r (sr_env_name sr) t False))))"

subsection \<open>A credential is rejected\<close>

datatype failure_target = LeaseFailed key_lease | KeyFailed string

fun failed_key :: "failure_target \<Rightarrow> string" where
  "failed_key (LeaseFailed l) = ls_secret_id l"
| "failed_key (KeyFailed s) = s"

definition reject_unsent :: "failure_target \<Rightarrow> string \<Rightarrow> time \<Rightarrow> pool_db \<Rightarrow> pool_db attempted" where
  "reject_unsent target reason now d =
     (case target of
        KeyFailed _ \<Rightarrow> Inr d
      | LeaseFailed l \<Rightarrow> try_then (run_for_lease l d) (\<lambda>r.
          if unsent r then update_run (ar_id r) (reject_run reason now) d else Inr d))"

definition record_credential_failure ::
  "failure_target \<Rightarrow> key_status \<Rightarrow> time \<Rightarrow> pool_db \<Rightarrow> (string \<times> bool) pool_result" where
  "record_credential_failure target kind now d =
     (if kind \<notin> {DepletedKey, InvalidKey} then (Inl PoolValueError, d)
      else pool_txn (\<lambda>d.
        let s = failed_key target;
            reason = (if kind = DepletedKey then ''apify_credits_depleted'' else ''apify_token_invalid'')
        in case owner_of s d of
          None \<Rightarrow> Inl PoolLookupError
        | Some m \<Rightarrow>
           let w = pm_workspace_id m in try_then (reject_unsent target reason now d) (\<lambda>d1.
           if pm_role m = ValidationKey
           then try_then (update_member w s (\<lambda>x. x\<lparr>pm_status := kind, pm_last_error_code := Some reason\<rparr>) d1) (\<lambda>d2.
                  Inr (Inr (w, False), d2))
           else try_then (begin_drain_in w s kind reason now d1) (\<lambda>x. Inr (Inr (w, fst x), snd x)))) d)"

text \<open>The abort loop; \<open>abort l remote\<close> is the status that the callback reports, \<open>None\<close> when the time
  allowed for the loop has run out.\<close>

fun abort_runs ::
  "string \<Rightarrow> int \<Rightarrow> (string \<Rightarrow> string option) \<Rightarrow> (key_lease \<Rightarrow> string \<Rightarrow> string option) \<Rightarrow> time
   \<Rightarrow> actor_run list \<Rightarrow> pool_db \<Rightarrow> unit pool_result" where
  "abort_runs w g tokens abort now [] d = (Inr (), d)"
| "abort_runs w g tokens abort now (r # rs) d =
     (let remote = or_empty (ar_remote_run_id r) in
      if remote = [] then (Inl (DrainPending 1), d)
      else case lease_for_run (ar_id r) tokens d of
        Inl e \<Rightarrow> (Inl e, d)
      | Inr l \<Rightarrow>
         (case mark_run_aborting l (Some remote) now d of
            (Inl e, d1) \<Rightarrow> (Inl e, d1)
          | (Inr _, d1) \<Rightarrow>
             (case abort l remote of
                None \<Rightarrow> (Inl (DrainPending (length (acquisition_open_runs w g d1))), d1)
              | Some v \<Rightarrow>
                 if terminal_status v = None then (Inl (DrainPending 1), d1)
                 else (case mark_run_terminal l remote v now d1 of
                         (Inl e, d2) \<Rightarrow> (Inl e, d2)
                       | (Inr _, d2) \<Rightarrow> abort_runs w g tokens abort now rs d2))))"

definition report_credential_failure ::
  "key_lease \<Rightarrow> key_status \<Rightarrow> (string \<Rightarrow> string option) \<Rightarrow> (key_lease \<Rightarrow> string \<Rightarrow> string option) \<Rightarrow> time
   \<Rightarrow> pool_db \<Rightarrow> unit pool_result" where
  "report_credential_failure l kind tokens abort now d =
     (case record_credential_failure (LeaseFailed l) kind now d of
        (Inl e, d1) \<Rightarrow> (Inl e, d1)
      | (Inr (w, draining), d1) \<Rightarrow>
         if \<not> draining then (Inr (), d1)
         else (case state_row w d1 of
           Inl e \<Rightarrow> (Inl e, d1)
         | Inr st \<Rightarrow>
            let g = drain_generation st in
            (case abort_runs w g tokens abort now (acquisition_open_runs w g d1) d1 of
               (Inl e, d2) \<Rightarrow> (Inl e, d2)
             | (Inr _, d2) \<Rightarrow>
                (case complete_drain_and_failover w now d2 of
                   (Inl e, d3) \<Rightarrow> (Inl e, d3)
                 | (Inr _, d3) \<Rightarrow> (Inr (), d3)))))"

definition should_retry_after_terminal :: "key_lease \<Rightarrow> pool_db \<Rightarrow> bool option attempted" where
  "should_retry_after_terminal l d =
     (case get_run (ls_reservation_id l) d of
        None \<Rightarrow> Inr (Some False)
      | Some r \<Rightarrow>
         if ar_purpose r = ValidationRun then Inr (Some False)
         else try_then (state_row (ar_workspace_id r) d) (\<lambda>st.
           if ps_status st = DrainingPool \<and> ls_pool_generation l \<le> drain_generation st then Inr None
           else Inr (Some (ps_status st = ReadyPool \<and> ps_generation st \<noteq> ls_pool_generation l
                           \<and> ps_active st \<noteq> Some (ls_secret_id l)))))"

subsection \<open>Quota readings\<close>

record quota_report =
  qr_remaining :: usd
  qr_checked_at :: "time option"
  qr_cycle_start_at :: "time option"
  qr_cycle_end_at :: "time option"
  qr_monthly_included :: "usd option"
  qr_monthly_usage :: "usd option"
  qr_max_monthly_usage :: "usd option"
  qr_remaining_hard_limit :: "usd option"

definition report_ok :: "quota_report \<Rightarrow> bool" where
  "report_ok q \<longleftrightarrow> 0 \<le> qr_remaining q \<and> amount_ok (qr_monthly_included q) \<and> amount_ok (qr_monthly_usage q)
     \<and> amount_ok (qr_max_monthly_usage q) \<and> amount_ok (qr_remaining_hard_limit q)"

definition write_quota_snapshot :: "string \<Rightarrow> string \<Rightarrow> quota_report \<Rightarrow> time \<Rightarrow> pool_db \<Rightarrow> pool_db attempted" where
  "write_quota_snapshot w s q now d =
     (if find_member w s d = None then Inl PoolLookupError
      else update_member w s (\<lambda>m. m\<lparr>pm_quota := \<lparr>
        kq_cycle_start_at = qr_cycle_start_at q, kq_cycle_end_at = qr_cycle_end_at q,
        kq_last_checked_at = Some (case qr_checked_at q of None \<Rightarrow> now | Some t \<Rightarrow> t),
        kq_monthly_included = qr_monthly_included q, kq_monthly_usage = qr_monthly_usage q,
        kq_remaining = Some (qr_remaining q), kq_max_monthly_usage = qr_max_monthly_usage q,
        kq_remaining_hard_limit = qr_remaining_hard_limit q\<rparr>\<rparr>) d)"

definition record_quota_snapshot :: "key_lease \<Rightarrow> quota_report \<Rightarrow> time \<Rightarrow> pool_db \<Rightarrow> unit pool_result" where
  "record_quota_snapshot l q now d =
     (if \<not> report_ok q then (Inl PoolValueError, d)
      else pool_txn (\<lambda>d. try_then (run_for_lease l d) (\<lambda>r.
        try_then (write_quota_snapshot (ar_workspace_id r) (ar_secret_id r) q now d) (\<lambda>d1. Inr (Inr (), d1)))) d)"

definition restore_member :: "string \<Rightarrow> string \<Rightarrow> pool_state \<Rightarrow> time \<Rightarrow> pool_db \<Rightarrow> pool_db attempted" where
  "restore_member w s st now d =
     (let activate = (ps_status st \<in> {EmptyPool, ExhaustedPool} \<and> no_active st)
      in try_then (compact_positions w (if activate then s # others w s d else others w s d @ [s]) d) (\<lambda>d1.
         try_then (update_member w s (\<lambda>m. m\<lparr>pm_status := (if activate then ActiveKey else StandbyKey),
                     pm_blocked_until := None, pm_last_error_code := None\<rparr>) d1) (\<lambda>d2.
         Inr (if activate
              then bump w now (activate_key s) d2
              else d2))))"

definition deplete_member :: "string \<Rightarrow> string \<Rightarrow> quota_report \<Rightarrow> pool_db \<Rightarrow> pool_db attempted" where
  "deplete_member w s q = update_member w s (\<lambda>m. m\<lparr>pm_status := DepletedKey, pm_blocked_until := qr_cycle_end_at q,
     pm_last_error_code := Some ''apify_credits_depleted''\<rparr>)"

definition member_quota_body ::
  "string \<Rightarrow> string \<Rightarrow> quota_report \<Rightarrow> time \<Rightarrow> pool_db \<Rightarrow> (pool_view attempted \<times> pool_db) attempted" where
  "member_quota_body w s q now d =
     try_then (write_quota_snapshot w s q now d) (\<lambda>d1.
     case find_member w s d1 of
       None \<Rightarrow> Inl PoolLookupError
     | Some m \<Rightarrow> try_then (state_row w d1) (\<lambda>st.
         try_then (if qr_remaining q \<le> 0 \<and> pm_status m \<notin> {ActiveKey, DrainingKey} then deplete_member w s q d1
                   else if 0 < qr_remaining q \<and> pm_status m \<in> {DepletedKey, InvalidKey} then restore_member w s st now d1
                   else Inr d1)
           (committed w)))"

definition record_member_quota :: "string \<Rightarrow> string \<Rightarrow> quota_report \<Rightarrow> time \<Rightarrow> pool_db \<Rightarrow> pool_view pool_result" where
  "record_member_quota w s q now d =
     (if \<not> report_ok q then (Inl PoolValueError, d) else pool_txn (member_quota_body w s q now) d)"

definition retry_instant :: "pool_member \<Rightarrow> time option" where
  "retry_instant m = (case pm_blocked_until m of None \<Rightarrow> kq_cycle_end_at (pm_quota m) | Some t \<Rightarrow> Some t)"

definition due_for_retry :: "time \<Rightarrow> pool_member \<Rightarrow> bool" where
  "due_for_retry now m \<longleftrightarrow> (case retry_instant m of None \<Rightarrow> False | Some t \<Rightarrow> t \<le> now)"

definition recover_due_members :: "string \<Rightarrow> time \<Rightarrow> pool_db \<Rightarrow> string list" where
  "recover_due_members w now d = map pm_secret_id (filter (\<lambda>m. pm_status m = DepletedKey \<and> pm_role m = AcquisitionKey
     \<and> due_for_retry now m) (member_rows w d))"

definition quota_refresh_candidates :: "string \<Rightarrow> time \<Rightarrow> int \<Rightarrow> pool_db \<Rightarrow> string list" where
  "quota_refresh_candidates w now max_age d = map pm_secret_id (filter (\<lambda>m. pm_role m = AcquisitionKey
     \<and> (if pm_status m \<in> {ActiveKey, StandbyKey, DrainingKey} then quota_snapshot_stale m now max_age
        else pm_status m = DepletedKey \<and> due_for_retry now m)) (member_rows w d))"

record quota_key =
  qk_secret_id :: string
  qk_secret_version :: int
  qk_env_name :: string
  qk_token :: string

definition quota_candidate :: "string \<Rightarrow> (string \<Rightarrow> string option) \<Rightarrow> pool_db \<Rightarrow> quota_key attempted" where
  "quota_candidate s tokens d =
     (case (owner_of s d, lookup_row sr_id s (pd_secrets d)) of
        (Some m, Some sr) \<Rightarrow>
          (case normal_id (tokens (sr_env_name sr)) of
             None \<Rightarrow> Inl KeyBusy
           | Some t \<Rightarrow> Inr \<lparr>qk_secret_id = pm_secret_id m, qk_secret_version = sr_version sr, qk_env_name = sr_env_name sr,
                             qk_token = t\<rparr>)
      | _ \<Rightarrow> Inl PoolLookupError)"

subsection \<open>Evidence about unknown starts\<close>

definition identifier_char :: "char \<Rightarrow> bool" where
  "identifier_char c \<longleftrightarrow>
     (let n = (of_char c :: nat) in is_digit c \<or> (65 \<le> n \<and> n \<le> 90) \<or> (97 \<le> n \<and> n \<le> 122) \<or> c = CHR ''_'' \<or> c = CHR ''-'')"

definition remote_identifier :: "string \<Rightarrow> bool" where
  "remote_identifier s \<longleftrightarrow> 8 \<le> length s \<and> length s \<le> 128 \<and> list_all identifier_char s"

definition unknown_start_reason :: "string option \<Rightarrow> bool" where
  "unknown_start_reason r \<longleftrightarrow> or_empty r \<in> {''start_outcome_unknown'', ''apify_start_outcome_unknown'',
     ''apify_start_http_outcome_unknown'', ''apify_restart_start_outcome_unknown''}"

definition release_unknown_start_block :: "string \<Rightarrow> time \<Rightarrow> pool_db \<Rightarrow> pool_db attempted" where
  "release_unknown_start_block w now d = try_then (state_row w d) (\<lambda>st. Inr
     (if \<not> acquisition_pending w (\<lambda>r. ar_status r = UnknownStart) d \<and> ps_status st = BlockedPool
         \<and> unknown_start_reason (ps_blocked_reason st)
      then bump w now (\<lambda>x. x\<lparr>ps_status := (if ps_active x = None then ExhaustedPool else ReadyPool),
             ps_blocked_reason := None\<rparr>) d
      else d))"

definition settle_unknown :: "string option \<Rightarrow> string option \<Rightarrow> time \<Rightarrow> actor_run \<Rightarrow> actor_run" where
  "settle_unknown remote dataset now r =
     r\<lparr>ar_status := (if remote = None then StartRejectedRun else AbortedRun), ar_remote_run_id := remote,
       ar_dataset_id := dataset,
       ar_last_error_code := Some (if remote = None then ''apify_start_not_created'' else ''apify_run_registration_aborted''),
       ar_charge_reserved := 0, ar_charge_actual := Some 0, ar_charge_final := True, ar_terminal_at := Some now,
       ar_updated_at := now\<rparr>"

definition confirm_unknown_start ::
  "key_lease \<Rightarrow> string option \<Rightarrow> string option \<Rightarrow> time \<Rightarrow> pool_db \<Rightarrow> actor_run pool_result" where
  "confirm_unknown_start l remote dataset now = pool_txn (\<lambda>d. try_then (run_for_lease l d) (\<lambda>r.
     if ar_status r \<noteq> UnknownStart \<or> ar_remote_run_id r \<noteq> None \<or> ar_dataset_id r \<noteq> None then Inl RunLeaseError
     else try_then (update_run (ar_id r) (settle_unknown remote dataset now) d) (\<lambda>d1.
       try_then (release_unknown_start_block (ar_workspace_id r) now d1) (\<lambda>d2.
       Inr (shown (ar_id r) d2, d2)))))"

definition confirm_start_not_created :: "key_lease \<Rightarrow> time \<Rightarrow> pool_db \<Rightarrow> actor_run pool_result" where
  "confirm_start_not_created l = confirm_unknown_start l None None"

definition confirm_zero_cost_aborted_start ::
  "key_lease \<Rightarrow> string \<Rightarrow> string option \<Rightarrow> time \<Rightarrow> pool_db \<Rightarrow> actor_run pool_result" where
  "confirm_zero_cost_aborted_start l run_id dataset now d =
     (let remote = strip run_id; ds = normal_id dataset in
      if \<not> remote_identifier remote \<or> (case ds of None \<Rightarrow> False | Some x \<Rightarrow> \<not> remote_identifier x)
      then (Inl PoolValueError, d)
      else confirm_unknown_start l (Some remote) ds now d)"

definition settled_start_can_release :: "pool_state \<Rightarrow> pool_db \<Rightarrow> bool" where
  "settled_start_can_release st d \<longleftrightarrow>
     (let w = ps_workspace_id st;
          key = (case ps_active st of None \<Rightarrow> ps_draining st | Some a \<Rightarrow> Some a)
      in \<not> list_ex (\<lambda>r. ar_workspace_id r = w \<and> open_run (ar_status r)
             \<and> (ar_purpose r = AcquisitionRun \<or> role_of w (ar_secret_id r) d \<noteq> Some ValidationKey)) (pd_runs d)
         \<and> list_ex (\<lambda>r. ar_workspace_id r = w \<and> role_of w (ar_secret_id r) d = Some AcquisitionKey
             \<and> Some (ar_secret_id r) = key \<and> ar_pool_generation r \<le> ps_generation st \<and> ps_updated_at st \<le> ar_updated_at r
             \<and> ar_status r = StartRejectedRun \<and> ar_remote_run_id r = None \<and> ar_dataset_id r = None
             \<and> ar_charge_final r \<and> ar_charge_actual r = Some 0 \<and> ar_charge_reserved r = 0
             \<and> ar_last_error_code r \<in> {Some ''actorops_v2_proven_no_start'', Some ''apify_start_not_created''}) (pd_runs d))"

definition reconcile_settled_unknown_start_block :: "string \<Rightarrow> time \<Rightarrow> pool_db \<Rightarrow> unit pool_result" where
  "reconcile_settled_unknown_start_block w now = pool_txn (\<lambda>d. try_then (state_row w d) (\<lambda>st.
     try_then (if ps_status st = BlockedPool \<and> unknown_start_reason (ps_blocked_reason st) \<and> settled_start_can_release st d
               then release_unknown_start_block w now d else Inr d) (\<lambda>d1.
     Inr (Inr (), d1))))"

end
