(* ===== verification/KeyFrames.thy ===== *)
theory KeyFrames
  imports KeyQuota
begin

section \<open>What the statements on the pool change\<close>

text \<open>
  Elimination rules for the statements and the shared parts of the methods: which of the tables each
  one writes and how.  Positions may be rewritten freely; \<open>repositions\<close> says that nothing else of the
  members changes.
\<close>

named_theorems pool_elim \<open>what a successful statement did\<close>

lemma try_then_Inr [simp]: "try_then m k = Inr y \<longleftrightarrow> (\<exists>x. m = Inr x \<and> k x = Inr y)"
  by (cases m) (simp_all add: try_then_def)

lemma try_then_values [simp]: "try_then (Inr x) k = k x" "try_then (Inl e) k = Inl e"
  by (simp_all add: try_then_def)

lemma write_members_Inr [pool_elim]:
  "write_members ms d = Inr d' \<longleftrightarrow> members_ok ms \<and> d' = d\<lparr>pd_members := ms\<rparr>"
  by (auto simp: write_members_def)

lemma update_member_Inr [pool_elim]:
  "update_member w s f d = Inr d' \<longleftrightarrow>
     members_ok (update_where (is_member w s) f (pd_members d))
     \<and> d' = d\<lparr>pd_members := update_where (is_member w s) f (pd_members d)\<rparr>"
  by (auto simp: update_member_def write_members_Inr)

lemma write_runs_Inr [pool_elim]: "write_runs rs d = Inr d' \<longleftrightarrow> runs_unique rs \<and> d' = d\<lparr>pd_runs := rs\<rparr>"
  by (auto simp: write_runs_def)

lemma update_run_Inr [pool_elim]:
  "update_run i f d = Inr d' \<longleftrightarrow>
     runs_unique (update_where (\<lambda>r. ar_id r = i) f (pd_runs d))
     \<and> d' = d\<lparr>pd_runs := update_where (\<lambda>r. ar_id r = i) f (pd_runs d)\<rparr>"
  by (auto simp: update_run_def write_runs_Inr)

lemma state_row_Inr [pool_elim]: "state_row w d = Inr st \<longleftrightarrow> lookup_row ps_workspace_id w (pd_states d) = Some st"
  by (auto simp: state_row_def split: option.split)

lemma committed_Inr [pool_elim]: "committed w d = Inr (r, d') \<longleftrightarrow> d' = d \<and> r = public_state w d"
  by (auto simp: committed_def)

lemma run_for_lease_Inr:
  "run_for_lease l d = Inr r \<Longrightarrow> r \<in> set (pd_runs d) \<and> ar_id r = ls_reservation_id l \<and> ar_secret_id r = ls_secret_id l
     \<and> ar_pool_generation r = ls_pool_generation l"
  by (auto simp: run_for_lease_def find_Some_iff split: option.splits)

lemma pool_txn_cases:
  obtains (aborted) e where "body d = Inl e" "pool_txn body d = (Inl e, d)"
  | (committed) r d' where "body d = Inr (r, d')" "pool_txn body d = (r, d')"
  by (cases "body d") (auto simp: pool_txn_def)

lemma update_state_simps [simp]:
  "pd_members (update_state w f d) = pd_members d" "pd_runs (update_state w f d) = pd_runs d"
  "pd_secrets (update_state w f d) = pd_secrets d" "pd_attempts (update_state w f d) = pd_attempts d"
  "pd_jobs (update_state w f d) = pd_jobs d"
  "pd_states (update_state w f d) = update_where (\<lambda>st. ps_workspace_id st = w) f (pd_states d)"
  by (simp_all add: update_state_def)

lemma bump_simps [simp]:
  "pd_members (bump w now f d) = pd_members d" "pd_runs (bump w now f d) = pd_runs d"
  "pd_secrets (bump w now f d) = pd_secrets d" "pd_attempts (bump w now f d) = pd_attempts d"
  "pd_jobs (bump w now f d) = pd_jobs d"
  by (simp_all add: bump_def)

subsection \<open>Positions\<close>

definition key_view :: "pool_member \<Rightarrow> pool_member" where
  "key_view m = m\<lparr>pm_position := 0\<rparr>"

definition repositions :: "pool_db \<Rightarrow> pool_db \<Rightarrow> bool" where
  "repositions d d' \<longleftrightarrow>
     (\<exists>ms. d' = d\<lparr>pd_members := ms\<rparr> \<and> map key_view ms = map key_view (pd_members d)
        \<and> (members_ok (pd_members d) \<longrightarrow> members_ok ms))"

lemma repositions_refl: "repositions d d"
  unfolding repositions_def by (rule exI [of _ "pd_members d"]) simp

lemma repositions_trans: "repositions d d1 \<Longrightarrow> repositions d1 d2 \<Longrightarrow> repositions d d2"
  by (auto simp: repositions_def)

lemma repositionsD:
  assumes "repositions d d'"
  shows "pd_runs d' = pd_runs d" "pd_states d' = pd_states d" "pd_secrets d' = pd_secrets d"
    "pd_attempts d' = pd_attempts d" "pd_jobs d' = pd_jobs d" "map key_view (pd_members d') = map key_view (pd_members d)"
    "members_ok (pd_members d) \<Longrightarrow> members_ok (pd_members d')"
  using assms by (auto simp: repositions_def)

lemma place_repositions: "place w k ids d = Inr d' \<Longrightarrow> repositions d d'"
proof (induction ids arbitrary: k d)
  case Nil
  then show ?case by (simp add: repositions_refl)
next
  case (Cons s ids)
  then obtain d1 where d1: "update_member w s (\<lambda>m. m\<lparr>pm_position := k\<rparr>) d = Inr d1" and "place w (k + 1) ids d1 = Inr d'"
    by auto
  then have "repositions d1 d'" using Cons.IH by blast
  moreover have "repositions d d1"
    using d1 by (auto simp: repositions_def update_member_Inr key_view_def update_where_def)
  ultimately show ?case by (rule repositions_trans [rotated])
qed

lemma compact_repositions: "compact_positions w ids d = Inr d' \<Longrightarrow> repositions d d'"
  by (auto simp: compact_positions_def dest!: place_repositions intro: repositions_trans)

subsection \<open>Methods that leave the runs alone\<close>

definition pool_only :: "pool_db \<Rightarrow> pool_db \<Rightarrow> bool" where
  "pool_only d d' \<longleftrightarrow> pd_runs d' = pd_runs d \<and> pd_secrets d' = pd_secrets d \<and> pd_attempts d' = pd_attempts d
     \<and> pd_jobs d' = pd_jobs d \<and> pd_drawn d' = pd_drawn d \<and> pd_id_source d' = pd_id_source d"

lemma repositions_pool_only: "repositions d d' \<Longrightarrow> pool_only d d'"
  by (auto simp: repositions_def pool_only_def)

lemma pool_only_trans: "pool_only d d1 \<Longrightarrow> pool_only d1 d2 \<Longrightarrow> pool_only d d2"
  by (simp add: pool_only_def)

lemma pool_only_basic [simp]:
  "pool_only d d" "pool_only d (update_state w f d)" "pool_only d (bump w now f d)" "pool_only d (d\<lparr>pd_members := ms\<rparr>)"
  by (simp_all add: pool_only_def update_state_def bump_def)

end
