(* ===== verification/KeySound.thy ===== *)
theory KeySound
  imports KeyFrames
begin

section \<open>The key in use\<close>

text \<open>
  The invariant of a pool: the active key of a workspace is an acquisition member, the only one that
  is active or draining; a ready or draining pool has one, an empty or exhausted pool has none, and a
  draining pool drains its active key.  The invariant reads the members of a workspace as a map from
  key to role and status, which each statement changes at one point.
\<close>

type_synonym key_map = "string \<Rightarrow> (key_role \<times> key_status) option"

definition role_status :: "pool_member \<Rightarrow> key_role \<times> key_status" where
  "role_status m = (pm_role m, pm_status m)"

definition keys_of :: "string \<Rightarrow> pool_db \<Rightarrow> key_map" where
  "keys_of w d s = map_option role_status (find_member w s d)"

definition used_as :: "(key_role \<times> key_status) option \<Rightarrow> bool" where
  "used_as x \<longleftrightarrow> map_option snd x \<in> {Some ActiveKey, Some DrainingKey}"

definition key_in_use :: "key_map \<Rightarrow> pool_state \<Rightarrow> bool" where
  "key_in_use K st \<longleftrightarrow>
     (\<forall>s. used_as (K s) \<longleftrightarrow> ps_active st = Some s)
     \<and> (\<forall>s. ps_active st = Some s \<longrightarrow> map_option fst (K s) = Some AcquisitionKey)
     \<and> K [] = None
     \<and> (ps_status st \<in> {ReadyPool, DrainingPool} \<longrightarrow> ps_active st \<noteq> None)
     \<and> (ps_status st \<in> {EmptyPool, ExhaustedPool} \<longrightarrow> ps_active st = None)
     \<and> (ps_status st = DrainingPool \<longrightarrow> ps_draining st = ps_active st \<and> (\<forall>s. map_option snd (K s) \<noteq> Some ActiveKey))
     \<and> ps_drain_target st \<notin> {Some ActiveKey, Some DrainingKey}"

definition pool_sound :: "pool_db \<Rightarrow> bool" where
  "pool_sound d \<longleftrightarrow> distinct (map ps_workspace_id (pd_states d)) \<and> members_ok (pd_members d)
     \<and> (\<forall>st \<in> set (pd_states d). key_in_use (keys_of (ps_workspace_id st) d) st)"

lemma used_as_simps [simp]:
  "\<not> used_as None" "used_as (Some (r, k)) \<longleftrightarrow> k = ActiveKey \<or> k = DrainingKey"
  by (auto simp: used_as_def)

lemma key_in_use_used: "key_in_use K st \<Longrightarrow> used_as (K s) \<longleftrightarrow> ps_active st = Some s"
  by (simp add: key_in_use_def)

lemma key_in_use_cases:
  assumes used: "key_in_use K st"
  obtains (key) a k where "ps_active st = Some a" "K [] = None" "K a = Some (AcquisitionKey, k)" "k \<in> {ActiveKey, DrainingKey}"
      "\<And>s. s \<noteq> a \<Longrightarrow> \<not> used_as (K s)" "ps_status st \<in> {ReadyPool, DrainingPool, BlockedPool}"
      "ps_status st = DrainingPool \<Longrightarrow> ps_draining st = Some a \<and> k = DrainingKey"
      "ps_drain_target st \<notin> {Some ActiveKey, Some DrainingKey}"
  | (no_key) "ps_active st = None" "K [] = None" "\<And>s. \<not> used_as (K s)" "ps_status st \<in> {EmptyPool, ExhaustedPool, BlockedPool}"
      "ps_drain_target st \<notin> {Some ActiveKey, Some DrainingKey}"
proof (cases "ps_active st")
  case None
  then show ?thesis using used key_in_use_used [OF used]
    by (intro no_key) (cases "ps_status st"; simp add: key_in_use_def)+
next
  case (Some a)
  have "used_as (K a)" using key_in_use_used [OF used] Some by simp
  moreover have "map_option fst (K a) = Some AcquisitionKey" "K [] = None" using used Some by (simp_all add: key_in_use_def)
  ultimately obtain k where k: "K a = Some (AcquisitionKey, k)" "k \<in> {ActiveKey, DrainingKey}" "K [] = None"
    by (cases "K a") auto
  have "ps_status st \<in> {ReadyPool, DrainingPool, BlockedPool}"
    using used Some by (cases "ps_status st") (simp_all add: key_in_use_def)
  moreover have "ps_status st = DrainingPool \<Longrightarrow> ps_draining st = Some a \<and> k = DrainingKey"
  proof -
    assume "ps_status st = DrainingPool"
    then have "ps_draining st = Some a" "map_option snd (K a) \<noteq> Some ActiveKey"
      using used Some by (simp_all add: key_in_use_def)
    then show "ps_draining st = Some a \<and> k = DrainingKey" using k by auto
  qed
  moreover have "\<not> used_as (K s)" if "s \<noteq> a" for s using key_in_use_used [OF used] Some that by simp
  moreover have "ps_drain_target st \<notin> {Some ActiveKey, Some DrainingKey}" using used by (simp add: key_in_use_def)
  ultimately show ?thesis using key [OF Some k(3) k(1) k(2)] by blast
qed

lemma key_in_use_someI:
  assumes "ps_active st = Some a" "K [] = None" "K a = Some (AcquisitionKey, k)" "k \<in> {ActiveKey, DrainingKey}"
    and others: "\<And>s. s \<noteq> a \<Longrightarrow> \<not> used_as (K s)" and "ps_status st \<in> {ReadyPool, DrainingPool, BlockedPool}"
    and "ps_status st = DrainingPool \<Longrightarrow> ps_draining st = Some a \<and> k = DrainingKey" and "ps_drain_target st \<notin> {Some ActiveKey, Some DrainingKey}"
  shows "key_in_use K st"
proof -
  have "used_as (K s) \<longleftrightarrow> Some a = Some s" for s
    using assms(3,4) others [of s] by (cases "s = a") auto
  moreover have "map_option snd (K s) \<noteq> Some ActiveKey" if "ps_status st = DrainingPool" for s
    using assms(3,7) others [of s] that by (cases "s = a") (auto simp: used_as_def)
  ultimately show ?thesis using assms unfolding key_in_use_def by auto
qed

lemma key_in_use_noneI:
  "ps_active st = None \<Longrightarrow> K [] = None \<Longrightarrow> ps_status st \<in> {EmptyPool, ExhaustedPool, BlockedPool} \<Longrightarrow> (\<And>s. \<not> used_as (K s))
    \<Longrightarrow> ps_drain_target st \<notin> {Some ActiveKey, Some DrainingKey} \<Longrightarrow> key_in_use K st"
  unfolding key_in_use_def by auto

text \<open>The invariant depends on which keys are in use only.\<close>

lemma key_in_use_idle:
  assumes "key_in_use K st" "\<And>s. used_as (K s) \<Longrightarrow> K' s = K s" "\<And>s. \<not> used_as (K s) \<Longrightarrow> \<not> used_as (K' s)" "K [] = None \<Longrightarrow> K' [] = None"
  shows "key_in_use K' st"
  using assms(1)
proof (cases rule: key_in_use_cases)
  case (key a k)
  then have "K' a = Some (AcquisitionKey, k)" using assms(2) [of a] by auto
  then show ?thesis using key assms(3,4) by (intro key_in_use_someI [where k = k and a = a]) simp_all
qed (simp_all add: key_in_use_noneI assms(3,4))

subsection \<open>Statements on the map of keys\<close>

definition keeps_ids :: "(pool_member \<Rightarrow> pool_member) \<Rightarrow> bool" where
  "keeps_ids f \<longleftrightarrow> (\<forall>m. pm_workspace_id (f m) = pm_workspace_id m \<and> pm_secret_id (f m) = pm_secret_id m)"

lemma find_update_member:
  assumes "keeps_ids f"
  shows "find (is_member v t) (update_where (is_member w s) f ms) =
    (if v = w \<and> t = s then map_option f (find (is_member w s) ms) else find (is_member v t) ms)"
  using assms by (induction ms) (auto simp: keeps_ids_def is_member_def)

lemma keys_update_member:
  assumes "update_member w s f d = Inr d'" "keeps_ids f"
  shows "keys_of w d' = (keys_of w d)(s := map_option (\<lambda>m. role_status (f m)) (find_member w s d))"
    and "v \<noteq> w \<Longrightarrow> keys_of v d' = keys_of v d"
proof -
  have "pd_members d' = update_where (is_member w s) f (pd_members d)"
    using assms(1) by (auto simp: update_member_Inr)
  then have "keys_of v d' t = (if v = w \<and> t = s then map_option (\<lambda>m. role_status (f m)) (find_member w s d) else keys_of v d t)"
    for v t by (simp add: keys_of_def find_member_def find_update_member [OF assms(2)] option.map_comp o_def)
  then show "keys_of w d' = (keys_of w d)(s := map_option (\<lambda>m. role_status (f m)) (find_member w s d))"
    and "v \<noteq> w \<Longrightarrow> keys_of v d' = keys_of v d"
    by (auto intro!: ext)
qed

lemma find_map_view: "find (is_member w s) (map key_view ms) = map_option key_view (find (is_member w s) ms)"
  by (induction ms) (auto simp: is_member_def key_view_def)

lemma keys_repositions:
  assumes "repositions d d'"
  shows "keys_of w d' = keys_of w d"
proof
  fix s
  have "map_option key_view (find_member w s d') = map_option key_view (find_member w s d)"
    unfolding find_member_def find_map_view [symmetric] repositionsD(6) [OF assms] ..
  moreover have "role_status (key_view m) = role_status m" for m by (simp add: role_status_def key_view_def)
  ultimately show "keys_of w d' s = keys_of w d s"
    unfolding keys_of_def by (cases "find_member w s d'"; cases "find_member w s d") (simp_all, metis)
qed

lemma keys_append:
  assumes "find_member (pm_workspace_id m) (pm_secret_id m) d = None"
  shows "keys_of (pm_workspace_id m) (d\<lparr>pd_members := pd_members d @ [m]\<rparr>) =
      (keys_of (pm_workspace_id m) d)(pm_secret_id m := Some (role_status m))"
    and "v \<noteq> pm_workspace_id m \<Longrightarrow> keys_of v (d\<lparr>pd_members := pd_members d @ [m]\<rparr>) = keys_of v d"
proof -
  have *: "find P (xs @ [m]) = (case find P xs of None \<Rightarrow> if P m then Some m else None | Some y \<Rightarrow> Some y)" for P xs
    by (induction xs) auto
  show "keys_of (pm_workspace_id m) (d\<lparr>pd_members := pd_members d @ [m]\<rparr>) =
      (keys_of (pm_workspace_id m) d)(pm_secret_id m := Some (role_status m))"
    using assms by (auto simp: keys_of_def find_member_def * is_member_def fun_eq_iff split: option.split)
  show "v \<noteq> pm_workspace_id m \<Longrightarrow> keys_of v (d\<lparr>pd_members := pd_members d @ [m]\<rparr>) = keys_of v d"
    by (auto simp: keys_of_def find_member_def * is_member_def fun_eq_iff split: option.split)
qed

lemma keys_remove:
  "keys_of w (d\<lparr>pd_members := filter (\<lambda>x. \<not> is_member w s x) (pd_members d)\<rparr>) = (keys_of w d)(s := None)"
  "v \<noteq> w \<Longrightarrow> keys_of v (d\<lparr>pd_members := filter (\<lambda>x. \<not> is_member w s x) (pd_members d)\<rparr>) = keys_of v d"
proof -
  have "find (is_member v t) (filter (\<lambda>x. \<not> is_member w s x) ms) =
      (if v = w \<and> t = s then None else find (is_member v t) ms)" for v t ms
    unfolding is_member_def by (induction ms) auto
  then show "keys_of w (d\<lparr>pd_members := filter (\<lambda>x. \<not> is_member w s x) (pd_members d)\<rparr>) = (keys_of w d)(s := None)"
    and "v \<noteq> w \<Longrightarrow> keys_of v (d\<lparr>pd_members := filter (\<lambda>x. \<not> is_member w s x) (pd_members d)\<rparr>) = keys_of v d"
    by (simp_all add: keys_of_def find_member_def fun_eq_iff)
qed

lemma keys_other [simp]:
  "keys_of w (update_state v f d) = keys_of w d" "keys_of w (bump v now g d) = keys_of w d"
  "keys_of w (d\<lparr>pd_runs := rs\<rparr>) = keys_of w d" "keys_of w (d\<lparr>pd_drawn := n\<rparr>) = keys_of w d"
  "keys_of w (d\<lparr>pd_attempts := as\<rparr>) = keys_of w d" "keys_of w (d\<lparr>pd_jobs := js\<rparr>) = keys_of w d"
  "keys_of w (d\<lparr>pd_secrets := ss\<rparr>) = keys_of w d"
  by (simp_all add: keys_of_def find_member_def fun_eq_iff)

subsection \<open>One workspace at a time\<close>

lemma sound_step:
  assumes sound: "pool_sound d" and ok: "members_ok (pd_members d')"
    and states: "pd_states d' = update_where (\<lambda>st. ps_workspace_id st = w) F (pd_states d)"
    and fixed: "\<And>st. ps_workspace_id (F st) = ps_workspace_id st"
    and others: "\<And>v. v \<noteq> w \<Longrightarrow> keys_of v d' = keys_of v d"
    and own: "\<And>st. st \<in> set (pd_states d) \<Longrightarrow> ps_workspace_id st = w \<Longrightarrow> key_in_use (keys_of w d) st
                \<Longrightarrow> key_in_use (keys_of w d') (F st)"
  shows "pool_sound d'"
proof -
  have "key_in_use (keys_of (ps_workspace_id st') d') st'" if st': "st' \<in> set (pd_states d')" for st'
    using st' unfolding states
  proof (rule in_update_whereE)
    assume "st' \<in> set (pd_states d)" "ps_workspace_id st' \<noteq> w"
    then show ?thesis using sound others by (simp add: pool_sound_def)
  next
    fix st assume st: "st \<in> set (pd_states d)" "ps_workspace_id st = w" "st' = F st"
    then have "key_in_use (keys_of w d) st" using sound by (auto simp: pool_sound_def)
    then show ?thesis using st own fixed by simp
  qed
  then show ?thesis using sound ok fixed by (simp add: pool_sound_def states map_update_where_keep)
qed

lemma sound_chain:
  assumes "pool_sound d" "members_ok (pd_members d1)" "pd_states d1 = pd_states d"
    and "\<And>v. v \<noteq> w \<Longrightarrow> keys_of v d1 = keys_of v d" "\<And>st. ps_workspace_id (F st) = ps_workspace_id st"
    and "\<And>st. st \<in> set (pd_states d) \<Longrightarrow> ps_workspace_id st = w \<Longrightarrow> key_in_use (keys_of w d) st
           \<Longrightarrow> key_in_use (keys_of w d1) (F st)"
  shows "pool_sound (update_state w F d1)"
  by (rule sound_step [where w = w and F = F, OF assms(1)]) (simp_all add: assms)

lemma sound_members:
  assumes "pool_sound d" "members_ok (pd_members d1)" "pd_states d1 = pd_states d"
    and "\<And>v. v \<noteq> w \<Longrightarrow> keys_of v d1 = keys_of v d"
    and "\<And>st. st \<in> set (pd_states d) \<Longrightarrow> ps_workspace_id st = w \<Longrightarrow> key_in_use (keys_of w d) st
           \<Longrightarrow> key_in_use (keys_of w d1) st"
  shows "pool_sound d1"
  by (rule sound_step [where w = w and F = id, OF assms(1)]) (simp_all add: assms update_where_def if_distrib cong: if_cong)

lemma state_unique:
  "pool_sound d \<Longrightarrow> lookup_row ps_workspace_id w (pd_states d) = Some st \<Longrightarrow> x \<in> set (pd_states d)
    \<Longrightarrow> ps_workspace_id x = w \<Longrightarrow> x = st"
  by (simp add: pool_sound_def lookup_row_eqI)

lemma sound_state:
  "pool_sound d \<Longrightarrow> lookup_row ps_workspace_id w (pd_states d) = Some st
    \<Longrightarrow> key_in_use (keys_of w d) st \<and> ps_workspace_id st = w \<and> st \<in> set (pd_states d)"
  using lookup_row_SomeD [of ps_workspace_id w "pd_states d" st] by (auto simp: pool_sound_def)

lemma txn_sound:
  "pool_sound d \<Longrightarrow> (\<And>r d'. body d = Inr (r, d') \<Longrightarrow> pool_sound d') \<Longrightarrow> pool_sound (snd (pool_txn body d))"
  by (cases rule: pool_txn_cases [of body d]) simp_all

lemma no_active_iff: "key_in_use K st \<Longrightarrow> no_active st \<longleftrightarrow> ps_active st = None"
  by (erule key_in_use_cases) (auto simp: no_active_def)

lemma keys_at: "find_member w s d = Some m \<Longrightarrow> keys_of w d s = Some (pm_role m, pm_status m)"
  by (simp add: keys_of_def role_status_def)

lemma no_key_at: "keys_of w d s = None \<longleftrightarrow> find_member w s d = None"
  by (simp add: keys_of_def)

subsection \<open>Statements on runs, and on the state alone\<close>

lemma sound_frame [simp]:
  "pool_sound (d\<lparr>pd_runs := rs\<rparr>) \<longleftrightarrow> pool_sound d" "pool_sound (d\<lparr>pd_drawn := n\<rparr>) \<longleftrightarrow> pool_sound d"
  "pool_sound (d\<lparr>pd_attempts := as\<rparr>) \<longleftrightarrow> pool_sound d" "pool_sound (d\<lparr>pd_jobs := js\<rparr>) \<longleftrightarrow> pool_sound d"
  "pool_sound (d\<lparr>pd_secrets := ss\<rparr>) \<longleftrightarrow> pool_sound d"
  by (simp_all add: pool_sound_def)

lemma sound_update_state:
  assumes "pool_sound d" "\<And>st. ps_workspace_id (f st) = ps_workspace_id st"
    "\<And>st. st \<in> set (pd_states d) \<Longrightarrow> ps_workspace_id st = w \<Longrightarrow> key_in_use (keys_of w d) st \<Longrightarrow> key_in_use (keys_of w d) (f st)"
  shows "pool_sound (update_state w f d)"
  by (rule sound_chain [OF assms(1)]) (use assms in \<open>simp_all add: pool_sound_def\<close>)

lemma sound_block: "pool_sound d \<Longrightarrow> pool_sound (block_pool w code now d)"
  unfolding block_pool_def by (rule sound_update_state) (simp_all add: key_in_use_def)

lemma sound_unblock: "pool_sound d \<Longrightarrow> pool_sound (unblock w now d)"
  unfolding unblock_def bump_def
proof (rule sound_update_state)
  fix st assume used: "key_in_use (keys_of w d) st"
  then show "key_in_use (keys_of w d) (st\<lparr>ps_status := if no_active st then ExhaustedPool else ReadyPool,
      ps_blocked_reason := None, ps_generation := ps_generation st + 1, ps_updated_at := now\<rparr>)"
    unfolding no_active_iff [OF used] by (cases "ps_active st") (simp_all add: key_in_use_def)
qed simp_all

lemma sound_repositions: "repositions d d' \<Longrightarrow> pool_sound d \<Longrightarrow> pool_sound d'"
  by (simp add: pool_sound_def repositionsD keys_repositions)

lemma update_memberD:
  assumes "update_member w s f d = Inr d'"
  shows "members_ok (pd_members d')" "pd_states d' = pd_states d" "pool_only d d'"
  using assms by (auto simp: update_member_Inr)

text \<open>Members that are not in use, and stay so, do not matter; neither do changes outside role and status.\<close>

lemma sound_idle:
  assumes "pool_sound d" "update_member w s f d = Inr d1" "keeps_ids f"
    and "\<And>m. find_member w s d = Some m \<Longrightarrow> \<not> used_as (Some (role_status m)) \<and> \<not> used_as (Some (role_status (f m)))"
  shows "pool_sound d1"
proof (rule sound_members [where w = w, OF assms(1)])
  fix st assume used: "key_in_use (keys_of w d) st"
  have "\<not> used_as (keys_of w d s)" "\<not> used_as (keys_of w d1 s)"
    unfolding keys_update_member(1) [OF assms(2,3)] using assms(4) by (cases "find_member w s d"; simp add: keys_of_def)+
  then show "key_in_use (keys_of w d1) st"
    by (intro key_in_use_idle [OF used]) (auto simp: keys_update_member(1) [OF assms(2,3)] no_key_at)
qed (use assms in \<open>simp_all add: update_memberD keys_update_member\<close>)

lemma sound_same_use:
  assumes "pool_sound d" "update_member w s f d = Inr d1" "keeps_ids f" "\<And>m. role_status (f m) = role_status m"
  shows "pool_sound d1"
proof (rule sound_members [where w = w, OF assms(1)])
  fix st assume "key_in_use (keys_of w d) st"
  moreover have "keys_of w d1 = keys_of w d"
    unfolding keys_update_member(1) [OF assms(2,3)] assms(4) by (simp add: fun_upd_idem keys_of_def)
  ultimately show "key_in_use (keys_of w d1) st" by simp
qed (use assms in \<open>simp_all add: update_memberD keys_update_member\<close>)

end
