(* ===== verification/KeyKeeps.thy ===== *)
theory KeyKeeps
  imports KeySound
begin

section \<open>The operations keep the key in use\<close>

text \<open>Each method that writes members or the state of a pool keeps \<open>pool_sound\<close>.\<close>

subsection \<open>Drain\<close>

lemma begin_drain_cases:
  assumes "begin_drain_in w s target reason now d = Inr x"
  obtains (same) "snd x = d" "\<And>st. lookup_row ps_workspace_id w (pd_states d) = Some st \<Longrightarrow> fst x \<Longrightarrow> ps_status st = DrainingPool"
  | (idle) m c d1 where "find_member w s d = Some m" "pm_status m \<notin> {DrainingKey, ActiveKey}" "snd x = d1" "\<not> fst x"
      "target \<in> {StandbyKey, DepletedKey, InvalidKey}"
      "update_member w s (\<lambda>x. x\<lparr>pm_status := target, pm_last_error_code := c\<rparr>) d = Inr d1"
  | (drain) st c d1 where "lookup_row ps_workspace_id w (pd_states d) = Some st" "ps_active st = Some s" "fst x"
      "snd x = update_state w (start_drain s target c now) d1" "target \<in> {StandbyKey, DepletedKey, InvalidKey}" "find_member w s d \<noteq> None" "ps_status st \<notin> {DrainingPool, BlockedPool}"
      "update_member w s (\<lambda>x. x\<lparr>pm_status := DrainingKey, pm_last_error_code := Some c\<rparr>) d = Inr d1"
proof -
  have target: "target \<in> {StandbyKey, DepletedKey, InvalidKey}"
    using assms by (auto simp: begin_drain_in_def split: if_splits)
  obtain st m where st: "lookup_row ps_workspace_id w (pd_states d) = Some st" and m: "find_member w s d = Some m"
    using assms target by (auto simp: begin_drain_in_def state_row_Inr split: option.splits)
  show thesis
    using assms target st m same idle drain
    by (auto simp: begin_drain_in_def state_row_Inr Let_def split: if_splits)
qed

lemma begin_drain_sound:
  assumes sound: "pool_sound d" and drain: "begin_drain_in w s target reason now d = Inr x"
  shows "pool_sound (snd x)"
  using drain
proof (cases rule: begin_drain_cases)
  case same
  then show ?thesis using sound by simp
next
  case (idle m c d1)
  then show ?thesis
    by (intro sound_idle [OF sound]) (auto simp: keeps_ids_def role_status_def)
next
  case (drain st c d1)
  let ?f = "\<lambda>x. x\<lparr>pm_status := DrainingKey, pm_last_error_code := Some c\<rparr>"
  have f: "keeps_ids ?f" by (simp add: keeps_ids_def)
  note d1 = keys_update_member [OF drain(8) f] update_memberD [OF drain(8)]
  show ?thesis unfolding drain(4)
  proof (rule sound_chain [OF sound])
    fix x assume x: "x \<in> set (pd_states d)" "ps_workspace_id x = w" and used: "key_in_use (keys_of w d) x"
    then have active: "ps_active x = Some s" using state_unique [OF sound drain(1)] drain(2) by blast
    from used show "key_in_use (keys_of w d1) (start_drain s target c now x)"
    proof (cases rule: key_in_use_cases)
      case (key a k)
      then have "a = s" using active by simp
      obtain m where m: "find_member w s d = Some m" using drain(6) by blast
      then have "pm_role m = AcquisitionKey" using key(3) \<open>a = s\<close> by (simp add: keys_at)
      then show ?thesis
        by (intro key_in_use_someI [where k = DrainingKey]) (use key \<open>a = s\<close> m drain(5) in \<open>auto simp: start_drain_def d1(1) role_status_def\<close>)
    qed (use active in simp)
  qed (simp_all add: d1 start_drain_def)
qed

lemma begin_drain_method_sound: "pool_sound d \<Longrightarrow> pool_sound (snd (begin_drain s target reason now d))"
  unfolding begin_drain_def
  by (rule txn_sound) (auto simp: committed_Inr split: option.splits dest: begin_drain_sound)

lemma failover_cases:
  assumes "failover_body w now d = Inr (r, d')"
  obtains (same) st where "lookup_row ps_workspace_id w (pd_states d) = Some st" "ps_status st \<noteq> DrainingPool" "d' = d"
  | (switched) st d1 d2 d3 where
      "lookup_row ps_workspace_id w (pd_states d) = Some st" "ps_status st = DrainingPool"
      "acquisition_open_runs w (drain_generation st) d = []"
      "update_member w (or_empty (ps_draining st))
         (retire (case ps_drain_target st of None \<Rightarrow> StandbyKey | Some t \<Rightarrow> t)) d = Inr d1" "repositions d1 d2"
      "(case first_standby w (or_empty (ps_draining st)) d1 of None \<Rightarrow> Inr d2
        | Some c \<Rightarrow> update_member w c make_active d2) = Inr d3"
      "d' = bump w now (switch_to (first_standby w (or_empty (ps_draining st)) d1)) d3"
  using assms same switched
  by (auto simp: failover_body_def state_row_Inr committed_Inr Let_def split: if_splits
      dest!: compact_repositions)

lemma find_member_eqI:
  assumes "members_ok (pd_members d)" "m \<in> set (pd_members d)" "is_member w s m"
  shows "find_member w s d = Some m"
proof -
  obtain n where n: "find_member w s d = Some n"
    using assms(2,3) by (cases "find_member w s d") (auto simp: find_member_def find_None_iff)
  then have "n \<in> set (pd_members d)" "is_member w s n" by (auto simp: find_member_def find_Some_iff)
  moreover have "inj_on (\<lambda>m. (pm_workspace_id m, pm_secret_id m)) (set (pd_members d))"
    using assms(1) by (simp add: members_ok_def distinct_map)
  ultimately show ?thesis using n assms(2,3) by (auto simp: is_member_def dest: inj_onD)
qed

lemma first_standby_row:
  assumes "first_standby w old d = Some c" "members_ok (pd_members d)"
  shows "keys_of w d c = Some (AcquisitionKey, StandbyKey)" "c \<noteq> old"
proof -
  have mem: "x \<in> set (member_rows w d) \<longleftrightarrow> x \<in> set (pd_members d) \<and> pm_workspace_id x = w" for x
    by (simp add: member_rows_def)
  obtain m where m: "m \<in> set (pd_members d)" "pm_workspace_id m = w" "pm_status m = StandbyKey"
      "pm_role m = AcquisitionKey" "pm_secret_id m \<noteq> old" "c = pm_secret_id m"
    using assms(1) mem by (auto simp: first_standby_def find_Some_iff) (metis nth_mem)
  have "find_member w c d = Some m"
    using find_member_eqI [OF assms(2) m(1)] m by (simp add: is_member_def)
  then show "keys_of w d c = Some (AcquisitionKey, StandbyKey)" "c \<noteq> old" using m by (simp_all add: keys_at)
qed

lemma bump_eq: "bump w now f d = update_state w (\<lambda>x. (f x)\<lparr>ps_generation := ps_generation x + 1, ps_updated_at := now\<rparr>) d"
  by (simp add: bump_def)

lemma failover_sound:
  assumes sound: "pool_sound d" shows "pool_sound (snd (complete_drain_and_failover w now d))"
  unfolding complete_drain_and_failover_def
proof (rule txn_sound [OF sound])
  fix r d'
  assume "failover_body w now d = Inr (r, d')"
  then show "pool_sound d'"
  proof (cases rule: failover_cases)
    case (switched st d1 d2 d3)
    let ?old = "or_empty (ps_draining st)" and ?t = "case ps_drain_target st of None \<Rightarrow> StandbyKey | Some t \<Rightarrow> t"
    let ?c = "first_standby w ?old d1"
    have ids: "keeps_ids (retire ?t)" "keeps_ids make_active" by (simp_all add: keeps_ids_def retire_def make_active_def)
    note d1 = keys_update_member [OF switched(4) ids(1)] update_memberD [OF switched(4)]
    note d2 = repositionsD [OF switched(5)] keys_repositions [OF switched(5)]
    have d3: "members_ok (pd_members d3)" "pd_states d3 = pd_states d" "v \<noteq> w \<Longrightarrow> keys_of v d3 = keys_of v d"
        "keys_of w d3 = (case ?c of None \<Rightarrow> keys_of w d1 | Some c \<Rightarrow> (keys_of w d1)(c := Some (AcquisitionKey, ActiveKey)))" for v
    proof -
      show "members_ok (pd_members d3)" "pd_states d3 = pd_states d" "v \<noteq> w \<Longrightarrow> keys_of v d3 = keys_of v d"
        using switched(6) d1 d2 by (auto split: option.splits simp: keys_update_member(2) [OF _ ids(2)] dest: update_memberD)
      show "keys_of w d3 = (case ?c of None \<Rightarrow> keys_of w d1 | Some c \<Rightarrow> (keys_of w d1)(c := Some (AcquisitionKey, ActiveKey)))"
      proof (cases ?c)
        case (Some c)
        then have "keys_of w d2 c = Some (AcquisitionKey, StandbyKey)" using first_standby_row(1) d1(3) d2 by simp
        then obtain m where "find_member w c d2 = Some m" "pm_role m = AcquisitionKey"
          by (auto simp: keys_of_def role_status_def)
        then show ?thesis using switched(6) d2 Some
          by (simp add: keys_update_member(1) [OF _ ids(2)] role_status_def make_active_def)
      qed (use switched(6) d2 in simp)
    qed
    show ?thesis unfolding switched(7) bump_eq
    proof (rule sound_chain [OF sound])
      show "key_in_use (keys_of w d3) ((switch_to ?c x)\<lparr>ps_generation := ps_generation x + 1, ps_updated_at := now\<rparr>)"
        if x: "x \<in> set (pd_states d)" "ps_workspace_id x = w" "key_in_use (keys_of w d) x" for x
        using x(3)
      proof (cases rule: key_in_use_cases)
        case (key a k)
        have "x = st" using state_unique [OF sound switched(1) x(1,2)] .
        then have old: "?old = a" and t: "?t \<notin> {ActiveKey, DrainingKey}"
          using key switched(2) by (auto split: option.split)
        have named: "keys_of w d1 [] = None" using key(2) by (simp add: d1(1) no_key_at)
        have unused: "\<not> used_as (keys_of w d1 s)" for s
          using key(5) [of s] t by (cases "s = a"; cases "find_member w a d") (simp_all add: d1(1) old role_status_def retire_def)
        show ?thesis
        proof (cases ?c)
          case None
          then show ?thesis using unused named by (intro key_in_use_noneI) (simp_all add: switch_to_def d3(4))
        next
          case (Some c)
          then have "keys_of w d1 c \<noteq> None" using first_standby_row(1) d1(3) by simp
          then have "c \<noteq> []" using named by auto
          then show ?thesis using unused named Some by (intro key_in_use_someI [where k = ActiveKey]) (simp_all add: switch_to_def d3(4))
        qed
      qed (use state_unique [OF sound switched(1) x(1,2)] switched(2) in simp)
    qed (simp_all add: d3 switch_to_def)
  qed (simp add: sound)
qed

subsection \<open>The validation key, membership\<close>

lemma sound_bump_id: "pool_sound d \<Longrightarrow> pool_sound (bump w now id d)"
  unfolding bump_eq by (rule sound_update_state) (simp_all add: key_in_use_def)

lemma used_role: "key_in_use K st \<Longrightarrow> used_as (K s) \<Longrightarrow> map_option fst (K s) = Some AcquisitionKey"
  by (simp add: key_in_use_def)

lemma unused_validation:
  assumes "pool_sound d" "lookup_row ps_workspace_id w (pd_states d) = Some st" "keys_of w d s = Some (ValidationKey, k)"
  shows "\<not> used_as (keys_of w d s)"
proof -
  have "key_in_use (keys_of w d) st" using sound_state [OF assms(1,2)] by simp
  then show ?thesis using used_role [of "keys_of w d" st s] assms(3) by auto
qed

lemma validation_cases:
  assumes "validation_body w selected expected now d = Inr (r, d')"
  obtains (same) "d' = d"
  | (assigned) st current d1 d2 where "lookup_row ps_workspace_id w (pd_states d) = Some st"
      "current = find (\<lambda>m. pm_workspace_id m = w \<and> pm_role m = ValidationKey) (pd_members d)"
      "demote_validation w current d = Inr d1" "promote_validation w selected d1 = Inr d2" "d' = bump w now id d2"
      "\<And>s. selected = Some s \<Longrightarrow> keys_of w d s = Some (AcquisitionKey, StandbyKey)"
  using assms same assigned
  by (auto simp: validation_body_def assign_validation_def state_row_Inr committed_Inr Let_def keys_at
      split: if_splits option.splits) (metis (full_types) key_role.exhaust keys_at)+

lemma validation_sound:
  assumes sound: "pool_sound d" shows "pool_sound (snd (set_validation_key w s expected now d))"
  unfolding set_validation_key_def
proof (rule txn_sound [OF sound])
  fix r d'
  assume "validation_body w (normal_id s) expected now d = Inr (r, d')"
  then show "pool_sound d'"
  proof (cases rule: validation_cases)
    case (assigned st current d1 d2)
    have d1: "pool_sound d1 \<and> (\<forall>s. keys_of w d s = Some (AcquisitionKey, StandbyKey) \<longrightarrow> keys_of w d1 s = keys_of w d s)"
    proof (cases current)
      case None
      then show ?thesis using assigned(3) sound by (simp add: demote_validation_def)
    next
      case (Some c)
      let ?f = "\<lambda>m. m\<lparr>pm_role := AcquisitionKey\<rparr>"
      have c: "c \<in> set (pd_members d)" "pm_workspace_id c = w" "pm_role c = ValidationKey"
      proof -
        have "find (\<lambda>m. pm_workspace_id m = w \<and> pm_role m = ValidationKey) (pd_members d) = Some c"
          using assigned(2) Some by simp
        then show "c \<in> set (pd_members d)" "pm_workspace_id c = w" "pm_role c = ValidationKey"
          by (auto simp: find_Some_iff)
      qed
      then have at: "find_member w (pm_secret_id c) d = Some c"
        using find_member_eqI sound by (simp add: pool_sound_def is_member_def)
      have up: "update_member w (pm_secret_id c) ?f d = Inr d1" using assigned(3) Some by (simp add: demote_validation_def)
      have "keeps_ids ?f" by (simp add: keeps_ids_def)
      moreover have "\<not> used_as (Some (role_status c))"
        using unused_validation [OF sound assigned(1)] keys_at [OF at] c(3) by (simp add: role_status_def)
      ultimately show ?thesis using sound_idle [OF sound up] keys_update_member(1) [OF up] keys_at [OF at] at c(3)
        by (auto simp: role_status_def)
    qed
    have "pool_sound d2"
    proof (cases "normal_id s")
      case None
      then show ?thesis using assigned(4) d1 by (simp add: promote_validation_def)
    next
      case (Some k)
      let ?g = "\<lambda>m. m\<lparr>pm_role := ValidationKey, pm_status := StandbyKey, pm_blocked_until := None, pm_last_error_code := None\<rparr>"
      have up: "update_member w k ?g d1 = Inr d2" using assigned(4) Some by (simp add: promote_validation_def)
      have "keys_of w d1 k = Some (AcquisitionKey, StandbyKey)" using d1 assigned(6) [OF Some] by simp
      then show ?thesis using d1
        by (intro sound_idle [OF _ up]) (auto simp: keeps_ids_def keys_of_def role_status_def)
    qed
    then show ?thesis unfolding assigned(5) by (rule sound_bump_id)
  qed (simp add: sound)
qed

lemma sound_activate:
  assumes sound: "pool_sound d" and st: "lookup_row ps_workspace_id w (pd_states d) = Some st" "no_active st" and s: "s \<noteq> []"
    and d1: "members_ok (pd_members d1)" "pd_states d1 = pd_states d" "\<And>v. v \<noteq> w \<Longrightarrow> keys_of v d1 = keys_of v d"
      "keys_of w d1 = (keys_of w d)(s := Some (AcquisitionKey, ActiveKey))"
  shows "pool_sound (bump w now (activate_key s) d1)"
  unfolding bump_eq
proof (rule sound_chain [OF sound d1(1-3)])
  fix x assume x: "x \<in> set (pd_states d)" "ps_workspace_id x = w" and used: "key_in_use (keys_of w d) x"
  then have "ps_active x = None" using no_active_iff [OF used] state_unique [OF sound st(1)] st(2) by blast
  then show "key_in_use (keys_of w d1) ((activate_key s x)\<lparr>ps_generation := ps_generation x + 1, ps_updated_at := now\<rparr>)"
    using used key_in_use_used [OF used] s
    by (intro key_in_use_someI [where a = s and k = ActiveKey]) (simp_all add: activate_key_def d1(4) key_in_use_def)
qed (simp_all add: activate_key_def)

lemma append_cases:
  assumes "append_body s now d = Inr (r, d')"
  obtains (same) "d' = d"
  | (added) w st m d2 where "lookup_row ps_workspace_id w (pd_states d) = Some st" "find_member w s d = None"
      "pm_workspace_id m = w" "pm_secret_id m = s" "pm_role m = AcquisitionKey" "members_ok (pd_members d @ [m])"
      "repositions (d\<lparr>pd_members := pd_members d @ [m]\<rparr>) d2"
      "(no_active st \<and> pm_status m = ActiveKey \<and> d' = bump w now (activate_key s) d2)
       \<or> (pm_status m = StandbyKey \<and> d' = bump w now id d2)"
proof -
  obtain sr where sr: "lookup_row sr_id s (pd_secrets d) = Some sr"
    using assms by (auto simp: append_body_def split: option.splits)
  let ?w = "sr_workspace_id sr"
  obtain st where st: "lookup_row ps_workspace_id ?w (pd_states d) = Some st"
    using assms sr by (auto simp: append_body_def state_row_Inr Let_def split: if_splits)
  let ?a = "ps_status st \<in> {EmptyPool, ExhaustedPool} \<and> no_active st"
  define m where "m = \<lparr>pm_workspace_id = ?w, pm_secret_id = s, pm_role = AcquisitionKey, pm_position = max_position ?w d + 1,
                      pm_status = (if ?a then ActiveKey else StandbyKey), pm_blocked_until = None,
                      pm_last_error_code = None, pm_quota = fresh_quota\<rparr>"
  show thesis
  proof (cases "find_member ?w s d")
    case None
    then have "try_then (write_members (pd_members d @ [m]) d) (\<lambda>d1.
        if ?a then try_then (compact_positions ?w (s # others ?w s d1) d1) (\<lambda>d2. committed ?w (bump ?w now (activate_key s) d2))
        else committed ?w (bump ?w now id d1)) = Inr (r, d')"
      using assms sr st
      by (cases ?a) (auto simp: append_body_def state_row_def m_def Let_def simp del: try_then_Inr split: if_splits)
    then have step: "members_ok (pd_members d @ [m])"
        "if ?a then \<exists>d2. repositions (d\<lparr>pd_members := pd_members d @ [m]\<rparr>) d2 \<and> d' = bump ?w now (activate_key s) d2
         else d' = bump ?w now id (d\<lparr>pd_members := pd_members d @ [m]\<rparr>)"
      by (auto simp: write_members_Inr committed_Inr split: if_splits dest: compact_repositions)
    have m: "pm_workspace_id m = ?w" "pm_secret_id m = s" "pm_role m = AcquisitionKey"
        "pm_status m = (if ?a then ActiveKey else StandbyKey)"
      by (simp_all add: m_def)
    show thesis
    proof (cases ?a)
      case True
      then obtain d2 where "repositions (d\<lparr>pd_members := pd_members d @ [m]\<rparr>) d2" "d' = bump ?w now (activate_key s) d2"
        using step(2) by auto
      then show thesis using st None step(1) m True by (intro added [of ?w st m d2]) simp_all
    next
      case False
      then show thesis using st None step m
        by (intro added [of ?w st m "d\<lparr>pd_members := pd_members d @ [m]\<rparr>"]) (auto simp: repositions_refl)
    qed
  next
    case (Some n)
    then show thesis using assms sr st same
      by (auto simp: append_body_def state_row_def Let_def committed_Inr split: if_splits)
  qed
qed

lemma append_sound:
  assumes sound: "pool_sound d" and s: "s \<noteq> []" shows "pool_sound (snd (append_secret s now d))"
  unfolding append_secret_def
proof (rule txn_sound [OF sound])
  fix r d'
  assume "append_body s now d = Inr (r, d')"
  then show "pool_sound d'"
  proof (cases rule: append_cases)
    case (added w st m d2)
    let ?d1 = "d\<lparr>pd_members := pd_members d @ [m]\<rparr>"
    have absent: "find_member (pm_workspace_id m) (pm_secret_id m) d = None" using added(2-4) by simp
    note k = keys_append [OF absent, unfolded added(3,4)] and d2 = repositionsD [OF added(7)] keys_repositions [OF added(7)]
    have d2': "members_ok (pd_members d2)" "pd_states d2 = pd_states d" "v \<noteq> w \<Longrightarrow> keys_of v d2 = keys_of v d"
        "keys_of w d2 = (keys_of w d)(s := Some (role_status m))" for v
      using d2 k added(6) by simp_all
    show ?thesis using added(8)
    proof
      assume a: "no_active st \<and> pm_status m = ActiveKey \<and> d' = bump w now (activate_key s) d2"
      have d2'': "keys_of w d2 = (keys_of w d)(s := Some (AcquisitionKey, ActiveKey))"
        using d2'(4) a added(5) by (simp add: role_status_def)
      show ?thesis using sound_activate [OF sound added(1) _ s d2'(1-3) d2''] a by simp
    next
      assume a: "pm_status m = StandbyKey \<and> d' = bump w now id d2"
      have "pool_sound d2"
      proof (rule sound_members [OF sound d2'(1-3)])
        fix x assume "key_in_use (keys_of w d) x"
        then show "key_in_use (keys_of w d2) x"
          by (rule key_in_use_idle) (use a added(2) s in \<open>auto simp: d2'(4) no_key_at [symmetric] role_status_def\<close>)
      qed
      then show ?thesis using a sound_bump_id by simp
    qed
  qed (simp add: sound)
qed

subsection \<open>Order, rotation, removal\<close>

lemma replace_active_sound:
  assumes sound: "pool_sound d" and st: "lookup_row ps_workspace_id w (pd_states d) = Some st" "ps_active st = Some old"
    and "ps_status st \<notin> {DrainingPool, BlockedPool}" and "old \<noteq> new" and replace: "replace_active w old new enabled now d = Inr d'"
  shows "pool_sound d'"
proof -
  let ?f = "\<lambda>m. m\<lparr>pm_status := StandbyKey\<rparr>" and ?g = "\<lambda>m. m\<lparr>pm_status := ActiveKey\<rparr>"
  let ?F = "\<lambda>st. st\<lparr>ps_active := Some new, ps_updated_at := now\<rparr>"
  obtain m d1 d2 where m: "find_member w new d = Some m" "pm_role m = AcquisitionKey"
      and d1: "update_member w old ?f d = Inr d1" and d2: "update_member w new ?g d1 = Inr d2" "d' = update_state w ?F d2"
    using replace by (auto simp: replace_active_def split: if_splits option.splits)
  have ids: "keeps_ids ?f" "keeps_ids ?g" by (simp_all add: keeps_ids_def)
  note k1 = keys_update_member [OF d1 ids(1)] update_memberD [OF d1]
    and k2 = keys_update_member [OF d2(1) ids(2)] update_memberD [OF d2(1)]
  have "keys_of w d1 new = Some (AcquisitionKey, pm_status m)" using k1(1) \<open>old \<noteq> new\<close> m by (simp add: keys_at)
  then obtain n where n: "find_member w new d1 = Some n" "pm_role n = AcquisitionKey"
    by (auto simp: keys_of_def role_status_def)
  show ?thesis unfolding d2(2)
  proof (rule sound_chain [OF sound])
    fix x assume x: "x \<in> set (pd_states d)" "ps_workspace_id x = w" and used: "key_in_use (keys_of w d) x"
    then have "x = st" using state_unique [OF sound st(1)] by blast
    from used show "key_in_use (keys_of w d2) (?F x)"
    proof (cases rule: key_in_use_cases)
      case (key a k)
      have "a = old" using key(1) \<open>x = st\<close> st(2) by simp
      have "\<not> used_as (keys_of w d2 s)" if "s \<noteq> new" for s
        using that key(5) [of s] \<open>a = old\<close>
        by (cases "s = old"; cases "find_member w old d") (simp_all add: k1(1) k2(1) role_status_def)
      moreover have "keys_of w d2 [] = None" using key(2) m(1) by (cases "new = []") (simp_all add: k1(1) k2(1) no_key_at)
      moreover have "keys_of w d2 new = Some (AcquisitionKey, ActiveKey)" using n by (simp add: k2(1) role_status_def)
      ultimately show ?thesis
        using key assms(4) \<open>x = st\<close> by (intro key_in_use_someI [where a = new and k = ActiveKey]) simp_all
    qed (use \<open>x = st\<close> st(2) in simp)
  qed (simp_all add: k1 k2)
qed

lemma reorder_cases:
  assumes "reorder_body w expected ids enabled now d = Inr (r, d')"
  obtains st d1 d2 where "lookup_row ps_workspace_id w (pd_states d) = Some st" "ps_generation st = expected"
    "ps_status st \<notin> {DrainingPool, BlockedPool}" "length ids = length (member_ids w d)" "set ids = set (member_ids w d)"
    "(if truthy (or_empty (ps_active st)) \<and> ids \<noteq> [] \<and> hd ids \<noteq> or_empty (ps_active st)
      then replace_active w (or_empty (ps_active st)) (hd ids) enabled now d else Inr d) = Inr d1"
    "compact_positions w ids d1 = Inr d2" "d' = bump w now id d2"
  using assms that by (auto simp: reorder_body_def state_row_Inr committed_Inr Let_def split: if_splits)

lemma reorder_sound:
  assumes sound: "pool_sound d" shows "pool_sound (snd (reorder w expected ids enabled now d))"
proof (cases "distinct ids")
  case True
  have "pool_sound (snd (pool_txn (reorder_body w expected ids enabled now) d))"
  proof (rule txn_sound [OF sound])
    fix r d'
    assume "reorder_body w expected ids enabled now d = Inr (r, d')"
    then show "pool_sound d'"
    proof (cases rule: reorder_cases)
      case (1 st d1 d2)
      have "pool_sound d1"
      proof (cases "truthy (or_empty (ps_active st)) \<and> ids \<noteq> [] \<and> hd ids \<noteq> or_empty (ps_active st)")
        case True
        then obtain a where "ps_active st = Some a" by (cases "ps_active st") auto
        then show ?thesis using replace_active_sound [OF sound 1(1) _ 1(3)] 1(6) True by fastforce
      qed (use 1(6) sound in \<open>simp split: if_splits\<close>)
      then have "pool_sound d2" using sound_repositions [OF compact_repositions [OF 1(7)]] by blast
      then show ?thesis using 1(8) sound_bump_id by simp
    qed
  qed
  then show ?thesis by (simp add: reorder_def True)
qed (simp add: reorder_def sound)

lemma owner_row: "owner_of s d = Some m \<Longrightarrow> m \<in> set (pd_members d) \<and> pm_secret_id m = s"
  unfolding owner_of_def by (rule lookup_row_SomeD)

lemma rotated_cases:
  assumes "rotated_body s now d = Inr (r, d')"
  obtains (same) "d' = d"
  | (rotated) w m st d1 d2 remains activate where "m \<in> set (pd_members d)" "is_member w s m"
      "lookup_row ps_workspace_id w (pd_states d) = Some st" "pm_status m \<noteq> DrainingKey"
      "remains \<longleftrightarrow> pm_role m \<noteq> ValidationKey \<and> ps_active st = Some s"
      "activate \<Longrightarrow> pm_role m \<noteq> ValidationKey \<and> no_active st"
      "update_member w s (restart_key (remains \<or> activate)) d = Inr d1" "repositions d1 d2"
      "d' = bump w now (if activate then activate_key s else id) d2"
proof (cases "owner_of s d")
  case None
  then show thesis using assms same by (simp add: rotated_body_def)
next
  case (Some m)
  let ?w = "pm_workspace_id m"
  obtain st where st: "lookup_row ps_workspace_id ?w (pd_states d) = Some st"
    using assms Some by (auto simp: rotated_body_def Let_def state_row_Inr)
  define remains where "remains \<longleftrightarrow> pm_role m \<noteq> ValidationKey \<and> ps_active st = Some s"
  define activate where "activate \<longleftrightarrow> pm_role m \<noteq> ValidationKey
      \<and> (pm_role m \<noteq> ValidationKey \<longrightarrow> ps_active st \<noteq> Some s) \<and> no_active st
      \<and> (ps_status st = EmptyPool \<or> ps_status st = ReadyPool \<or> ps_status st = ExhaustedPool)"
  have step: "pm_status m \<noteq> DrainingKey" "rotate_member ?w s remains activate now d = Inr (r, d')"
    using assms Some st by (auto simp: rotated_body_def Let_def state_row_Inr remains_def [symmetric] activate_def [symmetric] split: if_splits)
  then obtain d1 d2 where done1: "update_member ?w s (restart_key (remains \<or> activate)) d = Inr d1"
      and done2: "(if remains then Inr d1
        else compact_positions ?w (if activate then s # others ?w s d1 else others ?w s d1 @ [s]) d1) = Inr d2"
      and done3: "d' = bump ?w now (if activate then activate_key s else id) d2"
    by (auto simp: rotate_member_def Let_def)
  have "repositions d1 d2"
    using done2 by (cases remains) (auto simp: repositions_refl dest: compact_repositions)
  moreover have "activate \<Longrightarrow> pm_role m \<noteq> ValidationKey \<and> no_active st" by (simp add: activate_def)
  moreover have "m \<in> set (pd_members d)" "is_member ?w s m" using owner_row [OF Some] by (simp_all add: is_member_def)
  ultimately show thesis using rotated [OF _ _ st step(1) remains_def _ done1 _ done3] by blast
qed

lemma rotated_sound:
  assumes sound: "pool_sound d" shows "pool_sound (snd (mark_secret_rotated s now d))"
  unfolding mark_secret_rotated_def
proof (rule txn_sound [OF sound])
  fix r d'
  assume "rotated_body s now d = Inr (r, d')"
  then show "pool_sound d'"
  proof (cases rule: rotated_cases)
    case (rotated w m st d1 d2 remains activate)
    have ids: "keeps_ids (restart_key b)" for b by (simp add: restart_key_def keeps_ids_def)
    note k1 = keys_update_member [OF rotated(7) ids] update_memberD [OF rotated(7)]
      and k2 = repositionsD [OF rotated(8)] keys_repositions [OF rotated(8)]
    have at: "find_member w s d = Some m" using find_member_eqI rotated(1,2) sound by (simp add: pool_sound_def)
    have used: "key_in_use (keys_of w d) st" using sound_state [OF sound rotated(3)] by simp
    have K: "keys_of w d2 = (keys_of w d)(s := Some (pm_role m, if remains \<or> activate then ActiveKey else StandbyKey))"
      by (simp add: k2 k1(1) at role_status_def restart_key_def)
    have d2: "members_ok (pd_members d2)" "pd_states d2 = pd_states d" "v \<noteq> w \<Longrightarrow> keys_of v d2 = keys_of v d" for v
      using k1 k2 by simp_all
    have s: "s \<noteq> []" using used keys_at [OF at] by (auto simp: key_in_use_def)
    show ?thesis
    proof (cases activate)
      case True
      then have "pm_role m = AcquisitionKey" "no_active st" using rotated(6) by (auto intro: key_role.exhaust [of "pm_role m"])
      then show ?thesis using sound_activate [OF sound rotated(3) _ s d2] K True rotated(9) by simp
    next
      case False
      have "pool_sound d2"
      proof (rule sound_members [OF sound d2])
        fix x assume "x \<in> set (pd_states d)" "ps_workspace_id x = w" "key_in_use (keys_of w d) x"
        then have "x = st" using state_unique [OF sound rotated(3)] by blast
        show "key_in_use (keys_of w d2) x"
        proof (cases remains)
          case True
          then have "used_as (keys_of w d s)" "pm_role m = AcquisitionKey"
            using used_role [OF used, of s] key_in_use_used [OF used, of s] rotated(5) keys_at [OF at] by simp_all
          then have "keys_of w d2 = keys_of w d"
            using keys_at [OF at] rotated(4) True by (auto simp: K fun_eq_iff)
          then show ?thesis using used \<open>x = st\<close> by simp
        next
          case False
          then have "\<not> used_as (keys_of w d s)"
            using used_role [OF used, of s] key_in_use_used [OF used, of s] rotated(5) keys_at [OF at] by auto
          then show ?thesis unfolding \<open>x = st\<close> using False \<open>\<not> activate\<close> s
            by (intro key_in_use_idle [OF used]) (auto simp: K)
        qed
      qed
      then show ?thesis using rotated(9) False sound_bump_id by simp
    qed
  qed (simp add: sound)
qed

lemma remove_cases:
  assumes "remove_body s now d = Inr (r, d')"
  obtains (same) "d' = d"
  | (removed) w m st d2 d3 rows candidate where "m \<in> set (pd_members d)" "is_member w s m"
      "pm_status m \<notin> {ActiveKey, DrainingKey}" "lookup_row ps_workspace_id w (pd_states d) = Some st"
      "members_ok (filter (\<lambda>x. \<not> is_member w s x) (pd_members d))"
      "repositions (d\<lparr>pd_members := filter (\<lambda>x. \<not> is_member w s x) (pd_members d)\<rparr>) d2"
      "\<And>c. candidate = Some c \<Longrightarrow> no_active st \<and> (\<exists>x \<in> set (pd_members d2). is_member w c x \<and> pm_status x = StandbyKey
         \<and> pm_role x = AcquisitionKey)"
      "(case candidate of None \<Rightarrow> Inr d2 | Some c \<Rightarrow> update_member w c promote_key d2) = Inr d3"
      "d' = bump w now (after_removal rows candidate) d3"
proof (cases "owner_of s d")
  case None
  then show thesis using assms same by (simp add: remove_body_def)
next
  case (Some m)
  let ?w = "pm_workspace_id m" and ?ms = "filter (\<lambda>x. \<not> is_member (pm_workspace_id m) s x) (pd_members d)"
  let ?d1 = "d\<lparr>pd_members := ?ms\<rparr>"
  obtain d2 st where step: "members_ok ?ms" "pm_status m \<notin> {ActiveKey, DrainingKey}"
      "compact_positions ?w (map pm_secret_id (member_rows ?w ?d1)) ?d1 = Inr d2"
      "lookup_row ps_workspace_id ?w (pd_states d2) = Some st"
    using assms Some by (auto simp: remove_body_def Let_def write_members_Inr state_row_Inr split: if_splits)
  define candidate where "candidate = (if no_active st \<and> ps_status st \<notin> {DrainingPool, BlockedPool}
      then map_option pm_secret_id (find (\<lambda>x. pm_status x = StandbyKey \<and> pm_role x = AcquisitionKey) (member_rows ?w d2))
      else None)"
  obtain d3 where d3: "(case candidate of None \<Rightarrow> Inr d2 | Some c \<Rightarrow> update_member ?w c promote_key d2) = Inr d3"
      "d' = bump ?w now (after_removal (member_rows ?w ?d1) candidate) d3"
    using assms Some step
    by (auto simp: remove_body_def Let_def write_members_Inr state_row_Inr candidate_def simp del: not_None_eq split: if_splits)
  have d2: "repositions ?d1 d2" using step(3) by (rule compact_repositions)
  have "no_active st \<and> (\<exists>x \<in> set (pd_members d2). is_member ?w c x \<and> pm_status x = StandbyKey \<and> pm_role x = AcquisitionKey)"
    if "candidate = Some c" for c
  proof -
    have rows: "x \<in> set (member_rows ?w d2) \<longleftrightarrow> x \<in> set (pd_members d2) \<and> pm_workspace_id x = ?w" for x
      by (simp add: member_rows_def)
    show ?thesis using that rows
      by (auto simp: candidate_def find_Some_iff is_member_def split: if_splits) (metis nth_mem)
  qed
  then show thesis using removed [of m ?w st d2 candidate d3 "member_rows ?w ?d1"] owner_row [OF Some] step d2 d3
    by (simp add: is_member_def repositionsD(2) [OF d2])
qed

lemma remove_sound:
  assumes sound: "pool_sound d" shows "pool_sound (snd (remove_secret s now d))"
  unfolding remove_secret_def
proof (rule txn_sound [OF sound])
  fix r d'
  assume "remove_body s now d = Inr (r, d')"
  then show "pool_sound d'"
  proof (cases rule: remove_cases)
    case (removed w m st d2 d3 rows candidate)
    have ids: "keeps_ids promote_key" by (simp add: promote_key_def keeps_ids_def)
    have at: "find_member w s d = Some m" using find_member_eqI removed(1,2) sound by (simp add: pool_sound_def)
    note d2 = repositionsD [OF removed(6)] keys_repositions [OF removed(6)] keys_remove
    have K2: "keys_of w d2 = (keys_of w d)(s := None)" "v \<noteq> w \<Longrightarrow> keys_of v d2 = keys_of v d" for v
      using d2 by simp_all
    have standby: "keys_of w d2 c = Some (AcquisitionKey, StandbyKey)" if "candidate = Some c" for c
      using removed(7) [OF that] d2(7) removed(5) by (auto simp: keys_at dest!: find_member_eqI [rotated 1])
    have K3: "keys_of w d3 = (case candidate of None \<Rightarrow> keys_of w d2
        | Some c \<Rightarrow> (keys_of w d2)(c := Some (AcquisitionKey, ActiveKey)))"
      and d3: "members_ok (pd_members d3)" "pd_states d3 = pd_states d" "v \<noteq> w \<Longrightarrow> keys_of v d3 = keys_of v d" for v
    proof -
      show "members_ok (pd_members d3)" "pd_states d3 = pd_states d" "v \<noteq> w \<Longrightarrow> keys_of v d3 = keys_of v d"
        using removed(5,8) d2 K2 by (auto split: option.splits simp: keys_update_member(2) [OF _ ids] dest: update_memberD)
      show "keys_of w d3 = (case candidate of None \<Rightarrow> keys_of w d2
          | Some c \<Rightarrow> (keys_of w d2)(c := Some (AcquisitionKey, ActiveKey)))"
      proof (cases candidate)
        case (Some c)
        then obtain n where "find_member w c d2 = Some n" "pm_role n = AcquisitionKey"
          using standby [OF Some] by (auto simp: keys_of_def role_status_def)
        then show ?thesis using removed(8) Some
          by (simp add: keys_update_member(1) [OF _ ids] role_status_def promote_key_def)
      qed (use removed(8) in simp)
    qed
    show ?thesis unfolding removed(9) bump_eq
    proof (rule sound_chain [OF sound d3])
      fix x assume x: "x \<in> set (pd_states d)" "ps_workspace_id x = w" and used: "key_in_use (keys_of w d) x"
      let ?x = "(after_removal rows candidate x)\<lparr>ps_generation := ps_generation x + 1, ps_updated_at := now\<rparr>"
      have "x = st" using state_unique [OF sound removed(4) x] .
      have idle: "\<not> used_as (keys_of w d s)" using keys_at [OF at] removed(3) by simp
      from used show "key_in_use (keys_of w d3) ?x"
      proof (cases rule: key_in_use_cases)
        case (key a k)
        have "candidate = None" using removed(7) no_active_iff [OF used] key(1) \<open>x = st\<close> by (cases candidate) auto
        moreover have "a \<noteq> s" using idle key(3,4) by auto
        ultimately show ?thesis using key
          by (intro key_in_use_someI [where a = a and k = k]) (simp_all add: K3 K2 after_removal_def)
      next
        case no_key
        show ?thesis
        proof (cases candidate)
          case None
          then show ?thesis using no_key by (intro key_in_use_noneI) (simp_all add: K3 K2 after_removal_def)
        next
          case (Some c)
          then have "c \<noteq> []" using standby [OF Some] no_key(2) by (auto simp: K2 split: if_splits)
          then show ?thesis using no_key Some
            by (intro key_in_use_someI [where a = c and k = ActiveKey]) (simp_all add: K3 K2 after_removal_def)
        qed
      qed
    qed (simp_all add: after_removal_def)
  qed (simp add: sound)
qed

end
