(* ===== verification/KeyLeases.thy ===== *)
theory KeyLeases
  imports KeyKeeps
begin

section \<open>Leases and quotas keep the key in use\<close>

text \<open>
  What a round of \<open>acquire_credential\<close> did, by cases, and that leases, failures and quota readings
  keep \<open>pool_sound\<close>.
\<close>

subsection \<open>A round of acquire\<close>

lemma acquire_validation_cases:
  assumes "acquire_validation c attempted st d = Some (Inr (r, d'))"
  obtains (no_value) m where "m \<in> set (pd_members d)" "is_member (kc_workspace_id c) (pm_secret_id m) m"
      "pm_role m = ValidationKey" "pm_status m = StandbyKey" "r = Inl PoolIsBlocked"
      "update_member (kc_workspace_id c) (pm_secret_id m) (\<lambda>x. x\<lparr>pm_status := InvalidKey,
         pm_last_error_code := Some ''apify_secret_not_configured''\<rparr>) d = Inr d'"
  | (leased) m sr token where "m \<in> set (pd_members d)" "is_member (kc_workspace_id c) (pm_secret_id m) m"
      "pm_role m = ValidationKey" "pm_status m = StandbyKey" "open_runs_of (kc_workspace_id c) (pm_secret_id m) d = 0"
      "sr_id sr = pm_secret_id m" "token_for_env c (sr_env_name sr) = Some token"
      "reserve c ValidationRun sr st token False d = Inr (r, d')"
proof -
  let ?P = "\<lambda>m. pm_workspace_id m = kc_workspace_id c \<and> pm_role m = ValidationKey
     \<and> lookup_row sr_id (pm_secret_id m) (pd_secrets d) \<noteq> None"
  obtain m where found: "find ?P (pd_members d) = Some m"
    using assms by (auto simp: acquire_validation_def Let_def split: option.splits if_splits)
  then have m: "m \<in> set (pd_members d)" "?P m" by (auto simp: find_Some_iff)
  then obtain sr where sr: "lookup_row sr_id (pm_secret_id m) (pd_secrets d) = Some sr" by blast
  have sr': "sr_id sr = pm_secret_id m" using lookup_row_SomeD [OF sr] by simp
  have mine: "is_member (kc_workspace_id c) (pm_secret_id m) m" using m(2) by (simp add: is_member_def)
  have usable: "pm_status m = StandbyKey" "open_runs_of (kc_workspace_id c) (pm_secret_id m) d = 0"
    using assms found sr by (auto simp: acquire_validation_def Let_def split: if_splits)
  show thesis
  proof (cases "token_for_env c (sr_env_name sr)")
    case None
    then show thesis using assms found sr usable m mine
      by (intro no_value [of m]) (auto simp: acquire_validation_def Let_def split: if_splits)
  next
    case (Some token)
    then show thesis using assms found sr sr' usable m mine
      by (intro leased [of m sr token]) (auto simp: acquire_validation_def Let_def split: if_splits)
  qed
qed

lemma acquire_active_cases:
  assumes "acquire_active c attempted st d = Inr (r, d')"
  obtains (drained) s target reason x where "ps_status st = ReadyPool" "ps_active st = Some s" "s \<notin> set attempted"
      "begin_drain_in (kc_workspace_id c) s target reason (kc_now c) d = Inr x" "d' = snd x" "r = Inr (Drained s)"
      "find_member (kc_workspace_id c) s d \<noteq> None"
  | (leased) s m sr token stale where "ps_status st = ReadyPool" "ps_active st = Some s" "s \<notin> set attempted" "s \<noteq> []"
      "find_member (kc_workspace_id c) s d = Some m" "pm_role m = AcquisitionKey" "pm_status m = ActiveKey"
      "sr_id sr = s" "token_for_env c (sr_env_name sr) = Some token"
      "stale = quota_snapshot_stale m (kc_now c) (kc_quota_max_age c)"
      "reserve c (kc_purpose c) sr st token stale d = Inr (r, d')"
proof -
  let ?w = "kc_workspace_id c"
  obtain s where ready: "ps_status st = ReadyPool" "ps_active st = Some s" "s \<notin> set attempted" "s \<noteq> []"
    using assms by (cases "ps_active st") (auto simp: acquire_active_def Let_def no_active_def split: if_splits)
  obtain m sr where m: "find_member ?w s d = Some m"
      and sr: "find (\<lambda>x. sr_id x = s \<and> sr_workspace_id x = ?w) (pd_secrets d) = Some sr"
    using assms ready by (auto simp: acquire_active_def Let_def no_active_def split: if_splits option.splits)
  have sr': "sr_id sr = s" using sr by (auto simp: find_Some_iff)
  have ok: "pm_role m = AcquisitionKey" "pm_status m = ActiveKey"
    using assms ready m sr by (auto simp: acquire_active_def Let_def no_active_def split: if_splits)
  let ?stale = "quota_snapshot_stale m (kc_now c) (kc_quota_max_age c)"
  let ?empty = "\<not> ?stale \<and> (case kq_remaining (pm_quota m) of None \<Rightarrow> False | Some x \<Rightarrow> x \<le> 0)"
  have step: "(if ?empty
      then try_then (begin_drain_in ?w s DepletedKey ''apify_credits_depleted'' (kc_now c) d) (\<lambda>x. Inr (Inr (Drained s), snd x))
      else (case token_for_env c (sr_env_name sr) of
              None \<Rightarrow> try_then (begin_drain_in ?w s InvalidKey ''apify_secret_not_configured'' (kc_now c) d)
                       (\<lambda>x. Inr (Inr (Drained s), snd x))
            | Some token \<Rightarrow> reserve c (kc_purpose c) sr st token ?stale d)) = Inr (r, d')"
    using assms ready ok m sr
    unfolding acquire_active_def Let_def by (simp add: no_active_def del: try_then_Inr cong del: if_weak_cong option.case_cong_weak)
  consider (empty) x where "begin_drain_in ?w s DepletedKey ''apify_credits_depleted'' (kc_now c) d = Inr x"
      "d' = snd x" "r = Inr (Drained s)"
    | (unset) x where "begin_drain_in ?w s InvalidKey ''apify_secret_not_configured'' (kc_now c) d = Inr x"
      "d' = snd x" "r = Inr (Drained s)"
    | (token) token where "token_for_env c (sr_env_name sr) = Some token" "reserve c (kc_purpose c) sr st token ?stale d = Inr (r, d')"
    using step by (auto split: if_splits option.splits)
  then show thesis
  proof cases
    case empty
    then show thesis using ready m drained by (metis option.distinct(1))
  next
    case unset
    then show thesis using ready m drained by (metis option.distinct(1))
  next
    case token
    then show thesis using ready m ok sr' by (intro leased [of s m sr token ?stale]) simp_all
  qed
qed

lemma acquire_body_cases:
  assumes "acquire_body c attempted d = Inr (r, d')"
  obtains (validation) st where "lookup_row ps_workspace_id (kc_workspace_id c) (pd_states d) = Some st"
      "kc_purpose c = ValidationRun" "acquire_validation c attempted st d = Some (Inr (r, d'))"
  | (active) st where "lookup_row ps_workspace_id (kc_workspace_id c) (pd_states d) = Some st"
      "kc_purpose c = AcquisitionRun \<Longrightarrow>
         acquisition_startable (kc_workspace_id c) (kc_logical_run_id c) (kc_now c) None d"
      "acquire_active c attempted st d = Inr (r, d')"
proof -
  obtain st where st: "lookup_row ps_workspace_id (kc_workspace_id c) (pd_states d) = Some st"
    using assms by (auto simp: acquire_body_def state_row_Inr)
  show thesis
  proof (cases "kc_purpose c = ValidationRun \<and> acquire_validation c attempted st d \<noteq> None")
    case True
    then show thesis using assms st
      by (intro validation [OF st]) (auto simp: acquire_body_def state_row_def split: if_splits)
  next
    case False
    then show thesis using assms st
      by (intro active [OF st]) (auto simp: acquire_body_def state_row_def split: if_splits)
  qed
qed

lemma reserve_cases:
  assumes "reserve c p sr st token stale d = Inr (r, d')"
  obtains "r = Inr (Leased (lease_of (new_run c p (''apifyrun_'' @ pd_id_source d (pd_drawn d)) sr st) (sr_env_name sr) token stale))"
    "d' = d\<lparr>pd_drawn := Suc (pd_drawn d), pd_runs := pd_runs d @ [new_run c p (''apifyrun_'' @ pd_id_source d (pd_drawn d)) sr st]\<rparr>"
    "runs_unique (pd_runs d')"
  using assms that by (auto simp: reserve_def Let_def write_runs_Inr)

lemma acquire_body_sound:
  assumes sound: "pool_sound d" and body: "acquire_body c attempted d = Inr (r, d')"
  shows "pool_sound d'"
  using body
proof (cases rule: acquire_body_cases)
  case (validation st)
  from validation(3) show ?thesis
  proof (cases rule: acquire_validation_cases)
    case (no_value m)
    have "find_member (kc_workspace_id c) (pm_secret_id m) d = Some m"
      using find_member_eqI no_value(1,2) sound by (simp add: pool_sound_def)
    then show ?thesis using no_value(4)
      by (intro sound_idle [OF sound no_value(6)]) (auto simp: keeps_ids_def role_status_def)
  next
    case (leased m sr token)
    then show ?thesis using sound by (auto elim!: reserve_cases)
  qed
next
  case (active st)
  from active(3) show ?thesis
  proof (cases rule: acquire_active_cases)
    case (drained s target reason x)
    then show ?thesis using begin_drain_sound [OF sound] by simp
  next
    case (leased s m sr token stale)
    then show ?thesis using sound by (auto elim!: reserve_cases)
  qed
qed

lemma acquire_round_sound:
  assumes sound: "pool_sound d" shows "pool_sound (snd (acquire_round c attempted d))"
proof -
  obtain r1 d1 where txn: "pool_txn (acquire_body c attempted) d = (r1, d1)" by fastforce
  have d1: "pool_sound d1" using txn_sound [OF sound, of "acquire_body c attempted"] acquire_body_sound [OF sound] txn by (metis snd_conv)
  obtain r2 d2 where fo: "complete_drain_and_failover (kc_workspace_id c) (kc_now c) d1 = (r2, d2)" by fastforce
  have "pool_sound d2" using failover_sound [OF d1] fo by (metis snd_conv)
  then show ?thesis using d1 unfolding acquire_round_def txn fo
    by (auto simp: fo split: sum.split acquired.split)
qed

lemma acquire_rounds_sound: "pool_sound d \<Longrightarrow> acquire_rounds n c attempted d = Some x \<Longrightarrow> pool_sound (snd x)"
proof (induction n c attempted d rule: acquire_rounds.induct)
  case (2 n c attempted d)
  obtain r d1 where round: "acquire_round c attempted d = (r, d1)" by fastforce
  have "pool_sound d1" using acquire_round_sound [OF 2(2)] round by (metis snd_conv)
  then show ?case using 2 round by (cases r) (auto split: acquired.splits)
qed simp

lemma acquire_sound: "pool_sound d \<Longrightarrow> pool_sound (snd (acquire_credential c attempted d))"
  unfolding acquire_credential_def
  by (cases "acquire_rounds (Suc (length (pd_members d))) c attempted d")
    (simp_all add: acquire_rounds_sound del: acquire_rounds.simps)

end
