(* ===== verification/KeyMachine.thy ===== *)
theory KeyMachine
  imports KeyLeases
begin

section \<open>The pool as a machine\<close>

text \<open>
  All methods that write the tables of the pool, as one operation each.  \<open>OutsideOp\<close> is what others do
  to the tables that the pool only reads: the attempts, the jobs and the secrets.
\<close>

datatype pool_op =
    AcquireOp acquire_call "string list"
  | RegisterOp key_lease string "string option" "string option" time
  | ReleaseOp key_lease string time
  | UnknownOp key_lease string time
  | BlockReconcileOp key_lease string time
  | CompleteReconcileOp key_lease time
  | BlockUnregisteredOp string string time
  | AbortingOp key_lease "string option" time
  | TerminalOp key_lease string string time
  | AccountingOp key_lease "usd option" bool "usd option" time
  | FailureOp failure_target key_status time
  | ReportFailureOp key_lease key_status "string \<Rightarrow> string option" "key_lease \<Rightarrow> string \<Rightarrow> string option" time
  | QuotaSnapshotOp key_lease quota_report time
  | MemberQuotaOp string string quota_report time
  | NotCreatedOp key_lease time
  | AbortedStartOp key_lease string "string option" time
  | SettledOp string time
  | ValidationKeyOp string "string option" int time
  | AppendOp string time
  | ReorderOp string int "string list" bool time
  | DrainOp string key_status string time
  | FailoverOp string time
  | RotatedOp string time
  | RemoveOp string time
  | OutsideOp "attempt list" "job list" "secret_ref list"

fun pool_step :: "pool_op \<Rightarrow> pool_db \<Rightarrow> pool_db" where
  "pool_step (AcquireOp c attempted) d = snd (acquire_credential c attempted d)"
| "pool_step (RegisterOp l i ds lg now) d = snd (register_actor_run l i ds lg now d)"
| "pool_step (ReleaseOp l code now) d = snd (release_reservation l code now d)"
| "pool_step (UnknownOp l code now) d = snd (report_start_outcome_unknown l code now d)"
| "pool_step (BlockReconcileOp l code now) d = snd (block_run_reconciliation l code now d)"
| "pool_step (CompleteReconcileOp l now) d = snd (complete_run_reconciliation l now d)"
| "pool_step (BlockUnregisteredOp w code now) d = snd (block_unregistered_reservations w code now d)"
| "pool_step (AbortingOp l i now) d = snd (mark_run_aborting l i now d)"
| "pool_step (TerminalOp l i v now) d = snd (mark_run_terminal l i v now d)"
| "pool_step (AccountingOp l a f r now) d = snd (record_run_accounting l a f r now d)"
| "pool_step (FailureOp t k now) d = snd (record_credential_failure t k now d)"
| "pool_step (ReportFailureOp l k tokens abort now) d = snd (report_credential_failure l k tokens abort now d)"
| "pool_step (QuotaSnapshotOp l q now) d = snd (record_quota_snapshot l q now d)"
| "pool_step (MemberQuotaOp w s q now) d = snd (record_member_quota w s q now d)"
| "pool_step (NotCreatedOp l now) d = snd (confirm_start_not_created l now d)"
| "pool_step (AbortedStartOp l i ds now) d = snd (confirm_zero_cost_aborted_start l i ds now d)"
| "pool_step (SettledOp w now) d = snd (reconcile_settled_unknown_start_block w now d)"
| "pool_step (ValidationKeyOp w s g now) d = snd (set_validation_key w s g now d)"
| "pool_step (AppendOp s now) d = snd (append_secret s now d)"
| "pool_step (ReorderOp w g ids e now) d = snd (reorder w g ids e now d)"
| "pool_step (DrainOp s t why now) d = snd (begin_drain s t why now d)"
| "pool_step (FailoverOp w now) d = snd (complete_drain_and_failover w now d)"
| "pool_step (RotatedOp s now) d = snd (mark_secret_rotated s now d)"
| "pool_step (RemoveOp s now) d = snd (remove_secret s now d)"
| "pool_step (OutsideOp attempts jobs secrets) d = d\<lparr>pd_attempts := attempts, pd_jobs := jobs, pd_secrets := secrets\<rparr>"

text \<open>Two calls can break the invariant.  A quota reading that restores the validation key of a pool
  without an active key makes that key the active one; and a secret without a name could be appended.\<close>

definition activates_validation_key :: "string \<Rightarrow> string \<Rightarrow> quota_report \<Rightarrow> pool_db \<Rightarrow> bool" where
  "activates_validation_key w s q d \<longleftrightarrow>
     (case (find_member w s d, lookup_row ps_workspace_id w (pd_states d)) of
        (Some m, Some st) \<Rightarrow> pm_role m = ValidationKey \<and> pm_status m \<in> {DepletedKey, InvalidKey} \<and> 0 < qr_remaining q
          \<and> ps_status st \<in> {EmptyPool, ExhaustedPool} \<and> no_active st
      | _ \<Rightarrow> False)"

fun breaking_call :: "pool_db \<Rightarrow> pool_op \<Rightarrow> bool" where
  "breaking_call d (MemberQuotaOp w s q now) = activates_validation_key w s q d"
| "breaking_call d (AppendOp s now) = (s = [] \<and> lookup_row sr_id s (pd_secrets d) \<noteq> None)"
| "breaking_call d _ = False"

subsection \<open>Quota readings\<close>

lemma find_member_update:
  assumes "update_member w s f d = Inr d'" "keeps_ids f"
  shows "find_member w s d' = map_option f (find_member w s d)"
proof -
  have "pd_members d' = update_where (is_member w s) f (pd_members d)"
    using assms(1) by (auto simp: update_member_Inr)
  then show ?thesis by (simp add: find_member_def find_update_member [OF assms(2)])
qed

lemma snapshotD:
  assumes "write_quota_snapshot w s q now d = Inr d'"
  obtains f where "update_member w s f d = Inr d'" "keeps_ids f" "\<And>m. role_status (f m) = role_status m"
  using assms that by (auto simp: write_quota_snapshot_def keeps_ids_def role_status_def split: if_splits)

lemma snapshot_sound:
  assumes "pool_sound d" "write_quota_snapshot w s q now d = Inr d'"
  shows "pool_sound d' \<and> keys_of w d' = keys_of w d \<and> pd_states d' = pd_states d"
  using assms(2)
proof (rule snapshotD)
  fix f assume f: "update_member w s f d = Inr d'" "keeps_ids f" "\<And>m. role_status (f m) = role_status m"
  have "keys_of w d' = keys_of w d"
    unfolding keys_update_member(1) [OF f(1,2)] f(3) by (simp add: fun_upd_idem keys_of_def)
  then show ?thesis using sound_same_use [OF assms(1) f] update_memberD [OF f(1)] by simp
qed

lemma quota_snapshot_sound: "pool_sound d \<Longrightarrow> pool_sound (snd (record_quota_snapshot l q now d))"
  unfolding record_quota_snapshot_def by (auto intro!: txn_sound dest: snapshot_sound)

lemma restore_sound:
  assumes sound: "pool_sound d" and st: "lookup_row ps_workspace_id w (pd_states d) = Some st"
    and m: "keys_of w d s = Some (r, k)" "k \<in> {DepletedKey, InvalidKey}"
    and role: "r = AcquisitionKey \<or> \<not> (ps_status st \<in> {EmptyPool, ExhaustedPool} \<and> no_active st)"
    and restore: "restore_member w s st now d = Inr d'"
  shows "pool_sound d'"
proof -
  let ?a = "ps_status st \<in> {EmptyPool, ExhaustedPool} \<and> no_active st"
  let ?f = "\<lambda>m. m\<lparr>pm_status := (if ?a then ActiveKey else StandbyKey), pm_blocked_until := None, pm_last_error_code := None\<rparr>"
  obtain d1 d2 where "compact_positions w (if ?a then s # others w s d else others w s d @ [s]) d = Inr d1"
      and d2: "update_member w s ?f d1 = Inr d2" "d' = (if ?a then bump w now (activate_key s) d2 else d2)"
    using restore by (auto simp: restore_member_def Let_def simp del: update_member_Inr)
  then have rep: "repositions d d1" by (blast dest: compact_repositions)
  have sound1: "pool_sound d1" using sound_repositions [OF rep sound] .
  have k1: "keys_of w d1 = keys_of w d" using keys_repositions [OF rep] .
  have "keys_of w d1 s = Some (r, k)" using k1 m(1) by simp
  then obtain n where n: "find_member w s d1 = Some n" "role_status n = (r, k)"
    by (auto simp: keys_of_def)
  have ids: "keeps_ids ?f" by (simp add: keeps_ids_def)
  have K: "keys_of w d2 = (keys_of w d)(s := Some (r, if ?a then ActiveKey else StandbyKey))"
    using n by (simp add: keys_update_member(1) [OF d2(1) ids] k1 role_status_def)
  have s: "s \<noteq> []" using sound_state [OF sound st] m(1) by (auto simp: key_in_use_def)
  show ?thesis
  proof (cases ?a)
    case True
    then have "no_active st" "r = AcquisitionKey" using role by blast+
    then show ?thesis using sound_activate [OF sound st _ s, of d2] K True d2(2) update_memberD [OF d2(1)] repositionsD [OF rep]
        keys_update_member(2) [OF d2(1) ids] keys_repositions [OF rep] by simp
  next
    case False
    then have "\<not> used_as (Some (role_status (?f m)))" for m by (auto simp: role_status_def)
    then have "pool_sound d2"
      by (intro sound_idle [OF sound1 d2(1) ids]) (use n m(2) in auto)
    then show ?thesis using d2(2) False by (simp only: if_False)
  qed
qed

lemma member_quota_sound:
  assumes sound: "pool_sound d" and calm: "\<not> activates_validation_key w s q d"
  shows "pool_sound (snd (record_member_quota w s q now d))"
proof (cases "report_ok q")
  case True
  have "pool_sound (snd (pool_txn (member_quota_body w s q now) d))"
  proof (rule txn_sound [OF sound])
    fix r d'
    assume "member_quota_body w s q now d = Inr (r, d')"
    then obtain d1 m st d2 where d1: "write_quota_snapshot w s q now d = Inr d1" and m: "find_member w s d1 = Some m"
        and st: "lookup_row ps_workspace_id w (pd_states d1) = Some st"
        and d2: "(if qr_remaining q \<le> 0 \<and> pm_status m \<notin> {ActiveKey, DrainingKey} then deplete_member w s q d1
           else if 0 < qr_remaining q \<and> pm_status m \<in> {DepletedKey, InvalidKey} then restore_member w s st now d1
           else Inr d1) = Inr d2" "d' = d2"
      by (auto simp: member_quota_body_def state_row_Inr committed_Inr split: option.splits)
    have sound1: "pool_sound d1" and k1: "keys_of w d1 = keys_of w d" and states: "pd_states d1 = pd_states d"
      using snapshot_sound [OF sound d1] by simp_all
    obtain n where n: "find_member w s d = Some n" "role_status n = (pm_role m, pm_status m)"
      using keys_at [OF m] k1 by (auto simp: keys_of_def role_status_def)
    show "pool_sound d'"
    proof (cases "qr_remaining q \<le> 0 \<and> pm_status m \<notin> {ActiveKey, DrainingKey}")
      case True
      then have "update_member w s (\<lambda>m. m\<lparr>pm_status := DepletedKey, pm_blocked_until := qr_cycle_end_at q,
          pm_last_error_code := Some ''apify_credits_depleted''\<rparr>) d1 = Inr d'"
        using d2 by (simp add: deplete_member_def split: if_splits)
      then show ?thesis
        by (rule sound_idle [OF sound1]) (use True m in \<open>auto simp: keeps_ids_def role_status_def\<close>)
    next
      case False
      show ?thesis
      proof (cases "0 < qr_remaining q \<and> pm_status m \<in> {DepletedKey, InvalidKey}")
        case True
        have "pm_role m = AcquisitionKey \<or> \<not> (ps_status st \<in> {EmptyPool, ExhaustedPool} \<and> no_active st)"
          using calm n st True states by (cases "pm_role m") (auto simp: activates_validation_key_def role_status_def)
        moreover have "keys_of w d1 s = Some (pm_role m, pm_status m)" using keys_at [OF m] by (simp add: role_status_def)
        ultimately show ?thesis using restore_sound [OF sound1 st] d2 True False by (auto split: if_splits)
      next
        case False2: False
        then show ?thesis using d2 False sound1 by (simp split: if_splits)
      qed
    qed
  qed
  then show ?thesis by (simp add: record_member_quota_def True)
qed (simp add: record_member_quota_def sound)

subsection \<open>Runs\<close>

text \<open>Methods under a lease read the run and rewrite it; a part of them also writes the state.\<close>

lemma update_run_sound: "update_run i f d = Inr d' \<Longrightarrow> pool_sound d' \<longleftrightarrow> pool_sound d"
  by (auto simp: update_run_Inr)

lemma run_methods_sound:
  assumes "pool_sound d"
  shows "pool_sound (snd (register_actor_run l i ds lg now d))" "pool_sound (snd (release_reservation l code now d))"
    "pool_sound (snd (mark_run_aborting l rid now d))" "pool_sound (snd (mark_run_terminal l i v now d))"
    "pool_sound (snd (record_run_accounting l a fin res now d))"
proof -
  show "pool_sound (snd (register_actor_run l i ds lg now d))"
    unfolding register_actor_run_def Let_def using assms
    by (auto intro!: txn_sound simp: register_body_def update_run_sound split: if_splits)
  show "pool_sound (snd (release_reservation l code now d))"
    unfolding release_reservation_def using assms
    by (auto intro!: txn_sound simp: update_run_sound split: if_splits)
  show "pool_sound (snd (mark_run_aborting l rid now d))"
    unfolding mark_run_aborting_def using assms
    by (auto intro!: txn_sound simp: update_run_sound split: if_splits)
  show "pool_sound (snd (mark_run_terminal l i v now d))"
    unfolding mark_run_terminal_def using assms
    by (auto intro!: txn_sound simp: update_run_sound split: if_splits option.splits)
  show "pool_sound (snd (record_run_accounting l a fin res now d))"
    unfolding record_run_accounting_def using assms
    by (auto intro!: txn_sound simp: update_run_sound split: if_splits)
qed

lemma block_unless_validation_sound: "pool_sound d \<Longrightarrow> pool_sound (block_unless_validation r code now d)"
  by (simp add: block_unless_validation_def sound_block)

lemma release_block_sound:
  assumes "pool_sound d" "release_unknown_start_block w now d = Inr d'"
  shows "pool_sound d'"
proof -
  obtain st where st: "lookup_row ps_workspace_id w (pd_states d) = Some st"
    using assms(2) by (auto simp: release_unknown_start_block_def state_row_Inr)
  have "pool_sound (bump w now (\<lambda>x. x\<lparr>ps_status := (if ps_active x = None then ExhaustedPool else ReadyPool),
      ps_blocked_reason := None\<rparr>) d)"
    unfolding bump_eq
  proof (rule sound_update_state [OF assms(1)])
    fix x assume "key_in_use (keys_of w d) x"
    then show "key_in_use (keys_of w d) (x\<lparr>ps_status := (if ps_active x = None then ExhaustedPool else ReadyPool),
        ps_blocked_reason := None, ps_generation := ps_generation x + 1, ps_updated_at := now\<rparr>)"
      by (cases "ps_active x") (simp_all add: key_in_use_def)
  qed simp
  then show ?thesis using assms st by (auto simp: release_unknown_start_block_def state_row_def split: if_splits)
qed

lemma block_methods_sound:
  assumes "pool_sound d"
  shows "pool_sound (snd (report_start_outcome_unknown l code now d))"
    "pool_sound (snd (block_run_reconciliation l code now d))"
    "pool_sound (snd (complete_run_reconciliation l now d))"
    "pool_sound (snd (block_unregistered_reservations w code now d))"
    "pool_sound (snd (confirm_unknown_start l remote ds now d))"
    "pool_sound (snd (reconcile_settled_unknown_start_block w now d))"
proof -
  show "pool_sound (snd (report_start_outcome_unknown l code now d))"
    unfolding report_start_outcome_unknown_def Let_def using assms
    by (auto intro!: txn_sound block_unless_validation_sound simp: update_run_sound split: if_splits)
  show "pool_sound (snd (block_run_reconciliation l code now d))"
    unfolding block_run_reconciliation_def Let_def using assms
    by (auto intro!: txn_sound block_unless_validation_sound simp: update_run_sound split: if_splits)
  show "pool_sound (snd (complete_run_reconciliation l now d))"
    unfolding complete_run_reconciliation_def Let_def using assms
    by (auto intro!: txn_sound sound_unblock simp: update_run_sound split: if_splits)
  show "pool_sound (snd (block_unregistered_reservations w code now d))"
    unfolding block_unregistered_reservations_def Let_def using assms
    by (auto intro!: txn_sound sound_block simp: write_runs_Inr split: if_splits)
  show "pool_sound (snd (confirm_unknown_start l remote ds now d))"
    unfolding confirm_unknown_start_def
    by (rule txn_sound [OF assms]) (use assms in \<open>auto simp: update_run_sound split: if_splits dest: release_block_sound [rotated]\<close>)
  show "pool_sound (snd (reconcile_settled_unknown_start_block w now d))"
    unfolding reconcile_settled_unknown_start_block_def
    by (rule txn_sound [OF assms]) (use assms in \<open>auto split: if_splits dest: release_block_sound [rotated]\<close>)
qed

lemma reject_unsent_sound: "reject_unsent t reason now d = Inr d' \<Longrightarrow> pool_sound d' \<longleftrightarrow> pool_sound d"
  by (auto simp: reject_unsent_def update_run_sound split: failure_target.splits if_splits)

lemma reject_unsent_pool: "reject_unsent t reason now d = Inr d' \<Longrightarrow> pd_members d' = pd_members d \<and> pd_states d' = pd_states d"
  by (auto simp: reject_unsent_def update_run_Inr split: failure_target.splits if_splits)

lemma failure_cases:
  assumes "record_credential_failure t kind now d = (r, d')"
  obtains (refused) e where "r = Inl e" "d' = d"
  | (validation) m d1 c where "owner_of (failed_key t) d = Some m" "pm_role m = ValidationKey" "kind \<in> {DepletedKey, InvalidKey}"
      "reject_unsent t c now d = Inr d1" "r = Inr (pm_workspace_id m, False)"
      "update_member (pm_workspace_id m) (failed_key t) (\<lambda>x. x\<lparr>pm_status := kind, pm_last_error_code := Some c\<rparr>) d1 = Inr d'"
  | (drained) m d1 c x where "owner_of (failed_key t) d = Some m" "pm_role m \<noteq> ValidationKey" "kind \<in> {DepletedKey, InvalidKey}"
      "reject_unsent t c now d = Inr d1" "begin_drain_in (pm_workspace_id m) (failed_key t) kind c now d1 = Inr x"
      "r = Inr (pm_workspace_id m, fst x)" "d' = snd x"
proof (cases "kind \<in> {DepletedKey, InvalidKey}")
  case False
  then show thesis using assms refused by (auto simp: record_credential_failure_def)
next
  case kind: True
  define c where "c = (if kind = DepletedKey then ''apify_credits_depleted'' else ''apify_token_invalid'')"
  define body :: "pool_db \<Rightarrow> ((string \<times> bool) attempted \<times> pool_db) attempted" where "body = (\<lambda>d. case owner_of (failed_key t) d of
      None \<Rightarrow> Inl PoolLookupError
    | Some m \<Rightarrow> try_then (reject_unsent t c now d) (\<lambda>d1.
        if pm_role m = ValidationKey
        then try_then (update_member (pm_workspace_id m) (failed_key t) (\<lambda>x. x\<lparr>pm_status := kind, pm_last_error_code := Some c\<rparr>) d1)
               (\<lambda>d2. Inr (Inr (pm_workspace_id m, False), d2))
        else try_then (begin_drain_in (pm_workspace_id m) (failed_key t) kind c now d1)
               (\<lambda>x. Inr (Inr (pm_workspace_id m, fst x), snd x))))"
  have txn: "pool_txn body d = (r, d')"
    using assms kind unfolding record_credential_failure_def body_def c_def Let_def by (simp split: if_splits)
  then show thesis
  proof (cases rule: pool_txn_cases [of body d])
    case (aborted e)
    then show thesis using refused txn by simp
  next
    case (committed r1 d1)
    then have "body d = Inr (r, d')" using txn by simp
    then obtain m where m: "owner_of (failed_key t) d = Some m" by (auto simp: body_def split: option.splits)
    show thesis
    proof (cases "pm_role m = ValidationKey")
      case True
      then obtain d1 where "reject_unsent t c now d = Inr d1" "r = Inr (pm_workspace_id m, False)"
          "update_member (pm_workspace_id m) (failed_key t) (\<lambda>x. x\<lparr>pm_status := kind, pm_last_error_code := Some c\<rparr>) d1 = Inr d'"
        using \<open>body d = Inr (r, d')\<close> m by (auto simp: body_def)
      then show thesis using validation [OF m True kind] by blast
    next
      case False
      then obtain d1 x where "reject_unsent t c now d = Inr d1" "begin_drain_in (pm_workspace_id m) (failed_key t) kind c now d1 = Inr x"
          "r = Inr (pm_workspace_id m, fst x)" "d' = snd x"
        using \<open>body d = Inr (r, d')\<close> m by (auto simp: body_def)
      then show thesis using drained [OF m False kind] by blast
    qed
  qed
qed

lemma sound_no_state:
  assumes "pool_sound d" "update_member w s f d = Inr d1" "keeps_ids f" "w \<notin> ps_workspace_id ` set (pd_states d)"
  shows "pool_sound d1"
  by (rule sound_members [where w = w, OF assms(1)])
    (use assms(4) in \<open>auto simp: update_memberD [OF assms(2)] keys_update_member [OF assms(2,3)]\<close>)

lemma failure_sound:
  assumes sound: "pool_sound d" shows "pool_sound (snd (record_credential_failure t kind now d))"
proof -
  obtain r d' where result: "record_credential_failure t kind now d = (r, d')" by fastforce
  then have "pool_sound d'"
  proof (cases rule: failure_cases)
    case (validation m d1 c)
    have d1: "pool_sound d1" using sound reject_unsent_sound [OF validation(4)] by simp
    have m: "m \<in> set (pd_members d1)" "is_member (pm_workspace_id m) (failed_key t) m"
      using owner_row [OF validation(1)] reject_unsent_pool [OF validation(4)] by (simp_all add: is_member_def)
    have at: "find_member (pm_workspace_id m) (failed_key t) d1 = Some m"
      using find_member_eqI [OF _ m] d1 by (simp add: pool_sound_def)
    let ?f = "\<lambda>x. x\<lparr>pm_status := kind, pm_last_error_code := Some c\<rparr>"
    have ids: "keeps_ids ?f" by (simp add: keeps_ids_def)
    show ?thesis
    proof (cases "lookup_row ps_workspace_id (pm_workspace_id m) (pd_states d1)")
      case None
      then show ?thesis by (intro sound_no_state [OF d1 validation(6) ids]) (simp add: lookup_row_None_iff)
    next
      case (Some st)
      have "\<not> used_as (Some (role_status m))"
        using unused_validation [OF d1 Some] keys_at [OF at] validation(2) by (simp add: role_status_def)
      then show ?thesis
        by (intro sound_idle [OF d1 validation(6) ids]) (use at validation(3) in \<open>auto simp: role_status_def\<close>)
    qed
  next
    case (drained m d1 c x)
    then show ?thesis using begin_drain_sound [of d1] reject_unsent_sound [OF drained(4)] sound by simp
  qed (simp add: sound)
  then show ?thesis by (simp add: result)
qed

text \<open>Any relation that the methods of the abort loop keep is kept by the loop.\<close>

lemma abort_runs_keeps:
  assumes "\<And>l i now d. P d \<Longrightarrow> P (snd (mark_run_aborting l i now d))"
    and "\<And>l i v now d. P d \<Longrightarrow> P (snd (mark_run_terminal l i v now d))"
  shows "P d \<Longrightarrow> P (snd (abort_runs w g tokens abort now rs d))"
proof (induction w g tokens abort now rs d rule: abort_runs.induct)
  case (2 w g tokens abort now r rs d)
  let ?remote = "or_empty (ar_remote_run_id r)"
  show ?case
  proof (cases "?remote = [] \<or> (\<exists>e. lease_for_run (ar_id r) tokens d = Inl e)")
    case True
    then show ?thesis using 2(2) by (auto simp: Let_def)
  next
    case False
    then obtain l where l: "lease_for_run (ar_id r) tokens d = Inr l" by (cases "lease_for_run (ar_id r) tokens d") auto
    obtain a d1 where ab: "mark_run_aborting l (Some ?remote) now d = (a, d1)" by fastforce
    have d1: "P d1" using assms(1) [OF 2(2)] ab by (metis snd_conv)
    show ?thesis
    proof (cases a)
      case (Inr x)
      show ?thesis
      proof (cases "abort l ?remote")
        case (Some v)
        obtain b d2 where te: "mark_run_terminal l ?remote v now d1 = (b, d2)" by fastforce
        have "P d2" using assms(2) [OF d1] te by (metis snd_conv)
        then show ?thesis using 2(1) False l ab Inr Some te d1
          by (cases b) (simp_all add: Let_def)
      qed (use False l ab Inr d1 in \<open>simp add: Let_def\<close>)
    qed (use False l ab d1 in \<open>simp add: Let_def\<close>)
  qed
qed simp

lemma report_failure_keeps:
  assumes "\<And>l i now d. P d \<Longrightarrow> P (snd (mark_run_aborting l i now d))"
    and "\<And>l i v now d. P d \<Longrightarrow> P (snd (mark_run_terminal l i v now d))"
    and "\<And>t k now d. P d \<Longrightarrow> P (snd (record_credential_failure t k now d))"
    and "\<And>w now d. P d \<Longrightarrow> P (snd (complete_drain_and_failover w now d))"
    and "P d"
  shows "P (snd (report_credential_failure l kind tokens abort now d))"
proof -
  obtain r d1 where f: "record_credential_failure (LeaseFailed l) kind now d = (r, d1)" by fastforce
  have d1: "P d1" using assms(3) [OF assms(5)] f by (metis snd_conv)
  show ?thesis
  proof (cases r)
    case (Inr x)
    obtain w b where x: "x = (w, b)" by fastforce
    show ?thesis
    proof (cases "b \<and> (\<exists>st. state_row w d1 = Inr st)")
      case True
      then obtain st where st: "state_row w d1 = Inr st" "b" by blast
      let ?rs = "acquisition_open_runs w (drain_generation st) d1"
      obtain a d2 where ab: "abort_runs w (drain_generation st) tokens abort now ?rs d1 = (a, d2)" by fastforce
      have d2: "P d2" using abort_runs_keeps [of P, OF assms(1,2) d1] ab by (metis snd_conv)
      obtain v d3 where fo: "complete_drain_and_failover w now d2 = (v, d3)" by fastforce
      have "P d3" using assms(4) [OF d2] fo by (metis snd_conv)
      then show ?thesis using d2
        by (auto simp: report_credential_failure_def f Inr x st ab fo Let_def split: sum.split)
    next
      case False
      then show ?thesis using d1
        by (cases "state_row w d1") (auto simp: report_credential_failure_def f Inr x)
    qed
  qed (simp add: report_credential_failure_def f d1)
qed

lemma append_without_secret:
  assumes "lookup_row sr_id s (pd_secrets d) = None"
  shows "snd (append_secret s now d) = d"
  by (simp add: append_secret_def pool_txn_def append_body_def assms)

lemma pool_step_sound: "pool_sound d \<Longrightarrow> \<not> breaking_call d op \<Longrightarrow> pool_sound (pool_step op d)"
proof (cases op)
  case (ReportFailureOp l k tokens abort now)
  assume "pool_sound d"
  show ?thesis unfolding ReportFailureOp pool_step.simps
    by (rule report_failure_keeps [where P = pool_sound])
      (simp_all add: run_methods_sound failure_sound failover_sound \<open>pool_sound d\<close>)
next
  case (AbortedStartOp l i ds now)
  assume "pool_sound d"
  then show ?thesis using block_methods_sound(5)
    by (simp add: AbortedStartOp confirm_zero_cost_aborted_start_def Let_def)
next
  case (AppendOp s now)
  assume "pool_sound d" "\<not> breaking_call d op"
  then show ?thesis using append_sound [of d s now] append_without_secret [of s d now] by (cases "s = []") (auto simp: AppendOp)
qed (simp_all add: acquire_sound run_methods_sound block_methods_sound failure_sound quota_snapshot_sound
    member_quota_sound confirm_start_not_created_def validation_sound reorder_sound
    begin_drain_method_sound failover_sound rotated_sound remove_sound)

lemma pool_steps_sound:
  assumes "pool_sound d"
  shows "pool_sound (fold pool_step ops d) \<or> (\<exists>ops1 op ops2. ops = ops1 @ op # ops2
    \<and> pool_sound (fold pool_step ops1 d) \<and> \<not> pool_sound (pool_step op (fold pool_step ops1 d))
    \<and> breaking_call (fold pool_step ops1 d) op)"
  using fold_keeps_or_breaks [where P = pool_sound and step = pool_step, OF assms] pool_step_sound by blast

end
