(* ===== verification/KeyFences.thy ===== *)
theory KeyFences
  imports KeyMachine
begin

section \<open>Generations and runs only move forward\<close>

text \<open>
  The generation of a pool never decreases and a new active key comes with a new generation; a run
  keeps its key, its generation and, once it has ended or is registered, its status and its remote
  identifier.  The interface \<open>pool_relation\<close> is what a relation between states of the pool must satisfy
  at the few statements that all methods are made of; that all methods then satisfy it is proved once.
\<close>

subsection \<open>The relation\<close>

definition state_moves :: "pool_state \<Rightarrow> pool_state \<Rightarrow> bool" where
  "state_moves st st' \<longleftrightarrow> ps_workspace_id st' = ps_workspace_id st
     \<and> (ps_generation st < ps_generation st' \<or> ps_generation st = ps_generation st' \<and> ps_active st' = ps_active st)"

definition states_move :: "pool_db \<Rightarrow> pool_db \<Rightarrow> bool" where
  "states_move d d' \<longleftrightarrow> list_all2 state_moves (pd_states d) (pd_states d')"

definition run_moves_to :: "actor_run \<Rightarrow> actor_run \<Rightarrow> bool" where
  "run_moves_to r r' \<longleftrightarrow> ar_id r' = ar_id r \<and> ar_workspace_id r' = ar_workspace_id r \<and> ar_secret_id r' = ar_secret_id r
     \<and> ar_secret_version r' = ar_secret_version r \<and> ar_pool_generation r' = ar_pool_generation r
     \<and> ar_purpose r' = ar_purpose r
     \<and> (terminal_run (ar_status r) \<longrightarrow> ar_status r' = ar_status r \<and> ar_remote_run_id r' = ar_remote_run_id r
          \<and> ar_terminal_at r' = ar_terminal_at r)
     \<and> (truthy (or_empty (ar_remote_run_id r)) \<longrightarrow> ar_remote_run_id r' = ar_remote_run_id r)"

definition runs_move :: "pool_db \<Rightarrow> pool_db \<Rightarrow> bool" where
  "runs_move d d' \<longleftrightarrow> (runs_unique (pd_runs d) \<longrightarrow>
     runs_unique (pd_runs d') \<and> (\<forall>r \<in> set (pd_runs d). \<exists>r' \<in> set (pd_runs d'). run_moves_to r r'))"

definition pool_moves :: "pool_db \<Rightarrow> pool_db \<Rightarrow> bool" where
  "pool_moves d d' \<longleftrightarrow> states_move d d' \<and> runs_move d d'"

lemma state_moves_refl [simp]: "state_moves st st"
  by (simp add: state_moves_def)

lemma run_moves_to_refl [simp]: "run_moves_to r r"
  by (simp add: run_moves_to_def)

lemma moves_in: "r \<in> A \<Longrightarrow> \<exists>x \<in> A. run_moves_to r x"
  using run_moves_to_refl by blast

lemma states_move_refl [simp]: "states_move d d"
  by (simp add: states_move_def list_all2_refl)

lemma states_move_trans: "states_move d d1 \<Longrightarrow> states_move d1 d2 \<Longrightarrow> states_move d d2"
  unfolding states_move_def by (rule list_all2_trans) (auto simp: state_moves_def)

lemma runs_move_refl [simp]: "runs_move d d"
  unfolding runs_move_def using run_moves_to_refl by blast

lemma run_moves_to_trans: "run_moves_to r r1 \<Longrightarrow> run_moves_to r1 r2 \<Longrightarrow> run_moves_to r r2"
  by (auto simp: run_moves_to_def)

lemma runs_move_trans: "runs_move d d1 \<Longrightarrow> runs_move d1 d2 \<Longrightarrow> runs_move d d2"
  unfolding runs_move_def using run_moves_to_trans by meson

lemma pool_moves_refl [simp]: "pool_moves d d"
  by (simp add: pool_moves_def)

lemma pool_moves_trans: "pool_moves d d1 \<Longrightarrow> pool_moves d1 d2 \<Longrightarrow> pool_moves d d2"
  using states_move_trans runs_move_trans by (auto simp: pool_moves_def)

definition run_keeps :: "actor_run \<Rightarrow> actor_run \<Rightarrow> bool" where
  "run_keeps r r' \<longleftrightarrow> run_moves_to r r' \<and> ar_logical_run_id r' = ar_logical_run_id r"

lemma states_move_update:
  assumes "\<And>st. ps_workspace_id st = w \<Longrightarrow> state_moves st (F st)"
  shows "states_move d (update_state w F d)"
  using assms by (auto simp: states_move_def update_where_def list_all2_map2 list_all2_same)

lemma states_move_same: "pd_states d' = pd_states d \<Longrightarrow> states_move d d'"
  by (simp add: states_move_def list_all2_refl)

lemma replace_active_effect:
  assumes "replace_active w old new enabled now d = Inr d'"
  shows "pool_only d d' \<and> pd_states d' = update_where (\<lambda>st. ps_workspace_id st = w)
    (\<lambda>st. st\<lparr>ps_active := Some new, ps_updated_at := now\<rparr>) (pd_states d)"
proof -
  obtain d1 d2 where "update_member w old (\<lambda>m. m\<lparr>pm_status := StandbyKey\<rparr>) d = Inr d1"
      "update_member w new (\<lambda>m. m\<lparr>pm_status := ActiveKey\<rparr>) d1 = Inr d2"
      "d' = update_state w (\<lambda>st. st\<lparr>ps_active := Some new, ps_updated_at := now\<rparr>) d2"
    using assms by (auto simp: replace_active_def split: if_splits option.splits)
  then show ?thesis using pool_only_trans update_memberD pool_only_basic by (metis update_state_simps(6))
qed

fun inside_op :: "pool_op \<Rightarrow> bool" where
  "inside_op (RegisterOp l i ds lg now) = False"
| "inside_op (OutsideOp as js ss) = False"
| "inside_op _ = True"

subsection \<open>The interface\<close>

locale pool_relation =
  fixes R :: "pool_db \<Rightarrow> pool_db \<Rightarrow> bool"
  assumes R_refl [simp]: "R d d"
    and R_trans: "R d d1 \<Longrightarrow> R d1 d2 \<Longrightarrow> R d d2"
    and pool_part: "pool_only d d' \<Longrightarrow> states_move d d' \<Longrightarrow> R d d'"
    and run_part: "run_for_lease l d = Inr r \<Longrightarrow> update_run (ar_id r) f d = Inr d' \<Longrightarrow> run_keeps r (f r) \<Longrightarrow> R d d'"
    and unknown_part: "write_runs (update_where (unregistered w d) (mark_unknown code now) (pd_runs d)) d = Inr d' \<Longrightarrow> R d d'"
    and reserve_part: "reserve c p sr st token stale d = Inr (a, d') \<Longrightarrow>
      (p = AcquisitionRun \<Longrightarrow> acquisition_startable (kc_workspace_id c) (kc_logical_run_id c) (kc_now c) None d
         \<and> lookup_row ps_workspace_id (kc_workspace_id c) (pd_states d) = Some st \<and> ps_active st = Some (sr_id sr)) \<Longrightarrow> R d d'"
begin

lemma txn_moves:
  "(\<And>r d'. body d = Inr (r, d') \<Longrightarrow> R d d') \<Longrightarrow> R d (snd (pool_txn body d))"
  by (cases rule: pool_txn_cases [of body d]) simp_all

lemma update_member_moves: "update_member w s f d = Inr d' \<Longrightarrow> R d d'"
  by (rule pool_part) (simp_all add: update_memberD states_move_same)

lemma repositions_moves: "repositions d d' \<Longrightarrow> R d d'"
  by (rule pool_part) (simp_all add: repositions_pool_only repositionsD states_move_same)

lemma update_state_moves:
  "(\<And>st. ps_workspace_id st = w \<Longrightarrow> state_moves st (F st)) \<Longrightarrow> R d (update_state w F d)"
  by (rule pool_part) (simp_all add: states_move_update)

lemma bump_moves: "(\<And>st. ps_workspace_id (f st) = ps_workspace_id st) \<Longrightarrow> R d (bump w now f d)"
  unfolding bump_eq by (rule update_state_moves) (simp add: state_moves_def)

lemma block_pool_moves: "R d (block_pool w code now d)"
  unfolding block_pool_def by (rule update_state_moves) (simp add: state_moves_def)

lemma unblock_moves: "R d (unblock w now d)"
  unfolding unblock_def by (rule bump_moves) simp

lemma release_block_moves: "release_unknown_start_block w now d = Inr d' \<Longrightarrow> R d d'"
  by (auto simp: release_unknown_start_block_def intro!: bump_moves split: if_splits)

subsection \<open>Methods on members and states\<close>

lemma begin_drain_moves: "begin_drain_in w s t reason now d = Inr x \<Longrightarrow> R d (snd x)"
proof (erule begin_drain_cases)
  fix st c d1
  assume x: "snd x = update_state w (start_drain s t c now) d1"
    and up: "update_member w s (\<lambda>x. x\<lparr>pm_status := DrainingKey, pm_last_error_code := Some c\<rparr>) d = Inr d1"
  show "R d (snd x)" unfolding x
    by (rule R_trans [OF update_member_moves [OF up] update_state_moves])
      (simp add: state_moves_def start_drain_def)
qed (auto dest: update_member_moves)

lemma failover_body_moves: "failover_body w now d = Inr (r, d') \<Longrightarrow> R d d'"
proof (erule failover_cases)
  fix st d1 d2 d3
  let ?c = "first_standby w (or_empty (ps_draining st)) d1"
  assume up: "update_member w (or_empty (ps_draining st))
      (retire (case ps_drain_target st of None \<Rightarrow> StandbyKey | Some t \<Rightarrow> t)) d = Inr d1" and rep: "repositions d1 d2"
    and d3: "(case ?c of None \<Rightarrow> Inr d2 | Some c \<Rightarrow> update_member w c make_active d2) = Inr d3"
    and d': "d' = bump w now (switch_to ?c) d3"
  have "R d2 d3" using d3 by (cases ?c) (auto dest: update_member_moves)
  moreover have "R d3 d'" unfolding d' by (rule bump_moves) (simp add: switch_to_def)
  ultimately show "R d d'"
    using update_member_moves [OF up] repositions_moves [OF rep] by (meson R_trans)
qed simp

lemma validation_body_moves: "validation_body w sel g now d = Inr (r, d') \<Longrightarrow> R d d'"
proof (erule validation_cases)
  fix current d1 d2
  assume d1: "demote_validation w current d = Inr d1" and d2: "promote_validation w sel d1 = Inr d2"
    and d': "d' = bump w now id d2"
  have "R d d1" using d1 by (cases current) (auto simp: demote_validation_def dest: update_member_moves)
  moreover have "R d1 d2" using d2 by (cases sel) (auto simp: promote_validation_def dest: update_member_moves)
  moreover have "R d2 d'" unfolding d' by (rule bump_moves) simp
  ultimately show "R d d'" by (meson R_trans)
qed simp

lemma append_body_moves: "append_body s now d = Inr (r, d') \<Longrightarrow> R d d'"
proof (erule append_cases)
  fix w st m d2
  let ?d1 = "d\<lparr>pd_members := pd_members d @ [m]\<rparr>"
  assume rep: "repositions ?d1 d2" and d': "no_active st \<and> pm_status m = ActiveKey \<and> d' = bump w now (activate_key s) d2
      \<or> pm_status m = StandbyKey \<and> d' = bump w now id d2"
  have "R d ?d1" by (rule pool_part) (simp_all add: states_move_same)
  moreover have "R d2 d'" using d' by (auto intro!: bump_moves simp: activate_key_def)
  ultimately show "R d d'" using repositions_moves [OF rep] by (meson R_trans)
qed simp

lemma reorder_body_moves: "reorder_body w g ids enabled now d = Inr (r, d') \<Longrightarrow> R d d'"
proof (erule reorder_cases)
  fix st d1 d2
  assume d1: "(if truthy (or_empty (ps_active st)) \<and> ids \<noteq> [] \<and> hd ids \<noteq> or_empty (ps_active st)
      then replace_active w (or_empty (ps_active st)) (hd ids) enabled now d else Inr d) = Inr d1"
    and rep: "compact_positions w ids d1 = Inr d2" and d': "d' = bump w now id d2"
  note rep = compact_repositions [OF rep]
  have "pool_only d d1 \<and> (pd_states d1 = pd_states d \<or> pd_states d1 = update_where (\<lambda>st. ps_workspace_id st = w)
      (\<lambda>st. st\<lparr>ps_active := Some (hd ids), ps_updated_at := now\<rparr>) (pd_states d))"
    using d1 replace_active_effect by (auto split: if_splits)
  then have "pool_only d d'" "pd_states d1 = pd_states d \<or> pd_states d1 = update_where (\<lambda>st. ps_workspace_id st = w)
      (\<lambda>st. st\<lparr>ps_active := Some (hd ids), ps_updated_at := now\<rparr>) (pd_states d)"
    using repositions_pool_only [OF rep] d' pool_only_trans by (auto intro: pool_only_trans pool_only_basic)
  moreover from this(2) have "states_move d d'"
    unfolding d' bump_eq states_move_def using repositionsD(2) [OF rep]
    by (auto simp: update_where_def list_all2_map2 list_all2_same list.rel_map state_moves_def)
  ultimately show "R d d'" by (blast intro: pool_part)
qed

lemma rotated_body_moves: "rotated_body s now d = Inr (r, d') \<Longrightarrow> R d d'"
proof (erule rotated_cases)
  fix w d1 d2 remains activate
  assume up: "update_member w s (restart_key (remains \<or> activate)) d = Inr d1" and rep: "repositions d1 d2"
    and d': "d' = bump w now (if activate then activate_key s else id) d2"
  have "R d2 d'" unfolding d' by (rule bump_moves) (simp add: activate_key_def)
  then show "R d d'" using update_member_moves [OF up] repositions_moves [OF rep] by (meson R_trans)
qed simp

lemma remove_body_moves: "remove_body s now d = Inr (r, d') \<Longrightarrow> R d d'"
proof (erule remove_cases)
  fix w d2 d3 rows candidate
  let ?d1 = "d\<lparr>pd_members := filter (\<lambda>x. \<not> is_member w s x) (pd_members d)\<rparr>"
  assume rep: "repositions ?d1 d2" and d3: "(case candidate of None \<Rightarrow> Inr d2 | Some c \<Rightarrow> update_member w c promote_key d2) = Inr d3"
    and d': "d' = bump w now (after_removal rows candidate) d3"
  have "R d ?d1" by (rule pool_part) (simp_all add: states_move_same)
  moreover have "R d2 d3" using d3 by (cases candidate) (auto dest: update_member_moves)
  moreover have "R d3 d'" unfolding d' by (rule bump_moves) (simp add: after_removal_def)
  ultimately show "R d d'" using repositions_moves [OF rep] by (meson R_trans)
qed simp

lemma snapshot_moves: "write_quota_snapshot w s q now d = Inr d' \<Longrightarrow> R d d'"
  by (erule snapshotD) (rule update_member_moves)

lemma restore_moves:
  assumes "restore_member w s st now d = Inr d'"
  shows "R d d'"
proof -
  let ?a = "ps_status st \<in> {EmptyPool, ExhaustedPool} \<and> no_active st"
  obtain d1 d2 where rep: "compact_positions w (if ?a then s # others w s d else others w s d @ [s]) d = Inr d1"
      and up: "update_member w s (\<lambda>m. m\<lparr>pm_status := (if ?a then ActiveKey else StandbyKey), pm_blocked_until := None,
        pm_last_error_code := None\<rparr>) d1 = Inr d2"
      and d': "d' = (if ?a then bump w now (activate_key s) d2 else d2)"
    using assms by (auto simp: restore_member_def Let_def)
  have "R d2 d'" unfolding d' by (auto intro: bump_moves simp: activate_key_def)
  then show ?thesis using update_member_moves [OF up] repositions_moves [OF compact_repositions [OF rep]]
    by (meson R_trans)
qed

lemma member_quota_body_moves: "member_quota_body w s q now d = Inr (r, d') \<Longrightarrow> R d d'"
  by (auto simp: member_quota_body_def state_row_Inr committed_Inr deplete_member_def
      dest!: snapshot_moves restore_moves update_member_moves intro: R_trans split: option.splits if_splits)

subsection \<open>Methods on runs\<close>

lemma reject_moves: "unsent r \<Longrightarrow> run_keeps r (reject_run code now r)"
  by (auto simp: unsent_def run_keeps_def run_moves_to_def reject_run_def terminal_run_def)

lemma release_moves: "R d (snd (release_reservation l code now d))"
  unfolding release_reservation_def
  by (rule txn_moves) (auto intro: run_part reject_moves split: if_splits)

lemma unless_terminal_moves:
  assumes "run_for_lease l d = Inr r" "(if terminal_run (ar_status r) then Inr d else update_run (ar_id r) f d) = Inr d'"
    and "\<not> terminal_run (ar_status r) \<Longrightarrow> run_keeps r (f r)"
  shows "R d d'"
  using assms(2,3) run_part [OF assms(1)] by (cases "terminal_run (ar_status r)") auto

lemma aborting_moves: "R d (snd (mark_run_aborting l i now d))"
  unfolding mark_run_aborting_def
proof (rule txn_moves)
  fix x d'
  assume body: "try_then (run_for_lease l d) (\<lambda>r.
     if truthy (or_empty i) \<and> ar_remote_run_id r \<noteq> i then Inl RunLeaseError
     else try_then (if terminal_run (ar_status r) then Inr d
                    else update_run (ar_id r) (\<lambda>x. x\<lparr>ar_status := AbortingRun, ar_updated_at := now\<rparr>) d) (\<lambda>d1.
       Inr (shown (ar_id r) d1, d1))) = Inr (x, d')"
  then obtain r where "run_for_lease l d = Inr r" "(if terminal_run (ar_status r) then Inr d
      else update_run (ar_id r) (\<lambda>x. x\<lparr>ar_status := AbortingRun, ar_updated_at := now\<rparr>) d) = Inr d'"
    by (auto split del: if_split split: if_split_asm)
  then show "R d d'" by (rule unless_terminal_moves) (simp add: run_keeps_def run_moves_to_def)
qed

lemma terminal_moves: "R d (snd (mark_run_terminal l i v now d))"
proof (cases "terminal_status v")
  case (Some t)
  let ?f = "\<lambda>x. x\<lparr>ar_status := t, ar_terminal_at := Some now, ar_updated_at := now\<rparr>"
  have "R d (snd (pool_txn (\<lambda>d. try_then (run_for_lease l d) (\<lambda>r.
      if truthy (or_empty (ar_remote_run_id r)) \<and> ar_remote_run_id r \<noteq> Some i then Inl RunLeaseError
      else try_then (if terminal_run (ar_status r) then Inr d else update_run (ar_id r) ?f d) (\<lambda>d1.
        Inr (try_then (shown (ar_id r) d1) (\<lambda>_. Inr ()), d1)))) d))" (is "R d (snd (pool_txn ?body d))")
  proof (rule txn_moves)
    fix x d'
    assume "?body d = Inr (x, d')"
    then obtain r where "run_for_lease l d = Inr r"
        "(if terminal_run (ar_status r) then Inr d else update_run (ar_id r) ?f d) = Inr d'"
      by (auto split del: if_split split: if_split_asm)
    then show "R d d'" by (rule unless_terminal_moves) (simp add: run_keeps_def run_moves_to_def)
  qed
  then show ?thesis by (simp add: mark_run_terminal_def Some)
qed (simp add: mark_run_terminal_def)

lemma accounting_moves: "R d (snd (record_run_accounting l a fin res now d))"
  unfolding record_run_accounting_def
  by (auto intro!: txn_moves elim!: run_part simp: run_keeps_def run_moves_to_def)

lemma block_unless_validation_moves: "R d (block_unless_validation r code now d)"
  by (simp add: block_unless_validation_def block_pool_moves)

lemma unknown_moves: "R d (snd (report_start_outcome_unknown l code now d))"
  unfolding report_start_outcome_unknown_def Let_def
proof (rule txn_moves)
  fix x d'
  let ?c = "safe_error_code code ''apify_start_outcome_unknown''"
  assume "try_then (run_for_lease l d) (\<lambda>r. if terminal_run (ar_status r) then Inl RunLeaseError
      else try_then (update_run (ar_id r) (mark_unknown ?c now) d)
        (\<lambda>d1. Inr (Inr (), block_unless_validation r ?c now d1))) = Inr (x, d')"
  then obtain r d1 where r: "run_for_lease l d = Inr r" "\<not> terminal_run (ar_status r)"
      "update_run (ar_id r) (mark_unknown ?c now) d = Inr d1" "d' = block_unless_validation r ?c now d1"
    by (auto split: if_splits)
  then have "R d d1"
    by (intro run_part [OF r(1,3)]) (simp add: run_keeps_def run_moves_to_def mark_unknown_def)
  then show "R d d'" unfolding r(4) using block_unless_validation_moves R_trans by blast
qed

lemma block_reconcile_moves: "R d (snd (block_run_reconciliation l code now d))"
  unfolding block_run_reconciliation_def Let_def
proof (rule txn_moves)
  fix x d'
  let ?c = "safe_error_code code ''apify_run_reconcile_required''"
  assume "try_then (run_for_lease l d) (\<lambda>r. try_then (update_run (ar_id r) (note_reconcile ?c now) d)
        (\<lambda>d1. Inr (Inr (), block_unless_validation r ?c now d1))) = Inr (x, d')"
  then obtain r d1 where r: "run_for_lease l d = Inr r"
      "update_run (ar_id r) (note_reconcile ?c now) d = Inr d1" "d' = block_unless_validation r ?c now d1"
    by auto
  then have "R d d1"
    by (intro run_part [OF r(1,2)]) (simp add: run_keeps_def run_moves_to_def note_reconcile_def)
  then show "R d d'" unfolding r(3) using block_unless_validation_moves R_trans by blast
qed

lemma complete_reconcile_moves: "R d (snd (complete_run_reconciliation l now d))"
  unfolding complete_run_reconciliation_def Let_def
proof (rule txn_moves)
  fix x d'
  assume body: "try_then (run_for_lease l d) (\<lambda>r.
     try_then (update_run (ar_id r) (\<lambda>x. x\<lparr>ar_last_error_code := None, ar_updated_at := now\<rparr>) d) (\<lambda>d1.
     try_then (state_row (ar_workspace_id r) d1) (\<lambda>st.
     Inr (Inr (),
       if \<not> acquisition_pending (ar_workspace_id r) (\<lambda>x. ar_status x = UnknownStart
              \<or> ar_last_error_code x = Some ''apify_run_reconcile_required'') d1
          \<and> ps_status st = BlockedPool \<and> ps_blocked_reason st = Some ''apify_run_reconcile_required''
       then unblock (ar_workspace_id r) now d1 else d1)))) = Inr (x, d')"
  then obtain r d1 where r: "run_for_lease l d = Inr r"
      "update_run (ar_id r) (\<lambda>x. x\<lparr>ar_last_error_code := None, ar_updated_at := now\<rparr>) d = Inr d1"
      "d' = unblock (ar_workspace_id r) now d1 \<or> d' = d1"
    by (auto split: if_splits)
  then have "R d d1" by (intro run_part [OF r(1,2)]) (simp add: run_keeps_def run_moves_to_def)
  then show "R d d'" using r(3) unblock_moves R_trans by blast
qed

lemma block_unregistered_moves: "R d (snd (block_unregistered_reservations w code now d))"
  unfolding block_unregistered_reservations_def Let_def
proof (rule txn_moves)
  fix x d'
  let ?c = "safe_error_code code ''apify_start_outcome_unknown''"
  assume "try_then (write_runs (update_where (unregistered w d) (mark_unknown ?c now) (pd_runs d)) d) (\<lambda>d1.
     Inr (Inr (length (filter (unregistered w d) (pd_runs d))),
       if acquisition_pending w (\<lambda>x. ar_status x = UnknownStart) d1 then block_pool w ?c now d1 else d1)) = Inr (x, d')"
  then obtain d1 where d1: "write_runs (update_where (unregistered w d) (mark_unknown ?c now) (pd_runs d)) d = Inr d1"
      "d' = block_pool w ?c now d1 \<or> d' = d1"
    by (auto split: if_splits)
  have "R d d1" using d1(1) by (rule unknown_part)
  then show "R d d'" using d1(2) block_pool_moves R_trans by blast
qed

lemma confirm_moves: "R d (snd (confirm_unknown_start l remote ds now d))"
  unfolding confirm_unknown_start_def
proof (rule txn_moves)
  fix x d'
  assume "try_then (run_for_lease l d) (\<lambda>r.
     if ar_status r \<noteq> UnknownStart \<or> ar_remote_run_id r \<noteq> None \<or> ar_dataset_id r \<noteq> None then Inl RunLeaseError
     else try_then (update_run (ar_id r) (settle_unknown remote ds now) d) (\<lambda>d1.
       try_then (release_unknown_start_block (ar_workspace_id r) now d1) (\<lambda>d2.
       Inr (shown (ar_id r) d2, d2)))) = Inr (x, d')"
  then obtain r d1 where r: "run_for_lease l d = Inr r" "ar_status r = UnknownStart" "ar_remote_run_id r = None"
      "update_run (ar_id r) (settle_unknown remote ds now) d = Inr d1"
      "release_unknown_start_block (ar_workspace_id r) now d1 = Inr d'"
    by (auto split: if_splits)
  have "R d d1"
    by (rule run_part [OF r(1,4)]) (simp add: r(2,3) run_keeps_def run_moves_to_def settle_unknown_def terminal_run_def)
  then show "R d d'" using release_block_moves [OF r(5)] R_trans by blast
qed

lemma settled_moves: "R d (snd (reconcile_settled_unknown_start_block w now d))"
  unfolding reconcile_settled_unknown_start_block_def
  by (rule txn_moves) (auto dest: release_block_moves split: if_splits)

subsection \<open>Leases and failures\<close>

lemma acquire_body_moves: "acquire_body c attempted d = Inr (r, d') \<Longrightarrow> R d d'"
proof (erule acquire_body_cases)
  fix st assume "acquire_validation c attempted st d = Some (Inr (r, d'))"
  then show "R d d'" by (rule acquire_validation_cases) (auto dest: update_member_moves reserve_part)
next
  fix st assume "acquire_active c attempted st d = Inr (r, d')" "lookup_row ps_workspace_id (kc_workspace_id c) (pd_states d) = Some st"
    and "kc_purpose c = AcquisitionRun \<Longrightarrow> acquisition_startable (kc_workspace_id c) (kc_logical_run_id c) (kc_now c) None d"
  then show "R d d'" by (elim acquire_active_cases) (auto dest: begin_drain_moves reserve_part)
qed

lemma failover_moves: "R d (snd (complete_drain_and_failover w now d))"
  unfolding complete_drain_and_failover_def by (rule txn_moves) (rule failover_body_moves)

lemma acquire_round_moves: "R d (snd (acquire_round c attempted d))"
proof -
  obtain r1 d1 where txn: "pool_txn (acquire_body c attempted) d = (r1, d1)" by fastforce
  have d1: "R d d1" using txn_moves [of "acquire_body c attempted" d] acquire_body_moves txn by (metis snd_conv)
  obtain r2 d2 where fo: "complete_drain_and_failover (kc_workspace_id c) (kc_now c) d1 = (r2, d2)" by fastforce
  have "R d d2" using failover_moves [of d1] fo R_trans [OF d1] by (metis snd_conv)
  then show ?thesis using d1 unfolding acquire_round_def txn fo
    by (auto simp: fo split: sum.split acquired.split)
qed

lemma acquire_rounds_moves: "acquire_rounds n c attempted d = Some x \<Longrightarrow> R d (snd x)"
proof (induction n c attempted d rule: acquire_rounds.induct)
  case (2 n c attempted d)
  obtain r d1 where round: "acquire_round c attempted d = (r, d1)" by fastforce
  have d1: "R d d1" using acquire_round_moves [of d c attempted] round by (metis snd_conv)
  show ?case
  proof (cases "\<exists>s. r = Inr (Drained s)")
    case True
    then obtain s where "r = Inr (Drained s)" by blast
    then have "R d1 (snd x)" using 2 round by simp
    then show ?thesis using R_trans [OF d1] by blast
  next
    case False
    then show ?thesis using 2(2) round d1 by (auto split: sum.splits acquired.splits)
  qed
qed simp

lemma acquire_moves: "R d (snd (acquire_credential c attempted d))"
  unfolding acquire_credential_def
  by (cases "acquire_rounds (Suc (length (pd_members d))) c attempted d")
    (simp_all add: acquire_rounds_moves del: acquire_rounds.simps)

lemma reject_unsent_moves: "reject_unsent t code now d = Inr d' \<Longrightarrow> R d d'"
  by (auto simp: reject_unsent_def intro: run_part reject_moves split: failure_target.splits if_splits)

lemma failure_moves: "R d (snd (record_credential_failure t kind now d))"
proof -
  obtain r d' where result: "record_credential_failure t kind now d = (r, d')" by fastforce
  then have "R d d'"
    by (rule failure_cases) (auto dest!: reject_unsent_moves update_member_moves begin_drain_moves intro: R_trans)
  then show ?thesis by (simp add: result)
qed

lemma report_failure_moves: "R d (snd (report_credential_failure l kind tokens abort now d))"
  by (rule report_failure_keeps [where P = "R d"])
    (simp_all add: R_trans [OF _ aborting_moves] R_trans [OF _ terminal_moves]
      R_trans [OF _ failure_moves] R_trans [OF _ failover_moves])

lemma settle_moves:
  "R d (snd (confirm_start_not_created l now d))"
  "R d (snd (confirm_zero_cost_aborted_start l i ds now d))"
  by (simp_all add: confirm_start_not_created_def confirm_zero_cost_aborted_start_def confirm_moves Let_def)

lemma member_moves:
  "R d (snd (record_quota_snapshot l q now d))" "R d (snd (record_member_quota w s q now d))"
  "R d (snd (set_validation_key w sel g now d))" "R d (snd (append_secret s now d))"
  "R d (snd (reorder w g ids enabled now d))" "R d (snd (begin_drain s t why now d))"
  "R d (snd (mark_secret_rotated s now d))" "R d (snd (remove_secret s now d))"
proof -
  show "R d (snd (record_quota_snapshot l q now d))"
    by (auto simp: record_quota_snapshot_def intro!: txn_moves dest: snapshot_moves)
  show "R d (snd (record_member_quota w s q now d))"
    by (auto simp: record_member_quota_def intro!: txn_moves dest: member_quota_body_moves)
  show "R d (snd (set_validation_key w sel g now d))"
    by (auto simp: set_validation_key_def intro!: txn_moves dest: validation_body_moves)
  show "R d (snd (append_secret s now d))"
    by (auto simp: append_secret_def intro!: txn_moves dest: append_body_moves)
  show "R d (snd (reorder w g ids enabled now d))"
    by (auto simp: reorder_def intro!: txn_moves dest: reorder_body_moves)
  show "R d (snd (begin_drain s t why now d))"
    by (auto simp: begin_drain_def committed_Inr intro!: txn_moves dest!: begin_drain_moves split: option.splits)
  show "R d (snd (mark_secret_rotated s now d))"
    by (auto simp: mark_secret_rotated_def intro!: txn_moves dest: rotated_body_moves)
  show "R d (snd (remove_secret s now d))"
    by (auto simp: remove_secret_def intro!: txn_moves dest: remove_body_moves)
qed

text \<open>Registration may name the logical run, and others change the tables that the pool reads; these two
  are left to each relation.\<close>

lemma step_moves: "inside_op op \<Longrightarrow> R d (pool_step op d)"
  by (cases op) (simp_all add: acquire_moves release_moves unknown_moves block_reconcile_moves complete_reconcile_moves
    block_unregistered_moves aborting_moves terminal_moves accounting_moves failure_moves report_failure_moves
    settle_moves settled_moves member_moves failover_moves)

end

subsection \<open>Generations and runs\<close>

lemma rows_move:
  assumes "write_runs (update_where P f (pd_runs d)) d = Inr d'"
    and "\<And>r. runs_unique (pd_runs d) \<Longrightarrow> r \<in> set (pd_runs d) \<Longrightarrow> P r \<Longrightarrow> run_moves_to r (f r)"
  shows "pool_moves d d'"
proof -
  have d': "runs_unique (update_where P f (pd_runs d))" "d' = d\<lparr>pd_runs := update_where P f (pd_runs d)\<rparr>"
    using assms(1) by (simp_all add: write_runs_Inr)
  have "\<exists>r' \<in> set (update_where P f (pd_runs d)). run_moves_to r r'"
    if "runs_unique (pd_runs d)" "r \<in> set (pd_runs d)" for r
    using assms(2) [OF that] that(2) by (cases "P r") (auto simp: set_update_where intro: moves_in)
  then show ?thesis using d' by (simp add: pool_moves_def runs_move_def states_move_def list_all2_refl)
qed

lemma update_run_moves:
  assumes lease: "run_for_lease l d = Inr r" and up: "update_run (ar_id r) f d = Inr d'" and "run_moves_to r (f r)"
  shows "pool_moves d d'"
  using up unfolding update_run_def
proof (rule rows_move)
  fix x assume x: "runs_unique (pd_runs d)" "x \<in> set (pd_runs d)" "ar_id x = ar_id r"
  then have "x = r" using run_for_lease_Inr [OF lease] lookup_row_unique [of ar_id "pd_runs d"] by (simp add: runs_unique_def)
  then show "run_moves_to x (f x)" using assms(3) by simp
qed

lemma pool_moves_reserve: "reserve c p sr st token stale d = Inr (r, d') \<Longrightarrow> pool_moves d d'"
  by (erule reserve_cases)
    (auto simp: pool_moves_def runs_move_def states_move_def list_all2_refl intro: moves_in)

lemma pool_moves_pool: "pool_only d d' \<Longrightarrow> states_move d d' \<Longrightarrow> pool_moves d d'"
  by (auto simp: pool_moves_def pool_only_def runs_move_def intro: moves_in)

lemma pool_moves_unknown:
  "write_runs (update_where (unregistered w d) (mark_unknown code now) (pd_runs d)) d = Inr d' \<Longrightarrow> pool_moves d d'"
  by (erule rows_move) (auto simp: unregistered_def run_moves_to_def mark_unknown_def terminal_run_def)

interpretation fences: pool_relation pool_moves
  by unfold_locales
    (auto intro: pool_moves_trans pool_moves_pool update_run_moves pool_moves_unknown pool_moves_reserve
      simp: run_keeps_def)

lemma register_cases:
  assumes "register_body l remote dataset lg now d = Inr (x, d')"
  obtains (same) "d' = d"
  | (registered) r where "run_for_lease l d = Inr r" "\<not> truthy (or_empty (ar_remote_run_id r))"
      "ar_status r \<in> {ReservedRun, StartingRun}" "update_run (ar_id r) (register_run_row remote dataset lg now) d = Inr d'"
proof -
  obtain r where r: "run_for_lease l d = Inr r"
      "(if truthy (or_empty (ar_remote_run_id r))
        then (if ar_remote_run_id r \<noteq> Some remote \<or> ar_dataset_id r \<noteq> dataset then Inl RunLeaseError else Inr d)
        else if ar_status r \<notin> {ReservedRun, StartingRun} then Inl RunLeaseError
        else update_run (ar_id r) (register_run_row remote dataset lg now) d) = Inr d'"
    using assms by (auto simp: register_body_def)
  show thesis
  proof (cases "truthy (or_empty (ar_remote_run_id r))")
    case True
    then show thesis using r(2) same by (simp split: if_splits)
  next
    case False
    then show thesis using r registered by (simp split: if_splits)
  qed
qed

lemma register_run_moves: "pool_moves d (snd (register_actor_run l i ds lg now d))"
proof -
  have "pool_moves d d'" if "register_body l remote dataset lg now d = Inr (x, d')" for remote dataset x d'
    using that
  proof (cases rule: register_cases)
    case (registered r)
    then show ?thesis
      by (intro update_run_moves [OF registered(1,4)]) (auto simp: run_moves_to_def register_run_row_def terminal_run_def)
  qed simp
  then show ?thesis by (auto simp: register_actor_run_def Let_def intro!: fences.txn_moves)
qed

lemma outside_moves: "pool_moves d (d\<lparr>pd_attempts := as, pd_jobs := js, pd_secrets := ss\<rparr>)"
  by (auto simp: pool_moves_def states_move_def runs_move_def list_all2_refl intro: moves_in)

lemma pool_step_moves: "pool_moves d (pool_step op d)"
proof (cases "inside_op op")
  case False
  then show ?thesis by (cases op) (simp_all add: register_run_moves outside_moves)
qed (rule fences.step_moves)

interpretation key_pool: operations pool_step pool_moves
  by unfold_locales (simp_all add: pool_step_moves, blast intro: pool_moves_trans)

end
