(* ===== verification/KeyReservations.thy ===== *)
theory KeyReservations
  imports KeyFences
begin

section \<open>What reservations promise\<close>

text \<open>
  Two further relations that satisfy \<open>pool_relation\<close>.  An attempt of ActorOps that is known to the pool
  holds at most one open reservation; and an acquisition run of the current generation was reserved with
  the key that is still active, so that the generation of a lease fences off every other key.
\<close>

subsection \<open>One open reservation for each attempt\<close>

definition reserves_once :: "pool_db \<Rightarrow> bool" where
  "reserves_once d \<longleftrightarrow> (\<forall>w l. attempt_of w l d \<noteq> None \<longrightarrow>
     (\<forall>r \<in> set (pd_runs d). \<forall>s \<in> set (pd_runs d). reserves w l r \<and> reserves w l s \<longrightarrow> r = s))"

definition once_moves :: "pool_db \<Rightarrow> pool_db \<Rightarrow> bool" where
  "once_moves d d' \<longleftrightarrow> pd_attempts d' = pd_attempts d
     \<and> (runs_unique (pd_runs d) \<and> reserves_once d \<longrightarrow> runs_unique (pd_runs d') \<and> reserves_once d')"

lemma run_keeps_reserves: "run_keeps r r' \<Longrightarrow> reserves w l r' \<Longrightarrow> reserves w l r"
  by (cases "ar_status r"; cases "ar_status r'")
    (auto simp: run_keeps_def run_moves_to_def reserves_def terminal_run_def open_run_def)

lemma once_moves_rows:
  assumes "write_runs (update_where P f (pd_runs d)) d = Inr d'"
    and "\<And>r. runs_unique (pd_runs d) \<Longrightarrow> r \<in> set (pd_runs d) \<Longrightarrow> P r \<Longrightarrow> run_keeps r (f r)"
  shows "once_moves d d'"
proof -
  let ?g = "\<lambda>r. if P r then f r else r"
  have d': "runs_unique (update_where P f (pd_runs d))" "d' = d\<lparr>pd_runs := update_where P f (pd_runs d)\<rparr>"
    using assms(1) by (simp_all add: write_runs_Inr)
  have orig: "reserves w l r" if "runs_unique (pd_runs d)" "r \<in> set (pd_runs d)" "reserves w l (?g r)" for w l r
    using that run_keeps_reserves [OF assms(2)] by (cases "P r") simp_all
  have "reserves_once d'" if "runs_unique (pd_runs d)" "reserves_once d"
    unfolding reserves_once_def
  proof (intro allI impI ballI)
    fix w l x y
    assume known: "attempt_of w l d' \<noteq> None" and x: "x \<in> set (pd_runs d')" and y: "y \<in> set (pd_runs d')"
      and res: "reserves w l x \<and> reserves w l y"
    obtain r s where r: "r \<in> set (pd_runs d)" "x = ?g r" and s: "s \<in> set (pd_runs d)" "y = ?g s"
      using x y by (auto simp: d'(2) update_where_def)
    have "reserves w l r" "reserves w l s" using orig [OF that(1)] r s res by blast+
    moreover have "attempt_of w l d \<noteq> None" using known by (simp add: d'(2) attempt_of_def)
    ultimately show "x = y" using that(2) r s unfolding reserves_once_def by blast
  qed
  then show ?thesis using d' by (simp add: once_moves_def)
qed

lemma once_moves_run:
  assumes "run_for_lease l d = Inr r" "update_run (ar_id r) f d = Inr d'" "run_keeps r (f r)"
  shows "once_moves d d'"
  using assms(2) unfolding update_run_def
proof (rule once_moves_rows)
  fix x assume "runs_unique (pd_runs d)" "x \<in> set (pd_runs d)" "ar_id x = ar_id r"
  then have "x = r"
    using run_for_lease_Inr [OF assms(1)] lookup_row_unique [of ar_id "pd_runs d"] by (simp add: runs_unique_def)
  then show "run_keeps x (f x)" using assms(3) by simp
qed

lemma once_moves_unknown:
  "write_runs (update_where (unregistered w d) (mark_unknown code now) (pd_runs d)) d = Inr d' \<Longrightarrow> once_moves d d'"
  by (erule once_moves_rows)
    (auto simp: unregistered_def run_keeps_def run_moves_to_def mark_unknown_def terminal_run_def)

lemma startable_free:
  assumes "acquisition_startable w (Some l) now None d" "l \<noteq> []" "attempt_of w l d \<noteq> None" "r \<in> set (pd_runs d)"
  shows "\<not> reserves w l r"
  using assms by (auto simp: acquisition_startable_def Let_def split: option.splits)

lemma reserve_adds:
  assumes "reserve c p sr st token stale d = Inr (a, d')"
  obtains n where "d' = d\<lparr>pd_drawn := Suc (pd_drawn d), pd_runs := pd_runs d @ [n]\<rparr>" "runs_unique (pd_runs d')"
    "ar_workspace_id n = kc_workspace_id c" "ar_purpose n = p" "ar_pool_generation n = ps_generation st"
    "ar_secret_id n = sr_id sr" "ar_logical_run_id n = logical_id (kc_logical_run_id c)"
proof -
  obtain n where n: "n = new_run c p (''apifyrun_'' @ pd_id_source d (pd_drawn d)) sr st" by blast
  have "d' = d\<lparr>pd_drawn := Suc (pd_drawn d), pd_runs := pd_runs d @ [n]\<rparr>" "runs_unique (pd_runs d')"
    using assms unfolding n by (auto simp only: elim!: reserve_cases)
  moreover have "ar_workspace_id n = kc_workspace_id c" "ar_purpose n = p" "ar_pool_generation n = ps_generation st"
      "ar_secret_id n = sr_id sr" "ar_logical_run_id n = logical_id (kc_logical_run_id c)"
    by (simp_all add: n new_run_def)
  ultimately show thesis by (rule that)
qed

lemma once_moves_reserve:
  assumes reserve: "reserve c p sr st token stale d = Inr (a, d')"
    and start: "p = AcquisitionRun \<Longrightarrow> acquisition_startable (kc_workspace_id c) (kc_logical_run_id c) (kc_now c) None d"
  shows "once_moves d d'"
proof -
  obtain n where d': "d' = d\<lparr>pd_drawn := Suc (pd_drawn d), pd_runs := pd_runs d @ [n]\<rparr>" and unique: "runs_unique (pd_runs d')"
      and new: "ar_workspace_id n = kc_workspace_id c" "ar_purpose n = p" "ar_logical_run_id n = logical_id (kc_logical_run_id c)"
    using reserve by (rule reserve_adds)
  have free: "\<not> reserves w l r" if n: "reserves w l n" "attempt_of w l d \<noteq> None" "r \<in> set (pd_runs d)" for w l r
  proof -
    have "p = AcquisitionRun" "w = kc_workspace_id c" "kc_logical_run_id c = Some l" "l \<noteq> []"
      using n(1) new by (cases "kc_logical_run_id c"; auto simp: reserves_def logical_id_def split: if_splits)+
    then show ?thesis using startable_free [of w l "kc_now c" d r] start n(2,3) by simp
  qed
  have "reserves_once d'" if "reserves_once d"
    unfolding reserves_once_def
  proof (intro allI impI ballI)
    fix w l x y
    assume known: "attempt_of w l d' \<noteq> None" and xy: "x \<in> set (pd_runs d')" "y \<in> set (pd_runs d')"
      and res: "reserves w l x \<and> reserves w l y"
    have known': "attempt_of w l d \<noteq> None" using known by (simp add: d' attempt_of_def)
    consider "x = n" "y = n" | "x = n" "y \<in> set (pd_runs d)" | "y = n" "x \<in> set (pd_runs d)"
      | "x \<in> set (pd_runs d)" "y \<in> set (pd_runs d)"
      using xy by (auto simp: d')
    then show "x = y"
      by cases (use free known' res that in \<open>auto simp: reserves_once_def\<close>)
  qed
  then show ?thesis using unique by (auto simp: once_moves_def d')
qed

lemma once_moves_pool: "pool_only d d' \<Longrightarrow> once_moves d d'"
  by (auto simp: once_moves_def pool_only_def reserves_once_def attempt_of_def)

interpretation reservations: pool_relation once_moves
  by unfold_locales
    (use once_moves_pool once_moves_run once_moves_unknown once_moves_reserve in \<open>auto simp: once_moves_def\<close>)

text \<open>Two calls can break it.  \<open>register_run\<close> fills a missing logical run with the one it is given, also
  when that one has an open reservation already; and others may add an attempt whose id is already the
  logical run of reservations.\<close>

fun joins_reservation :: "pool_db \<Rightarrow> pool_op \<Rightarrow> bool" where
  "joins_reservation d (RegisterOp l i ds lg now) =
     (case run_for_lease l d of Inl _ \<Rightarrow> False | Inr r \<Rightarrow> ar_logical_run_id r = None \<and> logical_id lg \<noteq> None)"
| "joins_reservation d (OutsideOp as js ss) =
     list_ex (\<lambda>a. attempt_of (at_workspace_id a) (at_id a) d = None
        \<and> list_ex (reserves (at_workspace_id a) (at_id a)) (pd_runs d)) as"
| "joins_reservation d _ = False"

lemma register_once:
  assumes "\<not> joins_reservation d (RegisterOp l i ds lg now)"
  shows "once_moves d (snd (register_actor_run l i ds lg now d))"
proof -
  have "once_moves d d'" if "register_body l remote dataset lg now d = Inr (x, d')" for remote dataset x d'
    using that
  proof (cases rule: register_cases)
    case (registered r)
    have "ar_logical_run_id (register_run_row remote dataset lg now r) = ar_logical_run_id r"
      using assms registered(1) by (cases "ar_logical_run_id r") (simp_all add: register_run_row_def)
    then have "run_keeps r (register_run_row remote dataset lg now r)"
      using registered(2,3) by (auto simp: run_keeps_def run_moves_to_def register_run_row_def terminal_run_def)
    then show ?thesis by (rule once_moves_run [OF registered(1,4)])
  qed (simp add: once_moves_def)
  then show ?thesis by (auto simp: register_actor_run_def Let_def intro!: reservations.txn_moves)
qed

lemma outside_once:
  assumes "\<not> joins_reservation d (OutsideOp as js ss)" "reserves_once d"
  shows "reserves_once (d\<lparr>pd_attempts := as, pd_jobs := js, pd_secrets := ss\<rparr>)"
  unfolding reserves_once_def
proof (intro allI impI ballI)
  let ?d = "d\<lparr>pd_attempts := as, pd_jobs := js, pd_secrets := ss\<rparr>"
  fix w l x y
  assume known: "attempt_of w l ?d \<noteq> None" and xy: "x \<in> set (pd_runs ?d)" "y \<in> set (pd_runs ?d)"
    and res: "reserves w l x \<and> reserves w l y"
  obtain a where "a \<in> set as" "at_workspace_id a = w" "at_id a = l"
    using known by (auto simp: attempt_of_def find_Some_iff) (metis nth_mem)
  then have "attempt_of w l d \<noteq> None \<or> (\<forall>r \<in> set (pd_runs d). \<not> reserves w l r)"
    using assms(1) by (auto simp: list_ex_iff)
  then show "x = y" using assms(2) xy res unfolding reserves_once_def by auto
qed

lemma step_once:
  assumes "runs_unique (pd_runs d)" "reserves_once d" "\<not> joins_reservation d op"
  shows "runs_unique (pd_runs (pool_step op d)) \<and> reserves_once (pool_step op d)"
proof (cases "inside_op op")
  case True
  then show ?thesis using reservations.step_moves [OF True, of d] assms by (simp add: once_moves_def)
next
  case False
  then show ?thesis
  proof (cases op)
    case (RegisterOp l i ds lg now)
    then show ?thesis using register_once [of d l i ds lg now] assms by (simp add: once_moves_def)
  next
    case (OutsideOp as js ss)
    then show ?thesis using outside_once [of d as js ss] assms by simp
  qed simp_all
qed

lemma steps_once:
  assumes "runs_unique (pd_runs d)" "reserves_once d"
  shows "reserves_once (fold pool_step ops d) \<or> (\<exists>ops1 op ops2. ops = ops1 @ op # ops2
    \<and> reserves_once (fold pool_step ops1 d) \<and> \<not> reserves_once (pool_step op (fold pool_step ops1 d))
    \<and> joins_reservation (fold pool_step ops1 d) op)"
proof -
  let ?P = "\<lambda>d. runs_unique (pd_runs d) \<and> reserves_once d"
  have unique: "runs_unique (pd_runs (fold pool_step os d))" for os
    using key_pool.run_moves [of d os] assms(1) by (simp add: pool_moves_def runs_move_def)
  have "?P (fold pool_step ops d) \<or> (\<exists>ops1 op ops2. ops = ops1 @ op # ops2
      \<and> ?P (fold pool_step ops1 d) \<and> \<not> ?P (pool_step op (fold pool_step ops1 d)))"
    by (rule fold_keeps_or_breaks) (use assms in simp)
  then show ?thesis
  proof
    assume "\<exists>ops1 op ops2. ops = ops1 @ op # ops2
      \<and> ?P (fold pool_step ops1 d) \<and> \<not> ?P (pool_step op (fold pool_step ops1 d))"
    then obtain ops1 op ops2 where "ops = ops1 @ op # ops2" "?P (fold pool_step ops1 d)"
        "\<not> ?P (pool_step op (fold pool_step ops1 d))" by blast
    moreover have "runs_unique (pd_runs (pool_step op (fold pool_step ops1 d)))" using unique [of "ops1 @ [op]"] by simp
    ultimately show ?thesis using step_once [of "fold pool_step ops1 d" op] by blast
  qed simp
qed

subsection \<open>A generation names its key\<close>

definition runs_fenced :: "pool_db \<Rightarrow> bool" where
  "runs_fenced d \<longleftrightarrow> (\<forall>st \<in> set (pd_states d). \<forall>r \<in> set (pd_runs d).
     ar_workspace_id r = ps_workspace_id st \<and> ar_purpose r = AcquisitionRun \<longrightarrow>
       ar_pool_generation r \<le> ps_generation st
       \<and> (ar_pool_generation r = ps_generation st \<longrightarrow> ps_active st = Some (ar_secret_id r)))"

definition fenced_moves :: "pool_db \<Rightarrow> pool_db \<Rightarrow> bool" where
  "fenced_moves d d' \<longleftrightarrow> states_move d d'
     \<and> (runs_unique (pd_runs d) \<and> distinct (map ps_workspace_id (pd_states d)) \<and> runs_fenced d \<longrightarrow>
          runs_unique (pd_runs d') \<and> runs_fenced d')"

lemma states_move_ids: "states_move d d' \<Longrightarrow> map ps_workspace_id (pd_states d') = map ps_workspace_id (pd_states d)"
  unfolding states_move_def by (induction rule: list_all2_induct) (simp_all add: state_moves_def)

lemma states_move_from:
  assumes "states_move d d'" "st' \<in> set (pd_states d')"
  obtains st where "st \<in> set (pd_states d)" "state_moves st st'"
  using assms unfolding states_move_def list_all2_conv_all_nth by (metis in_set_conv_nth)

lemma runs_fenced_moves:
  assumes "states_move d d'" "runs_fenced d"
    and "\<And>r'. r' \<in> set (pd_runs d') \<Longrightarrow> \<exists>r \<in> set (pd_runs d). ar_workspace_id r' = ar_workspace_id r
      \<and> ar_purpose r' = ar_purpose r \<and> ar_pool_generation r' = ar_pool_generation r \<and> ar_secret_id r' = ar_secret_id r"
  shows "runs_fenced d'"
  unfolding runs_fenced_def
proof (intro ballI impI)
  fix st' r' assume st': "st' \<in> set (pd_states d')" and r': "r' \<in> set (pd_runs d')"
    and own: "ar_workspace_id r' = ps_workspace_id st' \<and> ar_purpose r' = AcquisitionRun"
  obtain st where st: "st \<in> set (pd_states d)" "state_moves st st'" using states_move_from [OF assms(1) st'] .
  obtain r where r: "r \<in> set (pd_runs d)" "ar_workspace_id r' = ar_workspace_id r" "ar_purpose r' = ar_purpose r"
      "ar_pool_generation r' = ar_pool_generation r" "ar_secret_id r' = ar_secret_id r" using assms(3) [OF r'] by blast
  have "ar_pool_generation r \<le> ps_generation st \<and> (ar_pool_generation r = ps_generation st \<longrightarrow> ps_active st = Some (ar_secret_id r))"
    using assms(2) st r own unfolding runs_fenced_def by (auto simp: state_moves_def)
  then show "ar_pool_generation r' \<le> ps_generation st'
      \<and> (ar_pool_generation r' = ps_generation st' \<longrightarrow> ps_active st' = Some (ar_secret_id r'))"
    using st(2) r by (auto simp: state_moves_def)
qed

lemma fenced_rows:
  assumes "write_runs (update_where P f (pd_runs d)) d = Inr d'"
    and "\<And>r. runs_unique (pd_runs d) \<Longrightarrow> r \<in> set (pd_runs d) \<Longrightarrow> P r \<Longrightarrow> run_moves_to r (f r)"
  shows "fenced_moves d d'"
proof -
  have d': "runs_unique (update_where P f (pd_runs d))" "d' = d\<lparr>pd_runs := update_where P f (pd_runs d)\<rparr>"
    using assms(1) by (simp_all add: write_runs_Inr)
  have "runs_fenced d'" if "runs_unique (pd_runs d)" "runs_fenced d"
  proof (rule runs_fenced_moves [OF _ that(2)])
    fix r' assume "r' \<in> set (pd_runs d')"
    then obtain r where r: "r \<in> set (pd_runs d)" "r' = (if P r then f r else r)" by (auto simp: d'(2) update_where_def)
    have "run_moves_to r r'" using assms(2) [OF that(1) r(1)] r(2) by (cases "P r") simp_all
    then show "\<exists>r \<in> set (pd_runs d). ar_workspace_id r' = ar_workspace_id r
        \<and> ar_purpose r' = ar_purpose r \<and> ar_pool_generation r' = ar_pool_generation r \<and> ar_secret_id r' = ar_secret_id r"
      using r(1) by (auto simp: run_moves_to_def)
  qed (simp add: d'(2) states_move_same)
  then show ?thesis using d' by (simp add: fenced_moves_def states_move_same)
qed

lemma fenced_run:
  assumes "run_for_lease l d = Inr r" "update_run (ar_id r) f d = Inr d'" "run_moves_to r (f r)"
  shows "fenced_moves d d'"
  using assms(2) unfolding update_run_def
proof (rule fenced_rows)
  fix x assume "runs_unique (pd_runs d)" "x \<in> set (pd_runs d)" "ar_id x = ar_id r"
  then have "x = r"
    using run_for_lease_Inr [OF assms(1)] lookup_row_unique [of ar_id "pd_runs d"] by (simp add: runs_unique_def)
  then show "run_moves_to x (f x)" using assms(3) by simp
qed

lemma fenced_reserve:
  assumes reserve: "reserve c p sr st token stale d = Inr (a, d')"
    and active: "p = AcquisitionRun \<Longrightarrow> lookup_row ps_workspace_id (kc_workspace_id c) (pd_states d) = Some st
      \<and> ps_active st = Some (sr_id sr)"
  shows "fenced_moves d d'"
proof -
  obtain n where d': "d' = d\<lparr>pd_drawn := Suc (pd_drawn d), pd_runs := pd_runs d @ [n]\<rparr>" and unique: "runs_unique (pd_runs d')"
      and n: "ar_workspace_id n = kc_workspace_id c" "ar_purpose n = p" "ar_pool_generation n = ps_generation st"
        "ar_secret_id n = sr_id sr"
    using reserve by (rule reserve_adds)
  have "runs_fenced d'" if "distinct (map ps_workspace_id (pd_states d))" "runs_fenced d"
    unfolding runs_fenced_def
  proof (intro ballI impI)
    fix x r assume x: "x \<in> set (pd_states d')" and r: "r \<in> set (pd_runs d')"
      and own: "ar_workspace_id r = ps_workspace_id x \<and> ar_purpose r = AcquisitionRun"
    show "ar_pool_generation r \<le> ps_generation x \<and> (ar_pool_generation r = ps_generation x \<longrightarrow> ps_active x = Some (ar_secret_id r))"
    proof (cases "r = n")
      case True
      then have p: "p = AcquisitionRun" and x': "ps_workspace_id x = kc_workspace_id c" using own n by simp_all
      have "lookup_row ps_workspace_id (kc_workspace_id c) (pd_states d) = Some x"
        by (rule lookup_row_eqI [OF that(1) _ x']) (use x in \<open>simp add: d'\<close>)
      then have "x = st" using active [OF p] by simp
      then show ?thesis unfolding True n(3,4) using active [OF p] by simp
    next
      case False
      then have "r \<in> set (pd_runs d)" "x \<in> set (pd_states d)" using x r by (simp_all add: d')
      then show ?thesis using that(2) own unfolding runs_fenced_def by blast
    qed
  qed
  then show ?thesis using unique by (simp add: fenced_moves_def states_move_same d')
qed

lemma fenced_pool:
  assumes "pool_only d d'" "states_move d d'"
  shows "fenced_moves d d'"
proof -
  have runs: "pd_runs d' = pd_runs d" using assms(1) by (simp add: pool_only_def)
  have "runs_fenced d'" if "runs_fenced d"
  proof (rule runs_fenced_moves [OF assms(2) that])
    fix r' assume "r' \<in> set (pd_runs d')"
    then show "\<exists>r \<in> set (pd_runs d). ar_workspace_id r' = ar_workspace_id r
        \<and> ar_purpose r' = ar_purpose r \<and> ar_pool_generation r' = ar_pool_generation r \<and> ar_secret_id r' = ar_secret_id r"
      by (intro bexI [of _ r']) (simp_all add: runs)
  qed
  then show ?thesis using assms(2) by (simp add: fenced_moves_def runs)
qed

lemma fenced_trans:
  assumes "fenced_moves d d1" "fenced_moves d1 d2"
  shows "fenced_moves d d2"
proof -
  have "map ps_workspace_id (pd_states d1) = map ps_workspace_id (pd_states d)"
    using assms(1) states_move_ids by (simp add: fenced_moves_def)
  then show ?thesis using assms states_move_trans [of d d1 d2] by (simp add: fenced_moves_def)
qed

interpretation generations: pool_relation fenced_moves
proof unfold_locales
  show "fenced_moves d d" for d by (simp add: fenced_moves_def)
  show "fenced_moves d d1 \<Longrightarrow> fenced_moves d1 d2 \<Longrightarrow> fenced_moves d d2" for d d1 d2 by (rule fenced_trans)
  show "write_runs (update_where (unregistered w d) (mark_unknown code now) (pd_runs d)) d = Inr d' \<Longrightarrow> fenced_moves d d'"
    for w code now d d'
    by (erule fenced_rows) (auto simp: unregistered_def run_moves_to_def mark_unknown_def terminal_run_def)
  show "run_for_lease l d = Inr r \<Longrightarrow> update_run (ar_id r) f d = Inr d' \<Longrightarrow> run_keeps r (f r) \<Longrightarrow> fenced_moves d d'"
    for l d r f d' unfolding run_keeps_def by (blast intro: fenced_run)
  show "reserve c p sr st token stale d = Inr (a, d') \<Longrightarrow>
      (p = AcquisitionRun \<Longrightarrow> acquisition_startable (kc_workspace_id c) (kc_logical_run_id c) (kc_now c) None d
         \<and> lookup_row ps_workspace_id (kc_workspace_id c) (pd_states d) = Some st \<and> ps_active st = Some (sr_id sr))
      \<Longrightarrow> fenced_moves d d'" for c p sr st token stale d a d'
    by (rule fenced_reserve) blast+
qed (rule fenced_pool)

lemma register_fenced: "fenced_moves d (snd (register_actor_run l i ds lg now d))"
proof -
  have "fenced_moves d d'" if "register_body l remote dataset lg now d = Inr (x, d')" for remote dataset x d'
    using that
  proof (cases rule: register_cases)
    case (registered r)
    then show ?thesis
      by (intro fenced_run [OF registered(1,4)]) (auto simp: run_moves_to_def register_run_row_def terminal_run_def)
  qed (simp add: fenced_moves_def)
  then show ?thesis by (auto simp: register_actor_run_def Let_def intro!: generations.txn_moves)
qed

lemma step_fenced: "fenced_moves d (pool_step op d)"
proof (cases "inside_op op")
  case False
  then show ?thesis
    by (cases op) (simp_all add: register_fenced, simp add: fenced_moves_def states_move_same runs_fenced_def)
qed (rule generations.step_moves)

interpretation fenced_pool: operations pool_step fenced_moves
proof unfold_locales
  show "fenced_moves d d" for d by (simp add: fenced_moves_def)
  show "fenced_moves d d1 \<Longrightarrow> fenced_moves d1 d2 \<Longrightarrow> fenced_moves d d2" for d d1 d2 by (rule fenced_trans)
qed (rule step_fenced)

end
