(* ===== verification/KeyOrder.thy ===== *)
theory KeyOrder
  imports KeyFences
begin

section \<open>Positions: compaction always succeeds\<close>

text \<open>
  \<open>_compact_positions\<close> rewrites all positions of a workspace in two passes, so that the unique index on
  positions is satisfied after each of its statements.  Here it is proved that both passes succeed and
  that the members are then shown in the requested order.
\<close>

subsection \<open>The unique indexes, pair by pair\<close>

definition rows_differ :: "pool_member \<Rightarrow> pool_member \<Rightarrow> bool" where
  "rows_differ m n \<longleftrightarrow> (pm_workspace_id m = pm_workspace_id n \<longrightarrow>
     pm_secret_id m \<noteq> pm_secret_id n \<and> pm_position m \<noteq> pm_position n
     \<and> \<not> (pm_status m = ActiveKey \<and> pm_role m = AcquisitionKey \<and> pm_status n = ActiveKey \<and> pm_role n = AcquisitionKey)
     \<and> \<not> (pm_role m = ValidationKey \<and> pm_role n = ValidationKey))"

lemma distinct_map_pairs: "distinct (map f xs) \<longleftrightarrow> sorted_wrt (\<lambda>x y. f x \<noteq> f y) xs"
  by (induction xs) auto

lemma distinct_filter_pairs: "distinct (map f (filter P xs)) \<longleftrightarrow> sorted_wrt (\<lambda>x y. P x \<and> P y \<longrightarrow> f x \<noteq> f y) xs"
  by (induction xs) auto

lemma sorted_wrt_all:
  "sorted_wrt (\<lambda>x y. A x y \<and> B x y \<and> C x y \<and> D x y) xs \<longleftrightarrow>
     sorted_wrt A xs \<and> sorted_wrt B xs \<and> sorted_wrt C xs \<and> sorted_wrt D xs"
  by (induction xs) auto

lemma members_ok_pairs: "members_ok ms \<longleftrightarrow> sorted_wrt rows_differ ms \<and> list_all (\<lambda>m. 0 \<le> pm_position m) ms"
proof -
  have differ: "rows_differ = (\<lambda>m n. (pm_workspace_id m, pm_secret_id m) \<noteq> (pm_workspace_id n, pm_secret_id n)
      \<and> (pm_workspace_id m, pm_position m) \<noteq> (pm_workspace_id n, pm_position n)
      \<and> ((pm_status m = ActiveKey \<and> pm_role m = AcquisitionKey) \<and> (pm_status n = ActiveKey \<and> pm_role n = AcquisitionKey)
          \<longrightarrow> pm_workspace_id m \<noteq> pm_workspace_id n)
      \<and> (pm_role m = ValidationKey \<and> pm_role n = ValidationKey \<longrightarrow> pm_workspace_id m \<noteq> pm_workspace_id n))"
    by (auto simp: rows_differ_def fun_eq_iff)
  show ?thesis unfolding members_ok_def distinct_filter_pairs
    unfolding distinct_map_pairs differ sorted_wrt_all by (simp only: conj_assoc)
qed

lemma members_ok_update:
  assumes ok: "members_ok ms" and "\<And>m. m \<in> set ms \<Longrightarrow> P m \<Longrightarrow> 0 \<le> pm_position (f m)"
    and "\<And>m n. m \<in> set ms \<Longrightarrow> n \<in> set ms \<Longrightarrow> rows_differ m n
           \<Longrightarrow> rows_differ (if P m then f m else m) (if P n then f n else n)"
  shows "members_ok (update_where P f ms)"
proof -
  have "sorted_wrt (\<lambda>m n. rows_differ (if P m then f m else m) (if P n then f n else n)) ms"
    using ok assms(3) unfolding members_ok_pairs by (blast intro: sorted_wrt_mono_rel)
  then show ?thesis using ok assms(2)
    by (auto simp: members_ok_pairs update_where_def sorted_wrt_map list_all_iff)
qed

lemma rows_differ_ids: "rows_differ m n \<Longrightarrow> \<not> (is_member w s m \<and> is_member w s n)"
  by (auto simp: rows_differ_def is_member_def)

subsection \<open>Placing rows\<close>

definition positions_of :: "string \<Rightarrow> pool_db \<Rightarrow> string \<Rightarrow> int option" where
  "positions_of w d s = map_option pm_position (find_member w s d)"

lemma place_one:
  assumes ok: "members_ok (pd_members d)" and k: "0 \<le> k"
    and free: "\<And>m. m \<in> set (pd_members d) \<Longrightarrow> pm_workspace_id m = w \<Longrightarrow> pm_secret_id m \<noteq> s \<Longrightarrow> pm_position m \<noteq> k"
  obtains d1 where "update_member w s (\<lambda>m. m\<lparr>pm_position := k\<rparr>) d = Inr d1"
    "pd_members d1 = update_where (is_member w s) (\<lambda>m. m\<lparr>pm_position := k\<rparr>) (pd_members d)"
proof -
  have "members_ok (update_where (is_member w s) (\<lambda>m. m\<lparr>pm_position := k\<rparr>) (pd_members d))"
  proof (rule members_ok_update [OF ok])
    fix m n assume mn: "m \<in> set (pd_members d)" "n \<in> set (pd_members d)" "rows_differ m n"
    then show "rows_differ (if is_member w s m then m\<lparr>pm_position := k\<rparr> else m) (if is_member w s n then n\<lparr>pm_position := k\<rparr> else n)"
      using rows_differ_ids [OF mn(3), of w s] free [of m] free [of n] by (auto simp: rows_differ_def is_member_def)
  qed (use k in simp)
  then show thesis using that by (simp add: update_member_Inr)
qed

lemma place_succeeds:
  assumes "members_ok (pd_members d)" "0 \<le> k" "distinct ids"
    and "\<And>m. m \<in> set (pd_members d) \<Longrightarrow> pm_workspace_id m = w \<Longrightarrow> pm_position m \<notin> {k ..< k + int (length ids)}"
  shows "\<exists>d'. place w k ids d = Inr d'
    \<and> (\<forall>m \<in> set (pd_members d'). pm_workspace_id m = w \<longrightarrow>
         (\<forall>i < length ids. pm_secret_id m = ids ! i \<longrightarrow> pm_position m = k + int i)
         \<and> (pm_secret_id m \<notin> set ids \<longrightarrow> (\<exists>n \<in> set (pd_members d). is_member w (pm_secret_id m) n \<and> pm_position n = pm_position m)))"
  using assms
proof (induction ids arbitrary: k d)
  case Nil
  then show ?case by (auto simp: is_member_def)
next
  case (Cons s ids)
  let ?f = "\<lambda>m. m\<lparr>pm_position := k\<rparr>"
  have free: "pm_position m \<noteq> k" if "m \<in> set (pd_members d)" "pm_workspace_id m = w" for m
    using Cons.prems(4) [OF that] by auto
  obtain d1 where d1: "update_member w s ?f d = Inr d1" "pd_members d1 = update_where (is_member w s) ?f (pd_members d)"
    by (rule place_one [OF Cons.prems(1,2)]) (use free in blast)
  have from_d: "\<exists>n \<in> set (pd_members d). m = (if is_member w s n then ?f n else n)" if "m \<in> set (pd_members d1)" for m
    using that unfolding d1(2) update_where_def by auto
  have "pm_position m \<notin> {k + 1 ..< k + 1 + int (length ids)}" if m: "m \<in> set (pd_members d1)" "pm_workspace_id m = w" for m
  proof -
    obtain n where n: "n \<in> set (pd_members d)" "m = (if is_member w s n then ?f n else n)" using from_d [OF m(1)] by blast
    show ?thesis
    proof (cases "is_member w s n")
      case False
      then show ?thesis using n m(2) Cons.prems(4) [OF n(1)] by auto
    qed (use n in simp)
  qed
  then obtain d' where d': "place w (k + 1) ids d1 = Inr d'" "\<And>m. m \<in> set (pd_members d') \<Longrightarrow> pm_workspace_id m = w \<Longrightarrow>
         (\<forall>i < length ids. pm_secret_id m = ids ! i \<longrightarrow> pm_position m = k + 1 + int i)
         \<and> (pm_secret_id m \<notin> set ids \<longrightarrow> (\<exists>n \<in> set (pd_members d1). is_member w (pm_secret_id m) n \<and> pm_position n = pm_position m))"
    using Cons.IH [of d1 "k + 1"] Cons.prems(2,3) update_memberD(1) [OF d1(1)] by auto
  have "(\<forall>i < length (s # ids). pm_secret_id m = (s # ids) ! i \<longrightarrow> pm_position m = k + int i)
       \<and> (pm_secret_id m \<notin> set (s # ids) \<longrightarrow> (\<exists>n \<in> set (pd_members d). is_member w (pm_secret_id m) n \<and> pm_position n = pm_position m))"
    if m: "m \<in> set (pd_members d')" "pm_workspace_id m = w" for m
  proof (intro conjI allI impI)
    fix i assume i: "i < length (s # ids)" "pm_secret_id m = (s # ids) ! i"
    show "pm_position m = k + int i"
    proof (cases i)
      case 0
      then have "pm_secret_id m = s" "s \<notin> set ids" using i Cons.prems(3) by simp_all
      then obtain n where n: "n \<in> set (pd_members d1)" "is_member w s n" "pm_position n = pm_position m"
        using d'(2) [OF m] by auto
      obtain n0 where "n = (if is_member w s n0 then ?f n0 else n0)" using from_d [OF n(1)] by blast
      then have "pm_position n = k" using n(2) by (auto simp: is_member_def split: if_splits)
      then show ?thesis using n(3) 0 by simp
    next
      case (Suc j)
      then show ?thesis using d'(2) [OF m] i by simp
    qed
  next
    assume "pm_secret_id m \<notin> set (s # ids)"
    then obtain n where n: "n \<in> set (pd_members d1)" "is_member w (pm_secret_id m) n" "pm_position n = pm_position m" "pm_secret_id m \<noteq> s"
      using d'(2) [OF m] by auto
    obtain n0 where n0: "n0 \<in> set (pd_members d)" "n = (if is_member w s n0 then ?f n0 else n0)" using from_d [OF n(1)] by blast
    have "n0 = n" using n0(2) n(2,4) by (auto simp: is_member_def split: if_splits)
    then show "\<exists>n \<in> set (pd_members d). is_member w (pm_secret_id m) n \<and> pm_position n = pm_position m" using n n0(1) by blast
  qed
  then show ?case using d1(1) d'(1) by auto
qed

subsection \<open>Both passes\<close>

lemma fold_max_le: "\<forall>x \<in> set xs. x \<le> fold max xs (a :: int)" "a \<le> fold max xs a"
proof -
  have "a \<le> fold max xs a \<and> (\<forall>x \<in> set xs. x \<le> fold max xs a)"
  proof (induction xs arbitrary: a)
    case (Cons x xs)
    then show ?case by (metis fold_Cons comp_apply max.bounded_iff set_ConsD)
  qed simp
  then show "\<forall>x \<in> set xs. x \<le> fold max xs a" "a \<le> fold max xs a" by simp_all
qed

lemma max_position_bound:
  "m \<in> set (pd_members d) \<Longrightarrow> pm_workspace_id m = w \<Longrightarrow> pm_position m \<le> max_position w d" "- 1 \<le> max_position w d"
  using fold_max_le [where xs = "map pm_position (filter (\<lambda>m. pm_workspace_id m = w) (pd_members d))" and a = "- 1"]
  by (auto simp: max_position_def)

lemma member_ids_set: "set (member_ids w d) = pm_secret_id ` {m \<in> set (pd_members d). pm_workspace_id m = w}"
  by (simp add: member_ids_def member_rows_def)

lemma member_ids_repositions: "repositions d d' \<Longrightarrow> set (member_ids w d') = set (member_ids w d)"
proof -
  assume "repositions d d'"
  from repositionsD(6) [OF this] have same: "key_view ` set (pd_members d') = key_view ` set (pd_members d)"
    by (metis list.set_map)
  have "set (member_ids w e) = pm_secret_id ` {m \<in> key_view ` set (pd_members e). pm_workspace_id m = w}" for e
  proof -
    have "{m \<in> key_view ` S. pm_workspace_id m = w} = key_view ` {m \<in> S. pm_workspace_id m = w}" for S
      by (auto simp: key_view_def)
    moreover have "pm_secret_id (key_view m) = pm_secret_id m" for m by (simp add: key_view_def)
    ultimately show ?thesis by (simp only: member_ids_set image_image)
  qed
  then show ?thesis by (simp only: same)
qed

lemma compact_succeeds:
  assumes ok: "members_ok (pd_members d)" and ids: "distinct ids" "set ids = set (member_ids w d)"
  obtains d' where "compact_positions w ids d = Inr d'" "repositions d d'"
    "\<And>m i. m \<in> set (pd_members d') \<Longrightarrow> pm_workspace_id m = w \<Longrightarrow> i < length ids \<Longrightarrow> pm_secret_id m = ids ! i
       \<Longrightarrow> pm_position m = int i"
proof -
  let ?b = "max_position w d + int (length ids) + 1"
  have "0 \<le> ?b" using max_position_bound(2) [of w d] by simp
  moreover have "pm_position m \<notin> {?b ..< ?b + int (length ids)}" if "m \<in> set (pd_members d)" "pm_workspace_id m = w" for m
    using max_position_bound(1) [OF that] by auto
  ultimately obtain d1 where d1: "place w ?b ids d = Inr d1" "\<And>m i. m \<in> set (pd_members d1) \<Longrightarrow> pm_workspace_id m = w
      \<Longrightarrow> i < length ids \<Longrightarrow> pm_secret_id m = ids ! i \<Longrightarrow> pm_position m = ?b + int i"
    using place_succeeds [OF ok _ ids(1), of ?b w] by blast
  note rep1 = place_repositions [OF d1(1)]
  have all: "pm_secret_id m \<in> set ids" if "m \<in> set (pd_members d1)" "pm_workspace_id m = w" for m
    using member_ids_repositions [OF rep1, of w] ids(2) that by (auto simp: member_ids_set)
  have "pm_position m \<notin> {0 ..< 0 + int (length ids)}" if m: "m \<in> set (pd_members d1)" "pm_workspace_id m = w" for m
  proof -
    obtain i where "i < length ids" "pm_secret_id m = ids ! i" using all [OF m] by (auto simp: in_set_conv_nth)
    then show ?thesis using d1(2) [OF m] max_position_bound(2) [of w d] by auto
  qed
  then obtain d2 where d2: "place w 0 ids d1 = Inr d2" "\<And>m i. m \<in> set (pd_members d2) \<Longrightarrow> pm_workspace_id m = w
      \<Longrightarrow> i < length ids \<Longrightarrow> pm_secret_id m = ids ! i \<Longrightarrow> pm_position m = 0 + int i"
    using place_succeeds [OF repositionsD(7) [OF rep1 ok] _ ids(1), of 0 w] by auto
  show thesis
    by (rule that [of d2]) (use d1(1) d2 repositions_trans [OF rep1 place_repositions [OF d2(1)]] in
        \<open>simp_all add: compact_positions_def\<close>)
qed

lemma member_ids_placed:
  assumes ok: "members_ok (pd_members d)" and ids: "distinct ids" "set ids = set (member_ids w d)"
    and pos: "\<And>m i. m \<in> set (pd_members d) \<Longrightarrow> pm_workspace_id m = w \<Longrightarrow> i < length ids \<Longrightarrow> pm_secret_id m = ids ! i
       \<Longrightarrow> pm_position m = int i"
  shows "member_ids w d = ids"
proof -
  let ?rows = "member_rows w d"
  have rows: "set ?rows = {m \<in> set (pd_members d). pm_workspace_id m = w}" by (auto simp: member_rows_def)
  have inj: "inj_on (\<lambda>m. (pm_workspace_id m, pm_secret_id m)) (set (pd_members d))" and dist: "distinct (pd_members d)"
    using ok by (simp_all add: members_ok_def distinct_map)
  have "distinct ?rows" using dist by (simp add: member_rows_def)
  moreover have "inj_on pm_secret_id (set ?rows)" using inj by (auto simp: inj_on_def rows)
  ultimately have distinct: "distinct (member_ids w d)" by (simp add: member_ids_def distinct_map)
  define at where "at s = (THE i. i < length ids \<and> ids ! i = s)" for s
  have at: "at (ids ! i) = i" if "i < length ids" for i
    unfolding at_def using that ids(1) by (auto simp: nth_eq_iff_index_eq)
  have pos': "pm_position m = int (at (pm_secret_id m)) \<and> at (pm_secret_id m) < length ids" if m: "m \<in> set ?rows" for m
  proof -
    have "pm_secret_id m \<in> set ids" using m ids(2) rows by (auto simp: member_ids_set)
    then obtain i where "i < length ids" "pm_secret_id m = ids ! i" by (auto simp: in_set_conv_nth)
    then show ?thesis using pos [of m i] m rows at by simp
  qed
  have "sorted (map (\<lambda>m. (pm_position m, pm_secret_id m)) ?rows)" by (simp add: member_rows_def)
  then have "sorted_wrt (\<lambda>m n. pm_position m \<le> pm_position n) ?rows"
    unfolding sorted_map by (rule sorted_wrt_mono_rel [rotated]) (auto simp: less_eq_prod_def)
  then have "sorted_wrt (\<lambda>m n. at (pm_secret_id m) \<le> at (pm_secret_id n)) ?rows"
    by (rule sorted_wrt_mono_rel [rotated]) (use pos' in fastforce)
  then have sorted1: "sorted (map at (member_ids w d))" by (simp add: member_ids_def sorted_map sorted_wrt_map)
  have "map at ids = [0 ..< length ids]" by (rule nth_equalityI) (simp_all add: at)
  then have sorted2: "sorted (map at ids)" by simp
  have inj_at: "inj_on at (set ids)"
    by (rule inj_on_inverseI [where g = "nth ids"]) (use at in \<open>auto simp: in_set_conv_nth\<close>)
  show ?thesis
  proof (rule map_sorted_distinct_set_unique)
    show "inj_on at (set (member_ids w d) \<union> set ids)" using inj_at ids(2) by simp
    show "distinct (map at (member_ids w d))" "distinct (map at ids)"
      using distinct inj_at ids by (simp_all add: distinct_map)
  qed (use sorted1 sorted2 ids(2) in simp_all)
qed

subsection \<open>Failover succeeds\<close>

lemma sort_key_map:
  assumes "\<And>x. k (f x) = k x"
  shows "sort_key k (map f xs) = map f (sort_key k xs)"
proof -
  have "insort_key k (f x) (map f ys) = map f (insort_key k x ys)" for x ys
    by (induction ys) (simp_all add: assms)
  then show ?thesis by (induction xs) simp_all
qed

lemma member_rows_update:
  assumes "update_member w s f d = Inr d1" "keeps_ids f" "\<And>m. pm_position (f m) = pm_position m"
  shows "member_rows w d1 = map (\<lambda>m. if is_member w s m then f m else m) (member_rows w d)"
proof -
  let ?g = "\<lambda>m. if is_member w s m then f m else m"
  have "pd_members d1 = map ?g (pd_members d)" using assms(1) by (auto simp: update_member_Inr update_where_def)
  moreover have "filter (\<lambda>m. pm_workspace_id m = w) (map ?g ms) = map ?g (filter (\<lambda>m. pm_workspace_id m = w) ms)" for ms
    using assms(2) by (induction ms) (auto simp: keeps_ids_def)
  moreover have "(pm_position (?g m), pm_secret_id (?g m)) = (pm_position m, pm_secret_id m)" for m
    using assms(2,3) by (simp add: keeps_ids_def)
  ultimately show ?thesis
    unfolding member_rows_def using sort_key_map [where k = "\<lambda>m. (pm_position m, pm_secret_id m)" and f = ?g] by simp
qed

lemma find_map_same:
  assumes "\<And>x. Q (f x) \<longleftrightarrow> Q x" "\<And>x. Q x \<Longrightarrow> f x = x"
  shows "find Q (map f xs) = find Q xs"
  using assms by (induction xs) auto

lemma first_standby_retired:
  assumes "update_member w old (retire t) d = Inr d1"
  shows "first_standby w old d1 = first_standby w old d"
proof -
  have "keeps_ids (retire t)" "pm_position (retire t m) = pm_position m" for m
    by (simp_all add: keeps_ids_def retire_def)
  note rows = member_rows_update [OF assms this]
  show ?thesis unfolding first_standby_def rows
    by (subst find_map_same) (auto simp: is_member_def retire_def)
qed

lemma member_rows_distinct:
  assumes "members_ok (pd_members d)"
  shows "distinct (map pm_secret_id (member_rows w d))"
proof -
  have "inj_on (\<lambda>m. (pm_workspace_id m, pm_secret_id m)) (set (pd_members d))" "distinct (pd_members d)"
    using assms by (simp_all add: members_ok_def distinct_map)
  then show ?thesis by (auto simp: member_rows_def distinct_map inj_on_def)
qed

lemma failover_order_ids:
  assumes ok: "members_ok (pd_members d)" and old: "old \<in> set (member_ids w d)"
    and c: "\<And>c. candidate = Some c \<Longrightarrow> c \<in> set (member_ids w d) \<and> c \<noteq> old"
  shows "distinct (failover_order w old candidate d)" "set (failover_order w old candidate d) = set (member_ids w d)"
proof -
  let ?rest = "filter (\<lambda>m. Some (pm_secret_id m) \<noteq> candidate \<and> pm_secret_id m \<noteq> old) (member_rows w d)"
  have inj: "inj_on pm_secret_id (set (member_rows w d))" and dist: "distinct (member_rows w d)"
    using member_rows_distinct [OF ok, of w] by (simp_all add: distinct_map)
  have "distinct (map pm_secret_id (filter P ?rest))" for P
    using inj dist by (simp add: distinct_map inj_on_def)
  moreover have "pm_secret_id m \<noteq> pm_secret_id n"
    if "m \<in> set (member_rows w d)" "n \<in> set (member_rows w d)" "pm_status m = StandbyKey" "pm_status n \<noteq> StandbyKey" for m n
    using inj that by (auto dest: inj_onD)
  ultimately obtain A B where AB: "failover_order w old candidate d = option_list candidate @ A @ B @ [old]"
      "distinct A" "distinct B" "set A \<inter> set B = {}" "\<And>x. x \<in> set A \<union> set B \<Longrightarrow> Some x \<noteq> candidate \<and> x \<noteq> old"
    by (intro that [of "map pm_secret_id (filter (\<lambda>m. pm_status m = StandbyKey) ?rest)"
        "map pm_secret_id (filter (\<lambda>m. pm_status m \<noteq> StandbyKey) ?rest)"]) (auto simp: failover_order_def Let_def)
  then show "distinct (failover_order w old candidate d)"
    using c by (cases candidate) (auto simp: AB(1))
  have "set (failover_order w old candidate d) =
      set (option_list candidate) \<union> pm_secret_id ` set ?rest \<union> {old}"
    unfolding failover_order_def Let_def by auto
  also have "\<dots> = set (member_ids w d)"
    using old c by (cases candidate) (auto simp: member_ids_def)
  finally show "set (failover_order w old candidate d) = set (member_ids w d)" .
qed

lemma retire_ok:
  assumes "members_ok (pd_members d)" "t \<noteq> ActiveKey"
  shows "\<exists>d1. update_member w s (retire t) d = Inr d1"
proof -
  have "members_ok (update_where (is_member w s) (retire t) (pd_members d))"
    using assms by (intro members_ok_update) (auto simp: retire_def rows_differ_def members_ok_def list_all_iff)
  then show ?thesis by (simp add: update_member_Inr)
qed

lemma activate_ok:
  assumes ok: "members_ok (pd_members d)" and idle: "\<And>s. \<not> used_as (keys_of w d s)"
  shows "\<exists>d1. update_member w c make_active d = Inr d1"
proof -
  have none: "pm_status m \<noteq> ActiveKey" if "m \<in> set (pd_members d)" "pm_workspace_id m = w" for m
  proof -
    have "find_member w (pm_secret_id m) d = Some m" using find_member_eqI [OF ok that(1)] that(2) by (simp add: is_member_def)
    then show ?thesis using idle [of "pm_secret_id m"] by (auto simp: keys_of_def role_status_def)
  qed
  have "members_ok (update_where (is_member w c) make_active (pd_members d))"
  proof (rule members_ok_update [OF ok])
    fix m n assume mn: "m \<in> set (pd_members d)" "n \<in> set (pd_members d)" "rows_differ m n"
    then show "rows_differ (if is_member w c m then make_active m else m) (if is_member w c n then make_active n else n)"
      using rows_differ_ids [OF mn(3), of w c] none [of m] none [of n]
      by (auto simp: rows_differ_def is_member_def make_active_def)
  qed (use ok in \<open>simp add: make_active_def members_ok_def list_all_iff\<close>)
  then show ?thesis by (simp add: update_member_Inr)
qed

lemma failover_succeeds:
  assumes sound: "pool_sound d" and st: "lookup_row ps_workspace_id w (pd_states d) = Some st" "ps_status st = DrainingPool"
    and finished: "acquisition_open_runs w (drain_generation st) d = []"
  obtains d3 where "failover_body w now d =
      (let d' = bump w now (switch_to (first_standby w (or_empty (ps_draining st)) d)) d3 in Inr (public_state w d', d'))"
    "pd_states d3 = pd_states d"
proof -
  let ?old = "or_empty (ps_draining st)" and ?t = "case ps_drain_target st of None \<Rightarrow> StandbyKey | Some t \<Rightarrow> t"
  let ?c = "first_standby w ?old d"
  have ok: "members_ok (pd_members d)" using sound by (simp add: pool_sound_def)
  have used: "key_in_use (keys_of w d) st" using sound_state [OF sound st(1)] by simp
  then have t: "?t \<notin> {ActiveKey, DrainingKey}"
    by (cases "ps_drain_target st") (simp_all add: key_in_use_def)
  from used obtain a k where a: "ps_active st = Some a" "keys_of w d a = Some (AcquisitionKey, k)"
      "\<And>s. s \<noteq> a \<Longrightarrow> \<not> used_as (keys_of w d s)" "?old = a" "?t \<notin> {ActiveKey, DrainingKey}"
    using st(2) t
  proof (cases rule: key_in_use_cases)
    case (key a k)
    then show ?thesis using st(2) t by (intro that [of a k]) simp_all
  qed (use st(2) in simp)
  have "?t \<noteq> ActiveKey" using a(5) by simp
  then obtain d1 where d1: "update_member w ?old (retire ?t) d = Inr d1" using retire_ok [OF ok] by blast
  have ids: "keeps_ids (retire ?t)" by (simp add: keeps_ids_def retire_def)
  note k1 = keys_update_member [OF d1 ids] update_memberD [OF d1]
  have cand: "first_standby w ?old d1 = ?c" using first_standby_retired [OF d1] .
  have idle: "\<not> used_as (keys_of w d1 s)" for s
    using a(3) [of s] a(5) by (cases "s = a"; cases "find_member w a d") (simp_all add: k1(1) a(4) role_status_def retire_def)
  have mem: "s \<in> set (member_ids w d1)" if "keys_of w d1 s \<noteq> None" for s
    using that by (auto simp: keys_of_def member_ids_set find_member_def find_Some_iff is_member_def)
  have old: "?old \<in> set (member_ids w d1)" using a(2,4) by (intro mem) (auto simp: k1(1) keys_of_def)
  have new: "c \<in> set (member_ids w d1) \<and> c \<noteq> ?old" if "?c = Some c" for c
    using first_standby_row [of w ?old d1 c] cand that k1(3) mem by simp
  note order = failover_order_ids [OF k1(3) old new]
  obtain d2 where d2: "compact_positions w (failover_order w ?old ?c d1) d1 = Inr d2" "repositions d1 d2"
    using compact_succeeds [OF k1(3) order] by blast
  have ok2: "members_ok (pd_members d2)" using repositionsD(7) [OF d2(2) k1(3)] .
  have idle2: "\<not> used_as (keys_of w d2 s)" for s using idle keys_repositions [OF d2(2)] by simp
  have "\<exists>d3. (case ?c of None \<Rightarrow> Inr d2 | Some c \<Rightarrow> update_member w c make_active d2) = Inr d3 \<and> pd_states d3 = pd_states d2"
  proof (cases ?c)
    case (Some c)
    obtain d3 where "update_member w c make_active d2 = Inr d3" using activate_ok [OF ok2 idle2] by blast
    then show ?thesis using update_memberD(2) Some by simp
  qed simp
  then obtain d3 where d3: "(case ?c of None \<Rightarrow> Inr d2 | Some c \<Rightarrow> update_member w c make_active d2) = Inr d3"
      "pd_states d3 = pd_states d2" by blast
  show thesis
  proof (rule that [of d3])
    show "failover_body w now d = (let d' = bump w now (switch_to ?c) d3 in Inr (public_state w d', d'))"
      unfolding failover_body_def Let_def committed_def
      by (simp add: state_row_def st finished d1 cand d2(1) d3(1))
    show "pd_states d3 = pd_states d" using d3(2) repositionsD(2) [OF d2(2)] k1(4) by simp
  qed
qed

end
