(* ===== verification/KeyProps.thy ===== *)
theory KeyProps
  imports KeyReservations KeyOrder
begin

section \<open>Properties of the key pool\<close>

text \<open>The properties of the pool, over the machine of \<open>KeyMachine\<close> and over single methods.\<close>

subsection \<open>A pool for the witnesses\<close>

definition sample_key :: "string \<Rightarrow> int \<Rightarrow> key_status \<Rightarrow> pool_member" where
  "sample_key s k t = \<lparr>pm_workspace_id = ''w'', pm_secret_id = s, pm_role = AcquisitionKey, pm_position = k, pm_status = t,
     pm_blocked_until = None, pm_last_error_code = None, pm_quota = fresh_quota\<rparr>"

definition sample_state :: "pool_status \<Rightarrow> pool_state" where
  "sample_state t = \<lparr>ps_workspace_id = ''w'', ps_generation = 3, ps_status = t, ps_active = Some ''k1'',
     ps_draining = (if t = ReadyPool then None else Some ''k1''),
     ps_drain_generation = (if t = ReadyPool then None else Some 3), ps_drain_target = None, ps_drain_reason = None,
     ps_drain_started_at = None,
     ps_blocked_reason = (if t = BlockedPool then Some ''apify_start_outcome_unknown'' else None), ps_updated_at = 0\<rparr>"

definition sample_actor_run :: "string \<Rightarrow> run_status \<Rightarrow> actor_run" where
  "sample_actor_run i t = \<lparr>ar_id = i, ar_workspace_id = ''w'', ar_logical_run_id = Some ''att1'', ar_purpose = AcquisitionRun,
     ar_secret_id = ''k1'', ar_secret_version = 1, ar_pool_generation = 3, ar_remote_run_id = None, ar_dataset_id = None,
     ar_status = t, ar_last_error_code = None, ar_charge_reserved = 0, ar_charge_actual = None, ar_charge_final = False,
     ar_created_at = 0, ar_started_at = None, ar_terminal_at = None, ar_updated_at = 0\<rparr>"

definition sample_secret :: "string \<Rightarrow> secret_ref" where
  "sample_secret s = \<lparr>sr_id = s, sr_workspace_id = ''w'', sr_env_name = s, sr_kind = ''apify'', sr_provider = ''apify'', sr_version = 1\<rparr>"

definition sample_pool :: "pool_status \<Rightarrow> actor_run list \<Rightarrow> pool_db" where
  "sample_pool t runs = \<lparr>pd_states = [sample_state t],
     pd_members = [sample_key ''k1'' 0 (if t = ReadyPool then ActiveKey else DrainingKey), sample_key ''k2'' 1 StandbyKey],
     pd_runs = runs, pd_secrets = [sample_secret ''k1'', sample_secret ''k2''], pd_attempts = [], pd_jobs = [],
     pd_id_source = (\<lambda>n. replicate n CHR ''x''), pd_drawn = 0\<rparr>"

definition sample_lease :: "string \<Rightarrow> key_lease" where
  "sample_lease i = \<lparr>ls_reservation_id = i, ls_secret_id = ''k1'', ls_secret_version = 1, ls_pool_generation = 3,
     ls_env_name = ''k1'', ls_token = ''t'', ls_quota_check = False\<rparr>"

definition sample_call :: acquire_call where
  "sample_call = \<lparr>kc_workspace_id = ''w'', kc_logical_run_id = None, kc_expected_generation = None,
     kc_purpose = AcquisitionRun, kc_require_validation = False, kc_tokens = (\<lambda>_. Some ''t''), kc_quota_max_age = 60, kc_now = 1\<rparr>"

lemma sample_pool_sound:
  assumes "t \<in> {ReadyPool, DrainingPool, BlockedPool}"
  shows "pool_sound (sample_pool t runs)"
proof -
  have "key_in_use (keys_of ''w'' (sample_pool t runs)) (sample_state t)"
    using assms
    by (intro key_in_use_someI [where a = "''k1''" and k = "if t = ReadyPool then ActiveKey else DrainingKey"])
      (auto simp: keys_of_def find_member_def is_member_def sample_pool_def sample_key_def sample_state_def role_status_def)
  moreover have "ps_workspace_id (sample_state t) = ''w''" by (simp add: sample_state_def)
  ultimately show ?thesis by (simp add: pool_sound_def sample_pool_def members_ok_def sample_key_def)
qed

subsection \<open>Acquiring a key\<close>

lemma acquire_round_leased:
  assumes "acquire_round c attempted d = (Inr (Leased l), d')"
  shows "acquire_body c attempted d = Inr (Inr (Leased l), d')"
proof -
  obtain r1 d1 where txn: "pool_txn (acquire_body c attempted) d = (r1, d1)" by fastforce
  have "r1 = Inr (Leased l)" "d1 = d'"
    using assms unfolding acquire_round_def txn by (auto split: sum.splits acquired.splits prod.splits if_splits)
  then show ?thesis using txn by (cases rule: pool_txn_cases [of "acquire_body c attempted" d]) simp_all
qed

lemma acquire_rounds_leased:
  "acquire_rounds n c attempted d = Some (Inr l, d') \<Longrightarrow>
    \<exists>tried d0. set attempted \<subseteq> set tried \<and> acquire_body c tried d0 = Inr (Inr (Leased l), d')"
proof (induction n c attempted d rule: acquire_rounds.induct)
  case (2 n c attempted d)
  obtain r d1 where round: "acquire_round c attempted d = (r, d1)" by fastforce
  show ?case
  proof (cases "\<exists>s. r = Inr (Drained s)")
    case True
    then obtain s where s: "r = Inr (Drained s)" by blast
    then have "\<exists>tried d0. set (attempted @ [s]) \<subseteq> set tried \<and> acquire_body c tried d0 = Inr (Inr (Leased l), d')"
      using 2 round by simp
    then show ?thesis by auto
  next
    case False
    then have "r = Inr (Leased l)" "d1 = d'" using 2(2) round by (auto split: sum.splits acquired.splits)
    then show ?thesis using acquire_round_leased round by blast
  qed
qed simp

lemma acquire_credential_leased:
  "acquire_credential c attempted d = (Inr l, d') \<Longrightarrow>
    \<exists>tried d0. set attempted \<subseteq> set tried \<and> acquire_body c tried d0 = Inr (Inr (Leased l), d')"
  unfolding acquire_credential_def
  by (cases "acquire_rounds (Suc (length (pd_members d))) c attempted d")
    (auto dest!: acquire_rounds_leased simp del: acquire_rounds.simps)

lemma find_new_run: "(\<And>x. x \<in> set xs \<Longrightarrow> \<not> P x) \<Longrightarrow> P n \<Longrightarrow> find P (xs @ [n]) = Some n"
  by (induction xs) auto

lemma reserved_run:
  assumes "reserve c p sr st token stale d = Inr (Inr (Leased l), d')"
  obtains r where "run_for_lease l d' = Inr r" "ar_status r = ReservedRun" "ar_workspace_id r = kc_workspace_id c"
    "ls_secret_id l = sr_id sr" "ls_pool_generation l = ps_generation st" "pd_states d' = pd_states d"
    "pd_members d' = pd_members d"
proof -
  obtain n where n: "n = new_run c p (''apifyrun_'' @ pd_id_source d (pd_drawn d)) sr st" by blast
  have d': "d' = d\<lparr>pd_drawn := Suc (pd_drawn d), pd_runs := pd_runs d @ [n]\<rparr>" "runs_unique (pd_runs d')"
      and l: "l = lease_of n (sr_env_name sr) token stale"
    using assms unfolding n by (auto simp only: elim!: reserve_cases)
  let ?P = "\<lambda>r. ar_id r = ls_reservation_id l \<and> ar_secret_id r = ls_secret_id l
      \<and> ar_pool_generation r = ls_pool_generation l \<and> ar_secret_version r = ls_secret_version l"
  have "ar_id n \<notin> ar_id ` set (pd_runs d)" using d' by (simp add: runs_unique_def)
  then have "ar_id r \<noteq> ar_id n" if "r \<in> set (pd_runs d)" for r using that by (metis image_eqI)
  then have "\<not> ?P r" if "r \<in> set (pd_runs d)" for r using that by (simp add: l lease_of_def)
  then have "find ?P (pd_runs d @ [n]) = Some n"
    by (rule find_new_run) (simp_all add: l lease_of_def)
  then have "run_for_lease l d' = Inr n" by (simp add: run_for_lease_def d')
  then show thesis by (rule that) (simp_all add: l lease_of_def d', simp_all add: n new_run_def)
qed

text \<open>Every round drains a member that was not tried before, so the rounds end.\<close>

definition member_keys :: "pool_db \<Rightarrow> (string \<times> string) list" where
  "member_keys d = map (\<lambda>m. (pm_workspace_id m, pm_secret_id m)) (pd_members d)"

lemma member_keys_update: "update_member w s f d = Inr d' \<Longrightarrow> keeps_ids f \<Longrightarrow> member_keys d' = member_keys d"
  by (auto simp: member_keys_def update_member_Inr keeps_ids_def intro: map_update_where_keep)

lemma member_keys_view: "member_keys d = map (\<lambda>m. (pm_workspace_id m, pm_secret_id m)) (map key_view (pd_members d))"
  by (simp add: member_keys_def key_view_def)

lemma member_keys_repositions: "repositions d d' \<Longrightarrow> member_keys d' = member_keys d"
  by (simp add: member_keys_view repositionsD)

lemma member_keys_states [simp]: "member_keys (update_state w f d) = member_keys d" "member_keys (bump w now g d) = member_keys d"
  by (simp_all add: member_keys_def)

lemma begin_drain_member_keys: "begin_drain_in w s t why now d = Inr x \<Longrightarrow> member_keys (snd x) = member_keys d"
  by (erule begin_drain_cases) (auto dest!: member_keys_update simp: keeps_ids_def)

lemma failover_member_keys: "member_keys (snd (complete_drain_and_failover w now d)) = member_keys d"
proof -
  have "member_keys d' = member_keys d" if "failover_body w now d = Inr (r, d')" for r d'
    using that
  proof (cases rule: failover_cases)
    case (switched st d1 d2 d3)
    have "keeps_ids (retire t)" "keeps_ids make_active" for t by (simp_all add: keeps_ids_def retire_def make_active_def)
    then have "member_keys d3 = member_keys d2" "member_keys d1 = member_keys d"
      using switched(4,6) by (auto dest: member_keys_update split: option.splits)
    then show ?thesis using switched(7) member_keys_repositions [OF switched(5)] by simp
  qed simp
  then show ?thesis
    unfolding complete_drain_and_failover_def by (cases rule: pool_txn_cases [of "failover_body w now" d]) simp_all
qed

lemma acquire_round_drained:
  assumes "acquire_round c attempted d = (Inr (Drained s), d')"
  shows "s \<notin> set attempted" "(kc_workspace_id c, s) \<in> set (member_keys d)" "member_keys d' = member_keys d"
proof -
  obtain r1 d1 where txn: "pool_txn (acquire_body c attempted) d = (r1, d1)" by fastforce
  obtain v d2 where fo: "complete_drain_and_failover (kc_workspace_id c) (kc_now c) d1 = (v, d2)" by fastforce
  have r1: "r1 = Inr (Drained s)" "d' = d2"
    using assms unfolding acquire_round_def txn by (auto simp: fo split: sum.splits acquired.splits if_splits)
  then have body: "acquire_body c attempted d = Inr (Inr (Drained s), d1)"
    using txn by (cases rule: pool_txn_cases [of "acquire_body c attempted" d]) simp_all
  then have drained: "s \<notin> set attempted \<and> find_member (kc_workspace_id c) s d \<noteq> None \<and> member_keys d1 = member_keys d"
  proof (cases rule: acquire_body_cases)
    case (validation st)
    from validation(3) show ?thesis
      by (cases rule: acquire_validation_cases) (auto elim!: reserve_cases)
  next
    case (active st)
    from active(3) show ?thesis
      by (cases rule: acquire_active_cases) (auto elim!: reserve_cases dest: begin_drain_member_keys)
  qed
  then show "s \<notin> set attempted" by simp
  show "(kc_workspace_id c, s) \<in> set (member_keys d)"
  proof -
    obtain m where "find_member (kc_workspace_id c) s d = Some m" using drained by blast
    then have "m \<in> set (pd_members d)" "is_member (kc_workspace_id c) s m" by (auto simp: find_member_def find_Some_iff)
    then show ?thesis by (force simp: member_keys_def is_member_def)
  qed
  show "member_keys d' = member_keys d"
    using failover_member_keys [of "kc_workspace_id c" "kc_now c" d1] fo r1 drained by simp
qed

lemma acquire_rounds_bound:
  "acquire_rounds n c attempted d = None \<Longrightarrow>
    n \<le> card ({s. (kc_workspace_id c, s) \<in> set (member_keys d)} - set attempted)"
proof (induction n c attempted d rule: acquire_rounds.induct)
  case (2 n c attempted d)
  let ?S = "{s. (kc_workspace_id c, s) \<in> set (member_keys d)}"
  obtain r d1 where round: "acquire_round c attempted d = (r, d1)" by fastforce
  then obtain s where s: "r = Inr (Drained s)" using 2(2) by (auto split: sum.splits acquired.splits)
  note drained = acquire_round_drained [OF round [unfolded s]]
  have "n \<le> card (?S - set (attempted @ [s]))" using 2 round s drained(3) by simp
  moreover have "?S - set (attempted @ [s]) = (?S - set attempted) - {s}" by auto
  moreover have "finite ?S"
    by (rule finite_subset [of _ "snd ` set (member_keys d)"]) force+
  then have "Suc (card (?S - set attempted - {s})) = card (?S - set attempted)"
    by (intro card_Suc_Diff1) (use drained(1,2) in simp_all)
  ultimately show ?case by simp
qed simp

lemma acquire_rounds_enough: "acquire_rounds (Suc (length (pd_members d))) c attempted d \<noteq> None"
proof
  assume "acquire_rounds (Suc (length (pd_members d))) c attempted d = None"
  then have "Suc (length (pd_members d)) \<le> card ({s. (kc_workspace_id c, s) \<in> set (member_keys d)} - set attempted)"
    by (rule acquire_rounds_bound)
  also have "\<dots> \<le> card (snd ` set (member_keys d))" by (rule card_mono) force+
  also have "\<dots> \<le> length (member_keys d)" by (metis card_length list.set_map length_map)
  finally show False by (simp add: member_keys_def)
qed

subsection \<open>Witness operations\<close>

definition pool_sample_ops :: "pool_op list" where
  "pool_sample_ops = [AcquireOp sample_call [], FailureOp (LeaseFailed (sample_lease ''apifyrun_'')) DepletedKey 2, FailoverOp ''w'' 3]"

lemma sample_runs_unique: "runs_unique (pd_runs (sample_pool t [sample_actor_run i s]))" "runs_unique (pd_runs (sample_pool t []))"
  by (simp_all add: runs_unique_def sample_pool_def sample_actor_run_def)

lemma sample_state_row: "lookup_row ps_workspace_id ''w'' (pd_states (sample_pool t runs)) = Some (sample_state t)"
  by (simp add: sample_pool_def sample_state_def lookup_row_def)

subsection \<open>The machine\<close>

definition sample_report :: quota_report where
  "sample_report = \<lparr>qr_remaining = 5, qr_checked_at = None, qr_cycle_start_at = None, qr_cycle_end_at = None,
     qr_monthly_included = None, qr_monthly_usage = None, qr_max_monthly_usage = None, qr_remaining_hard_limit = None\<rparr>"

text \<open>A pool without a key whose validation key is depleted: the reading that restores it makes it active.\<close>

definition validation_pool :: pool_db where
  "validation_pool = (sample_pool ReadyPool [])\<lparr>
     pd_states := [(sample_state ReadyPool)\<lparr>ps_status := ExhaustedPool, ps_active := None\<rparr>],
     pd_members := [(sample_key ''k1'' 0 DepletedKey)\<lparr>pm_role := ValidationKey\<rparr>]\<rparr>"

text \<open>C4: Whatever sequence of methods runs on a sound pool, every workspace keeps at most one key in use, it
  is the recorded active key, an acquisition member, and status, draining key and active key agree; unless
  one call of the sequence breaks this, and the first one that does is a positive quota reading for the
  depleted or invalid validation key of a pool without an active key, which makes that key the active
  one, or the append of a stored secret with the empty id.\<close>

theorem pool_keeps_one_key_in_use:
  assumes "pool_sound d"
  shows "pool_sound (fold pool_step ops d) \<or> (\<exists>ops1 op ops2. ops = ops1 @ op # ops2
    \<and> pool_sound (fold pool_step ops1 d) \<and> \<not> pool_sound (pool_step op (fold pool_step ops1 d))
    \<and> breaking_call (fold pool_step ops1 d) op)"
  using assms by (rule pool_steps_sound)

lemma validation_pool_sound: "pool_sound validation_pool"
  by (simp add: pool_sound_def validation_pool_def sample_pool_def members_ok_def sample_key_def sample_state_def
      key_in_use_def keys_of_def find_member_def is_member_def role_status_def)

lemma pool_keeps_one_key_in_use_witness:
  "pool_sound (fold pool_step pool_sample_ops (sample_pool ReadyPool [])) \<and>
   map ps_active (pd_states (fold pool_step pool_sample_ops (sample_pool ReadyPool []))) = [Some ''k2''] \<and>
   breaking_call validation_pool (MemberQuotaOp ''w'' ''k1'' sample_report 1)"
proof (intro conjI)
  let ?d = "sample_pool ReadyPool []"
  have calm: "\<not> breaking_call d op" if "op \<in> set pool_sample_ops" for d op
    using that by (auto simp: pool_sample_ops_def)
  have used: "op \<in> set pool_sample_ops" if "pool_sample_ops = ops1 @ op # ops2" for ops1 op ops2 unfolding that by simp
  have "pool_sound ?d" by (rule sample_pool_sound) simp
  then show "pool_sound (fold pool_step pool_sample_ops ?d)"
    using pool_keeps_one_key_in_use [of ?d pool_sample_ops] calm used by blast
  show "map ps_active (pd_states (fold pool_step pool_sample_ops ?d)) = [Some ''k2'']"
    by code_simp
  let ?op = "MemberQuotaOp ''w'' ''k1'' sample_report 1"
  define d where "d = pool_step ?op validation_pool"
  have used: "keys_of ''w'' d ''k1'' = Some (ValidationKey, ActiveKey)" unfolding d_def by code_simp
  have "map ps_workspace_id (pd_states d) = [''w'']" unfolding d_def by code_simp
  then obtain st where st: "st \<in> set (pd_states d)" "ps_workspace_id st = ''w''" by auto
  have "\<not> pool_sound d"
  proof
    assume "pool_sound d"
    then have "key_in_use (keys_of ''w'' d) st" using st unfolding pool_sound_def by metis
    then show False using key_in_use_used [of "keys_of ''w'' d" st "''k1''"] used by (auto simp: key_in_use_def)
  qed
  then have "\<not> pool_sound (pool_step ?op validation_pool)" unfolding d_def .
  then show "breaking_call validation_pool ?op"
    using pool_keeps_one_key_in_use [OF validation_pool_sound, of "[?op]"] by (auto simp: Cons_eq_append_conv)
qed

text \<open>C22: A run that has ended is never reopened: whatever runs afterwards, the row with its id keeps
  its status, its remote run, its key, key version and generation.\<close>

theorem terminal_runs_are_final:
  assumes "runs_unique (pd_runs d)" "r \<in> set (pd_runs d)" "terminal_run (ar_status r)"
  shows "\<exists>r'. lookup_row ar_id (ar_id r) (pd_runs (fold pool_step ops d)) = Some r'
    \<and> ar_status r' = ar_status r \<and> ar_remote_run_id r' = ar_remote_run_id r \<and> ar_terminal_at r' = ar_terminal_at r
    \<and> ar_secret_id r' = ar_secret_id r \<and> ar_secret_version r' = ar_secret_version r
    \<and> ar_pool_generation r' = ar_pool_generation r"
proof -
  let ?rows = "pd_runs (fold pool_step ops d)"
  have "runs_move d (fold pool_step ops d)" using key_pool.run_moves by (simp add: pool_moves_def)
  then obtain r' where r': "runs_unique ?rows" "r' \<in> set ?rows" "run_moves_to r r'"
    using assms(1,2) unfolding runs_move_def by blast
  then have "lookup_row ar_id (ar_id r) ?rows = Some r'"
    by (intro lookup_row_eqI) (simp_all add: runs_unique_def run_moves_to_def)
  then show ?thesis using r'(3) assms(3) by (auto simp: run_moves_to_def)
qed

lemma terminal_runs_are_final_witness:
  "\<exists>r'. lookup_row ar_id ''r'' (pd_runs (fold pool_step pool_sample_ops (sample_pool ReadyPool [sample_actor_run ''r'' FailedRun]))) = Some r'
     \<and> ar_status r' = FailedRun"
  using terminal_runs_are_final [of "sample_pool ReadyPool [sample_actor_run ''r'' FailedRun]" "sample_actor_run ''r'' FailedRun" pool_sample_ops]
  by (auto simp: sample_runs_unique terminal_run_def) (auto simp: sample_pool_def sample_actor_run_def)

text \<open>C7: A pool generation names one key: as long as a workspace is still at the generation that an
  acquisition run was reserved at, the key of that run is the active key, and no run is ahead of its
  pool.\<close>

theorem generation_names_the_key:
  assumes "runs_unique (pd_runs d)" "distinct (map ps_workspace_id (pd_states d))" "runs_fenced d"
    and "st \<in> set (pd_states (fold pool_step ops d))" "r \<in> set (pd_runs (fold pool_step ops d))"
    and "ar_workspace_id r = ps_workspace_id st" "ar_purpose r = AcquisitionRun"
  shows "ar_pool_generation r < ps_generation st
    \<or> ar_pool_generation r = ps_generation st \<and> ps_active st = Some (ar_secret_id r)"
proof -
  have "fenced_moves d (fold pool_step ops d)" by (rule fenced_pool.run_moves)
  then have "runs_fenced (fold pool_step ops d)" using assms(1-3) by (simp add: fenced_moves_def)
  then show ?thesis using assms(4-) unfolding runs_fenced_def by fastforce
qed

lemma sample_fenced: "runs_fenced (sample_pool t runs)" if "\<forall>r \<in> set runs. ar_pool_generation r = 3 \<and> ar_secret_id r = ''k1''"
  using that by (simp add: runs_fenced_def sample_pool_def sample_state_def)

definition after_one_lease :: pool_db where
  "after_one_lease = fold pool_step [AcquireOp sample_call []] (sample_pool ReadyPool [])"

lemma generation_names_the_key_witness:
  "ar_pool_generation (hd (pd_runs after_one_lease)) = ps_generation (hd (pd_states after_one_lease))
   \<and> ps_active (hd (pd_states after_one_lease)) = Some (ar_secret_id (hd (pd_runs after_one_lease)))"
proof -
  let ?d = "sample_pool ReadyPool []" and ?st = "hd (pd_states after_one_lease)" and ?r = "hd (pd_runs after_one_lease)"
  have "pd_states after_one_lease \<noteq> []" "pd_runs after_one_lease \<noteq> []" by code_simp+
  then have rows: "?st \<in> set (pd_states after_one_lease)" "?r \<in> set (pd_runs after_one_lease)" by simp_all
  have row: "ar_workspace_id ?r = ps_workspace_id ?st" "ar_purpose ?r = AcquisitionRun"
      "\<not> ar_pool_generation ?r < ps_generation ?st" by code_simp+
  have fenced: "runs_fenced ?d" by (rule sample_fenced) simp
  have distinct: "distinct (map ps_workspace_id (pd_states ?d))" by (simp add: sample_pool_def)
  show ?thesis
    using generation_names_the_key [OF sample_runs_unique(2) distinct fenced rows [unfolded after_one_lease_def]
        row(1,2) [unfolded after_one_lease_def]] row(3)
    unfolding after_one_lease_def by blast
qed

text \<open>C12: One attempt, one open reservation: after any sequence of methods, two open acquisition runs of one
  known attempt are the same run, unless one call of the sequence breaks this; the first one that does
  registers a run that was reserved without a logical run under one, or brings in from outside the pool
  an attempt whose id reservations carried before it was known.\<close>

theorem attempt_reserves_once:
  assumes "runs_unique (pd_runs d)" "reserves_once d"
    and "attempt_of w l (fold pool_step ops d) \<noteq> None"
    and "r \<in> set (pd_runs (fold pool_step ops d))" "s \<in> set (pd_runs (fold pool_step ops d))" "reserves w l r" "reserves w l s"
  shows "ar_id r = ar_id s \<or> (\<exists>ops1 op ops2. ops = ops1 @ op # ops2
    \<and> reserves_once (fold pool_step ops1 d) \<and> \<not> reserves_once (pool_step op (fold pool_step ops1 d))
    \<and> joins_reservation (fold pool_step ops1 d) op)"
proof -
  have "ar_id r = ar_id s" if "reserves_once (fold pool_step ops d)"
    using that assms(3-) unfolding reserves_once_def by blast
  then show ?thesis using steps_once [OF assms(1,2), of ops] by blast
qed

definition known_attempt :: attempt where
  "known_attempt = \<lparr>at_id = ''att1'', at_workspace_id = ''w'', at_idempotency_key = ''key'', at_route_id = ''r'',
     at_source_id = None, at_candidate_id = ''c'', at_kind = ProbeAttempt, at_group_id = ''g'', at_index = 0,
     at_route_generation = 1, at_binding_version = None, at_target_fingerprint = ''fp'', at_status = Created,
     at_semantic_outcome = None, at_failure_class = None, at_error_code = None, at_secret_ref_id = None,
     at_secret_version = None, at_pool_generation = None, at_remote_run_id = None, at_dataset_id = None,
     at_reserved_usd = 0, at_actual_cost_usd = None, at_cost_final = False, at_generation = 1, at_created_at = 0,
     at_started_at = None, at_terminal_at = None, at_updated_at = 0, at_logical_job_id = None, at_schema_version = 2,
     at_request_fingerprint = None, at_window_since = None, at_window_until = None, at_max_items = None,
     at_result_state = PendingResult, at_result_observed_at = None\<rparr>"

definition attempt_call :: acquire_call where
  "attempt_call = sample_call\<lparr>kc_logical_run_id := Some ''att1''\<rparr>"

definition attempt_pool :: pool_db where
  "attempt_pool = (sample_pool ReadyPool [])\<lparr>pd_attempts := [known_attempt]\<rparr>"

definition after_two_calls :: pool_db where
  "after_two_calls = fold pool_step [AcquireOp attempt_call [], AcquireOp attempt_call []] attempt_pool"

lemma attempt_reserves_once_witness:
  "length (pd_runs after_two_calls) = 1 \<and> ar_id (hd (pd_runs after_two_calls)) = ar_id (last (pd_runs after_two_calls))"
proof
  let ?ops = "[AcquireOp attempt_call [], AcquireOp attempt_call []]"
  let ?r = "hd (pd_runs after_two_calls)" and ?s = "last (pd_runs after_two_calls)"
  have start: "runs_unique (pd_runs attempt_pool)" "reserves_once attempt_pool"
    by (simp_all add: attempt_pool_def reserves_once_def sample_pool_def runs_unique_def)
  have known: "attempt_of ''w'' ''att1'' after_two_calls \<noteq> None" by code_simp
  have "pd_runs after_two_calls \<noteq> []" by code_simp
  then have rows: "?r \<in> set (pd_runs after_two_calls)" "?s \<in> set (pd_runs after_two_calls)" by simp_all
  have reserved: "reserves ''w'' ''att1'' ?r" "reserves ''w'' ''att1'' ?s" by code_simp+
  have calm: "\<not> joins_reservation d op" if "op \<in> set ?ops" for d op using that by auto
  have "op \<in> set ?ops" if "?ops = ops1 @ op # ops2" for ops1 op ops2 unfolding that by simp
  then show "ar_id ?r = ar_id ?s"
    using attempt_reserves_once [OF start known [unfolded after_two_calls_def] rows [unfolded after_two_calls_def]
        reserved [unfolded after_two_calls_def]] calm unfolding after_two_calls_def by blast
  show "length (pd_runs after_two_calls) = 1" by code_simp
qed

subsection \<open>Single methods\<close>

lemma public_state_states:
  assumes "lookup_row ps_workspace_id w (pd_states d) = Some st"
  obtains v where "public_state w d = Inr v" "vw_active v = ps_active st" "vw_status v = ps_status st"
    "vw_generation v = ps_generation st" "vw_draining v = ps_draining st" "map mv_secret_id (vw_members v) = member_ids w d"
  using assms that
  by (auto simp: public_state_def state_row_def Let_def member_ids_def view_member_def o_def)

lemma bumped_row:
  assumes "lookup_row ps_workspace_id w (pd_states d) = Some st" "pd_states d1 = pd_states d"
    "\<And>x. ps_workspace_id (f x) = ps_workspace_id x"
  shows "lookup_row ps_workspace_id w (pd_states (bump w now f d1)) =
    Some ((f st)\<lparr>ps_generation := ps_generation st + 1, ps_updated_at := now\<rparr>)"
  using assms(2,3) lookup_row_SomeD [OF assms(1)]
  by (simp add: bump_def update_state_def lookup_row_update_where assms(1))

text \<open>C9: When the last acquisition run of the draining key has ended, the failover succeeds: the first
  other standby becomes the active key, or the pool is exhausted, under the next generation.\<close>

theorem drain_completes:
  assumes "pool_sound d" "lookup_row ps_workspace_id w (pd_states d) = Some st" "ps_status st = DrainingPool"
    and "acquisition_open_runs w (drain_generation st) d = []"
  shows "\<exists>v d'. complete_drain_and_failover w now d = (Inr v, d')
    \<and> vw_active v = first_standby w (or_empty (ps_draining st)) d
    \<and> vw_status v = (if vw_active v = None then ExhaustedPool else ReadyPool)
    \<and> vw_generation v = ps_generation st + 1 \<and> vw_draining v = None"
proof -
  let ?c = "first_standby w (or_empty (ps_draining st)) d"
  obtain d3 where d3: "failover_body w now d = (let d' = bump w now (switch_to ?c) d3 in Inr (public_state w d', d'))"
      "pd_states d3 = pd_states d"
    using failover_succeeds [OF assms] by metis
  have "lookup_row ps_workspace_id w (pd_states (bump w now (switch_to ?c) d3)) =
      Some ((switch_to ?c st)\<lparr>ps_generation := ps_generation st + 1, ps_updated_at := now\<rparr>)"
    by (rule bumped_row [OF assms(2) d3(2)]) (simp add: switch_to_def)
  then obtain v where "public_state w (bump w now (switch_to ?c) d3) = Inr v" "vw_active v = ?c"
      "vw_status v = (if ?c = None then ExhaustedPool else ReadyPool)" "vw_generation v = ps_generation st + 1"
      "vw_draining v = None"
    by (rule public_state_states) (simp add: switch_to_def)
  then show ?thesis using d3(1) by (simp add: complete_drain_and_failover_def pool_txn_def Let_def)
qed

lemma drain_completes_witness:
  "\<exists>v d'. complete_drain_and_failover ''w'' 5 (sample_pool DrainingPool [sample_actor_run ''r'' FailedRun]) = (Inr v, d')
     \<and> vw_active v = Some ''k2'' \<and> vw_status v = ReadyPool"
proof -
  let ?d = "sample_pool DrainingPool [sample_actor_run ''r'' FailedRun]"
  have sound: "pool_sound ?d" by (rule sample_pool_sound) simp
  have runs: "acquisition_open_runs ''w'' (drain_generation (sample_state DrainingPool)) ?d = []" by code_simp
  have st: "ps_status (sample_state DrainingPool) = DrainingPool" by (simp add: sample_state_def)
  have "first_standby ''w'' (or_empty (ps_draining (sample_state DrainingPool))) ?d = Some ''k2''" by code_simp
  then show ?thesis using drain_completes [OF sound sample_state_row st runs, of 5] by auto
qed


text \<open>C23: A reorder that keeps the active key first takes effect: with the current generation, outside
  drains and blocks, for any order of exactly the members, the pool shows that order and the next
  generation.\<close>

theorem reorder_takes_effect:
  assumes "members_ok (pd_members d)" "lookup_row ps_workspace_id w (pd_states d) = Some st"
    and "ps_status st \<notin> {DrainingPool, BlockedPool}" "distinct ids" "set ids = set (member_ids w d)"
    and "no_active st \<or> ids = [] \<or> hd ids = or_empty (ps_active st)"
  shows "\<exists>v d'. reorder w (ps_generation st) ids enabled now d = (Inr v, d')
    \<and> map mv_secret_id (vw_members v) = ids \<and> vw_generation v = ps_generation st + 1 \<and> vw_active v = ps_active st"
proof -
  have "distinct (member_ids w d)" using member_rows_distinct [OF assms(1), of w] by (simp add: member_ids_def)
  then have len: "length ids = length (member_ids w d)" using assms(4,5) by (metis distinct_card)
  obtain d2 where d2: "compact_positions w ids d = Inr d2" "repositions d d2"
      "\<And>m i. m \<in> set (pd_members d2) \<Longrightarrow> pm_workspace_id m = w \<Longrightarrow> i < length ids \<Longrightarrow> pm_secret_id m = ids ! i
         \<Longrightarrow> pm_position m = int i"
    using compact_succeeds [OF assms(1,4,5)] by blast
  have "members_ok (pd_members d2)" "set ids = set (member_ids w d2)"
    using repositionsD(7) [OF d2(2) assms(1)] member_ids_repositions [OF d2(2), of w] assms(5) by simp_all
  then have ids: "member_ids w d2 = ids" by (rule member_ids_placed [OF _ assms(4) _ d2(3)])
  have head: "\<not> (truthy (or_empty (ps_active st)) \<and> ids \<noteq> [] \<and> hd ids \<noteq> or_empty (ps_active st))"
    using assms(6) by (auto simp: no_active_def)
  let ?d' = "bump w now id d2"
  have "lookup_row ps_workspace_id w (pd_states ?d') =
      Some ((id st)\<lparr>ps_generation := ps_generation st + 1, ps_updated_at := now\<rparr>)"
    by (rule bumped_row [OF assms(2) repositionsD(2) [OF d2(2)]]) simp
  then obtain v where v: "public_state w ?d' = Inr v" "vw_active v = ps_active st" "vw_generation v = ps_generation st + 1"
      "map mv_secret_id (vw_members v) = member_ids w ?d'"
    by (rule public_state_states) simp
  have "member_ids w ?d' = ids" using ids by (simp add: member_ids_def member_rows_def)
  moreover have "reorder w (ps_generation st) ids enabled now d = (Inr v, ?d')"
    unfolding reorder_def pool_txn_def reorder_body_def Let_def
    by (simp only: state_row_def assms(2) option.case try_then_values head len assms(3-5) d2(1) committed_def v(1)
        if_False if_True not_True_eq_False not_False_eq_True simp_thms sum.case prod.case)
  ultimately show ?thesis using v by blast
qed

lemma reorder_takes_effect_witness:
  "\<exists>v d'. reorder ''w'' 3 [''k1'', ''k2''] True 5 (sample_pool ReadyPool []) = (Inr v, d')
     \<and> map mv_secret_id (vw_members v) = [''k1'', ''k2'']"
proof -
  have ok: "members_ok (pd_members (sample_pool ReadyPool []))"
    using sample_pool_sound [of ReadyPool] by (simp add: pool_sound_def)
  have "member_ids ''w'' (sample_pool ReadyPool []) = [''k1'', ''k2'']" by code_simp
  then have ids: "set [''k1'', ''k2''] = set (member_ids ''w'' (sample_pool ReadyPool []))" by (simp only:)
  have st: "ps_status (sample_state ReadyPool) \<notin> {DrainingPool, BlockedPool}" "ps_generation (sample_state ReadyPool) = 3"
      "no_active (sample_state ReadyPool) \<or> [''k1'', ''k2''] = [] \<or> hd [''k1'', ''k2''] = or_empty (ps_active (sample_state ReadyPool))"
    by (simp_all add: sample_state_def)
  have dist: "distinct [''k1'', ''k2'']" by simp
  show ?thesis using reorder_takes_effect [OF ok sample_state_row st(1) dist ids st(3), of True 5]
    unfolding st(2) by (elim exE conjE, intro exI conjI)
qed

text \<open>C21: A lease for an acquisition pins the active key: the pool is ready at the generation of the
  lease, the leased key is its one active acquisition key and was not among the attempted ones, the
  token is the trimmed value of its environment name, and the run under the lease is reserved.\<close>

theorem lease_pins_the_active_key:
  assumes "acquire_credential c attempted d = (Inr l, d')" "kc_purpose c = AcquisitionRun"
  shows "\<exists>st r. lookup_row ps_workspace_id (kc_workspace_id c) (pd_states d') = Some st \<and> ps_status st = ReadyPool
    \<and> ps_active st = Some (ls_secret_id l) \<and> ls_pool_generation l = ps_generation st
    \<and> keys_of (kc_workspace_id c) d' (ls_secret_id l) = Some (AcquisitionKey, ActiveKey)
    \<and> ls_secret_id l \<notin> set attempted \<and> token_for_env c (ls_env_name l) = Some (ls_token l)
    \<and> run_for_lease l d' = Inr r \<and> ar_status r = ReservedRun"
proof -
  obtain tried d0 where body: "set attempted \<subseteq> set tried" "acquire_body c tried d0 = Inr (Inr (Leased l), d')"
    using acquire_credential_leased [OF assms(1)] by blast
  from body(2) show ?thesis
  proof (cases rule: acquire_body_cases)
    case (validation st)
    then show ?thesis using assms(2) by simp
  next
    case (active st)
    from active(3) show ?thesis
    proof (cases rule: acquire_active_cases)
      case (leased s m sr token stale)
      obtain r where r: "run_for_lease l d' = Inr r" "ar_status r = ReservedRun" "ls_secret_id l = sr_id sr"
          "ls_pool_generation l = ps_generation st" "pd_states d' = pd_states d0" "pd_members d' = pd_members d0"
        using reserved_run [OF leased(11)] by metis
      have "token_for_env c (ls_env_name l) = Some (ls_token l)"
        using leased(9,11) by (auto elim!: reserve_cases simp: lease_of_def)
      moreover have "keys_of (kc_workspace_id c) d' s = Some (AcquisitionKey, ActiveKey)"
        using leased(5-7) by (simp add: keys_of_def find_member_def r(6) role_status_def)
      ultimately show ?thesis using active(1) leased r body(1) by auto
    qed simp
  qed
qed

lemma lease_pins_the_active_key_witness:
  "\<exists>l d'. acquire_credential sample_call [] (sample_pool ReadyPool []) = (Inr l, d')
     \<and> keys_of ''w'' d' (ls_secret_id l) = Some (AcquisitionKey, ActiveKey)"
proof -
  have "\<not> isl (fst (acquire_credential sample_call [] (sample_pool ReadyPool [])))" by code_simp
  then obtain l d' where l: "acquire_credential sample_call [] (sample_pool ReadyPool []) = (Inr l, d')"
    by (cases "acquire_credential sample_call [] (sample_pool ReadyPool [])"; cases "fst (acquire_credential sample_call [] (sample_pool ReadyPool []))") auto
  then show ?thesis using lease_pins_the_active_key [OF l] by (auto simp: sample_call_def)
qed

text \<open>C24: Acquiring ends: every further round has drained a member that was not tried before, so one
  round more than there are members is enough, and \<open>acquire_credential\<close> is the value of those rounds.\<close>

theorem acquire_credential_ends:
  "acquire_rounds (Suc (length (pd_members d))) c attempted d = Some (acquire_credential c attempted d)"
  using acquire_rounds_enough [of d c attempted] by (auto simp: acquire_credential_def simp del: acquire_rounds.simps)

text \<open>C25: When the evidence about an unknown start releases a block that was laid over a drain, the pool
  is shown as ready although its key is still draining: no acquisition succeeds from then on, and
  neither it nor the failover changes anything.\<close>

theorem released_drain_is_stuck:
  assumes "pool_sound d" "lookup_row ps_workspace_id w (pd_states d) = Some st" "ps_status st = BlockedPool"
    and "unknown_start_reason (ps_blocked_reason st)" "\<not> acquisition_pending w (\<lambda>r. ar_status r = UnknownStart) d"
    and "ps_active st = Some s" "keys_of w d s = Some (AcquisitionKey, DrainingKey)"
    and "kc_workspace_id c = w" "kc_purpose c = AcquisitionRun"
  shows "\<exists>d'. release_unknown_start_block w now d = Inr d'
    \<and> (\<exists>st'. lookup_row ps_workspace_id w (pd_states d') = Some st' \<and> ps_status st' = ReadyPool \<and> ps_active st' = Some s)
    \<and> (\<exists>e. acquire_credential c attempted d' = (Inl e, d')) \<and> snd (complete_drain_and_failover w later d') = d'"
proof -
  let ?f = "\<lambda>x. x\<lparr>ps_status := (if ps_active x = None then ExhaustedPool else ReadyPool), ps_blocked_reason := None\<rparr>"
  let ?d' = "bump w now ?f d"
  have release: "release_unknown_start_block w now d = Inr ?d'"
    using assms(2-5) by (simp add: release_unknown_start_block_def state_row_def)
  obtain st' where st': "lookup_row ps_workspace_id w (pd_states ?d') = Some st'" "ps_status st' = ReadyPool" "ps_active st' = Some s"
    using bumped_row [OF assms(2) refl, of ?f now] assms(6) by auto
  obtain m where m: "find_member w s ?d' = Some m" "pm_status m = DrainingKey"
    using assms(7) by (auto simp: keys_of_def find_member_def role_status_def)
  have "\<exists>e. acquire_body c attempted ?d' = Inl e"
    using st' m assms(8,9)
    by (auto simp: acquire_body_def acquire_active_def state_row_def Let_def split: option.splits)
  then obtain e where "acquire_round c attempted ?d' = (Inl e, ?d')"
    by (auto simp: acquire_round_def pool_txn_def)
  then have "acquire_credential c attempted ?d' = (Inl e, ?d')" by (simp add: acquire_credential_def)
  moreover have "snd (complete_drain_and_failover w later ?d') = ?d'"
    using st' by (simp add: complete_drain_and_failover_def pool_txn_def failover_body_def state_row_def committed_def)
  ultimately show ?thesis using release st' by blast
qed

lemma released_drain_is_stuck_witness:
  "\<exists>d'. release_unknown_start_block ''w'' 5 (sample_pool BlockedPool []) = Inr d'
     \<and> (\<exists>e. acquire_credential sample_call [] d' = (Inl e, d'))"
proof -
  have "pool_sound (sample_pool BlockedPool [])" by (rule sample_pool_sound) simp
  moreover have "unknown_start_reason (ps_blocked_reason (sample_state BlockedPool))" by code_simp
  moreover have "keys_of ''w'' (sample_pool BlockedPool []) ''k1'' = Some (AcquisitionKey, DrainingKey)" by code_simp
  moreover have "ps_status (sample_state BlockedPool) = BlockedPool" "ps_active (sample_state BlockedPool) = Some ''k1''"
    by (simp_all add: sample_state_def)
  moreover have "\<not> acquisition_pending ''w'' (\<lambda>r. ar_status r = UnknownStart) (sample_pool BlockedPool [])"
    by (simp add: acquisition_pending_def sample_pool_def)
  moreover have "kc_workspace_id sample_call = ''w''" "kc_purpose sample_call = AcquisitionRun" by (simp_all add: sample_call_def)
  ultimately show ?thesis
    using released_drain_is_stuck [OF _ sample_state_row, of BlockedPool "[]" "''k1''" sample_call 5 "[]"] by blast
qed

end
