(* ===== verification/Spec2Isabelle.thy ===== *)
theory Spec2Isabelle
  imports InfoLeases InfoEvents InfoRequests IsoTime QueueProps JobDedup QueueRefine SourceHealth SettingProposals
    RouteExecution CandidateHealth ActorDiscovery KeyProps
begin

text \<open>
  \<^bold>\<open>InfoHub Light: the job queue, the schedulers, the limits, ActorOps, its keys, and automations\<close>

  InfoHub collects the posts of subscribed sources.  An API process and a worker share one SQLite
  file (\<open>src/src/storage/service_store.py\<close>).  Users and schedulers create jobs, the worker claims
  them, asks before every upstream attempt whether it is still wanted and within the quotas, runs
  it, records the health of each source and finishes the job.  Sources served by paid actors go
  through ActorOps (\<open>src/src/services/actorops\<close>): routes with ordered candidates, a ledger of paid
  attempts, circuits per source, discovery of new candidates.  A paid attempt needs a lease of the
  active key of a pool (\<open>src/src/services/apify_key_pool.py\<close>), which drains failing keys.  Users describe reminders in words
  (\<open>src/src/services/information_automations\<close>): rules collect the events of new articles into runs,
  connectors claim the steps of a run, ask a model and submit results, and a matched run is sent
  once.  Only the database and its rows tie
  these parts together, so the model is a database value passed through functions, one per
  operation.

  \<^bold>\<open>Theories and the code they model\<close>

  \<^item> \<open>Prelude\<close>, \<open>PyText\<close>, \<open>IsoTime\<close>: exceptions as values, tables as lists of rows with UPDATE,
    DELETE and SELECT, the Python text functions, and the proof that stored timestamps compare as
    the instants the model uses.
  \<^item> \<open>Store\<close>, \<open>Samples\<close>: the tables of the service store, a connection with its open transaction
    (BEGIN IMMEDIATE, commit, rollback, \<open>execute_txn\<close>), foreign keys; sample rows.
  \<^item> \<open>JobQueue\<close>: \<open>job_queue.py\<close>, \<open>job_queue_claims.py\<close>, \<open>job_cancellation.py\<close> and the worker
    policies that decide whether a claimed job runs.  \<open>JobQueueSpec\<close> gives each operation on every
    branch, \<open>JobLifecycle\<close> the abstract table machine and its invariants, \<open>QueueReach\<close> the states
    runs reach, \<open>QueueProps\<close> the properties, \<open>JobDedup\<close> the creation of deduplicated jobs,
    \<open>QueueRefine\<close> the refinement of the life cycle.
  \<^item> \<open>JobEligibility\<close>, \<open>Quota\<close>: \<open>job_eligibility.py\<close>, \<open>quota.py\<close>.
  \<^item> \<open>SystemSettings\<close>, \<open>SettingProposals\<close>: \<open>system_settings_registry.py\<close>, \<open>system_settings.py\<close>,
    \<open>system_settings_proposals.py\<close>.
  \<^item> \<open>Schedules\<close>, \<open>FeedSchedule\<close>, \<open>SourceSchedule\<close>: \<open>schedule_runtime.py\<close>,
    \<open>worker_schedule_gate.py\<close>, \<open>feed_schedule.py\<close>, \<open>source_schedule.py\<close>.
  \<^item> \<open>SourceHealth\<close>: \<open>source_health.py\<close> with the outcomes of \<open>feed_run.py\<close>.
  \<^item> \<open>ActorDomain\<close>: \<open>domain.py\<close>, \<open>policy.py\<close> of ActorOps.  \<open>ActorStore\<close>: its tables, constraints and
    triggers, and the repository transaction.  \<open>ActorAttempts\<close>: \<open>repository_attempts.py\<close>.
    \<open>ActorRoutes\<close>, \<open>RoutePromotion\<close>, \<open>RouteExecution\<close>: \<open>repository_candidates.py\<close>,
    \<open>route_controls.py\<close>, \<open>repository_execution.py\<close>, \<open>repository_cutover.py\<close>,
    \<open>repository_bindings.py\<close>.  \<open>SourceCircuit\<close>: \<open>source_candidate_circuit.py\<close>,
    \<open>repository_freshness.py\<close>.  \<open>CandidateHealth\<close>: \<open>runtime_candidate_health.py\<close>.
    \<open>ActorDiscovery\<close>: \<open>repository_discovery.py\<close>.
  \<^item> \<open>PyJson\<close>: \<open>json.dumps\<close>.  \<open>InfoStore\<close>: the tables of the automations and what other services
    answer.  \<open>InfoBatches\<close>, \<open>InfoSteps\<close>, \<open>InfoWork\<close>: \<open>batches.py\<close>.  \<open>InfoRules\<close>, \<open>InfoChanges\<close>:
    \<open>rules.py\<close>, \<open>model_change.py\<close>, \<open>approved_context\<close>.  \<open>InfoClaims\<close>: \<open>semantic_claims.py\<close>,
    \<open>claim_context.py\<close>, \<open>connector_auth.py\<close>, \<open>execution_capability.py\<close>.  \<open>InfoSchedule\<close>:
    \<open>events.py\<close>, \<open>scheduling.py\<close>, \<open>execution.py\<close>, \<open>content.py\<close>.  \<open>InfoDelivery\<close>: \<open>delivery.py\<close>.
    \<open>InfoPreviews\<close>, \<open>InfoPreviewDelivery\<close>: \<open>semantic_previews.py\<close>, \<open>preview_recovery.py\<close>,
    \<open>preview_delivery.py\<close>.  \<open>InfoConnectors\<close>: \<open>connector_auth.py\<close>, \<open>model_catalog.py\<close>,
    \<open>model_refresh.py\<close>.  \<open>InfoEvolve\<close>, \<open>InfoTrials\<close>, \<open>InfoOnce\<close>, \<open>InfoColumns\<close>, \<open>InfoLeases\<close>,
    \<open>InfoEvents\<close>, \<open>InfoRequests\<close>: the machine of all these operations and its invariants.
  \<^item> \<open>KeyPool\<close>, \<open>KeyRuns\<close>, \<open>KeyQuota\<close>: \<open>apify_key_pool.py\<close>, \<open>apify_pool_drain.py\<close>,
    \<open>actorops_start_fence.py\<close>, \<open>apify_key_pool_unknown_start.py\<close>, \<open>apify_settled_start_recovery.py\<close>.
    \<open>KeyFrames\<close>: what a successful statement did.  \<open>KeySound\<close>, \<open>KeyKeeps\<close>, \<open>KeyLeases\<close>: the
    invariant of the key in use and that each method keeps it.  \<open>KeyMachine\<close>: all methods as one
    machine.  \<open>KeyFences\<close>, \<open>KeyReservations\<close>: the relations between the states of the machine.
    \<open>KeyOrder\<close>: positions, and when a failover succeeds.  \<open>KeyProps\<close>: the properties.

  \<^bold>\<open>Conventions\<close>

  A method of a service is a function from the connection (or the repository) to an outcome: a
  result or an exception, and the state in both cases.  A row is a record, a table the list of its
  rows in rowid order, an UPDATE returns the number of rows that met its WHERE.  Constraints and
  triggers are tests of the new table; a violated one is \<open>IntegrityError\<close> and leaves the table.
  Text is a HOL string, a Python int an int, a clock reading an argument in microseconds, a fresh
  identifier a draw from an infinite source the state carries.

  \<^bold>\<open>What the lemmas show\<close>

  \<^item> Queue: a claim takes the first claimable row under a token no other claim has; a worker that
    lost its lease never writes again; finished jobs are final; a job has finitely many attempts;
    a user has at most one active full refresh; the operations refine a small life cycle.
  \<^item> Admission: an attempt that is allowed has live users, sources and subscriptions behind it;
    no sequence of admissions exceeds a limit (a locale of metered admissions, interpreted for
    each quota).
  \<^item> Schedules: updates take effect and keep schedules well formed; a scheduler run postpones each
    due schedule once (a locale of due schedulers, interpreted for feeds and sources); a schedule
    keeps belonging to its subscription, so that one query for many equals the single reads.
  \<^item> Settings: every resolved value is valid, a proposal is applied once and on its generation.
  \<^item> Health: a stored streak is the length of the streak of failures in the history, and a job
    counts once.
  \<^item> ActorOps: attempts and discoveries move forward only, stale writers are refused, a logical job
    pays once for each candidate and kind of attempt, a promotion swaps two candidates through states the unique indexes
    accept and can be undone, a publication needs the binding the execution froze, a half open
    circuit admits one job, the search for separated failures is exact.
  \<^item> Automations: cutting up and packing loses no text, a batch ends, a result is accepted once, a
    user has one live claim and a daily limit, a collection records exactly its new articles once, the
    log of events is in the order of a clock that does not go back, a run takes the first
    matching events and leaves exactly the others, a reminder and the notification of a test are
    handed to their transport at most once, the number of a request names one test for ever, a
    connector has one open refresh request.  What holds for every sequence of operations rests on a
    locale of operations that lifts a law of single steps, interpreted for the runs, the claims,
    the requests and the refreshes; locales of columns show once which operations leave a table
    alone: the events, the claims, the requests and the refreshes.

  \<^item> Key pool: one key in use per workspace, pinned by every lease, and the one call of the program that
    can break this (\<open>record_member_quota\<close> for the validation key of a pool without a key); a generation
    names its key, an attempt holds one open reservation, and the calls that can break this, an ended run is final, a drain completes as soon as its runs
    have ended, a reorder makes the requested order.  A locale of relations between pool states is
    stated over the few statements the methods are made of, and interpreted for three relations.

  \<^bold>\<open>Termination, fuel and bounds\<close>

  Every definition is a total function; loops of the code run over lists and are recursions or
  folds over them, so that no fuel is needed, with one exception: \<open>acquire_credential\<close> calls itself
  after each key it had to drain, and \<open>acquire_rounds\<close> counts these calls; one round more than the
  pool has members is enough (\<open>acquire_credential_ends\<close>).  The loops of the automations that are not
  (\<open>content_units\<close>, the calendar of \<open>batch_cutoff\<close>) have a measure.  The statements about runs quantify over lists of
  operations of any length.

  \<^bold>\<open>Arguments that stand for other code\<close>

  \<open>parse\<close> decodes the manifest of a candidate, \<open>digest\<close> is SHA-256 (the lease theorems say what
  they need of it: two jobs have different tokens), \<open>sanitize\<close> redacts a message, the state of an
  actor binding and, in the schedulers, the gate of the key pool are values, and so are the sources served by a
  fallback and the time of the next repair, and whether a storage migration is pending.  The
  process environment is a map.  For the automations the record \<open>info_env\<close> holds the answers of the
  accounts, subscriptions, agents, notification targets and stored articles, the clock of a zone,
  SHA-256, and whether an address is a plain web address; the answer of a transport is an argument.
  For the key pool the secret store is a map from environment names to values, fresh identifiers
  come from a source, and the callback that aborts a run is a function whose \<open>None\<close> means that the
  time for the abort loop is over.

  \<^bold>\<open>Not modelled\<close>

  The fetching and reshaping of posts (scrapers, ActorOps adapters, orchestrator), calls of
  language models, the projections shown on pages, other notifications and media, the HTTP and MCP layers that call these services, the
  reconciliation loop over the key pool, the subscription editor, the asynchronous loop of the worker, migrations.  Columns no
  modelled code reads are left out of the records.  Waiting for locks, crashes between statements
  and concurrent readers are not modelled: a transaction is one step, which BEGIN IMMEDIATE
  gives, and the interleavings are the sequences of steps.  The manifest beside the development
  lists every part with its status.
\<close>

end
